(* ===== verification/Prelude.thy ===== *)
theory Prelude
  imports Main "HOL-Library.Word" "HOL-Library.Char_ord" "HOL-Library.List_Lexorder"
    "HOL-Library.Multiset"
begin

text \<open>
  Shared vocabulary of the development.

  A Rust \<open>String\<close> is the list of its UTF-8 bytes (\<open>string\<close>), so \<open>length\<close> is \<open>str::len\<close>, the
  order of \<open>Char_ord\<close> and \<open>List_Lexorder\<close> is \<open>str\<close>'s \<open>Ord\<close>, and the searching and splitting
  operations below are the ones of \<open>str\<close> (splitting at an ASCII byte and comparing bytes agree
  with the character view on valid UTF-8). A fallible operation returns \<open>error + value\<close>.
  \<open>HashMap\<close>, \<open>BTreeMap\<close> and serde's insertion-ordered \<open>Map\<close> are association lists: the list
  order is the iteration order.
\<close>

named_theorems str_simps \<open>evaluation rules of the string operations\<close>
named_theorems result_simps \<open>rules for results of type error + value\<close>

type_synonym 'v smap = "(string \<times> 'v) list"
type_synonym i64 = "64 word"
type_synonym u64 = "64 word"
type_synonym u32 = "32 word"

lemma sint_nonneg_bound:
  fixes i :: i64
  assumes "\<not> sint i < 0"
  shows "unat i < 2 ^ 63"
proof -
  have "sint i < 2 ^ 63" using sint_lt [of i] by simp
  with assms have "uint i = sint i"
    by (simp add: uint_sint take_bit_int_eq_self)
  with \<open>sint i < 2 ^ 63\<close> show ?thesis
    by (simp add: unat_eq_nat_uint nat_less_iff)
qed

section \<open>Results\<close>

text \<open>The \<open>?\<close> operator and its iteration over a slice: the first error wins.\<close>

definition rbind :: "'e + 'a \<Rightarrow> ('a \<Rightarrow> 'e + 'b) \<Rightarrow> 'e + 'b" where
  "rbind r f = (case r of Inl e \<Rightarrow> Inl e | Inr a \<Rightarrow> f a)"

definition ok :: "'e + unit" where
  "ok = Inr ()"

definition guard_err :: "bool \<Rightarrow> 'e \<Rightarrow> 'e + unit" where
  "guard_err b e = (if b then Inl e else Inr ())"

fun check_all :: "('a \<Rightarrow> 'e + unit) \<Rightarrow> 'a list \<Rightarrow> 'e + unit" where
  "check_all f [] = Inr ()"
| "check_all f (x # xs) = (case f x of Inl e \<Rightarrow> Inl e | Inr _ \<Rightarrow> check_all f xs)"

fun map_result :: "('a \<Rightarrow> 'e + 'b) \<Rightarrow> 'a list \<Rightarrow> 'e + 'b list" where
  "map_result f [] = Inr []"
| "map_result f (x # xs) =
     (case f x of
        Inl e \<Rightarrow> Inl e
      | Inr y \<Rightarrow> (case map_result f xs of Inl e \<Rightarrow> Inl e | Inr ys \<Rightarrow> Inr (y # ys)))"

definition map_err :: "('e \<Rightarrow> 'f) \<Rightarrow> 'e + 'a \<Rightarrow> 'f + 'a" where
  "map_err f r = (case r of Inl e \<Rightarrow> Inl (f e) | Inr a \<Rightarrow> Inr a)"

lemma rbind_simps [simp, result_simps]:
  "rbind (Inl e) f = Inl e" "rbind (Inr a) f = f a"
  by (simp_all add: rbind_def)

lemma rbind_cong [fundef_cong]:
  "r = r' \<Longrightarrow> (\<And>a. r' = Inr a \<Longrightarrow> f a = g a) \<Longrightarrow> rbind r f = rbind r' g"
  by (cases r') (simp_all add: rbind_def)

lemma rbind_eq_Inr [result_simps]: "rbind r f = Inr b \<longleftrightarrow> (\<exists>a. r = Inr a \<and> f a = Inr b)"
  by (cases r) simp_all

lemma rbind_eq_Inl [result_simps]:
  "rbind r f = Inl e \<longleftrightarrow> r = Inl e \<or> (\<exists>a. r = Inr a \<and> f a = Inl e)"
  by (cases r) simp_all

lemma guard_err_eq [simp, result_simps]:
  "guard_err b e = Inr u \<longleftrightarrow> \<not> b" "guard_err b e = Inl e' \<longleftrightarrow> b \<and> e' = e"
  by (auto simp: guard_err_def)

lemma map_err_eq [simp, result_simps]:
  "map_err f r = Inr a \<longleftrightarrow> r = Inr a"
  "map_err f r = Inl e' \<longleftrightarrow> (\<exists>e. r = Inl e \<and> e' = f e)"
  by (cases r; auto simp: map_err_def)+

lemma check_all_cong [fundef_cong]:
  "xs = ys \<Longrightarrow> (\<And>x. x \<in> set ys \<Longrightarrow> f x = g x) \<Longrightarrow> check_all f xs = check_all g ys"
proof (induction ys arbitrary: xs)
  case (Cons y ys)
  then show ?case by (cases "g y") auto
qed simp

lemma check_all_ok [result_simps]:
  "check_all f xs = Inr u \<longleftrightarrow> (\<forall>x\<in>set xs. f x = Inr ())"
  by (induction xs) (auto split: sum.splits)

lemma check_all_errD: "check_all f xs = Inl e \<Longrightarrow> \<exists>x\<in>set xs. f x = Inl e"
  by (induction xs) (auto split: sum.splits)

lemma map_result_cong [fundef_cong]:
  "xs = ys \<Longrightarrow> (\<And>x. x \<in> set ys \<Longrightarrow> f x = g x) \<Longrightarrow> map_result f xs = map_result g ys"
proof (induction ys arbitrary: xs)
  case (Cons y ys)
  then show ?case by (cases "g y") auto
qed simp

lemma map_result_all: "(\<And>x. x \<in> set xs \<Longrightarrow> f x = Inr (g x)) \<Longrightarrow> map_result f xs = Inr (map g xs)"
  by (induction xs) auto

lemma map_result_ok:
  "map_result f xs = Inr ys \<Longrightarrow> length ys = length xs \<and> (\<forall>i<length xs. f (xs ! i) = Inr (ys ! i))"
proof (induction xs arbitrary: ys)
  case (Cons x xs)
  then obtain y zs where *: "f x = Inr y" "map_result f xs = Inr zs" "ys = y # zs"
    by (auto split: sum.splits)
  with Cons.IH [of zs] show ?case by (auto simp: less_Suc_eq_0_disj)
qed simp

lemma map_result_mem:
  "map_result f xs = Inr ys \<Longrightarrow> y \<in> set ys \<Longrightarrow> \<exists>x\<in>set xs. f x = Inr y"
  by (induction xs arbitrary: ys) (auto split: sum.splits)

section \<open>Strings\<close>

fun strip_prefix :: "string \<Rightarrow> string \<Rightarrow> string option" where
  "strip_prefix [] s = Some s"
| "strip_prefix (p # ps) [] = None"
| "strip_prefix (p # ps) (c # cs) = (if p = c then strip_prefix ps cs else None)"

definition starts_with :: "string \<Rightarrow> string \<Rightarrow> bool" where
  "starts_with s p = (strip_prefix p s \<noteq> None)"

definition strip_suffix :: "string \<Rightarrow> string \<Rightarrow> string option" where
  "strip_suffix p s = map_option rev (strip_prefix (rev p) (rev s))"

definition ends_with :: "string \<Rightarrow> string \<Rightarrow> bool" where
  "ends_with s p = (strip_suffix p s \<noteq> None)"

fun contains_str :: "string \<Rightarrow> string \<Rightarrow> bool" where
  "contains_str [] n = (n = [])"
| "contains_str (c # cs) n = (starts_with (c # cs) n \<or> contains_str cs n)"

fun split_on :: "char \<Rightarrow> string \<Rightarrow> string list" where
  "split_on d [] = [[]]"
| "split_on d (c # cs) =
     (if c = d then [] # split_on d cs
      else (case split_on d cs of w # ws \<Rightarrow> (c # w) # ws | [] \<Rightarrow> [[c]]))"

fun join_with :: "string \<Rightarrow> string list \<Rightarrow> string" where
  "join_with d [] = []"
| "join_with d [w] = w"
| "join_with d (w # ws) = w @ d @ join_with d ws"

lemma strip_prefix_Some [str_simps]: "strip_prefix p s = Some r \<longleftrightarrow> s = p @ r"
  by (induction p s rule: strip_prefix.induct) auto

lemma strip_prefix_append [simp]: "strip_prefix p (p @ r) = Some r"
  by (simp add: strip_prefix_Some)

lemma strip_prefix_None [str_simps]: "strip_prefix p s = None \<longleftrightarrow> (\<forall>r. s \<noteq> p @ r)"
  by (metis not_None_eq strip_prefix_Some)

lemma starts_with_iff [str_simps]: "starts_with s p \<longleftrightarrow> (\<exists>r. s = p @ r)"
  by (auto simp: starts_with_def strip_prefix_Some)

lemma starts_with_length: "starts_with s p \<Longrightarrow> length p \<le> length s"
  by (auto simp: starts_with_iff)

lemma strip_suffix_Some [str_simps]: "strip_suffix p s = Some r \<longleftrightarrow> s = r @ p"
proof -
  have "strip_suffix p s = Some r \<longleftrightarrow> rev s = rev p @ rev r"
    by (auto simp: strip_suffix_def strip_prefix_Some)
  also have "\<dots> \<longleftrightarrow> s = r @ p"
    by (metis rev_append rev_rev_ident)
  finally show ?thesis .
qed

lemma contains_str_iff [str_simps]: "contains_str s n \<longleftrightarrow> (\<exists>a b. s = a @ n @ b)"
proof (induction s)
  case (Cons c cs)
  have "(\<exists>a b. c # cs = a @ n @ b) \<longleftrightarrow> (\<exists>b. c # cs = n @ b) \<or> (\<exists>a b. cs = a @ n @ b)"
    by (metis append_Cons append_Nil list.exhaust list.inject)
  with Cons show ?case by (auto simp: starts_with_iff)
qed auto

lemma contains_char: "contains_str s [c] \<longleftrightarrow> c \<in> set s"
  by (auto simp: contains_str_iff in_set_conv_decomp)

lemma split_on_ne [simp]: "split_on d s \<noteq> []"
  by (induction s) (auto split: list.splits)

lemma split_on_no_sep: "w \<in> set (split_on d s) \<Longrightarrow> d \<notin> set w"
proof (induction s arbitrary: w)
  case (Cons c cs)
  obtain v vs where v: "split_on d cs = v # vs"
    by (meson neq_Nil_conv split_on_ne)
  with Cons show ?case by (auto split: if_splits)
qed simp

lemma join_split [simp]: "join_with [d] (split_on d s) = s"
proof (induction s)
  case (Cons c cs)
  obtain v vs where v: "split_on d cs = v # vs"
    by (meson neq_Nil_conv split_on_ne)
  with Cons show ?case by (cases vs) auto
qed simp

lemma split_on_id: "d \<notin> set s \<Longrightarrow> split_on d s = [s]"
  by (induction s) auto

subsection \<open>Trimming\<close>

text \<open>The UTF-8 encodings of the code points with \<open>char::is_whitespace\<close>.\<close>

definition ws_seqs :: "string list" where
  "ws_seqs =
     [[CHR 0x20], [CHR 0x09], [CHR 0x0A], [CHR 0x0B], [CHR 0x0C], [CHR 0x0D],
      [CHR 0xC2, CHR 0x85], [CHR 0xC2, CHR 0xA0], [CHR 0xE1, CHR 0x9A, CHR 0x80],
      [CHR 0xE2, CHR 0x80, CHR 0x80], [CHR 0xE2, CHR 0x80, CHR 0x81],
      [CHR 0xE2, CHR 0x80, CHR 0x82], [CHR 0xE2, CHR 0x80, CHR 0x83],
      [CHR 0xE2, CHR 0x80, CHR 0x84], [CHR 0xE2, CHR 0x80, CHR 0x85],
      [CHR 0xE2, CHR 0x80, CHR 0x86], [CHR 0xE2, CHR 0x80, CHR 0x87],
      [CHR 0xE2, CHR 0x80, CHR 0x88], [CHR 0xE2, CHR 0x80, CHR 0x89],
      [CHR 0xE2, CHR 0x80, CHR 0x8A], [CHR 0xE2, CHR 0x80, CHR 0xA8],
      [CHR 0xE2, CHR 0x80, CHR 0xA9], [CHR 0xE2, CHR 0x80, CHR 0xAF],
      [CHR 0xE2, CHR 0x81, CHR 0x9F], [CHR 0xE3, CHR 0x80, CHR 0x80]]"

fun strip_any :: "string list \<Rightarrow> string \<Rightarrow> string option" where
  "strip_any [] s = None"
| "strip_any (p # ps) s =
     (case strip_prefix p s of Some r \<Rightarrow> Some r | None \<Rightarrow> strip_any ps s)"

function strip_all :: "string list \<Rightarrow> string \<Rightarrow> string" where
  "strip_all ps s =
     (case strip_any ps s of
        None \<Rightarrow> s
      | Some r \<Rightarrow> if length r < length s then strip_all ps r else s)"
  by pat_completeness auto
termination
  by (relation "measure (\<lambda>(ps, s). length s)") auto

declare strip_all.simps [simp del]

definition trim_start :: "string \<Rightarrow> string" where
  "trim_start s = strip_all ws_seqs s"

definition trim_end :: "string \<Rightarrow> string" where
  "trim_end s = rev (strip_all (map rev ws_seqs) (rev s))"

definition trim :: "string \<Rightarrow> string" where
  "trim s = trim_end (trim_start s)"

lemma strip_all_suffix: "\<exists>p. s = p @ strip_all ps s"
proof (induction ps s rule: strip_all.induct)
  case (1 ps s)
  show ?case
  proof (cases "strip_any ps s")
    case None
    then show ?thesis by (simp add: strip_all.simps [of ps s])
  next
    case (Some r)
    have "\<exists>q. s = q @ r"
      using Some by (induction ps) (auto simp: strip_prefix_Some split: option.splits)
    with 1 Some show ?thesis
      by (auto simp: strip_all.simps [of ps s]) (metis append.assoc)
  qed
qed

lemma trim_empty [simp]: "trim [] = []"
proof -
  have "strip_all ps [] = []" for ps
    using strip_all_suffix [of "[]" ps] by simp
  then show ?thesis by (simp add: trim_def trim_start_def trim_end_def)
qed

lemma trim_infix: "\<exists>a b. s = a @ trim s @ b"
proof -
  obtain a where a: "s = a @ trim_start s"
    using strip_all_suffix [of s ws_seqs] by (auto simp: trim_start_def)
  obtain q where "rev (trim_start s) = q @ strip_all (map rev ws_seqs) (rev (trim_start s))"
    using strip_all_suffix [of "rev (trim_start s)"] by blast
  then have "trim_start s = trim s @ rev q"
    unfolding trim_def trim_end_def by (metis rev_append rev_rev_ident)
  with a show ?thesis by metis
qed

text \<open>Visible ASCII characters end the trimming.\<close>

lemma strip_any_heads: "list_all (\<lambda>p. p \<noteq> [] \<and> hd p \<noteq> c) ps \<Longrightarrow> strip_any ps (c # r) = None"
  by (induction ps) (auto simp: neq_Nil_conv)

lemma ws_heads:
  "list_all (\<lambda>p. p \<noteq> [] \<and> ((of_char (hd p) :: nat) < 33 \<or> 127 < (of_char (hd p) :: nat))) ws_seqs"
  "list_all (\<lambda>p. p \<noteq> [] \<and> ((of_char (hd p) :: nat) < 33 \<or> 127 < (of_char (hd p) :: nat))) (map rev ws_seqs)"
  by code_simp+

lemma no_ws_end:
  assumes "33 \<le> (of_char c :: nat)" "(of_char c :: nat) \<le> 127"
  shows "strip_any ws_seqs (c # r) = None" "strip_any (map rev ws_seqs) (c # r) = None"
  using assms ws_heads by (force intro!: strip_any_heads simp: list_all_iff)+

lemma trim_id:
  assumes "33 \<le> (of_char c :: nat)" "(of_char c :: nat) \<le> 127"
    and "33 \<le> (of_char d :: nat)" "(of_char d :: nat) \<le> 127"
  shows "trim (d # s @ [c]) = d # s @ [c]"
proof -
  have "trim_start (d # s @ [c]) = d # s @ [c]"
    unfolding trim_start_def strip_all.simps [of ws_seqs "d # s @ [c]"] no_ws_end [OF assms(3,4)] option.case ..
  moreover have "strip_all (map rev ws_seqs) (c # r) = c # r" for r
    unfolding strip_all.simps [of "map rev ws_seqs" "c # r"] no_ws_end [OF assms(1,2)] option.case ..
  then have "trim_end (d # s @ [c]) = d # s @ [c]"
    by (simp add: trim_end_def)
  ultimately show ?thesis by (simp add: trim_def)
qed

subsection \<open>Parsing unsigned numbers\<close>

text \<open>\<open>str::parse\<close> for the unsigned types: an optional plus sign, then decimal digits, in range.\<close>

fun digits_val :: "nat \<Rightarrow> string \<Rightarrow> nat option" where
  "digits_val acc [] = Some acc"
| "digits_val acc (c # cs) =
     (let b = (of_char c :: nat)
      in if 48 \<le> b \<and> b \<le> 57 then digits_val (10 * acc + (b - 48)) cs else None)"

definition parse_uint :: "nat \<Rightarrow> string \<Rightarrow> nat option" where
  "parse_uint bound s =
     (let ds = (case s of c # r \<Rightarrow> if c = CHR ''+'' then r else s | [] \<Rightarrow> [])
      in if ds = [] then None
         else (case digits_val 0 ds of
                 Some n \<Rightarrow> if n < bound then Some n else None
               | None \<Rightarrow> None))"

definition parse_usize :: "string \<Rightarrow> nat option" where
  "parse_usize = parse_uint (2 ^ 64)"

definition parse_u32 :: "string \<Rightarrow> nat option" where
  "parse_u32 = parse_uint (2 ^ 32)"

function show_nat :: "nat \<Rightarrow> string" where
  "show_nat n = (if n < 10 then [char_of (48 + n)] else show_nat (n div 10) @ [char_of (48 + n mod 10)])"
  by pat_completeness auto
termination
  by (relation "measure id") auto

declare show_nat.simps [simp del]

lemma digits_val_append:
  "digits_val a (xs @ ys) = (case digits_val a xs of None \<Rightarrow> None | Some b \<Rightarrow> digits_val b ys)"
  by (induction xs arbitrary: a) (auto simp: Let_def)

lemma of_char_digit: "n < 10 \<Longrightarrow> of_char (char_of (48 + n) :: char) = 48 + (n::nat)"
  by (simp add: of_char_of)

lemma digits_val_show_nat: "digits_val 0 (show_nat n) = Some n"
proof (induction n rule: show_nat.induct)
  case (1 n)
  show ?case
  proof (cases "n < 10")
    case True
    then show ?thesis by (simp add: show_nat.simps [of n] of_char_digit del: of_char_of)
  next
    case False
    with 1 have "digits_val 0 (show_nat (n div 10)) = Some (n div 10)" by simp
    with False show ?thesis
      by (simp add: show_nat.simps [of n] digits_val_append of_char_digit del: of_char_of)
  qed
qed

lemma show_nat_inj: "show_nat m = show_nat n \<longleftrightarrow> m = n"
  by (metis digits_val_show_nat option.inject)

lemma show_nat_head: "\<exists>d r. show_nat n = char_of (48 + d) # r \<and> d < (10::nat)"
proof (induction n rule: show_nat.induct)
  case (1 n)
  show ?case
  proof (cases "n < 10")
    case True
    then have "show_nat n = [char_of (48 + n)]" by (simp only: show_nat.simps [of n] if_True)
    with True show ?thesis by blast
  next
    case False
    with 1 obtain d r where "show_nat (n div 10) = char_of (48 + d) # r" "d < (10::nat)" by blast
    moreover from False
    have "show_nat n = show_nat (n div 10) @ [char_of (48 + n mod 10)]"
      by (simp only: show_nat.simps [of n] if_False)
    ultimately show ?thesis by (metis append_Cons)
  qed
qed

lemma char_of_digit_ne_plus: "d < (10::nat) \<Longrightarrow> char_of (48 + d) \<noteq> CHR ''+''"
proof
  assume d: "d < (10::nat)" and e: "char_of (48 + d) = CHR ''+''"
  have "of_char (char_of (48 + d) :: char) = (43::nat)" unfolding e by simp
  with of_char_digit [OF d] show False by simp
qed

lemma parse_uint_show_nat: "n < b \<Longrightarrow> parse_uint b (show_nat n) = Some n"
  using show_nat_head [of n] digits_val_show_nat [of n]
  by (auto simp: parse_uint_def Let_def char_of_digit_ne_plus simp del: char_of_mod_256)

section \<open>Searching and counting\<close>

lemma find_filter: "find P xs = (case filter P xs of [] \<Rightarrow> None | x # _ \<Rightarrow> Some x)"
  by (induction xs) auto

lemma find_split: "P x \<Longrightarrow> \<forall>y\<in>set ys. \<not> P y \<Longrightarrow> find P (ys @ x # zs) = Some x"
  by (induction ys) auto

lemma find_splitD:
  "find P xs = Some x \<Longrightarrow> \<exists>ys zs. xs = ys @ x # zs \<and> P x \<and> (\<forall>y\<in>set ys. \<not> P y)"
proof (induction xs)
  case (Cons a xs)
  show ?case
  proof (cases "P a")
    case True
    with Cons.prems have "x = a" by simp
    with True show ?thesis by fastforce
  next
    case False
    with Cons obtain ys zs where "xs = ys @ x # zs" "P x" "\<forall>y\<in>set ys. \<not> P y" by auto
    with False have "a # xs = (a # ys) @ x # zs \<and> P x \<and> (\<forall>y\<in>set (a # ys). \<not> P y)" by simp
    then show ?thesis by blast
  qed
qed simp

lemma find_first:
  "find P xs = Some x \<longleftrightarrow> (\<exists>ys zs. xs = ys @ x # zs \<and> P x \<and> (\<forall>y\<in>set ys. \<not> P y))"
  using find_split [of P x] find_splitD [of P xs x] by auto

lemma filter_all_length: "length (filter P xs) = length xs \<longleftrightarrow> list_all P xs"
proof (induction xs)
  case (Cons x xs)
  have "length (filter P xs) \<noteq> Suc (length xs)"
    using length_filter_le [of P xs] by linarith
  with Cons show ?case by auto
qed simp

lemma filter_ex_length: "1 \<le> length (filter P xs) \<longleftrightarrow> list_ex P xs"
  by (induction xs) auto

section \<open>Sorting\<close>

text \<open>\<open>slice::sort_by\<close> is stable: an element is inserted before the later ones it equals.\<close>

fun insort_by :: "('a \<Rightarrow> 'a \<Rightarrow> bool) \<Rightarrow> 'a \<Rightarrow> 'a list \<Rightarrow> 'a list" where
  "insort_by le x [] = [x]"
| "insort_by le x (y # ys) = (if le x y then x # y # ys else y # insort_by le x ys)"

definition sort_by :: "('a \<Rightarrow> 'a \<Rightarrow> bool) \<Rightarrow> 'a list \<Rightarrow> 'a list" where
  "sort_by le xs = foldr (insort_by le) xs []"

fun dedup :: "'a list \<Rightarrow> 'a list" where
  "dedup [] = []"
| "dedup [x] = [x]"
| "dedup (x # y # ys) = (if x = y then dedup (y # ys) else x # dedup (y # ys))"

lemma sort_by_simps [simp]:
  "sort_by le [] = []" "sort_by le (x # xs) = insort_by le x (sort_by le xs)"
  by (simp_all add: sort_by_def)

lemma mset_insort_by [simp]: "mset (insort_by le x ys) = add_mset x (mset ys)"
  by (induction ys) auto

lemma mset_sort_by [simp]: "mset (sort_by le xs) = mset xs"
  by (induction xs) auto

lemma set_insort_by [simp]: "set (insort_by le x ys) = insert x (set ys)"
  by (induction ys) auto

lemma set_sort_by [simp]: "set (sort_by le xs) = set xs"
  by (induction xs) auto

lemma length_sort_by [simp]: "length (sort_by le xs) = length xs"
  by (metis mset_sort_by size_mset)

lemma sort_by_eq_Nil [simp]: "sort_by le xs = [] \<longleftrightarrow> xs = []"
  by (metis length_0_conv length_sort_by)

text \<open>A total preorder, given as an argument, is what the comparison functions provide.\<close>

locale total_preorder =
  fixes le :: "'a \<Rightarrow> 'a \<Rightarrow> bool"
  assumes total: "le x y \<or> le y x"
    and trans: "le x y \<Longrightarrow> le y z \<Longrightarrow> le x z"
begin

lemma sorted_insort: "sorted_wrt le ys \<Longrightarrow> sorted_wrt le (insort_by le x ys)"
proof (induction ys)
  case (Cons y ys)
  show ?case
  proof (cases "le x y")
    case True
    then have "le x z" if "z \<in> set ys" for z
      using Cons.prems that trans by auto
    with True Cons show ?thesis by auto
  next
    case False
    then have "le y x" using total by blast
    with False Cons show ?thesis by auto
  qed
qed simp

lemma sorted_sort: "sorted_wrt le (sort_by le xs)"
  by (induction xs) (simp_all add: sorted_insort)

lemma head_le: "sort_by le xs = y # ys \<Longrightarrow> z \<in> set xs \<Longrightarrow> le y z \<or> z = y"
  using sorted_sort [of xs] set_sort_by [of le xs] by auto

lemma refl_le: "le x x"
  using total by blast

lemma insort_sorted_id: "(\<forall>z\<in>set ys. le x z) \<Longrightarrow> insort_by le x ys = x # ys"
  by (cases ys) auto

lemma sort_sorted_id: "sorted_wrt le xs \<Longrightarrow> sort_by le xs = xs"
  by (induction xs) (auto simp: insort_sorted_id)

text \<open>Stability: elements that compare equal to a given one keep their order.\<close>

lemma filter_insort_equiv:
  "sorted_wrt le ys \<Longrightarrow>
   filter (\<lambda>z. le z k \<and> le k z) (insort_by le x ys) =
   (if le x k \<and> le k x then [x] else []) @ filter (\<lambda>z. le z k \<and> le k z) ys"
proof (induction ys)
  case (Cons y ys)
  show ?case
  proof (cases "le x y")
    case False
    have "\<not> (le y k \<and> le k y)" if "le x k" "le k x"
      using False that trans by blast
    with False Cons show ?thesis by auto
  qed (use Cons in auto)
qed simp

lemma sort_stable:
  "filter (\<lambda>z. le z k \<and> le k z) (sort_by le xs) = filter (\<lambda>z. le z k \<and> le k z) xs"
  by (induction xs) (simp_all add: filter_insort_equiv sorted_sort)

end

text \<open>\<open>Vec<String>::sort\<close>.\<close>

definition sort_strings :: "string list \<Rightarrow> string list" where
  "sort_strings = sort_by (\<le>)"

interpretation str_ord: total_preorder "(\<le>) :: string \<Rightarrow> string \<Rightarrow> bool"
  by unfold_locales auto

lemma mset_sort_strings [simp]: "mset (sort_strings xs) = mset xs"
  by (simp add: sort_strings_def)

lemma sort_strings_eq_iff: "sort_strings xs = sort_strings ys \<longleftrightarrow> mset xs = mset ys"
proof
  assume "sort_strings xs = sort_strings ys"
  then show "mset xs = mset ys" by (metis mset_sort_strings)
next
  assume m: "mset xs = mset ys"
  have "sorted (sort_strings zs)" for zs
    using str_ord.sorted_sort [of zs] by (simp add: sort_strings_def)
  then show "sort_strings xs = sort_strings ys"
    using m by (metis mset_sort_strings properties_for_sort)
qed

section \<open>Association lists\<close>

fun obj_get :: "(string \<times> 'v) list \<Rightarrow> string \<Rightarrow> 'v option" where
  "obj_get [] k = None"
| "obj_get ((a, v) # m) k = (if a = k then Some v else obj_get m k)"

text \<open>\<open>insert\<close>: an existing key keeps its place, a new one goes to the end.\<close>

fun obj_insert :: "(string \<times> 'v) list \<Rightarrow> string \<Rightarrow> 'v \<Rightarrow> (string \<times> 'v) list" where
  "obj_insert [] k v = [(k, v)]"
| "obj_insert ((a, w) # m) k v = (if a = k then (a, v) # m else (a, w) # obj_insert m k v)"

definition obj_has :: "(string \<times> 'v) list \<Rightarrow> string \<Rightarrow> bool" where
  "obj_has m k = (obj_get m k \<noteq> None)"

definition obj_keys :: "(string \<times> 'v) list \<Rightarrow> string list" where
  "obj_keys m = map fst m"

definition map_wf :: "(string \<times> 'v) list \<Rightarrow> bool" where
  "map_wf m = distinct (map fst m)"

text \<open>The interface the clients of a map rely on.\<close>

locale kv_map =
  fixes get :: "'m \<Rightarrow> 'k \<Rightarrow> 'v option"
    and ins :: "'m \<Rightarrow> 'k \<Rightarrow> 'v \<Rightarrow> 'm"
    and wf :: "'m \<Rightarrow> bool"
  assumes get_ins: "get (ins m k v) j = (if j = k then Some v else get m j)"
    and wf_ins: "wf m \<Longrightarrow> wf (ins m k v)"
begin

definition ins_all :: "'m \<Rightarrow> ('k \<times> 'v) list \<Rightarrow> 'm" where
  "ins_all m kvs = foldl (\<lambda>m (k, v). ins m k v) m kvs"

lemma wf_ins_all: "wf m \<Longrightarrow> wf (ins_all m kvs)"
  unfolding ins_all_def by (induction kvs arbitrary: m) (auto simp: wf_ins)

lemma get_ins_all_notin: "j \<notin> fst ` set kvs \<Longrightarrow> get (ins_all m kvs) j = get m j"
  unfolding ins_all_def by (induction kvs arbitrary: m) (force simp: get_ins)+

lemma get_ins_all:
  "distinct (map fst kvs) \<Longrightarrow> (j, v) \<in> set kvs \<Longrightarrow> get (ins_all m kvs) j = Some v"
  unfolding ins_all_def
proof (induction kvs arbitrary: m)
  case (Cons kv kvs)
  obtain k w where kv: "kv = (k, w)" by force
  show ?case
  proof (cases "(j, v) \<in> set kvs")
    case True
    with Cons show ?thesis by (simp add: kv)
  next
    case False
    with Cons.prems kv have jk: "j = k" "v = w" by auto
    with Cons.prems kv have "j \<notin> fst ` set kvs" by auto
    then have "get (foldl (\<lambda>m (k, v). ins m k v) (ins m k w) kvs) j = get (ins m k w) j"
      using get_ins_all_notin [of j kvs "ins m k w"] unfolding ins_all_def by simp
    then show ?thesis by (simp add: kv jk get_ins)
  qed
qed simp

end

lemma obj_get_insert: "obj_get (obj_insert m k v) j = (if j = k then Some v else obj_get m j)"
  by (induction m) auto

lemma keys_obj_insert [simp]: "fst ` set (obj_insert m k v) = insert k (fst ` set m)"
proof (induction m)
  case (Cons p m)
  then show ?case by (cases p) auto
qed simp

lemma map_wf_insert: "map_wf m \<Longrightarrow> map_wf (obj_insert m k v)"
proof (induction m)
  case (Cons p m)
  then show ?case by (cases p) (auto simp: map_wf_def)
qed (simp add: map_wf_def)

interpretation om: kv_map obj_get obj_insert map_wf
  by unfold_locales (simp_all add: obj_get_insert map_wf_insert)

declare obj_get_insert [simp]

lemma obj_get_None: "obj_get m k = None \<longleftrightarrow> k \<notin> fst ` set m"
proof (induction m)
  case (Cons p m)
  then show ?case by (cases p) auto
qed simp

lemma obj_get_Some_mem: "obj_get m k = Some v \<Longrightarrow> (k, v) \<in> set m"
  by (induction m) (auto split: if_splits)

lemma obj_get_mem: "map_wf m \<Longrightarrow> (k, v) \<in> set m \<Longrightarrow> obj_get m k = Some v"
  unfolding map_wf_def by (induction m) (auto simp: rev_image_eqI)

lemma obj_has_iff: "obj_has m k \<longleftrightarrow> k \<in> fst ` set m"
  by (auto simp: obj_has_def obj_get_None)

subsection \<open>Ordered maps\<close>

text \<open>A \<open>BTreeMap\<close> keeps its entries in key order; lookups and the interface are those of any map.\<close>

fun bt_insert :: "(string \<times> 'v) list \<Rightarrow> string \<Rightarrow> 'v \<Rightarrow> (string \<times> 'v) list" where
  "bt_insert [] k v = [(k, v)]"
| "bt_insert ((a, w) # m) k v =
     (if k = a then (a, v) # m
      else if k < a then (k, v) # (a, w) # m
      else (a, w) # bt_insert m k v)"

definition bt_wf :: "(string \<times> 'v) list \<Rightarrow> bool" where
  "bt_wf m = sorted_wrt (<) (map fst m)"

lemma obj_get_bt_insert [simp]:
  "obj_get (bt_insert m k v) j = (if j = k then Some v else obj_get m j)"
  by (induction m) auto

lemma keys_bt_insert [simp]: "fst ` set (bt_insert m k v) = insert k (fst ` set m)"
proof (induction m)
  case (Cons p m)
  then show ?case by (cases p) auto
qed simp

lemma bt_wf_insert: "bt_wf m \<Longrightarrow> bt_wf (bt_insert m k v)"
proof (induction m)
  case (Cons p m)
  obtain a w where p: "p = (a, w)" by force
  have keys: "x \<in> fst ` set m \<Longrightarrow> a < x" for x
    using Cons.prems by (auto simp: bt_wf_def p)
  show ?case
  proof (cases "k < a \<or> k = a")
    case True
    with Cons.prems keys show ?thesis by (auto simp: bt_wf_def p intro: less_trans)
  next
    case False
    then have "a < k" by auto
    moreover have "bt_wf (bt_insert m k v)" using Cons by (simp add: bt_wf_def p)
    moreover have "x \<in> fst ` set (bt_insert m k v) \<Longrightarrow> a < x" for x
      using keys \<open>a < k\<close> by auto
    ultimately show ?thesis using False by (auto simp: bt_wf_def p)
  qed
qed (simp add: bt_wf_def)

interpretation bt: kv_map obj_get bt_insert bt_wf
  by unfold_locales (simp_all add: bt_wf_insert)

lemma bt_wf_map_wf: "bt_wf m \<Longrightarrow> map_wf m"
  unfolding bt_wf_def map_wf_def by (simp add: strict_sorted_iff)

end
