(* ===== verification/Floats.thy ===== *)
theory Floats
  imports Prelude
begin

text \<open>
  The IEEE 754 values of the code, at their bit patterns: \<open>f64\<close> and \<open>f32\<close> are words, the
  comparisons are the language's partial order (false on NaN), and the three conversions the
  code performs (integer to float, \<open>usize / usize\<close> through \<open>f32\<close>, \<open>f64 as f32\<close>) round to
  nearest, ties to even. \<open>round_pack mb eb m e\<close> is the bit pattern of \<open>m * 2 ^ e\<close> rounded to a
  format with \<open>mb\<close> stored mantissa bits and \<open>eb\<close> exponent bits.
\<close>

type_synonym f64 = "64 word"
type_synonym f32 = "32 word"

section \<open>Comparison\<close>

definition f64_mag :: "f64 \<Rightarrow> nat" where
  "f64_mag w = unat w mod 2 ^ 63"

definition f64_nan :: "f64 \<Rightarrow> bool" where
  "f64_nan w = (2047 * 2 ^ 52 < f64_mag w)"

definition f64_key :: "f64 \<Rightarrow> int" where
  "f64_key w = (if 2 ^ 63 \<le> unat w then - int (f64_mag w) else int (f64_mag w))"

definition f64_lt :: "f64 \<Rightarrow> f64 \<Rightarrow> bool" where
  "f64_lt a b = (\<not> f64_nan a \<and> \<not> f64_nan b \<and> f64_key a < f64_key b)"

definition f64_le :: "f64 \<Rightarrow> f64 \<Rightarrow> bool" where
  "f64_le a b = (\<not> f64_nan a \<and> \<not> f64_nan b \<and> f64_key a \<le> f64_key b)"

definition f64_eq :: "f64 \<Rightarrow> f64 \<Rightarrow> bool" where
  "f64_eq a b = (\<not> f64_nan a \<and> \<not> f64_nan b \<and> f64_key a = f64_key b)"

definition f64_finite :: "f64 \<Rightarrow> bool" where
  "f64_finite w = (f64_mag w < 2047 * 2 ^ 52)"

definition f32_mag :: "f32 \<Rightarrow> nat" where
  "f32_mag w = unat w mod 2 ^ 31"

definition f32_nan :: "f32 \<Rightarrow> bool" where
  "f32_nan w = (255 * 2 ^ 23 < f32_mag w)"

definition f32_key :: "f32 \<Rightarrow> int" where
  "f32_key w = (if 2 ^ 31 \<le> unat w then - int (f32_mag w) else int (f32_mag w))"

definition f32_lt :: "f32 \<Rightarrow> f32 \<Rightarrow> bool" where
  "f32_lt a b = (\<not> f32_nan a \<and> \<not> f32_nan b \<and> f32_key a < f32_key b)"

definition f32_le :: "f32 \<Rightarrow> f32 \<Rightarrow> bool" where
  "f32_le a b = (\<not> f32_nan a \<and> \<not> f32_nan b \<and> f32_key a \<le> f32_key b)"

section \<open>Rounding\<close>

function bit_len :: "nat \<Rightarrow> nat" where
  "bit_len n = (if n = 0 then 0 else Suc (bit_len (n div 2)))"
  by pat_completeness auto
termination
  by (relation "measure id") auto

declare bit_len.simps [simp del]

definition rne_shift :: "nat \<Rightarrow> nat \<Rightarrow> nat" where
  "rne_shift m s =
     (if s = 0 then m
      else let q = m div 2 ^ s; r = m mod 2 ^ s
           in if 2 ^ (s - 1) < r \<or> r = 2 ^ (s - 1) \<and> odd q then Suc q else q)"

definition lsb_min :: "nat \<Rightarrow> nat \<Rightarrow> int" where
  "lsb_min mb eb = 2 - 2 ^ (eb - 1) - int mb"

definition round_pack :: "nat \<Rightarrow> nat \<Rightarrow> nat \<Rightarrow> int \<Rightarrow> nat" where
  "round_pack mb eb m e =
     (if m = 0 then 0
      else let t = max (int (bit_len m) - 1 + e - int mb) (lsb_min mb eb);
               sig = (if t \<le> e then m * 2 ^ nat (e - t) else rne_shift m (nat (t - e)));
               bits = nat (t - lsb_min mb eb) * 2 ^ mb + sig
           in min bits ((2 ^ eb - 1) * 2 ^ mb))"

text \<open>The significand and exponent of a finite magnitude.\<close>

definition unpack_mag :: "nat \<Rightarrow> nat \<Rightarrow> nat \<Rightarrow> nat \<times> int" where
  "unpack_mag mb eb mag =
     (let ex = mag div 2 ^ mb; fr = mag mod 2 ^ mb
      in if ex = 0 then (fr, lsb_min mb eb)
         else (fr + 2 ^ mb, lsb_min mb eb + int ex - 1))"

definition f64_of_int :: "int \<Rightarrow> f64" where
  "f64_of_int i =
     (if i < 0 then word_of_nat (2 ^ 63 + round_pack 52 11 (nat (- i)) 0)
      else word_of_nat (round_pack 52 11 (nat i) 0))"

definition f64_of_i64 :: "i64 \<Rightarrow> f64" where
  "f64_of_i64 w = f64_of_int (sint w)"

definition f64_of_u64 :: "u64 \<Rightarrow> f64" where
  "f64_of_u64 w = f64_of_int (uint w)"

definition f32_mag_of_nat :: "nat \<Rightarrow> nat" where
  "f32_mag_of_nat n = round_pack 23 8 n 0"

text \<open>
  The quotient of two non-negative finite magnitudes, the divisor not zero: 64 extra bits and
  a sticky bit decide the rounding.
\<close>

definition f32_mag_div :: "nat \<Rightarrow> nat \<Rightarrow> nat" where
  "f32_mag_div a b =
     (let (m1, e1) = unpack_mag 23 8 a;
          (m2, e2) = unpack_mag 23 8 b;
          q = (m1 * 2 ^ 64) div m2;
          r = (m1 * 2 ^ 64) mod m2
      in round_pack 23 8 (2 * q + (if r = 0 then 0 else 1)) (e1 - e2 - 65))"

text \<open>\<open>a as f32 / b as f32\<close> for counts; the code divides only when the divisor is not zero.\<close>

definition f32_ratio :: "nat \<Rightarrow> nat \<Rightarrow> f32" where
  "f32_ratio a b = word_of_nat (f32_mag_div (f32_mag_of_nat a) (f32_mag_of_nat b))"

definition f32_zero :: f32 where
  "f32_zero = 0"

definition f32_one :: f32 where
  "f32_one = 0x3F800000"

text \<open>\<open>f as f32\<close>: NaN keeps its sign and becomes quiet, everything else is rounded.\<close>

definition f32_of_f64 :: "f64 \<Rightarrow> f32" where
  "f32_of_f64 w =
     (let sgn = (if 2 ^ 63 \<le> unat w then 2 ^ 31 else 0); mag = f64_mag w
      in if f64_nan w then word_of_nat (sgn + 0x7FC00000 + (mag mod 2 ^ 51) div 2 ^ 29)
         else if mag = 2047 * 2 ^ 52 then word_of_nat (sgn + 255 * 2 ^ 23)
         else (let (m, e) = unpack_mag 52 11 mag in word_of_nat (sgn + round_pack 23 8 m e)))"

definition f32_finite :: "f32 \<Rightarrow> bool" where
  "f32_finite w = (f32_mag w < 255 * 2 ^ 23)"

text \<open>The widening \<open>f as f64\<close> is exact.\<close>

definition f64_of_f32 :: "f32 \<Rightarrow> f64" where
  "f64_of_f32 w =
     (let sgn = (if 2 ^ 31 \<le> unat w then 2 ^ 63 else 0); mag = f32_mag w
      in if f32_nan w then word_of_nat (sgn + 0x7FF8000000000000 + (mag mod 2 ^ 22) * 2 ^ 29)
         else if mag = 255 * 2 ^ 23 then word_of_nat (sgn + 2047 * 2 ^ 52)
         else (let (m, e) = unpack_mag 23 8 mag in word_of_nat (sgn + round_pack 52 11 m e)))"

section \<open>The comparisons are an order off NaN\<close>

lemma f64_le_total: "\<not> f64_nan a \<Longrightarrow> \<not> f64_nan b \<Longrightarrow> f64_le a b \<or> f64_le b a"
  by (auto simp: f64_le_def)

lemma f64_le_trans: "f64_le a b \<Longrightarrow> f64_le b c \<Longrightarrow> f64_le a c"
  by (auto simp: f64_le_def)

lemma f64_lt_iff: "\<not> f64_nan a \<Longrightarrow> \<not> f64_nan b \<Longrightarrow> f64_lt a b \<longleftrightarrow> \<not> f64_le b a"
  by (auto simp: f64_le_def f64_lt_def)

lemma f64_eq_sym: "f64_eq a b \<longleftrightarrow> f64_eq b a"
  by (auto simp: f64_eq_def)

lemma f32_lt_iff: "\<not> f32_nan a \<Longrightarrow> \<not> f32_nan b \<Longrightarrow> f32_lt a b \<longleftrightarrow> \<not> f32_le b a"
  by (auto simp: f32_le_def f32_lt_def)

section \<open>Ratios of counts\<close>

lemma bit_len_zero [simp]: "bit_len 0 = 0"
  by (simp add: bit_len.simps)

lemma bit_len_bounds: "0 < n \<Longrightarrow> 2 ^ (bit_len n - 1) \<le> n \<and> n < 2 ^ bit_len n \<and> 0 < bit_len n"
proof (induction n rule: bit_len.induct)
  case (1 n)
  then have b: "bit_len n = Suc (bit_len (n div 2))" by (simp add: bit_len.simps [of n])
  show ?case
  proof (cases "n div 2 = 0")
    case True
    then have "n < 2" by (simp add: div_eq_0_iff)
    with 1(2) have "n = 1" by simp
    with b show ?thesis by simp
  next
    case False
    with 1 have h: "2 ^ (bit_len (n div 2) - 1) \<le> n div 2" "n div 2 < 2 ^ bit_len (n div 2)"
      "0 < bit_len (n div 2)" by auto
    then obtain l where l: "bit_len (n div 2) = Suc l" by (cases "bit_len (n div 2)") auto
    with h b show ?thesis by auto
  qed
qed

lemma bit_len_le: "n < 2 ^ k \<Longrightarrow> bit_len n \<le> k"
proof (cases "n = 0")
  case False
  assume "n < 2 ^ k"
  with False bit_len_bounds [of n] have "2 ^ (bit_len n - 1) < (2::nat) ^ k" by linarith
  then have "bit_len n - 1 < k" by simp
  then show ?thesis by simp
qed simp

lemma rne_shift_lt:
  assumes "0 < s" "m + 2 ^ (s - 1) < B * 2 ^ s"
  shows "rne_shift m s < B"
proof -
  obtain u where s: "s = Suc u" using assms(1) by (cases s) auto
  let ?q = "m div 2 ^ s" and ?r = "m mod 2 ^ s"
  have m: "m = ?q * 2 ^ s + ?r" by (rule div_mult_mod_eq [symmetric])
  have lt: "?q < B"
  proof -
    have "?q * 2 ^ s \<le> m" using m by linarith
    with assms(2) have "?q * 2 ^ s < B * 2 ^ s" by linarith
    then show ?thesis by simp
  qed
  have "Suc ?q < B" if "2 ^ u \<le> ?r"
  proof -
    have e: "Suc ?q * 2 ^ s = ?q * 2 ^ s + 2 ^ s" "(2::nat) ^ s = 2 * 2 ^ u" "s - 1 = u"
      by (simp_all add: s)
    from e(2) m that have "?q * 2 ^ s + 2 ^ s \<le> m + 2 ^ u" by linarith
    also have "m + 2 ^ u < B * 2 ^ s" using assms(2) e(3) by (simp only:)
    finally have "Suc ?q * 2 ^ s < B * 2 ^ s" by (simp only: e(1))
    then show ?thesis using mult_less_cancel2 by blast
  qed
  with lt s show ?thesis by (auto simp: rne_shift_def Let_def)
qed

lemma rne_shift_le: "rne_shift m s \<le> m div 2 ^ s + 1"
  by (auto simp: rne_shift_def Let_def)


lemma rne_shift_lt_double:
  assumes "0 < s" "m < B * 2 ^ s"
  shows "rne_shift m s \<le> B"
proof -
  have "m div 2 ^ s < B" using assms(2) by (simp add: less_mult_imp_div_less)
  with rne_shift_le [of m s] show ?thesis by linarith
qed

text \<open>A value below one by more than a quarter of the last place rounds to a value below one.\<close>

lemma round_pack_lt_one:
  assumes M: "M + 2 ^ (k - 25) < 2 ^ k" and k: "25 \<le> k"
  shows "round_pack 23 8 M (- int k) < 127 * 2 ^ 23"
proof (cases "M = 0")
  case False
  let ?L = "bit_len M"
  have Lk: "?L \<le> k" using M by (intro bit_len_le) linarith
  have L: "M < 2 ^ ?L" "0 < ?L" using False bit_len_bounds [of M] by auto
  have lm: "lsb_min 23 8 = - 149" by (simp add: lsb_min_def)
  define t where "t = max (int ?L - 1 - int k - 23) (- 149)"
  define sig where
    "sig = (if t \<le> - int k then M * 2 ^ nat (- int k - t) else rne_shift M (nat (t + int k)))"
  have rp: "round_pack 23 8 M (- int k) \<le> nat (t + 149) * 2 ^ 23 + sig"
    using False by (simp add: round_pack_def Let_def lm t_def sig_def)
  have small: "sig \<le> 2 ^ 24"
  proof (cases "t \<le> - int k")
    case True
    define d where "d = nat (- int k - t)"
    have d: "?L + d \<le> 24" using True unfolding d_def t_def by linarith
    have "sig = M * 2 ^ d" using True by (simp add: sig_def d_def)
    also have "\<dots> \<le> 2 ^ ?L * 2 ^ d" using L(1) by simp
    also have "\<dots> = 2 ^ (?L + d)" by (simp add: power_add)
    also have "\<dots> \<le> 2 ^ 24" by (rule power_increasing [OF d]) simp
    finally show ?thesis .
  next
    case False
    define s where "s = nat (t + int k)"
    have s: "0 < s" "?L \<le> 24 + s" using False unfolding s_def t_def by linarith+
    have "M < 2 ^ 24 * 2 ^ s"
      using L(1) power_increasing [OF s(2), of "2::nat"] by (simp add: power_add)
    with s have "rne_shift M s \<le> 2 ^ 24" by (intro rne_shift_lt_double) auto
    with False show ?thesis by (simp add: sig_def s_def)
  qed
  show ?thesis
  proof (cases "?L = k \<and> t = - 24")
    case False
    then have "t \<le> - 25" using Lk k unfolding t_def by linarith
    then have "nat (t + 149) \<le> 124" by simp
    then have "nat (t + 149) * 2 ^ 23 + sig \<le> 124 * 2 ^ 23 + 2 ^ 24"
      using small by (intro add_mono mult_right_mono) auto
    with rp show ?thesis by simp
  next
    case True
    define s where "s = k - 24"
    have s: "0 < s" "s - 1 = k - 25" "k = 24 + s" using k unfolding s_def by auto
    have "M + 2 ^ (s - 1) < 2 ^ 24 * 2 ^ s"
      using M s(2,3) by (simp add: power_add)
    with s(1) have "rne_shift M s < 2 ^ 24" by (rule rne_shift_lt)
    moreover have "sig = rne_shift M s"
    proof -
      have "\<not> t \<le> - int k" "nat (t + int k) = s" using True s(1,3) by simp_all
      then show ?thesis by (simp only: sig_def if_False)
    qed
    moreover have "nat (t + 149) = 125" using True by simp
    ultimately have "nat (t + 149) * 2 ^ 23 + sig < 125 * 2 ^ 23 + 2 ^ 24" by simp
    also have "125 * 2 ^ 23 + 2 ^ 24 = (127 * 2 ^ 23 :: nat)" by simp
    finally show ?thesis by (rule le_less_trans [OF rp])
  qed
qed (simp add: round_pack_def)

text \<open>Integers below two to the twenty-fourth are represented exactly.\<close>

lemma f32_exact:
  assumes "0 < n" "n < 2 ^ 24"
  shows "unpack_mag 23 8 (f32_mag_of_nat n) = (n * 2 ^ (24 - bit_len n), int (bit_len n) - 24)"
proof -
  let ?L = "bit_len n"
  have L: "?L \<le> 24" "2 ^ (?L - 1) \<le> n" "n < 2 ^ ?L" "0 < ?L"
    using assms bit_len_bounds [of n] bit_len_le [of n 24] by auto
  define d where "d = 24 - ?L"
  define sig where "sig = n * 2 ^ d"
  have sd: "?L + d = 24" "?L - 1 + d = 23" using L unfolding d_def by auto
  have lo: "2 ^ 23 \<le> sig"
  proof -
    have "(2::nat) ^ 23 = 2 ^ (?L - 1) * 2 ^ d" using sd by (simp flip: power_add)
    also have "\<dots> \<le> sig" using L(2) by (simp add: sig_def)
    finally show ?thesis .
  qed
  have hi: "sig < 2 ^ 24"
  proof -
    have "sig < 2 ^ ?L * 2 ^ d" using L(3) by (simp add: sig_def)
    also have "\<dots> = 2 ^ 24" using sd by (simp flip: power_add)
    finally show ?thesis .
  qed
  have lm: "lsb_min 23 8 = - 149" by (simp add: lsb_min_def)
  have t: "max (int ?L - 1 + 0 - int 23) (- 149) = int ?L - 24" by simp
  have te: "int ?L - 24 \<le> 0" "nat (0 - (int ?L - 24)) = d" using L(1) by (auto simp: d_def)
  have tn: "nat (int ?L - 24 - - 149) = ?L + 125" by simp
  have "f32_mag_of_nat n = min ((?L + 125) * 2 ^ 23 + sig) ((2 ^ 8 - 1) * 2 ^ 23)"
    using assms(1) unfolding f32_mag_of_nat_def round_pack_def Let_def lm t
    by (simp only: te tn if_True sig_def) simp
  also have "\<dots> = (?L + 125) * 2 ^ 23 + sig" using L(1) hi by simp
  finally have m0: "f32_mag_of_nat n = (?L + 125) * 2 ^ 23 + sig" .
  define x where "x = sig - 2 ^ 23"
  have x: "sig = x + 2 ^ 23" "x < 2 ^ 23" using lo hi by (auto simp: x_def)
  have m: "f32_mag_of_nat n = x + (?L + 126) * 2 ^ 23" using m0 x(1) by simp
  have "(x + (?L + 126) * 2 ^ 23) div 2 ^ 23 = (?L + 126) + x div 2 ^ 23"
    by (rule div_mult_self1) simp
  with x(2) have "f32_mag_of_nat n div 2 ^ 23 = ?L + 126" by (simp only: m) simp
  moreover have "f32_mag_of_nat n mod 2 ^ 23 = sig - 2 ^ 23"
    using x(2) by (simp only: m mod_mult_self1 mod_less) (simp add: x_def)
  ultimately show ?thesis using lo
    by (simp add: unpack_mag_def Let_def lm sig_def d_def)
qed

lemma f32_div_lt_one:
  assumes c: "0 < c" and ct: "c < t" and t: "t < 2 ^ 24"
  shows "f32_mag_div (f32_mag_of_nat c) (f32_mag_of_nat t) < 127 * 2 ^ 23"
proof -
  define Lc Lt where "Lc = bit_len c" and "Lt = bit_len t"
  have Lt: "Lt \<le> 24" "0 < Lt" "t < 2 ^ Lt"
    using bit_len_le [OF t] bit_len_bounds [of t] ct by (auto simp: Lt_def)
  have Lc: "Lc \<le> Lt" "0 < Lc"
    using bit_len_le [of c Lt] bit_len_bounds [of c] c ct Lt(3) by (auto simp: Lc_def)
  define k where "k = 65 + Lt - Lc"
  define m1 m2 where "m1 = c * 2 ^ (24 - Lc)" and "m2 = t * 2 ^ (24 - Lt)"
  define q r where "q = (m1 * 2 ^ 64) div m2" and "r = (m1 * 2 ^ 64) mod m2"
  define M where "M = 2 * q + (if r = 0 then 0 else 1)"
  have e: "int Lc - 24 - (int Lt - 24) - 65 = - int k" using Lc by (simp add: k_def)
  have u: "unpack_mag 23 8 (f32_mag_of_nat c) = (m1, int Lc - 24)"
    "unpack_mag 23 8 (f32_mag_of_nat t) = (m2, int Lt - 24)"
    using f32_exact [of c] f32_exact [of t] c ct t by (auto simp: m1_def m2_def Lc_def Lt_def)
  have m2: "m2 < 2 ^ 24" "0 < m2"
  proof -
    have "m2 < 2 ^ Lt * 2 ^ (24 - Lt)" using Lt(3) by (simp add: m2_def)
    also have "\<dots> = 2 ^ (Lt + (24 - Lt))" by (rule power_add [symmetric])
    finally show "m2 < 2 ^ 24" using Lt(1) by simp
    show "0 < m2" using ct by (simp add: m2_def)
  qed
  have "M * m2 \<le> m1 * 2 ^ 65 + m2"
  proof -
    have "q * m2 \<le> m1 * 2 ^ 64" unfolding q_def by (rule div_times_less_eq_dividend)
    then have "2 * (q * m2) \<le> m1 * 2 ^ 65" by (simp add: mult.commute)
    moreover have "M * m2 \<le> 2 * (q * m2) + m2" by (simp add: M_def)
    ultimately show ?thesis by linarith
  qed
  moreover have "m1 * 2 ^ 65 + m2 + m2 * 2 ^ (k - 25) < m2 * 2 ^ k"
  proof -
    have p1: "m1 * 2 ^ 65 = c * 2 ^ (89 - Lc)"
    proof -
      have "24 - Lc + 65 = 89 - Lc" using Lc Lt(1) by simp
      then show ?thesis by (simp only: m1_def mult.assoc flip: power_add)
    qed
    have p2: "m2 * 2 ^ k = t * 2 ^ (89 - Lc)"
    proof -
      have "24 - Lt + k = 89 - Lc" using Lc Lt(1) by (simp add: k_def)
      then show ?thesis by (simp only: m2_def mult.assoc flip: power_add)
    qed
    have "(24::nat) \<le> 88 - Lc" using Lc Lt(1) by simp
    then have "(2::nat) ^ 24 \<le> 2 ^ (88 - Lc)" by (rule power_increasing) simp
    with m2(1) have p3: "m2 < 2 ^ (88 - Lc)" by (rule less_le_trans)
    have "m2 * 2 ^ (k - 25) \<le> 2 ^ 24 * 2 ^ (k - 25)" using m2(1) by simp
    also have "\<dots> = 2 ^ (24 + (k - 25))" by (rule power_add [symmetric])
    also have "\<dots> \<le> 2 ^ (88 - Lc)" using Lc Lt(1) by (intro power_increasing) (auto simp: k_def)
    finally have p4: "m2 * 2 ^ (k - 25) \<le> 2 ^ (88 - Lc)" .
    have "89 - Lc = Suc (88 - Lc)" using Lc Lt(1) by simp
    then have p5: "(2::nat) ^ (89 - Lc) = 2 ^ (88 - Lc) + 2 ^ (88 - Lc)" by simp
    have "Suc c * 2 ^ (89 - Lc) \<le> t * 2 ^ (89 - Lc)" using ct by (intro mult_right_mono) auto
    then have "c * 2 ^ (89 - Lc) + 2 ^ (89 - Lc) \<le> t * 2 ^ (89 - Lc)" by simp
    then show ?thesis unfolding p1 p2 using p3 p4 p5 by linarith
  qed
  ultimately have "M * m2 + m2 * 2 ^ (k - 25) < m2 * 2 ^ k" by linarith
  then have "m2 * (M + 2 ^ (k - 25)) < m2 * 2 ^ k" by (simp add: algebra_simps)
  then have "M + 2 ^ (k - 25) < 2 ^ k" by simp
  moreover have "25 \<le> k" using Lc by (simp add: k_def)
  ultimately have "round_pack 23 8 M (- int k) < 127 * 2 ^ 23" by (rule round_pack_lt_one)
  then show ?thesis
    by (simp only: f32_mag_div_def u Let_def prod.case e q_def [symmetric] r_def [symmetric]
        M_def [symmetric])
qed

lemma f32_div_self:
  assumes "0 < t" "t < 2 ^ 24"
  shows "f32_mag_div (f32_mag_of_nat t) (f32_mag_of_nat t) = 127 * 2 ^ 23"
proof -
  have "round_pack 23 8 (2 ^ 65) (- 65) = 127 * 2 ^ 23"
    by (simp add: round_pack_def lsb_min_def bit_len.simps rne_shift_def)
  then show ?thesis
    using assms by (simp add: f32_mag_div_def f32_exact Let_def)
qed

lemma f32_div_zero: "f32_mag_div (f32_mag_of_nat 0) b = 0"
  by (auto simp: f32_mag_div_def f32_mag_of_nat_def round_pack_def unpack_mag_def Let_def
      split: prod.splits)

text \<open>A ratio of counts below two to the twenty-fourth reaches one exactly when the counts agree.\<close>

lemma f32_ratio_ge_one_iff:
  assumes "c \<le> t" "0 < t" "t < 2 ^ 24"
  shows "f32_le f32_one (f32_ratio c t) \<longleftrightarrow> c = t"
proof -
  define x where "x = f32_mag_div (f32_mag_of_nat c) (f32_mag_of_nat t)"
  have x: "x \<le> 127 * 2 ^ 23 \<and> (x = 127 * 2 ^ 23 \<longleftrightarrow> c = t)"
    using assms f32_div_lt_one [of c t] f32_div_self [of t] f32_div_zero [of "f32_mag_of_nat t"]
    by (cases "c = t"; cases "c = 0") (auto simp: x_def)
  then have "unat (word_of_nat x :: f32) = x"
    by (simp add: unat_of_nat take_bit_nat_eq_self)
  with x show ?thesis
    by (auto simp: f32_le_def f32_ratio_def f32_one_def f32_nan_def f32_mag_def f32_key_def
        simp flip: x_def)
qed

end
