(* ===== verification/Json.thy ===== *)
theory Json
  imports Floats
begin

text \<open>
  \<open>serde_json::Value\<close> as the code uses it. A number is a non-negative integer, a negative
  integer or a finite float; an object is an insertion-ordered map (the lock file resolves
  \<open>serde_json\<close> with \<open>indexmap\<close>), so equality of objects ignores the order of the entries.
\<close>

datatype number = NPos u64 | NNeg i64 | NFloat f64

datatype json =
    JNull
  | JBool bool
  | JNum number
  | JStr string
  | JArr "json list"
  | JObj "(string \<times> json) list"

type_synonym jmap = "(string \<times> json) list"

section \<open>Numbers\<close>

definition num_of_i64 :: "i64 \<Rightarrow> number" where
  "num_of_i64 i = (if sint i < 0 then NNeg i else NPos i)"

definition num_of_nat :: "nat \<Rightarrow> number" where
  "num_of_nat n = NPos (word_of_nat n)"

fun num_as_i64 :: "number \<Rightarrow> i64 option" where
  "num_as_i64 (NPos n) = (if unat n < 2 ^ 63 then Some n else None)"
| "num_as_i64 (NNeg i) = Some i"
| "num_as_i64 (NFloat f) = None"

fun num_as_f64 :: "number \<Rightarrow> f64" where
  "num_as_f64 (NPos n) = f64_of_u64 n"
| "num_as_f64 (NNeg i) = f64_of_i64 i"
| "num_as_f64 (NFloat f) = f"

fun num_is_int :: "number \<Rightarrow> bool" where
  "num_is_int (NPos n) = True"
| "num_is_int (NNeg i) = True"
| "num_is_int (NFloat f) = False"

fun num_eq :: "number \<Rightarrow> number \<Rightarrow> bool" where
  "num_eq (NPos a) (NPos b) = (a = b)"
| "num_eq (NNeg a) (NNeg b) = (a = b)"
| "num_eq (NFloat a) (NFloat b) = f64_eq a b"
| "num_eq _ _ = False"

section \<open>Accessors\<close>

fun jget :: "json \<Rightarrow> string \<Rightarrow> json option" where
  "jget (JObj m) k = obj_get m k"
| "jget _ k = None"

fun as_object :: "json \<Rightarrow> jmap option" where
  "as_object (JObj m) = Some m"
| "as_object _ = None"

fun as_array :: "json \<Rightarrow> json list option" where
  "as_array (JArr a) = Some a"
| "as_array _ = None"

fun as_str :: "json \<Rightarrow> string option" where
  "as_str (JStr s) = Some s"
| "as_str _ = None"

fun as_i64 :: "json \<Rightarrow> i64 option" where
  "as_i64 (JNum n) = num_as_i64 n"
| "as_i64 _ = None"

fun as_f64 :: "json \<Rightarrow> f64 option" where
  "as_f64 (JNum n) = Some (num_as_f64 n)"
| "as_f64 _ = None"

section \<open>Equality\<close>

lemma size_snd_mem: "p \<in> set m \<Longrightarrow> size (snd p) < Suc (size_list (size_prod (\<lambda>_. 0) size) m)"
  for m :: "(string \<times> json) list"
proof (induction m)
  case (Cons q m)
  then show ?case by (cases q) auto
qed simp

lemma size_elem_mem: "x \<in> set xs \<Longrightarrow> size x < Suc (size_list size xs)"
  by (induction xs) auto

function (sequential) json_eq :: "json \<Rightarrow> json \<Rightarrow> bool" where
  "json_eq JNull JNull = True"
| "json_eq (JBool a) (JBool b) = (a = b)"
| "json_eq (JNum a) (JNum b) = num_eq a b"
| "json_eq (JStr a) (JStr b) = (a = b)"
| "json_eq (JArr xs) (JArr ys) =
     (length xs = length ys \<and> list_all (\<lambda>p. json_eq (fst p) (snd p)) (zip xs ys))"
| "json_eq (JObj m) (JObj n) =
     (length m = length n \<and>
      list_all (\<lambda>p. case obj_get n (fst p) of Some w \<Rightarrow> json_eq (snd p) w | None \<Rightarrow> False) m)"
| "json_eq _ _ = False"
  by pat_completeness auto
termination
proof (relation "measure (\<lambda>(a, b). size a)")
  fix xs ys :: "json list" and p
  assume "p \<in> set (zip xs ys)"
  then have "fst p \<in> set xs" by (metis prod.collapse set_zip_leftD)
  then have "size (fst p) < Suc (size_list size xs)" by (rule size_elem_mem)
  then show "((fst p, snd p), JArr xs, JArr ys) \<in> measure (\<lambda>(a, b). size a)"
    by (simp add: case_prod_beta)
next
  fix m n :: jmap and p and w :: json
  assume "p \<in> set m"
  then show "((snd p, w), JObj m, JObj n) \<in> measure (\<lambda>(a, b). size a)"
    using size_snd_mem by fastforce
qed simp

definition obj_eq :: "jmap \<Rightarrow> jmap \<Rightarrow> bool" where
  "obj_eq m n = json_eq (JObj m) (JObj n)"

section \<open>Well-formed values\<close>

text \<open>What the library guarantees of every value: distinct keys, finite floats, sign classes.\<close>

fun num_wf :: "number \<Rightarrow> bool" where
  "num_wf (NPos n) = True"
| "num_wf (NNeg i) = (sint i < 0)"
| "num_wf (NFloat f) = f64_finite f"

function json_wf :: "json \<Rightarrow> bool" where
  "json_wf JNull = True"
| "json_wf (JBool b) = True"
| "json_wf (JNum n) = num_wf n"
| "json_wf (JStr s) = True"
| "json_wf (JArr xs) = list_all json_wf xs"
| "json_wf (JObj m) = (map_wf m \<and> list_all (\<lambda>p. json_wf (snd p)) m)"
  by pat_completeness auto
termination
proof (relation "measure size")
  fix xs :: "json list" and x
  assume "x \<in> set xs"
  then show "(x, JArr xs) \<in> measure size"
    by (simp add: size_elem_mem)
next
  fix m :: jmap and p
  assume "p \<in> set m"
  then show "(snd p, JObj m) \<in> measure size"
    using size_snd_mem by fastforce
qed simp

definition jmap_wf :: "jmap \<Rightarrow> bool" where
  "jmap_wf m = json_wf (JObj m)"

lemma jmap_wf_iff: "jmap_wf m \<longleftrightarrow> map_wf m \<and> (\<forall>p\<in>set m. json_wf (snd p))"
  by (simp add: jmap_wf_def list_all_iff)

lemma json_wf_get: "jmap_wf m \<Longrightarrow> obj_get m k = Some v \<Longrightarrow> json_wf v"
  by (force simp: jmap_wf_iff dest: obj_get_Some_mem)

lemma obj_insert_mem: "p \<in> set (obj_insert m k v) \<Longrightarrow> p = (k, v) \<or> p \<in> set m"
  by (induction m k v rule: obj_insert.induct) (auto split: if_splits)

lemma jmap_wf_insert: "jmap_wf m \<Longrightarrow> json_wf v \<Longrightarrow> jmap_wf (obj_insert m k v)"
  by (auto simp: jmap_wf_iff map_wf_insert dest: obj_insert_mem)

lemma num_eq_refl: "num_wf n \<Longrightarrow> num_eq n n"
  by (cases n) (auto simp: f64_eq_def f64_finite_def f64_nan_def)

lemma json_eq_refl: "json_wf v \<Longrightarrow> json_eq v v"
proof (induction v rule: json_wf.induct)
  case (5 xs)
  have "json_eq (fst p) (snd p)" if "p \<in> set (zip xs xs)" for p
  proof -
    from that have "fst p = snd p" "fst p \<in> set xs"
      by (auto simp: set_zip)
    with 5 show ?thesis by (auto simp: list_all_iff)
  qed
  then show ?case by (simp add: list_all_iff)
next
  case (6 m)
  then have wf: "map_wf m" and all: "\<forall>p\<in>set m. json_wf (snd p)"
    by (auto simp: list_all_iff)
  have "obj_get m (fst p) = Some (snd p)" if "p \<in> set m" for p
    using that wf by (simp add: obj_get_mem)
  then have "\<forall>p\<in>set m. case obj_get m (fst p) of Some w \<Rightarrow> json_eq (snd p) w | None \<Rightarrow> False"
    using 6(1) all by auto
  then show ?case by (simp add: list_all_iff)
qed (auto simp: num_eq_refl)

section \<open>Walking a dotted path\<close>

text \<open>
  The loop shared by the path walkers of the code: descend by key into objects and by a
  parsed index into arrays; anything else, a missing key or an index out of range is \<open>None\<close>.
\<close>

fun walk_value :: "json \<Rightarrow> string list \<Rightarrow> json option" where
  "walk_value cur [] = Some cur"
| "walk_value cur (seg # segs) =
     (case cur of
        JObj m \<Rightarrow> (case obj_get m seg of None \<Rightarrow> None | Some v \<Rightarrow> walk_value v segs)
      | JArr a \<Rightarrow>
          (case parse_usize seg of
             None \<Rightarrow> None
           | Some i \<Rightarrow> if i < length a then walk_value (a ! i) segs else None)
      | _ \<Rightarrow> None)"

lemma walk_value_append:
  "walk_value v (p @ q) = (case walk_value v p of None \<Rightarrow> None | Some w \<Rightarrow> walk_value w q)"
proof (induction p arbitrary: v)
  case (Cons s p)
  then show ?case by (cases v) (auto split: option.splits)
qed simp

lemma walk_value_wf: "json_wf v \<Longrightarrow> walk_value v p = Some w \<Longrightarrow> json_wf w"
proof (induction p arbitrary: v)
  case (Cons s p)
  then show ?case
    by (cases v)
      (auto simp: list_all_iff split: option.splits if_splits dest!: obj_get_Some_mem
        dest: nth_mem)
qed simp

end
