(* ===== verification/Packet_Ast.thy ===== *)
theory Packet_Ast
  imports Json
begin

text \<open>
  \<open>src/src/packets/ast.rs\<close> and the \<open>Packet\<close> of \<open>packets/mod.rs\<close>: rule values, the predicate
  vocabulary, rules as authored and as compiled, and the compile-time checks on a predicate
  tree. Errors are values; the message of the code is the constructor with its arguments.
\<close>

section \<open>Values\<close>

datatype val = VBool bool | VInt i64 | VFloat f64 | VStr string

fun val_eq :: "val \<Rightarrow> val \<Rightarrow> bool" where
  "val_eq (VBool a) (VBool b) = (a = b)"
| "val_eq (VInt a) (VInt b) = (a = b)"
| "val_eq (VStr a) (VStr b) = (a = b)"
| "val_eq (VFloat a) (VFloat b) = (a = b)"
| "val_eq (VInt a) (VFloat b) = f64_eq (f64_of_i64 a) b"
| "val_eq (VFloat b) (VInt a) = f64_eq (f64_of_i64 a) b"
| "val_eq _ _ = False"

fun value_from_json :: "json \<Rightarrow> val option" where
  "value_from_json (JBool b) = Some (VBool b)"
| "value_from_json (JNum n) =
     (case num_as_i64 n of Some i \<Rightarrow> Some (VInt i) | None \<Rightarrow> Some (VFloat (num_as_f64 n)))"
| "value_from_json (JStr s) = Some (VStr s)"
| "value_from_json _ = None"

fun value_to_json :: "val \<Rightarrow> json" where
  "value_to_json (VBool b) = JBool b"
| "value_to_json (VInt i) = JNum (num_of_i64 i)"
| "value_to_json (VFloat f) = (if f64_finite f then JNum (NFloat f) else JNull)"
| "value_to_json (VStr s) = JStr s"

section \<open>Comparison operators\<close>

datatype cmp_op = CLt | CLe | CEq | CGe | CGt

fun cmp_apply :: "cmp_op \<Rightarrow> nat \<Rightarrow> nat \<Rightarrow> bool" where
  "cmp_apply CLt l r = (l < r)"
| "cmp_apply CLe l r = (l \<le> r)"
| "cmp_apply CEq l r = (l = r)"
| "cmp_apply CGe l r = (l \<ge> r)"
| "cmp_apply CGt l r = (l > r)"

section \<open>Predicates\<close>

datatype predicate =
    PEq string val
  | PGe string i64
  | PGt string i64
  | PLe string i64
  | PLt string i64
  | PGeF string f64
  | PGtF string f64
  | PLeF string f64
  | PLtF string f64
  | PKeyExists string
  | PIsNull string
  | PIsNonNull string
  | PIsMissing string
  | PFieldEq string string
  | PFieldGt string string
  | PFieldGe string string
  | PFieldLt string string
  | PFieldLe string string
  | PRankGeFieldThreshold string string
  | PAll "predicate list"
  | PAny "predicate list"
  | PNot predicate
  | PForAll string predicate
  | PExists string predicate
  | PCountCmp string cmp_op nat
  | PAlwaysTrue
  | PAlwaysFalse
  | PApply string "string list" "string smap"
  | PStringContains string string bool
  | PInRange string i64 i64
  | PInRangeF string f64 f64
  | PIn string "val list"
  | PStringMatches string string bool
  | PCountMatches "predicate list" cmp_op nat

section \<open>Classification\<close>

definition review_lattice :: "string list" where
  "review_lattice = [''fail'', ''flag'', ''manual'', ''pass'', ''info'']"

text \<open>A \<open>BTreeMap\<close>: the entries in key order.\<close>

definition review_prefix_inference :: "string smap" where
  "review_prefix_inference =
     [(''fail-'', ''fail''), (''fail_'', ''fail''), (''flag-'', ''flag''), (''flag_'', ''flag''),
      (''manual-'', ''manual''), (''manual_'', ''manual''), (''pass-'', ''pass''),
      (''pass_'', ''pass''), (''review-'', ''manual''), (''review_'', ''manual'')]"

definition infer_step ::
  "string \<Rightarrow> (string \<times> string) option \<Rightarrow> string \<times> string \<Rightarrow> (string \<times> string) option" where
  "infer_step rid best pc =
     (if starts_with rid (fst pc)
      then (case best of
              None \<Rightarrow> Some pc
            | Some b \<Rightarrow> if length (fst b) < length (fst pc) then Some pc else Some b)
      else best)"

definition infer_classification_detailed :: "string \<Rightarrow> string smap \<Rightarrow> (string \<times> string) option" where
  "infer_classification_detailed rid prefix_map =
     map_option (\<lambda>(p, c). (c, p)) (foldl (infer_step rid) None prefix_map)"

definition infer_classification :: "string \<Rightarrow> string smap \<Rightarrow> string option" where
  "infer_classification rid prefix_map =
     map_option fst (infer_classification_detailed rid prefix_map)"

section \<open>Rules and packets\<close>

datatype emit = Independent | Fallback

record rule =
  ru_id :: string
  ru_antecedent :: predicate
  ru_consequent :: val
  ru_classification :: string
  ru_emit :: emit
  ru_confidence :: f32
  ru_provenance :: "string list"

record rule_input =
  ri_id :: string
  ri_antecedent :: predicate
  ri_consequent :: val
  ri_classification :: "string option"
  ri_emit :: "emit option"
  ri_confidence :: f32
  ri_provenance :: "string list"

record packet =
  pk_id :: string
  pk_domain :: string
  pk_scope :: string
  pk_project :: "string option"
  pk_rank_table :: "i64 smap"
  pk_threshold_table :: "i64 smap"
  pk_rank_lookup_key :: string
  pk_threshold_lookup_key :: string
  pk_lattice :: "string list"
  pk_prefix_inference :: "string smap"
  pk_rules :: "rule list"
  pk_source_ids :: "string list"
  pk_self_audit_fidelity :: "f32 option"
  pk_created_at :: string
  pk_updated_at :: string
  pk_superseded_by :: "string option"
  pk_merged_from :: "string list"

definition default_confidence :: f32 where
  "default_confidence = f32_one"

section \<open>Authoring errors\<close>

datatype ast_error =
    PathNoStar string string
  | PathEmptyField string string
  | PathEmptySegment string string
  | PathStrayBracket string string
  | NestedForAll string
  | ApplyEmptyId
  | ApplyEmptyExpect
  | ExpectNotInLattice string string "string list"
  | InRule string ast_error
  | NoClassification string
  | NotInLattice string string "string list" "string option"

definition validate_path :: "string \<Rightarrow> string \<Rightarrow> ast_error + unit" where
  "validate_path path ctx =
     (case strip_suffix ''[*]'' path of
        None \<Rightarrow> Inl (PathNoStar ctx path)
      | Some inner \<Rightarrow>
          if inner = [] then Inl (PathEmptyField ctx path)
          else if list_ex (\<lambda>seg. seg = []) (split_on CHR ''.'' inner)
            then Inl (PathEmptySegment ctx path)
          else if contains_str inner ''['' \<or> contains_str inner '']''
            then Inl (PathStrayBracket ctx path)
          else ok)"

fun validate_predicate :: "predicate \<Rightarrow> bool \<Rightarrow> ast_error + unit" where
  "validate_predicate (PForAll path inner) inside =
     rbind (validate_path path ''ForAll'') (\<lambda>_.
       if inside then Inl (NestedForAll path) else validate_predicate inner True)"
| "validate_predicate (PExists path inner) inside =
     rbind (validate_path path ''Exists'') (\<lambda>_. validate_predicate inner inside)"
| "validate_predicate (PCountCmp path c v) inside = validate_path path ''CountCmp''"
| "validate_predicate (PAll args) inside = check_all (\<lambda>a. validate_predicate a inside) args"
| "validate_predicate (PAny args) inside = check_all (\<lambda>a. validate_predicate a inside) args"
| "validate_predicate (PCountMatches args c v) inside =
     check_all (\<lambda>a. validate_predicate a inside) args"
| "validate_predicate (PNot arg) inside = validate_predicate arg inside"
| "validate_predicate (PApply pid expect emap) inside =
     (if trim pid = [] then Inl ApplyEmptyId
      else if expect = [] then Inl ApplyEmptyExpect
      else ok)"
| "validate_predicate _ inside = ok"

section \<open>References to other packets\<close>

text \<open>The ids pushed by the walk, in the order of the pushes.\<close>

fun collect_apply_refs :: "predicate \<Rightarrow> string list" where
  "collect_apply_refs (PApply pid expect emap) = [pid]"
| "collect_apply_refs (PAll args) = concat (map collect_apply_refs args)"
| "collect_apply_refs (PAny args) = concat (map collect_apply_refs args)"
| "collect_apply_refs (PCountMatches args c v) = concat (map collect_apply_refs args)"
| "collect_apply_refs (PNot arg) = collect_apply_refs arg"
| "collect_apply_refs (PForAll path inner) = collect_apply_refs inner"
| "collect_apply_refs (PExists path inner) = collect_apply_refs inner"
| "collect_apply_refs _ = []"

fun collect_apply_by_id :: "predicate \<Rightarrow> string \<Rightarrow> predicate list" where
  "collect_apply_by_id (PApply pid expect emap) target =
     (if pid = target then [PApply pid expect emap] else [])"
| "collect_apply_by_id (PAll args) target = concat (map (\<lambda>a. collect_apply_by_id a target) args)"
| "collect_apply_by_id (PAny args) target = concat (map (\<lambda>a. collect_apply_by_id a target) args)"
| "collect_apply_by_id (PCountMatches args c v) target =
     concat (map (\<lambda>a. collect_apply_by_id a target) args)"
| "collect_apply_by_id (PNot arg) target = collect_apply_by_id arg target"
| "collect_apply_by_id (PForAll path inner) target = collect_apply_by_id inner target"
| "collect_apply_by_id (PExists path inner) target = collect_apply_by_id inner target"
| "collect_apply_by_id _ target = []"

definition rule_antecedents_referencing :: "rule list \<Rightarrow> string \<Rightarrow> predicate list" where
  "rule_antecedents_referencing rs pid =
     concat (map (\<lambda>r. collect_apply_by_id (ru_antecedent r) pid) rs)"

definition check_apply_expect_against_lattice ::
  "predicate list \<Rightarrow> packet \<Rightarrow> ast_error + unit" where
  "check_apply_expect_against_lattice applies sub =
     check_all (\<lambda>p. case p of
         PApply pid expect emap \<Rightarrow>
           check_all (\<lambda>e. guard_err (e \<notin> set (pk_lattice sub))
                             (ExpectNotInLattice pid e (pk_lattice sub))) expect
       | _ \<Rightarrow> ok) applies"

section \<open>Materialising an authored rule\<close>

definition choose_classification ::
  "rule_input \<Rightarrow> string list \<Rightarrow> string smap \<Rightarrow> ast_error + (string \<times> string option)" where
  "choose_classification ri lattice prefix_map =
     (case ri_classification ri of
        Some c \<Rightarrow> Inr (c, None)
      | None \<Rightarrow>
          (case infer_classification_detailed (ri_id ri) prefix_map of
             Some (c, p) \<Rightarrow> Inr (c, Some p)
           | None \<Rightarrow>
               if lattice = [] then Inl (NoClassification (ri_id ri))
               else Inr (last lattice, None)))"

definition materialize ::
  "rule_input \<Rightarrow> string list \<Rightarrow> string smap \<Rightarrow> ast_error + rule" where
  "materialize ri lattice prefix_map =
     rbind (map_err (InRule (ri_id ri)) (validate_predicate (ri_antecedent ri) False)) (\<lambda>_.
     rbind (choose_classification ri lattice prefix_map) (\<lambda>(c, inferred).
       if c \<notin> set lattice then Inl (NotInLattice (ri_id ri) c lattice inferred)
       else Inr \<lparr>ru_id = ri_id ri, ru_antecedent = ri_antecedent ri,
                 ru_consequent = ri_consequent ri, ru_classification = c,
                 ru_emit = (case ri_emit ri of Some e \<Rightarrow> e | None \<Rightarrow> Independent),
                 ru_confidence = ri_confidence ri, ru_provenance = ri_provenance ri\<rparr>))"

section \<open>What the checks accept\<close>

text \<open>
  The specification of an authored predicate, stated on the tree: the paths of its
  quantifiers, the nesting depth of \<open>ForAll\<close>, and its \<open>Apply\<close> nodes.
\<close>

definition path_ok :: "string \<Rightarrow> bool" where
  "path_ok path \<longleftrightarrow>
     (\<exists>f. path = f @ ''[*]'' \<and> f \<noteq> [] \<and> [] \<notin> set (split_on CHR ''.'' f) \<and>
          CHR ''['' \<notin> set f \<and> CHR '']'' \<notin> set f)"

lemma validate_path_ok: "validate_path path ctx = Inr u \<longleftrightarrow> path_ok path"
proof (cases "strip_suffix ''[*]'' path")
  case None
  then have "\<And>f. path \<noteq> f @ ''[*]''" using strip_suffix_Some by (metis option.distinct(1))
  with None show ?thesis by (auto simp: validate_path_def path_ok_def)
next
  case (Some f)
  then have "path = f @ ''[*]''" by (simp add: strip_suffix_Some)
  with Some show ?thesis
    by (auto simp: validate_path_def path_ok_def list_ex_iff contains_char ok_def)
qed

fun quant_paths :: "predicate \<Rightarrow> string list" where
  "quant_paths (PForAll path inner) = path # quant_paths inner"
| "quant_paths (PExists path inner) = path # quant_paths inner"
| "quant_paths (PCountCmp path c v) = [path]"
| "quant_paths (PAll args) = concat (map quant_paths args)"
| "quant_paths (PAny args) = concat (map quant_paths args)"
| "quant_paths (PCountMatches args c v) = concat (map quant_paths args)"
| "quant_paths (PNot arg) = quant_paths arg"
| "quant_paths _ = []"

fun forall_depth :: "predicate \<Rightarrow> nat" where
  "forall_depth (PForAll path inner) = Suc (forall_depth inner)"
| "forall_depth (PExists path inner) = forall_depth inner"
| "forall_depth (PAll args) = foldr max (map forall_depth args) 0"
| "forall_depth (PAny args) = foldr max (map forall_depth args) 0"
| "forall_depth (PCountMatches args c v) = foldr max (map forall_depth args) 0"
| "forall_depth (PNot arg) = forall_depth arg"
| "forall_depth _ = 0"

fun apply_nodes :: "predicate \<Rightarrow> (string \<times> string list) list" where
  "apply_nodes (PApply pid expect emap) = [(pid, expect)]"
| "apply_nodes (PForAll path inner) = apply_nodes inner"
| "apply_nodes (PExists path inner) = apply_nodes inner"
| "apply_nodes (PAll args) = concat (map apply_nodes args)"
| "apply_nodes (PAny args) = concat (map apply_nodes args)"
| "apply_nodes (PCountMatches args c v) = concat (map apply_nodes args)"
| "apply_nodes (PNot arg) = apply_nodes arg"
| "apply_nodes _ = []"

lemma foldr_max_le: "foldr max (map f xs) 0 \<le> (n::nat) \<longleftrightarrow> (\<forall>x\<in>set xs. f x \<le> n)"
  by (induction xs) auto

definition well_authored :: "predicate \<Rightarrow> bool \<Rightarrow> bool" where
  "well_authored p inside \<longleftrightarrow>
     list_all path_ok (quant_paths p) \<and>
     forall_depth p \<le> (if inside then 0 else 1) \<and>
     list_all (\<lambda>(pid, expect). trim pid \<noteq> [] \<and> expect \<noteq> []) (apply_nodes p)"

lemma well_authored_list:
  "(\<forall>a\<in>set args. well_authored a inside) \<longleftrightarrow>
     list_all path_ok (concat (map quant_paths args)) \<and>
     foldr max (map forall_depth args) 0 \<le> (if inside then 0 else 1) \<and>
     list_all (\<lambda>(pid, expect). trim pid \<noteq> [] \<and> expect \<noteq> []) (concat (map apply_nodes args))"
  unfolding foldr_max_le by (auto simp: well_authored_def list_all_iff)

text \<open>What every packet the store hands out satisfies.\<close>

definition packet_wf :: "packet \<Rightarrow> bool" where
  "packet_wf pk \<longleftrightarrow>
     pk_lattice pk \<noteq> [] \<and> pk_rules pk \<noteq> [] \<and> pk_scope pk \<in> {''global'', ''project''} \<and>
     (\<forall>r\<in>set (pk_rules pk). ru_classification r \<in> set (pk_lattice pk) \<and>
        well_authored (ru_antecedent r) False)"

lemma validate_predicate_spec:
  "validate_predicate p inside = Inr () \<longleftrightarrow> well_authored p inside"
proof (induction p inside rule: validate_predicate.induct)
  case (4 args inside)
  then show ?case using well_authored_list [of args inside]
    by (simp add: check_all_ok) (simp add: well_authored_def)
next
  case (5 args inside)
  then show ?case using well_authored_list [of args inside]
    by (simp add: check_all_ok) (simp add: well_authored_def)
next
  case (6 args c v inside)
  then show ?case using well_authored_list [of args inside]
    by (simp add: check_all_ok) (simp add: well_authored_def)
next
  case (1 path inner inside)
  then show ?case
    by (auto simp: rbind_eq_Inr validate_path_ok well_authored_def)
next
  case (2 path inner inside)
  then show ?case
    by (auto simp: rbind_eq_Inr validate_path_ok well_authored_def)
qed (auto simp: validate_path_ok well_authored_def ok_def)

text \<open>The compile-time walk accepts a predicate exactly when every quantified path
  is a non-empty dotted field without empty segments or brackets followed by one \<open>[*]\<close>, no
  \<open>ForAll\<close> stands under another, and every \<open>Apply\<close> names a packet and expects something.\<close>

theorem validate_predicate_iff:
  "validate_predicate p False = Inr () \<longleftrightarrow>
     list_all path_ok (quant_paths p) \<and> forall_depth p \<le> 1 \<and>
     list_all (\<lambda>(pid, expect). trim pid \<noteq> [] \<and> expect \<noteq> []) (apply_nodes p)"
  by (simp add: validate_predicate_spec well_authored_def)

definition best_prefix :: "string \<Rightarrow> string smap \<Rightarrow> (string \<times> string) option \<Rightarrow> bool" where
  "best_prefix rid m b =
     (case b of
        None \<Rightarrow> \<forall>q\<in>set m. \<not> starts_with rid (fst q)
      | Some pc \<Rightarrow> pc \<in> set m \<and> starts_with rid (fst pc) \<and>
          (\<forall>q\<in>set m. starts_with rid (fst q) \<longrightarrow> length (fst q) \<le> length (fst pc)))"

lemma infer_step_best: "best_prefix rid m b \<Longrightarrow> best_prefix rid (m @ [pc]) (infer_step rid b pc)"
  by (cases b)
    (auto simp: best_prefix_def infer_step_def not_less dest: less_imp_le intro: le_trans)

lemma infer_fold_best: "best_prefix rid m (foldl (infer_step rid) None m)"
proof (induction m rule: rev_induct)
  case (snoc pc m)
  then show ?case by (simp add: infer_step_best)
qed (simp add: best_prefix_def)

lemma best_prefix_unique:
  assumes "map_wf m" "best_prefix rid m (Some pc)" "best_prefix rid m (Some qd)"
  shows "pc = qd"
proof -
  from assms have "starts_with rid (fst pc)" "starts_with rid (fst qd)"
    "length (fst pc) = length (fst qd)"
    by (auto simp: best_prefix_def intro: antisym)
  then have "fst pc = fst qd" by (auto simp: starts_with_iff)
  moreover have "pc \<in> set m" "qd \<in> set m" using assms by (auto simp: best_prefix_def)
  ultimately show ?thesis using assms(1)
    by (metis eq_key_imp_eq_value map_wf_def prod.collapse)
qed

text \<open>A classification is inferred from an id exactly through the longest prefix
  of the map the id starts with; the order of the map plays no part.\<close>

theorem infer_longest:
  assumes "map_wf m"
  shows "infer_classification_detailed rid m = Some (c, p) \<longleftrightarrow>
     (p, c) \<in> set m \<and> starts_with rid p \<and>
     (\<forall>q\<in>set m. starts_with rid (fst q) \<longrightarrow> length (fst q) \<le> length p)"
proof -
  let ?b = "foldl (infer_step rid) None m"
  have "infer_classification_detailed rid m = Some (c, p) \<longleftrightarrow> ?b = Some (p, c)"
    by (auto simp: infer_classification_detailed_def)
  also have "\<dots> \<longleftrightarrow> best_prefix rid m (Some (p, c))"
  proof
    assume "best_prefix rid m (Some (p, c))"
    with infer_fold_best [of rid m] best_prefix_unique [OF assms, of rid]
    show "?b = Some (p, c)" by (cases ?b) (auto simp: best_prefix_def)
  qed (metis infer_fold_best)
  finally show ?thesis by (simp add: best_prefix_def)
qed

theorem infer_longest_witness:
  "infer_classification_detailed ''fail_critical_x''
     [(''fail_'', ''fail''), (''fail_critical_'', ''blocker'')] = Some (''blocker'', ''fail_critical_'')"
  by (subst infer_longest) (simp_all add: map_wf_def starts_with_def)

text \<open>A rule that materialises is classified inside the packet's lattice, keeps an
  explicit classification, keeps its id and antecedent, and its antecedent is well authored.\<close>

theorem materialize_classified:
  "materialize ri lattice pm = Inr r \<Longrightarrow>
     ru_classification r \<in> set lattice \<and> well_authored (ru_antecedent r) False \<and>
     ru_id r = ri_id ri \<and> ru_antecedent r = ri_antecedent ri \<and>
     (\<forall>c. ri_classification ri = Some c \<longrightarrow> ru_classification r = c)"
  by (auto simp: materialize_def rbind_eq_Inr choose_classification_def validate_predicate_spec
      split: option.splits if_splits)

theorem materialize_classified_witness:
  "let ri = \<lparr>ri_id = ''flag_size'', ri_antecedent = PGt ''lines'' 400, ri_consequent = VStr ''big'',
             ri_classification = None, ri_emit = None, ri_confidence = default_confidence,
             ri_provenance = []\<rparr>;
       r = \<lparr>ru_id = ''flag_size'', ru_antecedent = PGt ''lines'' 400, ru_consequent = VStr ''big'',
            ru_classification = ''flag'', ru_emit = Independent,
            ru_confidence = default_confidence, ru_provenance = []\<rparr>
   in materialize ri review_lattice review_prefix_inference = Inr r \<and>
      ru_classification r \<in> set review_lattice"
proof -
  let ?ri = "\<lparr>ri_id = ''flag_size'', ri_antecedent = PGt ''lines'' 400, ri_consequent = VStr ''big'',
             ri_classification = None, ri_emit = None, ri_confidence = default_confidence,
             ri_provenance = []\<rparr>"
  let ?r = "\<lparr>ru_id = ''flag_size'', ru_antecedent = PGt ''lines'' 400, ru_consequent = VStr ''big'',
            ru_classification = ''flag'', ru_emit = Independent,
            ru_confidence = default_confidence, ru_provenance = []\<rparr>"
  have m: "materialize ?ri review_lattice review_prefix_inference = Inr ?r"
    by (simp add: materialize_def choose_classification_def infer_classification_detailed_def
        infer_step_def starts_with_def review_prefix_inference_def review_lattice_def ok_def
        map_err_def)
  from materialize_classified [OF m] m show ?thesis by simp
qed

text \<open>A rule value survives the trip through JSON; only a float that JSON cannot
  hold is lost.\<close>

theorem value_json_roundtrip:
  "(\<And>f. v = VFloat f \<Longrightarrow> f64_finite f) \<Longrightarrow> value_from_json (value_to_json v) = Some v"
  using sint_nonneg_bound by (cases v) (auto simp: num_of_i64_def)

theorem value_json_roundtrip_witness:
  "value_from_json (value_to_json (VInt (- 7))) = Some (VInt (- 7))"
  by (rule value_json_roundtrip) simp

end
