(* ===== verification/Packet_Eval.thy ===== *)
theory Packet_Eval
  imports Packet_Ast
begin

text \<open>
  \<open>src/src/packets/coerce.rs\<close> and \<open>src/src/packets/apply.rs\<close>: lookups in an entity, the predicate
  evaluator with packet composition, and the two ways a packet is applied.

  The evaluator's environment holds what is not code of the repository: Unicode lowercasing,
  the regular expression engine (\<open>None\<close> for a pattern that does not compile), and the
  packet lookup behind the \<open>PacketResolver\<close> trait.
\<close>

record eval_env =
  ev_lower :: "string \<Rightarrow> string"
  ev_regex :: "string \<Rightarrow> bool \<Rightarrow> string \<Rightarrow> bool option"
  ev_resolve :: "string \<Rightarrow> packet option"

section \<open>Entity lookups\<close>

definition resolve_entity :: "packet \<Rightarrow> jmap \<Rightarrow> jmap" where
  "resolve_entity pk entity =
     (let resolved =
            (if pk_rank_table pk \<noteq> []
             then (case obj_get entity (pk_rank_lookup_key pk) of
                     Some (JStr key) \<Rightarrow>
                       (case obj_get (pk_rank_table pk) key of
                          Some rank \<Rightarrow>
                            obj_insert entity (pk_rank_lookup_key pk @ ''_rank'')
                              (JNum (num_of_i64 rank))
                        | None \<Rightarrow> entity)
                   | _ \<Rightarrow> entity)
             else entity)
      in if pk_threshold_table pk \<noteq> []
         then (case obj_get entity (pk_threshold_lookup_key pk) of
                 Some (JStr key) \<Rightarrow>
                   (case obj_get (pk_threshold_table pk) key of
                      Some threshold \<Rightarrow>
                        obj_insert resolved
                          (if pk_threshold_lookup_key pk = ''resource'' then ''res_threshold''
                           else pk_threshold_lookup_key pk @ ''_threshold'')
                          (JNum (num_of_i64 threshold))
                    | None \<Rightarrow> resolved)
               | _ \<Rightarrow> resolved)
         else resolved)"

definition entity_get_raw :: "jmap \<Rightarrow> string \<Rightarrow> json option" where
  "entity_get_raw entity field =
     (case obj_get entity field of
        Some v \<Rightarrow> Some v
      | None \<Rightarrow>
          if CHR ''.'' \<notin> set field then None
          else (let parts = split_on CHR ''.'' field
                in case obj_get entity (hd parts) of
                     None \<Rightarrow> None
                   | Some v \<Rightarrow> walk_value v (tl parts)))"

definition entity_get :: "jmap \<Rightarrow> string \<Rightarrow> val option" where
  "entity_get entity field = Option.bind (entity_get_raw entity field) value_from_json"

definition entity_int :: "jmap \<Rightarrow> string \<Rightarrow> i64 option" where
  "entity_int entity field = Option.bind (entity_get_raw entity field) as_i64"

definition entity_f64 :: "jmap \<Rightarrow> string \<Rightarrow> f64 option" where
  "entity_f64 entity field = Option.bind (entity_get_raw entity field) as_f64"

definition entity_has :: "jmap \<Rightarrow> string \<Rightarrow> bool" where
  "entity_has entity field =
     (case entity_get_raw entity field of None \<Rightarrow> False | Some JNull \<Rightarrow> False | Some _ \<Rightarrow> True)"

definition entity_key_exists :: "jmap \<Rightarrow> string \<Rightarrow> bool" where
  "entity_key_exists entity field =
     (if obj_has entity field then True else entity_get_raw entity field \<noteq> None)"

definition entity_is_null :: "jmap \<Rightarrow> string \<Rightarrow> bool" where
  "entity_is_null entity field =
     (case entity_get_raw entity field of Some JNull \<Rightarrow> True | _ \<Rightarrow> False)"

definition resolve_collection :: "jmap \<Rightarrow> string \<Rightarrow> json list option" where
  "resolve_collection entity path =
     (case strip_suffix ''[*]'' path of
        None \<Rightarrow> None
      | Some field \<Rightarrow>
          (case (if CHR ''.'' \<in> set field then entity_get_raw entity field
                 else obj_get entity field) of
             Some (JArr a) \<Rightarrow> Some a
           | _ \<Rightarrow> None))"

section \<open>Evaluating a predicate\<close>

definition apply_entity_map :: "jmap \<Rightarrow> string smap \<Rightarrow> jmap" where
  "apply_entity_map entity entity_map =
     (if entity_map = [] then entity
      else foldl (\<lambda>out (sub_key, outer_key).
                    case obj_get entity outer_key of
                      Some v \<Rightarrow> obj_insert out sub_key v
                    | None \<Rightarrow> out) entity entity_map)"

fun as_sub_entity :: "json \<Rightarrow> jmap" where
  "as_sub_entity (JObj obj) = obj"
| "as_sub_entity other = [(''$'', other)]"

definition max_composition_depth :: nat where
  "max_composition_depth = 8"

definition opt_holds :: "'a option \<Rightarrow> ('a \<Rightarrow> bool) \<Rightarrow> bool" where
  "opt_holds o' p = (case o' of None \<Rightarrow> False | Some v \<Rightarrow> p v)"

definition both_hold :: "'a option \<Rightarrow> 'b option \<Rightarrow> ('a \<Rightarrow> 'b \<Rightarrow> bool) \<Rightarrow> bool" where
  "both_hold a b p = (case (a, b) of (Some l, Some r) \<Rightarrow> p l r | _ \<Rightarrow> False)"

function (sequential) eval_predicate :: "eval_env \<Rightarrow> predicate \<Rightarrow> jmap \<Rightarrow> nat \<Rightarrow> bool" where
  "eval_predicate env PAlwaysTrue entity depth = True"
| "eval_predicate env PAlwaysFalse entity depth = False"
| "eval_predicate env (PEq field v) entity depth =
     opt_holds (entity_get entity field) (\<lambda>w. val_eq w v)"
| "eval_predicate env (PGe field v) entity depth =
     opt_holds (entity_int entity field) (\<lambda>w. sint w \<ge> sint v)"
| "eval_predicate env (PGt field v) entity depth =
     opt_holds (entity_int entity field) (\<lambda>w. sint w > sint v)"
| "eval_predicate env (PLe field v) entity depth =
     opt_holds (entity_int entity field) (\<lambda>w. sint w \<le> sint v)"
| "eval_predicate env (PLt field v) entity depth =
     opt_holds (entity_int entity field) (\<lambda>w. sint w < sint v)"
| "eval_predicate env (PGeF field v) entity depth =
     opt_holds (entity_f64 entity field) (\<lambda>w. f64_le v w)"
| "eval_predicate env (PGtF field v) entity depth =
     opt_holds (entity_f64 entity field) (\<lambda>w. f64_lt v w)"
| "eval_predicate env (PLeF field v) entity depth =
     opt_holds (entity_f64 entity field) (\<lambda>w. f64_le w v)"
| "eval_predicate env (PLtF field v) entity depth =
     opt_holds (entity_f64 entity field) (\<lambda>w. f64_lt w v)"
| "eval_predicate env (PKeyExists field) entity depth = entity_key_exists entity field"
| "eval_predicate env (PIsNull field) entity depth = entity_is_null entity field"
| "eval_predicate env (PIsNonNull field) entity depth = entity_has entity field"
| "eval_predicate env (PIsMissing field) entity depth = (\<not> entity_key_exists entity field)"
| "eval_predicate env (PFieldEq l r) entity depth =
     both_hold (entity_get entity l) (entity_get entity r) val_eq"
| "eval_predicate env (PFieldGt l r) entity depth =
     both_hold (entity_int entity l) (entity_int entity r) (\<lambda>a b. sint a > sint b)"
| "eval_predicate env (PFieldGe l r) entity depth =
     both_hold (entity_int entity l) (entity_int entity r) (\<lambda>a b. sint a \<ge> sint b)"
| "eval_predicate env (PFieldLt l r) entity depth =
     both_hold (entity_int entity l) (entity_int entity r) (\<lambda>a b. sint a < sint b)"
| "eval_predicate env (PFieldLe l r) entity depth =
     both_hold (entity_int entity l) (entity_int entity r) (\<lambda>a b. sint a \<le> sint b)"
| "eval_predicate env (PRankGeFieldThreshold rk th) entity depth =
     both_hold (entity_int entity rk) (entity_int entity th) (\<lambda>a b. sint a \<ge> sint b)"
| "eval_predicate env (PAll args) entity depth =
     list_all (\<lambda>a. eval_predicate env a entity depth) args"
| "eval_predicate env (PAny args) entity depth =
     list_ex (\<lambda>a. eval_predicate env a entity depth) args"
| "eval_predicate env (PNot arg) entity depth = (\<not> eval_predicate env arg entity depth)"
| "eval_predicate env (PForAll path pred) entity depth =
     (case resolve_collection entity path of
        None \<Rightarrow> True
      | Some items \<Rightarrow> list_all (\<lambda>item. eval_predicate env pred (as_sub_entity item) depth) items)"
| "eval_predicate env (PExists path pred) entity depth =
     (case resolve_collection entity path of
        None \<Rightarrow> False
      | Some items \<Rightarrow> list_ex (\<lambda>item. eval_predicate env pred (as_sub_entity item) depth) items)"
| "eval_predicate env (PCountCmp path cmp n) entity depth =
     cmp_apply cmp (case resolve_collection entity path of None \<Rightarrow> 0 | Some a \<Rightarrow> length a) n"
| "eval_predicate env (PStringContains field needle ci) entity depth =
     (case entity_get_raw entity field of
        Some (JStr haystack) \<Rightarrow>
          if ci then contains_str (ev_lower env haystack) (ev_lower env needle)
          else contains_str haystack needle
      | _ \<Rightarrow> False)"
| "eval_predicate env (PInRange field lo hi) entity depth =
     opt_holds (entity_int entity field) (\<lambda>w. sint w \<ge> sint lo \<and> sint w \<le> sint hi)"
| "eval_predicate env (PInRangeF field lo hi) entity depth =
     opt_holds (entity_f64 entity field) (\<lambda>w. f64_le lo w \<and> f64_le w hi)"
| "eval_predicate env (PCountMatches args cmp n) entity depth =
     cmp_apply cmp (length (filter (\<lambda>a. eval_predicate env a entity depth) args)) n"
| "eval_predicate env (PIn field vs) entity depth =
     (case entity_get_raw entity field of
        None \<Rightarrow> False
      | Some v \<Rightarrow>
          (case value_from_json v of
             None \<Rightarrow> False
           | Some typed \<Rightarrow> list_ex (\<lambda>cand. val_eq cand typed) vs))"
| "eval_predicate env (PStringMatches field pattern ci) entity depth =
     (case entity_get_raw entity field of
        Some (JStr s) \<Rightarrow> (case ev_regex env pattern ci s of Some b \<Rightarrow> b | None \<Rightarrow> False)
      | _ \<Rightarrow> False)"
| "eval_predicate env (PApply packet_id expect entity_map) entity depth =
     (if depth \<ge> max_composition_depth then False
      else (case ev_resolve env packet_id of
              None \<Rightarrow> False
            | Some sub \<Rightarrow>
                (let sub_resolved = resolve_entity sub (apply_entity_map entity entity_map)
                 in case find (\<lambda>r. eval_predicate env (ru_antecedent r) sub_resolved (Suc depth))
                           (pk_rules sub) of
                      Some r \<Rightarrow> ru_classification r \<in> set expect
                    | None \<Rightarrow> False)))"
  by pat_completeness auto
termination
  by (relation "measures [\<lambda>(env, p, e, d). max_composition_depth - d, \<lambda>(env, p, e, d). size p]")
    (auto simp: max_composition_depth_def size_elem_mem less_Suc_eq_le
      intro: size_list_estimation')

section \<open>Applying a packet\<close>

datatype apply_mode = First | All

record prediction =
  pr_rule_id :: string
  pr_consequent :: val
  pr_confidence :: f32
  pr_classification :: string

record apply_all_result =
  aa_packet_id :: string
  aa_findings :: "prediction list"
  aa_verdict :: "string option"

definition predict :: "rule \<Rightarrow> prediction" where
  "predict r =
     \<lparr>pr_rule_id = ru_id r, pr_consequent = ru_consequent r, pr_confidence = ru_confidence r,
      pr_classification = ru_classification r\<rparr>"

definition apply_with :: "eval_env \<Rightarrow> packet \<Rightarrow> json \<Rightarrow> prediction option" where
  "apply_with env pk entity =
     (case as_object entity of
        None \<Rightarrow> None
      | Some obj \<Rightarrow>
          (let resolved = resolve_entity pk obj
           in map_option predict
                (find (\<lambda>r. eval_predicate env (ru_antecedent r) resolved 0) (pk_rules pk))))"

definition apply_all_with :: "eval_env \<Rightarrow> packet \<Rightarrow> json \<Rightarrow> apply_all_result" where
  "apply_all_with env pk entity =
     (case as_object entity of
        None \<Rightarrow> \<lparr>aa_packet_id = pk_id pk, aa_findings = [], aa_verdict = None\<rparr>
      | Some obj \<Rightarrow>
          (let resolved = resolve_entity pk obj;
               fires = (\<lambda>r. eval_predicate env (ru_antecedent r) resolved 0);
               independent = map predict (filter fires
                               (filter (\<lambda>r. ru_emit r = Independent) (pk_rules pk)));
               fallback = (if independent = []
                           then map predict (filter fires
                                  (filter (\<lambda>r. ru_emit r = Fallback) (pk_rules pk)))
                           else []);
               findings = independent @ fallback;
               verdict = find (\<lambda>c. list_ex (\<lambda>p. pr_classification p = c) findings) (pk_lattice pk)
           in \<lparr>aa_packet_id = pk_id pk, aa_findings = findings, aa_verdict = verdict\<rparr>))"

text \<open>The resolver of a caller without composition.\<close>

definition noop_env :: "(string \<Rightarrow> string) \<Rightarrow> (string \<Rightarrow> bool \<Rightarrow> string \<Rightarrow> bool option) \<Rightarrow> eval_env"
  where "noop_env lower regex = \<lparr>ev_lower = lower, ev_regex = regex, ev_resolve = (\<lambda>_. None)\<rparr>"

section \<open>What an evaluation sees\<close>

lemma key_exists_iff: "entity_key_exists entity field \<longleftrightarrow> entity_get_raw entity field \<noteq> None"
  by (auto simp: entity_key_exists_def obj_has_def entity_get_raw_def split: option.splits)

text \<open>Applicability is tri-state: of the three tests missing, null and non-null exactly one
  holds of a field, dotted paths included.\<close>

theorem tri_state:
  "length (filter (\<lambda>p. eval_predicate env p entity depth)
             [PIsMissing field, PIsNull field, PIsNonNull field]) = 1"
  by (cases "entity_get_raw entity field")
    (auto simp: key_exists_iff entity_is_null_def entity_has_def split: json.splits)

text \<open>The quantifiers are dual on every entity, also where the path leads to no collection.\<close>

theorem forall_exists_dual:
  "eval_predicate env (PForAll path p) entity depth \<longleftrightarrow>
     \<not> eval_predicate env (PExists path (PNot p)) entity depth"
  by (auto simp: list_all_iff list_ex_iff split: option.splits)

text \<open>A universal quantifier over a field that is present but not an array holds, whatever it
  quantifies.\<close>

theorem forall_over_non_array:
  assumes "obj_get entity field = Some v" "as_array v = None" "CHR ''.'' \<notin> set field"
  shows "eval_predicate env (PForAll (field @ ''[*]'') p) entity depth"
proof -
  have "strip_suffix ''[*]'' (field @ ''[*]'') = Some field" by (simp add: strip_suffix_Some)
  with assms have "resolve_collection entity (field @ ''[*]'') = None"
    by (cases v) (auto simp: resolve_collection_def)
  then show ?thesis by simp
qed

theorem forall_over_non_array_witness:
  "eval_predicate (noop_env id (\<lambda>_ _ _. None)) (PForAll (''tools'' @ ''[*]'') PAlwaysFalse)
     [(''tools'', JStr ''grep'')] 0"
  by (rule forall_over_non_array [where v = "JStr ''grep''"]) simp_all

text \<open>The counting predicate subsumes the two Boolean combinators.\<close>

theorem count_matches_subsumes:
  "eval_predicate env (PCountMatches args CGe 1) entity depth =
     eval_predicate env (PAny args) entity depth \<and>
   eval_predicate env (PCountMatches args CEq (length args)) entity depth =
     eval_predicate env (PAll args) entity depth"
  by (simp add: filter_all_length filter_ex_length del: One_nat_def)

section \<open>Composition\<close>

text \<open>A set of packet ids closed under the references of the packets it names.\<close>

definition refs_closed :: "eval_env \<Rightarrow> string set \<Rightarrow> bool" where
  "refs_closed env S \<longleftrightarrow>
     (\<forall>i\<in>S. \<forall>pk. ev_resolve env i = Some pk \<longrightarrow>
        (\<forall>r\<in>set (pk_rules pk). set (collect_apply_refs (ru_antecedent r)) \<subseteq> S))"

definition env_agree :: "eval_env \<Rightarrow> eval_env \<Rightarrow> string set \<Rightarrow> bool" where
  "env_agree env env' S \<longleftrightarrow>
     ev_lower env' = ev_lower env \<and> ev_regex env' = ev_regex env \<and>
     (\<forall>i\<in>S. ev_resolve env' i = ev_resolve env i)"

lemma eval_local:
  "refs_closed env S \<Longrightarrow> env_agree env env' S \<Longrightarrow> set (collect_apply_refs p) \<subseteq> S \<Longrightarrow>
   eval_predicate env' p entity depth = eval_predicate env p entity depth"
proof (induction env p entity depth rule: eval_predicate.induct)
  case (34 env packet_id expect entity_map entity depth)
  then have res: "ev_resolve env' packet_id = ev_resolve env packet_id"
    by (auto simp: env_agree_def)
  show ?case
  proof (cases "depth \<ge> max_composition_depth \<or> ev_resolve env packet_id = None")
    case True
    with res show ?thesis by (auto split: option.splits)
  next
    case False
    then obtain sub where sub: "ev_resolve env packet_id = Some sub"
      and d: "\<not> depth \<ge> max_composition_depth" by auto
    let ?e = "resolve_entity sub (apply_entity_map entity entity_map)"
    have "eval_predicate env' (ru_antecedent r) ?e (Suc depth) = eval_predicate env (ru_antecedent r) ?e (Suc depth)"
      if r: "r \<in> set (pk_rules sub)" for r
    proof -
      have "set (collect_apply_refs (ru_antecedent r)) \<subseteq> S"
        using 34(2,4) r sub by (auto simp: refs_closed_def)
      with 34(1) [OF d sub refl r] 34(2,3) show ?thesis by blast
    qed
    then have "find (\<lambda>r. eval_predicate env' (ru_antecedent r) ?e (Suc depth)) (pk_rules sub) =
       find (\<lambda>r. eval_predicate env (ru_antecedent r) ?e (Suc depth)) (pk_rules sub)"
      by (intro find_cong) auto
    with res sub d show ?thesis by (simp add: Let_def)
  qed
next
  case (22 env args entity depth)
  then have "\<And>a. a \<in> set args \<Longrightarrow> eval_predicate env' a entity depth = eval_predicate env a entity depth"
    by auto
  then show ?case by (simp add: list_all_iff)
next
  case (23 env args entity depth)
  then have "\<And>a. a \<in> set args \<Longrightarrow> eval_predicate env' a entity depth = eval_predicate env a entity depth"
    by auto
  then show ?case by (simp add: list_ex_iff)
next
  case (31 env args cmp n entity depth)
  then have "\<And>a. a \<in> set args \<Longrightarrow> eval_predicate env' a entity depth = eval_predicate env a entity depth"
    by auto
  then have "filter (\<lambda>a. eval_predicate env' a entity depth) args = filter (\<lambda>a. eval_predicate env a entity depth) args"
    by (intro filter_cong) auto
  then show ?case by simp
next
  case (25 env path pred entity depth)
  then show ?case by (auto simp: list_all_iff split: option.splits)
next
  case (26 env path pred entity depth)
  then show ?case by (auto simp: list_ex_iff split: option.splits)
next
  case (28 env field needle ci entity depth)
  then show ?case by (auto simp: env_agree_def split: option.splits json.splits)
next
  case (33 env field pattern ci entity depth)
  then show ?case by (auto simp: env_agree_def split: option.splits json.splits)
qed (simp_all)

text \<open>Property C36. Composition is local: evaluation reads the store only at the ids reachable from the
  predicate, so installing or removing any other packet changes no verdict.\<close>

theorem composition_local:
  assumes "refs_closed env S" "env_agree env env' S" "set (collect_apply_refs p) \<subseteq> S"
  shows "eval_predicate env' p entity depth = eval_predicate env p entity depth"
  using assms by (rule eval_local)

theorem composition_local_witness:
  "let pk = \<lparr>pk_id = ''other'', pk_domain = ''d'', pk_scope = ''global'', pk_project = None,
             pk_rank_table = [], pk_threshold_table = [], pk_rank_lookup_key = ''role'',
             pk_threshold_lookup_key = ''resource'', pk_lattice = review_lattice,
             pk_prefix_inference = [], pk_rules = [], pk_source_ids = [],
             pk_self_audit_fidelity = None, pk_created_at = [], pk_updated_at = [],
             pk_superseded_by = None, pk_merged_from = []\<rparr>
   in eval_predicate \<lparr>ev_lower = id, ev_regex = (\<lambda>_ _ _. None),
      ev_resolve = (\<lambda>i. if i = ''other'' then Some pk else None)\<rparr>
      (PNot (PApply ''packet-1'' [''deny''] [])) [] 0 =
   eval_predicate (noop_env id (\<lambda>_ _ _. None)) (PNot (PApply ''packet-1'' [''deny''] [])) [] 0"
  unfolding Let_def by (rule composition_local [where S = "{''packet-1''}"])
    (simp_all add: refs_closed_def env_agree_def noop_env_def)

section \<open>Applying in both modes\<close>

text \<open>The rules whose antecedent holds, in packet order.\<close>

definition fired :: "eval_env \<Rightarrow> packet \<Rightarrow> jmap \<Rightarrow> rule list" where
  "fired env pk obj =
     filter (\<lambda>r. eval_predicate env (ru_antecedent r) (resolve_entity pk obj) 0) (pk_rules pk)"

lemma apply_with_fired:
  "apply_with env pk (JObj obj) =
     (case fired env pk obj of [] \<Rightarrow> None | r # _ \<Rightarrow> Some (predict r))"
  by (simp add: apply_with_def fired_def find_filter split: list.splits)

lemma findings_fired:
  "aa_findings (apply_all_with env pk (JObj obj)) =
     map predict
       (let ind = filter (\<lambda>r. ru_emit r = Independent) (fired env pk obj)
        in if ind = [] then fired env pk obj else ind)"
proof -
  let ?ind = "filter (\<lambda>r. ru_emit r = Independent) (fired env pk obj)"
  let ?fb = "filter (\<lambda>r. ru_emit r = Fallback) (fired env pk obj)"
  have "aa_findings (apply_all_with env pk (JObj obj)) =
     map predict ?ind @ (if ?ind = [] then map predict ?fb else [])"
    by (simp add: apply_all_with_def Let_def fired_def conj_commute)
  moreover have "?fb = fired env pk obj" if "?ind = []"
    using that by (auto simp: filter_empty_conv filter_id_conv intro: emit.exhaust)
  ultimately show ?thesis by (auto simp: Let_def)
qed

lemma apply_all_fallback:
  "aa_findings (apply_all_with env pk (JObj obj)) =
     map predict
       (if list_ex (\<lambda>r. ru_emit r = Independent) (fired env pk obj)
        then filter (\<lambda>r. ru_emit r = Independent) (fired env pk obj)
        else fired env pk obj)"
  by (auto simp: findings_fired Let_def filter_empty_conv list_ex_iff)

text \<open>A fallback rule never fires beside an independent one: the findings are the fired
  independent rules, or all fired rules when no independent rule fired.\<close>

theorem fallback_only_alone:
  "aa_findings (apply_all_with env pk (JObj obj)) =
     map predict
       (if list_ex (\<lambda>r. ru_emit r = Independent) (fired env pk obj)
        then filter (\<lambda>r. ru_emit r = Independent) (fired env pk obj)
        else fired env pk obj)"
  by (rule apply_all_fallback)

text \<open>The aggregate verdict is the first entry of the lattice that some finding carries; the
  order of the rules plays no part.\<close>

theorem apply_all_verdict:
  "aa_verdict (apply_all_with env pk entity) = Some c \<longleftrightarrow>
     (\<exists>hi lo. pk_lattice pk = hi @ c # lo \<and>
        c \<in> pr_classification ` set (aa_findings (apply_all_with env pk entity)) \<and>
        set hi \<inter> pr_classification ` set (aa_findings (apply_all_with env pk entity)) = {})"
proof (cases "as_object entity")
  case None
  then show ?thesis by (simp add: apply_all_with_def)
next
  case (Some obj)
  let ?f = "aa_findings (apply_all_with env pk entity)"
  have "aa_verdict (apply_all_with env pk entity) =
     find (\<lambda>c. list_ex (\<lambda>p. pr_classification p = c) ?f) (pk_lattice pk)"
    using Some by (simp add: apply_all_with_def Let_def)
  also have "\<dots> = find (\<lambda>c. c \<in> pr_classification ` set ?f) (pk_lattice pk)"
    by (rule arg_cong [where f = "\<lambda>P. find P _"]) (auto simp: list_ex_iff)
  finally show ?thesis by (simp only: find_first) blast
qed

lemma findings_in_lattice:
  assumes "packet_wf pk"
  shows "pr_classification ` set (aa_findings (apply_all_with env pk entity)) \<subseteq> set (pk_lattice pk)"
proof (cases "as_object entity")
  case (Some obj)
  then have e: "entity = JObj obj" by (cases entity) auto
  have "pr_classification p \<in> set (pk_lattice pk)"
    if "p \<in> set (aa_findings (apply_all_with env pk (JObj obj)))" for p
  proof -
    from that obtain r where "r \<in> set (fired env pk obj)" "p = predict r"
      by (auto simp: apply_all_fallback split: if_splits)
    then show ?thesis using assms by (auto simp: fired_def packet_wf_def predict_def)
  qed
  then show ?thesis unfolding e by blast
qed (simp add: apply_all_with_def)

text \<open>A small packet the concrete instances below evaluate.\<close>

definition sample_packet :: packet where
  "sample_packet = \<lparr>pk_id = ''packet-1'', pk_domain = ''d'', pk_scope = ''global'', pk_project = None,
     pk_rank_table = [(''admin'', 3)], pk_threshold_table = [], pk_rank_lookup_key = ''role'',
     pk_threshold_lookup_key = ''resource'', pk_lattice = review_lattice,
     pk_prefix_inference = [], pk_rules =
       [\<lparr>ru_id = ''flag_rank'', ru_antecedent = PGe ''role_rank'' 2, ru_consequent = VBool True,
         ru_classification = ''flag'', ru_emit = Independent, ru_confidence = f32_one,
         ru_provenance = []\<rparr>],
     pk_source_ids = [], pk_self_audit_fidelity = None, pk_created_at = [], pk_updated_at = [],
     pk_superseded_by = None, pk_merged_from = []\<rparr>"

definition sample_env :: eval_env where
  "sample_env = noop_env id (\<lambda>_ _ _. None)"

lemma sample_packet_wf: "packet_wf sample_packet"
  by (simp add: packet_wf_def sample_packet_def review_lattice_def well_authored_def)

lemma sample_fires:
  "apply_with sample_env sample_packet (JObj [(''role'', JStr ''admin'')]) =
     Some (predict (hd (pk_rules sample_packet)))"
  by (simp add: sample_env_def sample_packet_def apply_with_def resolve_entity_def
      entity_int_def entity_get_raw_def opt_holds_def num_of_i64_def)

text \<open>A packet of the store always reaches a verdict when any rule fires, and only then.\<close>

theorem verdict_total:
  assumes "packet_wf pk"
  shows "aa_verdict (apply_all_with env pk entity) = None \<longleftrightarrow>
    aa_findings (apply_all_with env pk entity) = []"
proof (cases "as_object entity")
  case (Some obj)
  let ?f = "aa_findings (apply_all_with env pk entity)"
  have v: "aa_verdict (apply_all_with env pk entity) =
     find (\<lambda>c. list_ex (\<lambda>p. pr_classification p = c) ?f) (pk_lattice pk)"
    using Some by (simp add: apply_all_with_def Let_def)
  show ?thesis
  proof (cases ?f)
    case (Cons p ps)
    then have "pr_classification p \<in> set (pk_lattice pk)"
      using findings_in_lattice [OF assms, of env entity] by auto
    with Cons have "\<exists>c\<in>set (pk_lattice pk). list_ex (\<lambda>p. pr_classification p = c) ?f" by auto
    then have "find (\<lambda>c. list_ex (\<lambda>p. pr_classification p = c) ?f) (pk_lattice pk) \<noteq> None"
      unfolding find_None_iff by blast
    with v Cons show ?thesis by simp
  qed (use v in \<open>simp add: find_None_iff\<close>)
qed (simp add: apply_all_with_def)

theorem verdict_total_witness:
  "aa_verdict (apply_all_with sample_env sample_packet JNull) = None \<longleftrightarrow>
     aa_findings (apply_all_with sample_env sample_packet JNull) = []"
  by (rule verdict_total [OF sample_packet_wf])

text \<open>The two modes agree: when first-match predicts, all-match has findings, and the
  predicted rule is among them unless it is a fallback rule.\<close>

theorem first_within_all:
  assumes "apply_with env pk entity = Some p"
  shows "aa_findings (apply_all_with env pk entity) \<noteq> [] \<and>
    (p \<in> set (aa_findings (apply_all_with env pk entity)) \<or>
     (\<exists>r\<in>set (pk_rules pk). ru_emit r = Fallback \<and> predict r = p))"
proof -
  from assms obtain obj where e: "entity = JObj obj"
    by (cases entity) (auto simp: apply_with_def)
  with assms obtain r rs where f: "fired env pk obj = r # rs" "p = predict r"
    by (auto simp: apply_with_fired split: list.splits)
  then have r: "r \<in> set (pk_rules pk)" by (metis filter_is_subset fired_def list.set_intros(1) subsetD)
  show ?thesis
  proof (cases "ru_emit r")
    case Independent
    with f e show ?thesis by (simp add: apply_all_fallback)
  next
    case Fallback
    with f e r show ?thesis by (auto simp: apply_all_fallback list_ex_iff filter_empty_conv)
  qed
qed

theorem first_within_all_witness:
  "aa_findings (apply_all_with sample_env sample_packet (JObj [(''role'', JStr ''admin'')])) \<noteq> []"
  using first_within_all [OF sample_fires] by simp

section \<open>Rebinding and augmenting an entity\<close>

text \<open>Rebinding caller fields is simultaneous: each mapped field reads the outer entity, not
  the partly rebuilt one, and unmapped fields and missing sources pass through.\<close>

theorem apply_entity_map_get:
  assumes "map_wf emap"
  shows "obj_get (apply_entity_map e emap) k =
    (case obj_get emap k of
       None \<Rightarrow> obj_get e k
     | Some outer \<Rightarrow> (case obj_get e outer of Some v \<Rightarrow> Some v | None \<Rightarrow> obj_get e k))"
proof -
  let ?step = "\<lambda>out (sub_key, outer_key).
                    case obj_get e outer_key of
                      Some v \<Rightarrow> obj_insert out sub_key v
                    | None \<Rightarrow> out"
  have "obj_get (foldl ?step out m) k =
      (case obj_get m k of
         None \<Rightarrow> obj_get out k
       | Some outer \<Rightarrow> (case obj_get e outer of Some v \<Rightarrow> Some v | None \<Rightarrow> obj_get out k))"
    if "map_wf m" for out m
    using that
  proof (induction m arbitrary: out)
    case (Cons q m)
    obtain a b where q: "q = (a, b)" by force
    have n: "obj_get m a = None" "map_wf m"
      using Cons.prems q by (auto simp: map_wf_def obj_get_None)
    show ?case
    proof (cases "a = k")
      case True
      with Cons.IH [OF n(2)] n q show ?thesis by (auto split: option.splits)
    next
      case False
      with Cons.IH [OF n(2)] q show ?thesis by (auto split: option.splits)
    qed
  qed simp
  from this [OF assms] show ?thesis by (auto simp: apply_entity_map_def)
qed

theorem apply_entity_map_get_witness:
  "obj_get (apply_entity_map [(''a'', JBool True), (''b'', JNull)] [(''a'', ''b''), (''b'', ''a'')]) ''b'' =
     Some (JBool True)"
  by (subst apply_entity_map_get) (simp_all add: map_wf_def)

lemma resolve_entity_frame:
  assumes "k \<noteq> pk_rank_lookup_key pk @ ''_rank''" "k \<noteq> ''res_threshold''"
    "k \<noteq> pk_threshold_lookup_key pk @ ''_threshold''"
  shows "obj_get (resolve_entity pk e) k = obj_get e k"
  using assms by (auto simp: resolve_entity_def Let_def split: option.splits json.splits)

lemma resolve_entity_rank:
  assumes "obj_get e (pk_rank_lookup_key pk) = Some (JStr name)"
    "obj_get (pk_rank_table pk) name = Some rank"
    "\<forall>t. pk_rank_lookup_key pk @ ''_rank'' \<noteq> t @ ''_threshold''"
  shows "entity_int (resolve_entity pk e) (pk_rank_lookup_key pk @ ''_rank'') = Some rank"
proof -
  have "pk_rank_table pk \<noteq> []" using assms(2) by auto
  moreover have "pk_rank_lookup_key pk @ ''_rank'' \<noteq> ''res_threshold''"
    using assms(3) [rule_format, of "''res''"] by simp
  ultimately have "obj_get (resolve_entity pk e) (pk_rank_lookup_key pk @ ''_rank'') = Some (JNum (num_of_i64 rank))"
    using assms by (auto simp: resolve_entity_def Let_def split: option.splits json.splits)
  then show ?thesis
    using sint_nonneg_bound [of rank]
    by (auto simp: entity_int_def entity_get_raw_def num_of_i64_def)
qed

end
