(* ===== verification/Packet_Audit.thy ===== *)
theory Packet_Audit
  imports Packet_Eval Floats
begin

text \<open>
  Fidelity reports (src/packets/audit.rs): a packet is applied to every row of a labelled
  dataset, in \<open>first\<close> mode against an expected consequent (\<open>verify_with\<close>) and in \<open>all\<close> mode
  against an expected verdict and the expected rule ids (\<open>verify_all_with\<close>). The loop over the
  rows is a fold of one step per row over the report being built.
\<close>

section \<open>Reports\<close>

record mismatch =
  mm_entity :: json
  mm_expected :: val
  mm_predicted :: "val option"
  mm_rule_id :: "string option"

record fidelity_report =
  fr_total :: nat
  fr_correct :: nat
  fr_fidelity :: f32
  fr_mismatches :: "mismatch list"
  fr_uncovered :: "json list"

record all_mismatch =
  am_entity :: json
  am_check :: string
  am_expected_verdict :: "string option"
  am_actual_verdict :: "string option"
  am_expected_rule_ids :: "string list option"
  am_actual_rule_ids :: "string list option"

record all_report =
  ar_total :: nat
  ar_correct :: nat
  ar_fidelity :: f32
  ar_mismatches :: "all_mismatch list"

datatype audit_error = DatasetNotArray

definition fidelity_of :: "nat \<Rightarrow> nat \<Rightarrow> f32" where
  "fidelity_of c t = (if t = 0 then f32_zero else f32_ratio c t)"

section \<open>First mode\<close>

definition row_entity :: "json \<Rightarrow> json" where
  "row_entity row = (case jget row ''entity'' of Some e \<Rightarrow> e | None \<Rightarrow> JNull)"

definition row_expected :: "json \<Rightarrow> val option" where
  "row_expected row =
     value_from_json (case jget row ''expected'' of Some e \<Rightarrow> e | None \<Rightarrow> JNull)"

definition verify_row :: "eval_env \<Rightarrow> packet \<Rightarrow> fidelity_report \<Rightarrow> json \<Rightarrow> fidelity_report" where
  "verify_row env pk rep row =
     (case row_expected row of
        None \<Rightarrow> rep
      | Some expected \<Rightarrow>
          (let entity = row_entity row; rep = rep\<lparr>fr_total := fr_total rep + 1\<rparr>
           in case apply_with env pk entity of
                Some p \<Rightarrow>
                  (if val_eq (pr_consequent p) expected
                   then rep\<lparr>fr_correct := fr_correct rep + 1\<rparr>
                   else rep\<lparr>fr_mismatches := fr_mismatches rep @
                              [\<lparr>mm_entity = entity, mm_expected = expected,
                                mm_predicted = Some (pr_consequent p),
                                mm_rule_id = Some (pr_rule_id p)\<rparr>]\<rparr>)
              | None \<Rightarrow> rep\<lparr>fr_uncovered := fr_uncovered rep @ [entity]\<rparr>))"

definition empty_report :: fidelity_report where
  "empty_report =
     \<lparr>fr_total = 0, fr_correct = 0, fr_fidelity = f32_zero, fr_mismatches = [], fr_uncovered = []\<rparr>"

definition verify_with :: "eval_env \<Rightarrow> packet \<Rightarrow> json \<Rightarrow> audit_error + fidelity_report" where
  "verify_with env pk dataset =
     (case as_array dataset of
        None \<Rightarrow> Inl DatasetNotArray
      | Some rows \<Rightarrow>
          (let rep = foldl (verify_row env pk) empty_report rows
           in Inr (rep\<lparr>fr_fidelity := fidelity_of (fr_correct rep) (fr_total rep)\<rparr>)))"

section \<open>All mode\<close>

definition row_verdict :: "json \<Rightarrow> string option" where
  "row_verdict row = Option.bind (jget row ''expected_verdict'') as_str"

definition row_rule_ids :: "json \<Rightarrow> string list option" where
  "row_rule_ids row =
     map_option (List.map_filter as_str) (Option.bind (jget row ''expected_rule_ids'') as_array)"

definition verify_all_row :: "eval_env \<Rightarrow> packet \<Rightarrow> all_report \<Rightarrow> json \<Rightarrow> all_report" where
  "verify_all_row env pk rep row =
     (let entity = row_entity row;
          expected_verdict = row_verdict row;
          expected_rule_ids = row_rule_ids row
      in if expected_verdict = None \<and> expected_rule_ids = None then rep
         else
          (let rep = rep\<lparr>ar_total := ar_total rep + 1\<rparr>;
               result = apply_all_with env pk entity;
               actual_verdict = aa_verdict result;
               actual_rule_ids = sort_strings (map pr_rule_id (aa_findings result));
               verdict_ok = (case expected_verdict of
                               Some ev \<Rightarrow> actual_verdict = Some ev | None \<Rightarrow> True);
               expected_ids_sorted = map_option sort_strings expected_rule_ids;
               ids_ok = (case expected_ids_sorted of
                           Some eids \<Rightarrow> actual_rule_ids = eids | None \<Rightarrow> True)
           in if verdict_ok \<and> ids_ok then rep\<lparr>ar_correct := ar_correct rep + 1\<rparr>
              else rep\<lparr>ar_mismatches := ar_mismatches rep @
                [\<lparr>am_entity = entity,
                  am_check = (if \<not> verdict_ok \<and> \<not> ids_ok then ''both''
                              else if \<not> verdict_ok then ''verdict'' else ''rule_ids''),
                  am_expected_verdict = (if \<not> verdict_ok then expected_verdict else None),
                  am_actual_verdict = (if \<not> verdict_ok then actual_verdict else None),
                  am_expected_rule_ids = (if \<not> ids_ok then expected_ids_sorted else None),
                  am_actual_rule_ids = (if \<not> ids_ok then Some actual_rule_ids else None)\<rparr>]\<rparr>))"

definition empty_all_report :: all_report where
  "empty_all_report = \<lparr>ar_total = 0, ar_correct = 0, ar_fidelity = f32_zero, ar_mismatches = []\<rparr>"

definition verify_all_with :: "eval_env \<Rightarrow> packet \<Rightarrow> json \<Rightarrow> audit_error + all_report" where
  "verify_all_with env pk dataset =
     (case as_array dataset of
        None \<Rightarrow> Inl DatasetNotArray
      | Some rows \<Rightarrow>
          (let rep = foldl (verify_all_row env pk) empty_all_report rows
           in Inr (rep\<lparr>ar_fidelity := fidelity_of (ar_correct rep) (ar_total rep)\<rparr>)))"

text \<open>\<open>verify\<close> and \<open>verify_all\<close>: the same reports without composition.\<close>

definition verify ::
  "(string \<Rightarrow> string) \<Rightarrow> (string \<Rightarrow> bool \<Rightarrow> string \<Rightarrow> bool option) \<Rightarrow> packet \<Rightarrow> json
     \<Rightarrow> audit_error + fidelity_report" where
  "verify lower regex pk dataset = verify_with (noop_env lower regex) pk dataset"

definition verify_all ::
  "(string \<Rightarrow> string) \<Rightarrow> (string \<Rightarrow> bool \<Rightarrow> string \<Rightarrow> bool option) \<Rightarrow> packet \<Rightarrow> json
     \<Rightarrow> audit_error + all_report" where
  "verify_all lower regex pk dataset = verify_all_with (noop_env lower regex) pk dataset"

section \<open>What a report counts\<close>

text \<open>The labelled rows, and the rows a packet answers as labelled.\<close>

definition labelled :: "json list \<Rightarrow> json list" where
  "labelled rows = filter (\<lambda>row. row_expected row \<noteq> None) rows"

definition answers :: "eval_env \<Rightarrow> packet \<Rightarrow> json \<Rightarrow> bool" where
  "answers env pk row =
     (case (apply_with env pk (row_entity row), row_expected row) of
        (Some p, Some e) \<Rightarrow> val_eq (pr_consequent p) e | _ \<Rightarrow> False)"

lemma verify_row_skip: "row_expected row = None \<Longrightarrow> verify_row env pk rep row = rep"
  by (simp add: verify_row_def)

lemma verify_row_counts:
  assumes "row_expected row = Some e"
  shows "fr_total (verify_row env pk rep row) = fr_total rep + 1"
    "fr_correct (verify_row env pk rep row) =
       fr_correct rep + (if answers env pk row then 1 else 0)"
    "fr_uncovered (verify_row env pk rep row) =
       fr_uncovered rep @ (if apply_with env pk (row_entity row) = None then [row_entity row] else [])"
    "length (fr_mismatches (verify_row env pk rep row)) = length (fr_mismatches rep) +
       (if answers env pk row \<or> apply_with env pk (row_entity row) = None then 0 else 1)"
  using assms
  by (cases "apply_with env pk (row_entity row)"; simp add: verify_row_def Let_def answers_def)+

lemma labelled_Cons:
  "labelled (row # rows) = (if row_expected row = None then [] else [row]) @ labelled rows"
  by (simp add: labelled_def)

lemma answers_covered: "answers env pk row \<Longrightarrow> apply_with env pk (row_entity row) \<noteq> None"
  by (cases "apply_with env pk (row_entity row)") (simp_all add: answers_def)

lemma verify_fold_counts:
  "let rep' = foldl (verify_row env pk) rep rows in
   fr_total rep' = fr_total rep + length (labelled rows) \<and>
   fr_correct rep' = fr_correct rep + length (filter (answers env pk) (labelled rows)) \<and>
   fr_uncovered rep' = fr_uncovered rep @
     map row_entity (filter (\<lambda>row. apply_with env pk (row_entity row) = None) (labelled rows)) \<and>
   length (fr_mismatches rep') + fr_correct rep' + length (fr_uncovered rep') + fr_total rep =
     length (fr_mismatches rep) + fr_correct rep + length (fr_uncovered rep) + fr_total rep'"
proof (induction rows arbitrary: rep)
  case (Cons row rows)
  show ?case
  proof (cases "row_expected row")
    case None
    with Cons [of rep] show ?thesis by (simp add: verify_row_skip labelled_Cons)
  next
    case (Some e)
    with Cons [of "verify_row env pk rep row"] answers_covered [of env pk row] show ?thesis
      by (cases "answers env pk row"; cases "apply_with env pk (row_entity row)")
        (simp_all add: Let_def verify_row_counts labelled_Cons)
  qed
qed (simp add: labelled_def)

lemma verify_counts:
  assumes "verify_with env pk dataset = Inr rep" "as_array dataset = Some rows"
  shows "fr_total rep = length (labelled rows)"
    "fr_correct rep = length (filter (answers env pk) (labelled rows))"
    "fr_uncovered rep =
       map row_entity (filter (\<lambda>row. apply_with env pk (row_entity row) = None) (labelled rows))"
    "fr_total rep = fr_correct rep + length (fr_mismatches rep) + length (fr_uncovered rep)"
    "fr_fidelity rep = fidelity_of (fr_correct rep) (fr_total rep)"
  using assms verify_fold_counts [of env pk empty_report rows]
  by (auto simp: verify_with_def Let_def empty_report_def)

lemma fidelity_ge_one:
  assumes "c \<le> t" "t < 2 ^ 24"
  shows "f32_le f32_one (fidelity_of c t) \<longleftrightarrow> 0 < t \<and> c = t"
proof (cases "t = 0")
  case True
  have "\<not> f32_le f32_one f32_zero"
    by (simp add: f32_le_def f32_one_def f32_zero_def f32_key_def f32_mag_def f32_nan_def)
  with True show ?thesis by (simp add: fidelity_of_def)
next
  case False
  then have "fidelity_of c t = f32_ratio c t" by (simp add: fidelity_of_def)
  with False assms f32_ratio_ge_one_iff [of c t] show ?thesis by simp
qed

lemma labelled_all_iff:
  "length (filter P (labelled rows)) = length (labelled rows) \<longleftrightarrow>
     (\<forall>row\<in>set rows. row_expected row \<noteq> None \<longrightarrow> P row)"
  unfolding filter_all_length by (auto simp: labelled_def list_all_iff)

text \<open>An audit accounts for every labelled row exactly once: as correct, as a mismatch or as
  uncovered.\<close>

theorem audit_partitions:
  assumes "verify_with env pk (JArr rows) = Inr rep"
  shows "fr_total rep = length (labelled rows) \<and>
         fr_total rep = fr_correct rep + length (fr_mismatches rep) + length (fr_uncovered rep) \<and>
         fr_correct rep = length (filter (answers env pk) (labelled rows))"
  using verify_counts [OF assms] by simp

text \<open>Fidelity one is exact: below two to the twenty-fourth rows the single-precision quotient
  reaches one only when every labelled row is answered as expected, and there is one.\<close>

theorem perfect_fidelity:
  assumes "verify_with env pk (JArr rows) = Inr rep" "length rows < 2 ^ 24"
  shows "f32_le f32_one (fr_fidelity rep) \<longleftrightarrow>
     labelled rows \<noteq> [] \<and> (\<forall>row\<in>set rows. row_expected row \<noteq> None \<longrightarrow> answers env pk row)"
proof -
  note c = verify_counts [OF assms(1) as_array.simps(1)]
  have "fr_total rep < 2 ^ 24"
    unfolding c(1) labelled_def by (rule le_less_trans [OF length_filter_le assms(2)])
  moreover have "fr_correct rep \<le> fr_total rep" unfolding c(1,2) by simp
  ultimately have "f32_le f32_one (fr_fidelity rep) \<longleftrightarrow> 0 < fr_total rep \<and> fr_correct rep = fr_total rep"
    unfolding c(5) by (intro fidelity_ge_one) auto
  then show ?thesis unfolding c(1,2) labelled_all_iff by simp
qed

text \<open>A dataset with a row answered as labelled, an uncovered one and an unlabelled one.\<close>

definition sample_dataset :: "json list" where
  "sample_dataset =
     [JObj [(''entity'', JObj [(''role'', JStr ''admin'')]), (''expected'', JBool True)],
      JObj [(''entity'', JStr ''x''), (''expected'', JStr ''no'')],
      JObj [(''entity'', JNull)]]"

lemma sample_labelled: "labelled sample_dataset = take 2 sample_dataset"
  by (simp add: labelled_def sample_dataset_def row_expected_def)

lemma sample_answers:
  "map (answers sample_env sample_packet) (take 2 sample_dataset) = [True, False]"
  using sample_fires
  by (simp add: sample_dataset_def answers_def row_expected_def row_entity_def predict_def
      sample_packet_def apply_with_def [of _ _ "JStr _"])

lemma sample_audit: "\<exists>rep. verify_with sample_env sample_packet (JArr sample_dataset) = Inr rep"
  by (simp add: verify_with_def Let_def)

theorem audit_partitions_witness:
  "\<exists>rep. verify_with sample_env sample_packet (JArr sample_dataset) = Inr rep \<and>
     fr_total rep = 2 \<and> length (fr_mismatches rep) + length (fr_uncovered rep) = 1"
proof -
  obtain rep where r: "verify_with sample_env sample_packet (JArr sample_dataset) = Inr rep"
    using sample_audit by blast
  have "length (labelled sample_dataset) = 2"
    "length (filter (answers sample_env sample_packet) (labelled sample_dataset)) = 1"
    using sample_answers unfolding sample_labelled by (simp_all add: sample_dataset_def)
  with audit_partitions [OF r] r show ?thesis by auto
qed

theorem perfect_fidelity_witness:
  "\<exists>rep. verify_with sample_env sample_packet (JArr sample_dataset) = Inr rep \<and>
     \<not> f32_le f32_one (fr_fidelity rep)"
proof -
  obtain rep where r: "verify_with sample_env sample_packet (JArr sample_dataset) = Inr rep"
    using sample_audit by blast
  have "length sample_dataset < 2 ^ 24" by (simp add: sample_dataset_def)
  from perfect_fidelity [OF r this] sample_answers r show ?thesis
    by (auto simp: sample_dataset_def row_expected_def)
qed

section \<open>All mode: what agrees\<close>

definition agrees_all :: "eval_env \<Rightarrow> packet \<Rightarrow> json \<Rightarrow> bool" where
  "agrees_all env pk row =
     (let res = apply_all_with env pk (row_entity row)
      in (\<forall>v. row_verdict row = Some v \<longrightarrow> aa_verdict res = Some v) \<and>
         (\<forall>ids. row_rule_ids row = Some ids \<longrightarrow> mset ids = mset (map pr_rule_id (aa_findings res))))"

definition expecting :: "json list \<Rightarrow> json list" where
  "expecting rows = filter (\<lambda>row. row_verdict row \<noteq> None \<or> row_rule_ids row \<noteq> None) rows"

lemma verify_all_row_skip:
  "row_verdict row = None \<Longrightarrow> row_rule_ids row = None \<Longrightarrow> verify_all_row env pk rep row = rep"
  by (simp add: verify_all_row_def)

lemma verify_all_row_counts:
  assumes "row_verdict row \<noteq> None \<or> row_rule_ids row \<noteq> None"
  shows "ar_total (verify_all_row env pk rep row) = ar_total rep + 1"
    "ar_correct (verify_all_row env pk rep row) =
       ar_correct rep + (if agrees_all env pk row then 1 else 0)"
    "length (ar_mismatches (verify_all_row env pk rep row)) =
       length (ar_mismatches rep) + (if agrees_all env pk row then 0 else 1)"
proof -
  have ids: "(sort_strings xs = sort_strings ys) = (mset ys = mset xs)" for xs ys
    by (auto simp: sort_strings_eq_iff)
  have g: "\<not> (row_verdict row = None \<and> row_rule_ids row = None)" using assms by blast
  show "ar_total (verify_all_row env pk rep row) = ar_total rep + 1"
    unfolding verify_all_row_def Let_def if_not_P [OF g] by simp
  show "ar_correct (verify_all_row env pk rep row) =
       ar_correct rep + (if agrees_all env pk row then 1 else 0)"
    unfolding verify_all_row_def Let_def if_not_P [OF g] agrees_all_def
    by (cases "row_verdict row"; cases "row_rule_ids row") (auto simp: ids)
  show "length (ar_mismatches (verify_all_row env pk rep row)) =
       length (ar_mismatches rep) + (if agrees_all env pk row then 0 else 1)"
    unfolding verify_all_row_def Let_def if_not_P [OF g] agrees_all_def
    by (cases "row_verdict row"; cases "row_rule_ids row") (auto simp: ids)
qed

lemma verify_all_fold_counts:
  "let rep' = foldl (verify_all_row env pk) rep rows in
   ar_total rep' = ar_total rep + length (expecting rows) \<and>
   ar_correct rep' = ar_correct rep + length (filter (agrees_all env pk) (expecting rows)) \<and>
   length (ar_mismatches rep') + ar_correct rep' + ar_total rep =
     length (ar_mismatches rep) + ar_correct rep + ar_total rep'"
proof (induction rows arbitrary: rep)
  case (Cons row rows)
  show ?case
  proof (cases "row_verdict row \<noteq> None \<or> row_rule_ids row \<noteq> None")
    case True
    with Cons [of "verify_all_row env pk rep row"] show ?thesis
      by (auto simp: Let_def expecting_def verify_all_row_counts)
  next
    case False
    with Cons [of rep] show ?thesis
      by (simp add: Let_def expecting_def verify_all_row_skip)
  qed
qed (simp add: expecting_def)

text \<open>In \<open>all\<close> mode a row is correct exactly when its verdict agrees and the expected rule ids
  are the fired ones as a multiset: their order is irrelevant, their multiplicity is not.\<close>

theorem audit_all_multiset:
  assumes "verify_all_with env pk (JArr rows) = Inr rep"
  shows "ar_total rep = length (expecting rows) \<and>
         ar_correct rep = length (filter (agrees_all env pk) (expecting rows)) \<and>
         ar_total rep = ar_correct rep + length (ar_mismatches rep)"
  using assms verify_all_fold_counts [of env pk empty_all_report rows]
  by (auto simp: verify_all_with_def Let_def empty_all_report_def)

theorem audit_all_multiset_witness:
  "\<exists>rep. verify_all_with sample_env sample_packet
       (JArr [JObj [(''entity'', JObj [(''role'', JStr ''admin'')]),
          (''expected_rule_ids'', JArr [JStr ''flag_rank'', JStr ''flag_rank''])]]) = Inr rep \<and>
     ar_total rep = 1 \<and> ar_correct rep = 0"
proof -
  let ?row = "JObj [(''entity'', JObj [(''role'', JStr ''admin'')]),
          (''expected_rule_ids'', JArr [JStr ''flag_rank'', JStr ''flag_rank''])]"
  obtain rep where r: "verify_all_with sample_env sample_packet (JArr [?row]) = Inr rep"
    by (auto simp: verify_all_with_def Let_def)
  let ?found = "map pr_rule_id (aa_findings (apply_all_with sample_env sample_packet (row_entity ?row)))"
  have "length ?found \<le> 1"
    by (simp add: apply_all_with_def sample_packet_def row_entity_def Let_def)
  moreover have "row_rule_ids ?row = Some [''flag_rank'', ''flag_rank'']"
    by (simp add: row_rule_ids_def map_filter_simps)
  moreover have "mset [''flag_rank'', ''flag_rank''] \<noteq> mset ?found"
  proof
    assume "mset [''flag_rank'', ''flag_rank''] = mset ?found"
    then have "length [''flag_rank'', ''flag_rank''] = length ?found" by (rule mset_eq_length)
    with calculation(1) show False by simp
  qed
  ultimately have "\<not> agrees_all sample_env sample_packet ?row"
    unfolding agrees_all_def Let_def by blast
  with audit_all_multiset [OF r] r show ?thesis
    by (auto simp: expecting_def row_rule_ids_def)
qed

end
