(* ===== verification/Packet_Store.thy ===== *)
theory Packet_Store
  imports Packet_Audit
begin

text \<open>
  The packet store (\<open>struct Packets\<close> in \<open>src/src/packets/mod.rs\<close>, \<open>events.rs\<close>, \<open>normalize_id\<close>
  and \<open>unwrap_jsonish\<close> in \<open>coerce.rs\<close>). The state directory is a map from scope to directory,
  a directory the list of its \<open><stem>.json\<close> files in the order \<open>read_dir\<close> yields them, a file
  the packet it parses to (\<open>None\<close> when it does not parse); the event log is the list of its
  lines (\<open>None\<close> for a blank or malformed one). Packet ids are single path components and the
  file system calls succeed; their failures are not modelled.
\<close>

section \<open>State\<close>

record packet_event =
  pe_timestamp :: string
  pe_op :: string
  pe_outcome :: string
  pe_packet_id :: "string option"
  pe_domain :: "string option"
  pe_details :: json

type_synonym packet_dir = "(string \<times> packet option) list"

record store =
  st_dirs :: "(string \<times> packet_dir) list"
  st_log :: "packet_event option list"

datatype store_error =
    EmptyDomain
  | EmptyLattice
  | RulesShape
  | NoRules
  | RuleError ast_error
  | ApplyNotInStore string store_error
  | RankTableShape
  | ThresholdTableShape
  | BadScope
  | EmptyDescription
  | NoPacketForDomain string
  | PacketUnreadable string string
  | PacketNotFound string
  | AuditFailed audit_error

text \<open>
  What the store takes from outside the repository: Unicode tables, the regular expression
  engine, the JSON reader and printer, serde's derived decoding of the authored rules, and the
  rendering of an error message.
\<close>

record packet_lib =
  pl_lower :: "string \<Rightarrow> string"
  pl_char_lower :: "string \<Rightarrow> string"
  pl_char_alnum :: "string \<Rightarrow> bool"
  pl_regex :: "string \<Rightarrow> bool \<Rightarrow> string \<Rightarrow> bool option"
  pl_parse :: "string \<Rightarrow> json option"
  pl_rules :: "json \<Rightarrow> rule_input list option"
  pl_print :: "json \<Rightarrow> string"
  pl_render :: "store_error \<Rightarrow> string"

text \<open>The clock readings of one operation.\<close>

record clock =
  ck_iso_millis :: string
  ck_iso :: string
  ck_nanos :: "128 word"

section \<open>Identifiers\<close>

definition normalize_id :: "string \<Rightarrow> string" where
  "normalize_id i =
     (if starts_with i ''packet-'' \<or> starts_with i ''domain:'' then i else ''packet-'' @ i)"

definition hex_digit :: "nat \<Rightarrow> char" where
  "hex_digit n = char_of (if n < 10 then 48 + n else 87 + n)"

text \<open>\<open>{:08x}\<close> of a \<open>u32\<close>, most significant digit first.\<close>

definition hex8 :: "u32 \<Rightarrow> string" where
  "hex8 w = map (\<lambda>i. hex_digit (unat w div 16 ^ (7 - i) mod 16)) [0..<8]"

definition gen_id :: "128 word \<Rightarrow> string" where
  "gen_id nanos = ''packet-'' @ hex8 (ucast (xor nanos 0x9e3779b97f4a7c15))"

section \<open>The event log\<close>

definition event_now :: "clock \<Rightarrow> string \<Rightarrow> string \<Rightarrow> packet_event" where
  "event_now ck op' outcome =
     \<lparr>pe_timestamp = ck_iso ck, pe_op = op', pe_outcome = outcome, pe_packet_id = None,
      pe_domain = None, pe_details = JNull\<rparr>"

definition with_packet_id :: "string \<Rightarrow> packet_event \<Rightarrow> packet_event" where
  "with_packet_id i ev = ev\<lparr>pe_packet_id := Some i\<rparr>"

definition with_domain :: "string \<Rightarrow> packet_event \<Rightarrow> packet_event" where
  "with_domain d ev = ev\<lparr>pe_domain := Some d\<rparr>"

definition with_details :: "json \<Rightarrow> packet_event \<Rightarrow> packet_event" where
  "with_details d ev = ev\<lparr>pe_details := d\<rparr>"

definition append_event :: "packet_event \<Rightarrow> store \<Rightarrow> store" where
  "append_event ev st = st\<lparr>st_log := st_log st @ [Some ev]\<rparr>"

record event_query =
  eq_op :: "string option"
  eq_packet_id :: "string option"
  eq_outcome :: "string option"
  eq_since :: "string option"

definition event_selected :: "event_query \<Rightarrow> packet_event \<Rightarrow> bool" where
  "event_selected q ev \<longleftrightarrow>
     (case eq_op q of Some x \<Rightarrow> pe_op ev = x | None \<Rightarrow> True) \<and>
     (case eq_packet_id q of Some i \<Rightarrow> pe_packet_id ev = Some (normalize_id i) | None \<Rightarrow> True) \<and>
     (case eq_outcome q of Some x \<Rightarrow> pe_outcome ev = x | None \<Rightarrow> True) \<and>
     (case eq_since q of Some s \<Rightarrow> \<not> pe_timestamp ev < s | None \<Rightarrow> True)"

text \<open>The loop over the lines from the last: it stops at \<open>limit\<close> rows.\<close>

fun list_events_loop ::
  "event_query \<Rightarrow> nat \<Rightarrow> packet_event option list \<Rightarrow> packet_event list \<Rightarrow> packet_event list" where
  "list_events_loop q limit [] events = events"
| "list_events_loop q limit (line # lines) events =
     (if limit \<le> length events then events
      else (case line of
              None \<Rightarrow> list_events_loop q limit lines events
            | Some ev \<Rightarrow>
                if event_selected q ev
                then list_events_loop q limit lines (events @ [ev])
                else list_events_loop q limit lines events))"

definition list_events :: "store \<Rightarrow> event_query \<Rightarrow> nat \<Rightarrow> packet_event list" where
  "list_events st q limit = list_events_loop q limit (rev (st_log st)) []"

section \<open>Files\<close>

definition scope_dir :: "store \<Rightarrow> string \<Rightarrow> packet_dir" where
  "scope_dir st scope = (case obj_get (st_dirs st) scope of Some d \<Rightarrow> d | None \<Rightarrow> [])"

text \<open>
  What reading back a written packet yields. A confidence that is not finite (an authored
  \<open>1e39\<close> narrows to infinity) is printed as \<open>null\<close>, which the field does not accept.
\<close>

definition readable :: "packet \<Rightarrow> bool" where
  "readable pk = list_all (\<lambda>r. f32_finite (ru_confidence r)) (pk_rules pk)"

definition written :: "packet \<Rightarrow> packet option" where
  "written pk =
     (if readable pk
      then Some (pk\<lparr>pk_self_audit_fidelity :=
             (case pk_self_audit_fidelity pk of
                Some f \<Rightarrow> if f32_finite f then Some f else None
              | None \<Rightarrow> None)\<rparr>)
      else None)"

definition save_packet :: "packet \<Rightarrow> store \<Rightarrow> store" where
  "save_packet pk st =
     st\<lparr>st_dirs := obj_insert (st_dirs st) (pk_scope pk)
          (obj_insert (scope_dir st (pk_scope pk)) (pk_id pk) (written pk))\<rparr>"

definition newest_first :: "packet \<Rightarrow> packet \<Rightarrow> bool" where
  "newest_first a b = (pk_created_at b \<le> pk_created_at a)"

definition list_all_packets :: "store \<Rightarrow> packet list" where
  "list_all_packets st =
     sort_by newest_first
       (concat (map (\<lambda>scope. List.map_filter snd (scope_dir st scope)) [''global'', ''project'']))"

section \<open>Loading\<close>

definition load :: "store \<Rightarrow> string \<Rightarrow> store_error + packet" where
  "load st i =
     (case strip_prefix ''domain:'' i of
        Some domain \<Rightarrow>
          (case sort_by newest_first (filter (\<lambda>p. pk_domain p = domain) (list_all_packets st)) of
             [] \<Rightarrow> Inl (NoPacketForDomain domain)
           | p # _ \<Rightarrow> Inr p)
      | None \<Rightarrow>
          (let needle = normalize_id i
           in case find (\<lambda>scope. obj_has (scope_dir st scope) needle) [''global'', ''project''] of
                None \<Rightarrow> Inl (PacketNotFound i)
              | Some scope \<Rightarrow>
                  (case obj_get (scope_dir st scope) needle of
                     Some (Some pk) \<Rightarrow> Inr pk
                   | _ \<Rightarrow> Inl (PacketUnreadable scope needle))))"

definition load_latest_by_domain :: "store \<Rightarrow> string \<Rightarrow> string option \<Rightarrow> packet option" where
  "load_latest_by_domain st domain project =
     (let matches = filter (\<lambda>p. pk_domain p = domain) (list_all_packets st)
      in if matches = [] then None
         else
          (let matches = sort_by newest_first matches
           in case Option.bind project
                     (\<lambda>proj. find (\<lambda>p. pk_scope p = ''project'' \<and> pk_project p = Some proj) matches) of
                Some p \<Rightarrow> Some p
              | None \<Rightarrow>
                  (case find (\<lambda>p. pk_scope p = ''global'') matches of
                     Some p \<Rightarrow> Some p
                   | None \<Rightarrow> Some (hd matches))))"

text \<open>\<open>impl PacketResolver for Packets\<close>.\<close>

definition resolve_packet :: "store \<Rightarrow> string \<Rightarrow> packet option" where
  "resolve_packet st i = (case load st i of Inr pk \<Rightarrow> Some pk | Inl _ \<Rightarrow> None)"

definition store_env :: "packet_lib \<Rightarrow> store \<Rightarrow> eval_env" where
  "store_env lib st =
     \<lparr>ev_lower = pl_lower lib, ev_regex = pl_regex lib, ev_resolve = resolve_packet st\<rparr>"

section \<open>Bulk operations\<close>

definition rename_step ::
  "string \<Rightarrow> string \<Rightarrow> nat \<times> store \<Rightarrow> packet \<Rightarrow> nat \<times> store" where
  "rename_step old new acc pk =
     (if pk_project pk = Some old
      then (fst acc + 1, save_packet (pk\<lparr>pk_project := Some new\<rparr>) (snd acc))
      else acc)"

definition rename_project_refs :: "string \<Rightarrow> string \<Rightarrow> store \<Rightarrow> nat \<times> store" where
  "rename_project_refs old new st =
     foldl (rename_step old new) (0, st) (list_all_packets st)"

definition remove_file :: "string \<Rightarrow> string \<Rightarrow> store \<Rightarrow> store" where
  "remove_file scope i st =
     st\<lparr>st_dirs := obj_insert (st_dirs st) scope (filter (\<lambda>f. fst f \<noteq> i) (scope_dir st scope))\<rparr>"

definition remove_step :: "nat \<times> store \<Rightarrow> packet \<Rightarrow> nat \<times> store" where
  "remove_step acc pk =
     (if obj_has (scope_dir (snd acc) (pk_scope pk)) (pk_id pk)
      then (fst acc + 1, remove_file (pk_scope pk) (pk_id pk) (snd acc))
      else acc)"

definition remove_domain :: "string \<Rightarrow> store \<Rightarrow> nat \<times> store" where
  "remove_domain domain st =
     foldl remove_step (0, st) (filter (\<lambda>p. pk_domain p = domain) (list_all_packets st))"

section \<open>Files as a map\<close>

text \<open>The store seen as a map from scope and stem to file.\<close>

definition file_at :: "store \<Rightarrow> string \<times> string \<Rightarrow> packet option option" where
  "file_at st k = obj_get (scope_dir st (fst k)) (snd k)"

definition put_file :: "store \<Rightarrow> string \<times> string \<Rightarrow> packet option \<Rightarrow> store" where
  "put_file st k v =
     st\<lparr>st_dirs := obj_insert (st_dirs st) (fst k) (obj_insert (scope_dir st (fst k)) (snd k) v)\<rparr>"

definition key_of :: "packet \<Rightarrow> string \<times> string" where
  "key_of pk = (pk_scope pk, pk_id pk)"

lemma save_packet_put: "save_packet pk st = put_file st (key_of pk) (written pk)"
  by (simp add: save_packet_def put_file_def key_of_def)

lemma scope_dir_put:
  "scope_dir (put_file st k v) s =
     (if s = fst k then obj_insert (scope_dir st s) (snd k) v else scope_dir st s)"
  by (simp add: scope_dir_def put_file_def)

lemma file_put: "file_at (put_file st k v) j = (if j = k then Some v else file_at st j)"
  by (cases j; cases k) (auto simp: file_at_def scope_dir_put)

definition dirs_wf :: "store \<Rightarrow> bool" where
  "dirs_wf st \<longleftrightarrow> (\<forall>s. map_wf (scope_dir st s))"

lemma dirs_wf_put: "dirs_wf st \<Longrightarrow> dirs_wf (put_file st k v)"
  by (simp add: dirs_wf_def scope_dir_put map_wf_insert)

interpretation files: kv_map file_at put_file dirs_wf
  by unfold_locales (simp_all add: file_put dirs_wf_put)

lemma put_log [simp]: "st_log (put_file st k v) = st_log st"
  by (simp add: put_file_def)

lemma scope_dir_remove:
  "scope_dir (remove_file s i st) t =
     (if t = s then filter (\<lambda>f. fst f \<noteq> i) (scope_dir st t) else scope_dir st t)"
  by (simp add: scope_dir_def remove_file_def)

lemma obj_get_filter_key: "obj_get (filter (\<lambda>f. fst f \<noteq> i) m) j = (if j = i then None else obj_get m j)"
  by (induction m) auto

lemma file_remove: "file_at (remove_file s i st) j = (if j = (s, i) then None else file_at st j)"
  by (cases j) (auto simp: file_at_def scope_dir_remove obj_get_filter_key)

lemma dirs_wf_remove: "dirs_wf st \<Longrightarrow> dirs_wf (remove_file s i st)"
  by (simp add: dirs_wf_def scope_dir_remove map_wf_def distinct_map_filter)

section \<open>The invariant of the store\<close>

text \<open>A readable file holds a well-formed packet, under the packet's own scope and id.\<close>

definition file_ok :: "string \<times> string \<Rightarrow> packet \<Rightarrow> bool" where
  "file_ok k pk \<longleftrightarrow> packet_wf pk \<and> key_of pk = k \<and> written pk = Some pk"

definition store_wf :: "store \<Rightarrow> bool" where
  "store_wf st \<longleftrightarrow> dirs_wf st \<and> (\<forall>k pk. file_at st k = Some (Some pk) \<longrightarrow> file_ok k pk)"

lemma store_wf_fileD:
  "store_wf st \<Longrightarrow> file_at st k = Some (Some p) \<Longrightarrow> packet_wf p \<and> key_of p = k \<and> written p = Some p"
  unfolding store_wf_def file_ok_def by blast

lemma written_Some:
  assumes "written pk = Some pk'"
  shows "key_of pk' = key_of pk" "packet_wf pk' = packet_wf pk" "written pk' = Some pk'"
    "pk_rules pk' = pk_rules pk" "pk_lattice pk' = pk_lattice pk" "pk_domain pk' = pk_domain pk"
    "pk_created_at pk' = pk_created_at pk"
  using assms
  by (auto simp: written_def key_of_def packet_wf_def readable_def split: if_splits option.splits)

lemma store_wf_put:
  assumes "store_wf st" "\<And>pk. v = Some pk \<Longrightarrow> file_ok k pk"
  shows "store_wf (put_file st k v)"
  using assms unfolding store_wf_def by (auto simp: file_put dirs_wf_put split: if_splits)

lemma store_wf_save: "store_wf st \<Longrightarrow> packet_wf pk \<Longrightarrow> store_wf (save_packet pk st)"
  unfolding save_packet_put
  by (rule store_wf_put) (auto simp: file_ok_def written_Some)

lemma store_wf_append [simp]: "store_wf (append_event ev st) = store_wf st"
proof -
  have "scope_dir (append_event ev st) = scope_dir st"
    by (rule ext) (simp add: scope_dir_def append_event_def)
  then show ?thesis by (simp add: store_wf_def dirs_wf_def file_at_def)
qed

text \<open>The files \<open>list_all\<close> walks are those of the two scopes.\<close>

definition scopes :: "string list" where
  "scopes = [''global'', ''project'']"

lemma map_filter_snd_mem: "p \<in> set (List.map_filter snd d) \<longleftrightarrow> (\<exists>i. (i, Some p) \<in> set d)"
  by (induction d) (auto simp: map_filter_simps split: option.splits)

lemma list_all_packets_mem:
  assumes "dirs_wf st"
  shows "p \<in> set (list_all_packets st) \<longleftrightarrow> (\<exists>s\<in>set scopes. \<exists>i. file_at st (s, i) = Some (Some p))"
proof -
  have "(i, Some p) \<in> set (scope_dir st s) \<longleftrightarrow> file_at st (s, i) = Some (Some p)" for s i
    using assms obj_get_mem [of "scope_dir st s" i "Some p"]
    by (auto simp: file_at_def dirs_wf_def dest: obj_get_Some_mem)
  then show ?thesis
    by (auto simp: list_all_packets_def map_filter_snd_mem scopes_def)
qed

lemma list_all_file:
  assumes "store_wf st"
  shows "p \<in> set (list_all_packets st) \<longleftrightarrow> pk_scope p \<in> set scopes \<and> file_at st (key_of p) = Some (Some p)"
proof -
  have "file_at st k = Some (Some p) \<Longrightarrow> k = key_of p" for k
    using assms unfolding store_wf_def file_ok_def by blast
  moreover have "dirs_wf st" using assms by (simp add: store_wf_def)
  ultimately show ?thesis
    unfolding list_all_packets_mem [OF \<open>dirs_wf st\<close>] key_of_def by blast
qed

lemma distinct_keys_dir:
  "map_wf d \<Longrightarrow> (\<And>i p. (i, Some p) \<in> set d \<Longrightarrow> key_of p = (s, i)) \<Longrightarrow>
   distinct (map key_of (List.map_filter snd d))"
proof (induction d)
  case (Cons x d)
  obtain i f where x: "x = (i, f)" by force
  have IH: "distinct (map key_of (List.map_filter snd d))"
    using Cons by (auto simp: map_wf_def)
  have "(s, i) \<notin> key_of ` set (List.map_filter snd d)"
  proof
    assume "(s, i) \<in> key_of ` set (List.map_filter snd d)"
    then obtain p j where p: "key_of p = (s, i)" "(j, Some p) \<in> set d"
      by (auto simp: map_filter_snd_mem)
    with Cons.prems(2) [of j p] have "j = i" by simp
    with p Cons.prems(1) show False by (force simp: map_wf_def x)
  qed
  with IH Cons.prems(2) [of i] show ?case by (cases f) (auto simp: x map_filter_simps)
qed (simp add: map_filter_simps)

lemma distinct_keys_list_all:
  assumes "store_wf st"
  shows "distinct (map key_of (list_all_packets st))"
proof -
  let ?d = "\<lambda>s. List.map_filter snd (scope_dir st s)"
  have m: "map_wf (scope_dir st s)" for s using assms by (simp add: store_wf_def dirs_wf_def)
  have k: "(i, Some p) \<in> set (scope_dir st s) \<Longrightarrow> key_of p = (s, i)" for s i p
    using assms obj_get_mem [OF m, of i "Some p" s]
    unfolding store_wf_def file_ok_def file_at_def by force
  have d: "distinct (map key_of (?d s))" for s by (rule distinct_keys_dir [OF m k])
  have f: "fst (key_of p) = s" if "p \<in> set (?d s)" for p s
    using that k by (force simp: map_filter_snd_mem)
  have "distinct (map key_of (?d ''global'' @ ?d ''project''))"
    using d f by (fastforce dest: f)
  moreover have "mset (map key_of (list_all_packets st)) = mset (map key_of (?d ''global'' @ ?d ''project''))"
    by (simp add: list_all_packets_def)
  ultimately show ?thesis using mset_eq_imp_distinct_iff by blast
qed

section \<open>Listing and loading\<close>

interpretation newest: total_preorder newest_first
  by unfold_locales (auto simp: newest_first_def)

lemma list_all_sorted: "sorted_wrt newest_first (list_all_packets st)"
  unfolding list_all_packets_def by (rule newest.sorted_sort)

lemma resort_filter:
  "sort_by newest_first (filter P (list_all_packets st)) = filter P (list_all_packets st)"
  by (rule newest.sort_sorted_id) (simp add: sorted_wrt_filter list_all_sorted)

lemma load_domain:
  "load st (''domain:'' @ d) =
     (case find (\<lambda>p. pk_domain p = d) (list_all_packets st) of
        None \<Rightarrow> Inl (NoPacketForDomain d) | Some p \<Rightarrow> Inr p)"
  by (simp only: load_def strip_prefix_append option.case resort_filter)
    (simp add: find_filter split: list.splits)

lemma load_id:
  "strip_prefix ''domain:'' i = None \<Longrightarrow>
   load st i =
     (case file_at st (''global'', normalize_id i) of
        Some f \<Rightarrow> (case f of Some pk \<Rightarrow> Inr pk
                   | None \<Rightarrow> Inl (PacketUnreadable ''global'' (normalize_id i)))
      | None \<Rightarrow>
          (case file_at st (''project'', normalize_id i) of
             Some f \<Rightarrow> (case f of Some pk \<Rightarrow> Inr pk
                        | None \<Rightarrow> Inl (PacketUnreadable ''project'' (normalize_id i)))
           | None \<Rightarrow> Inl (PacketNotFound i)))"
  by (simp add: load_def Let_def file_at_def obj_has_def split: option.splits)

lemma resolve_listed:
  assumes "dirs_wf st" "resolve_packet st i = Some pk"
  shows "pk \<in> set (list_all_packets st)"
proof -
  from assms(2) have l: "load st i = Inr pk" by (simp add: resolve_packet_def split: sum.splits)
  show ?thesis
  proof (cases "strip_prefix ''domain:'' i")
    case None
    with l have "\<exists>s\<in>set scopes. file_at st (s, normalize_id i) = Some (Some pk)"
      by (simp add: load_id scopes_def split: option.splits)
    then show ?thesis unfolding list_all_packets_mem [OF assms(1)] by blast
  next
    case (Some d)
    then have "i = ''domain:'' @ d" by (simp only: strip_prefix_Some)
    with l have "find (\<lambda>p. pk_domain p = d) (list_all_packets st) = Some pk"
      by (simp only: load_domain) (simp split: option.splits)
    then show ?thesis by (auto simp: find_Some_iff)
  qed
qed

text \<open>
  The contract of a packet repository towards the evaluator: what it resolves is served, what
  it serves is good while its invariant holds, and saving a good packet keeps the invariant.
\<close>

locale packet_repo =
  fixes inv :: "'s \<Rightarrow> bool" and good :: "packet \<Rightarrow> bool" and served :: "'s \<Rightarrow> packet list"
    and resolve :: "'s \<Rightarrow> string \<Rightarrow> packet option" and save :: "packet \<Rightarrow> 's \<Rightarrow> 's"
  assumes resolve_served: "inv s \<Longrightarrow> resolve s i = Some pk \<Longrightarrow> pk \<in> set (served s)"
    and served_good: "inv s \<Longrightarrow> pk \<in> set (served s) \<Longrightarrow> good pk"
    and save_inv: "inv s \<Longrightarrow> good pk \<Longrightarrow> inv (save pk s)"
begin

lemma resolve_good: "inv s \<Longrightarrow> resolve s i = Some pk \<Longrightarrow> good pk"
  using resolve_served served_good by blast

lemma saves_inv: "inv s \<Longrightarrow> \<forall>pk\<in>set pks. good pk \<Longrightarrow> inv (fold save pks s)"
  by (induction pks arbitrary: s) (simp_all add: save_inv)

lemma resolve_after_saves:
  "inv s \<Longrightarrow> \<forall>pk\<in>set pks. good pk \<Longrightarrow> resolve (fold save pks s) i = Some pk \<Longrightarrow> good pk"
  using saves_inv resolve_good by blast

end

lemma store_wf_dirs: "store_wf st \<Longrightarrow> dirs_wf st"
  by (simp add: store_wf_def)

lemma list_all_wf: "store_wf st \<Longrightarrow> pk \<in> set (list_all_packets st) \<Longrightarrow> packet_wf pk"
proof -
  assume w: "store_wf st" and "pk \<in> set (list_all_packets st)"
  then have "file_at st (key_of pk) = Some (Some pk)" by (simp add: list_all_file)
  with w show "packet_wf pk" unfolding store_wf_def file_ok_def by blast
qed

interpretation repo: packet_repo store_wf packet_wf list_all_packets resolve_packet save_packet
  by unfold_locales (auto simp: store_wf_save list_all_wf intro: resolve_listed store_wf_dirs)

text \<open>A \<open>domain:\<close> reference resolves exactly when the domain has a packet, and then to one no
  other packet of the domain is newer than.\<close>

theorem load_domain_newest:
  "case load st (''domain:'' @ d) of
     Inl e \<Rightarrow> e = NoPacketForDomain d \<and> (\<forall>p\<in>set (list_all_packets st). pk_domain p \<noteq> d)
   | Inr pk \<Rightarrow> pk \<in> set (list_all_packets st) \<and> pk_domain pk = d \<and>
       (\<forall>p\<in>set (list_all_packets st). pk_domain p = d \<longrightarrow> pk_created_at p \<le> pk_created_at pk)"
proof (cases "find (\<lambda>p. pk_domain p = d) (list_all_packets st)")
  case None
  then have "\<forall>p\<in>set (list_all_packets st). pk_domain p \<noteq> d" by (simp add: find_None_iff)
  then show ?thesis unfolding load_domain None by simp
next
  case (Some pk)
  obtain xs ys where l: "list_all_packets st = xs @ pk # ys" "pk_domain pk = d"
    "\<forall>y\<in>set xs. pk_domain y \<noteq> d"
    using find_splitD [OF Some] by blast
  then have "p \<in> set (list_all_packets st) \<Longrightarrow> pk_domain p = d \<Longrightarrow> newest_first pk p" for p
    using list_all_sorted [of st] newest.refl_le by (auto simp: sorted_wrt_append)
  with Some l show ?thesis unfolding load_domain by (auto simp: newest_first_def)
qed

text \<open>A store holding one packet of project \<open>a\<close>.\<close>

definition sample_owned :: packet where
  "sample_owned = sample_packet\<lparr>pk_project := Some ''a''\<rparr>"

definition sample_store :: store where
  "sample_store = save_packet sample_owned \<lparr>st_dirs = [], st_log = []\<rparr>"

lemma sample_written: "written sample_owned = Some sample_owned"
  by (simp add: written_def readable_def sample_owned_def sample_packet_def f32_finite_def
      f32_mag_def f32_one_def)

lemma sample_store_wf: "store_wf sample_store"
proof -
  have "packet_wf sample_owned"
    using sample_packet_wf by (simp add: sample_owned_def packet_wf_def)
  moreover have "store_wf \<lparr>st_dirs = [], st_log = []\<rparr>"
    by (simp add: store_wf_def dirs_wf_def file_at_def scope_dir_def map_wf_def)
  ultimately show ?thesis unfolding sample_store_def by (intro store_wf_save)
qed

lemma sample_file: "file_at sample_store (''global'', ''packet-1'') = Some (Some sample_owned)"
  by (simp add: sample_store_def save_packet_put file_put sample_written key_of_def)
    (simp add: sample_owned_def sample_packet_def)

lemma sample_listed: "list_all_packets sample_store = [sample_owned]"
  by (simp add: list_all_packets_def sample_store_def save_packet_def scope_dir_def
      map_filter_simps sample_written)
    (simp add: sample_owned_def sample_packet_def map_filter_simps)

theorem load_domain_newest_witness:
  "load sample_store (''domain:'' @ ''d'') = Inr sample_owned \<and>
   (\<forall>p\<in>set (list_all_packets sample_store).
      pk_domain p = ''d'' \<longrightarrow> pk_created_at p \<le> pk_created_at sample_owned)"
proof -
  have "load sample_store (''domain:'' @ ''d'') = Inr sample_owned"
    unfolding load_domain by (simp add: sample_listed) (simp add: sample_owned_def sample_packet_def)
  with load_domain_newest [where st = sample_store and d = "''d''"] show ?thesis by auto
qed

section \<open>Renaming and removing\<close>

definition retarget :: "string \<Rightarrow> string \<Rightarrow> packet \<Rightarrow> packet" where
  "retarget old new pk = (if pk_project pk = Some old then pk\<lparr>pk_project := Some new\<rparr> else pk)"

lemma rename_fold:
  "foldl (rename_step old new) (n, st) pks =
     (n + length (filter (\<lambda>p. pk_project p = Some old) pks),
      files.ins_all st (map (\<lambda>p. (key_of p, written (p\<lparr>pk_project := Some new\<rparr>)))
        (filter (\<lambda>p. pk_project p = Some old) pks)))"
proof (induction pks arbitrary: n st)
  case (Cons p pks)
  have "key_of (p\<lparr>pk_project := Some new\<rparr>) = key_of p" by (simp add: key_of_def)
  with Cons show ?case by (auto simp: rename_step_def save_packet_put files.ins_all_def)
qed (simp add: files.ins_all_def)

lemma written_project:
  "written (p\<lparr>pk_project := x\<rparr>) = map_option (\<lambda>q. q\<lparr>pk_project := x\<rparr>) (written p)"
  by (simp add: written_def readable_def)

text \<open>Renaming a project rewrites the \<open>project\<close> field of exactly the packets that carried the old
  name, in place, and counts them; every other file of the two scopes keeps its contents.\<close>

theorem rename_project_refs_correct:
  assumes "store_wf st" "rename_project_refs old new st = (n, st')" "fst k \<in> set scopes"
  shows "file_at st' k = map_option (map_option (retarget old new)) (file_at st k) \<and>
    n = length (filter (\<lambda>p. pk_project p = Some old) (list_all_packets st))"
proof -
  let ?M = "filter (\<lambda>p. pk_project p = Some old) (list_all_packets st)"
  let ?kv = "map (\<lambda>p. (key_of p, written (p\<lparr>pk_project := Some new\<rparr>))) ?M"
  from assms(2) have n: "n = length ?M" and st': "st' = files.ins_all st ?kv"
    by (auto simp: rename_project_refs_def rename_fold)
  have ks: "map fst ?kv = map key_of ?M" by simp
  have d: "distinct (map fst ?kv)"
    unfolding ks using distinct_keys_list_all [OF assms(1)] by (rule distinct_map_filter)
  have pres: "p \<in> set ?M \<Longrightarrow> file_at st (key_of p) = Some (Some p) \<and> written p = Some p" for p
    using assms(1) store_wf_fileD [OF assms(1), of "key_of p" p] by (auto simp: list_all_file)
  show ?thesis
  proof (cases "k \<in> key_of ` set ?M")
    case True
    then obtain p where p: "p \<in> set ?M" "k = key_of p" by blast
    then have "(k, Some (p\<lparr>pk_project := Some new\<rparr>)) \<in> set ?kv"
      using pres [of p] by (force simp: written_project)
    from files.get_ins_all [OF d this, of st] p pres [of p] n show ?thesis
      by (auto simp: st' retarget_def)
  next
    case False
    then have "file_at st' k = file_at st k"
      unfolding st' by (intro files.get_ins_all_notin) auto
    moreover have "pk_project p \<noteq> Some old" if "file_at st k = Some (Some p)" for p
    proof -
      have "k = key_of p" using assms(1) that unfolding store_wf_def file_ok_def by blast
      with False that assms(1,3) show ?thesis by (auto simp: list_all_file key_of_def)
    qed
    ultimately show ?thesis 
      using n by (cases "file_at st k"; cases "the (file_at st k)") (auto simp: retarget_def)
  qed
qed

theorem rename_project_refs_correct_witness:
  "file_at (snd (rename_project_refs ''a'' ''b'' sample_store)) (''global'', ''packet-1'') =
     Some (Some (sample_owned\<lparr>pk_project := Some ''b''\<rparr>)) \<and>
   fst (rename_project_refs ''a'' ''b'' sample_store) = 1"
  using rename_project_refs_correct [OF sample_store_wf, where old = "''a''" and new = "''b''"
      and k = "(''global'', ''packet-1'')", OF prod.collapse [symmetric]]
  by (simp add: scopes_def sample_file sample_listed retarget_def) (simp add: sample_owned_def)

lemma remove_fold:
  "distinct (map key_of pks) \<Longrightarrow> \<forall>p\<in>set pks. file_at st (key_of p) \<noteq> None \<Longrightarrow>
   fst (foldl remove_step (n, st) pks) = n + length pks \<and>
   file_at (snd (foldl remove_step (n, st) pks)) k = (if k \<in> key_of ` set pks then None else file_at st k)"
proof (induction pks arbitrary: n st)
  case (Cons p pks)
  have here: "remove_step (n, st) p = (n + 1, remove_file (pk_scope p) (pk_id p) st)"
    using Cons.prems(2) by (simp add: remove_step_def obj_has_def file_at_def key_of_def)
  let ?st = "remove_file (pk_scope p) (pk_id p) st"
  have f: "file_at ?st j = (if j = key_of p then None else file_at st j)" for j
    by (simp add: file_remove key_of_def)
  have "key_of q \<noteq> key_of p" if "q \<in> set pks" for q
    using Cons.prems(1) that by (metis distinct.simps(2) image_eqI list.set_map list.simps(9))
  then have "\<forall>q\<in>set pks. file_at ?st (key_of q) \<noteq> None"
    using Cons.prems(2) unfolding f by simp
  with Cons.IH [of ?st "n + 1"] Cons.prems(1) here f show ?case by auto
qed simp

text \<open>Removing a domain deletes exactly its packets from the two scopes and counts them.\<close>

theorem remove_domain_correct:
  assumes "store_wf st" "remove_domain d st = (n, st')" "fst k \<in> set scopes"
  shows "file_at st' k =
     (case file_at st k of Some (Some p) \<Rightarrow> if pk_domain p = d then None else Some (Some p) | f \<Rightarrow> f) \<and>
   n = length (filter (\<lambda>p. pk_domain p = d) (list_all_packets st))"
proof -
  let ?M = "filter (\<lambda>p. pk_domain p = d) (list_all_packets st)"
  have mem: "p \<in> set ?M \<longleftrightarrow> pk_domain p = d \<and> pk_scope p \<in> set scopes \<and> file_at st (key_of p) = Some (Some p)" for p
    using assms(1) by (auto simp: list_all_file)
  have dist: "distinct (map key_of ?M)"
    using distinct_keys_list_all [OF assms(1)] by (rule distinct_map_filter)
  have "\<forall>p\<in>set ?M. file_at st (key_of p) \<noteq> None" using mem by blast
  from remove_fold [OF dist this, of 0 k] assms(2)
  have st': "n = length ?M" "file_at st' k = (if k \<in> key_of ` set ?M then None else file_at st k)"
    by (simp_all add: remove_domain_def)
  have "k \<in> key_of ` set ?M \<longleftrightarrow> (\<exists>p. file_at st k = Some (Some p) \<and> pk_domain p = d)"
  proof
    assume "\<exists>p. file_at st k = Some (Some p) \<and> pk_domain p = d"
    then obtain p where p: "file_at st k = Some (Some p)" "pk_domain p = d" by blast
    with assms(1) have "key_of p = k" unfolding store_wf_def file_ok_def by blast
    with p assms(3) have "p \<in> set ?M" unfolding mem by (auto simp: key_of_def)
    with \<open>key_of p = k\<close> show "k \<in> key_of ` set ?M" by blast
  qed (auto simp: mem simp del: set_filter)
  with st' show ?thesis by (auto split: option.splits)
qed

theorem remove_domain_correct_witness:
  "file_at (snd (remove_domain ''d'' sample_store)) (''global'', ''packet-1'') = None \<and>
   fst (remove_domain ''d'' sample_store) = 1"
  using remove_domain_correct [OF sample_store_wf, where d = "''d''"
      and k = "(''global'', ''packet-1'')", OF prod.collapse [symmetric]]
  by (simp add: scopes_def sample_file sample_listed) (simp add: sample_owned_def sample_packet_def)

section \<open>The log\<close>

lemma map_filter_rev: "List.map_filter f (rev xs) = rev (List.map_filter f xs)"
  by (simp add: List.map_filter_def rev_map rev_filter)

lemma list_events_loop_take:
  "list_events_loop q limit lines events =
     events @ take (limit - length events) (filter (event_selected q) (List.map_filter id lines))"
  by (induction q limit lines events rule: list_events_loop.induct)
    (auto simp: map_filter_simps take_Cons' split: option.splits)

text \<open>The early-exit loop of \<open>list_events\<close> returns the newest \<open>limit\<close> of the selected events, newest
  first.\<close>

theorem list_events_take:
  "list_events st q limit =
     take limit (filter (event_selected q) (rev (List.map_filter id (st_log st))))"
  by (simp add: list_events_def list_events_loop_take map_filter_rev)

section \<open>Identifiers\<close>

lemma of_char_hex: "n < 16 \<Longrightarrow> (of_char (hex_digit n) :: nat) = (if n < 10 then 48 + n else 87 + n)"
  by (simp add: hex_digit_def)

lemma hex_digit_inj:
  assumes "a < 16" "b < 16" "hex_digit a = hex_digit b"
  shows "a = b"
proof -
  have "(if a < 10 then 48 + a else 87 + a) = (if b < 10 then 48 + b else 87 + b)"
    using of_char_hex [OF assms(1)] of_char_hex [OF assms(2)] assms(3) by simp
  then show ?thesis by (simp split: if_splits)
qed

lemma digits16_mod:
  "(\<And>i. i < k \<Longrightarrow> a div 16 ^ i mod 16 = b div 16 ^ i mod (16::nat)) \<Longrightarrow> a mod 16 ^ k = b mod 16 ^ k"
proof (induction k)
  case (Suc k)
  have "x mod 16 ^ Suc k = 16 ^ k * (x div 16 ^ k mod 16) + x mod 16 ^ k" for x :: nat
    by (simp add: mod_mult2_eq mult.commute [of 16])
  with Suc show ?case by simp
qed simp

lemma hex8_inj:
  assumes "hex8 v = hex8 w"
  shows "v = w"
proof -
  have "unat v div 16 ^ i mod 16 = unat w div 16 ^ i mod 16" if "i < 8" for i
  proof -
    from that have "7 - (7 - i) = i" "7 - i < length [0..<8]" by auto
    with arg_cong [OF assms, of "\<lambda>xs. xs ! (7 - i)"]
    have "hex_digit (unat v div 16 ^ i mod 16) = hex_digit (unat w div 16 ^ i mod 16)"
      by (simp add: hex8_def nth_map)
    then show ?thesis by (rule hex_digit_inj [rotated 2]) simp_all
  qed
  then have "unat v mod 16 ^ 8 = unat w mod 16 ^ 8" by (rule digits16_mod)
  moreover have "unat u < 16 ^ 8" for u :: u32 using unsigned_less [of u] by simp
  ultimately show ?thesis by (simp add: word_unat_eq_iff)
qed

lemma xor_right_cancel: "xor u c = xor v c \<Longrightarrow> u = v" for u v c :: "'a::len word"
  by (drule arg_cong [where f = "\<lambda>x. xor x c"]) (simp add: xor.assoc)

text \<open>Generated ids are distinct exactly for clock readings that differ modulo two to the
  thirty-second nanoseconds: within about 4.3 seconds ids do not collide, and readings a multiple
  of that apart do.\<close>

theorem gen_id_collision:
  "gen_id a = gen_id b \<longleftrightarrow> unat a mod 2 ^ 32 = unat b mod 2 ^ 32"
proof -
  have u: "(ucast w :: u32) = ucast w' \<longleftrightarrow> unat w mod 2 ^ 32 = unat w' mod 2 ^ 32" for w w' :: "128 word"
    by (simp add: word_unat_eq_iff unsigned_ucast_eq take_bit_eq_mod)
  have "gen_id a = gen_id b \<longleftrightarrow> (ucast a :: u32) = ucast b"
    by (auto simp: gen_id_def unsigned_xor_eq dest!: hex8_inj xor_right_cancel)
  with u show ?thesis by simp
qed

end
