(* ===== verification/Packet_Compile.thy ===== *)
theory Packet_Compile
  imports Packet_Store
begin

text \<open>
  The operations of the store that clients call: \<open>compile\<close>, \<open>apply_tool\<close>, \<open>audit_tool\<close> and
  \<open>log_gap\<close> of \<open>src/src/packets/mod.rs\<close>, the query match and the summary of \<open>compile.rs\<close>, and
  the listing tool of \<open>src/src/tools/packets.rs\<close>. An operation returns its result and the store
  it leaves. Error messages are the constructors of \<open>store_error\<close>; their rendering in an event
  is a parameter.
\<close>

section \<open>JSON of the tool surface\<close>

definition jnat :: "nat \<Rightarrow> json" where
  "jnat n = JNum (num_of_nat n)"

definition jf32 :: "f32 \<Rightarrow> json" where
  "jf32 f = (if f32_finite f then JNum (NFloat (f64_of_f32 f)) else JNull)"

definition jopt :: "('a \<Rightarrow> json) \<Rightarrow> 'a option \<Rightarrow> json" where
  "jopt f x = (case x of Some v \<Rightarrow> f v | None \<Rightarrow> JNull)"

definition jstrs :: "string list \<Rightarrow> json" where
  "jstrs xs = JArr (map JStr xs)"

definition unwrap_jsonish :: "packet_lib \<Rightarrow> json \<Rightarrow> json" where
  "unwrap_jsonish lib v =
     (case v of
        JStr s \<Rightarrow>
          (let trimmed = trim_start s
           in if starts_with trimmed ''{'' \<or> starts_with trimmed ''[''
              then (case pl_parse lib s of Some parsed \<Rightarrow> parsed | None \<Rightarrow> v)
              else v)
      | _ \<Rightarrow> v)"

section \<open>Compiling\<close>

record compile_params =
  cp_domain :: string
  cp_rules :: json
  cp_lattice :: "string list option"
  cp_prefix_inference :: "string smap option"
  cp_rank_table :: "json option"
  cp_threshold_table :: "json option"
  cp_rank_lookup_key :: "string option"
  cp_threshold_lookup_key :: "string option"
  cp_source_ids :: "string list option"
  cp_scope :: "string option"
  cp_project :: "string option"

definition default_rank_lookup_key :: string where
  "default_rank_lookup_key = ''role''"

definition default_threshold_lookup_key :: string where
  "default_threshold_lookup_key = ''resource''"

text \<open>An object of integers, as an ordered map.\<close>

fun decode_entries :: "jmap \<Rightarrow> i64 smap \<Rightarrow> i64 smap option" where
  "decode_entries [] acc = Some acc"
| "decode_entries ((k, v) # m) acc =
     (case as_i64 v of Some i \<Rightarrow> decode_entries m (bt_insert acc k i) | None \<Rightarrow> None)"

definition decode_table :: "json \<Rightarrow> i64 smap option" where
  "decode_table v = (case as_object v of Some m \<Rightarrow> decode_entries m [] | None \<Rightarrow> None)"

definition table_param ::
  "packet_lib \<Rightarrow> store_error \<Rightarrow> json option \<Rightarrow> store_error + i64 smap" where
  "table_param lib err p =
     (case p of
        None \<Rightarrow> Inr []
      | Some v \<Rightarrow> (case decode_table (unwrap_jsonish lib v) of Some t \<Rightarrow> Inr t | None \<Rightarrow> Inl err))"

definition packet_refs :: "rule list \<Rightarrow> string list" where
  "packet_refs rs = concat (map (\<lambda>r. collect_apply_refs (ru_antecedent r)) rs)"

definition check_ref :: "store \<Rightarrow> rule list \<Rightarrow> string \<Rightarrow> store_error + unit" where
  "check_ref st rs packet_id =
     rbind (map_err (ApplyNotInStore packet_id) (load st (normalize_id packet_id))) (\<lambda>sub.
       map_err RuleError
         (check_apply_expect_against_lattice (rule_antecedents_referencing rs packet_id) sub))"

definition build_packet ::
  "packet_lib \<Rightarrow> clock \<Rightarrow> compile_params \<Rightarrow> store \<Rightarrow> store_error + packet" where
  "build_packet lib ck p st =
     rbind (guard_err (trim (cp_domain p) = []) EmptyDomain) (\<lambda>_.
     let lattice = (case cp_lattice p of Some l \<Rightarrow> l | None \<Rightarrow> review_lattice) in
     rbind (guard_err (lattice = []) EmptyLattice) (\<lambda>_.
     let prefix_inference =
           (case cp_prefix_inference p of Some m \<Rightarrow> m | None \<Rightarrow> review_prefix_inference) in
     rbind (case pl_rules lib (unwrap_jsonish lib (cp_rules p)) of
              Some inputs \<Rightarrow> Inr inputs | None \<Rightarrow> Inl RulesShape) (\<lambda>inputs.
     rbind (guard_err (inputs = []) NoRules) (\<lambda>_.
     rbind (map_err RuleError (map_result (\<lambda>ri. materialize ri lattice prefix_inference) inputs))
       (\<lambda>rules.
     rbind (check_all (check_ref st rules) (packet_refs rules)) (\<lambda>_.
     rbind (table_param lib RankTableShape (cp_rank_table p)) (\<lambda>rank_table.
     rbind (table_param lib ThresholdTableShape (cp_threshold_table p)) (\<lambda>threshold_table.
     let scope = (case cp_scope p of Some s \<Rightarrow> s | None \<Rightarrow> ''global'') in
     rbind (guard_err (scope \<noteq> ''global'' \<and> scope \<noteq> ''project'') BadScope) (\<lambda>_.
     Inr \<lparr>pk_id = gen_id (ck_nanos ck), pk_domain = cp_domain p, pk_scope = scope,
          pk_project = cp_project p, pk_rank_table = rank_table,
          pk_threshold_table = threshold_table,
          pk_rank_lookup_key =
            (case cp_rank_lookup_key p of Some k \<Rightarrow> k | None \<Rightarrow> default_rank_lookup_key),
          pk_threshold_lookup_key =
            (case cp_threshold_lookup_key p of Some k \<Rightarrow> k | None \<Rightarrow> default_threshold_lookup_key),
          pk_lattice = lattice, pk_prefix_inference = prefix_inference, pk_rules = rules,
          pk_source_ids = (case cp_source_ids p of Some s \<Rightarrow> s | None \<Rightarrow> []),
          pk_self_audit_fidelity = None, pk_created_at = ck_iso_millis ck,
          pk_updated_at = ck_iso_millis ck, pk_superseded_by = None,
          pk_merged_from = []\<rparr>)))))))))"

definition compile_inner ::
  "packet_lib \<Rightarrow> clock \<Rightarrow> compile_params \<Rightarrow> store \<Rightarrow> (store_error + packet) \<times> store" where
  "compile_inner lib ck p st =
     (case build_packet lib ck p st of
        Inl e \<Rightarrow> (Inl e, st)
      | Inr pk \<Rightarrow> (Inr pk, save_packet pk st))"

definition compile_event ::
  "packet_lib \<Rightarrow> clock \<Rightarrow> compile_params \<Rightarrow> store_error + packet \<Rightarrow> packet_event" where
  "compile_event lib ck p result =
     (case result of
        Inr pk \<Rightarrow>
          (let refs = dedup (sort_strings (packet_refs (pk_rules pk)));
               details = JObj [(''rules_count'', jnat (length (pk_rules pk))),
                               (''lattice_size'', jnat (length (pk_lattice pk))),
                               (''lattice'', jstrs (pk_lattice pk)),
                               (''referenced_packets'', jstrs refs),
                               (''scope'', JStr (pk_scope pk))]
           in with_details details (with_domain (cp_domain p)
                (with_packet_id (pk_id pk) (event_now ck ''compile'' ''ok''))))
      | Inl e \<Rightarrow>
          (let ev = with_details (JObj [(''error'', JStr (pl_render lib e))])
                      (event_now ck ''compile'' ''error'')
           in if trim (cp_domain p) \<noteq> [] then with_domain (cp_domain p) ev else ev))"

definition compile_packet ::
  "packet_lib \<Rightarrow> clock \<Rightarrow> compile_params \<Rightarrow> store \<Rightarrow> (store_error + string) \<times> store" where
  "compile_packet lib ck p st =
     (let (result, st) = compile_inner lib ck p st;
          st = append_event (compile_event lib ck p result) st
      in (rbind result (\<lambda>pk. Inr
            (''Packet '' @ pk_id pk @ '' compiled (domain='' @ pk_domain pk @ '', scope='' @
             pk_scope pk @ '', rules='' @ show_nat (length (pk_rules pk)) @ '')'')), st))"

section \<open>Applying and auditing\<close>

definition mode_name :: "apply_mode \<Rightarrow> string" where
  "mode_name m = (case m of First \<Rightarrow> ''first'' | All \<Rightarrow> ''all'')"

definition default_mode :: "apply_mode option \<Rightarrow> apply_mode" where
  "default_mode m = (case m of Some m \<Rightarrow> m | None \<Rightarrow> First)"

definition prediction_json :: "prediction \<Rightarrow> json" where
  "prediction_json p =
     JObj [(''rule_id'', JStr (pr_rule_id p)), (''consequent'', value_to_json (pr_consequent p)),
           (''confidence'', jf32 (pr_confidence p)),
           (''classification'', JStr (pr_classification p))]"

definition packet_event_now :: "clock \<Rightarrow> string \<Rightarrow> string \<Rightarrow> packet \<Rightarrow> json \<Rightarrow> packet_event" where
  "packet_event_now ck op' outcome pk details =
     with_details details (with_domain (pk_domain pk)
       (with_packet_id (pk_id pk) (event_now ck op' outcome)))"

definition load_error_event ::
  "packet_lib \<Rightarrow> clock \<Rightarrow> string \<Rightarrow> string \<Rightarrow> store_error \<Rightarrow> packet_event" where
  "load_error_event lib ck op' i e =
     with_details (JObj [(''error'', JStr (pl_render lib e))])
       (with_packet_id (normalize_id i) (event_now ck op' ''error''))"

definition apply_tool ::
  "packet_lib \<Rightarrow> clock \<Rightarrow> string \<Rightarrow> json \<Rightarrow> apply_mode option \<Rightarrow> store
     \<Rightarrow> (store_error + string) \<times> store" where
  "apply_tool lib ck i entity mode st =
     (case load st i of
        Inl e \<Rightarrow> (Inl e, append_event (load_error_event lib ck ''apply'' i e) st)
      | Inr pk \<Rightarrow>
          (let entity = unwrap_jsonish lib entity; env = store_env lib st
           in case default_mode mode of
                First \<Rightarrow>
                  (case apply_with env pk entity of
                     Some p \<Rightarrow>
                       (Inr (pl_print lib (JObj
                          [(''packet_id'', JStr (pk_id pk)), (''mode'', JStr ''first''),
                           (''match'', JBool True), (''rule_id'', JStr (pr_rule_id p)),
                           (''classification'', JStr (pr_classification p)),
                           (''consequent'', value_to_json (pr_consequent p)),
                           (''confidence'', jf32 (pr_confidence p))])),
                        append_event (packet_event_now ck ''apply'' ''ok'' pk (JObj
                          [(''mode'', JStr ''first''), (''matched'', JBool True),
                           (''rule_id'', JStr (pr_rule_id p)),
                           (''classification'', JStr (pr_classification p))])) st)
                   | None \<Rightarrow>
                       (Inr (pl_print lib (JObj
                          [(''packet_id'', JStr (pk_id pk)), (''mode'', JStr ''first''),
                           (''match'', JBool False), (''consequent'', JNull),
                           (''note'', JStr ''no rule's antecedent matched the entity'')])),
                        append_event (packet_event_now ck ''apply'' ''no_match'' pk
                          (JObj [(''mode'', JStr ''first'')])) st))
              | All \<Rightarrow>
                  (let result = apply_all_with env pk entity;
                       outcome = (if aa_verdict result \<noteq> None then ''ok'' else ''no_match'')
                   in (Inr (pl_print lib (JObj
                         [(''packet_id'', JStr (aa_packet_id result)), (''mode'', JStr ''all''),
                          (''findings'', JArr (map prediction_json (aa_findings result))),
                          (''verdict'', jopt JStr (aa_verdict result)),
                          (''finding_count'', jnat (length (aa_findings result)))])),
                       append_event (packet_event_now ck ''apply'' outcome pk (JObj
                         [(''mode'', JStr ''all''), (''verdict'', jopt JStr (aa_verdict result)),
                          (''finding_count'', jnat (length (aa_findings result)))])) st))))"

definition mismatch_json :: "mismatch \<Rightarrow> json" where
  "mismatch_json m =
     JObj [(''entity'', mm_entity m), (''expected'', value_to_json (mm_expected m)),
           (''predicted'', jopt value_to_json (mm_predicted m)),
           (''rule_id'', jopt JStr (mm_rule_id m))]"

definition all_mismatch_json :: "all_mismatch \<Rightarrow> json" where
  "all_mismatch_json m =
     JObj ([(''entity'', am_entity m), (''check'', JStr (am_check m))] @
       (case am_expected_verdict m of Some v \<Rightarrow> [(''expected_verdict'', JStr v)] | None \<Rightarrow> []) @
       (case am_actual_verdict m of Some v \<Rightarrow> [(''actual_verdict'', JStr v)] | None \<Rightarrow> []) @
       (case am_expected_rule_ids m of Some v \<Rightarrow> [(''expected_rule_ids'', jstrs v)] | None \<Rightarrow> []) @
       (case am_actual_rule_ids m of Some v \<Rightarrow> [(''actual_rule_ids'', jstrs v)] | None \<Rightarrow> []))"

definition audit_outcome :: "f32 \<Rightarrow> string" where
  "audit_outcome fidelity = (if f32_le f32_one fidelity then ''ok'' else ''low_fidelity'')"

definition audit_tool ::
  "packet_lib \<Rightarrow> clock \<Rightarrow> string \<Rightarrow> json \<Rightarrow> apply_mode option \<Rightarrow> store
     \<Rightarrow> (store_error + string) \<times> store" where
  "audit_tool lib ck i dataset mode st =
     (case load st i of
        Inl e \<Rightarrow> (Inl e, append_event (load_error_event lib ck ''audit'' i e) st)
      | Inr pk \<Rightarrow>
          (let dataset = unwrap_jsonish lib dataset; env = store_env lib st
           in case default_mode mode of
                First \<Rightarrow>
                  (case verify_with env pk dataset of
                     Inl e \<Rightarrow> (Inl (AuditFailed e), st)
                   | Inr rep \<Rightarrow>
                       (Inr (pl_print lib (JObj
                          [(''packet_id'', JStr (pk_id pk)), (''mode'', JStr ''first''),
                           (''total'', jnat (fr_total rep)), (''correct'', jnat (fr_correct rep)),
                           (''fidelity'', jf32 (fr_fidelity rep)),
                           (''mismatches'', JArr (map mismatch_json (fr_mismatches rep))),
                           (''uncovered_count'', jnat (length (fr_uncovered rep)))])),
                        append_event (packet_event_now ck ''audit''
                          (audit_outcome (fr_fidelity rep)) pk (JObj
                          [(''mode'', JStr ''first''), (''total'', jnat (fr_total rep)),
                           (''correct'', jnat (fr_correct rep)),
                           (''fidelity'', jf32 (fr_fidelity rep)),
                           (''mismatch_count'', jnat (length (fr_mismatches rep))),
                           (''uncovered_count'', jnat (length (fr_uncovered rep)))])) st))
              | All \<Rightarrow>
                  (case verify_all_with env pk dataset of
                     Inl e \<Rightarrow> (Inl (AuditFailed e), st)
                   | Inr rep \<Rightarrow>
                       (Inr (pl_print lib (JObj
                          [(''packet_id'', JStr (pk_id pk)), (''mode'', JStr ''all''),
                           (''total'', jnat (ar_total rep)), (''correct'', jnat (ar_correct rep)),
                           (''fidelity'', jf32 (ar_fidelity rep)),
                           (''mismatches'', JArr (map all_mismatch_json (ar_mismatches rep)))])),
                        append_event (packet_event_now ck ''audit''
                          (audit_outcome (ar_fidelity rep)) pk (JObj
                          [(''mode'', JStr ''all''), (''total'', jnat (ar_total rep)),
                           (''correct'', jnat (ar_correct rep)),
                           (''fidelity'', jf32 (ar_fidelity rep)),
                           (''mismatch_count'', jnat (length (ar_mismatches rep)))])) st))))"

section \<open>Gaps\<close>

text \<open>The characters of a UTF-8 string: a byte that is not a continuation byte starts one.\<close>

fun utf8_chars :: "string \<Rightarrow> string list" where
  "utf8_chars [] = []"
| "utf8_chars (c # cs) =
     (case utf8_chars cs of
        (d # ds) # ws \<Rightarrow>
          if 128 \<le> (of_char d :: nat) \<and> (of_char d :: nat) < 192
          then (c # d # ds) # ws else [c] # (d # ds) # ws
      | ws \<Rightarrow> [c] # ws)"

definition slug_step :: "packet_lib \<Rightarrow> string \<Rightarrow> string \<Rightarrow> string" where
  "slug_step lib out c =
     (if pl_char_alnum lib c then out @ pl_char_lower lib c
      else if \<not> ends_with out ''-'' then out @ ''-''
      else out)"

definition slugify :: "packet_lib \<Rightarrow> string \<Rightarrow> string" where
  "slugify lib s =
     (let out = foldl (slug_step lib) [] (take 48 (utf8_chars s))
      in rev (dropWhile (\<lambda>c. c = CHR ''-'') (rev out)))"

record gap_params =
  gp_description :: string
  gp_domain :: "string option"
  gp_attempted_sketch :: "string option"
  gp_fallback_used :: "string option"
  gp_ast_feature_requested :: "string option"

definition opt_entry :: "string \<Rightarrow> string option \<Rightarrow> jmap" where
  "opt_entry k v = (case v of Some s \<Rightarrow> [(k, JStr s)] | None \<Rightarrow> [])"

definition log_gap ::
  "clock \<Rightarrow> gap_params \<Rightarrow> store \<Rightarrow> (store_error + packet_event) \<times> store" where
  "log_gap ck g st =
     (if trim (gp_description g) = [] then (Inl EmptyDescription, st)
      else
       (let details = [(''description'', JStr (gp_description g))] @
              opt_entry ''attempted_sketch'' (gp_attempted_sketch g) @
              opt_entry ''fallback_used'' (gp_fallback_used g) @
              opt_entry ''ast_feature_requested'' (gp_ast_feature_requested g);
            ev = with_details (JObj details) (event_now ck ''gap'' ''logged'');
            ev = (case gp_domain g of Some d \<Rightarrow> with_domain d ev | None \<Rightarrow> ev)
        in (Inr ev, append_event ev st)))"

definition gap_dedupe_key :: "packet_lib \<Rightarrow> string option \<Rightarrow> string option \<Rightarrow> string \<Rightarrow> string" where
  "gap_dedupe_key lib domain feature description =
     (let slug = (case feature of
                    Some f \<Rightarrow> if trim f \<noteq> [] then trim f else slugify lib description
                  | None \<Rightarrow> slugify lib description)
      in ''packet_ast/'' @ (case domain of Some d \<Rightarrow> d | None \<Rightarrow> ''unknown'') @ ''/'' @ slug)"

definition build_gap_note_body :: "packet_event \<Rightarrow> gap_params \<Rightarrow> string \<Rightarrow> json" where
  "build_gap_note_body ev g dedupe_key =
     JObj [(''type'', JStr ''blackbox.gap_note.v1''),
           (''title'', JStr (''Packet AST gap: '' @
              (case pe_domain ev of Some d \<Rightarrow> d
               | None \<Rightarrow> (case gp_ast_feature_requested g of Some f \<Rightarrow> f | None \<Rightarrow> ''unknown'')))),
           (''gap_kind'', JStr ''packet_ast''),
           (''domain'', JStr (case pe_domain ev of Some d \<Rightarrow> d | None \<Rightarrow> ''unknown'')),
           (''wanted_capability'', JStr (gp_description g)),
           (''missing_primitive'', jopt JStr (gp_ast_feature_requested g)),
           (''fallback_used'', jopt JStr (gp_fallback_used g)),
           (''impact'', JStr ''medium''),
           (''blocking_level'', JStr ''workaround_available''),
           (''evidence'', JArr [JStr (''packet-event:gap:'' @ pe_timestamp ev)]),
           (''dedupe_key'', JStr dedupe_key),
           (''notes'', jopt JStr (gp_attempted_sketch g))]"

section \<open>Discovery\<close>

definition packet_matches_query :: "(string \<Rightarrow> string) \<Rightarrow> packet \<Rightarrow> string \<Rightarrow> bool" where
  "packet_matches_query lower pk query =
     (let needle = lower query; hit = (\<lambda>s. contains_str (lower s) needle)
      in hit (pk_id pk) \<or> hit (pk_domain pk) \<or> list_ex hit (pk_lattice pk) \<or>
         list_ex (\<lambda>r. hit (ru_id r) \<or> hit (ru_classification r)) (pk_rules pk))"

definition bump :: "nat smap \<Rightarrow> string \<Rightarrow> nat smap" where
  "bump m k = bt_insert m k ((case obj_get m k of Some n \<Rightarrow> n | None \<Rightarrow> 0) + 1)"

definition histogram :: "packet \<Rightarrow> nat smap" where
  "histogram pk = foldl (\<lambda>m r. bump m (ru_classification r)) [] (pk_rules pk)"

definition packet_summary :: "packet \<Rightarrow> json" where
  "packet_summary pk =
     JObj [(''id'', JStr (pk_id pk)), (''domain'', JStr (pk_domain pk)),
           (''scope'', JStr (pk_scope pk)), (''rules_count'', jnat (length (pk_rules pk))),
           (''classification_histogram'', JObj (map (\<lambda>(k, n). (k, jnat n)) (histogram pk))),
           (''rule_ids_preview'', jstrs (map ru_id (take 3 (pk_rules pk)))),
           (''created_at'', JStr (pk_created_at pk)), (''updated_at'', JStr (pk_updated_at pk))]"

record list_params =
  lp_domain :: "string option"
  lp_scope :: "string option"
  lp_query :: "string option"
  lp_latest_per_domain :: "bool option"
  lp_limit :: "nat option"

text \<open>\<open>retain\<close> with the set of the domains seen so far.\<close>

fun retain_unseen :: "string set \<Rightarrow> packet list \<Rightarrow> packet list" where
  "retain_unseen seen [] = []"
| "retain_unseen seen (p # ps) =
     (if pk_domain p \<in> seen then retain_unseen seen ps
      else p # retain_unseen (insert (pk_domain p) seen) ps)"

definition selected_packets :: "(string \<Rightarrow> string) \<Rightarrow> store \<Rightarrow> list_params \<Rightarrow> packet list" where
  "selected_packets lower st q =
     (let ps = list_all_packets st;
          ps = (case lp_domain q of Some d \<Rightarrow> filter (\<lambda>p. pk_domain p = d) ps | None \<Rightarrow> ps);
          ps = (case lp_scope q of Some s \<Rightarrow> filter (\<lambda>p. pk_scope p = s) ps | None \<Rightarrow> ps);
          ps = (case lp_query q of
                  Some t \<Rightarrow> if t = [] then ps else filter (\<lambda>p. packet_matches_query lower p t) ps
                | None \<Rightarrow> ps);
          ps = (if lp_latest_per_domain q = Some True then retain_unseen {} ps else ps);
          limit = min (case lp_limit q of Some n \<Rightarrow> n | None \<Rightarrow> 50) 500
      in take limit ps)"

definition packet_list_tool :: "packet_lib \<Rightarrow> store \<Rightarrow> list_params \<Rightarrow> string" where
  "packet_list_tool lib st q =
     (let ps = selected_packets (pl_lower lib) st q;
          limit = min (case lp_limit q of Some n \<Rightarrow> n | None \<Rightarrow> 50) 500
      in pl_print lib (JObj [(''count'', jnat (length ps)), (''limit'', jnat limit),
           (''packets'', JArr (map packet_summary ps))]))"

section \<open>What compiles\<close>

lemma build_packetD:
  assumes "build_packet lib ck p st = Inr pk"
  shows "packet_wf pk" "pk_id pk = gen_id (ck_nanos ck)"
    "check_all (check_ref st (pk_rules pk)) (packet_refs (pk_rules pk)) = Inr ()"
    "pk_self_audit_fidelity pk = None"
proof -
  let ?lat = "case cp_lattice p of Some l \<Rightarrow> l | None \<Rightarrow> review_lattice"
  let ?pre = "case cp_prefix_inference p of Some m \<Rightarrow> m | None \<Rightarrow> review_prefix_inference"
  obtain inputs where inputs: "inputs \<noteq> []"
    "map_result (\<lambda>ri. materialize ri ?lat ?pre) inputs = Inr (pk_rules pk)"
    and rest: "?lat \<noteq> []" "pk_lattice pk = ?lat"
      "check_all (check_ref st (pk_rules pk)) (packet_refs (pk_rules pk)) = Inr ()"
      "pk_scope pk \<in> {''global'', ''project''}" "pk_id pk = gen_id (ck_nanos ck)"
      "pk_self_audit_fidelity pk = None"
    using assms unfolding build_packet_def Let_def rbind_eq_Inr guard_err_eq map_err_eq
    by (clarsimp split: option.splits)
  have rule: "ru_classification r \<in> set ?lat \<and> well_authored (ru_antecedent r) False"
    if r: "r \<in> set (pk_rules pk)" for r
  proof -
    obtain ri where "materialize ri ?lat ?pre = Inr r"
      using map_result_mem [OF inputs(2) r] by blast
    then show ?thesis
      by (auto simp: materialize_def rbind_eq_Inr validate_predicate_spec split: if_splits prod.splits)
  qed
  have "pk_rules pk \<noteq> []" using inputs map_result_ok [OF inputs(2)] by auto
  with rest rule show "packet_wf pk" by (simp add: packet_wf_def)
  show "pk_id pk = gen_id (ck_nanos ck)" "pk_self_audit_fidelity pk = None"
    "check_all (check_ref st (pk_rules pk)) (packet_refs (pk_rules pk)) = Inr ()"
    by (fact rest)+
qed

lemma apply_nodes_collected:
  "(pid, expect) \<in> set (apply_nodes p) \<Longrightarrow>
   pid \<in> set (collect_apply_refs p) \<and> (\<exists>emap. PApply pid expect emap \<in> set (collect_apply_by_id p pid))"
  by (induction p rule: apply_nodes.induct) fastforce+

lemma check_ref_ok:
  assumes "check_ref st rs pid = Inr ()" "r \<in> set rs" "(pid, expect) \<in> set (apply_nodes (ru_antecedent r))"
  shows "\<exists>sub. load st (normalize_id pid) = Inr sub \<and> set expect \<subseteq> set (pk_lattice sub)"
proof -
  obtain sub where sub: "load st (normalize_id pid) = Inr sub"
    "check_apply_expect_against_lattice (rule_antecedents_referencing rs pid) sub = Inr ()"
    using assms(1) by (auto simp: check_ref_def rbind_eq_Inr)
  obtain emap where "PApply pid expect emap \<in> set (collect_apply_by_id (ru_antecedent r) pid)"
    using apply_nodes_collected [OF assms(3)] by blast
  with assms(2) have "PApply pid expect emap \<in> set (rule_antecedents_referencing rs pid)"
    by (auto simp: rule_antecedents_referencing_def)
  with sub(2) have "set expect \<subseteq> set (pk_lattice sub)"
    by (auto simp: check_apply_expect_against_lattice_def check_all_ok dest!: bspec)
  with sub(1) show ?thesis by blast
qed

lemma compile_innerD:
  "compile_inner lib ck p st = (Inr pk, st') \<longleftrightarrow>
     build_packet lib ck p st = Inr pk \<and> st' = save_packet pk st"
  by (auto simp: compile_inner_def split: sum.splits)

text \<open>Property C35. Whatever compiles is well formed and keeps the store's invariant, and every packet it refers
  to was in the store with a lattice that offers all the expected classifications.\<close>

theorem compile_sound:
  assumes "store_wf st" "compile_inner lib ck p st = (Inr pk, st')"
  shows "packet_wf pk \<and> store_wf st' \<and>
    (\<forall>r\<in>set (pk_rules pk). \<forall>(pid, expect)\<in>set (apply_nodes (ru_antecedent r)).
       \<exists>sub. load st (normalize_id pid) = Inr sub \<and> set expect \<subseteq> set (pk_lattice sub))"
proof -
  from assms(2) have b: "build_packet lib ck p st = Inr pk" and st': "st' = save_packet pk st"
    by (simp_all add: compile_innerD)
  have "\<exists>sub. load st (normalize_id pid) = Inr sub \<and> set expect \<subseteq> set (pk_lattice sub)"
    if r: "r \<in> set (pk_rules pk)" and n: "(pid, expect) \<in> set (apply_nodes (ru_antecedent r))" for r pid expect
  proof (rule check_ref_ok [OF _ r n])
    have "pid \<in> set (packet_refs (pk_rules pk))"
      using r apply_nodes_collected [OF n] by (auto simp: packet_refs_def)
    with build_packetD(3) [OF b] show "check_ref st (pk_rules pk) pid = Inr ()"
      by (simp add: check_all_ok)
  qed
  with build_packetD(1) [OF b] repo.save_inv [OF assms(1), of pk] show ?thesis
    by (auto simp: st')
qed

lemma normalize_gen_id [simp]: "normalize_id (gen_id n) = gen_id n"
  by (simp add: normalize_id_def gen_id_def starts_with_def)

lemma gen_id_not_domain: "strip_prefix ''domain:'' (gen_id n) = None"
  by (simp add: gen_id_def)

text \<open>A packet just compiled is served under its id, unless a packet of the global scope shadows it;
  but if one of its confidences does not fit a single-precision float, the compile succeeds and the packet
  can never be read back.\<close>

theorem compile_then_load:
  assumes "compile_inner lib ck p st = (Inr pk, st')"
    and "pk_scope pk = ''global'' \<or> file_at st (''global'', pk_id pk) = None"
  shows "load st' (pk_id pk) =
     (if readable pk then Inr pk else Inl (PacketUnreadable (pk_scope pk) (pk_id pk)))"
proof -
  from assms(1) have b: "build_packet lib ck p st = Inr pk" and st': "st' = save_packet pk st"
    by (simp_all add: compile_innerD)
  note d = build_packetD [OF b]
  have sc: "pk_scope pk = ''global'' \<or> pk_scope pk = ''project''" using d(1) by (simp add: packet_wf_def)
  have w: "written pk = (if readable pk then Some pk else None)" using d(4) by (simp add: written_def)
  have "load st' (pk_id pk) = load st' (gen_id (ck_nanos ck))" by (simp only: d(2))
  also have "\<dots> = (if readable pk then Inr pk else Inl (PacketUnreadable (pk_scope pk) (pk_id pk)))"
    using sc assms(2)
    by (auto simp: load_id [OF gen_id_not_domain] st' save_packet_put file_put key_of_def w d(2))
  finally show ?thesis .
qed

text \<open>A library whose reader yields one rule of the given confidence.\<close>

definition sample_lib :: "f32 \<Rightarrow> packet_lib" where
  "sample_lib c = \<lparr>pl_lower = id, pl_char_lower = id, pl_char_alnum = (\<lambda>_. True),
     pl_regex = (\<lambda>_ _ _. None), pl_parse = (\<lambda>_. None),
     pl_rules = (\<lambda>_. Some [\<lparr>ri_id = ''fail_x'', ri_antecedent = PApply ''packet-1'' [''flag''] [],
        ri_consequent = VBool True, ri_classification = None, ri_emit = None, ri_confidence = c,
        ri_provenance = []\<rparr>]),
     pl_print = (\<lambda>_. []), pl_render = (\<lambda>_. [])\<rparr>"

definition sample_compile :: compile_params where
  "sample_compile = \<lparr>cp_domain = ''d'', cp_rules = JNull, cp_lattice = None,
     cp_prefix_inference = None, cp_rank_table = None, cp_threshold_table = None,
     cp_rank_lookup_key = None, cp_threshold_lookup_key = None, cp_source_ids = None,
     cp_scope = None, cp_project = None\<rparr>"

definition sample_clock :: clock where
  "sample_clock = \<lparr>ck_iso_millis = ''t'', ck_iso = ''t'', ck_nanos = 7\<rparr>"

lemma sample_load: "load sample_store ''packet-1'' = Inr sample_owned"
proof -
  have "strip_prefix ''domain:'' ''packet-1'' = None" "normalize_id ''packet-1'' = ''packet-1''"
    by (simp_all add: normalize_id_def starts_with_def)
  then show ?thesis by (simp only: load_id sample_file) simp
qed

lemma sample_compiles:
  obtains pk st' where
    "compile_inner (sample_lib c) sample_clock sample_compile sample_store = (Inr pk, st')"
    "pk_scope pk = ''global''" "map ru_confidence (pk_rules pk) = [c]"
    "map (apply_nodes \<circ> ru_antecedent) (pk_rules pk) = [[(''packet-1'', [''flag''])]]"
proof -
  have n: "normalize_id ''packet-1'' = ''packet-1''"
    by (simp add: normalize_id_def starts_with_def)
  have t: "trim ''d'' \<noteq> []" "trim ''packet-1'' \<noteq> []" by code_simp+
  have lat: "pk_lattice sample_owned = review_lattice" by (simp add: sample_owned_def sample_packet_def)
  have inf: "infer_classification_detailed ''fail_x'' review_prefix_inference = Some (''fail'', ''fail_'')"
    by code_simp
  have "\<exists>pk. build_packet (sample_lib c) sample_clock sample_compile sample_store = Inr pk \<and>
     pk_scope pk = ''global'' \<and> map ru_confidence (pk_rules pk) = [c] \<and>
     map (apply_nodes \<circ> ru_antecedent) (pk_rules pk) = [[(''packet-1'', [''flag''])]]"
    by (simp add: build_packet_def sample_lib_def sample_compile_def Let_def t(1) guard_err_def
        unwrap_jsonish_def materialize_def choose_classification_def inf t(2) ok_def map_err_def
        review_lattice_def packet_refs_def check_ref_def n sample_load lat
        rule_antecedents_referencing_def check_apply_expect_against_lattice_def table_param_def)
  then show thesis using that by (auto simp: compile_innerD)
qed

theorem compile_sound_witness:
  "\<exists>pk st'. compile_inner (sample_lib f32_one) sample_clock sample_compile sample_store = (Inr pk, st') \<and>
     packet_wf pk \<and> store_wf st' \<and>
     (\<exists>sub. load sample_store (normalize_id ''packet-1'') = Inr sub \<and> set [''flag''] \<subseteq> set (pk_lattice sub))"
proof -
  obtain pk st' where c: "compile_inner (sample_lib f32_one) sample_clock sample_compile sample_store = (Inr pk, st')"
    and "pk_scope pk = ''global''" "map ru_confidence (pk_rules pk) = [f32_one]"
    and m: "map (apply_nodes \<circ> ru_antecedent) (pk_rules pk) = [[(''packet-1'', [''flag''])]]"
    by (rule sample_compiles)
  from m obtain r where "r \<in> set (pk_rules pk)" "apply_nodes (ru_antecedent r) = [(''packet-1'', [''flag''])]"
    by auto
  with compile_sound [OF sample_store_wf c] c show ?thesis by fastforce
qed

theorem compile_then_load_witness:
  "\<exists>pk st'. compile_inner (sample_lib 0x7F800000) sample_clock sample_compile sample_store = (Inr pk, st') \<and>
     load st' (pk_id pk) = Inl (PacketUnreadable ''global'' (pk_id pk))"
proof -
  obtain pk st' where c: "compile_inner (sample_lib 0x7F800000) sample_clock sample_compile sample_store = (Inr pk, st')"
    and m: "pk_scope pk = ''global''" "map ru_confidence (pk_rules pk) = [0x7F800000]"
    and "map (apply_nodes \<circ> ru_antecedent) (pk_rules pk) = [[(''packet-1'', [''flag''])]]"
    by (rule sample_compiles)
  have "\<not> readable pk"
    using m(2) by (auto simp: readable_def f32_finite_def f32_mag_def)
  with compile_then_load [OF c] m c show ?thesis by auto
qed

section \<open>What the operations change\<close>

lemma st_dirs_append [simp]: "st_dirs (append_event ev st) = st_dirs st"
  by (simp add: append_event_def)

lemma st_log_append [simp]: "st_log (append_event ev st) = st_log st @ [Some ev]"
  by (simp add: append_event_def)

lemma file_append [simp]: "file_at (append_event ev st) k = file_at st k"
  by (simp add: file_at_def scope_dir_def)

text \<open>Compiling logs exactly one event that tells success from failure, writes exactly the new
  packet's file on success and nothing on failure.\<close>

theorem compile_effect:
  "\<exists>ev. st_log (snd (compile_packet lib ck p st)) = st_log st @ [Some ev] \<and> pe_op ev = ''compile'' \<and>
     (case build_packet lib ck p st of
        Inl e \<Rightarrow> fst (compile_packet lib ck p st) = Inl e \<and> pe_outcome ev = ''error'' \<and>
          st_dirs (snd (compile_packet lib ck p st)) = st_dirs st
      | Inr pk \<Rightarrow> pe_outcome ev = ''ok'' \<and> pe_packet_id ev = Some (pk_id pk) \<and>
          (\<forall>k. file_at (snd (compile_packet lib ck p st)) k =
             (if k = key_of pk then Some (written pk) else file_at st k)))"
  by (cases "build_packet lib ck p st")
    (auto simp: compile_packet_def compile_inner_def compile_event_def Let_def save_packet_put file_put
      event_now_def with_details_def with_domain_def with_packet_id_def)

text \<open>Applying and auditing leave every packet as it is. An apply logs exactly one event, an audit logs
  one unless its dataset is rejected, which it does without a trace in the log.\<close>

theorem tools_read_only:
  "st_dirs (snd (apply_tool lib ck i entity mode st)) = st_dirs st \<and>
   st_dirs (snd (audit_tool lib ck i dataset mode st)) = st_dirs st \<and>
   (\<exists>ev. st_log (snd (apply_tool lib ck i entity mode st)) = st_log st @ [Some ev]) \<and>
   (case fst (audit_tool lib ck i dataset mode st) of
      Inl (AuditFailed e) \<Rightarrow> st_log (snd (audit_tool lib ck i dataset mode st)) = st_log st
    | _ \<Rightarrow> \<exists>ev. st_log (snd (audit_tool lib ck i dataset mode st)) = st_log st @ [Some ev])"
proof (cases "load st i")
  case (Inl e)
  then have "\<And>x. e \<noteq> AuditFailed x"
    by (auto simp: load_def Let_def split: option.splits list.splits)
  with Inl show ?thesis by (auto simp: apply_tool_def audit_tool_def split: store_error.splits)
next
  case (Inr pk)
  then show ?thesis
    by (cases "default_mode mode")
      (auto simp: apply_tool_def audit_tool_def Let_def split: option.splits sum.splits)
qed

section \<open>Summaries and listings\<close>

lemma bump_get: "obj_get (bump m k) j = (if j = k then Some ((case obj_get m k of Some n \<Rightarrow> n | None \<Rightarrow> 0) + 1) else obj_get m j)"
  by (simp add: bump_def)

lemma histogram_fold:
  "obj_get (foldl (\<lambda>m r. bump m (ru_classification r)) m rs) c =
     (let n = length (filter (\<lambda>r. ru_classification r = c) rs)
      in if n = 0 then obj_get m c
         else Some ((case obj_get m c of Some n \<Rightarrow> n | None \<Rightarrow> 0) + n))"
  by (induction rs arbitrary: m) (auto simp: Let_def bump_get)

lemma histogram_wf: "bt_wf m \<Longrightarrow> bt_wf (foldl (\<lambda>m r. bump m (ru_classification r)) m rs)"
  by (induction rs arbitrary: m) (simp_all add: bump_def bt.wf_ins)

text \<open>The histogram of a summary lists, in key order, exactly the classifications of the packet's rules
  with their numbers.\<close>

theorem histogram_counts:
  "bt_wf (histogram pk) \<and>
   obj_get (histogram pk) c =
     (let n = length (filter (\<lambda>r. ru_classification r = c) (pk_rules pk)) in if n = 0 then None else Some n)"
proof -
  have "bt_wf ([] :: nat smap)" by (simp add: bt_wf_def)
  then show ?thesis by (simp add: histogram_def histogram_fold histogram_wf Let_def)
qed

lemma retain_unseen_split:
  "p \<in> set (retain_unseen seen ps) \<longleftrightarrow>
     pk_domain p \<notin> seen \<and> (\<exists>xs ys. ps = xs @ p # ys \<and> (\<forall>x\<in>set xs. pk_domain x \<noteq> pk_domain p))"
proof (induction seen ps rule: retain_unseen.induct)
  case (2 seen q ps)
  have split: "(\<exists>xs ys. q # ps = xs @ p # ys \<and> (\<forall>x\<in>set xs. pk_domain x \<noteq> pk_domain p)) \<longleftrightarrow>
    p = q \<or> pk_domain q \<noteq> pk_domain p \<and> (\<exists>xs ys. ps = xs @ p # ys \<and> (\<forall>x\<in>set xs. pk_domain x \<noteq> pk_domain p))"
    (is "?l \<longleftrightarrow> ?r")
  proof
    assume ?l then obtain xs ys where "q # ps = xs @ p # ys" "\<forall>x\<in>set xs. pk_domain x \<noteq> pk_domain p" by blast
    then show ?r by (cases xs) auto
  next
    assume ?r then show ?l
    proof
      assume "p = q" then show ?l by fastforce
    next
      assume "pk_domain q \<noteq> pk_domain p \<and> (\<exists>xs ys. ps = xs @ p # ys \<and> (\<forall>x\<in>set xs. pk_domain x \<noteq> pk_domain p))"
      then obtain xs ys where "q # ps = (q # xs) @ p # ys" "\<forall>x\<in>set (q # xs). pk_domain x \<noteq> pk_domain p" by auto
      then show ?l by blast
    qed
  qed
  show ?case unfolding split using 2 by auto
qed simp

lemma retain_unseen_distinct:
  "distinct (map pk_domain (retain_unseen seen ps))"
proof (induction seen ps rule: retain_unseen.induct)
  case (2 seen q ps)
  then show ?case by (auto simp: retain_unseen_split)
qed simp

text \<open>The filters of the listing tool as one predicate.\<close>

definition asked_for :: "(string \<Rightarrow> string) \<Rightarrow> list_params \<Rightarrow> packet \<Rightarrow> bool" where
  "asked_for lower q p \<longleftrightarrow>
     (\<forall>d. lp_domain q = Some d \<longrightarrow> pk_domain p = d) \<and>
     (\<forall>s. lp_scope q = Some s \<longrightarrow> pk_scope p = s) \<and>
     (\<forall>t. lp_query q = Some t \<longrightarrow> t = [] \<or> packet_matches_query lower p t)"

lemma selected_packets_eq:
  "selected_packets lower st q =
     take (min (case lp_limit q of Some n \<Rightarrow> n | None \<Rightarrow> 50) 500)
       ((if lp_latest_per_domain q = Some True then retain_unseen {} else id)
          (filter (asked_for lower q) (list_all_packets st)))"
proof -
  have "filter (asked_for lower q) ps =
     (let ps = (case lp_domain q of Some d \<Rightarrow> filter (\<lambda>p. pk_domain p = d) ps | None \<Rightarrow> ps);
          ps = (case lp_scope q of Some s \<Rightarrow> filter (\<lambda>p. pk_scope p = s) ps | None \<Rightarrow> ps)
      in (case lp_query q of
                  Some t \<Rightarrow> if t = [] then ps else filter (\<lambda>p. packet_matches_query lower p t) ps
                | None \<Rightarrow> ps))" for ps
    unfolding asked_for_def Let_def
    by (cases "lp_domain q"; cases "lp_scope q"; cases "lp_query q")
      (auto intro!: filter_cong simp: conj_commute conj_left_commute)
  then show ?thesis by (simp add: selected_packets_def Let_def)
qed

text \<open>Listing the latest per domain returns at most 500 packets, one per domain, each at least as new as
  every other packet of its domain that meets the filters.\<close>

theorem latest_per_domain:
  assumes "lp_latest_per_domain q = Some True"
  shows "length (selected_packets lower st q) \<le> 500 \<and>
    distinct (map pk_domain (selected_packets lower st q)) \<and>
    (\<forall>p\<in>set (selected_packets lower st q). asked_for lower q p \<and>
       (\<forall>p'\<in>set (list_all_packets st). asked_for lower q p' \<and> pk_domain p' = pk_domain p \<longrightarrow>
          pk_created_at p' \<le> pk_created_at p))"
proof -
  let ?F = "filter (asked_for lower q) (list_all_packets st)"
  let ?n = "min (case lp_limit q of Some n \<Rightarrow> n | None \<Rightarrow> 50) 500"
  have s: "selected_packets lower st q = take ?n (retain_unseen {} ?F)"
    using assms by (simp add: selected_packets_eq)
  have newer: "pk_created_at p' \<le> pk_created_at p"
    if p: "p \<in> set (retain_unseen {} ?F)" and p': "p' \<in> set ?F" "pk_domain p' = pk_domain p" for p p'
  proof -
    obtain xs ys where xs: "?F = xs @ p # ys" "\<forall>x\<in>set xs. pk_domain x \<noteq> pk_domain p"
      using p by (auto simp: retain_unseen_split)
    have sw: "sorted_wrt newest_first (xs @ p # ys)"
      unfolding xs(1) [symmetric] by (rule sorted_wrt_filter) (rule list_all_sorted)
    have "p' \<in> set (xs @ p # ys)" using p'(1) xs(1) by simp
    with xs(2) p'(2) have "p' = p \<or> p' \<in> set ys" by auto
    with sw show ?thesis by (auto simp: sorted_wrt_append newest_first_def)
  qed
  have mem: "p \<in> set ?F" if "p \<in> set (retain_unseen {} ?F)" for p
  proof -
    obtain xs ys where "?F = xs @ p # ys" using \<open>p \<in> set (retain_unseen {} ?F)\<close> unfolding retain_unseen_split by blast
    then show ?thesis by simp
  qed
  have sub: "p \<in> set (retain_unseen {} ?F)" if "p \<in> set (take ?n (retain_unseen {} ?F))" for p
    using that by (rule in_set_takeD)
  show ?thesis unfolding s
  proof (intro conjI ballI impI)
    show "length (take ?n (retain_unseen {} ?F)) \<le> 500" by simp
    show "distinct (map pk_domain (take ?n (retain_unseen {} ?F)))"
      unfolding take_map [symmetric] by (rule distinct_take) (rule retain_unseen_distinct)
  next
    fix p assume "p \<in> set (take ?n (retain_unseen {} ?F))"
    from mem [OF sub [OF this]] show "asked_for lower q p" by simp
  next
    fix p p'
    assume p: "p \<in> set (take ?n (retain_unseen {} ?F))" and p': "p' \<in> set (list_all_packets st)"
      "asked_for lower q p' \<and> pk_domain p' = pk_domain p"
    from p' have "p' \<in> set ?F" by simp
    from newer [OF sub [OF p] this] p'(2) show "pk_created_at p' \<le> pk_created_at p" by blast
  qed
qed

theorem latest_per_domain_witness:
  "length (selected_packets id sample_store \<lparr>lp_domain = None, lp_scope = None, lp_query = None,
     lp_latest_per_domain = Some True, lp_limit = Some 1000\<rparr>) \<le> 500"
  using latest_per_domain [where q = "\<lparr>lp_domain = None, lp_scope = None, lp_query = None,
     lp_latest_per_domain = Some True, lp_limit = Some 1000\<rparr>" and lower = id and st = sample_store]
  by simp

end
