(* ===== verification/Packet_Scanner.thy ===== *)
theory Packet_Scanner
  imports Packet_Compile
begin

text \<open>
  The self-heal scanner (\<open>src/src/packets/scanner.rs\<close>, \<open>scanner_step_at\<close> of \<open>mod.rs\<close>): a walk
  over the newest events that aggregates per packet and flags repair candidates. The cutoff
  computation is the calendar library's (\<open>cutoff now secs\<close> is \<open>now\<close> less \<open>secs\<close> seconds, \<open>None\<close>
  when it does not parse) and a parameter, as is the reading of a float from an environment
  variable. Durations are whole seconds.
\<close>

section \<open>Configuration\<close>

record scanner_config =
  sc_enabled :: bool
  sc_interval :: nat
  sc_window :: nat
  sc_no_match_threshold :: f32
  sc_fidelity_threshold :: f32
  sc_min_apply_samples :: nat
  sc_repair_cooldown :: nat

definition default_config :: scanner_config where
  "default_config =
     \<lparr>sc_enabled = False, sc_interval = 3600, sc_window = 24 * 3600,
      sc_no_match_threshold = 0x3E4CCCCD, sc_fidelity_threshold = 0x3F666666,
      sc_min_apply_samples = 5, sc_repair_cooldown = 24 * 3600\<rparr>"

definition f32_clamp :: "f32 \<Rightarrow> f32 \<Rightarrow> f32 \<Rightarrow> f32" where
  "f32_clamp x lo hi = (if f32_lt x lo then lo else if f32_lt hi x then hi else x)"

definition ascii_lower :: "string \<Rightarrow> string" where
  "ascii_lower s =
     map (\<lambda>c. let n = (of_char c :: nat) in if 65 \<le> n \<and> n \<le> 90 then char_of (n + 32) else c) s"

text \<open>The product of a number of hours and 3600 wraps in a release build.\<close>

definition hours_secs :: "nat \<Rightarrow> nat" where
  "hours_secs h = (h * 3600) mod 2 ^ 64"

definition from_env ::
  "(string \<Rightarrow> f32 option) \<Rightarrow> (string \<Rightarrow> string option) \<Rightarrow> scanner_config" where
  "from_env parse_f32 env =
     (let flag = (\<lambda>n. map_option (\<lambda>v. ascii_lower v \<in> {''1'', ''true'', ''yes'', ''on''}) (env n));
          u64_env = (\<lambda>n. Option.bind (env n) parse_usize);
          f32_env = (\<lambda>n. Option.bind (env n) parse_f32);
          cfg = default_config;
          cfg = (case flag ''PACKET_SELF_HEAL_ENABLED'' of
                   Some b \<Rightarrow> cfg\<lparr>sc_enabled := b\<rparr> | None \<Rightarrow> cfg);
          cfg = (case u64_env ''PACKET_SELF_HEAL_INTERVAL_SECS'' of
                   Some s \<Rightarrow> cfg\<lparr>sc_interval := max s 10\<rparr> | None \<Rightarrow> cfg);
          cfg = (case u64_env ''PACKET_SELF_HEAL_WINDOW_HOURS'' of
                   Some h \<Rightarrow> cfg\<lparr>sc_window := hours_secs (max h 1)\<rparr> | None \<Rightarrow> cfg);
          cfg = (case f32_env ''PACKET_SELF_HEAL_NO_MATCH_THRESHOLD'' of
                   Some t \<Rightarrow> cfg\<lparr>sc_no_match_threshold := f32_clamp t f32_zero f32_one\<rparr> | None \<Rightarrow> cfg);
          cfg = (case f32_env ''PACKET_SELF_HEAL_FIDELITY_THRESHOLD'' of
                   Some t \<Rightarrow> cfg\<lparr>sc_fidelity_threshold := f32_clamp t f32_zero f32_one\<rparr> | None \<Rightarrow> cfg);
          cfg = (case u64_env ''PACKET_SELF_HEAL_MIN_APPLIES'' of
                   Some n \<Rightarrow> cfg\<lparr>sc_min_apply_samples := n\<rparr> | None \<Rightarrow> cfg)
      in (case u64_env ''PACKET_SELF_HEAL_COOLDOWN_HOURS'' of
            Some h \<Rightarrow> cfg\<lparr>sc_repair_cooldown := hours_secs h\<rparr> | None \<Rightarrow> cfg))"

section \<open>Aggregation\<close>

record repair_candidate =
  rc_packet_id :: string
  rc_domain :: "string option"
  rc_reasons :: "string list"
  rc_apply_count :: nat
  rc_no_match_count :: nat
  rc_no_match_rate :: "f32 option"
  rc_fidelity :: "f32 option"
  rc_last_audit :: "string option"

record agg =
  ag_domain :: "string option"
  ag_applies :: nat
  ag_no_matches :: nat
  ag_fidelity :: "f32 option"
  ag_audit_ts :: "string option"
  ag_candidate_ts :: "string option"

definition new_agg :: "packet_event \<Rightarrow> agg" where
  "new_agg ev =
     \<lparr>ag_domain = pe_domain ev, ag_applies = 0, ag_no_matches = 0, ag_fidelity = None,
      ag_audit_ts = None, ag_candidate_ts = None\<rparr>"

definition in_window :: "string option \<Rightarrow> packet_event \<Rightarrow> bool" where
  "in_window win ev = (case win of Some c \<Rightarrow> c \<le> pe_timestamp ev | None \<Rightarrow> True)"

definition agg_update :: "string option \<Rightarrow> agg \<Rightarrow> packet_event \<Rightarrow> agg" where
  "agg_update win slot ev =
     (let slot = (if ag_domain slot = None then slot\<lparr>ag_domain := pe_domain ev\<rparr> else slot)
      in if pe_op ev = ''repair_candidate''
         then (if (case ag_candidate_ts slot of None \<Rightarrow> True | Some t \<Rightarrow> t < pe_timestamp ev)
               then slot\<lparr>ag_candidate_ts := Some (pe_timestamp ev)\<rparr> else slot)
         else if \<not> in_window win ev then slot
         else if pe_op ev = ''apply''
         then (let slot = slot\<lparr>ag_applies := ag_applies slot + 1\<rparr>
               in if pe_outcome ev = ''no_match''
                  then slot\<lparr>ag_no_matches := ag_no_matches slot + 1\<rparr> else slot)
         else if pe_op ev = ''audit''
         then (case (ag_audit_ts slot, Option.bind (jget (pe_details ev) ''fidelity'') as_f64) of
                 (None, Some f) \<Rightarrow>
                   slot\<lparr>ag_fidelity := Some (f32_of_f64 f), ag_audit_ts := Some (pe_timestamp ev)\<rparr>
               | _ \<Rightarrow> slot)
         else slot)"

definition agg_step :: "string option \<Rightarrow> agg smap \<Rightarrow> packet_event \<Rightarrow> agg smap" where
  "agg_step win m ev =
     (case pe_packet_id ev of
        None \<Rightarrow> m
      | Some pid \<Rightarrow>
          (let slot = (case obj_get m pid of Some s \<Rightarrow> s | None \<Rightarrow> new_agg ev)
           in bt_insert m pid (agg_update win slot ev)))"

text \<open>\<open>a as f32 / b as f32\<close>; zero by zero is the quiet NaN.\<close>

definition rate :: "nat \<Rightarrow> nat \<Rightarrow> f32" where
  "rate a b = (if b = 0 then 0x7FC00000 else f32_ratio a b)"

definition candidate_of ::
  "scanner_config \<Rightarrow> string option \<Rightarrow> string \<times> agg \<Rightarrow> repair_candidate option" where
  "candidate_of cfg cooldown_cut pa =
     (let (pid, a) = pa;
          cooling = (case (ag_candidate_ts a, cooldown_cut) of
                       (Some ts, Some cd) \<Rightarrow> cd \<le> ts | _ \<Rightarrow> False);
          no_match_rate = (if sc_min_apply_samples cfg \<le> ag_applies a
                           then Some (rate (ag_no_matches a) (ag_applies a)) else None);
          reasons =
            (case no_match_rate of
               Some r \<Rightarrow> if f32_le (sc_no_match_threshold cfg) r then [''high_no_match_rate''] else []
             | None \<Rightarrow> []) @
            (case ag_fidelity a of
               Some f \<Rightarrow> if f32_lt f (sc_fidelity_threshold cfg) then [''low_fidelity''] else []
             | None \<Rightarrow> [])
      in if cooling then None
         else if reasons = [] then None
         else Some \<lparr>rc_packet_id = pid, rc_domain = ag_domain a, rc_reasons = reasons,
                    rc_apply_count = ag_applies a, rc_no_match_count = ag_no_matches a,
                    rc_no_match_rate = no_match_rate, rc_fidelity = ag_fidelity a,
                    rc_last_audit = ag_audit_ts a\<rparr>)"

definition find_repair_candidates ::
  "(string \<Rightarrow> nat \<Rightarrow> string option) \<Rightarrow> packet_event list \<Rightarrow> scanner_config \<Rightarrow> string
     \<Rightarrow> repair_candidate list" where
  "find_repair_candidates cutoff events cfg now =
     (let win = cutoff now (sc_window cfg);
          cooldown_cut = cutoff now (sc_repair_cooldown cfg);
          agg = foldl (agg_step win) [] events
      in List.map_filter (candidate_of cfg cooldown_cut) agg)"

section \<open>One pass\<close>

definition any_event :: event_query where
  "any_event = \<lparr>eq_op = None, eq_packet_id = None, eq_outcome = None, eq_since = None\<rparr>"

definition candidate_event :: "clock \<Rightarrow> scanner_config \<Rightarrow> repair_candidate \<Rightarrow> packet_event" where
  "candidate_event ck cfg c =
     (let details =
            [(''reasons'', jstrs (rc_reasons c)), (''apply_count'', jnat (rc_apply_count c)),
             (''no_match_count'', jnat (rc_no_match_count c))] @
            (case rc_no_match_rate c of Some r \<Rightarrow> [(''no_match_rate'', jf32 r)] | None \<Rightarrow> []) @
            (case rc_fidelity c of Some f \<Rightarrow> [(''fidelity'', jf32 f)] | None \<Rightarrow> []) @
            (case rc_last_audit c of Some ts \<Rightarrow> [(''last_audit_timestamp'', JStr ts)] | None \<Rightarrow> []) @
            [(''window_hours'', jnat (sc_window cfg div 3600))];
          ev = with_packet_id (rc_packet_id c) (event_now ck ''repair_candidate'' ''flagged'');
          ev = (case rc_domain c of Some d \<Rightarrow> with_domain d ev | None \<Rightarrow> ev)
      in with_details (JObj details) ev)"

definition scanner_step_at ::
  "(string \<Rightarrow> nat \<Rightarrow> string option) \<Rightarrow> clock \<Rightarrow> scanner_config \<Rightarrow> string \<Rightarrow> store
     \<Rightarrow> repair_candidate list \<times> store" where
  "scanner_step_at cutoff ck cfg now st =
     (let events = list_events st any_event 10000;
          candidates = find_repair_candidates cutoff events cfg now
      in (candidates, foldl (\<lambda>st c. append_event (candidate_event ck cfg c) st) st candidates))"

section \<open>The aggregate of a packet\<close>

definition events_of :: "string \<Rightarrow> packet_event list \<Rightarrow> packet_event list" where
  "events_of pid evs = filter (\<lambda>ev. pe_packet_id ev = Some pid) evs"

definition agg_from :: "string option \<Rightarrow> agg option \<Rightarrow> packet_event list \<Rightarrow> agg option" where
  "agg_from win slot evs =
     foldl (\<lambda>s ev. Some (agg_update win (case s of Some a \<Rightarrow> a | None \<Rightarrow> new_agg ev) ev)) slot evs"

lemma agg_fold_get:
  "obj_get (foldl (agg_step win) m evs) pid = agg_from win (obj_get m pid) (events_of pid evs)"
  by (induction evs arbitrary: m)
    (auto simp: events_of_def agg_from_def agg_step_def Let_def split: option.splits)

lemma agg_fold_wf: "bt_wf m \<Longrightarrow> bt_wf (foldl (agg_step win) m evs)"
  by (induction evs arbitrary: m) (auto simp: agg_step_def Let_def bt.wf_ins split: option.splits)

text \<open>The counts of an aggregate and the newest of its candidate events.\<close>

definition is_apply :: "string option \<Rightarrow> packet_event \<Rightarrow> bool" where
  "is_apply win ev \<longleftrightarrow> in_window win ev \<and> pe_op ev = ''apply''"

lemma agg_update_counts:
  "ag_applies (agg_update win a ev) = ag_applies a + (if is_apply win ev then 1 else 0)"
  "ag_no_matches (agg_update win a ev) =
     ag_no_matches a + (if is_apply win ev \<and> pe_outcome ev = ''no_match'' then 1 else 0)"
  by (auto simp: agg_update_def Let_def is_apply_def split: option.splits)

lemma agg_update_candidate:
  "ag_candidate_ts (agg_update win a ev) =
     (if pe_op ev = ''repair_candidate''
      then Some (case ag_candidate_ts a of Some t \<Rightarrow> max t (pe_timestamp ev) | None \<Rightarrow> pe_timestamp ev)
      else ag_candidate_ts a)"
  by (auto simp: agg_update_def Let_def max_def split: option.splits)

lemma new_agg_simps [simp]:
  "ag_applies (new_agg ev) = 0" "ag_no_matches (new_agg ev) = 0" "ag_candidate_ts (new_agg ev) = None"
  by (simp_all add: new_agg_def)

lemma agg_from_Some:
  "agg_from win (Some a) evs = Some (foldl (agg_update win) a evs)"
  unfolding agg_from_def by (induction evs arbitrary: a) simp_all

lemma agg_from_None:
  "agg_from win None evs =
     (case evs of [] \<Rightarrow> None | ev # _ \<Rightarrow> Some (foldl (agg_update win) (new_agg ev) evs))"
  using agg_from_Some unfolding agg_from_def by (cases evs) auto

lemma agg_fold_counts:
  "ag_applies (foldl (agg_update win) a evs) = ag_applies a + length (filter (is_apply win) evs)"
  "ag_no_matches (foldl (agg_update win) a evs) =
     ag_no_matches a + length (filter (\<lambda>ev. is_apply win ev \<and> pe_outcome ev = ''no_match'') evs)"
  by (induction evs arbitrary: a) (simp_all add: agg_update_counts)

lemma agg_fold_candidate:
  "(\<forall>t. ag_candidate_ts a = Some t \<longrightarrow> (\<exists>t'. ag_candidate_ts (foldl (agg_update win) a evs) = Some t' \<and> t \<le> t')) \<and>
   (\<forall>ev\<in>set evs. pe_op ev = ''repair_candidate'' \<longrightarrow>
      (\<exists>t'. ag_candidate_ts (foldl (agg_update win) a evs) = Some t' \<and> pe_timestamp ev \<le> t'))"
proof (induction evs arbitrary: a)
  case (Cons ev evs)
  let ?a = "agg_update win a ev"
  have up: "\<exists>t'. ag_candidate_ts (foldl (agg_update win) ?a evs) = Some t' \<and> t \<le> t'"
    if "ag_candidate_ts ?a = Some s" "t \<le> s" for s t
    using Cons.IH [of ?a] that by (metis order_trans)
  have "\<exists>t'. ag_candidate_ts (foldl (agg_update win) ?a evs) = Some t' \<and> t \<le> t'"
    if "ag_candidate_ts a = Some t" for t
    using that by (cases "pe_op ev = ''repair_candidate''") (auto simp: agg_update_candidate intro!: up)
  moreover have "\<exists>t'. ag_candidate_ts (foldl (agg_update win) ?a evs) = Some t' \<and> pe_timestamp ev \<le> t'"
    if "pe_op ev = ''repair_candidate''"
    using that by (cases "ag_candidate_ts a") (auto simp: agg_update_candidate intro!: up)
  ultimately show ?case using Cons.IH [of ?a] by auto
qed simp

lemma candidate_ofD:
  assumes "candidate_of cfg cdc (pid, a) = Some c"
  shows "rc_packet_id c = pid" "rc_apply_count c = ag_applies a" "rc_no_match_count c = ag_no_matches a"
    "rc_reasons c \<noteq> []" "\<And>ts cd. ag_candidate_ts a = Some ts \<Longrightarrow> cdc = Some cd \<Longrightarrow> ts < cd"
  using assms by (auto simp: candidate_of_def Let_def not_le split: if_splits)

lemma find_candidate:
  assumes "c \<in> set (find_repair_candidates cutoff events cfg now)"
  obtains a where "agg_from (cutoff now (sc_window cfg)) None (events_of (rc_packet_id c) events) = Some a"
    "candidate_of cfg (cutoff now (sc_repair_cooldown cfg)) (rc_packet_id c, a) = Some c"
proof -
  let ?m = "foldl (agg_step (cutoff now (sc_window cfg))) [] events"
  obtain pid a where m: "(pid, a) \<in> set ?m"
    and c: "candidate_of cfg (cutoff now (sc_repair_cooldown cfg)) (pid, a) = Some c"
    using assms by (auto simp: find_repair_candidates_def Let_def List.map_filter_def)
  have "bt_wf ([] :: agg smap)" by (simp add: bt_wf_def)
  then have "map_wf ?m" by (intro bt_wf_map_wf agg_fold_wf)
  with m have "obj_get ?m pid = Some a" by (rule obj_get_mem [rotated])
  moreover have "rc_packet_id c = pid"
    by (rule candidate_ofD(1) [OF c])
  ultimately show thesis using that c by (simp add: agg_fold_get)
qed

lemma candidate_counts:
  assumes "c \<in> set (find_repair_candidates cutoff events cfg now)"
  shows "rc_apply_count c =
       length (filter (is_apply (cutoff now (sc_window cfg))) (events_of (rc_packet_id c) events))"
    "rc_no_match_count c = length (filter (\<lambda>ev. is_apply (cutoff now (sc_window cfg)) ev \<and>
       pe_outcome ev = ''no_match'') (events_of (rc_packet_id c) events))"
    "rc_reasons c \<noteq> []"
    "\<And>ev cd. ev \<in> set (events_of (rc_packet_id c) events) \<Longrightarrow> pe_op ev = ''repair_candidate'' \<Longrightarrow>
       cutoff now (sc_repair_cooldown cfg) = Some cd \<Longrightarrow> pe_timestamp ev < cd"
proof -
  let ?win = "cutoff now (sc_window cfg)" and ?mine = "events_of (rc_packet_id c) events"
  obtain a where a: "agg_from ?win None ?mine = Some a"
    and c: "candidate_of cfg (cutoff now (sc_repair_cooldown cfg)) (rc_packet_id c, a) = Some c"
    by (rule find_candidate [OF assms])
  obtain ev0 evs where m: "?mine = ev0 # evs" using a by (cases ?mine) (auto simp: agg_from_None)
  have fa: "a = foldl (agg_update ?win) (new_agg ev0) ?mine" using a by (simp add: agg_from_None m)
  note cnt = candidate_ofD(2,3) [OF c] and r = candidate_ofD(4) [OF c] and cool = candidate_ofD(5) [OF c]
  show "rc_reasons c \<noteq> []" by (fact r)
  show "rc_apply_count c = length (filter (is_apply ?win) ?mine)"
    "rc_no_match_count c = length (filter (\<lambda>ev. is_apply ?win ev \<and> pe_outcome ev = ''no_match'') ?mine)"
    by (simp_all add: cnt fa agg_fold_counts)
  fix ev cd
  assume ev: "ev \<in> set ?mine" "pe_op ev = ''repair_candidate''"
    and cd: "cutoff now (sc_repair_cooldown cfg) = Some cd"
  obtain t' where "ag_candidate_ts a = Some t'" "pe_timestamp ev \<le> t'"
    using agg_fold_candidate [of "new_agg ev0" ?win ?mine] ev unfolding fa by blast
  with cool [OF _ cd] show "pe_timestamp ev < cd" by simp
qed

text \<open>A flagged packet has the counts of its own applies inside the window, a reason, and no
  candidate event at or after the cooldown cutoff.\<close>

theorem candidate_sound:
  assumes "c \<in> set (find_repair_candidates cutoff events cfg now)"
  shows "let win = cutoff now (sc_window cfg); mine = events_of (rc_packet_id c) events in
     rc_apply_count c = length (filter (is_apply win) mine) \<and>
     rc_no_match_count c = length (filter (\<lambda>ev. is_apply win ev \<and> pe_outcome ev = ''no_match'') mine) \<and>
     rc_reasons c \<noteq> [] \<and>
     (\<forall>ev\<in>set mine. pe_op ev = ''repair_candidate'' \<longrightarrow>
        (\<forall>cd. cutoff now (sc_repair_cooldown cfg) = Some cd \<longrightarrow> pe_timestamp ev < cd))"
  unfolding Let_def using candidate_counts [OF assms] by blast

lemma append_events_log:
  "st_log (foldl (\<lambda>st c. append_event (f c) st) st cs) = st_log st @ map (\<lambda>c. Some (f c)) cs"
  by (induction cs arbitrary: st) simp_all

lemma candidate_event_simps [simp]:
  "pe_packet_id (candidate_event ck cfg c) = Some (rc_packet_id c)"
  "pe_op (candidate_event ck cfg c) = ''repair_candidate''"
  "pe_timestamp (candidate_event ck cfg c) = ck_iso ck"
  by (simp_all add: candidate_event_def Let_def with_details_def with_domain_def with_packet_id_def
      event_now_def split: option.splits)

lemma map_filter_Some_all: "List.map_filter id (map (\<lambda>x. Some (f x)) xs) = map f xs"
  by (induction xs) (simp_all add: map_filter_simps)

lemma map_filter_append: "List.map_filter f (xs @ ys) = List.map_filter f xs @ List.map_filter f ys"
  by (simp add: List.map_filter_def)

lemma any_event_selected [simp]: "event_selected any_event ev"
  by (simp add: event_selected_def any_event_def)

lemma list_events_loop_any: "list_events st any_event n = take n (rev (List.map_filter id (st_log st)))"
  by (simp add: list_events_def list_events_loop_take map_filter_rev)

lemma candidates_distinct: "distinct (map rc_packet_id (find_repair_candidates cutoff events cfg now))"
proof -
  have "distinct (map fst m) \<Longrightarrow> distinct (map rc_packet_id (List.map_filter (candidate_of cfg cd) m))
     \<and> rc_packet_id ` set (List.map_filter (candidate_of cfg cd) m) \<subseteq> fst ` set m" for cd and m :: "agg smap"
  proof (induction m)
    case (Cons pa m)
    have "candidate_of cfg cd pa = Some c \<Longrightarrow> rc_packet_id c = fst pa" for c
      by (cases pa) (auto dest: candidate_ofD(1))
    with Cons show ?case by (cases "candidate_of cfg cd pa") (auto simp: map_filter_simps)
  qed (simp add: map_filter_simps)
  moreover have "map_wf (foldl (agg_step (cutoff now (sc_window cfg))) [] events)"
    by (intro bt_wf_map_wf agg_fold_wf) (simp add: bt_wf_def)
  ultimately show ?thesis by (simp add: find_repair_candidates_def Let_def map_wf_def)
qed

lemma candidates_few: "length (find_repair_candidates cutoff events cfg now) \<le> length events"
proof -
  let ?C = "find_repair_candidates cutoff events cfg now"
  have "set (map (Some \<circ> rc_packet_id) ?C) \<subseteq> set (map pe_packet_id events)"
  proof
    fix x assume "x \<in> set (map (Some \<circ> rc_packet_id) ?C)"
    then obtain c where c: "c \<in> set ?C" "x = Some (rc_packet_id c)" by auto
    obtain a where "agg_from (cutoff now (sc_window cfg)) None (events_of (rc_packet_id c) events) = Some a"
      by (rule find_candidate [OF c(1)])
    then have "events_of (rc_packet_id c) events \<noteq> []" by (auto simp: agg_from_None)
    then show "x \<in> set (map pe_packet_id events)"
      using c(2) by (force simp: events_of_def filter_empty_conv)
  qed
  moreover have "distinct (map (Some \<circ> rc_packet_id) ?C)"
    using candidates_distinct [of cutoff events cfg now] by (simp add: distinct_map comp_inj_on)
  ultimately have "length (map (Some \<circ> rc_packet_id) ?C) \<le> card (set (map pe_packet_id events))"
    by (metis card_mono distinct_card List.finite_set)
  also have "\<dots> \<le> length events" by (metis card_length length_map)
  finally show ?thesis by simp
qed

text \<open>The scanner does not repeat itself: a packet flagged by one pass is not flagged by the next one
  while the cooldown cutoff of the next pass does not lie after the first pass.\<close>

theorem cooldown_suppresses:
  assumes "scanner_step_at cutoff ck cfg now st = (cs, st1)"
    and "scanner_step_at cutoff ck2 cfg now2 st1 = (cs2, st2)"
    and "cutoff now2 (sc_repair_cooldown cfg) = Some cd" "cd \<le> ck_iso ck"
    and "c \<in> set cs"
  shows "rc_packet_id c \<notin> rc_packet_id ` set cs2"
proof
  assume "rc_packet_id c \<in> rc_packet_id ` set cs2"
  then obtain c2 where c2: "c2 \<in> set cs2" "rc_packet_id c2 = rc_packet_id c" by auto
  let ?E1 = "list_events st any_event 10000" and ?E2 = "list_events st1 any_event 10000"
  have cs: "cs = find_repair_candidates cutoff ?E1 cfg now"
    and st1: "st1 = foldl (\<lambda>st c. append_event (candidate_event ck cfg c) st) st cs"
    using assms(1) by (auto simp: scanner_step_at_def Let_def)
  have cs2: "cs2 = find_repair_candidates cutoff ?E2 cfg now2"
    using assms(2) by (auto simp: scanner_step_at_def Let_def)
  have "length cs \<le> 10000"
    using candidates_few [of cutoff ?E1 cfg now] by (simp add: cs list_events_loop_any)
  then have "set (map (candidate_event ck cfg) cs) \<subseteq> set ?E2"
    by (auto simp: list_events_loop_any st1 append_events_log map_filter_append map_filter_Some_all)
  with assms(5) have "candidate_event ck cfg c \<in> set (events_of (rc_packet_id c2) ?E2)"
    by (auto simp: events_of_def c2(2))
  then have "pe_timestamp (candidate_event ck cfg c) < cd"
    using c2(1) assms(3) candidate_counts(4) [where c = c2 and cutoff = cutoff and events = ?E2
        and cfg = cfg and now = now2 and cd = cd and ev = "candidate_event ck cfg c"]
    unfolding cs2 by simp
  with assms(4) show False by simp
qed

text \<open>A log with one missed apply of one packet.\<close>

definition sample_miss :: packet_event where
  "sample_miss = \<lparr>pe_timestamp = ''t'', pe_op = ''apply'', pe_outcome = ''no_match'',
     pe_packet_id = Some ''packet-1'', pe_domain = Some ''d'', pe_details = JNull\<rparr>"

definition sample_scan :: scanner_config where
  "sample_scan = default_config\<lparr>sc_no_match_threshold := f32_one, sc_min_apply_samples := 1\<rparr>"

lemma sample_candidate:
  "map rc_packet_id (find_repair_candidates (\<lambda>now secs. Some ''s'') [sample_miss] sample_scan ''u'') = [''packet-1'']"
proof -
  have "f32_le f32_one (f32_ratio 1 1)" using f32_ratio_ge_one_iff [of 1 1] by simp
  then show ?thesis
    by (simp add: find_repair_candidates_def sample_miss_def sample_scan_def agg_step_def agg_update_def
        in_window_def new_agg_def candidate_of_def rate_def map_filter_simps default_config_def)
qed

theorem candidate_sound_witness:
  "\<exists>c. c \<in> set (find_repair_candidates (\<lambda>now secs. Some ''s'') [sample_miss] sample_scan ''u'') \<and>
     rc_apply_count c = 1 \<and> rc_no_match_count c = 1"
proof -
  obtain c where c: "c \<in> set (find_repair_candidates (\<lambda>now secs. Some ''s'') [sample_miss] sample_scan ''u'')"
    "rc_packet_id c = ''packet-1''"
    using sample_candidate by (auto simp: map_eq_Cons_conv)
  have "events_of ''packet-1'' [sample_miss] = [sample_miss]" "is_apply (Some ''s'') sample_miss"
    by (simp_all add: events_of_def sample_miss_def is_apply_def in_window_def)
  with candidate_sound [OF c(1)] c show ?thesis
    by (auto simp: Let_def sample_miss_def)
qed

theorem cooldown_suppresses_witness:
  "let step = (\<lambda>st. scanner_step_at (\<lambda>now secs. Some ''s'') sample_clock sample_scan ''u'' st);
       r1 = step \<lparr>st_dirs = [], st_log = [Some sample_miss]\<rparr>; r2 = step (snd r1)
   in ''packet-1'' \<in> rc_packet_id ` set (fst r1) \<and> ''packet-1'' \<notin> rc_packet_id ` set (fst r2)"
proof -
  let ?step = "\<lambda>st. scanner_step_at (\<lambda>now secs. Some ''s'') sample_clock sample_scan ''u'' st"
  let ?r1 = "?step \<lparr>st_dirs = [], st_log = [Some sample_miss]\<rparr>"
  have "list_events \<lparr>st_dirs = [], st_log = [Some sample_miss]\<rparr> any_event 10000 = [sample_miss]"
    by (simp add: list_events_loop_any map_filter_simps)
  then have "map rc_packet_id (fst ?r1) = [''packet-1'']"
    by (simp add: scanner_step_at_def Let_def sample_candidate)
  then obtain c where c: "c \<in> set (fst ?r1)" "rc_packet_id c = ''packet-1''" by auto
  have "''s'' \<le> ck_iso sample_clock" by (simp add: sample_clock_def) code_simp?
  note x = cooldown_suppresses [where c = c, OF prod.collapse [symmetric] prod.collapse [symmetric] refl this c(1)]
  have "''packet-1'' \<in> rc_packet_id ` set (fst ?r1)" using c by (metis image_eqI)
  with x show ?thesis unfolding Let_def c(2) by blast
qed

end
