(* ===== verification/Workflow_Schema.thy ===== *)
theory Workflow_Schema
  imports Json
begin

text \<open>
  The workflow data model (\<open>src/src/workflow/schema.rs\<close>, with \<open>HookOp\<close> of \<open>ops.rs\<close>, \<open>WaitSpec\<close>
  of \<open>wait.rs\<close>, \<open>Selector\<close> of \<open>extractor.rs\<close>, \<open>VarKind\<close> of \<open>context.rs\<close> and \<open>AtomRef\<close> and the
  supervision override of \<open>orchestration/atoms/types.rs\<close>). A node may embed a workflow, so the
  node types are parameterised by the type of the embedded workflow and \<open>workflow\<close> ties the
  knot. A \<open>HashMap\<close> is the list of its entries in iteration order. Values the workflow code
  carries without looking inside (runtime requests, capabilities, trace overrides, portals) are
  JSON.
\<close>

section \<open>Variables and selectors\<close>

datatype var_kind = KAny | KBool | KInt | KFloat | KString | KArray | KObject

record var_entry =
  ve_kind :: var_kind
  ve_required :: bool

type_synonym vars_schema = "var_entry smap"

datatype selector =
    JsonPath string
  | Const json
  | Default selector json
  | Concat "selector list"
  | Coalesce "selector list"

section \<open>Hooks and waits\<close>

datatype op_kind =
    SetVar | DefaultVar | IncVar | AppendVar | MergeVar | ParseJson
  | NormalizeArchPathologyAtomRequests | NormalizePerfPathologyAtomRequests | Shell
  | WriteArchPathologyPlan | WritePerfPathologyPlan | WorktreeCreate | WorktreeRemove | SetMeta
  | RequireIdentity | SystemEventCompact | HttpJson | FindFirst | McpCall | ReadVectorStatus
  | QuiesceSearch | RebuildHnsw | CompactVectorPartitions | SwapAtomic | ReadSession
  | ValidateSchema | ApplyEntry | AppendKnowledgeLink | ExtractCandidatePairs
  | AggregateAutoEdgeVotes | WriteSemanticEdge | SurfaceToInbox | LogReject
  | SchemaMigrationDrop | SchemaMigrationRebuild | ScoreEvalOutput | PickFirst
  | PollAttachedInvocation | ExecuteSupervisionAction

datatype on_failure = OnHalt | OnWarn | OnIgnore

record hook_op =
  ho_op :: op_kind
  ho_args :: json
  ho_when :: "string option"
  ho_on_failure :: on_failure
  ho_into_var :: "string option"

record wait_signal =
  ws_signal :: string
  ws_correlate :: "selector smap"

record provider_event_wait =
  pw_actor :: string
  pw_kind :: "string option"
  pw_tool :: "string option"
  pw_contains :: "string option"

record wait_spec =
  wt_any_of :: "wait_signal list"
  wt_timeout_secs :: "nat option"
  wt_provider_event :: "provider_event_wait option"

section \<open>Actors and atom bindings\<close>

datatype actor_kind = Executor | Ensemble

record actor_spec =
  ac_kind :: actor_kind
  ac_brofile :: "string option"
  ac_team :: "string option"
  ac_durable :: bool
  ac_compaction_anchor :: bool
  ac_requires :: "json list"
  ac_runtime :: "json option"

datatype supervisor_mode = SupNone | SupOther string

record classifier_override =
  co_mode :: "supervisor_mode option"
  co_atom_ref :: "string option"
  co_cadence_ms :: "nat option"

record advisor_override =
  ao_mode :: "supervisor_mode option"
  ao_atom_ref :: "string option"

record recovery_override =
  ro_max_attempts :: "nat option"
  ro_tier_ladder :: "string option"

record supervision_override =
  so_classifier :: "classifier_override option"
  so_advisor :: "advisor_override option"
  so_recovery :: "recovery_override option"
  so_rest :: json

record atom_binding =
  ab_id :: "string option"
  ab_atom_ref :: string
  ab_durable :: bool
  ab_compaction_anchor :: bool
  ab_requires :: "json list"
  ab_limits :: "json option"
  ab_supervision_override :: "supervision_override option"
  ab_trace_override :: "json option"
  ab_portal :: "json option"

section \<open>Nodes\<close>

datatype gate_mode = GateFirst | GateAll
datatype node_mode = Sync | FireAndForget
datatype actor_failure = FailHalt | FailContinue
datatype item_failure = ItemHalt | CollectThenHalt | ItemContinue
datatype inject_policy = ResumeOnReturn
datatype branch_selector = GateVerdict

record late_inject =
  li_from :: string
  li_policy :: inject_policy

datatype node_transition =
    Goto string
  | Branch branch_selector "string smap" "string option"
  | Fork "string list" string
  | Terminal

datatype 'w foreach_spec =
  ForeachSpec
    (fe_items: json)
    (fe_as_var: string)
    (fe_index_as: "string option")
    (fe_key: "string option")
    (fe_subworkflow: "'w option")
    (fe_subworkflow_ref: "string option")
    (fe_imports: "string list")
    (fe_import_renames: "(string \<times> string) list")
    (fe_exports: "string list")
    (fe_parallelism: "nat option")
    (fe_collect_into: string)
    (fe_on_item_failure: item_failure)

datatype 'w matrix_spec =
  MatrixSpec
    (mx_axes: "(string \<times> json) list")
    (mx_as_var: string)
    (mx_index_as: "string option")
    (mx_key: "string option")
    (mx_subworkflow: "'w option")
    (mx_subworkflow_ref: "string option")
    (mx_imports: "string list")
    (mx_import_renames: "(string \<times> string) list")
    (mx_exports: "string list")
    (mx_parallelism: "nat option")
    (mx_collect_into: string)
    (mx_on_item_failure: item_failure)

datatype 'w node_spec =
  NodeSpec
    (nd_actor: string)
    (nd_atom: string)
    (nd_atom_args: "json option")
    (nd_prompt: "string option")
    (nd_gate: "string option")
    (nd_gate_mode: "gate_mode option")
    (nd_mode: node_mode)
    (nd_retry: "u32 option")
    (nd_late_inject: "late_inject option")
    (nd_subworkflow: "'w option")
    (nd_subworkflow_ref: "string option")
    (nd_imports: "string list")
    (nd_exports: "string list")
    (nd_import_renames: "(string \<times> string) list")
    (nd_on_enter: "hook_op list")
    (nd_on_exit: "hook_op list")
    (nd_wait: "wait_spec option")
    (nd_sleep_ms: "nat option")
    (nd_wait_for: "string list")
    (nd_foreach: "'w foreach_spec option")
    (nd_matrix: "'w matrix_spec option")
    (nd_actor_failure: "actor_failure option")
    (nd_next: node_transition)

datatype workflow =
  Workflow
    (wf_name: string)
    (wf_version: u32)
    (wf_actors: "(string \<times> actor_spec) list")
    (wf_atom_bindings: "(string \<times> atom_binding) list")
    (wf_nodes: "(string \<times> workflow node_spec) list")
    (wf_start: string)
    (wf_policy_packet: "string option")
    (wf_vars_schema: "vars_schema option")
    (wf_on_arc_exit: "hook_op list")
    (wf_on_arc_cancel: "hook_op list")

text \<open>The engine's ceilings.\<close>

definition max_workflow_depth :: nat where
  "max_workflow_depth = 5"

definition max_foreach_items :: nat where
  "max_foreach_items = 256"

definition max_foreach_parallelism :: nat where
  "max_foreach_parallelism = 16"

section \<open>The fields fanouts share\<close>

text \<open>\<open>trait FanoutSpec\<close> and its two implementations.\<close>

record 'w fanout =
  fo_as_var :: string
  fo_index_as :: "string option"
  fo_subworkflow :: "'w option"
  fo_subworkflow_ref :: "string option"
  fo_imports :: "string list"
  fo_import_renames :: "(string \<times> string) list"
  fo_exports :: "string list"
  fo_parallelism :: "nat option"
  fo_collect_into :: string

definition foreach_fanout :: "'w foreach_spec \<Rightarrow> 'w fanout" where
  "foreach_fanout s =
     \<lparr>fo_as_var = fe_as_var s, fo_index_as = fe_index_as s, fo_subworkflow = fe_subworkflow s,
      fo_subworkflow_ref = fe_subworkflow_ref s, fo_imports = fe_imports s,
      fo_import_renames = fe_import_renames s, fo_exports = fe_exports s,
      fo_parallelism = fe_parallelism s, fo_collect_into = fe_collect_into s\<rparr>"

definition matrix_fanout :: "'w matrix_spec \<Rightarrow> 'w fanout" where
  "matrix_fanout s =
     \<lparr>fo_as_var = mx_as_var s, fo_index_as = mx_index_as s, fo_subworkflow = mx_subworkflow s,
      fo_subworkflow_ref = mx_subworkflow_ref s, fo_imports = mx_imports s,
      fo_import_renames = mx_import_renames s, fo_exports = mx_exports s,
      fo_parallelism = mx_parallelism s, fo_collect_into = mx_collect_into s\<rparr>"

section \<open>Embedded workflows are smaller\<close>

text \<open>The workflows a node embeds: its own and those of its fanouts.\<close>

definition node_subs :: "'w node_spec \<Rightarrow> 'w option list" where
  "node_subs nd =
     [nd_subworkflow nd, Option.bind (nd_foreach nd) fe_subworkflow,
      Option.bind (nd_matrix nd) mx_subworkflow]"

lemma node_sub_size:
  assumes "Some w \<in> set (node_subs nd)"
  shows "size w < size_node_spec size nd"
proof (cases nd)
  case nd: (NodeSpec a b c d e f g h i sub k l m n p q r s t fe mx x y)
  show ?thesis
  proof (cases "sub = Some w")
    case True
    then show ?thesis by (simp add: nd)
  next
    case False
    then consider s where "fe = Some s" "fe_subworkflow s = Some w"
      | s where "mx = Some s" "mx_subworkflow s = Some w"
      using assms by (cases fe; cases mx) (auto simp: node_subs_def nd)
    then show ?thesis
    proof cases
      case (1 s)
      then show ?thesis by (cases s) (simp add: nd)
    next
      case (2 s)
      then show ?thesis by (cases s) (simp add: nd)
    qed
  qed
qed

lemma size_list_snd:
  "n \<in> set xs \<Longrightarrow> f (snd n) < Suc (size_list (size_prod (\<lambda>_. 0) f) xs)"
proof (induction xs)
  case (Cons x xs)
  then show ?case by (cases x) auto
qed simp

lemma wf_sub_size:
  assumes "n \<in> set (wf_nodes w)" "Some w' \<in> set (node_subs (snd n))"
  shows "size w' < size w"
proof -
  have "size_node_spec size (snd n) < size w"
    using assms(1) size_list_snd [of n "wf_nodes w" "size_node_spec size"] by (cases w) simp
  with node_sub_size [OF assms(2)] show ?thesis by linarith
qed

end
