(* ===== verification/Workflow_Compile.thy ===== *)
theory Workflow_Compile
  imports Workflow_Schema
begin

text \<open>
  Compiling a workflow (\<open>src/src/workflow/mod.rs\<close>): the cross checks of \<open>cross_validate\<close>, the
  fanout checks, the reachability walk, and the walk order and text of \<open>summarize\<close>. With them
  the parsing of atom references and the shape check of a supervision override
  (\<open>src/src/orchestration/atoms/types.rs\<close>). Each \<open>bail!\<close> of the source is a constructor of
  \<open>wf_error\<close>.
\<close>

section \<open>Atom references\<close>

datatype atom_version = Pinned u32 | Latest

record atom_ref =
  ar_name :: string
  ar_version :: atom_version

fun rsplit_once :: "string \<Rightarrow> string \<Rightarrow> (string \<times> string) option" where
  "rsplit_once d [] = None"
| "rsplit_once d (c # cs) =
     (case rsplit_once d cs of
        Some (a, b) \<Rightarrow> Some (c # a, b)
      | None \<Rightarrow> (case strip_prefix d (c # cs) of Some r \<Rightarrow> Some ([], r) | None \<Rightarrow> None))"

definition render_atom_ref :: "atom_ref \<Rightarrow> string" where
  "render_atom_ref r =
     (case ar_version r of
        Pinned v \<Rightarrow> ''atom:'' @ ar_name r @ ''@v'' @ show_nat (unat v)
      | Latest \<Rightarrow> ''atom:'' @ ar_name r @ ''@latest'')"

definition parse_pinned :: "string \<Rightarrow> atom_ref option" where
  "parse_pinned rest =
     (case rsplit_once ''@v'' rest of
        None \<Rightarrow> None
      | Some (name, version) \<Rightarrow>
          if name = [] then None
          else (case parse_u32 version of
                  None \<Rightarrow> None
                | Some n \<Rightarrow>
                    if n = 0 then None
                    else Some \<lparr>ar_name = name, ar_version = Pinned (word_of_nat n)\<rparr>))"

definition parse_atom_ref :: "string \<Rightarrow> atom_ref option" where
  "parse_atom_ref input =
     (case strip_prefix ''atom:'' (trim input) of
        None \<Rightarrow> None
      | Some rest \<Rightarrow>
          if CHR '':'' \<in> set rest then None
          else (case rsplit_once ''@'' rest of
                  Some (name, tag) \<Rightarrow>
                    if tag = ''latest''
                    then (if name = [] then None else Some \<lparr>ar_name = name, ar_version = Latest\<rparr>)
                    else parse_pinned rest
                | None \<Rightarrow> parse_pinned rest))"

section \<open>Supervision overrides\<close>

datatype supervision_error =
    ClassifierRef string
  | ClassifierRefUnderNone
  | ClassifierCadenceZero
  | AdvisorRef string
  | AdvisorRefUnderNone
  | RecoveryAttemptsZero
  | RecoveryLadderEmpty

definition check_opt :: "'a option \<Rightarrow> ('a \<Rightarrow> 'e + unit) \<Rightarrow> 'e + unit" where
  "check_opt x f = (case x of Some v \<Rightarrow> f v | None \<Rightarrow> ok)"

definition validate_shape :: "supervision_override \<Rightarrow> supervision_error + unit" where
  "validate_shape s =
     rbind (check_opt (so_classifier s) (\<lambda>c.
       rbind (check_opt (co_atom_ref c)
               (\<lambda>r. guard_err (parse_atom_ref r = None) (ClassifierRef r))) (\<lambda>_.
       rbind (guard_err (co_mode c = Some SupNone \<and> co_atom_ref c \<noteq> None) ClassifierRefUnderNone) (\<lambda>_.
       guard_err (co_cadence_ms c = Some 0) ClassifierCadenceZero)))) (\<lambda>_.
     rbind (check_opt (so_advisor s) (\<lambda>a.
       rbind (check_opt (ao_atom_ref a)
               (\<lambda>r. guard_err (parse_atom_ref r = None) (AdvisorRef r))) (\<lambda>_.
       guard_err (ao_mode a = Some SupNone \<and> ao_atom_ref a \<noteq> None) AdvisorRefUnderNone))) (\<lambda>_.
     check_opt (so_recovery s) (\<lambda>r.
       rbind (guard_err (ro_max_attempts r = Some 0) RecoveryAttemptsZero) (\<lambda>_.
       check_opt (ro_tier_ladder r) (\<lambda>l. guard_err (trim l = []) RecoveryLadderEmpty)))))"

section \<open>Errors\<close>

datatype wf_error =
    StartUndeclared string
  | BindingIdMismatch string string
  | BadAtomRef string string
  | BadSupervision string supervision_error
  | BothSubworkflows string
  | SubworkflowFailed string wf_error
  | ActorAndAtom string string string
  | UndeclaredAtom string string
  | AtomWith string string
  | SleepZero string
  | SleepWith string string
  | UndeclaredActor string string
  | LateInjectUndeclared string string
  | WaitForUndeclared string string
  | Unreachable string "string list"
  | NoTerminal
  | ForeachAndMatrix string
  | FanoutWith string string
  | MatrixNoAxes string
  | DuplicateAxis string string
  | EmptyVarName string string
  | BadVarName string string string
  | TooManyItems string string nat
  | FanoutBothSubs string
  | FanoutNoSub string
  | BadParallelism string
  | CollectNotArray string string
  | FanoutSubFailed string wf_error
  | FanoutUndeclared string string string
  | BindingCollision string "string list"
  | GotoUndeclared string string
  | BranchEmpty string
  | BranchCaseUndeclared string string string
  | BranchDefaultUndeclared string string
  | ForkEmpty string
  | ForkBranchUndeclared string string
  | ForkContinueUndeclared string string

section \<open>Fanout checks\<close>

definition is_ascii_alpha :: "char \<Rightarrow> bool" where
  "is_ascii_alpha c =
     (let n = (of_char c :: nat) in 65 \<le> n \<and> n \<le> 90 \<or> 97 \<le> n \<and> n \<le> 122)"

definition is_ascii_alnum :: "char \<Rightarrow> bool" where
  "is_ascii_alnum c = (let n = (of_char c :: nat) in is_ascii_alpha c \<or> 48 \<le> n \<and> n \<le> 57)"

definition validate_var_name :: "string \<Rightarrow> string \<Rightarrow> string \<Rightarrow> wf_error + unit" where
  "validate_var_name n label name =
     (case name of
        [] \<Rightarrow> Inl (EmptyVarName n label)
      | c # cs \<Rightarrow>
          if \<not> (c = CHR ''_'' \<or> is_ascii_alpha c) then Inl (BadVarName n label name)
          else if list_ex (\<lambda>c. \<not> (c = CHR ''_'' \<or> is_ascii_alnum c)) cs
            then Inl (BadVarName n label name)
          else ok)"

definition validate_literal_array_len :: "string \<Rightarrow> string \<Rightarrow> json \<Rightarrow> wf_error + unit" where
  "validate_literal_array_len n label v =
     (case v of
        JArr items \<Rightarrow> guard_err (max_foreach_items < length items) (TooManyItems n label (length items))
      | _ \<Rightarrow> ok)"

definition binding_collisions :: "'w fanout \<Rightarrow> string list" where
  "binding_collisions f =
     (let hits = (\<lambda>k. k = fo_as_var f \<or> fo_index_as f = Some k)
      in dedup (sort_strings
           (filter hits (fo_imports f) @ filter hits (map fst (fo_import_renames f)))))"

definition validate_binding_collisions :: "string \<Rightarrow> 'w fanout \<Rightarrow> wf_error + unit" where
  "validate_binding_collisions n f =
     (let cs = binding_collisions f in guard_err (cs \<noteq> []) (BindingCollision n cs))"

text \<open>
  \<open>sub_result\<close> is the outcome of compiling the inline child, which the caller computes: compiling
  has no effect, so its place among the checks only decides which error is reported.
\<close>

definition validate_foreach_like ::
  "string \<Rightarrow> workflow fanout \<Rightarrow> vars_schema option \<Rightarrow> wf_error + unit \<Rightarrow> wf_error + unit" where
  "validate_foreach_like n f schema sub_result =
     rbind (validate_var_name n ''as_var'' (fo_as_var f)) (\<lambda>_.
     rbind (check_opt (fo_index_as f) (validate_var_name n ''index_as'')) (\<lambda>_.
     rbind (validate_var_name n ''collect.into_var'' (fo_collect_into f)) (\<lambda>_.
     rbind (validate_binding_collisions n f) (\<lambda>_.
     rbind (guard_err (fo_subworkflow f \<noteq> None \<and> fo_subworkflow_ref f \<noteq> None) (FanoutBothSubs n)) (\<lambda>_.
     rbind (guard_err (fo_subworkflow f = None \<and> fo_subworkflow_ref f = None) (FanoutNoSub n)) (\<lambda>_.
     rbind (check_opt (fo_parallelism f)
             (\<lambda>p. guard_err (p = 0 \<or> max_foreach_parallelism < p) (BadParallelism n))) (\<lambda>_.
     rbind (check_opt schema (\<lambda>s. check_opt (obj_get s (fo_collect_into f))
             (\<lambda>e. guard_err (ve_kind e \<noteq> KArray) (CollectNotArray n (fo_collect_into f))))) (\<lambda>_.
     check_opt (fo_subworkflow f) (\<lambda>sub.
       rbind (map_err (FanoutSubFailed n) sub_result) (\<lambda>_.
       check_opt (wf_vars_schema sub) (\<lambda>s.
         rbind (check_all (\<lambda>k. guard_err (\<not> obj_has s k) (FanoutUndeclared n ''import'' k))
                 (fo_imports f)) (\<lambda>_.
         rbind (check_all (\<lambda>k. guard_err (\<not> obj_has s k) (FanoutUndeclared n ''import_renames'' k))
                 (map fst (fo_import_renames f))) (\<lambda>_.
         check_all (\<lambda>k. guard_err (\<not> obj_has s k) (FanoutUndeclared n ''export'' k))
           (fo_exports f))))))))))))))"

text \<open>The loop over the axes with the set of names seen.\<close>

fun validate_axes :: "string \<Rightarrow> string set \<Rightarrow> (string \<times> json) list \<Rightarrow> wf_error + unit" where
  "validate_axes n seen [] = ok"
| "validate_axes n seen ((name, vals) # axes) =
     rbind (validate_var_name n ''matrix axis'' name) (\<lambda>_.
     rbind (validate_literal_array_len n (''matrix axis '' @ [CHR 0x27] @ name @ [CHR 0x27]) vals) (\<lambda>_.
     rbind (guard_err (name \<in> seen) (DuplicateAxis n name)) (\<lambda>_.
     validate_axes n (insert name seen) axes)))"

definition validate_dynamic_fanout ::
  "string \<Rightarrow> workflow node_spec \<Rightarrow> vars_schema option \<Rightarrow> wf_error + unit \<Rightarrow> wf_error + unit \<Rightarrow>
     wf_error + unit" where
  "validate_dynamic_fanout n nd schema foreach_sub matrix_sub =
     (if nd_foreach nd = None \<and> nd_matrix nd = None then ok
      else
       rbind (guard_err (nd_foreach nd \<noteq> None \<and> nd_matrix nd \<noteq> None) (ForeachAndMatrix n)) (\<lambda>_.
       rbind (guard_err (nd_actor nd \<noteq> []) (FanoutWith n ''actor'')) (\<lambda>_.
       rbind (guard_err (nd_atom nd \<noteq> []) (FanoutWith n ''atom'')) (\<lambda>_.
       rbind (guard_err (nd_subworkflow nd \<noteq> None \<or> nd_subworkflow_ref nd \<noteq> None)
               (FanoutWith n ''subworkflow'')) (\<lambda>_.
       rbind (guard_err (nd_wait nd \<noteq> None) (FanoutWith n ''wait'')) (\<lambda>_.
       rbind (guard_err (nd_mode nd = FireAndForget) (FanoutWith n ''fire_and_forget'')) (\<lambda>_.
       (case (nd_foreach nd, nd_matrix nd) of
          (Some s, None) \<Rightarrow>
            rbind (validate_literal_array_len n ''foreach items'' (fe_items s)) (\<lambda>_.
            validate_foreach_like n (foreach_fanout s) schema foreach_sub)
        | (None, Some s) \<Rightarrow>
            rbind (guard_err (mx_axes s = []) (MatrixNoAxes n)) (\<lambda>_.
            rbind (validate_axes n {} (mx_axes s)) (\<lambda>_.
            validate_foreach_like n (matrix_fanout s) schema matrix_sub))
        | _ \<Rightarrow> ok))))))))"

section \<open>Transitions\<close>

definition validate_transition ::
  "string \<Rightarrow> node_transition \<Rightarrow> workflow \<Rightarrow> wf_error + unit" where
  "validate_transition n t spec =
     (let declared = obj_has (wf_nodes spec)
      in case t of
           Goto to' \<Rightarrow> guard_err (\<not> declared to') (GotoUndeclared n to')
         | Branch sel cases dflt \<Rightarrow>
             rbind (guard_err (cases = [] \<and> dflt = None) (BranchEmpty n)) (\<lambda>_.
             rbind (check_all (\<lambda>c. guard_err (\<not> declared (snd c)) (BranchCaseUndeclared n (fst c) (snd c)))
                     cases) (\<lambda>_.
             check_opt dflt (\<lambda>d. guard_err (\<not> declared d) (BranchDefaultUndeclared n d))))
         | Fork branches continue_to \<Rightarrow>
             rbind (guard_err (branches = []) (ForkEmpty n)) (\<lambda>_.
             rbind (check_all (\<lambda>b. guard_err (\<not> declared b) (ForkBranchUndeclared n b)) branches) (\<lambda>_.
             guard_err (\<not> declared continue_to) (ForkContinueUndeclared n continue_to)))
         | Terminal \<Rightarrow> ok)"

section \<open>Reachability\<close>

definition next_targets :: "node_transition \<Rightarrow> string list" where
  "next_targets t =
     (case t of
        Goto to' \<Rightarrow> [to']
      | Branch sel cases dflt \<Rightarrow>
          map snd cases @ (case dflt of Some d \<Rightarrow> [d] | None \<Rightarrow> [])
      | Fork branches continue_to \<Rightarrow> branches @ [continue_to]
      | Terminal \<Rightarrow> [])"

text \<open>What one node pushes, in the order of the pushes.\<close>

definition node_pushes :: "workflow node_spec \<Rightarrow> string list" where
  "node_pushes nd =
     nd_wait_for nd @ (case nd_late_inject nd of Some li \<Rightarrow> [li_from li] | None \<Rightarrow> []) @
     next_targets (nd_next nd)"

definition pushes :: "workflow \<Rightarrow> string \<Rightarrow> string list" where
  "pushes spec cur = (case obj_get (wf_nodes spec) cur of Some nd \<Rightarrow> node_pushes nd | None \<Rightarrow> [])"

text \<open>Every name the walk can meet.\<close>

definition mentioned :: "workflow \<Rightarrow> string set" where
  "mentioned spec = (\<Union>n\<in>set (wf_nodes spec). set (node_pushes (snd n)))"

lemma finite_mentioned [simp]: "finite (mentioned spec)"
  by (simp add: mentioned_def)

lemma pushes_mentioned: "set (pushes spec cur) \<subseteq> mentioned spec"
proof (cases "obj_get (wf_nodes spec) cur")
  case (Some nd)
  then show ?thesis by (force simp: pushes_def mentioned_def dest: obj_get_Some_mem)
qed (simp add: pushes_def)

text \<open>The top of the stack is the head of the list.\<close>

function reach_loop :: "workflow \<Rightarrow> string list \<Rightarrow> string set \<Rightarrow> string set" where
  "reach_loop spec [] seen = seen"
| "reach_loop spec (cur # stack) seen =
     (if cur \<in> seen then reach_loop spec stack seen
      else reach_loop spec (rev (pushes spec cur) @ stack) (insert cur seen))"
  by pat_completeness auto

lemma reach_measure:
  assumes "cur \<notin> seen"
  shows "card (set (rev (pushes spec cur) @ stack) \<union> mentioned spec - insert cur seen) <
         card (set (cur # stack) \<union> mentioned spec - seen)"
proof (rule psubset_card_mono)
  show "finite (set (cur # stack) \<union> mentioned spec - seen)" by simp
  show "set (rev (pushes spec cur) @ stack) \<union> mentioned spec - insert cur seen \<subset>
        set (cur # stack) \<union> mentioned spec - seen"
    using assms pushes_mentioned [of spec cur] by auto
qed

termination reach_loop
proof (relation "measures [\<lambda>(spec, stack, seen). card (set stack \<union> mentioned spec - seen),
    \<lambda>(spec, stack, seen). length stack]", goal_cases)
  case (2 spec cur stack seen)
  have "card (set stack \<union> mentioned spec - seen) \<le> card (set (cur # stack) \<union> mentioned spec - seen)"
    by (rule card_mono) auto
  then show ?case by auto
next
  case (3 spec cur stack seen)
  then show ?case using reach_measure [of cur seen spec stack] by simp
qed simp

definition reachable_nodes :: "workflow \<Rightarrow> string set" where
  "reachable_nodes spec = reach_loop spec [wf_start spec] {}"

section \<open>Cross validation\<close>

definition validate_binding :: "string \<times> atom_binding \<Rightarrow> wf_error + unit" where
  "validate_binding kb =
     (let (k, b) = kb
      in rbind (check_opt (ab_id b) (\<lambda>i. guard_err (i \<noteq> k) (BindingIdMismatch k i))) (\<lambda>_.
         rbind (guard_err (parse_atom_ref (ab_atom_ref b) = None) (BadAtomRef k (ab_atom_ref b))) (\<lambda>_.
         check_opt (ab_supervision_override b) (\<lambda>s. map_err (BadSupervision k) (validate_shape s)))))"

definition validate_node ::
  "workflow \<Rightarrow> string \<Rightarrow> workflow node_spec \<Rightarrow> (wf_error + unit) list \<Rightarrow> wf_error + unit" where
  "validate_node spec n nd subs =
     rbind (guard_err (nd_subworkflow nd \<noteq> None \<and> nd_subworkflow_ref nd \<noteq> None) (BothSubworkflows n)) (\<lambda>_.
     rbind (validate_dynamic_fanout n nd (wf_vars_schema spec) (subs ! 1) (subs ! 2)) (\<lambda>_.
     rbind (if nd_subworkflow nd \<noteq> None then map_err (SubworkflowFailed n) (subs ! 0) else ok) (\<lambda>_.
     rbind (guard_err (nd_actor nd \<noteq> [] \<and> nd_atom nd \<noteq> []) (ActorAndAtom n (nd_actor nd) (nd_atom nd))) (\<lambda>_.
     rbind (if nd_atom nd = [] then ok else
       rbind (guard_err (\<not> obj_has (wf_atom_bindings spec) (nd_atom nd)) (UndeclaredAtom n (nd_atom nd))) (\<lambda>_.
       rbind (guard_err (nd_subworkflow nd \<noteq> None \<or> nd_subworkflow_ref nd \<noteq> None) (AtomWith n ''subworkflow'')) (\<lambda>_.
       rbind (guard_err (nd_wait nd \<noteq> None) (AtomWith n ''wait'')) (\<lambda>_.
       rbind (guard_err (nd_sleep_ms nd \<noteq> None) (AtomWith n ''sleep'')) (\<lambda>_.
       guard_err (nd_foreach nd \<noteq> None \<or> nd_matrix nd \<noteq> None) (AtomWith n ''foreach/matrix'')))))) (\<lambda>_.
     rbind (check_opt (nd_sleep_ms nd) (\<lambda>ms.
       rbind (guard_err (ms = 0) (SleepZero n)) (\<lambda>_.
       rbind (guard_err (nd_atom nd \<noteq> []) (SleepWith n ''atom binding'')) (\<lambda>_.
       rbind (guard_err (nd_actor nd \<noteq> []) (SleepWith n ''actor'')) (\<lambda>_.
       rbind (guard_err (nd_wait nd \<noteq> None) (SleepWith n ''wait'')) (\<lambda>_.
       rbind (guard_err (nd_subworkflow nd \<noteq> None \<or> nd_subworkflow_ref nd \<noteq> None) (SleepWith n ''subworkflow'')) (\<lambda>_.
       guard_err (nd_foreach nd \<noteq> None \<or> nd_matrix nd \<noteq> None) (SleepWith n ''foreach/matrix'')))))))) (\<lambda>_.
     rbind (guard_err (nd_actor nd \<noteq> [] \<and> \<not> obj_has (wf_actors spec) (nd_actor nd))
             (UndeclaredActor n (nd_actor nd))) (\<lambda>_.
     rbind (check_opt (nd_late_inject nd) (\<lambda>li.
       guard_err (\<not> obj_has (wf_nodes spec) (li_from li)) (LateInjectUndeclared n (li_from li)))) (\<lambda>_.
     rbind (check_all (\<lambda>s. guard_err (\<not> obj_has (wf_nodes spec) s) (WaitForUndeclared n s))
             (nd_wait_for nd)) (\<lambda>_.
     validate_transition n (nd_next nd) spec)))))))))"

definition validate_graph :: "workflow \<Rightarrow> wf_error + unit" where
  "validate_graph spec =
     (let reachable = reachable_nodes spec;
          unreachable = filter (\<lambda>n. n \<notin> reachable) (obj_keys (wf_nodes spec))
      in rbind (guard_err (unreachable \<noteq> []) (Unreachable (wf_start spec) (sort_strings unreachable))) (\<lambda>_.
         guard_err (\<not> list_ex (\<lambda>n. nd_next (snd n) = Terminal) (wf_nodes spec)) NoTerminal))"

function compile_workflow :: "workflow \<Rightarrow> wf_error + unit" where
  "compile_workflow spec =
     rbind (guard_err (\<not> obj_has (wf_nodes spec) (wf_start spec)) (StartUndeclared (wf_start spec))) (\<lambda>_.
     rbind (check_all validate_binding (wf_atom_bindings spec)) (\<lambda>_.
     rbind (check_all (\<lambda>n. validate_node spec (fst n) (snd n)
              (map (\<lambda>sub. case sub of Some w \<Rightarrow> compile_workflow w | None \<Rightarrow> ok) (node_subs (snd n))))
              (wf_nodes spec)) (\<lambda>_.
     validate_graph spec)))"
  by pat_completeness auto
termination
  by (relation "measure size") (auto intro: wf_sub_size)

declare compile_workflow.simps [simp del]

section \<open>The dry-run summary\<close>

text \<open>The successors in the order they are visited: branch targets by sorted case.\<close>

definition sorted_cases :: "string smap \<Rightarrow> string smap" where
  "sorted_cases cases = sort_by (\<lambda>a b. fst a \<le> fst b) cases"

definition walk_succs :: "workflow \<Rightarrow> string \<Rightarrow> string list" where
  "walk_succs spec cur =
     (case obj_get (wf_nodes spec) cur of
        None \<Rightarrow> []
      | Some nd \<Rightarrow>
          (case nd_next nd of
             Goto to' \<Rightarrow> [to']
           | Branch sel cases dflt \<Rightarrow>
               map snd (sorted_cases cases) @ (case dflt of Some d \<Rightarrow> [d] | None \<Rightarrow> [])
           | Fork branches continue_to \<Rightarrow> branches @ [continue_to]
           | Terminal \<Rightarrow> []))"

lemma walk_succs_mentioned: "set (walk_succs spec cur) \<subseteq> mentioned spec"
proof -
  have "set (walk_succs spec cur) \<subseteq> set (pushes spec cur)"
    by (auto simp: walk_succs_def pushes_def node_pushes_def next_targets_def sorted_cases_def
        split: option.splits node_transition.splits)
  then show ?thesis using pushes_mentioned [of spec cur] by blast
qed

function topo_loop :: "workflow \<Rightarrow> string list \<Rightarrow> string list \<Rightarrow> string list" where
  "topo_loop spec [] out = out"
| "topo_loop spec (cur # stack) out =
     (if cur \<in> set out then topo_loop spec stack out
      else topo_loop spec
        (filter (\<lambda>c. c \<notin> set (out @ [cur])) (walk_succs spec cur) @ stack) (out @ [cur]))"
  by pat_completeness auto

lemma topo_measure:
  assumes "cur \<notin> set out"
  shows "card (set (filter P (walk_succs spec cur) @ stack) \<union> mentioned spec - set (out @ [cur])) <
         card (set (cur # stack) \<union> mentioned spec - set out)"
proof (rule psubset_card_mono)
  show "finite (set (cur # stack) \<union> mentioned spec - set out)" by simp
  show "set (filter P (walk_succs spec cur) @ stack) \<union> mentioned spec - set (out @ [cur]) \<subset>
        set (cur # stack) \<union> mentioned spec - set out"
    using assms walk_succs_mentioned [of spec cur] by auto
qed

termination topo_loop
proof (relation "measures [\<lambda>(spec, stack, out). card (set stack \<union> mentioned spec - set out),
    \<lambda>(spec, stack, out). length stack]", goal_cases)
  case (2 spec cur stack out)
  have "card (set stack \<union> mentioned spec - set out) \<le> card (set (cur # stack) \<union> mentioned spec - set out)"
    by (rule card_mono) auto
  then show ?case by auto
next
  case (3 spec cur stack out)
  then show ?case
    using topo_measure [of cur out "\<lambda>c. c \<notin> set (out @ [cur])" spec stack] by simp
qed simp

definition topological_order :: "workflow \<Rightarrow> string list" where
  "topological_order spec = topo_loop spec [wf_start spec] []"

text \<open>\<open>dbg\<close> is the language's \<open>Debug\<close> rendering of a string.\<close>

definition dbg_list :: "(string \<Rightarrow> string) \<Rightarrow> string list \<Rightarrow> string" where
  "dbg_list dbg xs = ''['' @ join_with '', '' (map dbg xs) @ '']''"

text \<open>The arrow, U+2192.\<close>

definition arrow :: string where
  "arrow = [CHR 0xE2, CHR 0x86, CHR 0x92]"

definition format_transition :: "(string \<Rightarrow> string) \<Rightarrow> node_transition \<Rightarrow> string" where
  "format_transition dbg t =
     (case t of
        Goto to' \<Rightarrow> ''goto '' @ to'
      | Branch sel cases dflt \<Rightarrow>
          (let arms = join_with '', '' (map (\<lambda>(k, v). k @ arrow @ v) (sorted_cases cases))
           in case dflt of
                Some d \<Rightarrow> ''branch ['' @ arms @ ''] default'' @ arrow @ d
              | None \<Rightarrow> ''branch ['' @ arms @ '']'')
      | Fork branches continue_to \<Rightarrow>
          ''fork '' @ dbg_list dbg branches @ '' continue_to='' @ continue_to
      | Terminal \<Rightarrow> ''terminal'')"

definition show_bool :: "bool \<Rightarrow> string" where
  "show_bool b = (if b then ''true'' else ''false'')"

definition summarize_actor :: "string \<times> actor_spec \<Rightarrow> string" where
  "summarize_actor na =
     (let (name, a) = na;
          backing = (case ac_brofile a of
                       Some b \<Rightarrow> ''brofile='' @ b
                     | None \<Rightarrow> (case ac_team a of Some t \<Rightarrow> ''team='' @ t | None \<Rightarrow> ''user''))
      in ''  '' @ name @ '': kind='' @
         (case ac_kind a of Executor \<Rightarrow> ''Executor'' | Ensemble \<Rightarrow> ''Ensemble'') @ '' '' @ backing @
         '' durable='' @ show_bool (ac_durable a) @ '' anchor='' @
         show_bool (ac_compaction_anchor a) @ [CHR 0x0A])"

definition summarize_node :: "(string \<Rightarrow> string) \<Rightarrow> string \<Rightarrow> workflow node_spec \<Rightarrow> string" where
  "summarize_node dbg n nd =
     ''  '' @ n @ '' '' @ arrow @ '' actor='' @ nd_actor nd @
     (case nd_gate nd of Some g \<Rightarrow> '' gate='' @ g | None \<Rightarrow> []) @
     (case nd_retry nd of Some r \<Rightarrow> '' retry_max_gen='' @ show_nat (unat r) | None \<Rightarrow> []) @
     (case nd_late_inject nd of
        Some li \<Rightarrow> '' late_inject_from='' @ li_from li @ ''(ResumeOnReturn)'' | None \<Rightarrow> []) @
     (if nd_mode nd = FireAndForget then '' [fire-and-forget]'' else []) @
     (if nd_wait_for nd \<noteq> [] then '' wait_for='' @ dbg_list dbg (nd_wait_for nd) else []) @
     [CHR 0x0A] @ ''    next: '' @ format_transition dbg (nd_next nd) @ [CHR 0x0A]"

definition summarize :: "(string \<Rightarrow> string) \<Rightarrow> workflow \<Rightarrow> string" where
  "summarize dbg spec =
     ''workflow: '' @ wf_name spec @ '' (v'' @ show_nat (unat (wf_version spec)) @ '')'' @ [CHR 0x0A] @
     [CHR 0x0A] @ ''actors:'' @ [CHR 0x0A] @
     concat (map summarize_actor (sort_by (\<lambda>a b. fst a \<le> fst b) (wf_actors spec))) @
     [CHR 0x0A] @ ''nodes (walk order from start):'' @ [CHR 0x0A] @
     concat (map (\<lambda>n. case obj_get (wf_nodes spec) n of
         Some nd \<Rightarrow> summarize_node dbg n nd | None \<Rightarrow> []) (topological_order spec))"

section \<open>The walks visit what is reachable\<close>

definition edges :: "(string \<Rightarrow> string list) \<Rightarrow> (string \<times> string) set" where
  "edges f = {(a, b). b \<in> set (f a)}"

lemma closed_reach:
  assumes "a \<in> S" "\<And>x. x \<in> S \<Longrightarrow> set (f x) \<subseteq> S"
  shows "(a, b) \<in> (edges f)\<^sup>* \<Longrightarrow> b \<in> S"
  by (induction rule: rtrancl_induct) (use assms in \<open>auto simp: edges_def\<close>)

lemma reach_loop_sound:
  "(\<forall>x\<in>set stack \<union> seen. (s, x) \<in> (edges (pushes spec))\<^sup>*) \<Longrightarrow> x \<in> reach_loop spec stack seen \<Longrightarrow>
   (s, x) \<in> (edges (pushes spec))\<^sup>*"
proof (induction spec stack seen rule: reach_loop.induct)
  case (2 spec cur stack seen)
  show ?case
  proof (cases "cur \<in> seen")
    case False
    have "(s, y) \<in> (edges (pushes spec))\<^sup>*" if "y \<in> set (pushes spec cur)" for y
      using that 2(3) by (auto simp: edges_def intro: rtrancl_into_rtrancl)
    with False 2 show ?thesis by auto
  qed (use 2 in auto)
qed auto

lemma reach_loop_closed:
  "(\<forall>x\<in>seen. set (pushes spec x) \<subseteq> seen \<union> set stack) \<Longrightarrow>
   set stack \<union> seen \<subseteq> reach_loop spec stack seen \<and>
   (\<forall>x\<in>reach_loop spec stack seen. set (pushes spec x) \<subseteq> reach_loop spec stack seen)"
proof (induction spec stack seen rule: reach_loop.induct)
  case (2 spec cur stack seen)
  show ?case
  proof (cases "cur \<in> seen")
    case True
    with 2(3) have "\<forall>x\<in>seen. set (pushes spec x) \<subseteq> seen \<union> set stack" by auto
    with 2(1) [OF True this] True show ?thesis by auto
  next
    case False
    with 2(3) have "\<forall>x\<in>insert cur seen.
        set (pushes spec x) \<subseteq> insert cur seen \<union> set (rev (pushes spec cur) @ stack)" by auto
    with 2(2) [OF False this] False show ?thesis by auto
  qed
qed simp

lemma reachable_nodes_eq:
  "reachable_nodes spec = {n. (wf_start spec, n) \<in> (edges (pushes spec))\<^sup>*}"
proof
  show "reachable_nodes spec \<subseteq> {n. (wf_start spec, n) \<in> (edges (pushes spec))\<^sup>*}"
    unfolding reachable_nodes_def using reach_loop_sound [of "[wf_start spec]" "{}"] by auto
  have "wf_start spec \<in> reachable_nodes spec"
    "\<forall>x\<in>reachable_nodes spec. set (pushes spec x) \<subseteq> reachable_nodes spec"
    unfolding reachable_nodes_def using reach_loop_closed [of "{}" spec "[wf_start spec]"] by auto
  then show "{n. (wf_start spec, n) \<in> (edges (pushes spec))\<^sup>*} \<subseteq> reachable_nodes spec"
    using closed_reach [of "wf_start spec" "reachable_nodes spec" "pushes spec"] by auto
qed

lemma topo_loop_sound:
  "(\<forall>x\<in>set stack \<union> set out. (s, x) \<in> (edges (walk_succs spec))\<^sup>*) \<Longrightarrow>
   x \<in> set (topo_loop spec stack out) \<Longrightarrow> (s, x) \<in> (edges (walk_succs spec))\<^sup>*"
proof (induction spec stack out rule: topo_loop.induct)
  case (2 spec cur stack out)
  show ?case
  proof (cases "cur \<in> set out")
    case False
    have "(s, y) \<in> (edges (walk_succs spec))\<^sup>*" if "y \<in> set (walk_succs spec cur)" for y
      using that 2(3) by (auto simp: edges_def intro: rtrancl_into_rtrancl)
    with False 2 show ?thesis by auto
  qed (use 2 in auto)
qed auto

lemma topo_loop_closed:
  "(\<forall>x\<in>set out. set (walk_succs spec x) \<subseteq> set out \<union> set stack) \<Longrightarrow>
   set stack \<union> set out \<subseteq> set (topo_loop spec stack out) \<and>
   (\<forall>x\<in>set (topo_loop spec stack out).
      set (walk_succs spec x) \<subseteq> set (topo_loop spec stack out))"
proof (induction spec stack out rule: topo_loop.induct)
  case (2 spec cur stack out)
  show ?case
  proof (cases "cur \<in> set out")
    case True
    with 2(3) have "\<forall>x\<in>set out. set (walk_succs spec x) \<subseteq> set out \<union> set stack" by auto
    with 2(1) [OF True this] True show ?thesis by auto
  next
    case False
    let ?st = "filter (\<lambda>c. c \<notin> set (out @ [cur])) (walk_succs spec cur) @ stack"
    from 2(3) have "\<forall>x\<in>set (out @ [cur]). set (walk_succs spec x) \<subseteq> set (out @ [cur]) \<union> set ?st" by auto
    with 2(2) [OF False this] False show ?thesis by auto
  qed
qed simp

lemma topo_loop_distinct: "distinct out \<Longrightarrow> distinct (topo_loop spec stack out)"
  by (induction spec stack out rule: topo_loop.induct) auto

lemma topo_loop_prefix: "\<exists>r. topo_loop spec stack out = out @ r"
  by (induction spec stack out rule: topo_loop.induct) auto

text \<open>The reachability walk computes exactly the nodes a path of transitions, joins and late
  injections leads to from the start, and terminates on every graph, cyclic ones included.\<close>

theorem reachable_nodes_correct:
  "n \<in> reachable_nodes spec \<longleftrightarrow> (wf_start spec, n) \<in> (edges (pushes spec))\<^sup>*"
  by (simp add: reachable_nodes_eq)

text \<open>The walk order of the summary starts at the start node and lists every node reachable over
  transitions exactly once.\<close>

theorem topological_order_correct:
  "distinct (topological_order spec) \<and> hd (topological_order spec) = wf_start spec \<and>
   set (topological_order spec) = {n. (wf_start spec, n) \<in> (edges (walk_succs spec))\<^sup>*}"
proof (intro conjI)
  show "distinct (topological_order spec)"
    unfolding topological_order_def by (rule topo_loop_distinct) simp
  obtain r where "topological_order spec = [wf_start spec] @ r"
    unfolding topological_order_def
    using topo_loop_prefix [of spec _ "[wf_start spec]"] by fastforce
  then show "hd (topological_order spec) = wf_start spec" by simp
  have c: "wf_start spec \<in> set (topological_order spec)"
    "\<forall>x\<in>set (topological_order spec). set (walk_succs spec x) \<subseteq> set (topological_order spec)"
    unfolding topological_order_def using topo_loop_closed [of "[]" spec "[wf_start spec]"] by auto
  show "set (topological_order spec) = {n. (wf_start spec, n) \<in> (edges (walk_succs spec))\<^sup>*}"
  proof
    show "set (topological_order spec) \<subseteq> {n. (wf_start spec, n) \<in> (edges (walk_succs spec))\<^sup>*}"
      unfolding topological_order_def using topo_loop_sound [of "[wf_start spec]" "[]"] by auto
    show "{n. (wf_start spec, n) \<in> (edges (walk_succs spec))\<^sup>*} \<subseteq> set (topological_order spec)"
      using closed_reach [of "wf_start spec" "set (topological_order spec)" "walk_succs spec"] c by auto
  qed
qed

section \<open>What a compiled workflow guarantees\<close>

definition declared :: "workflow \<Rightarrow> string \<Rightarrow> bool" where
  "declared spec n = obj_has (wf_nodes spec) n"

definition fanout_ok :: "workflow \<Rightarrow> 'w fanout \<Rightarrow> bool" where
  "fanout_ok spec f \<longleftrightarrow>
     binding_collisions f = [] \<and> (fo_subworkflow f = None) \<noteq> (fo_subworkflow_ref f = None) \<and>
     (\<forall>p. fo_parallelism f = Some p \<longrightarrow> 0 < p \<and> p \<le> max_foreach_parallelism)"

definition node_ok :: "workflow \<Rightarrow> workflow node_spec \<Rightarrow> bool" where
  "node_ok spec nd \<longleftrightarrow>
     list_all (declared spec) (node_pushes nd) \<and>
     (nd_actor nd \<noteq> [] \<longrightarrow> obj_has (wf_actors spec) (nd_actor nd)) \<and>
     (nd_atom nd \<noteq> [] \<longrightarrow> obj_has (wf_atom_bindings spec) (nd_atom nd) \<and> nd_actor nd = []) \<and>
     (nd_foreach nd = None \<or> nd_matrix nd = None) \<and>
     (\<forall>s. nd_foreach nd = Some s \<longrightarrow> fanout_ok spec (foreach_fanout s)) \<and>
     (\<forall>s. nd_matrix nd = Some s \<longrightarrow> fanout_ok spec (matrix_fanout s) \<and> mx_axes s \<noteq> [] \<and>
        distinct (map fst (mx_axes s))) \<and>
     (\<forall>sel cases d. nd_next nd = Branch sel cases d \<longrightarrow> cases \<noteq> [] \<or> d \<noteq> None) \<and>
     (nd_sleep_ms nd \<noteq> Some 0)"

definition workflow_ok :: "workflow \<Rightarrow> bool" where
  "workflow_ok spec \<longleftrightarrow>
     declared spec (wf_start spec) \<and>
     (\<forall>n\<in>set (wf_nodes spec). node_ok spec (snd n)) \<and>
     (\<forall>n\<in>set (wf_nodes spec). (wf_start spec, fst n) \<in> (edges (pushes spec))\<^sup>*) \<and>
     (\<exists>n\<in>set (wf_nodes spec). nd_next (snd n) = Terminal)"

text \<open>A workflow and those embedded in it, at any depth.\<close>

inductive part_of :: "workflow \<Rightarrow> workflow \<Rightarrow> bool" where
  part_refl: "part_of w w"
| part_sub: "n \<in> set (wf_nodes w) \<Longrightarrow> Some w' \<in> set (node_subs (snd n)) \<Longrightarrow> part_of v w' \<Longrightarrow> part_of v w"

lemma check_opt_ok [result_simps]: "check_opt x f = Inr () \<longleftrightarrow> (\<forall>v. x = Some v \<longrightarrow> f v = Inr ())"
  by (cases x) (simp_all add: check_opt_def ok_def)

lemma validate_transition_ok:
  "validate_transition n t spec = Inr () \<Longrightarrow>
   list_all (declared spec) (next_targets t) \<and>
   (\<forall>sel cases d. t = Branch sel cases d \<longrightarrow> cases \<noteq> [] \<or> d \<noteq> None)"
  by (cases t)
    (auto simp: validate_transition_def Let_def rbind_eq_Inr check_all_ok check_opt_ok list_all_iff
      next_targets_def declared_def split: option.splits)

lemma validate_foreach_like_ok:
  "validate_foreach_like n f schema r = Inr () \<Longrightarrow>
   fanout_ok spec f \<and> (\<forall>sub. fo_subworkflow f = Some sub \<longrightarrow> r = Inr ())"
  by (auto simp: validate_foreach_like_def rbind_eq_Inr check_opt_ok fanout_ok_def
      validate_binding_collisions_def Let_def)

lemma validate_axes_ok:
  "validate_axes n seen axes = Inr () \<Longrightarrow> distinct (map fst axes) \<and> fst ` set axes \<inter> seen = {}"
  by (induction n seen axes rule: validate_axes.induct) (auto simp: rbind_eq_Inr)

lemma validate_dynamic_fanout_ok:
  "validate_dynamic_fanout n nd schema r1 r2 = Inr () \<Longrightarrow>
   (nd_foreach nd = None \<or> nd_matrix nd = None) \<and>
   (\<forall>s. nd_foreach nd = Some s \<longrightarrow> fanout_ok spec (foreach_fanout s) \<and>
      (\<forall>sub. fe_subworkflow s = Some sub \<longrightarrow> r1 = Inr ())) \<and>
   (\<forall>s. nd_matrix nd = Some s \<longrightarrow> fanout_ok spec (matrix_fanout s) \<and> mx_axes s \<noteq> [] \<and>
      distinct (map fst (mx_axes s)) \<and> (\<forall>sub. mx_subworkflow s = Some sub \<longrightarrow> r2 = Inr ()))"
  by (cases "nd_foreach nd"; cases "nd_matrix nd")
    (auto simp: validate_dynamic_fanout_def rbind_eq_Inr foreach_fanout_def matrix_fanout_def
      dest!: validate_foreach_like_ok [where spec = spec] validate_axes_ok)

lemma validate_node_ok:
  assumes "validate_node spec n nd subs = Inr ()"
  shows "node_ok spec nd"
    "\<And>w. nd_subworkflow nd = Some w \<Longrightarrow> subs ! 0 = Inr ()"
    "\<And>s w. nd_foreach nd = Some s \<Longrightarrow> fe_subworkflow s = Some w \<Longrightarrow> subs ! 1 = Inr ()"
    "\<And>s w. nd_matrix nd = Some s \<Longrightarrow> mx_subworkflow s = Some w \<Longrightarrow> subs ! 2 = Inr ()"
proof -
  from assms have v: "validate_dynamic_fanout n nd (wf_vars_schema spec) (subs ! 1) (subs ! 2) = Inr ()"
    "(if nd_subworkflow nd \<noteq> None then map_err (SubworkflowFailed n) (subs ! 0) else ok) = Inr ()"
    "\<not> (nd_actor nd \<noteq> [] \<and> nd_atom nd \<noteq> [])"
    "nd_atom nd \<noteq> [] \<longrightarrow> obj_has (wf_atom_bindings spec) (nd_atom nd)"
    "nd_sleep_ms nd \<noteq> Some 0"
    "nd_actor nd \<noteq> [] \<longrightarrow> obj_has (wf_actors spec) (nd_actor nd)"
    "\<forall>li. nd_late_inject nd = Some li \<longrightarrow> declared spec (li_from li)"
    "\<forall>s\<in>set (nd_wait_for nd). declared spec s"
    "validate_transition n (nd_next nd) spec = Inr ()"
    unfolding validate_node_def declared_def
    by (auto simp: rbind_eq_Inr check_opt_ok check_all_ok split: if_splits)
  note t = validate_transition_ok [OF v(9)]
  note f = validate_dynamic_fanout_ok [OF v(1), of spec]
  have "list_all (declared spec) (node_pushes nd)"
    using v(7,8) t by (auto simp: node_pushes_def list_all_iff split: option.splits)
  with v(3,4,5,6) t f show "node_ok spec nd"
    unfolding node_ok_def by (intro conjI) auto
  show "\<And>w. nd_subworkflow nd = Some w \<Longrightarrow> subs ! 0 = Inr ()"
    using v(2) by (cases "subs ! 0") (auto simp: map_err_def)
  show "\<And>s w. nd_foreach nd = Some s \<Longrightarrow> fe_subworkflow s = Some w \<Longrightarrow> subs ! 1 = Inr ()"
    "\<And>s w. nd_matrix nd = Some s \<Longrightarrow> mx_subworkflow s = Some w \<Longrightarrow> subs ! 2 = Inr ()"
    using f by blast+
qed

lemma compile_ok_nodes:
  assumes "compile_workflow w = Inr ()" "n \<in> set (wf_nodes w)"
  shows "validate_node w (fst n) (snd n)
    (map (\<lambda>sub. case sub of Some w \<Rightarrow> compile_workflow w | None \<Rightarrow> ok) (node_subs (snd n))) = Inr ()"
  using assms by (simp add: compile_workflow.simps [of w] rbind_eq_Inr check_all_ok)

lemma compile_ok_top: "compile_workflow w = Inr () \<Longrightarrow> workflow_ok w"
proof -
  assume c: "compile_workflow w = Inr ()"
  then have s: "obj_has (wf_nodes w) (wf_start w)" and g: "validate_graph w = Inr ()"
    by (simp_all add: compile_workflow.simps [of w] rbind_eq_Inr)
  from g have r: "\<forall>n\<in>set (wf_nodes w). fst n \<in> reachable_nodes w"
    and t: "\<exists>n\<in>set (wf_nodes w). nd_next (snd n) = Terminal"
    by (auto simp: validate_graph_def Let_def rbind_eq_Inr filter_empty_conv obj_keys_def list_ex_iff)
  show ?thesis
    using s r t compile_ok_nodes [OF c] validate_node_ok(1)
    unfolding workflow_ok_def declared_def reachable_nodes_eq by blast
qed

lemma compile_ok_subs:
  assumes c: "compile_workflow w = Inr ()" and n: "n \<in> set (wf_nodes w)"
    and sub: "Some w' \<in> set (node_subs (snd n))"
  shows "compile_workflow w' = Inr ()"
proof -
  note v = validate_node_ok [OF compile_ok_nodes [OF c n]]
  from sub consider "nd_subworkflow (snd n) = Some w'"
    | s where "nd_foreach (snd n) = Some s" "fe_subworkflow s = Some w'"
    | s where "nd_matrix (snd n) = Some s" "mx_subworkflow s = Some w'"
    by (cases "nd_foreach (snd n)"; cases "nd_matrix (snd n)") (auto simp: node_subs_def)
  then show ?thesis
    by cases (use v in \<open>auto simp: node_subs_def\<close>)
qed

lemma compile_ok_parts: "part_of v w \<Longrightarrow> compile_workflow w = Inr () \<Longrightarrow> workflow_ok v"
  by (induction rule: part_of.induct) (auto intro: compile_ok_top compile_ok_subs)

text \<open>Property C19. In a workflow that compiles, and in every workflow embedded in it, the start and every target of
  a transition, join or late injection is declared, every declared node is reachable, an end exists,
  fanouts stay within their bounds and no import shadows a per-item binding.\<close>

theorem compile_guarantees:
  assumes "compile_workflow w = Inr ()" "part_of v w"
  shows "workflow_ok v"
  using assms by (simp add: compile_ok_parts)

text \<open>A loop of two routing nodes with an exit.\<close>

definition blank_node :: "node_transition \<Rightarrow> workflow node_spec" where
  "blank_node t =
     NodeSpec [] [] None None None None Sync None None None None [] [] [] [] [] None None []
       None None None t"

definition sample_workflow :: workflow where
  "sample_workflow =
     Workflow ''w'' 1 [] []
       [(''a'', blank_node (Goto ''b'')),
        (''b'', blank_node (Branch GateVerdict [(''again'', ''a'')] (Some ''c''))),
        (''c'', blank_node Terminal)]
       ''a'' None None [] []"

lemma sample_compile_ok: "compile_workflow sample_workflow = Inr ()"
proof -
  have n: "validate_node sample_workflow n (blank_node t) rs = validate_transition n t sample_workflow" for n t rs
    by (simp add: validate_node_def blank_node_def validate_dynamic_fanout_def check_opt_def ok_def guard_err_def)
  have "reachable_nodes sample_workflow = {''a'', ''b'', ''c''}"
    by (simp add: reachable_nodes_def sample_workflow_def pushes_def node_pushes_def next_targets_def
        blank_node_def insert_commute)
  moreover have "wf_nodes sample_workflow =
      [(''a'', blank_node (Goto ''b'')),
       (''b'', blank_node (Branch GateVerdict [(''again'', ''a'')] (Some ''c''))),
       (''c'', blank_node Terminal)]" "wf_start sample_workflow = ''a''" "wf_atom_bindings sample_workflow = []"
    by (simp_all add: sample_workflow_def)
  moreover have "nd_next (blank_node t) = t" for t by (simp add: blank_node_def)
  ultimately show ?thesis
    by (simp add: compile_workflow.simps [of sample_workflow] n validate_transition_def validate_graph_def
        Let_def obj_has_def obj_keys_def check_opt_def guard_err_def ok_def)
qed

theorem compile_guarantees_witness: "workflow_ok sample_workflow"
  by (rule compile_guarantees [OF sample_compile_ok part_refl])

section \<open>Atom references round trip\<close>

lemma rsplit_onceD: "rsplit_once d s = Some (a, b) \<Longrightarrow> s = a @ d @ b"
proof (induction s arbitrary: a)
  case (Cons c cs)
  show ?case
  proof (cases "rsplit_once d cs")
    case None
    with Cons.prems show ?thesis by (auto simp: strip_prefix_Some split: option.splits)
  next
    case (Some ab)
    with Cons show ?thesis by (cases ab) auto
  qed
qed simp

text \<open>A delimiter whose first character does not occur later is found at its place.\<close>

lemma rsplit_once_none: "c \<notin> set t \<Longrightarrow> rsplit_once (c # d) t = None"
  by (induction t) auto

lemma rsplit_once_at: "c \<notin> set (d @ b) \<Longrightarrow> rsplit_once (c # d) (a @ (c # d) @ b) = Some (a, b)"
  by (induction a) (simp_all add: rsplit_once_none strip_prefix_append)

lemma show_nat_digits: "c \<in> set (show_nat n) \<Longrightarrow> 48 \<le> (of_char c :: nat) \<and> (of_char c :: nat) \<le> 57"
proof (induction n rule: show_nat.induct)
  case (1 n)
  have d: "48 \<le> (of_char (char_of (48 + m) :: char) :: nat) \<and> (of_char (char_of (48 + m) :: char) :: nat) \<le> 57"
    if "m < 10" for m :: nat
    using of_char_digit [OF that] that by simp
  show ?case
  proof (cases "n < 10")
    case True
    then have "show_nat n = [char_of (48 + n)]" using show_nat.simps [of n] by simp
    with 1(2) have "c = char_of (48 + n)" by (simp only: list.set singleton_iff)
    with d [OF True] show ?thesis by (simp only:)
  next
    case False
    then have "show_nat n = show_nat (n div 10) @ [char_of (48 + n mod 10)]"
      using show_nat.simps [of n] by simp
    with 1(2) have "c \<in> set (show_nat (n div 10)) \<or> c = char_of (48 + n mod 10)"
      by (simp only: set_append list.set Un_iff singleton_iff)
    moreover have "n mod 10 < 10" by simp
    ultimately show ?thesis using 1(1) [OF False] d [of "n mod 10"] by metis
  qed
qed

lemma show_nat_ne [simp]: "show_nat n \<noteq> []"
  using show_nat_head [of n] by auto

lemma trim_render: "trim (render_atom_ref r) = render_atom_ref r"
proof (cases "ar_version r")
  case (Pinned v)
  obtain ds d where sn: "show_nat (unat v) = ds @ [d]"
    using show_nat_ne by (meson rev_exhaust)
  have d: "48 \<le> (of_char d :: nat) \<and> (of_char d :: nat) \<le> 57"
    using show_nat_digits [of d "unat v"] sn by simp
  have "render_atom_ref r = CHR ''a'' # (''tom:'' @ ar_name r @ ''@v'' @ ds) @ [d]"
    by (simp add: render_atom_ref_def Pinned sn)
  with d trim_id [of d "CHR ''a''" "''tom:'' @ ar_name r @ ''@v'' @ ds"] show ?thesis by simp
next
  case Latest
  have "render_atom_ref r = CHR ''a'' # (''tom:'' @ ar_name r @ ''@lates'') @ [CHR ''t'']"
    by (simp add: render_atom_ref_def Latest)
  with trim_id [of "CHR ''t''" "CHR ''a''" "''tom:'' @ ar_name r @ ''@lates''"] show ?thesis by simp
qed

definition valid_ref :: "atom_ref \<Rightarrow> bool" where
  "valid_ref r \<longleftrightarrow> ar_name r \<noteq> [] \<and> CHR '':'' \<notin> set (ar_name r) \<and> ar_version r \<noteq> Pinned 0"

lemma parse_u32_bound: "parse_u32 s = Some n \<Longrightarrow> n < 2 ^ 32"
  by (auto simp: parse_u32_def parse_uint_def Let_def split: if_splits option.splits list.splits)

lemma parse_pinned_valid:
  assumes "parse_pinned rest = Some r" "CHR '':'' \<notin> set rest"
  shows "valid_ref r"
proof -
  obtain n ds m where s: "rsplit_once ''@v'' rest = Some (n, ds)" "n \<noteq> []" "parse_u32 ds = Some m" "m \<noteq> 0"
    and r: "r = \<lparr>ar_name = n, ar_version = Pinned (word_of_nat m)\<rparr>"
    using assms(1) by (auto simp: parse_pinned_def split: option.splits prod.splits if_splits)
  have "CHR '':'' \<notin> set n" using rsplit_onceD [OF s(1)] assms(2) by auto
  moreover have "(word_of_nat m :: u32) \<noteq> 0"
    using parse_u32_bound [OF s(3)] s(4) by (auto simp: word_of_nat_eq_0_iff dest: dvd_imp_le)
  ultimately show ?thesis using s(2) by (simp add: valid_ref_def r)
qed

lemma parse_valid: "parse_atom_ref s = Some r \<Longrightarrow> valid_ref r"
  by (auto simp: parse_atom_ref_def valid_ref_def split: option.splits if_splits prod.splits
      dest!: rsplit_onceD dest: parse_pinned_valid)

lemma parse_render: "valid_ref r \<Longrightarrow> parse_atom_ref (render_atom_ref r) = Some r"
proof -
  assume v: "valid_ref r"
  show ?thesis
  proof (cases "ar_version r")
    case (Pinned w)
    let ?ds = "show_nat (unat w)"
    have dig: "CHR ''@'' \<notin> set ?ds" "CHR '':'' \<notin> set ?ds"
      using show_nat_digits [of _ "unat w"] by fastforce+
    have rest: "strip_prefix ''atom:'' (render_atom_ref r) = Some (ar_name r @ ''@v'' @ ?ds)"
      by (simp add: render_atom_ref_def Pinned)
    have at: "rsplit_once ''@'' (ar_name r @ ''@v'' @ ?ds) = Some (ar_name r, ''v'' @ ?ds)"
      using rsplit_once_at [of "CHR ''@''" "[]" "''v'' @ ?ds" "ar_name r"] dig by simp
    have atv: "rsplit_once ''@v'' (ar_name r @ ''@v'' @ ?ds) = Some (ar_name r, ?ds)"
      using rsplit_once_at [of "CHR ''@''" "''v''" ?ds "ar_name r"] dig by simp
    have "unat w < 2 ^ 32" using unsigned_less [of w] by simp
    then have p: "parse_u32 ?ds = Some (unat w)" unfolding parse_u32_def by (rule parse_uint_show_nat)
    have "unat w \<noteq> 0" using v Pinned by (simp add: valid_ref_def unsigned_eq_0_iff)
    then have "parse_pinned (ar_name r @ ''@v'' @ ?ds) = Some r"
      using v Pinned unfolding parse_pinned_def atv by (cases r) (simp add: p valid_ref_def)
    moreover have "CHR '':'' \<notin> set (ar_name r @ ''@v'' @ ?ds)"
      using v dig by (simp add: valid_ref_def)
    ultimately show ?thesis unfolding parse_atom_ref_def trim_render rest option.case at by simp
  next
    case Latest
    have rest: "strip_prefix ''atom:'' (render_atom_ref r) = Some (ar_name r @ ''@latest'')"
      by (simp add: render_atom_ref_def Latest)
    have at: "rsplit_once ''@'' (ar_name r @ ''@latest'') = Some (ar_name r, ''latest'')"
      using rsplit_once_at [of "CHR ''@''" "[]" "''latest''" "ar_name r"] by simp
    have "CHR '':'' \<notin> set (ar_name r @ ''@latest'')" using v by (simp add: valid_ref_def)
    then show ?thesis
      using v Latest unfolding parse_atom_ref_def trim_render rest option.case at
      by (cases r) (simp add: valid_ref_def)
  qed
qed

text \<open>An atom reference survives rendering and parsing exactly when its name is not empty and has no
  colon and its version is not zero, and only such references are ever parsed.\<close>

theorem atom_ref_roundtrip:
  "(parse_atom_ref (render_atom_ref r) = Some r \<longleftrightarrow>
      ar_name r \<noteq> [] \<and> CHR '':'' \<notin> set (ar_name r) \<and> ar_version r \<noteq> Pinned 0) \<and>
   (case parse_atom_ref s of None \<Rightarrow> True | Some q \<Rightarrow> parse_atom_ref (render_atom_ref q) = Some q)"
  using parse_valid parse_render [unfolded valid_ref_def] parse_render
  by (auto simp: valid_ref_def split: option.splits)

end
