(* ===== verification/Workflow_Context.thy ===== *)
theory Workflow_Context
  imports Workflow_Compile
begin

text \<open>
  The context an arc carries (\<open>src/src/workflow/context.rs\<close>), its templates
  (\<open>src/src/system_events/template.rs\<close>) and the selectors of \<open>src/src/workflow/extractor.rs\<close>.
  A string is the list of its UTF-8 bytes. The text form of a JSON value is the library's and the
  process environment is the outside's: both are fields of \<open>wf_lib\<close>.
\<close>

record wf_lib =
  wl_show :: "json \<Rightarrow> string"
  wl_env :: "string \<Rightarrow> string option"

section \<open>The context\<close>

record arc_meta =
  me_arc_id :: string
  me_workflow_name :: string
  me_workflow_version :: u32
  me_started_at :: string
  me_project_dir :: "string option"
  me_worktree :: "string option"
  me_arc_outcome :: "string option"
  me_parent_arc_id :: "string option"
  me_composition_depth :: u32

record signal_ref =
  sg_name :: string
  sg_payload :: json
  sg_correlation :: jmap
  sg_received_at :: string

record arc_context =
  cx_vars :: jmap
  cx_outputs :: "json smap"
  cx_actor_results :: "json smap"
  cx_meta :: arc_meta
  cx_last_signal :: "signal_ref option"
  cx_signal_history :: "signal_ref list"

definition new_context :: "arc_meta \<Rightarrow> arc_context" where
  "new_context m =
     \<lparr>cx_vars = [], cx_outputs = [], cx_actor_results = [], cx_meta = m, cx_last_signal = None,
      cx_signal_history = []\<rparr>"

fun kind_matches :: "var_kind \<Rightarrow> json \<Rightarrow> bool" where
  "kind_matches KAny v = True"
| "kind_matches KBool (JBool b) = True"
| "kind_matches KInt (JNum n) = num_is_int n"
| "kind_matches KFloat (JNum n) = True"
| "kind_matches KString (JStr s) = True"
| "kind_matches KArray (JArr a) = True"
| "kind_matches KObject (JObj m) = True"
| "kind_matches k JNull = True"
| "kind_matches k v = False"

fun value_kind_name :: "json \<Rightarrow> string" where
  "value_kind_name JNull = ''null''"
| "value_kind_name (JBool b) = ''bool''"
| "value_kind_name (JNum n) = (if num_is_int n then ''int'' else ''float'')"
| "value_kind_name (JStr s) = ''string''"
| "value_kind_name (JArr a) = ''array''"
| "value_kind_name (JObj m) = ''object''"

datatype var_error = VarRejected string var_kind string

definition record_actor_result :: "string \<Rightarrow> json \<Rightarrow> arc_context \<Rightarrow> arc_context" where
  "record_actor_result node_id v ctx =
     ctx\<lparr>cx_actor_results := obj_insert (cx_actor_results ctx) node_id v\<rparr>"

definition set_var ::
  "string \<Rightarrow> json \<Rightarrow> vars_schema option \<Rightarrow> arc_context \<Rightarrow> var_error + arc_context" where
  "set_var key v schema ctx =
     (case Option.bind schema (\<lambda>s. obj_get s key) of
        Some e \<Rightarrow>
          if \<not> kind_matches (ve_kind e) v then Inl (VarRejected key (ve_kind e) (value_kind_name v))
          else Inr (ctx\<lparr>cx_vars := obj_insert (cx_vars ctx) key v\<rparr>)
      | None \<Rightarrow> Inr (ctx\<lparr>cx_vars := obj_insert (cx_vars ctx) key v\<rparr>))"

text \<open>A failing seed leaves the entries before it written.\<close>

fun seed_vars ::
  "jmap \<Rightarrow> vars_schema option \<Rightarrow> arc_context \<Rightarrow> (var_error + unit) \<times> arc_context" where
  "seed_vars [] schema ctx = (ok, ctx)"
| "seed_vars ((k, v) # kvs) schema ctx =
     (case set_var k v schema ctx of
        Inl e \<Rightarrow> (Inl e, ctx)
      | Inr ctx' \<Rightarrow> seed_vars kvs schema ctx')"

definition missing_required_vars :: "vars_schema \<Rightarrow> arc_context \<Rightarrow> string list" where
  "missing_required_vars schema ctx =
     map fst (filter (\<lambda>(k, e). ve_required e \<and>
                (case obj_get (cx_vars ctx) k of None \<Rightarrow> True | Some v \<Rightarrow> v = JNull)) schema)"

definition set_output :: "string \<Rightarrow> json \<Rightarrow> arc_context \<Rightarrow> arc_context" where
  "set_output node_id v ctx = ctx\<lparr>cx_outputs := obj_insert (cx_outputs ctx) node_id v\<rparr>"

definition record_signal :: "signal_ref \<Rightarrow> arc_context \<Rightarrow> arc_context" where
  "record_signal sig ctx =
     ctx\<lparr>cx_last_signal := Some sig, cx_signal_history := cx_signal_history ctx @ [sig]\<rparr>"

definition clear_last_signal :: "arc_context \<Rightarrow> arc_context" where
  "clear_last_signal ctx = ctx\<lparr>cx_last_signal := None\<rparr>"

section \<open>The context as JSON\<close>

definition jopt_str :: "string option \<Rightarrow> json" where
  "jopt_str x = (case x of Some s \<Rightarrow> JStr s | None \<Rightarrow> JNull)"

definition meta_json :: "arc_meta \<Rightarrow> json" where
  "meta_json m =
     JObj [(''arc_id'', JStr (me_arc_id m)), (''workflow_name'', JStr (me_workflow_name m)),
           (''workflow_version'', JNum (NPos (ucast (me_workflow_version m)))),
           (''started_at'', JStr (me_started_at m)), (''project_dir'', jopt_str (me_project_dir m)),
           (''worktree'', jopt_str (me_worktree m)), (''arc_outcome'', jopt_str (me_arc_outcome m)),
           (''parent_arc_id'', jopt_str (me_parent_arc_id m)),
           (''composition_depth'', JNum (NPos (ucast (me_composition_depth m))))]"

definition signal_json :: "signal_ref \<Rightarrow> json" where
  "signal_json s =
     JObj [(''name'', JStr (sg_name s)), (''payload'', sg_payload s),
           (''correlation'', JObj (sg_correlation s)), (''received_at'', JStr (sg_received_at s))]"

definition last_signal_json :: "arc_context \<Rightarrow> json" where
  "last_signal_json ctx = (case cx_last_signal ctx of Some s \<Rightarrow> signal_json s | None \<Rightarrow> JNull)"

definition flatten :: "arc_context \<Rightarrow> json" where
  "flatten ctx =
     JObj [(''vars'', JObj (cx_vars ctx)), (''outputs'', JObj (cx_outputs ctx)),
           (''actor_results'', JObj (cx_actor_results ctx)), (''meta'', meta_json (cx_meta ctx)),
           (''last_signal'', last_signal_json ctx),
           (''signals_count'', JNum (num_of_nat (length (cx_signal_history ctx))))]"

definition flatten_for_gate :: "wf_lib \<Rightarrow> string \<Rightarrow> arc_context \<Rightarrow> json" where
  "flatten_for_gate lib node_id ctx =
     (let raw = (case obj_get (cx_outputs ctx) node_id of Some v \<Rightarrow> v | None \<Rightarrow> JNull);
          str_form = (case raw of JStr s \<Rightarrow> s | other \<Rightarrow> wl_show lib other)
      in JObj [(''vars'', JObj (cx_vars ctx)), (''outputs'', JObj (cx_outputs ctx)),
               (''actor_results'', JObj (cx_actor_results ctx)), (''meta'', meta_json (cx_meta ctx)),
               (''last_signal'', last_signal_json ctx), (''node_output'', JStr str_form),
               (''node_output_json'', raw), (''node_id'', JStr node_id)])"

section \<open>Templates\<close>

datatype unresolved_policy = LeaveVerbatim | HardError

fun split_close :: "string \<Rightarrow> (string \<times> string) option" where
  "split_close [] = None"
| "split_close (c # cs) =
     (if c = CHR ''}'' then Some ([], cs)
      else (case split_close cs of None \<Rightarrow> None | Some (e, rest) \<Rightarrow> Some (c # e, rest)))"

text \<open>\<open>out.push(bytes[i] as char)\<close>: the byte becomes the code point of that number, which takes
  two bytes of UTF-8 from 128 on.\<close>

definition push_byte :: "char \<Rightarrow> string" where
  "push_byte c =
     (let n = (of_char c :: nat)
      in if n < 128 then [c] else [char_of (192 + n div 64), char_of (128 + n mod 64)])"

definition value_to_template_string :: "wf_lib \<Rightarrow> json \<Rightarrow> string" where
  "value_to_template_string lib v =
     (case v of JStr s \<Rightarrow> s | JNull \<Rightarrow> [] | other \<Rightarrow> wl_show lib other)"

definition resolve_in_roots :: "wf_lib \<Rightarrow> string \<Rightarrow> jmap \<Rightarrow> json option" where
  "resolve_in_roots lib expr roots =
     (case split_on CHR ''.'' expr of
        [] \<Rightarrow> None
      | head # segs \<Rightarrow>
          if head = ''env''
          then (case segs of [name] \<Rightarrow> map_option JStr (wl_env lib name) | _ \<Rightarrow> None)
          else (case obj_get roots head of
                  Some root \<Rightarrow> walk_value root segs
                | None \<Rightarrow>
                    if segs = [''output'']
                    then (case obj_get roots ''outputs'' of
                            Some outputs \<Rightarrow> walk_value outputs [head]
                          | None \<Rightarrow> None)
                    else None))"

text \<open>The expression starting at a \<open>${\<close> and what follows its closing brace.\<close>

definition template_at :: "char \<Rightarrow> string \<Rightarrow> (string \<times> string) option" where
  "template_at c cs =
     (case cs of
        d # r \<Rightarrow> if c = CHR ''$'' \<and> d = CHR ''{'' then split_close r else None
      | [] \<Rightarrow> None)"

lemma split_close_Some: "split_close s = Some (e, r) \<longleftrightarrow> s = e @ ''}'' @ r \<and> CHR ''}'' \<notin> set e"
proof (induction s arbitrary: e)
  case (Cons c s)
  show ?case
  proof (cases e)
    case Nil
    then show ?thesis by (auto split: option.splits)
  next
    case (Cons d e')
    with Cons.IH [of e'] show ?thesis by (auto split: option.splits)
  qed
qed auto

lemma template_at_Some:
  "template_at c cs = Some (e, r) \<longleftrightarrow> c # cs = ''${'' @ e @ ''}'' @ r \<and> CHR ''}'' \<notin> set e"
  by (auto simp: template_at_def split_close_Some split: list.splits)

lemma template_at_less: "template_at c cs = Some (e, r) \<Longrightarrow> length r < Suc (length cs)"
  using template_at_Some [of c cs e r] by auto

function render_template_with_roots ::
  "wf_lib \<Rightarrow> jmap \<Rightarrow> unresolved_policy \<Rightarrow> string \<Rightarrow> string + string" where
  "render_template_with_roots lib roots unresolved [] = Inr []"
| "render_template_with_roots lib roots unresolved (c # cs) =
     (case template_at c cs of
        Some (expr, rest) \<Rightarrow>
          (case resolve_in_roots lib expr roots of
             Some v \<Rightarrow>
               rbind (render_template_with_roots lib roots unresolved rest) (\<lambda>t.
                 Inr (value_to_template_string lib v @ t))
           | None \<Rightarrow>
               (case unresolved of
                  LeaveVerbatim \<Rightarrow>
                    rbind (render_template_with_roots lib roots unresolved rest) (\<lambda>t.
                      Inr (''${'' @ expr @ ''}'' @ t))
                | HardError \<Rightarrow> Inl expr))
      | None \<Rightarrow>
          rbind (render_template_with_roots lib roots unresolved cs) (\<lambda>t. Inr (push_byte c @ t)))"
  by pat_completeness auto
termination
  by (relation "measure (\<lambda>(_, _, _, s). length s)") (auto dest: template_at_less)

definition template_roots :: "arc_context \<Rightarrow> jmap" where
  "template_roots ctx =
     [(''vars'', JObj (cx_vars ctx)), (''outputs'', JObj (cx_outputs ctx)),
      (''actor_results'', JObj (cx_actor_results ctx)), (''meta'', meta_json (cx_meta ctx))] @
     (case cx_last_signal ctx of Some sig \<Rightarrow> [(''last_signal'', signal_json sig)] | None \<Rightarrow> [])"

definition render_template :: "wf_lib \<Rightarrow> arc_context \<Rightarrow> string \<Rightarrow> string" where
  "render_template lib ctx t =
     (case render_template_with_roots lib (template_roots ctx) LeaveVerbatim t of
        Inr s \<Rightarrow> s
      | Inl e \<Rightarrow> t)"

definition node_value :: "json smap \<Rightarrow> string list \<Rightarrow> json option" where
  "node_value m segs =
     (case segs of
        [] \<Rightarrow> Some (JObj m)
      | node # path \<Rightarrow> (case obj_get m node of None \<Rightarrow> None | Some raw \<Rightarrow> walk_value raw path))"

definition resolve :: "wf_lib \<Rightarrow> arc_context \<Rightarrow> string \<Rightarrow> json option" where
  "resolve lib ctx expr =
     (case split_on CHR ''.'' expr of
        [] \<Rightarrow> None
      | head # segs \<Rightarrow>
          if head = ''vars'' then walk_value (JObj (cx_vars ctx)) segs
          else if head = ''outputs'' then node_value (cx_outputs ctx) segs
          else if head = ''actor_results'' then node_value (cx_actor_results ctx) segs
          else if head = ''meta'' then walk_value (meta_json (cx_meta ctx)) segs
          else if head = ''last_signal''
            then (case cx_last_signal ctx of None \<Rightarrow> None | Some s \<Rightarrow> walk_value (signal_json s) segs)
          else if head = ''env''
            then (case segs of [name] \<Rightarrow> map_option JStr (wl_env lib name) | _ \<Rightarrow> None)
          else if segs = [''output''] then obj_get (cx_outputs ctx) head
          else None)"

text \<open>A whole-string template: \<open>${\<close>, an expression without a closing brace, \<open>}\<close>.\<close>

definition whole_template :: "string \<Rightarrow> string option" where
  "whole_template trimmed =
     (case strip_prefix ''${'' trimmed of
        None \<Rightarrow> None
      | Some r \<Rightarrow> (case split_close r of Some (e, []) \<Rightarrow> Some e | _ \<Rightarrow> None))"

function resolve_arg_value :: "wf_lib \<Rightarrow> arc_context \<Rightarrow> json \<Rightarrow> string + json" where
  "resolve_arg_value lib ctx JNull = Inr JNull"
| "resolve_arg_value lib ctx (JBool b) = Inr (JBool b)"
| "resolve_arg_value lib ctx (JNum n) = Inr (JNum n)"
| "resolve_arg_value lib ctx (JStr s) =
     (case whole_template (trim s) of
        Some expr \<Rightarrow> (case resolve lib ctx expr of Some v \<Rightarrow> Inr v | None \<Rightarrow> Inl expr)
      | None \<Rightarrow> Inr (JStr (render_template lib ctx s)))"
| "resolve_arg_value lib ctx (JArr items) =
     rbind (map_result (resolve_arg_value lib ctx) items) (\<lambda>vs. Inr (JArr vs))"
| "resolve_arg_value lib ctx (JObj m) =
     rbind (map_result (\<lambda>p. rbind (resolve_arg_value lib ctx (snd p)) (\<lambda>v. Inr (fst p, v))) m)
       (\<lambda>kvs. Inr (JObj kvs))"
  by pat_completeness auto
termination
proof (relation "measure (\<lambda>(_, _, v). size v)")
  fix lib :: wf_lib and ctx :: arc_context and items :: "json list" and x
  assume "x \<in> set items"
  then show "((lib, ctx, x), lib, ctx, JArr items) \<in> measure (\<lambda>(_, _, v). size v)"
    by (simp add: size_elem_mem)
next
  fix lib :: wf_lib and ctx :: arc_context and m :: jmap and p
  assume "p \<in> set m"
  then show "((lib, ctx, snd p), lib, ctx, JObj m) \<in> measure (\<lambda>(_, _, v). size v)"
    using size_snd_mem by fastforce
qed simp

section \<open>Selectors\<close>

definition walk_path :: "json \<Rightarrow> string \<Rightarrow> json option" where
  "walk_path input raw_path =
     (let trimmed = (case strip_prefix ''$.'' raw_path of Some r \<Rightarrow> r | None \<Rightarrow> raw_path);
          trimmed = (case strip_prefix ''.'' trimmed of Some r \<Rightarrow> r | None \<Rightarrow> trimmed)
      in if trimmed = [] then Some input else walk_value input (split_on CHR ''.'' trimmed))"

definition first_non_null :: "json list \<Rightarrow> json" where
  "first_non_null vs = (case find (\<lambda>v. v \<noteq> JNull) vs of Some v \<Rightarrow> v | None \<Rightarrow> JNull)"

fun evaluate :: "wf_lib \<Rightarrow> selector \<Rightarrow> json \<Rightarrow> json" where
  "evaluate lib (JsonPath path) input =
     (case walk_path input path of Some v \<Rightarrow> v | None \<Rightarrow> JNull)"
| "evaluate lib (Const v) input = v"
| "evaluate lib (Default inner fallback) input =
     (let v = evaluate lib inner input in if v = JNull then fallback else v)"
| "evaluate lib (Concat parts) input =
     JStr (concat (map (\<lambda>p. value_to_template_string lib (evaluate lib p input)) parts))"
| "evaluate lib (Coalesce sources) input =
     first_non_null (map (\<lambda>p. evaluate lib p input) sources)"

definition extract_outputs :: "wf_lib \<Rightarrow> selector smap \<Rightarrow> json \<Rightarrow> json" where
  "extract_outputs lib outputs input = JObj (map (\<lambda>(k, sel). (k, evaluate lib sel input)) outputs)"


section \<open>Templates never fail silently\<close>

lemma push_byte_ascii: "(of_char c :: nat) < 128 \<Longrightarrow> push_byte c = [c]"
  by (simp add: push_byte_def Let_def)

lemma push_byte_length: "length (push_byte c) = (if (of_char c :: nat) < 128 then 1 else 2)"
  by (simp add: push_byte_def Let_def)

definition ascii :: "string \<Rightarrow> bool" where
  "ascii s = list_all (\<lambda>c. (of_char c :: nat) < 128) s"

definition has_template :: "string \<Rightarrow> bool" where
  "has_template s = (\<exists>a e b. s = a @ ''${'' @ e @ ''}'' @ b)"

lemma template_at_None: "\<not> has_template (c # cs) \<Longrightarrow> template_at c cs = None"
proof (rule ccontr)
  assume *: "\<not> has_template (c # cs)" "template_at c cs \<noteq> None"
  then obtain e r where "c # cs = ''${'' @ e @ ''}'' @ r" by (auto simp: template_at_Some)
  then have "c # cs = [] @ ''${'' @ e @ ''}'' @ r" by simp
  with *(1) show False unfolding has_template_def by blast
qed

lemma has_template_Cons: "has_template cs \<Longrightarrow> has_template (c # cs)"
  unfolding has_template_def by (metis append_Cons)

lemma render_plain:
  "\<not> has_template t \<Longrightarrow> render_template_with_roots lib roots pol t = Inr (concat (map push_byte t))"
proof (induction t)
  case (Cons c t)
  then have "\<not> has_template t" using has_template_Cons by blast
  with Cons show ?case by (simp add: template_at_None)
qed simp

lemma push_bytes_id: "concat (map push_byte t) = t \<longleftrightarrow> ascii t"
proof
  assume "ascii t"
  then show "concat (map push_byte t) = t"
    by (induction t) (simp_all add: ascii_def push_byte_ascii)
next
  assume "concat (map push_byte t) = t"
  then have "length (concat (map push_byte t)) = length t" by simp
  moreover have "length (concat (map push_byte t)) = length t + length (filter (\<lambda>c. \<not> (of_char c :: nat) < 128) t)"
    by (induction t) (auto simp: push_byte_length)
  ultimately have "filter (\<lambda>c. \<not> (of_char c :: nat) < 128) t = []" by simp
  then show "ascii t" by (auto simp: ascii_def list_all_iff filter_empty_conv)
qed

text \<open>A text without a template expression is rendered to itself exactly when it is ASCII: a byte of
  128 or more is pushed as a character of its own and becomes two bytes.\<close>

theorem template_plain_text:
  assumes "\<not> has_template t"
  shows "render_template_with_roots lib roots pol t = Inr t \<longleftrightarrow> ascii t"
  using render_plain [OF assms, of lib roots pol] push_bytes_id [of t] by simp

theorem template_plain_text_witness:
  "render_template_with_roots \<lparr>wl_show = \<lambda>_. [], wl_env = \<lambda>_. None\<rparr> [] LeaveVerbatim [CHR 0xC3, CHR 0xA9]
     \<noteq> Inr [CHR 0xC3, CHR 0xA9]"
proof -
  have "\<not> has_template [CHR 0xC3, CHR 0xA9]"
    by (auto simp: has_template_def Cons_eq_append_conv)
  from template_plain_text [OF this, of "\<lparr>wl_show = \<lambda>_. [], wl_env = \<lambda>_. None\<rparr>" "[]" LeaveVerbatim]
  show ?thesis by (simp add: ascii_def)
qed

lemma split_two: "split_on d s = [a, b] \<longleftrightarrow> s = a @ d # b \<and> d \<notin> set a \<and> d \<notin> set b"
proof
  assume *: "split_on d s = [a, b]"
  have "s = join_with [d] (split_on d s)" by simp
  then have "s = a @ d # b" by (simp add: *)
  moreover have "d \<notin> set a" "d \<notin> set b" using split_on_no_sep [of _ d s] * by auto
  ultimately show "s = a @ d # b \<and> d \<notin> set a \<and> d \<notin> set b" by blast
next
  assume *: "s = a @ d # b \<and> d \<notin> set a \<and> d \<notin> set b"
  then have b: "split_on d b = [b]" by (simp add: split_on_id)
  have "split_on d (a @ d # b) = [a, b]" if "d \<notin> set a"
    using that by (induction a) (auto simp: b)
  with * show "split_on d s = [a, b]" by blast
qed

lemma node_value_walk: "node_value m segs = walk_value (JObj m) segs"
  by (cases segs) (simp_all add: node_value_def)

lemma resolve_in_context:
  "resolve_in_roots lib expr (template_roots ctx) =
     (if cx_last_signal ctx = None \<and> expr = ''last_signal.output''
      then obj_get (cx_outputs ctx) ''last_signal'' else resolve lib ctx expr)"
proof -
  obtain h segs where hs: "split_on CHR ''.'' expr = h # segs"
    by (meson neq_Nil_conv split_on_ne)
  have ls: "expr = ''last_signal.output'' \<longleftrightarrow> h = ''last_signal'' \<and> segs = [''output'']"
    using split_two [of "CHR ''.''" expr "''last_signal''" "''output''"] hs by auto
  show ?thesis
    unfolding resolve_in_roots_def resolve_def hs ls
    by (auto simp: template_roots_def node_value_walk split: option.splits)
qed

text \<open>The template renderer and the argument resolver read an expression the same way, except for
  \<open>last_signal.output\<close> while no signal is recorded, which the renderer takes for the output of a node
  of that name.\<close>

theorem renderer_agrees_with_resolver:
  "resolve_in_roots lib expr (template_roots ctx) =
     (if cx_last_signal ctx = None \<and> expr = ''last_signal.output''
      then obj_get (cx_outputs ctx) ''last_signal'' else resolve lib ctx expr)"
  by (rule resolve_in_context)

section \<open>Arguments keep their JSON type\<close>

lemma render_verbatim_total: "\<exists>s. render_template_with_roots lib roots LeaveVerbatim t = Inr s"
proof (induction t rule: length_induct)
  case (1 t)
  show ?case
  proof (cases t)
    case (Cons c cs)
    show ?thesis
    proof (cases "template_at c cs")
      case None
      with 1 Cons show ?thesis by (fastforce simp: rbind_def)
    next
      case (Some p)
      obtain e r where p: "p = (e, r)" by force
      with Some have "length r < length t" using template_at_less Cons by simp
      with 1 obtain s where "render_template_with_roots lib roots LeaveVerbatim r = Inr s" by blast
      with Some p Cons show ?thesis by (cases "resolve_in_roots lib e roots") simp_all
    qed
  qed simp
qed

lemma whole_template_Some:
  "whole_template t = Some e \<longleftrightarrow> t = ''${'' @ e @ ''}'' \<and> CHR ''}'' \<notin> set e"
proof -
  have "whole_template t = Some e \<longleftrightarrow> (\<exists>r. strip_prefix ''${'' t = Some r \<and> split_close r = Some (e, []))"
    by (auto simp: whole_template_def split: option.splits prod.splits list.splits)
  also have "\<dots> \<longleftrightarrow> t = ''${'' @ e @ ''}'' \<and> CHR ''}'' \<notin> set e"
    by (auto simp: strip_prefix_Some split_close_Some)
  finally show ?thesis .
qed

lemma trim_template: "trim (''${'' @ e @ ''}'') = ''${'' @ e @ ''}''"
  using trim_id [of "CHR ''}''" "CHR ''$''" "CHR ''{'' # e"] by simp

text \<open>The strings of a value.\<close>

function strings_of :: "json \<Rightarrow> string list" where
  "strings_of JNull = []"
| "strings_of (JBool b) = []"
| "strings_of (JNum n) = []"
| "strings_of (JStr s) = [s]"
| "strings_of (JArr xs) = concat (map strings_of xs)"
| "strings_of (JObj m) = concat (map (\<lambda>p. strings_of (snd p)) m)"
  by pat_completeness auto
termination
proof (relation "measure size")
  fix xs :: "json list" and x
  assume "x \<in> set xs"
  then show "(x, JArr xs) \<in> measure size" by (simp add: size_elem_mem)
next
  fix m :: jmap and p
  assume "p \<in> set m"
  then show "(snd p, JObj m) \<in> measure size" using size_snd_mem by fastforce
qed simp

lemma resolve_plain_string:
  assumes "\<not> has_template s" "ascii s"
  shows "resolve_arg_value lib ctx (JStr s) = Inr (JStr s)"
proof -
  have "whole_template (trim s) = None"
  proof (rule ccontr)
    assume "whole_template (trim s) \<noteq> None"
    then obtain e where "trim s = ''${'' @ e @ ''}''" by (auto simp: whole_template_Some)
    moreover obtain a b where "s = a @ trim s @ b" using trim_infix by metis
    ultimately have "s = a @ ''${'' @ e @ ''}'' @ b" by simp
    with assms(1) show False unfolding has_template_def by blast
  qed
  with assms render_plain [OF assms(1)] push_bytes_id [of s] show ?thesis
    by (simp add: render_template_def)
qed

lemma resolve_plain:
  "\<forall>s\<in>set (strings_of v). \<not> has_template s \<and> ascii s \<Longrightarrow> resolve_arg_value lib ctx v = Inr v"
proof (induction v rule: strings_of.induct)
  case (4 s)
  then show ?case using resolve_plain_string by simp
next
  case (5 xs)
  then have "map_result (resolve_arg_value lib ctx) xs = Inr (map id xs)"
    by (intro map_result_all) auto
  then show ?case by simp
next
  case (6 m)
  have "resolve_arg_value lib ctx (snd p) = Inr (snd p)" if "p \<in> set m" for p
    using 6(1) [OF that] 6(2) that by auto
  then have "map_result (\<lambda>p. rbind (resolve_arg_value lib ctx (snd p)) (\<lambda>v. Inr (fst p, v))) m = Inr (map id m)"
    by (intro map_result_all) simp
  then show ?case by simp
qed simp_all

text \<open>An argument that is one whole template keeps the JSON type of what it names and fails when it
  names nothing; arguments without templates pass unchanged.\<close>

theorem arguments_keep_type:
  "(CHR ''}'' \<notin> set e \<longrightarrow>
      resolve_arg_value lib ctx (JStr (''${'' @ e @ ''}'')) =
        (case resolve lib ctx e of Some v \<Rightarrow> Inr v | None \<Rightarrow> Inl e)) \<and>
   ((\<forall>s\<in>set (strings_of v). \<not> has_template s \<and> ascii s) \<longrightarrow> resolve_arg_value lib ctx v = Inr v)"
proof -
  have "whole_template (trim (''${'' @ e @ ''}'')) = Some e" if "CHR ''}'' \<notin> set e"
    unfolding trim_template using whole_template_Some that by blast
  then show ?thesis using resolve_plain by simp
qed

definition sample_meta :: arc_meta where
  "sample_meta =
     \<lparr>me_arc_id = ''arc-1'', me_workflow_name = ''w'', me_workflow_version = 1, me_started_at = ''t0'',
      me_project_dir = None, me_worktree = None, me_arc_outcome = None, me_parent_arc_id = None,
      me_composition_depth = 0\<rparr>"

definition sample_wf_lib :: wf_lib where
  "sample_wf_lib = \<lparr>wl_show = \<lambda>_. ''?'', wl_env = \<lambda>_. None\<rparr>"

theorem arguments_keep_type_witness:
  "resolve_arg_value sample_wf_lib (new_context sample_meta) (JStr ''${meta.composition_depth}'') =
     Inr (JNum (NPos 0)) \<and>
   resolve_arg_value sample_wf_lib (new_context sample_meta) (JArr [JNull, JStr ''a'']) =
     Inr (JArr [JNull, JStr ''a''])"
proof -
  note * = arguments_keep_type [of "''meta.composition_depth''" sample_wf_lib "new_context sample_meta"
      "JArr [JNull, JStr ''a'']"]
  have "resolve sample_wf_lib (new_context sample_meta) ''meta.composition_depth'' = Some (JNum (NPos 0))"
    by (simp add: resolve_def new_context_def sample_meta_def meta_json_def)
  moreover have "\<not> has_template ''a''" by (auto simp: has_template_def Cons_eq_append_conv)
  ultimately show ?thesis using * by (simp add: ascii_def)
qed

section \<open>Variables obey their schema\<close>

definition vars_ok :: "vars_schema option \<Rightarrow> arc_context \<Rightarrow> bool" where
  "vars_ok schema ctx =
     (\<forall>k v e. obj_get (cx_vars ctx) k = Some v \<longrightarrow> Option.bind schema (\<lambda>s. obj_get s k) = Some e \<longrightarrow>
        kind_matches (ve_kind e) v)"

lemma set_var_iff:
  "set_var k v schema ctx = Inr ctx' \<longleftrightarrow>
     (\<forall>e. Option.bind schema (\<lambda>s. obj_get s k) = Some e \<longrightarrow> kind_matches (ve_kind e) v) \<and>
     ctx' = ctx\<lparr>cx_vars := obj_insert (cx_vars ctx) k v\<rparr>"
  by (auto simp: set_var_def split: option.splits)

lemma set_var_ok: "vars_ok schema ctx \<Longrightarrow> set_var k v schema ctx = Inr ctx' \<Longrightarrow> vars_ok schema ctx'"
  by (auto simp: set_var_iff vars_ok_def)

lemma seed_vars_ok: "vars_ok schema ctx \<Longrightarrow> vars_ok schema (snd (seed_vars kvs schema ctx))"
  by (induction kvs schema ctx rule: seed_vars.induct) (auto split: sum.splits dest: set_var_ok)

lemma seed_vars_done:
  "seed_vars kvs schema ctx = (Inr u, ctx') \<Longrightarrow> cx_vars ctx' = om.ins_all (cx_vars ctx) kvs"
  by (induction kvs schema ctx rule: seed_vars.induct)
    (auto simp: om.ins_all_def ok_def set_var_iff split: sum.splits)

lemma missing_iff:
  "missing_required_vars schema ctx = [] \<longleftrightarrow>
     (\<forall>(k, e)\<in>set schema. ve_required e \<longrightarrow> (\<exists>v. obj_get (cx_vars ctx) k = Some v \<and> v \<noteq> JNull))"
  by (auto simp: missing_required_vars_def filter_empty_conv split: option.splits)

definition conforms :: "vars_schema option \<Rightarrow> string \<Rightarrow> json \<Rightarrow> bool" where
  "conforms schema k v =
     (case Option.bind schema (\<lambda>s. obj_get s k) of
        Some e \<Rightarrow> kind_matches (ve_kind e) v
      | None \<Rightarrow> True)"

lemma seed_vars_iff: "fst (seed_vars kvs schema ctx) = Inr () \<longleftrightarrow> (\<forall>(k, v)\<in>set kvs. conforms schema k v)"
  by (induction kvs schema ctx rule: seed_vars.induct)
    (auto simp: conforms_def set_var_def ok_def split: option.splits)

text \<open>Seeding variables keeps every variable at a value of its declared kind, even when an entry is
  rejected half way; it succeeds exactly when every seed conforms, and then every seed is in place.\<close>

theorem seeding_respects_schema:
  assumes "vars_ok schema ctx" "map_wf kvs"
  shows "vars_ok schema (snd (seed_vars kvs schema ctx)) \<and>
    (fst (seed_vars kvs schema ctx) = Inr () \<longleftrightarrow> (\<forall>(k, v)\<in>set kvs. conforms schema k v)) \<and>
    (fst (seed_vars kvs schema ctx) = Inr () \<longrightarrow>
       (\<forall>(k, v)\<in>set kvs. obj_get (cx_vars (snd (seed_vars kvs schema ctx))) k = Some v))"
proof (intro conjI impI)
  show "vars_ok schema (snd (seed_vars kvs schema ctx))" by (rule seed_vars_ok [OF assms(1)])
  show "fst (seed_vars kvs schema ctx) = Inr () \<longleftrightarrow> (\<forall>(k, v)\<in>set kvs. conforms schema k v)"
    by (rule seed_vars_iff)
  assume "fst (seed_vars kvs schema ctx) = Inr ()"
  then have "cx_vars (snd (seed_vars kvs schema ctx)) = om.ins_all (cx_vars ctx) kvs"
    using seed_vars_done by (metis prod.collapse)
  then show "\<forall>(k, v)\<in>set kvs. obj_get (cx_vars (snd (seed_vars kvs schema ctx))) k = Some v"
    using assms(2) om.get_ins_all by (auto simp: map_wf_def)
qed

theorem seeding_respects_schema_witness:
  "fst (seed_vars [(''n'', JStr ''x''), (''m'', JNull)] (Some [(''n'', \<lparr>ve_kind = KInt, ve_required = True\<rparr>)])
      (new_context sample_meta)) \<noteq> Inr ()"
proof -
  have "vars_ok (Some [(''n'', \<lparr>ve_kind = KInt, ve_required = True\<rparr>)]) (new_context sample_meta)"
    by (simp add: vars_ok_def new_context_def)
  moreover have "map_wf [(''n'', JStr ''x''), (''m'', JNull)]" by (simp add: map_wf_def)
  ultimately show ?thesis
    using seeding_respects_schema [of "Some [(''n'', \<lparr>ve_kind = KInt, ve_required = True\<rparr>)]"
        "new_context sample_meta" "[(''n'', JStr ''x''), (''m'', JNull)]"]
    by (simp add: conforms_def)
qed

end
