(* ===== verification/Workflow_Wait.thy ===== *)
theory Workflow_Wait
  imports Workflow_Context
begin

text \<open>
  The registry of suspended waits (\<open>src/src/workflow/wait.rs\<close>), the delivery of a signal
  (\<open>signal_arc_dispatch\<close> of \<open>src/src/server/routes.rs\<close>) and the two halves of a wait node around
  its suspension (\<open>src/src/workflow/engine/wait_nodes.rs\<close>). The waits of one node share one slot;
  a slot is a number, the pair of a cell for the signal and of a stored wake-up. What happens
  while the arc is suspended is a step relation.
\<close>

section \<open>Correlations\<close>

definition canonicalize_correlation :: "wf_lib \<Rightarrow> jmap \<Rightarrow> string" where
  "canonicalize_correlation lib raw = wl_show lib (JObj (sort_by (\<lambda>a b. fst a \<le> fst b) raw))"

definition matches_correlation :: "jmap \<Rightarrow> jmap \<Rightarrow> bool" where
  "matches_correlation wait signal =
     (if wait = [] then True
      else list_all (\<lambda>(k, v). case obj_get signal k of Some sv \<Rightarrow> json_eq sv v | None \<Rightarrow> False) wait)"

section \<open>The registry\<close>

record pending_wait =
  pd_arc_id :: string
  pd_wait_id :: string
  pd_signal :: string
  pd_correlation :: jmap
  pd_slot :: nat

fun take_first :: "('a \<Rightarrow> bool) \<Rightarrow> 'a list \<Rightarrow> ('a \<times> 'a list) option" where
  "take_first P [] = None"
| "take_first P (x # xs) =
     (if P x then Some (x, xs)
      else (case take_first P xs of None \<Rightarrow> None | Some (y, ys) \<Rightarrow> Some (y, x # ys)))"

definition register :: "pending_wait \<Rightarrow> pending_wait list \<Rightarrow> pending_wait list" where
  "register w pending = pending @ [w]"

definition match_and_take ::
  "string \<Rightarrow> jmap \<Rightarrow> pending_wait list \<Rightarrow> (pending_wait \<times> pending_wait list) option" where
  "match_and_take signal correlation =
     take_first (\<lambda>p. pd_signal p = signal \<and> matches_correlation (pd_correlation p) correlation)"

definition wait_key :: "pending_wait \<Rightarrow> string \<times> string" where
  "wait_key p = (pd_arc_id p, pd_wait_id p)"

definition take_exact ::
  "string \<Rightarrow> string \<Rightarrow> pending_wait list \<Rightarrow> (pending_wait \<times> pending_wait list) option" where
  "take_exact arc_id wait_id = take_first (\<lambda>p. wait_key p = (arc_id, wait_id))"

definition cancel_wait :: "string \<Rightarrow> string \<Rightarrow> pending_wait list \<Rightarrow> bool \<times> pending_wait list" where
  "cancel_wait arc_id wait_id pending =
     (case take_exact arc_id wait_id pending of
        Some (_, rest) \<Rightarrow> (True, rest)
      | None \<Rightarrow> (False, pending))"

definition snapshot_json :: "pending_wait \<Rightarrow> json" where
  "snapshot_json p =
     JObj [(''arc_id'', JStr (pd_arc_id p)), (''wait_id'', JStr (pd_wait_id p)),
           (''signal'', JStr (pd_signal p)), (''correlation'', JObj (pd_correlation p))]"

section \<open>Delivering a signal\<close>

record signal_event =
  sv_timestamp :: string
  sv_signal :: string
  sv_correlation :: jmap
  sv_outcome :: string
  sv_matched_arc_id :: "string option"
  sv_matched_wait_id :: "string option"
  sv_idle_pending :: "pending_wait list"

record wait_world =
  ww_pending :: "pending_wait list"
  ww_slots :: "nat \<Rightarrow> signal_ref option"
  ww_notified :: "nat \<Rightarrow> bool"
  ww_log :: "signal_event list"

definition signal_log_cap :: nat where
  "signal_log_cap = 200"

definition record_signal_event :: "signal_event \<Rightarrow> wait_world \<Rightarrow> wait_world" where
  "record_signal_event ev w =
     w\<lparr>ww_log := (if signal_log_cap \<le> length (ww_log w) then tl (ww_log w) else ww_log w) @ [ev]\<rparr>"

definition wake :: "nat \<Rightarrow> signal_ref \<Rightarrow> wait_world \<Rightarrow> wait_world" where
  "wake slot sig w =
     w\<lparr>ww_slots := (ww_slots w)(slot := Some sig), ww_notified := (ww_notified w)(slot := True)\<rparr>"

definition signal_arc_dispatch ::
  "string \<Rightarrow> string \<Rightarrow> jmap \<Rightarrow> json \<Rightarrow> wait_world \<Rightarrow> json \<times> wait_world" where
  "signal_arc_dispatch now signal correlation payload w =
     (let pending_before = filter (\<lambda>p. pd_signal p = signal) (ww_pending w) in
      case match_and_take signal correlation (ww_pending w) of
        None \<Rightarrow>
          (JObj [(''status'', JStr ''no_matching_wait''), (''signal'', JStr signal),
                 (''correlation'', JObj correlation),
                 (''pending_with_same_signal'', JArr (map snapshot_json pending_before))],
           record_signal_event
             \<lparr>sv_timestamp = now, sv_signal = signal, sv_correlation = correlation,
              sv_outcome = ''no_matching_wait'', sv_matched_arc_id = None,
              sv_matched_wait_id = None, sv_idle_pending = pending_before\<rparr> w)
      | Some (p, rest) \<Rightarrow>
          (JObj [(''status'', JStr ''wait_resolved''), (''arc_id'', JStr (pd_arc_id p)),
                 (''wait_id'', JStr (pd_wait_id p)), (''signal'', JStr signal)],
           wake (pd_slot p)
             \<lparr>sg_name = signal, sg_payload = payload, sg_correlation = correlation,
              sg_received_at = now\<rparr>
             (record_signal_event
               \<lparr>sv_timestamp = now, sv_signal = signal, sv_correlation = correlation,
                sv_outcome = ''matched'', sv_matched_arc_id = Some (pd_arc_id p),
                sv_matched_wait_id = Some (pd_wait_id p), sv_idle_pending = []\<rparr>
               (w\<lparr>ww_pending := rest\<rparr>))))"

section \<open>The wait node\<close>

definition wait_id :: "string \<Rightarrow> nat \<Rightarrow> string" where
  "wait_id node_id idx = node_id @ ''#'' @ show_nat idx"

definition wait_correlation :: "wf_lib \<Rightarrow> arc_context \<Rightarrow> wait_signal \<Rightarrow> jmap" where
  "wait_correlation lib ctx ws = map (\<lambda>(k, sel). (k, evaluate lib sel (flatten ctx))) (ws_correlate ws)"

definition node_waits ::
  "wf_lib \<Rightarrow> string \<Rightarrow> nat \<Rightarrow> arc_context \<Rightarrow> wait_spec \<Rightarrow> pending_wait list" where
  "node_waits lib node_id slot ctx spec =
     map (\<lambda>(idx, ws).
            \<lparr>pd_arc_id = me_arc_id (cx_meta ctx), pd_wait_id = wait_id node_id idx,
             pd_signal = ws_signal ws, pd_correlation = wait_correlation lib ctx ws,
             pd_slot = slot\<rparr>)
       (zip [0..<length (wt_any_of spec)] (wt_any_of spec))"

text \<open>An event of the journal: its correlation and its JSON form. The journal read is the event
  hub's: \<open>events signal\<close> is the list for that signal, \<open>None\<close> when the read fails.\<close>

type_synonym journal = "string \<Rightarrow> (jmap \<times> json) list option"

fun catch_up :: "string \<Rightarrow> journal \<Rightarrow> pending_wait list \<Rightarrow> wait_world \<Rightarrow> wait_world" where
  "catch_up now events [] w = w"
| "catch_up now events (p # ps) w =
     (case events (pd_signal p) of
        None \<Rightarrow> catch_up now events ps w
      | Some evs \<Rightarrow>
          (case find (\<lambda>e. matches_correlation (pd_correlation p) (fst e)) evs of
             None \<Rightarrow> catch_up now events ps w
           | Some e \<Rightarrow>
               (case take_exact (pd_arc_id p) (pd_wait_id p) (ww_pending w) of
                  None \<Rightarrow> catch_up now events ps w
                | Some (q, rest) \<Rightarrow>
                    wake (pd_slot q)
                      \<lparr>sg_name = pd_signal p, sg_payload = snd e, sg_correlation = fst e,
                       sg_received_at = now\<rparr>
                      (w\<lparr>ww_pending := rest\<rparr>))))"

text \<open>Before the suspension: clear the last signal, register every wait of the node with one
  fresh slot, then look for an event that already happened.\<close>

definition begin_wait ::
  "wf_lib \<Rightarrow> string \<Rightarrow> journal \<Rightarrow> string \<Rightarrow> nat \<Rightarrow> wait_spec \<Rightarrow> arc_context \<Rightarrow> wait_world \<Rightarrow>
     arc_context \<times> wait_world" where
  "begin_wait lib now events node_id slot spec ctx w =
     (let ctx = clear_last_signal ctx;
          waits = node_waits lib node_id slot ctx spec;
          w = w\<lparr>ww_slots := (ww_slots w)(slot := None), ww_notified := (ww_notified w)(slot := False),
                ww_pending := foldl (\<lambda>ps p. register p ps) (ww_pending w) waits\<rparr>
      in (ctx, catch_up now events waits w))"

datatype wait_outcome = Resolved | Cancelled | TimedOut

datatype wait_error = WaitCancelled | SlotEmpty string

definition timeout_signal :: "string \<Rightarrow> wait_spec \<Rightarrow> signal_ref" where
  "timeout_signal now spec =
     \<lparr>sg_name = ''__timeout__'',
      sg_payload = JObj [(''expired'', JArr (map (JStr \<circ> ws_signal) (wt_any_of spec)))],
      sg_correlation = [], sg_received_at = now\<rparr>"

text \<open>After the suspension: drop what is still registered, then turn the outcome into a signal.\<close>

definition cancel_waits :: "string \<Rightarrow> string list \<Rightarrow> pending_wait list \<Rightarrow> pending_wait list" where
  "cancel_waits arc ids ps = foldl (\<lambda>ps i. snd (cancel_wait arc i ps)) ps ids"

definition settle_wait ::
  "string \<Rightarrow> string \<Rightarrow> nat \<Rightarrow> wait_spec \<Rightarrow> wait_outcome \<Rightarrow> arc_context \<Rightarrow> wait_world \<Rightarrow>
     (wait_error + signal_ref) \<times> wait_world" where
  "settle_wait now node_id slot spec outcome ctx w =
     (let ids = map (wait_id node_id) [0..<length (wt_any_of spec)];
          w' = w\<lparr>ww_pending := cancel_waits (me_arc_id (cx_meta ctx)) ids (ww_pending w)\<rparr>
      in (case outcome of
            Cancelled \<Rightarrow> Inl WaitCancelled
          | TimedOut \<Rightarrow> Inr (timeout_signal now spec)
          | Resolved \<Rightarrow> (case ww_slots w slot of
                           None \<Rightarrow> Inl (SlotEmpty node_id)
                         | Some sig \<Rightarrow> Inr sig),
          w'))"

section \<open>The contract of a wait registry\<close>

locale wait_registry =
  fixes items :: "'s \<Rightarrow> 'w list"
    and reg :: "'w \<Rightarrow> 's \<Rightarrow> 's"
    and tak :: "('w \<Rightarrow> bool) \<Rightarrow> 's \<Rightarrow> ('w \<times> 's) option"
  assumes items_reg: "items (reg w s) = items s @ [w]"
    and tak_Some: "tak P s = Some (w, s') \<Longrightarrow>
      \<exists>ys zs. items s = ys @ w # zs \<and> items s' = ys @ zs \<and> P w \<and> \<not> list_ex P ys"
    and tak_None: "tak P s = None \<longleftrightarrow> \<not> list_ex P (items s)"
begin

lemma tak_mset: "tak P s = Some (w, s') \<Longrightarrow> mset (items s) = add_mset w (mset (items s'))"
  using tak_Some by fastforce

lemma tak_subset: "tak P s = Some (w, s') \<Longrightarrow> set (items s') \<subseteq> set (items s)"
  using tak_Some by fastforce

lemma tak_distinct:
  assumes "tak P s = Some (w, s')" "distinct (map f (items s))"
  shows "distinct (map f (items s'))" and "f w \<notin> f ` set (items s')"
proof -
  obtain ys zs where "items s = ys @ w # zs" "items s' = ys @ zs"
    using tak_Some [OF assms(1)] by blast
  with assms(2) show "distinct (map f (items s'))" "f w \<notin> f ` set (items s')" by auto
qed

lemma reg_distinct: "f w \<notin> f ` set (items s) \<Longrightarrow> distinct (map f (items s)) \<Longrightarrow>
    distinct (map f (items (reg w s)))"
  by (simp add: items_reg)

end

lemma take_first_Some:
  "take_first P xs = Some (x, xs') \<longleftrightarrow>
     (\<exists>ys zs. xs = ys @ x # zs \<and> xs' = ys @ zs \<and> P x \<and> \<not> list_ex P ys)"
proof (induction xs arbitrary: xs')
  case (Cons a xs)
  show ?case
  proof (cases "P a")
    case True
    then show ?thesis by (auto simp: Cons_eq_append_conv intro: exI [of _ "[]"])
  next
    case False
    have "take_first P (a # xs) = Some (x, xs') \<longleftrightarrow>
        (\<exists>r. take_first P xs = Some (x, r) \<and> xs' = a # r)"
      using False by (auto split: option.splits)
    also have "\<dots> \<longleftrightarrow> (\<exists>ys zs. xs = ys @ x # zs \<and> xs' = a # ys @ zs \<and> P x \<and> \<not> list_ex P ys)"
      unfolding Cons.IH by blast
    also have "\<dots> \<longleftrightarrow> (\<exists>ys zs. a # xs = ys @ x # zs \<and> xs' = ys @ zs \<and> P x \<and> \<not> list_ex P ys)"
      (is "?l \<longleftrightarrow> ?r")
    proof
      assume ?l
      then obtain ys zs where "xs = ys @ x # zs" "xs' = a # ys @ zs" "P x" "\<not> list_ex P ys" by blast
      with False show ?r by (intro exI [of _ "a # ys"] exI [of _ zs]) simp
    next
      assume ?r
      then obtain ys zs where *: "a # xs = ys @ x # zs" "xs' = ys @ zs" "P x" "\<not> list_ex P ys" by blast
      with False obtain ys' where "ys = a # ys'" by (cases ys) auto
      with * show ?l by auto
    qed
    finally show ?thesis .
  qed
qed simp

lemma take_first_None: "take_first P xs = None \<longleftrightarrow> \<not> list_ex P xs"
  by (induction xs) (auto split: option.splits)

interpretation wr: wait_registry "\<lambda>ps. ps" register take_first
proof unfold_locales
  fix P :: "pending_wait \<Rightarrow> bool" and s w s'
  show "take_first P s = Some (w, s') \<Longrightarrow>
      \<exists>ys zs. s = ys @ w # zs \<and> s' = ys @ zs \<and> P w \<and> \<not> list_ex P ys"
    by (simp add: take_first_Some)
qed (simp_all add: register_def take_first_None)

text \<open>A signal takes the earliest registered wait that asks for it and that it correlates with, and
  leaves every other wait in place; it takes none only when no wait matches.\<close>

theorem signal_takes_first_match:
  "(match_and_take signal corr ws = Some (p, ws') \<longleftrightarrow>
      (\<exists>ys zs. ws = ys @ p # zs \<and> ws' = ys @ zs \<and>
         pd_signal p = signal \<and> matches_correlation (pd_correlation p) corr \<and>
         \<not> list_ex (\<lambda>q. pd_signal q = signal \<and> matches_correlation (pd_correlation q) corr) ys)) \<and>
   (match_and_take signal corr ws = None \<longleftrightarrow>
      \<not> list_ex (\<lambda>q. pd_signal q = signal \<and> matches_correlation (pd_correlation q) corr) ws)"
  by (simp add: match_and_take_def take_first_Some take_first_None)

section \<open>Canonical correlations\<close>

interpretation key_ord: total_preorder "\<lambda>p q :: string \<times> json. fst p \<le> fst q"
  by unfold_locales auto

lemma same_keys_same_list:
  assumes "map fst xs = map fst ys" "set xs = set ys" "distinct (map fst ys)"
  shows "xs = ys"
proof (rule nth_equalityI)
  show l: "length xs = length ys" using assms(1) map_eq_imp_length_eq by blast
  fix i
  assume i: "i < length xs"
  then have "fst (xs ! i) = fst (ys ! i)" using assms(1) l by (metis nth_map)
  moreover have "xs ! i \<in> set ys" using i assms(2) nth_mem by blast
  moreover have "ys ! i \<in> set ys" using i l by simp
  ultimately show "xs ! i = ys ! i" using assms(3) unfolding distinct_map inj_on_def by blast
qed

lemma sort_keys_eq:
  assumes "map_wf a" "map_wf b" "set a = set (b :: jmap)"
  shows "sort_by (\<lambda>p q. fst p \<le> fst q) a = sort_by (\<lambda>p q. fst p \<le> fst q) b"
proof (rule same_keys_same_list)
  let ?s = "sort_by (\<lambda>p q :: string \<times> json. fst p \<le> fst q)"
  have so: "sorted (map fst (?s m))" for m
    using key_ord.sorted_sort [of m] by (simp add: sorted_wrt_map)
  have ds: "distinct (map fst (?s m))" if "map_wf m" for m
    using that unfolding map_wf_def by (metis mset_eq_imp_distinct_iff mset_map mset_sort_by)
  show "map fst (?s a) = map fst (?s b)"
    using so ds assms by (intro sorted_distinct_set_unique) simp_all
  show "set (?s a) = set (?s b)" using assms(3) by simp
  show "distinct (map fst (?s b))" using ds assms(2) by simp
qed

text \<open>Two correlations with the same entries have one canonical form, whatever order they were
  written in.\<close>

theorem canonical_order_free:
  assumes "map_wf a" "map_wf b" "set a = set b"
  shows "canonicalize_correlation lib a = canonicalize_correlation lib b"
  unfolding canonicalize_correlation_def using sort_keys_eq [OF assms] by simp

theorem canonical_order_free_witness:
  "canonicalize_correlation sample_wf_lib [(''pr'', JNull), (''repo'', JStr ''x'')] =
   canonicalize_correlation sample_wf_lib [(''repo'', JStr ''x''), (''pr'', JNull)]"
  by (rule canonical_order_free) (auto simp: map_wf_def)

section \<open>A race between two signals\<close>

text \<open>When two waits of one node are both signalled before the arc resumes, both deliveries report
  success, and the arc sees the second signal only: the first is overwritten in the shared slot.\<close>

theorem last_signal_wins:
  assumes "match_and_take a ca (ww_pending w) = Some (p, ps)"
    and "match_and_take b cb ps = Some (q, qs)"
    and "pd_slot q = pd_slot p"
  shows "let (r1, w1) = signal_arc_dispatch t1 a ca pa w;
             (r2, w2) = signal_arc_dispatch t2 b cb pb w1
         in jget r1 ''status'' = Some (JStr ''wait_resolved'') \<and>
            jget r2 ''status'' = Some (JStr ''wait_resolved'') \<and>
            fst (settle_wait now node (pd_slot p) spec Resolved ctx w2) =
              Inr \<lparr>sg_name = b, sg_payload = pb, sg_correlation = cb, sg_received_at = t2\<rparr>"
  using assms
  by (simp add: signal_arc_dispatch_def Let_def record_signal_event_def wake_def settle_wait_def)

definition sample_wait :: "string \<Rightarrow> pending_wait" where
  "sample_wait s = \<lparr>pd_arc_id = ''arc-1'', pd_wait_id = s, pd_signal = s, pd_correlation = [], pd_slot = 0\<rparr>"

theorem last_signal_wins_witness:
  "\<exists>w2. fst (settle_wait ''t'' ''n'' 0 \<lparr>wt_any_of = [], wt_timeout_secs = None, wt_provider_event = None\<rparr>
           Resolved (new_context sample_meta) w2) =
         Inr \<lparr>sg_name = ''closed'', sg_payload = JNull, sg_correlation = [], sg_received_at = ''t2''\<rparr>"
proof -
  let ?w = "\<lparr>ww_pending = [sample_wait ''merged'', sample_wait ''closed''], ww_slots = \<lambda>_. None,
             ww_notified = \<lambda>_. False, ww_log = []\<rparr>"
  have *: "match_and_take ''merged'' [] (ww_pending ?w) = Some (sample_wait ''merged'', [sample_wait ''closed''])"
    "match_and_take ''closed'' [] [sample_wait ''closed''] = Some (sample_wait ''closed'', [])"
    by (simp_all add: match_and_take_def sample_wait_def matches_correlation_def)
  have "pd_slot (sample_wait ''closed'') = pd_slot (sample_wait ''merged'')" by (simp add: sample_wait_def)
  from last_signal_wins [OF * this, of "''t1''" JNull "''t2''" JNull "''t''" "''n''"
      "\<lparr>wt_any_of = [], wt_timeout_secs = None, wt_provider_event = None\<rparr>" "new_context sample_meta"]
  show ?thesis by (auto simp: sample_wait_def split: prod.splits)
qed

section \<open>Waits do not outlive their node\<close>

text \<open>What can happen to the registry while the arc \<open>arc\<close> is suspended.\<close>

inductive env_step :: "string \<Rightarrow> wait_world \<Rightarrow> wait_world \<Rightarrow> bool" for arc where
  Signal: "env_step arc w (snd (signal_arc_dispatch now signal correlation payload w))"
| Register: "pd_arc_id p \<noteq> arc \<Longrightarrow> wait_key p \<notin> wait_key ` set (ww_pending w) \<Longrightarrow>
    env_step arc w (w\<lparr>ww_pending := register p (ww_pending w)\<rparr>)"
| Cancel: "env_step arc w (w\<lparr>ww_pending := snd (cancel_wait a i (ww_pending w))\<rparr>)"
| CatchUp: "env_step arc w (catch_up now events ps w)"

definition registry_ok :: "string \<Rightarrow> string list \<Rightarrow> pending_wait list \<Rightarrow> bool" where
  "registry_ok arc ids ps =
     (distinct (map wait_key ps) \<and> (\<forall>p\<in>set ps. pd_arc_id p = arc \<longrightarrow> pd_wait_id p \<in> set ids))"

lemma take_first_ok:
  assumes "take_first P ps = Some (p, ps')" "registry_ok arc ids ps"
  shows "registry_ok arc ids ps'"
  using assms wr.tak_subset [OF assms(1)] wr.tak_distinct(1) [OF assms(1), of wait_key]
  unfolding registry_ok_def by blast

lemma cancel_ok: "registry_ok arc ids ps \<Longrightarrow> registry_ok arc ids (snd (cancel_wait a i ps))"
  by (auto simp: cancel_wait_def take_exact_def split: option.splits dest: take_first_ok)

lemma catch_up_ok:
  "registry_ok arc ids (ww_pending w) \<Longrightarrow> registry_ok arc ids (ww_pending (catch_up now events ps w))"
proof (induction ps)
  case (Cons p ps)
  then show ?case
    by (auto simp: wake_def take_exact_def split: option.splits dest: take_first_ok)
qed simp

lemma signal_ok:
  "registry_ok arc ids (ww_pending w) \<Longrightarrow>
   registry_ok arc ids (ww_pending (snd (signal_arc_dispatch now s c pl w)))"
  by (auto simp: signal_arc_dispatch_def Let_def match_and_take_def record_signal_event_def wake_def
      split: option.splits dest: take_first_ok)

lemma env_step_ok:
  "env_step arc w w' \<Longrightarrow> registry_ok arc ids (ww_pending w) \<Longrightarrow> registry_ok arc ids (ww_pending w')"
proof (induction rule: env_step.induct)
  case (Register p w)
  then show ?case
    using wr.reg_distinct [of wait_key p "ww_pending w"]
    by (auto simp: registry_ok_def register_def)
qed (simp_all add: signal_ok cancel_ok catch_up_ok)

lemma env_steps_ok:
  "(env_step arc)\<^sup>*\<^sup>* w w' \<Longrightarrow> registry_ok arc ids (ww_pending w) \<Longrightarrow> registry_ok arc ids (ww_pending w')"
  by (induction rule: rtranclp_induct) (auto intro: env_step_ok)

lemma wait_id_inj: "wait_id n i = wait_id n j \<longleftrightarrow> i = j"
  by (simp add: wait_id_def show_nat_inj)

definition node_ids :: "string \<Rightarrow> wait_spec \<Rightarrow> string list" where
  "node_ids node_id spec = map (wait_id node_id) [0..<length (wt_any_of spec)]"

lemma keys_node_waits:
  "map wait_key (node_waits lib node_id slot ctx spec) =
     map (\<lambda>i. (me_arc_id (cx_meta ctx), i)) (node_ids node_id spec)"
  by (rule nth_equalityI) (simp_all add: node_waits_def node_ids_def wait_key_def)

lemma register_all: "foldl (\<lambda>ps p. register p ps) ps ws = ps @ ws"
  by (induction ws arbitrary: ps) (simp_all add: register_def)

lemma begin_wait_ok:
  assumes "distinct (map wait_key (ww_pending w))"
    and "\<forall>p\<in>set (ww_pending w). pd_arc_id p \<noteq> me_arc_id (cx_meta ctx)"
  shows "registry_ok (me_arc_id (cx_meta ctx)) (node_ids node_id spec)
    (ww_pending (snd (begin_wait lib now events node_id slot spec ctx w)))"
proof -
  let ?ctx = "clear_last_signal ctx"
  let ?ws = "node_waits lib node_id slot ?ctx spec"
  have me: "cx_meta ?ctx = cx_meta ctx" by (simp add: clear_last_signal_def)
  have ks: "map wait_key ?ws = map (Pair (me_arc_id (cx_meta ctx))) (node_ids node_id spec)"
    unfolding keys_node_waits me ..
  have "distinct (map wait_key ?ws)"
    unfolding ks by (simp add: node_ids_def distinct_map inj_on_def wait_id_inj)
  moreover have "wait_key p \<notin> set (map wait_key ?ws)" if "p \<in> set (ww_pending w)" for p
    unfolding ks using that assms(2) by (auto simp: wait_key_def)
  then have "wait_key ` set (ww_pending w) \<inter> wait_key ` set ?ws = {}"
    unfolding set_map by (intro equals0I) (elim IntE imageE, metis imageI)
  moreover have "pd_wait_id p \<in> set (node_ids node_id spec)" if "p \<in> set ?ws" for p
  proof -
    have "wait_key p \<in> set (map wait_key ?ws)" using that by simp
    then show ?thesis unfolding ks by (auto simp: wait_key_def)
  qed
  ultimately have "registry_ok (me_arc_id (cx_meta ctx)) (node_ids node_id spec) (ww_pending w @ ?ws)"
    using assms by (auto simp: registry_ok_def)
  then show ?thesis
    unfolding begin_wait_def Let_def register_all by (auto intro: catch_up_ok)
qed

lemma cancel_removes:
  assumes "distinct (map wait_key ps)"
  shows "wait_key ` set (snd (cancel_wait a i ps)) = wait_key ` set ps - {(a, i)}"
proof (cases "take_exact a i ps")
  case None
  then have "(a, i) \<notin> wait_key ` set ps"
    by (auto simp: take_exact_def take_first_None list_ex_iff)
  with None show ?thesis by (simp add: cancel_wait_def)
next
  case (Some r)
  obtain q ps' where r: "r = (q, ps')" by force
  with Some have t: "take_first (\<lambda>p. wait_key p = (a, i)) ps = Some (q, ps')" by (simp add: take_exact_def)
  then obtain ys zs where "ps = ys @ q # zs" "ps' = ys @ zs" "wait_key q = (a, i)"
    by (auto simp: take_first_Some)
  with assms r Some show ?thesis by (auto simp: cancel_wait_def)
qed

lemma cancel_waits_ok:
  assumes "distinct (map wait_key ps)"
  shows "distinct (map wait_key (cancel_waits arc ids ps)) \<and>
    wait_key ` set (cancel_waits arc ids ps) = wait_key ` set ps - Pair arc ` set ids"
  using assms
proof (induction ids arbitrary: ps)
  case (Cons i ids)
  let ?ps = "snd (cancel_wait arc i ps)"
  have "distinct (map wait_key ?ps)"
    using Cons.prems wr.tak_distinct(1) [of _ ps _ _ wait_key]
    by (auto simp: cancel_wait_def take_exact_def split: option.splits)
  from Cons.IH [OF this] show ?case
    unfolding cancel_removes [OF Cons.prems] by (auto simp: cancel_waits_def)
qed (simp add: cancel_waits_def)

text \<open>Property C15. Whatever signals, registrations and cancellations of other arcs happen during the suspension,
  when a wait node returns no wait of its arc is registered any more, on every outcome, and the keys of
  the registry are still unique.\<close>

theorem waits_do_not_leak:
  assumes "distinct (map wait_key (ww_pending w))"
    and "\<forall>p\<in>set (ww_pending w). pd_arc_id p \<noteq> me_arc_id (cx_meta ctx)"
    and "begin_wait lib now events node_id slot spec ctx w = (ctx1, w1)"
    and "(env_step (me_arc_id (cx_meta ctx)))\<^sup>*\<^sup>* w1 w2"
    and "settle_wait now' node_id slot spec outcome ctx1 w2 = (r, w3)"
  shows "distinct (map wait_key (ww_pending w3)) \<and>
    (\<forall>p\<in>set (ww_pending w3). pd_arc_id p \<noteq> me_arc_id (cx_meta ctx))"
proof -
  let ?arc = "me_arc_id (cx_meta ctx)" and ?ids = "node_ids node_id spec"
  have "registry_ok ?arc ?ids (ww_pending w1)"
    using begin_wait_ok [OF assms(1,2), of node_id spec lib now events slot] assms(3) by simp
  then have ok: "registry_ok ?arc ?ids (ww_pending w2)" using env_steps_ok assms(4) by blast
  have "me_arc_id (cx_meta ctx1) = ?arc"
    using assms(3) by (auto simp: begin_wait_def Let_def clear_last_signal_def)
  then have w3: "ww_pending w3 = cancel_waits ?arc ?ids (ww_pending w2)"
    using assms(5) by (auto simp: settle_wait_def Let_def node_ids_def)
  have "distinct (map wait_key (ww_pending w3))"
    and "wait_key ` set (ww_pending w3) = wait_key ` set (ww_pending w2) - Pair ?arc ` set ?ids"
    using cancel_waits_ok [of "ww_pending w2" ?arc ?ids] ok w3 by (auto simp: registry_ok_def)
  moreover have "pd_arc_id p \<noteq> ?arc" if p: "p \<in> set (ww_pending w3)" for p
  proof
    assume a: "pd_arc_id p = ?arc"
    have "wait_key p \<in> wait_key ` set (ww_pending w2) - Pair ?arc ` set ?ids"
      using p calculation(2) by blast
    then obtain q where "q \<in> set (ww_pending w2)" "wait_key q = wait_key p"
      "wait_key p \<notin> Pair ?arc ` set ?ids" by force
    with a ok show False by (auto simp: registry_ok_def wait_key_def)
  qed
  ultimately show ?thesis by blast
qed

theorem waits_do_not_leak_witness:
  "\<exists>w3. list_all (\<lambda>p. pd_arc_id p \<noteq> ''arc-1'') (ww_pending w3) \<and>
     snd (settle_wait ''t'' ''n'' 0
       \<lparr>wt_any_of = [\<lparr>ws_signal = ''merged'', ws_correlate = []\<rparr>], wt_timeout_secs = None,
        wt_provider_event = None\<rparr> TimedOut
       (fst (begin_wait sample_wf_lib ''t'' (\<lambda>_. None) ''n'' 0
          \<lparr>wt_any_of = [\<lparr>ws_signal = ''merged'', ws_correlate = []\<rparr>], wt_timeout_secs = None,
           wt_provider_event = None\<rparr> (new_context sample_meta)
          \<lparr>ww_pending = [], ww_slots = \<lambda>_. None, ww_notified = \<lambda>_. False, ww_log = []\<rparr>))
       (snd (begin_wait sample_wf_lib ''t'' (\<lambda>_. None) ''n'' 0
          \<lparr>wt_any_of = [\<lparr>ws_signal = ''merged'', ws_correlate = []\<rparr>], wt_timeout_secs = None,
           wt_provider_event = None\<rparr> (new_context sample_meta)
          \<lparr>ww_pending = [], ww_slots = \<lambda>_. None, ww_notified = \<lambda>_. False, ww_log = []\<rparr>))) = w3"
  (is "\<exists>w3. _ \<and> snd (settle_wait _ _ _ ?spec _ (fst ?b) (snd ?b)) = w3")
proof -
  obtain r w3 where r: "settle_wait ''t'' ''n'' 0 ?spec TimedOut (fst ?b) (snd ?b) = (r, w3)" by force
  have "distinct (map wait_key (ww_pending w3)) \<and>
      (\<forall>p\<in>set (ww_pending w3). pd_arc_id p \<noteq> me_arc_id (cx_meta (new_context sample_meta)))"
  proof (rule waits_do_not_leak [where w = "\<lparr>ww_pending = [], ww_slots = \<lambda>_. None, ww_notified = \<lambda>_. False, ww_log = []\<rparr>"])
    show "begin_wait sample_wf_lib ''t'' (\<lambda>_. None) ''n'' 0 ?spec (new_context sample_meta)
        \<lparr>ww_pending = [], ww_slots = \<lambda>_. None, ww_notified = \<lambda>_. False, ww_log = []\<rparr> = (fst ?b, snd ?b)" by simp
    show "(env_step (me_arc_id (cx_meta (new_context sample_meta))))\<^sup>*\<^sup>* (snd ?b) (snd ?b)" by simp
  qed (use r in simp_all)
  then show ?thesis using r by (auto simp: list_all_iff new_context_def sample_meta_def)
qed

end
