(* ===== verification/Workflow_Ops.thy ===== *)
theory Workflow_Ops
  imports Workflow_Context
begin

text \<open>
  The hook operations an arc evaluates by itself: the variable operations of
  \<open>src/src/workflow/ops/vars.rs\<close>, JSON parsing with its repairs of \<open>ops/json_ops.rs\<close> (with
  \<open>extract_json_candidates\<close> of \<open>src/src/tools/bro_helpers.rs\<close>) and the drift score of
  \<open>ops/eval_score.rs\<close>, dispatched by \<open>execute_op_with_hub\<close> of \<open>ops.rs\<close>. An operation returns an
  effect; the ones that reach the outside are a parameter. The JSON reader is the library's
  (\<open>parse\<close>). An operation's error is its message without the offending values.
\<close>

datatype op_effect =
    OpNone
  | OpSetVar string json
  | OpSetWorktree "string option"
  | OpSetProjectDir "string option"

section \<open>Variables\<close>

definition required :: "string \<Rightarrow> 'a option \<Rightarrow> string + 'a" where
  "required msg x = (case x of Some v \<Rightarrow> Inr v | None \<Rightarrow> Inl msg)"

definition arg_str :: "json \<Rightarrow> string \<Rightarrow> string option" where
  "arg_str args k = Option.bind (jget args k) as_str"

definition walk_dotted :: "json \<Rightarrow> string \<Rightarrow> json option" where
  "walk_dotted root path = walk_value root (split_on CHR ''.'' path)"

definition item_matches :: "jmap \<Rightarrow> json \<Rightarrow> bool" where
  "item_matches where_obj item =
     list_all (\<lambda>(k, expected). case walk_dotted item k of
                  Some v \<Rightarrow> json_eq v expected | None \<Rightarrow> False) where_obj"

definition exec_find_first :: "json \<Rightarrow> string option \<Rightarrow> string + op_effect" where
  "exec_find_first args into_var =
     rbind (required ''FindFirst requires into_var'' into_var) (\<lambda>into.
     rbind (required ''FindFirst requires args.from'' (jget args ''from'')) (\<lambda>arr.
     rbind (required ''FindFirst requires args.where''
             (Option.bind (jget args ''where'') as_object)) (\<lambda>where_obj.
     rbind (case arr of
              JArr a \<Rightarrow> Inr a
            | JNull \<Rightarrow> Inr []
            | _ \<Rightarrow> Inl ''FindFirst args.from must be array or null'') (\<lambda>items.
     Inr (OpSetVar into (case find (item_matches where_obj) items of
                           Some item \<Rightarrow> item | None \<Rightarrow> JNull))))))"

definition exec_set_var :: "json \<Rightarrow> string + op_effect" where
  "exec_set_var args =
     (case args of
        JObj m \<Rightarrow>
          (case (obj_get m ''key'', obj_get m ''value'') of
             (Some (JStr k), Some v) \<Rightarrow> Inr (OpSetVar k v)
           | _ \<Rightarrow> (case m of
                     [(k, v)] \<Rightarrow> Inr (OpSetVar k v)
                   | _ \<Rightarrow> Inl ''SetVar args''))
      | _ \<Rightarrow> Inl ''SetVar args'')"

definition exec_default_var :: "json \<Rightarrow> arc_context \<Rightarrow> string + op_effect" where
  "exec_default_var args ctx =
     rbind (required ''DefaultVar requires args.key'' (arg_str args ''key'')) (\<lambda>key.
     rbind (required ''DefaultVar requires args.value'' (jget args ''value'')) (\<lambda>value.
     Inr (case obj_get (cx_vars ctx) key of
            Some v \<Rightarrow> if v \<noteq> JNull then OpNone else OpSetVar key value
          | None \<Rightarrow> OpSetVar key value)))"

definition exec_inc_var :: "json \<Rightarrow> arc_context \<Rightarrow> string + op_effect" where
  "exec_inc_var args ctx =
     rbind (required ''IncVar requires args.key'' (arg_str args ''key'')) (\<lambda>key.
       let by = (case Option.bind (jget args ''by'') as_i64 of Some n \<Rightarrow> n | None \<Rightarrow> 1);
           current = (case Option.bind (obj_get (cx_vars ctx) key) as_i64 of
                        Some n \<Rightarrow> n | None \<Rightarrow> 0)
       in Inr (OpSetVar key (JNum (num_of_i64 (current + by)))))"

definition exec_append_var :: "json \<Rightarrow> arc_context \<Rightarrow> string + op_effect" where
  "exec_append_var args ctx =
     rbind (required ''AppendVar requires args.key'' (arg_str args ''key'')) (\<lambda>key.
     rbind (required ''AppendVar requires args.value'' (jget args ''value'')) (\<lambda>value.
     rbind (case obj_get (cx_vars ctx) key of
              Some (JArr a) \<Rightarrow> Inr a
            | Some JNull \<Rightarrow> Inr []
            | None \<Rightarrow> Inr []
            | Some _ \<Rightarrow> Inl ''AppendVar: not an array'') (\<lambda>arr.
     Inr (OpSetVar key (JArr (arr @ [value]))))))"

definition exec_merge_var :: "json \<Rightarrow> arc_context \<Rightarrow> string + op_effect" where
  "exec_merge_var args ctx =
     rbind (required ''MergeVar requires args.key'' (arg_str args ''key'')) (\<lambda>key.
     rbind (required ''MergeVar requires args.value''
             (Option.bind (jget args ''value'') as_object)) (\<lambda>value.
     rbind (case obj_get (cx_vars ctx) key of
              Some (JObj m) \<Rightarrow> Inr m
            | Some JNull \<Rightarrow> Inr []
            | None \<Rightarrow> Inr []
            | Some _ \<Rightarrow> Inl ''MergeVar: not an object'') (\<lambda>m.
     Inr (OpSetVar key (JObj (om.ins_all m value))))))"

definition exec_set_meta :: "json \<Rightarrow> string + op_effect" where
  "exec_set_meta args =
     rbind (required ''SetMeta requires args.key'' (arg_str args ''key'')) (\<lambda>key.
       let value = (case jget args ''value'' of Some v \<Rightarrow> v | None \<Rightarrow> JNull)
       in if key = ''worktree'' then
            (case value of
               JStr s \<Rightarrow> Inr (OpSetWorktree (Some s))
             | JNull \<Rightarrow> Inr (OpSetWorktree None)
             | _ \<Rightarrow> Inl ''SetMeta worktree must be string or null'')
          else if key = ''project_dir'' then
            (case value of
               JStr s \<Rightarrow> Inr (OpSetProjectDir (if s = [] then None else Some s))
             | JNull \<Rightarrow> Inr (OpSetProjectDir None)
             | _ \<Rightarrow> Inl ''SetMeta project_dir must be string or null'')
          else Inl ''SetMeta: unsupported key'')"

fun pick_walk :: "json \<Rightarrow> string list \<Rightarrow> json" where
  "pick_walk cur [] = cur"
| "pick_walk cur (seg # segs) =
     pick_walk
       (case cur of
          JObj m \<Rightarrow> (case obj_get m seg of Some v \<Rightarrow> v | None \<Rightarrow> JNull)
        | JArr a \<Rightarrow> (case parse_usize seg of
                      Some i \<Rightarrow> if i < length a then a ! i else JNull
                    | None \<Rightarrow> JNull)
        | _ \<Rightarrow> JNull) segs"

definition exec_pick_first :: "json \<Rightarrow> string option \<Rightarrow> arc_context \<Rightarrow> string + op_effect" where
  "exec_pick_first args into_var ctx =
     rbind (required ''PickFirst requires into_var'' into_var) (\<lambda>into.
       let resolved = (case jget args ''from'' of
                         Some v \<Rightarrow> Some v
                       | None \<Rightarrow>
                           map_option
                             (\<lambda>path. pick_walk (JObj (cx_vars ctx)) (split_on CHR ''.'' path))
                             (arg_str args ''array''));
           first = (case Option.bind resolved as_array of Some (v # _) \<Rightarrow> v | _ \<Rightarrow> JNull)
       in Inr (OpSetVar into first))"

section \<open>Reading JSON out of text\<close>

text \<open>A scanner state: the closers owed, innermost first; inside a string; after a backslash.\<close>

record scan =
  sn_stack :: "char list"
  sn_in_string :: bool
  sn_escaped :: bool

definition scan0 :: scan where
  "scan0 = \<lparr>sn_stack = [], sn_in_string = False, sn_escaped = False\<rparr>"

definition quote :: char where "quote = CHR 0x22"
definition backslash :: char where "backslash = CHR 0x5C"

text \<open>One character; \<open>None\<close> on a closer that does not match.\<close>

definition scan_char :: "scan \<Rightarrow> char \<Rightarrow> scan option" where
  "scan_char s ch =
     (if sn_in_string s then
        Some (if sn_escaped s then s\<lparr>sn_escaped := False\<rparr>
              else if ch = backslash then s\<lparr>sn_escaped := True\<rparr>
              else if ch = quote then s\<lparr>sn_in_string := False\<rparr>
              else s)
      else if ch = quote then Some (s\<lparr>sn_in_string := True\<rparr>)
      else if ch = CHR ''{'' then Some (s\<lparr>sn_stack := CHR ''}'' # sn_stack s\<rparr>)
      else if ch = CHR ''['' then Some (s\<lparr>sn_stack := CHR '']'' # sn_stack s\<rparr>)
      else if ch = CHR ''}'' \<or> ch = CHR '']'' then
        (case sn_stack s of
           [] \<Rightarrow> None
         | c # cs \<Rightarrow> if c = ch then Some (s\<lparr>sn_stack := cs\<rparr>) else None)
      else Some s)"

fun scan_all :: "scan \<Rightarrow> string \<Rightarrow> scan option" where
  "scan_all s [] = Some s"
| "scan_all s (c # cs) = (case scan_char s c of None \<Rightarrow> None | Some s' \<Rightarrow> scan_all s' cs)"

definition append_missing_json_closers :: "string \<Rightarrow> string option" where
  "append_missing_json_closers s =
     (case scan_all scan0 s of
        None \<Rightarrow> None
      | Some st \<Rightarrow>
          if sn_in_string st \<or> sn_stack st = [] then None
          else Some (trim_end s @ sn_stack st))"

text \<open>\<open>str::lines\<close>: a line feed ends a line and takes a carriage return before it along.\<close>

definition strip_cr :: "string \<Rightarrow> string" where
  "strip_cr l = (case strip_suffix [CHR 0x0D] l of Some r \<Rightarrow> r | None \<Rightarrow> l)"

definition str_lines :: "string \<Rightarrow> string list" where
  "str_lines s =
     (let parts = split_on (CHR 0x0A) s
      in map strip_cr (butlast parts) @ (if last parts = [] then [] else [last parts]))"

fun position :: "('a \<Rightarrow> bool) \<Rightarrow> 'a list \<Rightarrow> nat option" where
  "position P [] = None"
| "position P (x # xs) = (if P x then Some 0 else map_option Suc (position P xs))"

definition rposition :: "('a \<Rightarrow> bool) \<Rightarrow> 'a list \<Rightarrow> nat option" where
  "rposition P xs = map_option (\<lambda>i. length xs - 1 - i) (position P (rev xs))"

definition fence :: string where "fence = ''```''"

definition opens_fence :: "string \<Rightarrow> bool" where
  "opens_fence l = (let t = trim l in t = fence @ ''json'' \<or> t = fence @ ''JSON'' \<or> t = fence)"

definition closes_fence :: "string \<Rightarrow> bool" where
  "closes_fence l = (trim l = fence)"

definition slice :: "nat \<Rightarrow> nat \<Rightarrow> 'a list \<Rightarrow> 'a list" where
  "slice a b xs = take (b - a) (drop a xs)"

definition strip_code_fence :: "string \<Rightarrow> string option" where
  "strip_code_fence s =
     (case str_lines s of
        [] \<Rightarrow> None
      | first # others \<Rightarrow>
          let lines = first # others; joined = (\<lambda>a b. join_with [CHR 0x0A] (slice a b lines)) in
          if opens_fence first then
            (case rposition closes_fence lines of
               None \<Rightarrow> None
             | Some last_idx \<Rightarrow> if last_idx = 0 then None else Some (joined 1 last_idx))
          else
            (case position opens_fence lines of
               None \<Rightarrow> None
             | Some opener \<Rightarrow>
                 (case position closes_fence (drop (opener + 1) lines) of
                    None \<Rightarrow> None
                  | Some c \<Rightarrow>
                      (let closer = c + opener + 1
                       in if closer \<le> opener + 1 then None
                          else Some (joined (opener + 1) closer)))))"

text \<open>\<open>str::find\<close>: what precedes and what follows the first occurrence.\<close>

fun find_str :: "string \<Rightarrow> string \<Rightarrow> (string \<times> string) option" where
  "find_str p s =
     (case strip_prefix p s of
        Some r \<Rightarrow> Some ([], r)
      | None \<Rightarrow> (case s of
                   [] \<Rightarrow> None
                 | c # cs \<Rightarrow> (case find_str p cs of
                               None \<Rightarrow> None
                             | Some (a, r) \<Rightarrow> Some (c # a, r))))"

declare find_str.simps [simp del]

lemma find_str_Some: "find_str p s = Some (a, r) \<Longrightarrow> s = a @ p @ r"
proof (induction p s arbitrary: a rule: find_str.induct)
  case (1 p s)
  show ?case
  proof (cases "strip_prefix p s")
    case (Some r')
    with 1(2) show ?thesis by (auto simp: find_str.simps [of p s] strip_prefix_Some)
  next
    case None
    with 1(2) obtain c cs a' where "s = c # cs" "find_str p cs = Some (a', r)" "a = c # a'"
      by (auto simp: find_str.simps [of p s] split: list.splits option.splits)
    with 1(1) [OF None] show ?thesis by simp
  qed
qed

definition after_line :: "string \<Rightarrow> string" where
  "after_line s = (case find_str [CHR 0x0A] s of Some (_, r) \<Rightarrow> r | None \<Rightarrow> s)"

lemma after_line_length: "length (after_line s) \<le> length s"
  by (auto simp: after_line_def split: option.splits dest!: find_str_Some)

text \<open>The bodies of the blocks a marker opens and a fence closes.\<close>

function fenced_bodies :: "string \<Rightarrow> string \<Rightarrow> string list" where
  "fenced_bodies marker text =
     (if marker = [] then []
      else (case find_str marker text of
              None \<Rightarrow> []
            | Some (_, after) \<Rightarrow>
                (case find_str fence (after_line after) of
                   None \<Rightarrow> []
                 | Some (body, rest) \<Rightarrow> trim body # fenced_bodies marker rest)))"
  by pat_completeness auto
termination
proof (relation "measure (\<lambda>(m, t). length t)")
  fix marker str :: string and p q and before after body rest
  assume a: "find_str marker str = Some p" "(before, after) = p"
    "find_str fence (after_line after) = Some q" "(body, rest) = q"
  have "str = before @ marker @ after" using a(1,2) find_str_Some by auto
  moreover have "after_line after = body @ fence @ rest" using a(3,4) find_str_Some by auto
  then have "length rest < length (after_line after)" by (simp add: fence_def)
  ultimately show "((marker, rest), marker, str) \<in> measure (\<lambda>(m, t). length t)"
    using after_line_length [of after] by simp
qed simp

declare fenced_bodies.simps [simp del]

text \<open>From the first opening brace to the closer that empties the stack.\<close>

fun balanced_from :: "scan \<Rightarrow> string \<Rightarrow> string option" where
  "balanced_from s [] = None"
| "balanced_from s (c # cs) =
     (case scan_char s c of
        None \<Rightarrow> None
      | Some s' \<Rightarrow>
          if \<not> sn_in_string s \<and> (c = CHR ''}'' \<or> c = CHR '']'') \<and> sn_stack s' = []
          then Some [c]
          else map_option (Cons c) (balanced_from s' cs))"

definition first_balanced_json_object :: "string \<Rightarrow> string option" where
  "first_balanced_json_object text =
     (case find_str ''{'' text of None \<Rightarrow> None | Some (_, r) \<Rightarrow> balanced_from scan0 (''{'' @ r))"

text \<open>From the first opening to the last closing brace.\<close>

definition outer_braces :: "string \<Rightarrow> string option" where
  "outer_braces text =
     (case (position (\<lambda>c. c = CHR ''{'') text, rposition (\<lambda>c. c = CHR ''}'') text) of
        (Some a, Some b) \<Rightarrow> if a < b then Some (slice a (b + 1) text) else None
      | _ \<Rightarrow> None)"

definition extract_json_candidates :: "string \<Rightarrow> string list" where
  "extract_json_candidates text =
     dedup (fenced_bodies (fence @ ''json'') text @
            filter (\<lambda>c. starts_with c ''{'') (fenced_bodies fence text) @
            (case first_balanced_json_object text of Some c \<Rightarrow> [c] | None \<Rightarrow> []) @
            (case outer_braces text of Some c \<Rightarrow> [c] | None \<Rightarrow> []))"

definition parse_repaired :: "(string \<Rightarrow> json option) \<Rightarrow> bool \<Rightarrow> string \<Rightarrow> json option" where
  "parse_repaired parse repair s =
     (case parse s of
        Some v \<Rightarrow> Some v
      | None \<Rightarrow>
          if repair then Option.bind (append_missing_json_closers s) parse else None)"

fun first_parsed :: "(string \<Rightarrow> json option) \<Rightarrow> bool \<Rightarrow> string list \<Rightarrow> json option" where
  "first_parsed parse repair [] = None"
| "first_parsed parse repair (s # ss) =
     (case parse_repaired parse repair s of Some v \<Rightarrow> Some v | None \<Rightarrow> first_parsed parse repair ss)"

definition parse_json_string :: "(string \<Rightarrow> json option) \<Rightarrow> bool \<Rightarrow> string \<Rightarrow> string + json" where
  "parse_json_string parse repair s =
     (let trimmed = trim s in
      if trimmed = [] then Inr JNull
      else (let stripped = (case strip_code_fence trimmed of Some t \<Rightarrow> t | None \<Rightarrow> trimmed)
            in required ''ParseJson: input did not parse as JSON''
                 (first_parsed parse repair (stripped # extract_json_candidates trimmed))))"

fun as_bool :: "json \<Rightarrow> bool option" where
  "as_bool (JBool b) = Some b"
| "as_bool _ = None"

definition exec_parse_json ::
  "(string \<Rightarrow> json option) \<Rightarrow> json \<Rightarrow> string option \<Rightarrow> string + op_effect" where
  "exec_parse_json parse args into_var =
     rbind (required ''ParseJson requires into_var'' into_var) (\<lambda>into.
     rbind (required ''ParseJson requires args.from'' (jget args ''from'')) (\<lambda>src.
       let repair = (case Option.bind (jget args ''repair_missing_closing_delimiters'') as_bool of
                       Some b \<Rightarrow> b | None \<Rightarrow> False)
       in rbind (case src of JStr s \<Rightarrow> parse_json_string parse repair s | other \<Rightarrow> Inr other)
            (\<lambda>v. Inr (OpSetVar into v))))"

section \<open>The drift score\<close>

definition f64_five :: f64 where "f64_five = 0x4014000000000000"

definition exec_score_eval_output ::
  "(string \<Rightarrow> json option) \<Rightarrow> json \<Rightarrow> string option \<Rightarrow> arc_context \<Rightarrow> string + op_effect" where
  "exec_score_eval_output parse args into_var ctx =
     (let into = (case into_var of Some k \<Rightarrow> k | None \<Rightarrow> ''suite_score'');
          suite_output =
            (case jget args ''from'' of
               Some v \<Rightarrow> v
             | None \<Rightarrow> (case jget args ''suite_output'' of
                          Some v \<Rightarrow> v
                        | None \<Rightarrow> (case obj_get (cx_vars ctx) ''suite_output'' of
                                     Some v \<Rightarrow> v | None \<Rightarrow> JNull)));
          exit_code = (case Option.bind (jget suite_output ''exit_code'') as_i64 of
                         Some n \<Rightarrow> n | None \<Rightarrow> 0);
          stdout = (case arg_str suite_output ''stdout'' of Some s \<Rightarrow> s | None \<Rightarrow> []);
          drift_of = (\<lambda>v. Option.bind (jget v ''drift_pp'') as_f64);
          drift_pp = (case Option.bind (jget suite_output ''parsed'') drift_of of
                        Some d \<Rightarrow> d
                      | None \<Rightarrow> (case Option.bind (parse stdout) drift_of of
                                   Some d \<Rightarrow> d
                                 | None \<Rightarrow> if exit_code \<noteq> 0 then f64_five else 0))
      in Inr (OpSetVar into
               (JObj [(''drift_pp'', if f64_finite drift_pp then JNum (NFloat drift_pp) else JNull),
                      (''suite_exit_code'', JNum (num_of_i64 exit_code)),
                      (''raw_stdout'', JStr stdout)])))"

section \<open>Dispatch\<close>

text \<open>What an operation reaches outside: its kind, the rendered arguments, the target variable and
  the world it acts on.\<close>

type_synonym 's outside_op =
  "op_kind \<Rightarrow> json \<Rightarrow> string option \<Rightarrow> 's \<Rightarrow> (string + op_effect) \<times> 's"

definition execute_op ::
  "wf_lib \<Rightarrow> (string \<Rightarrow> json option) \<Rightarrow> 's outside_op \<Rightarrow> hook_op \<Rightarrow> arc_context \<Rightarrow> 's \<Rightarrow>
     (string + op_effect) \<times> 's"
where
  "execute_op lib parse outside h ctx w =
     (case resolve_arg_value lib ctx (ho_args h) of
        Inl e \<Rightarrow> (Inl (''arg render failed: '' @ e), w)
      | Inr args \<Rightarrow>
          (case ho_op h of
             SetVar \<Rightarrow> (exec_set_var args, w)
           | DefaultVar \<Rightarrow> (exec_default_var args ctx, w)
           | IncVar \<Rightarrow> (exec_inc_var args ctx, w)
           | AppendVar \<Rightarrow> (exec_append_var args ctx, w)
           | MergeVar \<Rightarrow> (exec_merge_var args ctx, w)
           | ParseJson \<Rightarrow> (exec_parse_json parse args (ho_into_var h), w)
           | SetMeta \<Rightarrow> (exec_set_meta args, w)
           | FindFirst \<Rightarrow> (exec_find_first args (ho_into_var h), w)
           | QuiesceSearch \<Rightarrow> (Inr OpNone, w)
           | SwapAtomic \<Rightarrow> (Inr OpNone, w)
           | ScoreEvalOutput \<Rightarrow> (exec_score_eval_output parse args (ho_into_var h) ctx, w)
           | PickFirst \<Rightarrow> (exec_pick_first args (ho_into_var h) ctx, w)
           | k \<Rightarrow> outside k args (ho_into_var h) w))"

section \<open>The repaired text is balanced\<close>

lemma scan_all_append:
  "scan_all s (a @ b) = (case scan_all s a of None \<Rightarrow> None | Some t \<Rightarrow> scan_all t b)"
  by (induction a arbitrary: s) (auto split: option.splits)

lemma scan_neutral:
  "\<not> sn_in_string s \<Longrightarrow> c \<notin> {quote, CHR ''{'', CHR ''['', CHR ''}'', CHR '']''} \<Longrightarrow> scan_char s c = Some s"
  by (simp add: scan_char_def)

definition only_closers :: "scan \<Rightarrow> bool" where
  "only_closers s \<longleftrightarrow> set (sn_stack s) \<subseteq> {CHR ''}'', CHR '']''}"

lemma scan_char_closers: "only_closers s \<Longrightarrow> scan_char s c = Some s' \<Longrightarrow> only_closers s'"
  by (auto simp: scan_char_def only_closers_def split: if_splits list.splits)

lemma scan_all_closers: "only_closers s \<Longrightarrow> scan_all s cs = Some s' \<Longrightarrow> only_closers s'"
  by (induction cs arbitrary: s) (auto split: option.splits dest: scan_char_closers)

lemma scan_stack:
  "\<not> sn_in_string s \<Longrightarrow> set cs \<subseteq> {CHR ''}'', CHR '']''} \<Longrightarrow> sn_stack s = cs \<Longrightarrow>
   scan_all s cs = Some (s\<lparr>sn_stack := []\<rparr>)"
  by (induction cs arbitrary: s) (auto simp: scan_char_def quote_def)

lemma strip_all_removed: "\<exists>p. s = p @ strip_all ps s \<and> set p \<subseteq> \<Union> (set ` set ps)"
proof (induction ps s rule: strip_all.induct)
  case (1 ps s)
  show ?case
  proof (cases "strip_any ps s")
    case None
    then show ?thesis by (intro exI [of _ "[]"]) (simp add: strip_all.simps [of ps s])
  next
    case (Some r)
    obtain q where q: "q \<in> set ps" "s = q @ r"
      using Some by (induction ps) (auto simp: strip_prefix_Some split: option.splits)
    show ?thesis
    proof (cases "length r < length s")
      case True
      from 1 [OF Some this] obtain p where "r = p @ strip_all ps r" "set p \<subseteq> \<Union> (set ` set ps)" by blast
      moreover have "strip_all ps s = strip_all ps r"
        using Some True by (simp add: strip_all.simps [of ps s])
      ultimately show ?thesis
        using q by (intro exI [of _ "q @ p"]) auto
    next
      case False
      with Some show ?thesis by (intro exI [of _ "[]"]) (simp add: strip_all.simps [of ps s])
    qed
  qed
qed

lemma ws_bytes: "list_all (\<lambda>p. list_all (\<lambda>c. (of_char c :: nat) < 33 \<or> 127 < (of_char c :: nat)) p) ws_seqs"
  by code_simp

lemma trim_end_removed: "\<exists>w. s = trim_end s @ w \<and> (\<forall>c\<in>set w. (of_char c :: nat) < 33 \<or> 127 < (of_char c :: nat))"
proof -
  obtain p where p: "rev s = p @ strip_all (map rev ws_seqs) (rev s)"
    "set p \<subseteq> \<Union> (set ` set (map rev ws_seqs))"
    using strip_all_removed by blast
  then have "s = trim_end s @ rev p"
    unfolding trim_end_def by (metis rev_append rev_rev_ident)
  moreover have "\<forall>c\<in>set (rev p). (of_char c :: nat) < 33 \<or> 127 < (of_char c :: nat)"
  proof
    fix c
    assume "c \<in> set (rev p)"
    then obtain q where "q \<in> set ws_seqs" "c \<in> set q" using p(2) by fastforce
    then show "(of_char c :: nat) < 33 \<or> 127 < (of_char c :: nat)"
      using ws_bytes unfolding list_all_iff by blast
  qed
  ultimately show ?thesis by blast
qed

lemma scan_char_in_string: "sn_in_string s \<Longrightarrow> c \<noteq> quote \<Longrightarrow> \<exists>s'. scan_char s c = Some s' \<and> sn_in_string s'"
  by (simp add: scan_char_def)

lemma scan_in_string:
  "sn_in_string s \<Longrightarrow> quote \<notin> set w \<Longrightarrow> scan_all s w = Some t \<Longrightarrow> sn_in_string t"
proof (induction w arbitrary: s)
  case (Cons c w)
  then obtain s' where "scan_char s c = Some s'" "sn_in_string s'"
    using scan_char_in_string [of s c] by auto
  with Cons show ?case by simp
qed simp

lemma scan_all_neutral:
  "\<not> sn_in_string s \<Longrightarrow> set w \<inter> {quote, CHR ''{'', CHR ''['', CHR ''}'', CHR '']''} = {} \<Longrightarrow>
   scan_all s w = Some s"
  by (induction w) (auto simp: scan_neutral)

lemma scan_trim_end:
  assumes "scan_all s0 s = Some t" "\<not> sn_in_string t"
  shows "scan_all s0 (trim_end s) = Some t"
proof -
  obtain w where w: "s = trim_end s @ w"
    "\<forall>c\<in>set w. (of_char c :: nat) < 33 \<or> 127 < (of_char c :: nat)"
    using trim_end_removed by blast
  have q: "quote \<notin> set w" and nt: "set w \<inter> {quote, CHR ''{'', CHR ''['', CHR ''}'', CHR '']''} = {}"
    using w(2) by (auto simp: quote_def)
  have "scan_all s0 (trim_end s @ w) = Some t" using assms(1) w(1) by simp
  then obtain u where u: "scan_all s0 (trim_end s) = Some u" "scan_all u w = Some t"
    by (auto simp: scan_all_append split: option.splits)
  have "\<not> sn_in_string u" using scan_in_string [OF _ q u(2)] assms(2) by blast
  from scan_all_neutral [OF this nt] u show ?thesis by simp
qed

lemma repaired_scan:
  assumes "append_missing_json_closers s = Some r"
  shows "\<exists>t. scan_all scan0 r = Some t \<and> sn_stack t = [] \<and> \<not> sn_in_string t"
proof -
  obtain t where t: "scan_all scan0 s = Some t" "\<not> sn_in_string t" "r = trim_end s @ sn_stack t"
    using assms by (auto simp: append_missing_json_closers_def split: option.splits if_splits)
  have "only_closers t"
    using scan_all_closers [OF _ t(1)] by (simp add: only_closers_def scan0_def)
  then have "scan_all t (sn_stack t) = Some (t\<lparr>sn_stack := []\<rparr>)"
    using scan_stack [OF t(2)] by (simp add: only_closers_def)
  with scan_trim_end [OF t(1,2)] t(2,3) show ?thesis by (simp add: scan_all_append)
qed

text \<open>A repair of truncated JSON text only appends closing brackets to the text less its trailing
  white space, and the repaired text is balanced: outside every string, with no bracket open; balanced
  text is never changed.\<close>

theorem json_repair_balances:
  assumes "append_missing_json_closers s = Some r"
  shows "\<exists>cs t. r = trim_end s @ cs \<and> cs \<noteq> [] \<and> set cs \<subseteq> {CHR ''}'', CHR '']''} \<and>
    scan_all scan0 r = Some t \<and> sn_stack t = [] \<and> \<not> sn_in_string t \<and>
    append_missing_json_closers r = None"
proof -
  obtain t where t: "scan_all scan0 s = Some t" "sn_stack t \<noteq> []" "r = trim_end s @ sn_stack t"
    using assms by (auto simp: append_missing_json_closers_def split: option.splits if_splits)
  have "set (sn_stack t) \<subseteq> {CHR ''}'', CHR '']''}"
    using scan_all_closers [OF _ t(1)] by (simp add: only_closers_def scan0_def)
  moreover obtain u where u: "scan_all scan0 r = Some u" "sn_stack u = []" "\<not> sn_in_string u"
    using repaired_scan [OF assms] by blast
  moreover have "append_missing_json_closers r = None"
    using u by (simp add: append_missing_json_closers_def)
  ultimately show ?thesis using t(2,3) by blast
qed

theorem json_repair_balances_witness:
  "append_missing_json_closers ''[{'' = Some ''[{}]'' \<and>
   append_missing_json_closers ''[{}]'' = None"
proof -
  have "append_missing_json_closers ''[{'' = Some ''[{}]''" by code_simp
  from json_repair_balances [OF this] this show ?thesis by blast
qed

end
