(* ===== verification/Workflow_Transcript.thy ===== *)
theory Workflow_Transcript
  imports Workflow_Ops
begin

text \<open>
  Transcript events as the engine sees them (\<open>src/src/transcripts/types.rs\<close>), the file that
  remembers how far a session has been read (\<open>src/src/transcripts/cursor_store.rs\<close>) and the test and
  payload of a provider-event wait (\<open>src/src/workflow/engine/provider_events.rs\<close>). The adapters that
  read the files of the providers are parameters.
\<close>

section \<open>Providers and events\<close>

datatype provider =
    Claude | Glm | Deepseek | Inception | Codex | Brodex | Copilot | Vibe | VibeBh | Gemini
  | WorkflowProvider

text \<open>The name a provider has as text and in JSON, and the one it has in the id of an event: they differ for
  \<open>Glm\<close> only.\<close>

fun provider_name :: "provider \<Rightarrow> string" where
  "provider_name Claude = ''claude''"
| "provider_name Glm = ''glm''"
| "provider_name Deepseek = ''deepseek''"
| "provider_name Inception = ''inception''"
| "provider_name Codex = ''codex''"
| "provider_name Brodex = ''brodex''"
| "provider_name Copilot = ''copilot''"
| "provider_name Vibe = ''vibe''"
| "provider_name VibeBh = ''vibebh''"
| "provider_name Gemini = ''gemini''"
| "provider_name WorkflowProvider = ''workflow''"

definition provider_id_name :: "provider \<Rightarrow> string" where
  "provider_id_name p = (if p = Glm then ''opencode'' else provider_name p)"

datatype transcript_role =
    RoleUser | RoleAssistant | RoleThinking | RoleToolUse | RoleToolResult | RoleDeveloper

datatype transcript_kind = KindMessage | KindThinking | KindToolUse | KindToolResult | KindDeveloper

record transcript_event =
  tv_provider :: provider
  tv_role :: transcript_role
  tv_kind :: transcript_kind
  tv_content :: string
  tv_session_id :: string
  tv_tool :: "string option"
  tv_path :: string
  tv_byte_offset :: "64 word option"
  tv_event_idx :: "u32 option"
  tv_entity_id :: "string option"

definition event_kind_for :: "transcript_role \<Rightarrow> string option \<Rightarrow> transcript_kind" where
  "event_kind_for role tool =
     (case role of
        RoleThinking \<Rightarrow> KindThinking
      | RoleToolUse \<Rightarrow> KindToolUse
      | RoleToolResult \<Rightarrow> KindToolResult
      | RoleDeveloper \<Rightarrow> KindDeveloper
      | _ \<Rightarrow> if tool \<noteq> None then KindToolUse else KindMessage)"

definition jsonl_entity_id :: "transcript_event \<Rightarrow> string option" where
  "jsonl_entity_id ev =
     (case (tv_byte_offset ev, tv_event_idx ev) of
        (Some b, Some i) \<Rightarrow>
          Some (provider_id_name (tv_provider ev) @ '':'' @ tv_session_id ev @ '':'' @
                show_nat (unat b) @ '':'' @ show_nat (unat i))
      | _ \<Rightarrow> None)"

fun transcript_event_kind_name :: "transcript_kind \<Rightarrow> string" where
  "transcript_event_kind_name KindMessage = ''message''"
| "transcript_event_kind_name KindThinking = ''thinking''"
| "transcript_event_kind_name KindToolUse = ''tool_use''"
| "transcript_event_kind_name KindToolResult = ''tool_result''"
| "transcript_event_kind_name KindDeveloper = ''developer''"

text \<open>The \<open>Debug\<close> form of a role in lower case, which has no underscores.\<close>

fun role_name :: "transcript_role \<Rightarrow> string" where
  "role_name RoleUser = ''user''"
| "role_name RoleAssistant = ''assistant''"
| "role_name RoleThinking = ''thinking''"
| "role_name RoleToolUse = ''tooluse''"
| "role_name RoleToolResult = ''toolresult''"
| "role_name RoleDeveloper = ''developer''"

section \<open>What a wait looks for\<close>

definition provider_event_matches :: "provider_event_wait \<Rightarrow> transcript_event \<Rightarrow> bool" where
  "provider_event_matches pe ev =
     ((case pw_kind pe of Some k \<Rightarrow> transcript_event_kind_name (tv_kind ev) = k | None \<Rightarrow> True) \<and>
      (case pw_tool pe of Some t \<Rightarrow> tv_tool ev = Some t | None \<Rightarrow> True) \<and>
      (case pw_contains pe of Some n \<Rightarrow> contains_str (tv_content ev) n | None \<Rightarrow> True))"

definition provider_event_payload :: "string \<Rightarrow> string \<Rightarrow> transcript_event \<Rightarrow> json" where
  "provider_event_payload task_id actor ev =
     JObj [(''taskId'', JStr task_id), (''actor'', JStr actor),
           (''provider'', JStr (provider_name (tv_provider ev))),
           (''sessionId'', JStr (tv_session_id ev)),
           (''kind'', JStr (transcript_event_kind_name (tv_kind ev))),
           (''role'', JStr (role_name (tv_role ev))),
           (''content'', JStr (tv_content ev)),
           (''tool'', jopt_str (tv_tool ev)),
           (''cursor'', jopt_str (case tv_entity_id ev of Some i \<Rightarrow> Some i | None \<Rightarrow> jsonl_entity_id ev)),
           (''path'', JStr (tv_path ev))]"

section \<open>Cursors\<close>

datatype transcript_cursor =
    ByteOffset "64 word"
  | ProviderEventId string
  | MessageIdSet "string list"
  | SqliteRow string int string

text \<open>A location is known by its fingerprint, the hash the store keeps of it.\<close>

record transcript_location =
  tl_provider :: provider
  tl_path :: string
  tl_fingerprint :: string

record cursor_record =
  cr_fingerprint :: string
  cr_cursor :: transcript_cursor

definition cursor_get ::
  "string \<Rightarrow> transcript_location \<Rightarrow> cursor_record smap \<Rightarrow> transcript_cursor option" where
  "cursor_get session_id loc cs =
     (case obj_get cs session_id of
        Some r \<Rightarrow> if cr_fingerprint r = tl_fingerprint loc then Some (cr_cursor r) else None
      | None \<Rightarrow> None)"

definition cursor_set ::
  "string \<Rightarrow> transcript_location \<Rightarrow> transcript_cursor \<Rightarrow> cursor_record smap \<Rightarrow> cursor_record smap" where
  "cursor_set session_id loc c cs =
     obj_insert cs session_id \<lparr>cr_fingerprint = tl_fingerprint loc, cr_cursor = c\<rparr>"

text \<open>What a task remembers of its transcript.\<close>

record transcript_task =
  tt_provider :: provider
  tt_session_id :: string
  tt_location :: "transcript_location option"
  tt_cursor :: "transcript_cursor option"

record 's transcripts =
  ts_has_task :: "string \<Rightarrow> 's \<Rightarrow> bool"
  ts_task :: "string \<Rightarrow> 's \<Rightarrow> transcript_task"
  ts_set_task :: "string \<Rightarrow> transcript_task \<Rightarrow> 's \<Rightarrow> 's"
  ts_adapter :: "provider \<Rightarrow> bool"
  ts_locate :: "provider \<Rightarrow> string \<Rightarrow> 's \<Rightarrow> string + transcript_location option"
  ts_read_since ::
    "transcript_location \<Rightarrow> transcript_cursor option \<Rightarrow> 's \<Rightarrow>
       string + transcript_event list \<times> transcript_cursor option"
  ts_cursors :: "provider \<Rightarrow> 's \<Rightarrow> string + cursor_record smap"
  ts_save_cursors :: "provider \<Rightarrow> cursor_record smap \<Rightarrow> 's \<Rightarrow> 's"
  ts_persist :: "'s \<Rightarrow> 's"
  ts_clock :: "'s \<Rightarrow> nat \<times> 's"
  ts_pause :: "nat \<Rightarrow> 's \<Rightarrow> 's"

text \<open>One read: the session must be known, the location comes from the task or from the adapter and is kept in
  the task, the cursor comes from the task or from the file, and the file takes the new one.\<close>

definition locate_task ::
  "'s transcripts \<Rightarrow> transcript_task \<Rightarrow> 's \<Rightarrow> string + transcript_location" where
  "locate_task ts t w =
     (let who = provider_name (tt_provider t) @ ''/'' @ tt_session_id t in
      if tt_session_id t = [] \<or> tt_session_id t = ''pending''
      then Inl (''provider '' @ provider_name (tt_provider t) @ '' has no resolved session id yet'')
      else if \<not> ts_adapter ts (tt_provider t)
      then Inl (''no transcript adapter registered for provider '' @ provider_name (tt_provider t))
      else (case tt_location t of
              Some loc \<Rightarrow> Inr loc
            | None \<Rightarrow>
                (case ts_locate ts (tt_provider t) (tt_session_id t) w of
                   Inl e \<Rightarrow> Inl (''locate '' @ who @ '': '' @ e)
                 | Inr None \<Rightarrow> Inl (''no transcript location for '' @ who)
                 | Inr (Some loc) \<Rightarrow> Inr loc)))"

definition keep_location ::
  "'s transcripts \<Rightarrow> string \<Rightarrow> transcript_task \<Rightarrow> transcript_location \<Rightarrow> 's \<Rightarrow> 's" where
  "keep_location ts task_id t loc w =
     (if tt_location t = None then ts_set_task ts task_id (t\<lparr>tt_location := Some loc\<rparr>) w else w)"

definition read_located ::
  "'s transcripts \<Rightarrow> transcript_task \<Rightarrow> transcript_location \<Rightarrow> 's \<Rightarrow>
     (string + transcript_event list \<times> transcript_cursor option) \<times> 's" where
  "read_located ts t loc w =
     (let cs = (case ts_cursors ts (tt_provider t) w of Inr cs \<Rightarrow> cs | Inl _ \<Rightarrow> []);
          durable = (case tt_cursor t of Some c \<Rightarrow> Some c | None \<Rightarrow> cursor_get (tt_session_id t) loc cs)
      in case ts_read_since ts loc durable w of
           Inl e \<Rightarrow>
             (Inl (''read '' @ provider_name (tt_provider t) @ ''/'' @ tt_session_id t @ '': '' @ e), w)
         | Inr (evs, cursor) \<Rightarrow>
             (Inr (evs, cursor),
              case cursor of
                Some c \<Rightarrow>
                  ts_save_cursors ts (tt_provider t) (cursor_set (tt_session_id t) loc c cs) w
              | None \<Rightarrow> w))"

definition read_provider_event_batch ::
  "'s transcripts \<Rightarrow> string \<Rightarrow> 's \<Rightarrow>
     (string + transcript_event list \<times> transcript_cursor option) \<times> 's" where
  "read_provider_event_batch ts task_id w =
     (let t = ts_task ts task_id w in
      case locate_task ts t w of
        Inl e \<Rightarrow> (Inl e, w)
      | Inr loc \<Rightarrow> read_located ts t loc (keep_location ts task_id t loc w))"

text \<open>The loop keeps the new cursor in the task and writes the tasks to disk.\<close>

definition keep_cursor ::
  "'s transcripts \<Rightarrow> string \<Rightarrow> transcript_cursor option \<Rightarrow> 's \<Rightarrow> 's" where
  "keep_cursor ts task_id cursor w =
     (case cursor of
        Some c \<Rightarrow>
          ts_persist ts (ts_set_task ts task_id ((ts_task ts task_id w)\<lparr>tt_cursor := Some c\<rparr>) w)
      | None \<Rightarrow> w)"

section \<open>How long to wait\<close>

text \<open>Instants and durations are milliseconds.\<close>

definition retry_default :: nat where
  "retry_default = 20000"

definition provider_event_retry_delay :: "nat option \<Rightarrow> nat \<Rightarrow> nat" where
  "provider_event_retry_delay deadline now =
     (case deadline of
        None \<Rightarrow> retry_default
      | Some d \<Rightarrow> if d - now = 0 then 1 else min (d - now) retry_default)"

section \<open>A cursor is what was written for the same place\<close>

lemma cursor_get_set:
  "cursor_get s' loc' (cursor_set s loc c cs) =
     (if s' = s then (if tl_fingerprint loc' = tl_fingerprint loc then Some c else None)
      else cursor_get s' loc' cs)"
  by (auto simp: cursor_get_def cursor_set_def)

end
