(* ===== verification/Workflow_Runner.thy ===== *)
theory Workflow_Runner
  imports Workflow_Wait Workflow_Transcript Packet_Store
begin

text \<open>
  The state of a running arc (\<open>WorkflowRunner\<close> of \<open>src/src/workflow/engine.rs\<close>), its errors, and
  what it takes from the server. An operation of the runner is a function from the runner to a
  result and the runner it leaves; on an error the changes made so far stay. The server is a
  record of functions over a world type: what the daemon, its processes and the clock answer is
  arbitrary. The packet store and the wait registry are parts of that world and are the models of
  this library. Log events and notes carry their kind and their subject; the longer texts and
  figures the code puts in them, which nothing reads back, are left out.
\<close>

section \<open>Errors and results\<close>

datatype engine_error =
    ArcCancelled
  | NoMetadata string
  | MaxStepsExceeded nat
  | BranchNoVerdict string
  | BranchNoCase string string
  | GateErrored string string store_error
  | PolicyHalted string nat string
  | HookGateErrored string nat string store_error
  | HookEffectErrored string nat var_error
  | HookErrored string nat string
  | AsyncNoTarget string
  | AsyncNoActor string string
  | AsyncNoBrofile string
  | AsyncTerminalMode string string
  | AsyncNoTeam string
  | DispatchFailed string string
  | JoinTimeout string
  | JoinFailed string
  | MemberTimeout string
  | ActorUndeclared string string
  | ExecutorNoBrofile string
  | EnsembleNoTeam string
  | NodeTimeout string string
  | NodeFailed string string string
  | RetryCeiling string u32 u32
  | AtomAsync string string
  | AtomBindingUndeclared string string
  | AtomArgsUnresolved string string
  | AtomFailed string string
  | AtomNoInvocation string
  | SubRefUnknown string string
  | SubMissing string
  | SubTooDeep string nat
  | SubCompileFailed string wf_error
  | SubIncapable string string
  | SubNotCompleted string run_status
  | SubExportRejected string string var_error
  | SubExportMissing string string
  | FanoutNotExactlyOne string
  | FanoutItems string string
  | FanoutNotArray string
  | MatrixOverflow string
  | MatrixTooManyItems string nat
  | FanoutTooManyItems string nat
  | FanoutKeyEmpty string nat
  | FanoutKeyDuplicate string string
  | FanoutCollectRejected var_error
  | FanoutFailed string string
  | WaitSlotEmpty string
  | ProviderNoTask string
  | ProviderTaskMissing string
  | ProviderReadFailed string
  | ProviderStillWaiting string
and run_status =
    Completed
  | CancelledArc
  | ErrorRun engine_error
  | ErrorSeed var_error
  | ErrorMissing "string list"
  | ErrorDepth nat
  | ErrorOutcome string

record run_result =
  rr_status :: run_status
  rr_events :: "(string \<times> string) list"
  rr_node_outputs :: "string smap"
  rr_vars :: jmap
  rr_structured_exit :: "json option"
  rr_arc_id :: string
  rr_thread_id :: "string option"
  rr_actor_sessions :: "string smap"

definition failed_result :: "run_status \<Rightarrow> string \<Rightarrow> (string \<times> string) list \<Rightarrow> run_result" where
  "failed_result status arc_id evs =
     \<lparr>rr_status = status, rr_events = evs, rr_node_outputs = [], rr_vars = [],
      rr_structured_exit = None, rr_arc_id = arc_id, rr_thread_id = None, rr_actor_sessions = []\<rparr>"

section \<open>The server\<close>

record arc_snapshot =
  as_arc_id :: string
  as_thread_id :: string
  as_workflow_name :: string
  as_workflow_version :: u32
  as_status :: string
  as_current_node :: string
  as_completed_nodes :: "string list"
  as_in_flight_nodes :: "string list"
  as_last_verdict :: "string option"
  as_visit_counts :: "u32 smap"

datatype effect =
    ArcNote string string string
  | SystemEvent string string
  | PutSnapshot arc_snapshot
  | RegisterToken string "string option"
  | ReleaseToken string
  | CancelToken string

record task_report =
  tr_completed :: bool
  tr_result :: jmap
  tr_snapshot :: jmap
  tr_session :: string

record dispatch =
  dp_target :: string
  dp_prompt :: string
  dp_project_dir :: "string option"
  dp_session :: "string option"
  dp_task :: "string option"
  dp_runtime :: "json option"

record team_dispatch =
  td_team :: string
  td_prompt :: string
  td_project_dir :: "string option"
  td_sessions :: "string smap"
  td_tasks :: "string smap"
  td_runtime :: "json option"

record atom_call =
  at_atom :: string
  at_args :: json
  at_project_dir :: "string option"
  at_owner :: string
  at_parent :: "string option"
  at_supervision :: "supervision_override option"
  at_limits :: "json option"

text \<open>The call of the engine on an embedded workflow.\<close>

record child_call =
  cc_spec :: workflow
  cc_project_dir :: "string option"
  cc_depth :: nat
  cc_seed_outputs :: "string smap"
  cc_initial_vars :: jmap
  cc_parent_arc :: "string option"
  cc_token :: "string option"
  cc_max_steps :: "nat option"

record 's server =
  se_cancelled :: "string \<Rightarrow> 's \<Rightarrow> bool \<times> 's"
  se_now :: "'s \<Rightarrow> string \<times> 's"
  se_new_arc :: "'s \<Rightarrow> string \<times> 's"
  se_new_group :: "string \<Rightarrow> 's \<Rightarrow> string \<times> 's"
  se_open_thread :: "string \<Rightarrow> 's \<Rightarrow> (string + string option) \<times> 's"
  se_emit :: "effect \<Rightarrow> 's \<Rightarrow> 's"
  se_store :: "'s \<Rightarrow> store"
  se_waits :: "'s \<Rightarrow> wait_world"
  se_set_waits :: "wait_world \<Rightarrow> 's \<Rightarrow> 's"
  se_new_slot :: "'s \<Rightarrow> nat \<times> 's"
  se_journal :: "'s \<Rightarrow> journal"
  se_suspend :: "string \<Rightarrow> nat \<Rightarrow> nat option \<Rightarrow> 's \<Rightarrow> wait_outcome \<times> 's"
  se_sleep :: "string \<Rightarrow> nat \<Rightarrow> 's \<Rightarrow> bool \<times> 's"
  se_transcripts :: "'s transcripts"
  se_is_terminal :: "string \<Rightarrow> string option \<Rightarrow> 's \<Rightarrow> bool"
  se_runtime :: "actor_spec \<Rightarrow> json option"
  se_dispatch :: "dispatch \<Rightarrow> 's \<Rightarrow> (string + string) \<times> 's"
  se_dispatch_tmux :: "dispatch \<Rightarrow> string \<Rightarrow> string \<Rightarrow> 's \<Rightarrow> (string + string) \<times> 's"
  se_dispatch_team :: "team_dispatch \<Rightarrow> 's \<Rightarrow> (string + (string \<times> string) list) \<times> 's"
  se_await :: "string \<Rightarrow> 's \<Rightarrow> task_report \<times> 's"
  se_await_team ::
    "(string \<times> string) list \<Rightarrow> 's \<Rightarrow> (string + (string \<times> string \<times> task_report) list) \<times> 's"
  se_atom_invoke :: "atom_call \<Rightarrow> 's \<Rightarrow> (string + json) \<times> 's"
  se_atom_resume :: "string \<Rightarrow> string \<Rightarrow> string \<Rightarrow> 's \<Rightarrow> (string + json) \<times> 's"
  se_atom_settle :: "string \<Rightarrow> string \<Rightarrow> 's \<Rightarrow> bool \<times> 's"
  se_atom_status :: "string \<Rightarrow> string \<Rightarrow> 's \<Rightarrow> (string + json) \<times> 's"
  se_op :: "arc_context \<Rightarrow> 's outside_op"
  se_workflow :: "string \<Rightarrow> 's \<Rightarrow> workflow option"
  se_incapable :: "workflow \<Rightarrow> 's \<Rightarrow> string option"
  se_fanout_pick :: "nat list \<Rightarrow> 's \<Rightarrow> (nat \<times> bool) \<times> 's"

section \<open>The runner\<close>

datatype in_flight =
    Single string bool string
  | Ensemble string bool "(string \<times> string) list"

record 's runner =
  rn_project_dir :: "string option"
  rn_node_outputs :: "string smap"
  rn_ctx :: arc_context
  rn_actor_sessions :: "string smap"
  rn_actor_tasks :: "string smap"
  rn_atom_invocations :: "string smap"
  rn_ensemble_sessions :: "string smap smap"
  rn_ensemble_tasks :: "string smap smap"
  rn_in_flight :: "in_flight smap"
  rn_visit_counts :: "u32 smap"
  rn_last_verdict :: "string option"
  rn_events :: "(string \<times> string) list"
  rn_thread_id :: "string option"
  rn_world :: 's

text \<open>What does not change while an arc runs: the compiled workflow, the limits (\<open>en_polls\<close> is the number
  of polls a wait for a provider event may spend), the libraries (the text forms of errors and
  structured arguments among them) and the engine for its children.\<close>

record 's engine =
  en_server :: "'s server"
  en_lib :: wf_lib
  en_plib :: packet_lib
  en_parse :: "string \<Rightarrow> json option"
  en_pretty :: "json \<Rightarrow> string"
  en_error_text :: "engine_error \<Rightarrow> string"
  en_spec :: workflow
  en_max_steps :: nat
  en_polls :: nat
  en_depth :: nat
  en_child :: "child_call \<Rightarrow> 's \<Rightarrow> run_result \<times> 's"

section \<open>Operations of the runner\<close>

type_synonym ('s, 'a) eng = "'s runner \<Rightarrow> (engine_error + 'a) \<times> 's runner"

definition eret :: "'a \<Rightarrow> ('s, 'a) eng" where
  "eret a s = (Inr a, s)"

definition efail :: "engine_error \<Rightarrow> ('s, 'a) eng" where
  "efail e s = (Inl e, s)"

definition ebind :: "('s, 'a) eng \<Rightarrow> ('a \<Rightarrow> ('s, 'b) eng) \<Rightarrow> ('s, 'b) eng" where
  "ebind m f s = (case m s of (Inl e, s') \<Rightarrow> (Inl e, s') | (Inr a, s') \<Rightarrow> f a s')"

definition eseq :: "('s, 'a) eng \<Rightarrow> ('s, 'b) eng \<Rightarrow> ('s, 'b) eng" where
  "eseq m n = ebind m (\<lambda>_. n)"

definition eget :: "('s runner \<Rightarrow> 'a) \<Rightarrow> ('s, 'a) eng" where
  "eget f s = (Inr (f s), s)"

definition eupd :: "('s runner \<Rightarrow> 's runner) \<Rightarrow> ('s, unit) eng" where
  "eupd f s = (Inr (), f s)"

definition elift :: "engine_error + 'a \<Rightarrow> ('s, 'a) eng" where
  "elift r s = (r, s)"

definition ecall :: "('s \<Rightarrow> 'a \<times> 's) \<Rightarrow> ('s, 'a) eng" where
  "ecall f s = (let r = f (rn_world s) in (Inr (fst r), s\<lparr>rn_world := snd r\<rparr>))"

definition ewhen :: "bool \<Rightarrow> ('s, unit) eng \<Rightarrow> ('s, unit) eng" where
  "ewhen b m = (if b then m else eret ())"

fun eeach :: "('a \<Rightarrow> ('s, unit) eng) \<Rightarrow> 'a list \<Rightarrow> ('s, unit) eng" where
  "eeach f [] = eret ()"
| "eeach f (x # xs) = eseq (f x) (eeach f xs)"

text \<open>A result of the server with a message becomes an error of the engine.\<close>

definition etry :: "(string \<Rightarrow> engine_error) \<Rightarrow> string + 'a \<Rightarrow> ('s, 'a) eng" where
  "etry f r = elift (map_err f r)"

definition erequire :: "engine_error \<Rightarrow> 'a option \<Rightarrow> ('s, 'a) eng" where
  "erequire e x = (case x of Some v \<Rightarrow> eret v | None \<Rightarrow> efail e)"

definition ecatch :: "('s, 'a) eng \<Rightarrow> (engine_error \<Rightarrow> ('s, 'a) eng) \<Rightarrow> ('s, 'a) eng" where
  "ecatch m h s = (case m s of (Inl e, s') \<Rightarrow> h e s' | (Inr a, s') \<Rightarrow> (Inr a, s'))"

lemmas eng_defs = eret_def efail_def ebind_def eseq_def eget_def eupd_def elift_def ecall_def
  ewhen_def etry_def erequire_def ecatch_def

definition log_event :: "string \<Rightarrow> string \<Rightarrow> ('s, unit) eng" where
  "log_event kind subject = eupd (\<lambda>s. s\<lparr>rn_events := rn_events s @ [(kind, subject)]\<rparr>)"

definition emit_effect :: "'s engine \<Rightarrow> effect \<Rightarrow> ('s, unit) eng" where
  "emit_effect en ef = eupd (\<lambda>s. s\<lparr>rn_world := se_emit (en_server en) ef (rn_world s)\<rparr>)"

definition emit_system_event :: "'s engine \<Rightarrow> string \<Rightarrow> string \<Rightarrow> ('s, unit) eng" where
  "emit_system_event en kind subject = emit_effect en (SystemEvent kind subject)"

definition arc_note :: "'s engine \<Rightarrow> string \<Rightarrow> string \<Rightarrow> ('s, unit) eng" where
  "arc_note en kind subject =
     ebind (eget rn_thread_id) (\<lambda>t.
       case t of None \<Rightarrow> eret () | Some thread \<Rightarrow> emit_effect en (ArcNote thread kind subject))"

definition record_output :: "string \<Rightarrow> string \<Rightarrow> ('s, unit) eng" where
  "record_output node_id txt =
     eupd (\<lambda>s. s\<lparr>rn_ctx := set_output node_id (JStr txt) (rn_ctx s),
                rn_node_outputs := obj_insert (rn_node_outputs s) node_id txt\<rparr>)"

definition arc_id_of :: "'s runner \<Rightarrow> string" where
  "arc_id_of s = me_arc_id (cx_meta (rn_ctx s))"

definition poll_cancelled :: "'s engine \<Rightarrow> ('s, bool) eng" where
  "poll_cancelled en =
     ebind (eget arc_id_of) (\<lambda>arc. ecall (se_cancelled (en_server en) arc))"

definition ensure_not_cancelled :: "'s engine \<Rightarrow> string \<Rightarrow> ('s, unit) eng" where
  "ensure_not_cancelled en node_id =
     ebind (poll_cancelled en) (\<lambda>c.
       ewhen c (eseq (log_event ''cancelled'' node_id) (efail ArcCancelled)))"

definition effective_project_dir :: "'s runner \<Rightarrow> string option" where
  "effective_project_dir s =
     (case me_worktree (cx_meta (rn_ctx s)) of Some w \<Rightarrow> Some w | None \<Rightarrow> rn_project_dir s)"

definition render_prompt :: "'s engine \<Rightarrow> string \<Rightarrow> ('s, string) eng" where
  "render_prompt en template = eget (\<lambda>s. render_template (en_lib en) (rn_ctx s) template)"

definition node_of :: "'s engine \<Rightarrow> string \<Rightarrow> workflow node_spec option" where
  "node_of en node_id = obj_get (wf_nodes (en_spec en)) node_id"

definition completed_node_names :: "'s engine \<Rightarrow> 's runner \<Rightarrow> string list" where
  "completed_node_names en s =
     sort_strings (filter (\<lambda>n. obj_has (wf_nodes (en_spec en)) n) (map fst (rn_node_outputs s)))"

definition update_arc_snapshot ::
  "'s engine \<Rightarrow> string \<Rightarrow> string \<Rightarrow> string option \<Rightarrow> ('s, unit) eng" where
  "update_arc_snapshot en status just_ran nxt =
     ebind (eget id) (\<lambda>s.
       case rn_thread_id s of
         None \<Rightarrow> eret ()
       | Some thread \<Rightarrow>
           emit_effect en (PutSnapshot
             \<lparr>as_arc_id = arc_id_of s, as_thread_id = thread,
              as_workflow_name = wf_name (en_spec en), as_workflow_version = wf_version (en_spec en),
              as_status = status,
              as_current_node = (case nxt of Some n \<Rightarrow> n | None \<Rightarrow> just_ran),
              as_completed_nodes = completed_node_names en s,
              as_in_flight_nodes = sort_strings (map fst (rn_in_flight s)),
              as_last_verdict = rn_last_verdict s,
              as_visit_counts = filter (\<lambda>(k, _). \<not> starts_with k ''__'') (rn_visit_counts s)\<rparr>))"

section \<open>What an operation keeps\<close>

text \<open>An operation keeps a predicate of the runner when every run of it, failing or not, does.\<close>

definition keeps :: "('s runner \<Rightarrow> bool) \<Rightarrow> ('s, 'a) eng \<Rightarrow> bool" where
  "keeps P m = (\<forall>s. P s \<longrightarrow> P (snd (m s)))"

named_theorems keeps_intro \<open>operations that keep a predicate\<close>

lemma keepsD: "keeps P m \<Longrightarrow> P s \<Longrightarrow> P (snd (m s))"
  by (simp add: keeps_def)

lemma keeps_ret [keeps_intro]: "keeps P (eret a)"
  by (simp add: keeps_def eret_def)

lemma keeps_fail [keeps_intro]: "keeps P (efail e)"
  by (simp add: keeps_def efail_def)

lemma keeps_lift [keeps_intro]: "keeps P (elift r)"
  by (simp add: keeps_def elift_def)

lemma keeps_try [keeps_intro]: "keeps P (etry f r)"
  by (simp add: etry_def keeps_lift)

lemma keeps_require [keeps_intro]: "keeps P (erequire e x)"
  by (simp add: erequire_def keeps_ret keeps_fail split: option.splits)

lemma keeps_get [keeps_intro]: "keeps P (eget f)"
  by (simp add: keeps_def eget_def)

lemma keeps_bind [keeps_intro]: "keeps P m \<Longrightarrow> (\<And>a. keeps P (f a)) \<Longrightarrow> keeps P (ebind m f)"
  by (fastforce simp: keeps_def ebind_def split: prod.splits sum.splits dest: spec)

lemma keeps_catch [keeps_intro]: "keeps P m \<Longrightarrow> (\<And>e. keeps P (h e)) \<Longrightarrow> keeps P (ecatch m h)"
  by (fastforce simp: keeps_def ecatch_def split: prod.splits sum.splits dest: spec)

lemma keeps_seq [keeps_intro]: "keeps P m \<Longrightarrow> keeps P n \<Longrightarrow> keeps P (eseq m n)"
  by (simp add: eseq_def keeps_bind)

lemma keeps_when [keeps_intro]: "keeps P m \<Longrightarrow> keeps P (ewhen b m)"
  by (simp add: ewhen_def keeps_ret)

lemma keeps_each [keeps_intro]: "(\<And>x. x \<in> set xs \<Longrightarrow> keeps P (f x)) \<Longrightarrow> keeps P (eeach f xs)"
  by (induction xs) (auto intro: keeps_intro)

lemma keeps_upd [keeps_intro]: "(\<And>s. P s \<Longrightarrow> P (f s)) \<Longrightarrow> keeps P (eupd f)"
  by (simp add: keeps_def eupd_def)

lemma keeps_call [keeps_intro]: "(\<And>s w. P s \<Longrightarrow> P (s\<lparr>rn_world := w\<rparr>)) \<Longrightarrow> keeps P (ecall f)"
  by (simp add: keeps_def ecall_def Let_def)

lemma keeps_if [keeps_intro]: "keeps P m \<Longrightarrow> keeps P n \<Longrightarrow> keeps P (if b then m else n)"
  by simp

end
