(* ===== verification/Workflow_Provider.thy ===== *)
theory Workflow_Provider
  imports Workflow_Runner
begin

text \<open>
  A wait for an event in the transcript of an actor's task
  (\<open>src/src/workflow/engine/provider_events.rs\<close>): a loop that polls for cancellation, the deadline
  and a batch of events, gives up after three failed reads in a row and sleeps between the polls.
  Without a deadline the loop may run for ever, so it has a number of polls to spend; with one, a
  number that depends on the deadline alone is enough.
\<close>

section \<open>The polling loop\<close>

definition find_actor_task_id :: "string \<Rightarrow> arc_context \<Rightarrow> string option" where
  "find_actor_task_id actor ctx =
     Option.bind
       (find (\<lambda>v. arg_str v ''actor'' = Some actor \<and> arg_str v ''taskId'' \<noteq> None)
         (map snd (cx_actor_results ctx)))
       (\<lambda>v. arg_str v ''taskId'')"

abbreviation transcripts_of :: "'s engine \<Rightarrow> 's transcripts" where
  "transcripts_of en \<equiv> se_transcripts (en_server en)"

definition past_deadline :: "'s engine \<Rightarrow> nat option \<Rightarrow> ('s, bool) eng" where
  "past_deadline en deadline =
     (case deadline of
        None \<Rightarrow> eret False
      | Some d \<Rightarrow> ebind (ecall (ts_clock (transcripts_of en))) (\<lambda>now. eret (d \<le> now)))"

definition pause_poll :: "'s engine \<Rightarrow> nat option \<Rightarrow> ('s, unit) eng" where
  "pause_poll en deadline =
     ebind (case deadline of None \<Rightarrow> eret 0 | Some d \<Rightarrow> ecall (ts_clock (transcripts_of en)))
       (\<lambda>now. ecall (\<lambda>w. ((), ts_pause (transcripts_of en) (provider_event_retry_delay deadline now) w)))"

definition provider_timed_out ::
  "'s engine \<Rightarrow> string \<Rightarrow> provider_event_wait \<Rightarrow> string \<Rightarrow> ('s, unit) eng" where
  "provider_timed_out en node_id pe task =
     eseq (log_event ''provider_event_timeout'' node_id)
       (eseq (record_output node_id (wl_show (en_lib en)
               (JObj [(''name'', JStr ''__timeout__''), (''actor'', JStr (pw_actor pe)),
                      (''taskId'', JStr task)])))
         (arc_note en ''surprise'' node_id))"

definition provider_resolved ::
  "'s engine \<Rightarrow> string \<Rightarrow> provider_event_wait \<Rightarrow> string \<Rightarrow> transcript_event \<Rightarrow> ('s, unit) eng" where
  "provider_resolved en node_id pe task ev =
     eseq (log_event ''provider_event_resolved'' node_id)
       (eseq (record_output node_id
               (wl_show (en_lib en) (provider_event_payload task (pw_actor pe) ev)))
         (arc_note en ''done'' node_id))"

definition max_read_errors :: nat where
  "max_read_errors = 3"

text \<open>A poll ends the wait, or says how many reads have now failed in a row.\<close>

definition provider_batch ::
  "'s engine \<Rightarrow> string \<Rightarrow> provider_event_wait \<Rightarrow> string \<Rightarrow> nat option \<Rightarrow> nat \<Rightarrow>
     string + transcript_event list \<times> transcript_cursor option \<Rightarrow> ('s, nat option) eng" where
  "provider_batch en node_id pe task deadline errors batch =
     (case batch of
        Inr (evs, cursor) \<Rightarrow>
          eseq (ecall (\<lambda>w. ((), keep_cursor (transcripts_of en) task cursor w)))
            (case find (provider_event_matches pe) evs of
               Some ev \<Rightarrow> eseq (provider_resolved en node_id pe task ev) (eret None)
             | None \<Rightarrow> eseq (pause_poll en deadline) (eret (Some 0)))
      | Inl e \<Rightarrow>
          eseq (log_event ''provider_event_read_error'' node_id)
            (if max_read_errors \<le> Suc errors
             then eseq (arc_note en ''blocked'' node_id) (efail (ProviderReadFailed e))
             else eseq (pause_poll en deadline) (eret (Some (Suc errors)))))"

definition provider_poll ::
  "'s engine \<Rightarrow> string \<Rightarrow> provider_event_wait \<Rightarrow> string \<Rightarrow> nat option \<Rightarrow> nat \<Rightarrow>
     ('s, nat option) eng" where
  "provider_poll en node_id pe task deadline errors =
     ebind (poll_cancelled en) (\<lambda>cancelled.
       if cancelled
       then eseq (log_event ''provider_event_cancelled'' node_id) (efail ArcCancelled)
       else ebind (past_deadline en deadline) (\<lambda>late.
         if late then eseq (provider_timed_out en node_id pe task) (eret None)
         else ebind (ecall (read_provider_event_batch (transcripts_of en) task))
                (provider_batch en node_id pe task deadline errors)))"

fun provider_loop ::
  "'s engine \<Rightarrow> string \<Rightarrow> provider_event_wait \<Rightarrow> string \<Rightarrow> nat option \<Rightarrow> nat \<Rightarrow> nat \<Rightarrow>
     ('s, unit) eng" where
  "provider_loop en node_id pe task deadline 0 errors = efail (ProviderStillWaiting node_id)"
| "provider_loop en node_id pe task deadline (Suc polls) errors =
     ebind (provider_poll en node_id pe task deadline errors) (\<lambda>r.
       case r of
         None \<Rightarrow> eret ()
       | Some n \<Rightarrow> provider_loop en node_id pe task deadline polls n)"

definition deadline_of :: "'s engine \<Rightarrow> nat option \<Rightarrow> ('s, nat option) eng" where
  "deadline_of en timeout =
     (case timeout of
        None \<Rightarrow> eret None
      | Some secs \<Rightarrow>
          ebind (ecall (ts_clock (transcripts_of en))) (\<lambda>now. eret (Some (now + 1000 * secs))))"

definition run_provider_event_wait_node ::
  "'s engine \<Rightarrow> string \<Rightarrow> provider_event_wait \<Rightarrow> nat option \<Rightarrow> ('s, unit) eng" where
  "run_provider_event_wait_node en node_id pe timeout =
     ebind (eget (\<lambda>s. case obj_get (rn_actor_tasks s) (pw_actor pe) of
                        Some t \<Rightarrow> Some t
                      | None \<Rightarrow> find_actor_task_id (pw_actor pe) (rn_ctx s))) (\<lambda>t.
     ebind (erequire (ProviderNoTask (pw_actor pe)) t) (\<lambda>task.
     ebind (eget (\<lambda>s. ts_has_task (transcripts_of en) task (rn_world s))) (\<lambda>known.
     if \<not> known then efail (ProviderTaskMissing task)
     else ebind (deadline_of en timeout) (\<lambda>deadline.
       provider_loop en node_id pe task deadline (en_polls en) 0))))"

section \<open>A wait with a deadline returns\<close>

text \<open>What is relied on of the clock: it is read as it stands, no call of the loop turns it back, and a pause
  lasts at least as long as asked for.\<close>

definition clock_runs :: "'s server \<Rightarrow> ('s \<Rightarrow> nat) \<Rightarrow> bool" where
  "clock_runs sv time \<longleftrightarrow>
     (\<forall>w. fst (ts_clock (se_transcripts sv) w) = time (snd (ts_clock (se_transcripts sv) w)) \<and>
          time w \<le> time (snd (ts_clock (se_transcripts sv) w))) \<and>
     (\<forall>d w. time w + d \<le> time (ts_pause (se_transcripts sv) d w)) \<and>
     (\<forall>a w. time w \<le> time (snd (se_cancelled sv a w))) \<and>
     (\<forall>e w. time w \<le> time (se_emit sv e w)) \<and>
     (\<forall>i t w. time w \<le> time (ts_set_task (se_transcripts sv) i t w)) \<and>
     (\<forall>p c w. time w \<le> time (ts_save_cursors (se_transcripts sv) p c w)) \<and>
     (\<forall>w. time w \<le> time (ts_persist (se_transcripts sv) w))"

lemma clock_runsD:
  assumes "clock_runs sv time"
  shows "fst (ts_clock (se_transcripts sv) w) = time (snd (ts_clock (se_transcripts sv) w))"
    "time w \<le> time (snd (ts_clock (se_transcripts sv) w))"
    "time w + d \<le> time (ts_pause (se_transcripts sv) d w)"
    "time w \<le> time (snd (se_cancelled sv a w))"
    "time w \<le> time (se_emit sv e w)"
    "time w \<le> time (ts_set_task (se_transcripts sv) i t w)"
    "time w \<le> time (ts_save_cursors (se_transcripts sv) p c w)"
    "time w \<le> time (ts_persist (se_transcripts sv) w)"
  using assms by (simp_all add: clock_runs_def)

lemma note_time:
  "clock_runs (en_server en) time \<Longrightarrow>
     fst (arc_note en k n s) = Inr () \<and> time (rn_world s) \<le> time (rn_world (snd (arc_note en k n s)))"
  by (auto simp: arc_note_def emit_effect_def eng_defs clock_runsD split: option.splits)

lemma read_time:
  assumes "clock_runs sv time"
  shows "time w \<le> time (snd (read_provider_event_batch (se_transcripts sv) i w))"
proof -
  have "time w \<le> time (keep_location (se_transcripts sv) i t loc w)" for t loc
    by (simp add: keep_location_def clock_runsD [OF assms])
  moreover have "time w' \<le> time (snd (read_located (se_transcripts sv) t loc w'))" for t loc w'
    by (simp add: read_located_def Let_def clock_runsD [OF assms] split: sum.splits prod.splits option.splits)
  ultimately show ?thesis
    by (simp add: read_provider_event_batch_def Let_def split: sum.splits) (blast intro: order_trans)
qed

lemma pause_advances:
  assumes "clock_runs (en_server en) time"
  shows "fst (pause_poll en (Some d) s) = Inr () \<and>
    (d \<le> time (rn_world (snd (pause_poll en (Some d) s))) \<or>
     time (rn_world s) + retry_default \<le> time (rn_world (snd (pause_poll en (Some d) s))))"
proof -
  define c where "c = ts_clock (transcripts_of en) (rn_world s)"
  define delay where "delay = provider_event_retry_delay (Some d) (fst c)"
  have res: "pause_poll en (Some d) s = (Inr (), s\<lparr>rn_world := ts_pause (transcripts_of en) delay (snd c)\<rparr>)"
    by (simp add: pause_poll_def eng_defs Let_def c_def delay_def)
  have "time (snd c) + delay \<le> time (ts_pause (transcripts_of en) delay (snd c))"
    "fst c = time (snd c)" "time (rn_world s) \<le> time (snd c)"
    by (simp_all add: clock_runsD [OF assms] c_def)
  moreover have "d \<le> fst c \<or> d = fst c + delay \<or> delay = retry_default"
    by (auto simp: delay_def provider_event_retry_delay_def min_def)
  ultimately show ?thesis using res by auto
qed

lemma keep_cursor_time:
  "clock_runs sv time \<Longrightarrow> time w \<le> time (keep_cursor (se_transcripts sv) i c w)"
  by (auto simp: keep_cursor_def split: option.splits
      intro: order_trans [OF clock_runsD(6) clock_runsD(8)])

lemma batch_advances:
  assumes "clock_runs (en_server en) time"
    and "provider_batch en n pe task (Some d) k b s = (Inr (Some j), s')"
  shows "d \<le> time (rn_world s') \<or> time (rn_world s) + retry_default \<le> time (rn_world s')"
proof -
  obtain s1 where s1: "time (rn_world s) \<le> time (rn_world s1)" "s' = snd (pause_poll en (Some d) s1)"
  proof (cases b)
    case (Inl e)
    then show ?thesis
      using assms(2) that [of "snd (log_event ''provider_event_read_error'' n s)"]
      by (auto simp: provider_batch_def ebind_def eseq_def efail_def eret_def log_event_def eupd_def
          split: if_splits prod.splits sum.splits)
  next
    case (Inr r)
    then show ?thesis
      using assms(2) that [of "s\<lparr>rn_world := keep_cursor (transcripts_of en) task (snd r) (rn_world s)\<rparr>"]
        keep_cursor_time [OF assms(1)]
      by (auto simp: provider_batch_def ebind_def eseq_def eret_def ecall_def Let_def
          split: prod.splits sum.splits option.splits)
  qed
  then show ?thesis using pause_advances [OF assms(1), of d s1] by auto
qed

lemma poll_advances:
  assumes "clock_runs (en_server en) time"
    and "provider_poll en n pe task (Some d) k s = (Inr (Some j), s')"
  shows "time (rn_world s) < d \<and>
    (d \<le> time (rn_world s') \<or> time (rn_world s) + retry_default \<le> time (rn_world s'))"
proof -
  define w1 where "w1 = snd (se_cancelled (en_server en) (arc_id_of s) (rn_world s))"
  define w2 where "w2 = snd (ts_clock (transcripts_of en) w1)"
  define w3 where "w3 = snd (read_provider_event_batch (transcripts_of en) task w2)"
  have "\<not> d \<le> fst (ts_clock (transcripts_of en) w1)"
    and b: "provider_batch en n pe task (Some d) k (fst (read_provider_event_batch (transcripts_of en) task w2))
           (s\<lparr>rn_world := w3\<rparr>) = (Inr (Some j), s')"
    using assms(2)
    by (auto simp: provider_poll_def poll_cancelled_def past_deadline_def ebind_def eseq_def eget_def
        eret_def efail_def ecall_def Let_def w1_def w2_def w3_def split: if_splits sum.splits prod.splits)
  moreover have "time (rn_world s) \<le> time w1" "time w1 \<le> time w2" "time w2 \<le> time w3"
      "fst (ts_clock (transcripts_of en) w1) = time w2"
    by (simp_all add: w1_def w2_def w3_def clock_runsD [OF assms(1)] read_time [OF assms(1)])
  ultimately show ?thesis using batch_advances [OF assms(1) b] by auto
qed

lemma poll_not_waiting:
  "fst (provider_poll en n pe task d k s) \<noteq> Inl (ProviderStillWaiting m)"
  by (auto simp: provider_poll_def poll_cancelled_def past_deadline_def provider_batch_def
      provider_timed_out_def provider_resolved_def pause_poll_def arc_note_def emit_effect_def log_event_def
      record_output_def eng_defs Let_def split: sum.splits prod.splits option.splits if_splits)

lemma loop_not_waiting:
  assumes "clock_runs (en_server en) time" "d \<le> time (rn_world s) + retry_default * p"
  shows "fst (provider_loop en n pe task (Some d) (Suc p) k s) \<noteq> Inl (ProviderStillWaiting m)"
  using assms(2)
proof (induction p arbitrary: k s)
  case 0
  then show ?case
    using poll_advances [OF assms(1), of n pe task d k s] poll_not_waiting [of en n pe task "Some d" k s]
    by (fastforce simp: ebind_def eret_def split: sum.splits prod.splits option.splits)
next
  case (Suc p)
  obtain r s1 where r: "provider_poll en n pe task (Some d) k s = (r, s1)" by force
  show ?case
  proof (cases "\<exists>j. r = Inr (Some j)")
    case True
    then obtain j where j: "r = Inr (Some j)" by blast
    have "d \<le> time (rn_world s1) + retry_default * p"
      using poll_advances [OF assms(1) r [unfolded j]] Suc.prems by auto
    then show ?thesis using Suc.IH [of s1 j] by (simp add: r j ebind_def)
  next
    case False
    then show ?thesis
      using r poll_not_waiting [of en n pe task "Some d" k s]
      by (auto simp: ebind_def eret_def split: sum.splits option.splits)
  qed
qed

end
