(* ===== verification/Workflow_Nodes.thy ===== *)
theory Workflow_Nodes
  imports Workflow_Provider
begin

text \<open>
  What a node does: hooks and gates (\<open>src/src/workflow/engine/hooks.rs\<close>, \<open>apply_node_gate\<close> of
  \<open>engine.rs\<close>), dispatch without waiting and the later joins (\<open>async_join.rs\<close>), executor, ensemble
  and atom nodes (\<open>actor_nodes.rs\<close>, \<open>ensemble_nodes.rs\<close>), wait and sleep nodes (\<open>wait_nodes.rs\<close>)
  and embedded workflows (\<open>subworkflow_nodes.rs\<close>).
\<close>

section \<open>Packets as gates\<close>

definition apply_workflow_policy ::
  "'s engine \<Rightarrow> string \<Rightarrow> json \<Rightarrow> store \<Rightarrow> store_error + string option" where
  "apply_workflow_policy en packet_id entity st =
     rbind (load st packet_id) (\<lambda>pk.
       Inr (map_option pr_classification (apply_with (store_env (en_plib en) st) pk entity)))"

definition apply_workflow_gate_all_entity ::
  "'s engine \<Rightarrow> string \<Rightarrow> json \<Rightarrow> store \<Rightarrow> store_error + apply_all_result" where
  "apply_workflow_gate_all_entity en packet_id entity st =
     rbind (load st packet_id) (\<lambda>pk. Inr (apply_all_with (store_env (en_plib en) st) pk entity))"

definition store_of :: "'s engine \<Rightarrow> 's runner \<Rightarrow> store" where
  "store_of en s = se_store (en_server en) (rn_world s)"

definition set_verdict :: "string option \<Rightarrow> ('s, unit) eng" where
  "set_verdict v = eupd (\<lambda>s. s\<lparr>rn_last_verdict := v\<rparr>)"

definition gate_result ::
  "'s engine \<Rightarrow> string \<Rightarrow> string \<Rightarrow> store_error + string option \<Rightarrow> ('s, unit) eng" where
  "gate_result en packet_id node_id r =
     (case r of
        Inr v \<Rightarrow>
          eseq (set_verdict v)
            (eseq (log_event ''gate_applied'' node_id) (arc_note en ''learned'' node_id))
      | Inl e \<Rightarrow>
          eseq (log_event ''gate_error'' node_id) (efail (GateErrored packet_id node_id e)))"

definition apply_node_gate :: "'s engine \<Rightarrow> string \<Rightarrow> workflow node_spec \<Rightarrow> ('s, unit) eng" where
  "apply_node_gate en node_id nd =
     (case nd_gate nd of
        None \<Rightarrow> eret ()
      | Some packet_id \<Rightarrow>
          ebind (eget (\<lambda>s. flatten_for_gate (en_lib en) node_id (rn_ctx s))) (\<lambda>entity.
          ebind (eget (store_of en)) (\<lambda>st.
            gate_result en packet_id node_id
              (case nd_gate_mode nd of
                 Some GateAll \<Rightarrow>
                   rbind (apply_workflow_gate_all_entity en packet_id entity st)
                     (\<lambda>r. Inr (aa_verdict r))
               | _ \<Rightarrow> apply_workflow_policy en packet_id entity st))))"

section \<open>Hooks\<close>

definition is_allow_verdict :: "string \<Rightarrow> bool" where
  "is_allow_verdict v =
     (v \<in> set [''allow'', ''pass'', ''proceed'', ''fire'', ''ok'', ''delete'', ''keep'', ''yes'', ''true''])"

definition apply_op_effect :: "'s engine \<Rightarrow> op_effect \<Rightarrow> ('s, var_error + unit) eng" where
  "apply_op_effect en eff s =
     (case eff of
        OpNone \<Rightarrow> (Inr ok, s)
      | OpSetVar k v \<Rightarrow>
          (case set_var k v (wf_vars_schema (en_spec en)) (rn_ctx s) of
             Inl e \<Rightarrow> (Inr (Inl e), s)
           | Inr ctx \<Rightarrow> (Inr ok, s\<lparr>rn_ctx := ctx\<rparr>))
      | OpSetWorktree p \<Rightarrow>
          (Inr ok, s\<lparr>rn_ctx := (rn_ctx s)\<lparr>cx_meta := (cx_meta (rn_ctx s))\<lparr>me_worktree := p\<rparr>\<rparr>\<rparr>)
      | OpSetProjectDir p \<Rightarrow>
          (Inr ok, s\<lparr>rn_ctx := (rn_ctx s)\<lparr>cx_meta := (cx_meta (rn_ctx s))\<lparr>me_project_dir := p\<rparr>\<rparr>,
                     rn_project_dir := p\<rparr>))"

definition on_fail ::
  "on_failure \<Rightarrow> engine_error \<Rightarrow> ('s, unit) eng \<Rightarrow> ('s, unit) eng \<Rightarrow> ('s, unit) eng" where
  "on_fail policy e warn ignore =
     (case policy of OnHalt \<Rightarrow> efail e | OnWarn \<Rightarrow> warn | OnIgnore \<Rightarrow> ignore)"

text \<open>Whether the hook fires.\<close>

definition hook_gate :: "'s engine \<Rightarrow> string \<Rightarrow> nat \<Rightarrow> hook_op \<Rightarrow> ('s, bool) eng" where
  "hook_gate en lifecycle idx h =
     (case ho_when h of
        None \<Rightarrow> eret True
      | Some packet_id \<Rightarrow>
          ebind (eget (\<lambda>s. apply_workflow_policy en packet_id (flatten (rn_ctx s)) (store_of en s))) (\<lambda>r.
          case r of
            Inr v \<Rightarrow>
              if (case v of Some t \<Rightarrow> is_allow_verdict t | None \<Rightarrow> False) then eret True
              else eseq (log_event ''hook_gated_out'' lifecycle) (eret False)
          | Inl e \<Rightarrow>
              eseq (log_event ''hook_gate_error'' lifecycle)
                (eseq (on_fail (ho_on_failure h) (HookGateErrored lifecycle idx packet_id e)
                        (arc_note en ''surprise'' lifecycle) (eret ()))
                  (eret False))))"

definition run_op :: "'s engine \<Rightarrow> string \<Rightarrow> nat \<Rightarrow> hook_op \<Rightarrow> ('s, unit) eng" where
  "run_op en lifecycle idx h =
     ebind (eget rn_ctx) (\<lambda>ctx.
     ebind (ecall (execute_op (en_lib en) (en_parse en) (se_op (en_server en) ctx) h ctx)) (\<lambda>r.
     case r of
       Inr eff \<Rightarrow>
         ebind (apply_op_effect en eff) (\<lambda>a.
         case a of
           Inl e \<Rightarrow>
             on_fail (ho_on_failure h) (HookEffectErrored lifecycle idx e)
               (arc_note en ''surprise'' lifecycle) (eret ())
         | Inr _ \<Rightarrow> log_event ''hook_ok'' lifecycle)
     | Inl e \<Rightarrow>
         on_fail (ho_on_failure h) (HookErrored lifecycle idx e)
           (eseq (log_event ''hook_failed'' lifecycle) (arc_note en ''surprise'' lifecycle))
           (log_event ''hook_failed'' lifecycle)))"

definition run_hook :: "'s engine \<Rightarrow> string \<Rightarrow> nat \<times> hook_op \<Rightarrow> ('s, unit) eng" where
  "run_hook en lifecycle p =
     ebind (hook_gate en lifecycle (fst p) (snd p)) (\<lambda>go.
       ewhen go (run_op en lifecycle (fst p) (snd p)))"

definition run_hooks :: "'s engine \<Rightarrow> hook_op list \<Rightarrow> string \<Rightarrow> ('s, unit) eng" where
  "run_hooks en hooks lifecycle = eeach (run_hook en lifecycle) (enumerate 0 hooks)"

section \<open>Dispatch without waiting\<close>

definition durable_get :: "bool \<Rightarrow> 'v smap \<Rightarrow> string \<Rightarrow> 'v option" where
  "durable_get durable m k = (if durable then obj_get m k else None)"

definition durable_map :: "bool \<Rightarrow> string smap smap \<Rightarrow> string \<Rightarrow> string smap" where
  "durable_map durable m k =
     (if durable then (case obj_get m k of Some v \<Rightarrow> v | None \<Rightarrow> []) else [])"

definition make_dispatch ::
  "'s engine \<Rightarrow> actor_spec \<Rightarrow> string \<Rightarrow> string \<Rightarrow> string \<Rightarrow> 's runner \<Rightarrow> dispatch" where
  "make_dispatch en actor actor_name brofile prompt s =
     \<lparr>dp_target = brofile, dp_prompt = prompt, dp_project_dir = rn_project_dir s,
      dp_session = durable_get (ac_durable actor) (rn_actor_sessions s) actor_name,
      dp_task = durable_get (ac_durable actor) (rn_actor_tasks s) actor_name,
      dp_runtime = se_runtime (en_server en) actor\<rparr>"

definition make_team_dispatch ::
  "'s engine \<Rightarrow> actor_spec \<Rightarrow> string \<Rightarrow> string \<Rightarrow> string \<Rightarrow> 's runner \<Rightarrow> team_dispatch" where
  "make_team_dispatch en actor actor_name team prompt s =
     \<lparr>td_team = team, td_prompt = prompt, td_project_dir = rn_project_dir s,
      td_sessions = durable_map (ac_durable actor) (rn_ensemble_sessions s) actor_name,
      td_tasks = durable_map (ac_durable actor) (rn_ensemble_tasks s) actor_name,
      td_runtime = se_runtime (en_server en) actor\<rparr>"

definition put_in_flight :: "string \<Rightarrow> in_flight \<Rightarrow> ('s, unit) eng" where
  "put_in_flight target f = eupd (\<lambda>s. s\<lparr>rn_in_flight := obj_insert (rn_in_flight s) target f\<rparr>)"

definition opt_text :: "string option \<Rightarrow> string" where
  "opt_text x = (case x of Some s \<Rightarrow> s | None \<Rightarrow> [])"

definition dispatch_fire_and_forget :: "'s engine \<Rightarrow> string \<Rightarrow> ('s, unit) eng" where
  "dispatch_fire_and_forget en target_id =
     ebind (erequire (AsyncNoTarget target_id) (node_of en target_id)) (\<lambda>nd.
     let actor_name = nd_actor nd in
     ebind (erequire (AsyncNoActor target_id actor_name)
             (obj_get (wf_actors (en_spec en)) actor_name)) (\<lambda>actor.
     ebind (render_prompt en (opt_text (nd_prompt nd))) (\<lambda>prompt.
     case ac_kind actor of
       Executor \<Rightarrow>
         ebind (erequire (AsyncNoBrofile target_id) (ac_brofile actor)) (\<lambda>brofile.
         ebind (eget (\<lambda>s. se_is_terminal (en_server en) brofile (rn_project_dir s) (rn_world s))) (\<lambda>terminal.
         if terminal then efail (AsyncTerminalMode actor_name target_id)
         else
           ebind (eget (make_dispatch en actor actor_name brofile prompt)) (\<lambda>d.
           ebind (ecall (se_dispatch (en_server en) d)) (\<lambda>r.
           ebind (etry (DispatchFailed target_id) r) (\<lambda>task.
           eseq (log_event ''fire_and_forget'' target_id)
             (put_in_flight target_id (Single actor_name (ac_durable actor) task)))))))
     | actor_kind.Ensemble \<Rightarrow>
         ebind (erequire (AsyncNoTeam target_id) (ac_team actor)) (\<lambda>team.
         ebind (eget (make_team_dispatch en actor actor_name team prompt)) (\<lambda>d.
         ebind (ecall (se_dispatch_team (en_server en) d)) (\<lambda>r.
         ebind (etry (DispatchFailed target_id) r) (\<lambda>tasks.
         eseq (log_event ''fire_and_forget_ensemble'' target_id)
           (put_in_flight target_id (in_flight.Ensemble actor_name (ac_durable actor) tasks)))))))))"

definition run_fork_dispatch :: "'s engine \<Rightarrow> string \<Rightarrow> ('s, unit) eng" where
  "run_fork_dispatch en node_id =
     (let branches = (case node_of en node_id of
                        Some nd \<Rightarrow> (case nd_next nd of Fork bs _ \<Rightarrow> bs | _ \<Rightarrow> [])
                      | None \<Rightarrow> [])
      in if branches = [] then eret ()
         else eseq (log_event ''fork'' node_id) (eeach (dispatch_fire_and_forget en) branches))"

section \<open>Joins\<close>

definition obj_del :: "(string \<times> 'v) list \<Rightarrow> string \<Rightarrow> (string \<times> 'v) list" where
  "obj_del m k = filter (\<lambda>p. fst p \<noteq> k) m"

definition jmap_str :: "jmap \<Rightarrow> string \<Rightarrow> string" where
  "jmap_str m k = opt_text (Option.bind (obj_get m k) as_str)"

definition rule_line :: string where
  "rule_line = [CHR 0xE2, CHR 0x94, CHR 0x80, CHR 0xE2, CHR 0x94, CHR 0x80]"

definition titled :: "string \<Rightarrow> string \<times> string \<Rightarrow> string" where
  "titled prefix p = rule_line @ '' '' @ prefix @ fst p @ '' '' @ rule_line @ [CHR 0x0A] @ snd p"

definition merge_titled :: "string \<Rightarrow> (string \<times> string) list \<Rightarrow> string" where
  "merge_titled prefix outs =
     join_with [CHR 0x0A, CHR 0x0A] (map (titled prefix) (sort_by (\<lambda>a b. fst a \<le> fst b) outs))"

definition smap_of :: "(string \<times> 'v) list \<Rightarrow> 'v smap" where
  "smap_of kvs = om.ins_all [] kvs"

definition set_session :: "bool \<Rightarrow> string \<Rightarrow> string \<Rightarrow> ('s, unit) eng" where
  "set_session durable actor session =
     ewhen durable (eupd (\<lambda>s. s\<lparr>rn_actor_sessions := obj_insert (rn_actor_sessions s) actor session\<rparr>))"

definition set_team_sessions ::
  "bool \<Rightarrow> string \<Rightarrow> (string \<times> string \<times> task_report) list \<Rightarrow> ('s, unit) eng" where
  "set_team_sessions durable actor rs =
     ewhen durable (eupd (\<lambda>s.
       s\<lparr>rn_ensemble_sessions := obj_insert (rn_ensemble_sessions s) actor
            (smap_of (map (\<lambda>(m, t, r). (m, tr_session r)) rs)),
         rn_ensemble_tasks := obj_insert (rn_ensemble_tasks s) actor
            (smap_of (map (\<lambda>(m, t, r). (m, t)) rs))\<rparr>))"

definition team_outputs :: "(string \<times> string \<times> task_report) list \<Rightarrow> (string \<times> string) list" where
  "team_outputs rs = map (\<lambda>(m, t, r). (m, jmap_str (tr_result r) ''result'')) rs"

definition any_timeout :: "(string \<times> string \<times> task_report) list \<Rightarrow> bool" where
  "any_timeout rs = list_ex (\<lambda>(m, t, r). \<not> tr_completed r) rs"

definition join_in_flight_source :: "'s engine \<Rightarrow> string \<Rightarrow> ('s, bool) eng" where
  "join_in_flight_source en source =
     ebind (eget (\<lambda>s. obj_get (rn_in_flight s) source)) (\<lambda>entry.
     case entry of
       None \<Rightarrow> eret False
     | Some f \<Rightarrow>
         eseq (eupd (\<lambda>s. s\<lparr>rn_in_flight := obj_del (rn_in_flight s) source\<rparr>))
         (case f of
            Single actor_name durable task \<Rightarrow>
              ebind (ecall (se_await (en_server en) task)) (\<lambda>r.
              if \<not> tr_completed r then efail (JoinTimeout source)
              else
                eseq (set_session durable actor_name (tr_session r))
                  (eseq (record_output source (jmap_str (tr_result r) ''result'')) (eret True)))
          | in_flight.Ensemble actor_name durable tasks \<Rightarrow>
              ebind (ecall (se_await_team (en_server en) tasks)) (\<lambda>r.
              ebind (etry JoinFailed r) (\<lambda>rs.
              if any_timeout rs then efail (MemberTimeout source)
              else
                eseq (set_team_sessions durable actor_name rs)
                  (eseq (record_output source (merge_titled [] (team_outputs rs))) (eret True))))))"

definition join_late_inject :: "'s engine \<Rightarrow> string \<Rightarrow> ('s, unit) eng" where
  "join_late_inject en node_id =
     (case Option.bind (node_of en node_id) nd_late_inject of
        None \<Rightarrow> eret ()
      | Some li \<Rightarrow>
          ebind (join_in_flight_source en (li_from li)) (\<lambda>joined.
          if joined
          then eseq (log_event ''late_inject_join'' node_id) (arc_note en ''surprise'' node_id)
          else log_event ''late_inject_skip'' node_id))"

section \<open>Actor nodes\<close>

definition record_result :: "string \<Rightarrow> json \<Rightarrow> ('s, unit) eng" where
  "record_result node_id v = eupd (\<lambda>s. s\<lparr>rn_ctx := record_actor_result node_id v (rn_ctx s)\<rparr>)"

definition run_executor_node ::
  "'s engine \<Rightarrow> string \<Rightarrow> actor_spec \<Rightarrow> string \<Rightarrow> string \<Rightarrow> actor_failure \<Rightarrow> ('s, unit) eng" where
  "run_executor_node en node_id actor actor_name prompt failure_mode =
     ebind (erequire (ExecutorNoBrofile actor_name) (ac_brofile actor)) (\<lambda>brofile.
     ebind (eget (make_dispatch en actor actor_name brofile prompt)) (\<lambda>d.
     eseq (log_event ''node_dispatch'' node_id) (
     ebind (eget (\<lambda>s. se_is_terminal (en_server en) brofile (rn_project_dir s) (rn_world s))) (\<lambda>terminal.
     ebind
       (if terminal then
          ebind (eget arc_id_of) (\<lambda>arc.
          ebind (ecall (se_dispatch_tmux (en_server en) d arc actor_name)) (\<lambda>r.
          case r of
            Inr task \<Rightarrow> eret task
          | Inl e \<Rightarrow>
              ebind (poll_cancelled en) (\<lambda>c.
                if c then efail ArcCancelled else efail (DispatchFailed node_id e))))
        else
          ebind (ecall (se_dispatch (en_server en) d)) (\<lambda>r. etry (DispatchFailed node_id) r)) (\<lambda>task.
     eseq (eupd (\<lambda>s. s\<lparr>rn_actor_tasks := obj_insert (rn_actor_tasks s) actor_name task\<rparr>)) (
     ebind (ecall (se_await (en_server en) task)) (\<lambda>r.
     let completed = tr_completed r;
         result = obj_insert (if completed then tr_result r else tr_snapshot r) ''actor'' (JStr actor_name);
         task_status = jmap_str result ''status'';
         success = (completed \<and> task_status = ''completed'');
         output = jmap_str result ''result''
     in
     eseq (record_result node_id (JObj result)) (
     eseq (set_session (ac_durable actor) actor_name (tr_session r)) (
     eseq (record_output node_id output) (
     if \<not> success then
       eseq (log_event ''node_actor_failure'' node_id)
         (case failure_mode of
            FailHalt \<Rightarrow>
              efail (if \<not> completed then NodeTimeout node_id task
                     else NodeFailed node_id task task_status)
          | FailContinue \<Rightarrow> arc_note en ''surprise'' node_id)
     else
       eseq (log_event ''node_complete'' node_id) (arc_note en ''done'' node_id)))))))))))"

definition run_ensemble_node ::
  "'s engine \<Rightarrow> string \<Rightarrow> actor_spec \<Rightarrow> string \<Rightarrow> string \<Rightarrow> ('s, unit) eng" where
  "run_ensemble_node en node_id actor actor_name prompt =
     ebind (erequire (EnsembleNoTeam actor_name) (ac_team actor)) (\<lambda>team.
     ebind (eget (make_team_dispatch en actor actor_name team prompt)) (\<lambda>d.
     eseq (log_event ''node_dispatch'' node_id) (
     ebind (ecall (se_dispatch_team (en_server en) d)) (\<lambda>r.
     ebind (etry (DispatchFailed node_id) r) (\<lambda>tasks.
     ebind (ecall (se_await_team (en_server en) tasks)) (\<lambda>r.
     ebind (etry JoinFailed r) (\<lambda>rs.
     eseq (eeach (\<lambda>(m, t, r).
             eseq (ewhen (\<not> tr_completed r) (log_event ''ensemble_member_timeout'' m))
               (log_event ''ensemble_member_complete'' m)) rs) (
     if any_timeout rs then efail (MemberTimeout node_id)
     else
       eseq (record_output node_id (merge_titled [] (team_outputs rs)))
         (eseq (set_team_sessions (ac_durable actor) actor_name rs)
           (eseq (log_event ''node_complete'' node_id) (arc_note en ''done'' node_id)))))))))))"

section \<open>Atom nodes\<close>

definition atom_args :: "'s engine \<Rightarrow> workflow node_spec \<Rightarrow> string option \<Rightarrow> arc_context \<Rightarrow> string + json" where
  "atom_args en nd prompt ctx =
     (case nd_atom_args nd of
        Some raw \<Rightarrow> resolve_arg_value (en_lib en) ctx raw
      | None \<Rightarrow>
          (case prompt of
             Some p \<Rightarrow> if p \<noteq> [] then Inr (JObj [(''prompt'', JStr p)]) else Inr (JObj [])
           | None \<Rightarrow> Inr (JObj [])))"

definition run_atom_node ::
  "'s engine \<Rightarrow> string \<Rightarrow> atom_binding \<Rightarrow> workflow node_spec \<Rightarrow> ('s, unit) eng" where
  "run_atom_node en node_id binding nd =
     ebind (eget (\<lambda>s. ''workflow:'' @ arc_id_of s)) (\<lambda>owner.
     ebind (eget (\<lambda>s. map_option (render_template (en_lib en) (rn_ctx s)) (nd_prompt nd))) (\<lambda>prompt.
     ebind (eget (\<lambda>s. atom_args en nd prompt (rn_ctx s))) (\<lambda>a.
     ebind (etry (AtomArgsUnresolved node_id) a) (\<lambda>args.
     ebind (eget (\<lambda>s. Option.bind (obj_get (cx_vars (rn_ctx s)) ''_atom_parent_invocation_id'') as_str)) (\<lambda>parent.
     ebind (eget (\<lambda>s. durable_get (ab_durable binding) (rn_atom_invocations s) (nd_atom nd))) (\<lambda>existing.
     ebind (eget effective_project_dir) (\<lambda>dir.
     let call = \<lparr>at_atom = ab_atom_ref binding, at_args = args, at_project_dir = dir, at_owner = owner,
                 at_parent = parent, at_supervision = ab_supervision_override binding,
                 at_limits = ab_limits binding\<rparr>;
         invoke = ebind (ecall (se_atom_invoke (en_server en) call)) (etry (AtomFailed node_id))
     in
     eseq (log_event ''node_atom_dispatch'' node_id) (
     ebind
       (case existing of
          None \<Rightarrow> invoke
        | Some invocation \<Rightarrow>
            ebind (ecall (se_atom_resume (en_server en) invocation
                     (case prompt of Some p \<Rightarrow> p | None \<Rightarrow> en_pretty en args) owner)) (\<lambda>r.
            case r of
              Inr v \<Rightarrow> eret v
            | Inl e \<Rightarrow>
                if contains_str e ''error.not_resumable''
                then eseq (log_event ''node_atom_reinvoke'' node_id) invoke
                else efail (AtomFailed node_id e))) (\<lambda>value.
     ebind (erequire (AtomNoInvocation node_id) (arg_str value ''invocation_id'')) (\<lambda>invocation.
     eseq (ewhen (ab_durable binding)
            (eupd (\<lambda>s. s\<lparr>rn_atom_invocations := obj_insert (rn_atom_invocations s) (nd_atom nd) invocation\<rparr>))) (
     eseq
       (case arg_str value ''task_id'' of
          Some task \<Rightarrow>
            ewhen (jget value ''arc_id'' \<noteq> None)
              (ebind (eget arc_id_of) (\<lambda>arc.
               ebind (ecall (se_atom_settle (en_server en) arc task)) (\<lambda>cancelled.
                 ewhen cancelled (efail ArcCancelled))))
        | None \<Rightarrow> eret ()) (
     ebind (ecall (se_atom_status (en_server en) invocation owner)) (\<lambda>r.
     ebind (etry (AtomFailed node_id) r) (\<lambda>status.
     eseq (record_result node_id status) (
     eseq (record_output node_id (wl_show (en_lib en) status)) (
     eseq (log_event ''node_atom_complete'' node_id) (arc_note en ''done'' node_id)))))))))))))))))"

section \<open>Sleeping and waiting\<close>

definition run_sleep_node :: "'s engine \<Rightarrow> string \<Rightarrow> nat \<Rightarrow> ('s, unit) eng" where
  "run_sleep_node en node_id duration_ms =
     eseq (log_event ''sleep_started'' node_id) (
     ebind (eget arc_id_of) (\<lambda>arc.
     ebind (ecall (se_sleep (en_server en) arc duration_ms)) (\<lambda>cancelled.
     if cancelled then eseq (log_event ''sleep_cancelled'' node_id) (efail ArcCancelled)
     else
       eseq (record_output node_id (wl_show (en_lib en)
              (JObj [(''kind'', JStr ''sleep''), (''duration_ms'', JNum (num_of_nat duration_ms)),
                     (''status'', JStr ''elapsed'')])))
         (log_event ''sleep_elapsed'' node_id))))"

definition set_context :: "arc_context \<Rightarrow> ('s, unit) eng" where
  "set_context ctx = eupd (\<lambda>s. s\<lparr>rn_ctx := ctx\<rparr>)"

definition set_waits :: "'s engine \<Rightarrow> wait_world \<Rightarrow> ('s, unit) eng" where
  "set_waits en w = eupd (\<lambda>s. s\<lparr>rn_world := se_set_waits (en_server en) w (rn_world s)\<rparr>)"

definition add_signal :: "signal_ref \<Rightarrow> ('s, unit) eng" where
  "add_signal sig = eupd (\<lambda>s. s\<lparr>rn_ctx := record_signal sig (rn_ctx s)\<rparr>)"

definition run_wait_node :: "'s engine \<Rightarrow> string \<Rightarrow> wait_spec \<Rightarrow> ('s, unit) eng" where
  "run_wait_node en node_id ws =
     (case wt_provider_event ws of
        Some pe \<Rightarrow> run_provider_event_wait_node en node_id pe (wt_timeout_secs ws)
      | None \<Rightarrow>
          ebind (ecall (se_new_slot (en_server en))) (\<lambda>slot.
          ebind (ecall (se_now (en_server en))) (\<lambda>now.
          ebind (eget (\<lambda>s. begin_wait (en_lib en) now (se_journal (en_server en) (rn_world s)) node_id slot ws
                   (rn_ctx s) (se_waits (en_server en) (rn_world s)))) (\<lambda>cw.
          eseq (set_context (fst cw)) (
          eseq (set_waits en (snd cw)) (
          eseq (eeach (\<lambda>sg. eseq (log_event ''wait_registered'' node_id)
                              (emit_system_event en ''workflow.arc.wait_registered'' (ws_signal sg)))
                 (wt_any_of ws)) (
          ebind (eget arc_id_of) (\<lambda>arc.
          ebind (ecall (se_suspend (en_server en) arc slot (wt_timeout_secs ws))) (\<lambda>outcome.
          ebind (ecall (se_now (en_server en))) (\<lambda>now'.
          ebind (eget (\<lambda>s. settle_wait now' node_id slot ws outcome (rn_ctx s)
                   (se_waits (en_server en) (rn_world s)))) (\<lambda>rw.
          eseq (set_waits en (snd rw)) (
          case fst rw of
            Inl WaitCancelled \<Rightarrow> eseq (log_event ''wait_cancelled'' node_id) (efail ArcCancelled)
          | Inl (SlotEmpty n) \<Rightarrow> efail (WaitSlotEmpty n)
          | Inr sig \<Rightarrow>
              let out = record_output node_id (wl_show (en_lib en) (signal_json sig))
              in if outcome = TimedOut
                 then eseq (log_event ''wait_timeout'' node_id)
                        (eseq (add_signal sig) (eseq out (arc_note en ''surprise'' node_id)))
                 else eseq (log_event ''wait_resolved'' node_id)
                        (eseq (emit_system_event en ''workflow.arc.signal_received'' node_id)
                          (eseq out (eseq (add_signal sig) (arc_note en ''done'' node_id))))))))))))))))"

section \<open>Embedded workflows\<close>

text \<open>The variables a child starts with: imports by name, then renamed paths, which win.\<close>

fun efold :: "('b \<Rightarrow> 'a \<Rightarrow> ('s, 'b) eng) \<Rightarrow> 'b \<Rightarrow> 'a list \<Rightarrow> ('s, 'b) eng" where
  "efold f b [] = eret b"
| "efold f b (x # xs) = ebind (f b x) (\<lambda>b'. efold f b' xs)"

definition import_vars ::
  "'s engine \<Rightarrow> string \<Rightarrow> string \<Rightarrow> string \<Rightarrow> string list \<Rightarrow> (string \<times> string) list \<Rightarrow> ('s, jmap) eng" where
  "import_vars en missing unresolved node_id imports renames =
     ebind (efold (\<lambda>m k.
              ebind (eget (\<lambda>s. obj_get (cx_vars (rn_ctx s)) k)) (\<lambda>v.
              case v of
                Some x \<Rightarrow> eret (obj_insert m k x)
              | None \<Rightarrow> eseq (log_event missing node_id) (eret m))) [] imports) (\<lambda>m.
       efold (\<lambda>m p.
              ebind (eget (\<lambda>s. resolve (en_lib en) (rn_ctx s) (snd p))) (\<lambda>v.
              case v of
                Some x \<Rightarrow> eret (obj_insert m (fst p) x)
              | None \<Rightarrow> eseq (log_event unresolved node_id) (eret m))) m renames)"

definition sub_spec_of :: "'s engine \<Rightarrow> string \<Rightarrow> workflow node_spec \<Rightarrow> 's runner \<Rightarrow> engine_error + workflow" where
  "sub_spec_of en node_id nd s =
     (case nd_subworkflow nd of
        Some w \<Rightarrow> Inr w
      | None \<Rightarrow>
          (case nd_subworkflow_ref nd of
             Some i \<Rightarrow>
               (case se_workflow (en_server en) i (rn_world s) of
                  Some w \<Rightarrow> Inr w
                | None \<Rightarrow> Inl (SubRefUnknown i node_id))
           | None \<Rightarrow> Inl (SubMissing node_id)))"

definition export_var :: "'s engine \<Rightarrow> string \<Rightarrow> jmap \<Rightarrow> string \<Rightarrow> string \<Rightarrow> ('s, unit) eng" where
  "export_var en sub_name vars node_id k =
     (case obj_get vars k of
        None \<Rightarrow> efail (SubExportMissing sub_name k)
      | Some v \<Rightarrow>
          ebind (eget rn_ctx) (\<lambda>ctx.
          case set_var k v (wf_vars_schema (en_spec en)) ctx of
            Inl e \<Rightarrow> efail (SubExportRejected sub_name k e)
          | Inr ctx' \<Rightarrow> eseq (set_context ctx') (log_event ''subworkflow_export'' node_id)))"

definition run_subworkflow_node :: "'s engine \<Rightarrow> string \<Rightarrow> ('s, unit) eng" where
  "run_subworkflow_node en node_id =
     eseq (ensure_not_cancelled en node_id) (
     ebind (erequire (NoMetadata node_id) (node_of en node_id)) (\<lambda>nd.
     ebind (eget (sub_spec_of en node_id nd)) (\<lambda>r.
     ebind (elift r) (\<lambda>sub.
     let child_depth = en_depth en + 1 in
     if max_workflow_depth < child_depth then efail (SubTooDeep node_id child_depth)
     else
     eseq (log_event ''subworkflow_begin'' node_id) (
     eseq (arc_note en ''learned'' node_id) (
     ebind (elift (map_err (SubCompileFailed node_id) (compile_workflow sub))) (\<lambda>_.
     ebind (eget (\<lambda>s. se_incapable (en_server en) sub (rn_world s))) (\<lambda>inc.
     case inc of
       Some e \<Rightarrow> efail (SubIncapable node_id e)
     | None \<Rightarrow>
     ebind (import_vars en ''subworkflow_import_missing'' ''subworkflow_rename_unresolved'' node_id
              (nd_imports nd) (nd_import_renames nd)) (\<lambda>vars.
     ebind (eget (\<lambda>s. \<lparr>cc_spec = sub, cc_project_dir = rn_project_dir s, cc_depth = child_depth,
                       cc_seed_outputs = rn_node_outputs s, cc_initial_vars = vars,
                       cc_parent_arc = Some (arc_id_of s), cc_token = Some (arc_id_of s),
                       cc_max_steps = Some 25\<rparr>)) (\<lambda>call.
     ebind (ecall (en_child en call)) (\<lambda>res.
     if rr_status res \<noteq> Completed then efail (SubNotCompleted (wf_name sub) (rr_status res))
     else
     eseq (record_output node_id
            (merge_titled ''sub:'' (filter (\<lambda>p. obj_has (wf_nodes sub) (fst p)) (rr_node_outputs res)))) (
     eseq (eeach (export_var en (wf_name sub) (rr_vars res) node_id) (nd_exports nd)) (
     eseq (log_event ''subworkflow_complete'' node_id) (arc_note en ''done'' node_id))))))))))))))"

end
