(* ===== verification/Workflow_Fanout.thy ===== *)
theory Workflow_Fanout
  imports Workflow_Nodes
begin

text \<open>
  Dynamic fanout (\<open>src/src/workflow/engine/fanout.rs\<close>): a foreach or matrix node runs one child
  workflow per item, a bounded number at a time, and collects the results by index. Which running
  child finishes next, and whether its task can be joined, is the scheduler's choice
  (\<open>se_fanout_pick\<close>); a child's run is taken as one step at the moment it is joined.
\<close>

section \<open>Items\<close>

record fanout_runtime =
  fr_kind :: string
  fr_items :: "json list"
  fr_as_var :: string
  fr_index_as :: "string option"
  fr_key_template :: "string option"
  fr_child :: workflow
  fr_imports :: "string list"
  fr_import_renames :: "(string \<times> string) list"
  fr_exports :: "string list"
  fr_parallelism :: nat
  fr_collect_into :: string
  fr_failure_policy :: item_failure

definition expand_axis :: "jmap list \<Rightarrow> string \<times> json list \<Rightarrow> jmap list" where
  "expand_axis items axis =
     concat (map (\<lambda>base. map (\<lambda>v. obj_insert base (fst axis) v) (snd axis)) items)"

fun expand_axes :: "string \<Rightarrow> jmap list \<Rightarrow> (string \<times> json list) list \<Rightarrow> engine_error + jmap list" where
  "expand_axes node_id items [] = Inr items"
| "expand_axes node_id items (axis # axes) =
     (let projected = length items * length (snd axis) in
      if 2 ^ 64 \<le> projected then Inl (MatrixOverflow node_id)
      else if max_foreach_items < projected then Inl (MatrixTooManyItems node_id projected)
      else expand_axes node_id (expand_axis items axis) axes)"

definition expand_matrix_items :: "string \<Rightarrow> (string \<times> json list) list \<Rightarrow> engine_error + json list" where
  "expand_matrix_items node_id axes =
     rbind (expand_axes node_id [[]] axes) (\<lambda>items. Inr (map JObj items))"

definition fanout_child ::
  "'s engine \<Rightarrow> string \<Rightarrow> workflow option \<Rightarrow> string option \<Rightarrow> 's \<Rightarrow> engine_error + workflow" where
  "fanout_child en node_id inline_wf reference w =
     (case inline_wf of
        Some wfl \<Rightarrow> Inr wfl
      | None \<Rightarrow>
          (case reference of
             None \<Rightarrow> Inl (SubMissing node_id)
           | Some i \<Rightarrow>
               (case se_workflow (en_server en) i w of
                  Some wfl \<Rightarrow> Inr wfl
                | None \<Rightarrow> Inl (SubRefUnknown i node_id))))"

definition array_of :: "'s engine \<Rightarrow> string \<Rightarrow> arc_context \<Rightarrow> json \<Rightarrow> engine_error + json list" where
  "array_of en node_id ctx v =
     rbind (map_err (FanoutItems node_id) (resolve_arg_value (en_lib en) ctx v)) (\<lambda>r.
       case r of JArr a \<Rightarrow> Inr a | _ \<Rightarrow> Inl (FanoutNotArray node_id))"

definition parallelism_or_one :: "nat option \<Rightarrow> nat" where
  "parallelism_or_one p = (case p of Some n \<Rightarrow> n | None \<Rightarrow> 1)"

definition materialize_foreach_runtime ::
  "'s engine \<Rightarrow> string \<Rightarrow> workflow foreach_spec \<Rightarrow> 's runner \<Rightarrow> engine_error + fanout_runtime" where
  "materialize_foreach_runtime en node_id fe s =
     rbind (array_of en node_id (rn_ctx s) (fe_items fe)) (\<lambda>items.
     rbind (fanout_child en node_id (fe_subworkflow fe) (fe_subworkflow_ref fe) (rn_world s)) (\<lambda>child.
     Inr \<lparr>fr_kind = ''foreach'', fr_items = items, fr_as_var = fe_as_var fe,
          fr_index_as = fe_index_as fe, fr_key_template = fe_key fe, fr_child = child,
          fr_imports = fe_imports fe, fr_import_renames = fe_import_renames fe,
          fr_exports = fe_exports fe, fr_parallelism = parallelism_or_one (fe_parallelism fe),
          fr_collect_into = fe_collect_into fe, fr_failure_policy = fe_on_item_failure fe\<rparr>))"

definition materialize_matrix_runtime ::
  "'s engine \<Rightarrow> string \<Rightarrow> workflow matrix_spec \<Rightarrow> 's runner \<Rightarrow> engine_error + fanout_runtime" where
  "materialize_matrix_runtime en node_id mx s =
     rbind (map_result (\<lambda>a. rbind (array_of en node_id (rn_ctx s) (snd a)) (\<lambda>vs. Inr (fst a, vs)))
              (mx_axes mx)) (\<lambda>axes.
     rbind (expand_matrix_items node_id axes) (\<lambda>items.
     rbind (fanout_child en node_id (mx_subworkflow mx) (mx_subworkflow_ref mx) (rn_world s)) (\<lambda>child.
     Inr \<lparr>fr_kind = ''matrix'', fr_items = items, fr_as_var = mx_as_var mx,
          fr_index_as = mx_index_as mx, fr_key_template = mx_key mx, fr_child = child,
          fr_imports = mx_imports mx, fr_import_renames = mx_import_renames mx,
          fr_exports = mx_exports mx, fr_parallelism = parallelism_or_one (mx_parallelism mx),
          fr_collect_into = mx_collect_into mx, fr_failure_policy = mx_on_item_failure mx\<rparr>)))"

definition materialize_fanout_runtime ::
  "'s engine \<Rightarrow> string \<Rightarrow> workflow node_spec \<Rightarrow> 's runner \<Rightarrow> engine_error + fanout_runtime" where
  "materialize_fanout_runtime en node_id nd s =
     (case (nd_foreach nd, nd_matrix nd) of
        (Some fe, None) \<Rightarrow> materialize_foreach_runtime en node_id fe s
      | (None, Some mx) \<Rightarrow> materialize_matrix_runtime en node_id mx s
      | _ \<Rightarrow> Inl (FanoutNotExactlyOne node_id))"

section \<open>Plans\<close>

record child_plan =
  cp_index :: nat
  cp_key :: string
  cp_item :: json
  cp_initial_vars :: jmap

definition bind_item :: "fanout_runtime \<Rightarrow> nat \<Rightarrow> json \<Rightarrow> jmap \<Rightarrow> jmap" where
  "bind_item rt idx item m =
     (let m = obj_insert m (fr_as_var rt) item
      in case fr_index_as rt of
           Some i \<Rightarrow> obj_insert m i (JNum (num_of_nat idx))
         | None \<Rightarrow> m)"

definition item_key :: "'s engine \<Rightarrow> fanout_runtime \<Rightarrow> nat \<Rightarrow> json \<Rightarrow> arc_context \<Rightarrow> string" where
  "item_key en rt idx item ctx =
     (case fr_key_template rt of
        Some t \<Rightarrow> render_template (en_lib en) (ctx\<lparr>cx_vars := bind_item rt idx item (cx_vars ctx)\<rparr>) t
      | None \<Rightarrow> show_nat idx)"

fun build_plans ::
  "'s engine \<Rightarrow> string \<Rightarrow> fanout_runtime \<Rightarrow> string set \<Rightarrow> nat \<Rightarrow> json list \<Rightarrow> ('s, child_plan list) eng"
where
  "build_plans en node_id rt keys idx [] = eret []"
| "build_plans en node_id rt keys idx (item # items) =
     ebind (import_vars en ''fanout_import_missing'' ''fanout_rename_unresolved'' node_id
              (fr_imports rt) (fr_import_renames rt)) (\<lambda>vars.
     ebind (eget (\<lambda>s. item_key en rt idx item (rn_ctx s))) (\<lambda>key.
     if trim key = [] then efail (FanoutKeyEmpty node_id idx)
     else if key \<in> keys then efail (FanoutKeyDuplicate node_id key)
     else
       ebind (build_plans en node_id rt (insert key keys) (idx + 1) items) (\<lambda>plans.
       eret (\<lparr>cp_index = idx, cp_key = key, cp_item = item,
              cp_initial_vars = bind_item rt idx item vars\<rparr> # plans))))"

section \<open>Outcomes\<close>

record child_outcome =
  co_plan :: child_plan
  co_status :: string
  co_exports :: jmap
  co_outputs :: jmap
  co_arc_id :: string
  co_thread_id :: "string option"
  co_error :: "string option"

definition status_text :: "'s engine \<Rightarrow> run_status \<Rightarrow> string" where
  "status_text en st =
     (case st of
        Completed \<Rightarrow> ''completed''
      | CancelledArc \<Rightarrow> ''cancelled''
      | ErrorRun e \<Rightarrow> ''error: '' @ en_error_text en e
      | ErrorSeed e \<Rightarrow> ''error: initial_vars seed failed: '' @ en_error_text en (FanoutCollectRejected e)
      | ErrorMissing ks \<Rightarrow> ''error: missing required keys: '' @ join_with '', '' ks
      | ErrorDepth d \<Rightarrow> ''error: subworkflow composition depth '' @ show_nat d
      | ErrorOutcome t \<Rightarrow> ''error: '' @ t)"

fun collect_exports :: "jmap \<Rightarrow> string list \<Rightarrow> jmap \<Rightarrow> jmap \<times> string option" where
  "collect_exports vars [] acc = (acc, None)"
| "collect_exports vars (k # ks) acc =
     (case obj_get vars k of
        Some v \<Rightarrow> collect_exports vars ks (obj_insert acc k v)
      | None \<Rightarrow> (acc, Some k))"

definition outcome_of :: "'s engine \<Rightarrow> fanout_runtime \<Rightarrow> child_plan \<Rightarrow> run_result \<Rightarrow> child_outcome" where
  "outcome_of en rt plan res =
     (let (exports, err) =
            (if rr_status res = Completed then
               (case collect_exports (rr_vars res) (fr_exports rt) [] of
                  (m, None) \<Rightarrow> (m, None)
                | (m, Some k) \<Rightarrow> (m, Some (''did not export declared key '' @ k)))
             else ([], Some (status_text en (rr_status res))))
      in \<lparr>co_plan = plan,
          co_status = (if err \<noteq> None
                       then (if rr_status res = CancelledArc then ''cancelled'' else ''error'')
                       else ''completed''),
          co_exports = exports,
          co_outputs = map (\<lambda>(k, v). (k, JStr v)) (rr_node_outputs res),
          co_arc_id = rr_arc_id res, co_thread_id = rr_thread_id res, co_error = err\<rparr>)"

definition is_failure :: "child_outcome \<Rightarrow> bool" where
  "is_failure c = (co_status c \<noteq> ''completed'')"

definition into_value :: "child_outcome \<Rightarrow> json" where
  "into_value c =
     JObj ([(''index'', JNum (num_of_nat (cp_index (co_plan c)))), (''key'', JStr (cp_key (co_plan c))),
            (''item'', cp_item (co_plan c)), (''status'', JStr (co_status c)),
            (''exports'', JObj (co_exports c)), (''outputs'', JObj (co_outputs c))] @
           (if co_arc_id c \<noteq> [] then [(''arc_id'', JStr (co_arc_id c))] else []) @
           (case co_thread_id c of Some t \<Rightarrow> [(''arc_thread_id'', JStr t)] | None \<Rightarrow> []) @
           (case co_error c of Some e \<Rightarrow> [(''error'', JStr e)] | None \<Rightarrow> []))"

definition fanout_skipped_value :: "child_plan \<Rightarrow> json" where
  "fanout_skipped_value plan =
     JObj [(''index'', JNum (num_of_nat (cp_index plan))), (''key'', JStr (cp_key plan)),
           (''item'', cp_item plan), (''status'', JStr ''skipped''), (''exports'', JObj []),
           (''outputs'', JObj []), (''error'', JStr ''not dispatched after earlier item failure'')]"

section \<open>The dispatch loop\<close>

record fanout_state =
  fs_results :: "json option list"
  fs_running :: "nat list"
  fs_next :: nat
  fs_stop :: bool
  fs_failure :: "string option"

definition fanout_start :: "nat \<Rightarrow> fanout_state" where
  "fanout_start n =
     \<lparr>fs_results = replicate n None, fs_running = [], fs_next = 0, fs_stop = False, fs_failure = None\<rparr>"

text \<open>How many children the inner loop starts.\<close>

definition start_count :: "nat \<Rightarrow> nat \<Rightarrow> fanout_state \<Rightarrow> nat" where
  "start_count nitems parallel f =
     (if fs_stop f then 0 else min (parallel - length (fs_running f)) (nitems - fs_next f))"

definition start_children :: "nat \<Rightarrow> nat \<Rightarrow> fanout_state \<Rightarrow> fanout_state" where
  "start_children nitems parallel f =
     (let k = start_count nitems parallel f
      in f\<lparr>fs_running := fs_running f @ [fs_next f..<fs_next f + k], fs_next := fs_next f + k\<rparr>)"

definition running_at :: "nat \<Rightarrow> fanout_state \<Rightarrow> nat" where
  "running_at i f = fs_running f ! (i mod length (fs_running f))"

definition drop_running :: "nat \<Rightarrow> fanout_state \<Rightarrow> fanout_state" where
  "drop_running idx f = f\<lparr>fs_running := filter (\<lambda>j. j \<noteq> idx) (fs_running f)\<rparr>"

definition join_error :: "fanout_state \<Rightarrow> fanout_state" where
  "join_error f =
     f\<lparr>fs_failure := (case fs_failure f of None \<Rightarrow> Some ''fanout child task join'' | x \<Rightarrow> x),
       fs_stop := True\<rparr>"

definition failure_message :: "child_outcome \<Rightarrow> string" where
  "failure_message c =
     (case co_error c of
        Some e \<Rightarrow> e
      | None \<Rightarrow> ''item '' @ show_nat (cp_index (co_plan c)) @ '' status '' @ co_status c)"

definition counts_as_failure :: "item_failure \<Rightarrow> child_outcome \<Rightarrow> fanout_state \<Rightarrow> bool" where
  "counts_as_failure policy c f = (is_failure c \<and> fs_failure f = None \<and> policy \<noteq> ItemContinue)"

definition settle_child :: "item_failure \<Rightarrow> child_outcome \<Rightarrow> fanout_state \<Rightarrow> fanout_state" where
  "settle_child policy c f =
     (let f' = f\<lparr>fs_results := (fs_results f)[cp_index (co_plan c) := Some (into_value c)]\<rparr>
      in if counts_as_failure policy c f
         then f'\<lparr>fs_failure := Some (failure_message c), fs_stop := True\<rparr> else f')"

text \<open>\<open>left\<close> bounds the joins still possible: every turn of the loop joins one child.\<close>

fun fanout_loop ::
  "'s engine \<Rightarrow> string \<Rightarrow> string \<Rightarrow> fanout_runtime \<Rightarrow> child_plan list \<Rightarrow> (child_plan \<Rightarrow> child_call) \<Rightarrow> nat \<Rightarrow>
     nat \<Rightarrow> fanout_state \<Rightarrow> ('s, fanout_state) eng"
where
  "fanout_loop en node_id group_id rt plans call parallel 0 f = eret f"
| "fanout_loop en node_id group_id rt plans call parallel (Suc left) f =
     (if \<not> (fs_next f < length plans \<or> fs_running f \<noteq> []) then eret f
      else
       ebind (poll_cancelled en) (\<lambda>c.
       if c then eseq (emit_effect en (CancelToken group_id)) (efail ArcCancelled)
       else
       let f1 = start_children (length plans) parallel f in
       eseq (eeach (\<lambda>_. log_event ''fanout_item_start'' node_id)
              [fs_next f..<fs_next f1]) (
       if fs_running f1 = [] then eret f1
       else
       ebind (ecall (se_fanout_pick (en_server en) (fs_running f1))) (\<lambda>pick.
       let idx = running_at (fst pick) f1; f2 = drop_running idx f1; plan = plans ! idx in
       if \<not> snd pick then
         eseq (emit_effect en (CancelToken group_id))
           (fanout_loop en node_id group_id rt plans call parallel left (join_error f2))
       else
         ebind (ecall (en_child en (call plan))) (\<lambda>res.
         let out = outcome_of en rt plan res; policy = fr_failure_policy rt in
         eseq (log_event (if is_failure out then ''fanout_item_failed'' else ''fanout_item_complete'')
                 node_id)
         (eseq (ewhen (counts_as_failure policy out f2 \<and> policy = ItemHalt)
                 (emit_effect en (CancelToken group_id)))
           (fanout_loop en node_id group_id rt plans call parallel left
             (settle_child policy out f2))))))))"

definition fill_skipped :: "child_plan list \<Rightarrow> fanout_state \<Rightarrow> json option list" where
  "fill_skipped plans f =
     (if fs_stop f
      then map (\<lambda>i. if fs_next f \<le> i \<and> fs_results f ! i = None
                    then Some (fanout_skipped_value (plans ! i)) else fs_results f ! i)
             [0..<length plans]
      else fs_results f)"

definition effective_parallelism :: "nat \<Rightarrow> nat" where
  "effective_parallelism p = max 1 (min p max_foreach_parallelism)"

definition run_dynamic_fanout_node :: "'s engine \<Rightarrow> string \<Rightarrow> workflow node_spec \<Rightarrow> ('s, unit) eng" where
  "run_dynamic_fanout_node en node_id nd =
     ebind (eget (materialize_fanout_runtime en node_id nd)) (\<lambda>r.
     ebind (elift r) (\<lambda>rt.
     let n = length (fr_items rt); child_depth = en_depth en + 1 in
     if max_foreach_items < n then efail (FanoutTooManyItems node_id n)
     else if max_workflow_depth < child_depth then efail (SubTooDeep node_id child_depth)
     else
     ebind (elift (map_err (SubCompileFailed node_id) (compile_workflow (fr_child rt)))) (\<lambda>_.
     ebind (eget (\<lambda>s. se_incapable (en_server en) (fr_child rt) (rn_world s))) (\<lambda>inc.
     case inc of
       Some e \<Rightarrow> efail (SubIncapable node_id e)
     | None \<Rightarrow>
     ebind (build_plans en node_id rt {} 0 (fr_items rt)) (\<lambda>plans.
     ebind (eget arc_id_of) (\<lambda>arc.
     ebind (ecall (se_new_group (en_server en) arc)) (\<lambda>group_id.
     ebind (eget (\<lambda>s plan. \<lparr>cc_spec = fr_child rt, cc_project_dir = rn_project_dir s,
                  cc_depth = child_depth, cc_seed_outputs = rn_node_outputs s,
                  cc_initial_vars = cp_initial_vars plan, cc_parent_arc = Some arc,
                  cc_token = Some group_id, cc_max_steps = Some 25\<rparr>)) (\<lambda>call.
     eseq (log_event ''fanout_begin'' node_id) (
     ebind (fanout_loop en node_id group_id rt plans call
              (effective_parallelism (fr_parallelism rt)) n (fanout_start n)) (\<lambda>f.
     let collected = JArr (concat (map (\<lambda>x. case x of Some v \<Rightarrow> [v] | None \<Rightarrow> []) (fill_skipped plans f))) in
     ebind (eget (\<lambda>s. set_var (fr_collect_into rt) collected (wf_vars_schema (en_spec en)) (rn_ctx s))) (\<lambda>v.
     ebind (elift (map_err FanoutCollectRejected v)) (\<lambda>ctx.
     eseq (set_context ctx) (
     eseq (record_output node_id (wl_show (en_lib en) collected)) (
     eseq (log_event ''fanout_complete'' node_id) (
     eseq (arc_note en (if fs_failure f \<noteq> None then ''blocked'' else ''done'') node_id) (
     case fs_failure f of
       Some e \<Rightarrow> efail (FanoutFailed node_id e)
     | None \<Rightarrow> eret ()))))))))))))))))"

end
