(* ===== verification/Workflow_Engine.thy ===== *)
theory Workflow_Engine
  imports Workflow_Fanout
begin

text \<open>
  The walk over a compiled workflow (\<open>src/src/workflow/engine.rs\<close>, \<open>node_dispatch.rs\<close> and
  \<open>arc_state.rs\<close> of its directory): what one visit of a node does, the choice of the next node, the
  loop, and the run of an arc from its seeds to its result. A workflow embedded in a workflow is
  run by the same function one level deeper; the levels left are its fuel.
\<close>

section \<open>One visit of a node\<close>

definition terminal_sentinel :: string where
  "terminal_sentinel = ''__terminal__''"

definition count_visit :: "string \<Rightarrow> ('s, u32) eng" where
  "count_visit node_id =
     ebind (eget (\<lambda>s. (case obj_get (rn_visit_counts s) node_id of Some c \<Rightarrow> c | None \<Rightarrow> 0) + 1)) (\<lambda>visits.
     eseq (eupd (\<lambda>s. s\<lparr>rn_visit_counts := obj_insert (rn_visit_counts s) node_id visits\<rparr>))
       (eret visits))"

definition check_retry :: "string \<Rightarrow> workflow node_spec \<Rightarrow> u32 \<Rightarrow> ('s, unit) eng" where
  "check_retry node_id nd visits =
     (case nd_retry nd of
        Some limit \<Rightarrow> ewhen (limit < visits) (efail (RetryCeiling node_id limit visits))
      | None \<Rightarrow> eret ())"

definition run_node_exit_hooks :: "'s engine \<Rightarrow> hook_op list \<Rightarrow> string \<Rightarrow> ('s, unit) eng" where
  "run_node_exit_hooks en hooks node_id =
     (if hooks = [] then eret () else run_hooks en hooks (node_id @ ''/on_exit''))"

definition leave_node :: "'s engine \<Rightarrow> string \<Rightarrow> workflow node_spec \<Rightarrow> ('s, unit) eng" where
  "leave_node en node_id nd =
     eseq (run_node_exit_hooks en (nd_on_exit nd) node_id) (apply_node_gate en node_id nd)"

definition is_fork :: "node_transition \<Rightarrow> bool" where
  "is_fork t = (case t of Fork _ _ \<Rightarrow> True | _ \<Rightarrow> False)"

definition fork_and_leave :: "'s engine \<Rightarrow> string \<Rightarrow> workflow node_spec \<Rightarrow> ('s, unit) eng" where
  "fork_and_leave en node_id nd =
     eseq (ewhen (is_fork (nd_next nd)) (run_fork_dispatch en node_id)) (leave_node en node_id nd)"

definition em_dash :: string where
  "em_dash = [CHR 0xE2, CHR 0x80, CHR 0x94]"

definition retry_prefix :: "u32 \<Rightarrow> string option \<Rightarrow> string" where
  "retry_prefix visits verdict =
     ''[retry '' @ em_dash @ '' attempt '' @ show_nat (unat visits) @ '', prior gate verdict: '' @
     (case verdict of Some v \<Rightarrow> v | None \<Rightarrow> ''(no verdict)'') @ '']'' @ [CHR 0x0A, CHR 0x0A]"

definition actor_prompt :: "'s engine \<Rightarrow> workflow node_spec \<Rightarrow> u32 \<Rightarrow> ('s, string) eng" where
  "actor_prompt en nd visits =
     ebind (render_prompt en (opt_text (nd_prompt nd))) (\<lambda>prompt.
       eget (\<lambda>s. (if 1 < visits then retry_prefix visits (rn_last_verdict s) else []) @ prompt))"

definition run_atom_activity :: "'s engine \<Rightarrow> string \<Rightarrow> workflow node_spec \<Rightarrow> ('s, unit) eng" where
  "run_atom_activity en node_id nd =
     (if nd_mode nd = FireAndForget then efail (AtomAsync node_id (nd_atom nd))
      else
       eseq (join_late_inject en node_id) (
       ebind (count_visit node_id) (\<lambda>visits.
       eseq (check_retry node_id nd visits) (
       ebind (erequire (AtomBindingUndeclared node_id (nd_atom nd))
               (obj_get (wf_atom_bindings (en_spec en)) (nd_atom nd))) (\<lambda>binding.
       eseq (run_atom_node en node_id binding nd) (fork_and_leave en node_id nd))))))"

definition run_hook_only_activity :: "'s engine \<Rightarrow> string \<Rightarrow> workflow node_spec \<Rightarrow> ('s, unit) eng" where
  "run_hook_only_activity en node_id nd =
     ebind (render_prompt en (opt_text (nd_prompt nd))) (\<lambda>prompt.
     eseq (record_output node_id prompt) (
     eseq (log_event ''node_complete_hookless'' node_id) (fork_and_leave en node_id nd)))"

definition run_actor_activity :: "'s engine \<Rightarrow> string \<Rightarrow> workflow node_spec \<Rightarrow> ('s, unit) eng" where
  "run_actor_activity en node_id nd =
     ebind (erequire (ActorUndeclared node_id (nd_actor nd))
             (obj_get (wf_actors (en_spec en)) (nd_actor nd))) (\<lambda>actor.
     if nd_mode nd = FireAndForget then dispatch_fire_and_forget en node_id
     else
       eseq (join_late_inject en node_id) (
       ebind (count_visit node_id) (\<lambda>visits.
       eseq (check_retry node_id nd visits) (
       ebind (actor_prompt en nd visits) (\<lambda>prompt.
       eseq
         (case ac_kind actor of
            Executor \<Rightarrow>
              run_executor_node en node_id actor (nd_actor nd) prompt
                (case nd_actor_failure nd of Some m \<Rightarrow> m | None \<Rightarrow> FailHalt)
          | actor_kind.Ensemble \<Rightarrow> run_ensemble_node en node_id actor (nd_actor nd) prompt)
         (fork_and_leave en node_id nd))))))"

definition node_body :: "'s engine \<Rightarrow> string \<Rightarrow> workflow node_spec \<Rightarrow> ('s, unit) eng" where
  "node_body en node_id nd =
     (if nd_foreach nd \<noteq> None \<or> nd_matrix nd \<noteq> None then
        eseq (run_dynamic_fanout_node en node_id nd) (leave_node en node_id nd)
      else case nd_wait nd of
        Some ws \<Rightarrow> eseq (run_wait_node en node_id ws) (leave_node en node_id nd)
      | None \<Rightarrow>
      (case nd_sleep_ms nd of
        Some ms \<Rightarrow> eseq (run_sleep_node en node_id ms) (leave_node en node_id nd)
      | None \<Rightarrow>
      if nd_subworkflow nd \<noteq> None \<or> nd_subworkflow_ref nd \<noteq> None then
        eseq (ensure_not_cancelled en node_id)
          (eseq (run_subworkflow_node en node_id) (leave_node en node_id nd))
      else if nd_atom nd \<noteq> [] then run_atom_activity en node_id nd
      else if nd_actor nd = [] then run_hook_only_activity en node_id nd
      else run_actor_activity en node_id nd))"

definition run_activity_node :: "'s engine \<Rightarrow> string \<Rightarrow> ('s, unit) eng" where
  "run_activity_node en node_id =
     eseq (ensure_not_cancelled en node_id) (
     ebind (erequire (NoMetadata node_id) (node_of en node_id)) (\<lambda>nd.
     eseq (ewhen (nd_on_enter nd \<noteq> []) (run_hooks en (nd_on_enter nd) (node_id @ ''/on_enter''))) (
     eseq (ensure_not_cancelled en node_id) (node_body en node_id nd))))"

definition run_node :: "'s engine \<Rightarrow> string \<Rightarrow> ('s, unit) eng" where
  "run_node en node_id =
     eseq (ensure_not_cancelled en node_id) (
     let sources = (case node_of en node_id of Some nd \<Rightarrow> nd_wait_for nd | None \<Rightarrow> []) in
     eseq (ewhen (sources \<noteq> [])
            (eseq (eeach (\<lambda>src. ebind (join_in_flight_source en src) (\<lambda>_. eret ())) sources)
              (log_event ''fan_in'' node_id))) (
     eseq (ensure_not_cancelled en node_id) (run_activity_node en node_id)))"

section \<open>The next node\<close>

definition next_of :: "node_transition \<Rightarrow> string \<Rightarrow> string option \<Rightarrow> engine_error + string" where
  "next_of t current verdict =
     (case t of
        Terminal \<Rightarrow> Inr terminal_sentinel
      | Goto target \<Rightarrow> Inr target
      | Fork _ continue_to \<Rightarrow> Inr continue_to
      | Branch _ cases dflt \<Rightarrow>
          (case verdict of
             None \<Rightarrow> (case dflt of Some d \<Rightarrow> Inr d | None \<Rightarrow> Inl (BranchNoVerdict current))
           | Some v \<Rightarrow>
               (case obj_get cases v of
                  Some target \<Rightarrow> Inr target
                | None \<Rightarrow> (case dflt of Some d \<Rightarrow> Inr d | None \<Rightarrow> Inl (BranchNoCase current v)))))"

definition next_node :: "'s engine \<Rightarrow> string \<Rightarrow> ('s, string) eng" where
  "next_node en current =
     ebind (erequire (NoMetadata current) (node_of en current)) (\<lambda>nd.
     ebind (eget (\<lambda>s. next_of (nd_next nd) current (rn_last_verdict s))) elift)"

section \<open>The policy of an arc\<close>

definition in_flight_names :: "'s runner \<Rightarrow> string list" where
  "in_flight_names s = sort_strings (map fst (rn_in_flight s))"

definition jstrs :: "string list \<Rightarrow> json" where
  "jstrs xs = JArr (map JStr xs)"

definition policy_entity :: "'s engine \<Rightarrow> nat \<Rightarrow> string \<Rightarrow> string \<Rightarrow> 's runner \<Rightarrow> json" where
  "policy_entity en step just_ran nxt s =
     (let completed = completed_node_names en s; in_flight = in_flight_names s
      in JObj [(''step'', JNum (num_of_nat step)), (''just_ran'', JStr just_ran), (''next'', JStr nxt),
               (''completed'', jstrs completed),
               (''completed_count'', JNum (num_of_nat (length completed))),
               (''in_flight'', jstrs in_flight),
               (''in_flight_count'', JNum (num_of_nat (length in_flight))),
               (''last_verdict'', jopt_str (rn_last_verdict s)),
               (''visit_counts'', JObj (map (\<lambda>(k, v). (k, JNum (NPos (ucast v)))) (rn_visit_counts s)))])"

definition apply_policy_packet :: "'s engine \<Rightarrow> nat \<Rightarrow> string \<Rightarrow> string \<Rightarrow> ('s, unit) eng" where
  "apply_policy_packet en step just_ran nxt =
     (case wf_policy_packet (en_spec en) of
        None \<Rightarrow> eret ()
      | Some packet_id \<Rightarrow>
          ebind (eget (\<lambda>s. apply_workflow_policy en packet_id (policy_entity en step just_ran nxt s)
                             (store_of en s))) (\<lambda>r.
          case r of
            Inl e \<Rightarrow> log_event ''policy_error'' packet_id
          | Inr None \<Rightarrow> eret ()
          | Inr (Some v) \<Rightarrow>
              eseq (log_event ''policy_verdict'' packet_id) (
              if v = ''halt'' then
                eseq (arc_note en ''blocked'' packet_id) (efail (PolicyHalted packet_id step just_ran))
              else if v = ''escalate'' then arc_note en ''blocked'' packet_id
              else if v = ''warn'' then arc_note en ''surprise'' packet_id
              else eret ())))"

definition write_compaction_anchor :: "'s engine \<Rightarrow> string \<Rightarrow> ('s, unit) eng" where
  "write_compaction_anchor en just_ran = arc_note en ''learned'' just_ran"

section \<open>The loop\<close>

definition loop_step :: "'s engine \<Rightarrow> nat \<Rightarrow> string \<Rightarrow> ('s, string) eng" where
  "loop_step en step current =
     eseq (run_node en current) (
     ebind (next_node en current) (\<lambda>nxt.
     eseq (write_compaction_anchor en current) (
     eseq (update_arc_snapshot en ''running'' current (Some nxt)) (
     eseq (apply_policy_packet en step current nxt) (eret nxt)))))"

text \<open>\<open>left\<close> is \<open>max_steps - steps\<close>. The result is the number of steps made.\<close>

fun run_loop :: "'s engine \<Rightarrow> nat \<Rightarrow> nat \<Rightarrow> string \<Rightarrow> ('s, nat) eng" where
  "run_loop en left steps current =
     (if current = terminal_sentinel then eret steps
      else
       ebind (poll_cancelled en) (\<lambda>c.
       if c then eseq (log_event ''cancelled'' current) (efail ArcCancelled)
       else
         (case left of
            0 \<Rightarrow> efail (MaxStepsExceeded (en_max_steps en))
          | Suc left' \<Rightarrow>
              ebind (loop_step en (steps + 1) current) (\<lambda>nxt.
                run_loop en left' (steps + 1) nxt))))"

declare run_loop.simps [simp del]

definition run_arc :: "'s engine \<Rightarrow> ('s, unit) eng" where
  "run_arc en =
     (let entry = wf_start (en_spec en) in
      eseq (log_event ''start'' entry) (
      eseq (emit_system_event en ''workflow.arc.started'' (wf_name (en_spec en))) (
      eseq (update_arc_snapshot en ''running'' ''(start)'' (Some entry)) (
      ebind (run_loop en (en_max_steps en) 0 entry) (\<lambda>steps.
      eseq (log_event ''complete'' (show_nat steps)) (
      eseq (emit_system_event en ''workflow.arc.completed'' (wf_name (en_spec en)))
        (update_arc_snapshot en ''completed'' ''(end)'' None)))))))"

section \<open>The run of an arc\<close>

text \<open>\<open>serde_json\<close> removes by swapping the last entry into the place.\<close>

definition swap_remove :: "(string \<times> 'v) list \<Rightarrow> string \<Rightarrow> (string \<times> 'v) list" where
  "swap_remove m k =
     (if obj_has m k
      then butlast (m[length (takeWhile (\<lambda>p. fst p \<noteq> k) m) := last m]) else m)"

definition session_prefix :: string where
  "session_prefix = ''_actor_session.''"

fun take_sessions :: "string list \<Rightarrow> jmap \<Rightarrow> string smap \<Rightarrow> string smap \<times> jmap" where
  "take_sessions [] vars acc = (acc, vars)"
| "take_sessions (k # ks) vars acc =
     take_sessions ks (swap_remove vars k)
       (case (obj_get vars k, strip_prefix session_prefix k) of
          (Some (JStr s), Some actor) \<Rightarrow> obj_insert acc actor s
        | _ \<Rightarrow> acc)"

definition extract_actor_session_seeds :: "jmap \<Rightarrow> string smap \<times> jmap" where
  "extract_actor_session_seeds vars =
     take_sessions (filter (\<lambda>k. starts_with k session_prefix) (map fst vars)) vars []"

definition workflow_structured_exit :: "jmap \<Rightarrow> json option" where
  "workflow_structured_exit vars =
     (case obj_get vars ''_structured_exit'' of
        Some v \<Rightarrow> Some v
      | None \<Rightarrow> obj_get vars ''structured_exit'')"

definition set_outcome :: "string \<Rightarrow> ('s, unit) eng" where
  "set_outcome outcome =
     eupd (\<lambda>s. s\<lparr>rn_ctx := (rn_ctx s)\<lparr>cx_meta := (cx_meta (rn_ctx s))\<lparr>me_arc_outcome := Some outcome\<rparr>\<rparr>\<rparr>)"

definition outcome_now :: "'s runner \<Rightarrow> string option" where
  "outcome_now s = me_arc_outcome (cx_meta (rn_ctx s))"

definition run_arc_exit_hooks :: "'s engine \<Rightarrow> ('s, unit) eng" where
  "run_arc_exit_hooks en =
     ebind (eget (\<lambda>s. opt_text (outcome_now s))) (\<lambda>outcome.
     eseq
       (ewhen (outcome = ''cancelled'' \<and> wf_on_arc_cancel (en_spec en) \<noteq> [])
         (ecatch (run_hooks en (wf_on_arc_cancel (en_spec en)) ''arc_cancel'') (\<lambda>e.
            eseq (log_event ''arc_cancel_hook_error'' [])
              (set_outcome (''failed: arc_cancel hook halted: '' @ en_error_text en e)))))
       (ewhen (wf_on_arc_exit (en_spec en) \<noteq> [])
         (ecatch (run_hooks en (wf_on_arc_exit (en_spec en)) ''arc_exit'') (\<lambda>e.
            eseq (log_event ''arc_exit_hook_error'' [])
              (ebind (eget outcome_now) (\<lambda>now.
                 ewhen (\<not> (case now of Some t \<Rightarrow> starts_with t ''failed'' | None \<Rightarrow> False))
                   (set_outcome (''failed: arc_exit hook halted: '' @ en_error_text en e))))))))"

text \<open>What the end of the walk becomes.\<close>

definition settle_status :: "'s engine \<Rightarrow> engine_error + unit \<Rightarrow> ('s, run_status) eng" where
  "settle_status en r =
     (case r of
        Inr _ \<Rightarrow> eret Completed
      | Inl e \<Rightarrow>
          if e = ArcCancelled then
            eseq (log_event ''cancelled_terminal'' []) (
            eseq (arc_note en ''blocked'' []) (
            eseq (update_arc_snapshot en ''cancelled'' ''(cancelled)'' None) (
            eseq (emit_system_event en ''workflow.arc.cancelled'' []) (eret CancelledArc))))
          else
            eseq (log_event ''error'' (en_error_text en e)) (
            eseq (arc_note en ''blocked'' []) (
            eseq (update_arc_snapshot en (''error: '' @ en_error_text en e) ''(error)'' None) (
            eseq (emit_system_event en ''workflow.arc.failed'' []) (eret (ErrorRun e))))))"

definition outcome_of_status :: "run_status \<Rightarrow> string" where
  "outcome_of_status st =
     (case st of Completed \<Rightarrow> ''success'' | CancelledArc \<Rightarrow> ''cancelled'' | _ \<Rightarrow> ''failed'')"

definition final_status :: "'s engine \<Rightarrow> run_status \<Rightarrow> ('s, run_status) eng" where
  "final_status en st =
     ebind (eget outcome_now) (\<lambda>outcome.
     case outcome of
       Some t \<Rightarrow>
         if starts_with t ''failed'' \<and> \<not> starts_with (status_text en st) ''error'' then
           eseq (update_arc_snapshot en (''error: '' @ t) ''(error)'' None) (eret (ErrorOutcome t))
         else eret st
     | None \<Rightarrow> eret st)"

definition open_arc_thread :: "'s engine \<Rightarrow> ('s, unit) eng" where
  "open_arc_thread en =
     ebind (ecall (se_open_thread (en_server en) (''wf-'' @ wf_name (en_spec en)))) (\<lambda>r.
     case r of
       Inl e \<Rightarrow> log_event ''arc_thread_open_failed'' e
     | Inr None \<Rightarrow> eret ()
     | Inr (Some i) \<Rightarrow>
         eseq (log_event ''arc_thread_opened'' i) (eupd (\<lambda>s. s\<lparr>rn_thread_id := Some i\<rparr>)))"

text \<open>From the end of the walk to the result: the status, the exit hooks, the release of the token.\<close>

definition conclude :: "'s engine \<Rightarrow> engine_error + unit \<Rightarrow> ('s, run_status) eng" where
  "conclude en r =
     ebind (settle_status en r) (\<lambda>st.
     eseq (ewhen (st = Completed) (arc_note en ''done'' [])) (
     ebind (eget outcome_now) (\<lambda>set.
     eseq (set_outcome (case set of Some t \<Rightarrow> t | None \<Rightarrow> outcome_of_status st)) (
     eseq (run_arc_exit_hooks en) (
     ebind (final_status en st) (\<lambda>st'.
     ebind (eget arc_id_of) (\<lambda>arc.
     eseq (emit_effect en (ReleaseToken arc)) (
     ebind (eget (\<lambda>s. workflow_structured_exit (cx_vars (rn_ctx s)))) (\<lambda>x.
     eseq (ewhen (x \<noteq> None) (log_event ''structured_exit'' [])) (eret st'))))))))))"

definition result_of :: "run_status \<Rightarrow> 's runner \<Rightarrow> run_result" where
  "result_of st s =
     \<lparr>rr_status = st, rr_events = rn_events s, rr_node_outputs = rn_node_outputs s,
      rr_vars = cx_vars (rn_ctx s),
      rr_structured_exit = workflow_structured_exit (cx_vars (rn_ctx s)), rr_arc_id = arc_id_of s,
      rr_thread_id = rn_thread_id s, rr_actor_sessions = rn_actor_sessions s\<rparr>"

definition drive_arc :: "'s engine \<Rightarrow> 's runner \<Rightarrow> run_status \<times> 's runner" where
  "drive_arc en s0 =
     (let s1 = snd (open_arc_thread en s0);
          r = run_arc en s1;
          c = conclude en (fst r) (snd r)
      in (case fst c of Inr st \<Rightarrow> st | Inl e \<Rightarrow> ErrorRun e, snd c))"

definition new_runner ::
  "'s engine \<Rightarrow> string option \<Rightarrow> string option \<Rightarrow> string option \<Rightarrow> 's \<Rightarrow> 's runner" where
  "new_runner en project_dir parent_token arc_id_override w0 =
     (let (arc_id, w1) = (case arc_id_override of
                            Some i \<Rightarrow> (i, w0) | None \<Rightarrow> se_new_arc (en_server en) w0);
          (now, w2) = se_now (en_server en) w1;
          w3 = se_emit (en_server en) (RegisterToken arc_id parent_token) w2
      in \<lparr>rn_project_dir = project_dir, rn_node_outputs = [],
          rn_ctx = new_context
            \<lparr>me_arc_id = arc_id, me_workflow_name = wf_name (en_spec en),
             me_workflow_version = wf_version (en_spec en), me_started_at = now,
             me_project_dir = project_dir, me_worktree = None, me_arc_outcome = None,
             me_parent_arc_id = None, me_composition_depth = of_nat (en_depth en)\<rparr>,
          rn_actor_sessions = [], rn_actor_tasks = [], rn_atom_invocations = [],
          rn_ensemble_sessions = [], rn_ensemble_tasks = [], rn_in_flight = [],
          rn_visit_counts = [], rn_last_verdict = None, rn_events = [], rn_thread_id = None,
          rn_world = w3\<rparr>)"

text \<open>The seeds: sessions, the outputs of the parent, the parent's id.\<close>

definition seed_outputs :: "string smap \<Rightarrow> arc_context \<Rightarrow> arc_context" where
  "seed_outputs outs ctx = fold (\<lambda>(k, v). set_output k (JStr v)) outs ctx"

definition seed_runner :: "string smap \<Rightarrow> string smap \<Rightarrow> string option \<Rightarrow> 's runner \<Rightarrow> 's runner" where
  "seed_runner sessions outs parent s =
     (let ctx = seed_outputs outs (rn_ctx s)
      in s\<lparr>rn_node_outputs := outs, rn_actor_sessions := smap_of sessions,
           rn_ctx := ctx\<lparr>cx_meta := (cx_meta ctx)\<lparr>me_parent_arc_id := parent\<rparr>\<rparr>\<rparr>)"

text \<open>The variables are checked before the arc starts; a refusal returns at once.\<close>

definition start_arc :: "'s engine \<Rightarrow> jmap \<Rightarrow> 's runner \<Rightarrow> run_result \<times> 's" where
  "start_arc en vars s =
     (let schema = wf_vars_schema (en_spec en); (r, ctx) = seed_vars vars schema (rn_ctx s);
          s' = s\<lparr>rn_ctx := ctx\<rparr>; missing = (case schema of Some sc \<Rightarrow> missing_required_vars sc ctx | None \<Rightarrow> [])
      in case r of
           Inl e \<Rightarrow> (failed_result (ErrorSeed e) (arc_id_of s') [(''error'', ''initial_vars'')], rn_world s')
         | Inr _ \<Rightarrow>
             if missing \<noteq> []
             then (failed_result (ErrorMissing missing) (arc_id_of s') [(''error'', ''missing required keys'')],
                   rn_world s')
             else
               let d = drive_arc en s' in (result_of (fst d) (snd d), rn_world (snd d)))"

definition engine_for :: "'s engine \<Rightarrow> (child_call \<Rightarrow> 's \<Rightarrow> run_result \<times> 's) \<Rightarrow> child_call \<Rightarrow> 's engine" where
  "engine_for en0 child call =
     en0\<lparr>en_spec := cc_spec call, en_depth := cc_depth call, en_child := child,
         en_max_steps := (case cc_max_steps call of Some n \<Rightarrow> n | None \<Rightarrow> 50)\<rparr>"

definition run_workflow_body ::
  "'s engine \<Rightarrow> (child_call \<Rightarrow> 's \<Rightarrow> run_result \<times> 's) \<Rightarrow> child_call \<Rightarrow> 's \<Rightarrow> run_result \<times> 's" where
  "run_workflow_body en0 child call w =
     (let (sessions, vars) = extract_actor_session_seeds (cc_initial_vars call);
          en = engine_for en0 child call;
          s = new_runner en (cc_project_dir call) (cc_token call) None w
      in start_arc en vars (seed_runner sessions (cc_seed_outputs call) (cc_parent_arc call) s))"

text \<open>The fuel is the number of nesting levels left; none left is a depth beyond the ceiling.\<close>

primrec run_nested :: "nat \<Rightarrow> 's engine \<Rightarrow> child_call \<Rightarrow> 's \<Rightarrow> run_result \<times> 's" where
  "run_nested 0 en0 call w = (failed_result (ErrorDepth (cc_depth call)) [] [], w)"
| "run_nested (Suc levels) en0 call w = run_workflow_body en0 (run_nested levels en0) call w"

definition run_workflow_at_depth :: "'s engine \<Rightarrow> child_call \<Rightarrow> 's \<Rightarrow> run_result \<times> 's" where
  "run_workflow_at_depth en0 call w =
     run_nested (Suc max_workflow_depth - cc_depth call) en0 call w"

definition run_workflow_with_initial_vars ::
  "'s engine \<Rightarrow> workflow \<Rightarrow> string option \<Rightarrow> nat option \<Rightarrow> jmap \<Rightarrow> 's \<Rightarrow> run_result \<times> 's" where
  "run_workflow_with_initial_vars en0 spec project_dir max_steps vars w =
     run_workflow_at_depth en0
       \<lparr>cc_spec = spec, cc_project_dir = project_dir, cc_depth = 0, cc_seed_outputs = [],
        cc_initial_vars = vars, cc_parent_arc = None, cc_token = None, cc_max_steps = max_steps\<rparr> w"

definition run_workflow_streaming ::
  "'s engine \<Rightarrow> workflow \<Rightarrow> string option \<Rightarrow> nat option \<Rightarrow> jmap \<Rightarrow> string option \<Rightarrow> 's \<Rightarrow> run_result \<times> 's"
where
  "run_workflow_streaming en0 spec project_dir max_steps initial arc_id w =
     (let (sessions, vars) = extract_actor_session_seeds initial;
          en = engine_for en0 (run_nested max_workflow_depth en0)
                 \<lparr>cc_spec = spec, cc_project_dir = project_dir, cc_depth = 0, cc_seed_outputs = [],
                  cc_initial_vars = initial, cc_parent_arc = None, cc_token = None,
                  cc_max_steps = max_steps\<rparr>;
          s = new_runner en project_dir None arc_id w
      in start_arc en vars (s\<lparr>rn_actor_sessions := smap_of sessions\<rparr>))"

end
