(* ===== verification/Workflow_Invariants.thy ===== *)
theory Workflow_Invariants
  imports Workflow_Engine
begin

text \<open>
  Predicates that every operation of the runner keeps. \<open>runner_invariant\<close> collects the elementary
  changes a node makes apart from counting visits and starting work in the background; from them
  every node operation keeps the predicate. \<open>forking_invariant\<close> adds the work in the background,
  \<open>walk_invariant\<close> the count of visits, which is enough for a whole walk, and \<open>arc_invariant\<close> the
  outcome, which is enough for the run of an arc.
\<close>

section \<open>Case distinctions\<close>

lemma keeps_option [keeps_intro]:
  "keeps P m \<Longrightarrow> (\<And>x. keeps P (f x)) \<Longrightarrow> keeps P (case z of None \<Rightarrow> m | Some x \<Rightarrow> f x)"
  by (cases z) simp_all

lemma keeps_sum [keeps_intro]:
  "(\<And>e. keeps P (f e)) \<Longrightarrow> (\<And>x. keeps P (g x)) \<Longrightarrow> keeps P (case z of Inl e \<Rightarrow> f e | Inr x \<Rightarrow> g x)"
  by (cases z) simp_all

lemma keeps_prod [keeps_intro]: "(\<And>a b. keeps P (f a b)) \<Longrightarrow> keeps P (case z of (a, b) \<Rightarrow> f a b)"
  by (cases z) simp

lemma keeps_in_flight [keeps_intro]:
  "(\<And>a b c. keeps P (f a b c)) \<Longrightarrow> (\<And>a b c. keeps P (g a b c)) \<Longrightarrow>
     keeps P (case z of Single a b c \<Rightarrow> f a b c | in_flight.Ensemble a b c \<Rightarrow> g a b c)"
  by (cases z) simp_all

lemma keeps_actor_kind [keeps_intro]:
  "keeps P m \<Longrightarrow> keeps P n \<Longrightarrow> keeps P (case z of Executor \<Rightarrow> m | actor_kind.Ensemble \<Rightarrow> n)"
  by (cases z) simp_all

lemma keeps_wait_error [keeps_intro]:
  "keeps P m \<Longrightarrow> (\<And>x. keeps P (f x)) \<Longrightarrow> keeps P (case z of WaitCancelled \<Rightarrow> m | SlotEmpty x \<Rightarrow> f x)"
  by (cases z) simp_all

lemma keeps_actor_failure [keeps_intro]:
  "keeps P m \<Longrightarrow> keeps P n \<Longrightarrow> keeps P (case z of FailHalt \<Rightarrow> m | FailContinue \<Rightarrow> n)"
  by (cases z) simp_all

lemma keeps_fold [keeps_intro]: "(\<And>b x. keeps P (f b x)) \<Longrightarrow> keeps P (efold f b xs)"
  by (induction xs arbitrary: b) (auto intro: keeps_intro)

lemma keeps_let [keeps_intro]: "keeps P (f x) \<Longrightarrow> keeps P (let y = x in f y)"
  by simp

section \<open>Operations that cannot fail, and what success ensures\<close>

definition never_fails :: "('s, 'a) eng \<Rightarrow> bool" where
  "never_fails m = (\<forall>s. \<exists>a. fst (m s) = Inr a)"

named_theorems calm_intro \<open>operations that cannot fail\<close>

lemma calm_ret [calm_intro]: "never_fails (eret a)"
  by (simp add: never_fails_def eret_def)

lemma calm_get [calm_intro]: "never_fails (eget f)"
  by (simp add: never_fails_def eget_def)

lemma calm_upd [calm_intro]: "never_fails (eupd f)"
  by (simp add: never_fails_def eupd_def)

lemma calm_call [calm_intro]: "never_fails (ecall f)"
  by (simp add: never_fails_def ecall_def Let_def)

lemma calm_bind [calm_intro]: "never_fails m \<Longrightarrow> (\<And>a. never_fails (f a)) \<Longrightarrow> never_fails (ebind m f)"
proof (unfold never_fails_def, intro allI)
  fix s
  assume m: "\<forall>s. \<exists>a. fst (m s) = Inr a" and f: "\<And>a. \<forall>s. \<exists>b. fst (f a s) = Inr b"
  from m obtain a where "fst (m s) = Inr a" by blast
  with f [of a] show "\<exists>b. fst (ebind m f s) = Inr b" by (cases "m s") (auto simp: ebind_def)
qed

lemma calm_seq [calm_intro]: "never_fails m \<Longrightarrow> never_fails n \<Longrightarrow> never_fails (eseq m n)"
  by (simp add: eseq_def calm_bind)

lemma calm_when [calm_intro]: "never_fails m \<Longrightarrow> never_fails (ewhen b m)"
  by (simp add: ewhen_def calm_ret)

lemma calm_catch [calm_intro]: "(\<And>e. never_fails (h e)) \<Longrightarrow> never_fails (ecatch m h)"
  by (auto simp: never_fails_def ecatch_def split: prod.splits sum.splits)

lemma calm_option [calm_intro]:
  "never_fails m \<Longrightarrow> (\<And>x. never_fails (f x)) \<Longrightarrow> never_fails (case z of None \<Rightarrow> m | Some x \<Rightarrow> f x)"
  by (cases z) simp_all

lemma calm_sum [calm_intro]:
  "(\<And>e. never_fails (f e)) \<Longrightarrow> (\<And>x. never_fails (g x)) \<Longrightarrow> never_fails (case z of Inl e \<Rightarrow> f e | Inr x \<Rightarrow> g x)"
  by (cases z) simp_all

lemma calm_if [calm_intro]: "never_fails m \<Longrightarrow> never_fails n \<Longrightarrow> never_fails (if b then m else n)"
  by simp

lemma calm_notes [calm_intro]:
  "never_fails (log_event k x)" "never_fails (emit_effect en ef)" "never_fails (emit_system_event en k x)"
  "never_fails (arc_note en k x)" "never_fails (update_arc_snapshot en a b c)" "never_fails (set_outcome t)"
  unfolding log_event_def emit_effect_def emit_system_event_def arc_note_def update_arc_snapshot_def
    set_outcome_def by (intro calm_intro)+

lemma calm_conclude: "never_fails (conclude en r)"
  unfolding conclude_def settle_status_def final_status_def run_arc_exit_hooks_def
  by (intro calm_intro)

definition ensures :: "('s runner \<Rightarrow> bool) \<Rightarrow> ('s, 'a) eng \<Rightarrow> ('a \<Rightarrow> 's runner \<Rightarrow> bool) \<Rightarrow> bool" where
  "ensures P m Q = (\<forall>s a s'. P s \<longrightarrow> m s = (Inr a, s') \<longrightarrow> Q a s')"

lemma ensuresD: "ensures P m Q \<Longrightarrow> P s \<Longrightarrow> m s = (Inr a, s') \<Longrightarrow> Q a s'"
  by (auto simp: ensures_def)

lemma ensures_bind: "ensures P m Q \<Longrightarrow> (\<And>a. ensures (Q a) (f a) R) \<Longrightarrow> ensures P (ebind m f) R"
  by (fastforce simp: ensures_def ebind_def split: prod.splits sum.splits)

lemma ensures_seq: "ensures P m (\<lambda>_. Q) \<Longrightarrow> ensures Q n R \<Longrightarrow> ensures P (eseq m n) R"
  unfolding eseq_def by (rule ensures_bind)

lemma ensures_keeps: "keeps P m \<Longrightarrow> ensures P m (\<lambda>_. P)"
  by (fastforce simp: ensures_def keeps_def dest: spec)

lemma ensures_last: "ensures (\<lambda>_. True) n R \<Longrightarrow> ensures (\<lambda>_. True) (eseq m n) R"
  by (auto simp: ensures_def eseq_def ebind_def split: prod.splits sum.splits)

lemma ensures_both: "keeps P m \<Longrightarrow> ensures (\<lambda>_. True) m Q \<Longrightarrow> ensures P m (\<lambda>a s. Q a s \<and> P s)"
  by (fastforce simp: ensures_def keeps_def dest: spec)

lemma ensures_get: "ensures P (eget f) (\<lambda>a s. a = f s \<and> P s)"
  by (simp add: ensures_def eget_def)

lemma ensures_ret: "(\<And>s. P s \<Longrightarrow> Q a s) \<Longrightarrow> ensures P (eret a) Q"
  by (simp add: ensures_def eret_def)

section \<open>A node without background work\<close>

locale runner_invariant =
  fixes en :: "'s engine" and P :: "'s runner \<Rightarrow> bool"
  assumes world: "\<And>s w. P s \<Longrightarrow> P (s\<lparr>rn_world := w\<rparr>)"
    and logged: "\<And>s e. P s \<Longrightarrow> P (s\<lparr>rn_events := rn_events s @ [e]\<rparr>)"
    and verdict: "\<And>s v. P s \<Longrightarrow> P (s\<lparr>rn_last_verdict := v\<rparr>)"
    and outputs: "\<And>s n t. P s \<Longrightarrow>
      P (s\<lparr>rn_ctx := set_output n (JStr t) (rn_ctx s), rn_node_outputs := obj_insert (rn_node_outputs s) n t\<rparr>)"
    and vars: "\<And>s k v c. P s \<Longrightarrow> set_var k v (wf_vars_schema (en_spec en)) (rn_ctx s) = Inr c \<Longrightarrow>
      P (s\<lparr>rn_ctx := c\<rparr>)"
    and worktree: "\<And>s p. P s \<Longrightarrow>
      P (s\<lparr>rn_ctx := (rn_ctx s)\<lparr>cx_meta := (cx_meta (rn_ctx s))\<lparr>me_worktree := p\<rparr>\<rparr>\<rparr>)"
    and project: "\<And>s p. P s \<Longrightarrow>
      P (s\<lparr>rn_ctx := (rn_ctx s)\<lparr>cx_meta := (cx_meta (rn_ctx s))\<lparr>me_project_dir := p\<rparr>\<rparr>, rn_project_dir := p\<rparr>)"
    and result: "\<And>s n v. P s \<Longrightarrow> P (s\<lparr>rn_ctx := record_actor_result n v (rn_ctx s)\<rparr>)"
    and signal: "\<And>s sg. P s \<Longrightarrow> P (s\<lparr>rn_ctx := record_signal sg (rn_ctx s)\<rparr>)"
    and clear: "\<And>s. P s \<Longrightarrow> P (s\<lparr>rn_ctx := clear_last_signal (rn_ctx s)\<rparr>)"
    and sessions: "\<And>s m. P s \<Longrightarrow> P (s\<lparr>rn_actor_sessions := m\<rparr>)"
    and tasks: "\<And>s m. P s \<Longrightarrow> P (s\<lparr>rn_actor_tasks := m\<rparr>)"
    and invocations: "\<And>s m. P s \<Longrightarrow> P (s\<lparr>rn_atom_invocations := m\<rparr>)"
    and team_sessions: "\<And>s m n. P s \<Longrightarrow> P (s\<lparr>rn_ensemble_sessions := m, rn_ensemble_tasks := n\<rparr>)"
    and joined: "\<And>s k. P s \<Longrightarrow> P (s\<lparr>rn_in_flight := obj_del (rn_in_flight s) k\<rparr>)"
begin

lemma keep_log [keeps_intro]: "keeps P (log_event k x)"
  unfolding log_event_def by (intro keeps_intro logged)

lemma keep_effect [keeps_intro]: "keeps P (emit_effect en ef)"
  unfolding emit_effect_def by (intro keeps_intro world)

lemma keep_system [keeps_intro]: "keeps P (emit_system_event en k x)"
  unfolding emit_system_event_def by (intro keeps_intro)

lemma keep_note [keeps_intro]: "keeps P (arc_note en k x)"
  unfolding arc_note_def by (intro keeps_intro)

lemma keep_call [keeps_intro]: "keeps P (ecall f)"
  by (intro keeps_call world)

lemma keep_output [keeps_intro]: "keeps P (record_output n t)"
  unfolding record_output_def by (intro keeps_intro outputs)

lemma keep_verdict [keeps_intro]: "keeps P (set_verdict v)"
  unfolding set_verdict_def by (intro keeps_intro verdict)

lemma keep_result [keeps_intro]: "keeps P (record_result n v)"
  unfolding record_result_def by (intro keeps_intro result)

lemma keep_signal [keeps_intro]: "keeps P (add_signal sg)"
  unfolding add_signal_def by (intro keeps_intro signal)

lemma keep_session [keeps_intro]: "keeps P (set_session d a x)"
  unfolding set_session_def by (intro keeps_intro sessions)

lemma keep_team [keeps_intro]: "keeps P (set_team_sessions d a x)"
  unfolding set_team_sessions_def by (intro keeps_intro team_sessions)

lemma keep_tasks [keeps_intro]: "keeps P (eupd (\<lambda>s. s\<lparr>rn_actor_tasks := f s\<rparr>))"
  by (intro keeps_intro tasks)

lemma keep_invocations [keeps_intro]: "keeps P (eupd (\<lambda>s. s\<lparr>rn_atom_invocations := f s\<rparr>))"
  by (intro keeps_intro invocations)

lemma keep_joined [keeps_intro]: "keeps P (eupd (\<lambda>s. s\<lparr>rn_in_flight := obj_del (rn_in_flight s) k\<rparr>))"
  by (intro keeps_intro joined)

lemma keep_waits [keeps_intro]: "keeps P (set_waits en w)"
  unfolding set_waits_def by (intro keeps_intro world)

lemma keep_poll [keeps_intro]: "keeps P (poll_cancelled en)"
  unfolding poll_cancelled_def by (intro keeps_intro)

lemma keep_ensure [keeps_intro]: "keeps P (ensure_not_cancelled en n)"
  unfolding ensure_not_cancelled_def by (intro keeps_intro)

lemma keep_render [keeps_intro]: "keeps P (render_prompt en t)"
  unfolding render_prompt_def by (intro keeps_intro)

lemma keep_snapshot [keeps_intro]: "keeps P (update_arc_snapshot en a b c)"
  unfolding update_arc_snapshot_def by (intro keeps_intro)

lemma keep_gate [keeps_intro]: "keeps P (apply_node_gate en n nd)"
  unfolding apply_node_gate_def gate_result_def by (intro keeps_intro)

lemma keep_op_effect [keeps_intro]: "keeps P (apply_op_effect en eff)"
  by (auto simp: keeps_def apply_op_effect_def worktree project vars split: op_effect.splits sum.splits)

lemma keep_on_fail [keeps_intro]: "keeps P m \<Longrightarrow> keeps P n \<Longrightarrow> keeps P (on_fail p e m n)"
  by (cases p) (simp_all add: on_fail_def keeps_fail)

lemma keep_hook_gate [keeps_intro]: "keeps P (hook_gate en l i h)"
  unfolding hook_gate_def by (intro keeps_intro)

lemma keep_run_op [keeps_intro]: "keeps P (run_op en l i h)"
  unfolding run_op_def by (intro keeps_intro)

lemma keep_hooks [keeps_intro]: "keeps P (run_hooks en hs l)"
  unfolding run_hooks_def run_hook_def by (intro keeps_intro)

lemma keep_join [keeps_intro]: "keeps P (join_in_flight_source en src)"
  unfolding join_in_flight_source_def by (intro keeps_intro)

lemma keep_late [keeps_intro]: "keeps P (join_late_inject en n)"
  unfolding join_late_inject_def by (intro keeps_intro)

lemma keep_executor [keeps_intro]: "keeps P (run_executor_node en n a x p f)"
  unfolding run_executor_node_def by (intro keeps_intro)

lemma keep_ensemble [keeps_intro]: "keeps P (run_ensemble_node en n a x p)"
  unfolding run_ensemble_node_def by (intro keeps_intro)

lemma keep_atom [keeps_intro]: "keeps P (run_atom_node en n b nd)"
  unfolding run_atom_node_def by (intro keeps_intro)

lemma keep_sleep [keeps_intro]: "keeps P (run_sleep_node en n d)"
  unfolding run_sleep_node_def by (intro keeps_intro)

lemma keep_provider_poll [keeps_intro]: "keeps P (provider_poll en n pe task d k)"
  unfolding provider_poll_def past_deadline_def provider_timed_out_def provider_batch_def
    provider_resolved_def pause_poll_def by (intro keeps_intro)

lemma keep_polling [keeps_intro]: "keeps P (provider_loop en n pe task d p k)"
  by (induction p arbitrary: k) (unfold provider_loop.simps, intro keeps_intro, intro keeps_intro)

lemma keep_provider [keeps_intro]: "keeps P (run_provider_event_wait_node en n pe t)"
  unfolding run_provider_event_wait_node_def deadline_of_def by (intro keeps_intro)

lemma keep_import [keeps_intro]: "keeps P (import_vars en a b n is rs)"
  unfolding import_vars_def by (intro keeps_intro)

lemma keep_clear_wait:
  assumes "\<And>cw. keeps P (m cw)"
  shows "keeps P (ebind (eget (\<lambda>s. begin_wait lib now (j s) n slot ws (rn_ctx s) (w s))) (\<lambda>cw.
           eseq (set_context (fst cw)) (m cw)))"
  using assms
  by (auto simp: keeps_def ebind_def eseq_def eget_def set_context_def eupd_def begin_wait_def Let_def clear)

lemma keep_export_set:
  assumes "\<And>c. keeps P (m c)"
  shows "keeps P (ebind (eget rn_ctx) (\<lambda>ctx.
           case set_var k v (wf_vars_schema (en_spec en)) ctx of
             Inl e \<Rightarrow> efail (f e) | Inr ctx' \<Rightarrow> eseq (set_context ctx') (m ctx')))"
  using assms
  by (auto simp: keeps_def ebind_def eseq_def eget_def set_context_def eupd_def efail_def vars
      split: sum.splits)

lemma keep_collect_set:
  assumes "\<And>c. keeps P (m c)"
  shows "keeps P (ebind (eget (\<lambda>s. set_var k v (wf_vars_schema (en_spec en)) (rn_ctx s))) (\<lambda>r.
           ebind (elift (map_err f r)) (\<lambda>ctx. eseq (set_context ctx) (m ctx))))"
  using assms
  by (auto simp: keeps_def ebind_def eseq_def eget_def elift_def map_err_def set_context_def eupd_def vars
      split: sum.splits)

lemma keep_wait [keeps_intro]: "keeps P (run_wait_node en n ws)"
  unfolding run_wait_node_def Let_def by (intro keeps_intro keep_clear_wait)

lemma keep_export [keeps_intro]: "keeps P (export_var en a vs n k)"
  unfolding export_var_def by (intro keeps_intro keep_export_set)

lemma keep_subworkflow [keeps_intro]: "keeps P (run_subworkflow_node en n)"
  unfolding run_subworkflow_node_def Let_def by (intro keeps_intro)

lemma keep_plans [keeps_intro]: "keeps P (build_plans en n rt ks i items)"
proof (induction items arbitrary: ks i)
  case Nil
  show ?case by (simp add: keeps_ret)
next
  case (Cons item items)
  show ?case unfolding build_plans.simps by (intro keeps_intro Cons.IH)
qed

lemma keep_fanout_loop [keeps_intro]: "keeps P (fanout_loop en n g rt plans call par fuel f)"
proof (induction fuel arbitrary: f)
  case 0
  show ?case by (simp add: keeps_ret)
next
  case (Suc fuel)
  show ?case unfolding fanout_loop.simps Let_def by (intro keeps_intro Suc.IH)
qed

lemma keep_fanout [keeps_intro]: "keeps P (run_dynamic_fanout_node en n nd)"
  unfolding run_dynamic_fanout_node_def Let_def by (intro keeps_intro keep_collect_set)

lemma keep_leave [keeps_intro]: "keeps P (leave_node en n nd)"
  unfolding leave_node_def run_node_exit_hooks_def by (intro keeps_intro)

lemma keep_policy [keeps_intro]: "keeps P (apply_policy_packet en i a b)"
  unfolding apply_policy_packet_def by (intro keeps_intro)

lemma keep_anchor [keeps_intro]: "keeps P (write_compaction_anchor en a)"
  unfolding write_compaction_anchor_def by (intro keeps_intro)

lemma keep_next [keeps_intro]: "keeps P (next_node en a)"
  unfolding next_node_def by (intro keeps_intro)

lemma keep_retry [keeps_intro]: "keeps P (check_retry n nd v)"
  unfolding check_retry_def by (intro keeps_intro)

lemma keep_prompt [keeps_intro]: "keeps P (actor_prompt en nd v)"
  unfolding actor_prompt_def by (intro keeps_intro)

end

section \<open>Work in the background\<close>

locale forking_invariant = runner_invariant en P for en :: "'s engine" and P :: "'s runner \<Rightarrow> bool" +
  assumes started: "\<And>s m. P s \<Longrightarrow> P (s\<lparr>rn_in_flight := m\<rparr>)"
begin

lemma keep_put [keeps_intro]: "keeps P (put_in_flight n f)"
  unfolding put_in_flight_def by (intro keeps_intro started)

lemma keep_dispatch [keeps_intro]: "keeps P (dispatch_fire_and_forget en n)"
  unfolding dispatch_fire_and_forget_def by (intro keeps_intro)

lemma keep_fork [keeps_intro]: "keeps P (fork_and_leave en n nd)"
  unfolding fork_and_leave_def run_fork_dispatch_def by (intro keeps_intro)

end

section \<open>A whole walk\<close>

locale walk_invariant = forking_invariant en P for en :: "'s engine" and P :: "'s runner \<Rightarrow> bool" +
  assumes visited: "\<And>s m. P s \<Longrightarrow> P (s\<lparr>rn_visit_counts := m\<rparr>)"
begin

lemma keep_count [keeps_intro]: "keeps P (count_visit n)"
  unfolding count_visit_def by (intro keeps_intro visited)

lemma keep_activity [keeps_intro]: "keeps P (run_activity_node en n)"
  unfolding run_activity_node_def node_body_def run_atom_activity_def run_hook_only_activity_def run_actor_activity_def
  by (intro keeps_intro)

lemma keep_node [keeps_intro]: "keeps P (run_node en n)"
  unfolding run_node_def by (intro keeps_intro)

lemma keep_step [keeps_intro]: "keeps P (loop_step en i n)"
  unfolding loop_step_def by (intro keeps_intro)

lemma keep_loop [keeps_intro]: "keeps P (run_loop en fuel i n)"
proof (induction fuel arbitrary: i n)
  case 0
  show ?case unfolding run_loop.simps [of en 0] nat.case by (intro keeps_intro)
next
  case (Suc fuel)
  show ?case unfolding run_loop.simps [of en "Suc fuel"] nat.case by (intro keeps_intro Suc.IH)
qed

lemma keep_run [keeps_intro]: "keeps P (run_arc en)"
  unfolding run_arc_def Let_def by (intro keeps_intro)

end

section \<open>An arc to its end\<close>

locale arc_invariant = walk_invariant en P for en :: "'s engine" and P :: "'s runner \<Rightarrow> bool" +
  assumes outcome: "\<And>s t. P s \<Longrightarrow>
      P (s\<lparr>rn_ctx := (rn_ctx s)\<lparr>cx_meta := (cx_meta (rn_ctx s))\<lparr>me_arc_outcome := Some t\<rparr>\<rparr>\<rparr>)"
    and thread: "\<And>s t. P s \<Longrightarrow> P (s\<lparr>rn_thread_id := Some t\<rparr>)"
begin

lemma keep_outcome [keeps_intro]: "keeps P (set_outcome t)"
  unfolding set_outcome_def by (intro keeps_intro outcome)

lemma keep_thread [keeps_intro]: "keeps P (open_arc_thread en)"
  unfolding open_arc_thread_def by (intro keeps_intro thread)

lemma keep_exit_hooks [keeps_intro]: "keeps P (run_arc_exit_hooks en)"
  unfolding run_arc_exit_hooks_def by (intro keeps_intro)

lemma keep_conclude [keeps_intro]: "keeps P (conclude en r)"
  unfolding conclude_def settle_status_def final_status_def by (intro keeps_intro)

lemma keep_drive: "P s \<Longrightarrow> P (snd (drive_arc en s))"
  unfolding drive_arc_def Let_def snd_conv by (intro keepsD [OF keep_conclude] keepsD [OF keep_run] keepsD [OF keep_thread])

end

section \<open>The invariants of the engine\<close>

text \<open>Variables at their declared kinds, through an arc to its end.\<close>

interpretation typed_vars: arc_invariant en "\<lambda>s. vars_ok (wf_vars_schema (en_spec en)) (rn_ctx s)" for en
  by unfold_locales
    (auto simp: vars_ok_def set_output_def record_actor_result_def record_signal_def clear_last_signal_def
      intro: set_var_ok [unfolded vars_ok_def, rule_format])

text \<open>The text and the JSON form of the outputs, through an arc to its end.\<close>

definition mirrored :: "'s runner \<Rightarrow> bool" where
  "mirrored s = (\<forall>k. obj_get (cx_outputs (rn_ctx s)) k = map_option JStr (obj_get (rn_node_outputs s) k))"

lemma set_var_outputs: "set_var k v schema ctx = Inr ctx' \<Longrightarrow> cx_outputs ctx' = cx_outputs ctx"
  by (auto simp: set_var_iff)

lemma set_var_meta: "set_var k v schema ctx = Inr ctx' \<Longrightarrow> cx_meta ctx' = cx_meta ctx"
  by (auto simp: set_var_iff)

interpretation mirror: arc_invariant en mirrored for en
  by unfold_locales
    (auto simp: mirrored_def obj_get_insert set_output_def record_actor_result_def record_signal_def
      clear_last_signal_def set_var_outputs)

text \<open>The outcome is not set before the walk ends.\<close>

interpretation outcome_kept: walk_invariant en "\<lambda>s. Q (outcome_now s)" for en Q
  by unfold_locales
    (auto simp: outcome_now_def set_output_def record_actor_result_def record_signal_def
      clear_last_signal_def set_var_meta)

text \<open>The id of the arc never changes.\<close>

interpretation arc_id_kept: arc_invariant en "\<lambda>s. arc_id_of s = x" for en x
  by unfold_locales
    (auto simp: arc_id_of_def set_output_def record_actor_result_def record_signal_def
      clear_last_signal_def set_var_meta)

text \<open>Nothing but a node's own count changes the visits.\<close>

interpretation visits_kept: forking_invariant en "\<lambda>s. Q (rn_visit_counts s)" for en Q
  by unfold_locales auto

text \<open>Only the dispatch of branches starts work in the background.\<close>

lemma obj_del_keys: "fst ` set (obj_del m k) = fst ` set m - {k}"
  by (auto simp: obj_del_def)

interpretation nothing_started: runner_invariant en "\<lambda>s. fst ` set (rn_in_flight s) \<subseteq> K" for en K
  by unfold_locales (auto simp: obj_del_keys)

end
