(* ===== verification/Workflow_Walk.thy ===== *)
theory Workflow_Walk
  imports Workflow_Invariants
begin

text \<open>
  What the engine guarantees: its recursion over embedded workflows, the walk as a step relation,
  and what holds along every walk and at the end of every arc.
\<close>

section \<open>The engine of the children\<close>

named_theorems child_free \<open>operations that do not run children\<close>

lemma child_free_fields [child_free]:
  "en_server (en\<lparr>en_child := f\<rparr>) = en_server en" "en_lib (en\<lparr>en_child := f\<rparr>) = en_lib en"
  "en_plib (en\<lparr>en_child := f\<rparr>) = en_plib en" "en_parse (en\<lparr>en_child := f\<rparr>) = en_parse en"
  "en_pretty (en\<lparr>en_child := f\<rparr>) = en_pretty en" "en_spec (en\<lparr>en_child := f\<rparr>) = en_spec en"
  "en_error_text (en\<lparr>en_child := f\<rparr>) = en_error_text en" "en_depth (en\<lparr>en_child := f\<rparr>) = en_depth en"
  "en_max_steps (en\<lparr>en_child := f\<rparr>) = en_max_steps en" "en_polls (en\<lparr>en_child := f\<rparr>) = en_polls en"
  "en_child (en\<lparr>en_child := f\<rparr>) = f"
  by simp_all

lemma child_free_base [child_free]:
  "emit_effect (en\<lparr>en_child := f\<rparr>) = emit_effect en"
  "poll_cancelled (en\<lparr>en_child := f\<rparr>) = poll_cancelled en"
  "render_prompt (en\<lparr>en_child := f\<rparr>) = render_prompt en"
  "node_of (en\<lparr>en_child := f\<rparr>) = node_of en"
  "completed_node_names (en\<lparr>en_child := f\<rparr>) = completed_node_names en"
  "store_of (en\<lparr>en_child := f\<rparr>) = store_of en"
  "apply_workflow_policy (en\<lparr>en_child := f\<rparr>) = apply_workflow_policy en"
  "apply_workflow_gate_all_entity (en\<lparr>en_child := f\<rparr>) = apply_workflow_gate_all_entity en"
  "apply_op_effect (en\<lparr>en_child := f\<rparr>) = apply_op_effect en"
  "make_dispatch (en\<lparr>en_child := f\<rparr>) = make_dispatch en"
  "make_team_dispatch (en\<lparr>en_child := f\<rparr>) = make_team_dispatch en"
  "atom_args (en\<lparr>en_child := f\<rparr>) = atom_args en"
  "set_waits (en\<lparr>en_child := f\<rparr>) = set_waits en"
  "import_vars (en\<lparr>en_child := f\<rparr>) = import_vars en"
  "sub_spec_of (en\<lparr>en_child := f\<rparr>) = sub_spec_of en"
  "export_var (en\<lparr>en_child := f\<rparr>) = export_var en"
  "fanout_child (en\<lparr>en_child := f\<rparr>) = fanout_child en"
  "array_of (en\<lparr>en_child := f\<rparr>) = array_of en"
  "item_key (en\<lparr>en_child := f\<rparr>) = item_key en"
  "status_text (en\<lparr>en_child := f\<rparr>) = status_text en"
  by (unfold emit_effect_def poll_cancelled_def render_prompt_def node_of_def
      completed_node_names_def store_of_def apply_workflow_policy_def apply_workflow_gate_all_entity_def
      apply_op_effect_def make_dispatch_def make_team_dispatch_def atom_args_def set_waits_def
      import_vars_def sub_spec_of_def export_var_def fanout_child_def array_of_def item_key_def
      status_text_def child_free) (rule refl)+

lemma child_free_notes [child_free]:
  "emit_system_event (en\<lparr>en_child := f\<rparr>) = emit_system_event en"
  "arc_note (en\<lparr>en_child := f\<rparr>) = arc_note en"
  "ensure_not_cancelled (en\<lparr>en_child := f\<rparr>) = ensure_not_cancelled en"
  "update_arc_snapshot (en\<lparr>en_child := f\<rparr>) = update_arc_snapshot en"
  "policy_entity (en\<lparr>en_child := f\<rparr>) = policy_entity en"
  by (unfold emit_system_event_def arc_note_def ensure_not_cancelled_def
      update_arc_snapshot_def policy_entity_def child_free) (rule refl)+

lemma child_free_polls [child_free]:
  "deadline_of (en\<lparr>en_child := f\<rparr>) = deadline_of en"
  "past_deadline (en\<lparr>en_child := f\<rparr>) = past_deadline en"
  "pause_poll (en\<lparr>en_child := f\<rparr>) = pause_poll en"
  "provider_timed_out (en\<lparr>en_child := f\<rparr>) = provider_timed_out en"
  "provider_resolved (en\<lparr>en_child := f\<rparr>) = provider_resolved en"
  by (unfold deadline_of_def past_deadline_def pause_poll_def provider_timed_out_def
      provider_resolved_def child_free) (rule refl)+

lemma child_free_batch [child_free]:
  "provider_batch (en\<lparr>en_child := f\<rparr>) = provider_batch en"
  by (intro ext, unfold provider_batch_def child_free) (rule refl)

lemma child_free_poll [child_free]:
  "provider_poll (en\<lparr>en_child := f\<rparr>) = provider_poll en"
  by (intro ext, unfold provider_poll_def child_free) (rule refl)

lemma child_free_polling [child_free]:
  "provider_loop (en\<lparr>en_child := f\<rparr>) n pe task d p k = provider_loop en n pe task d p k"
proof (induction p arbitrary: k)
  case (Suc p)
  show ?case unfolding provider_loop.simps child_free Suc.IH ..
qed simp

lemma child_free_gates [child_free]:
  "gate_result (en\<lparr>en_child := f\<rparr>) = gate_result en"
  "hook_gate (en\<lparr>en_child := f\<rparr>) = hook_gate en"
  "run_op (en\<lparr>en_child := f\<rparr>) = run_op en"
  "join_in_flight_source (en\<lparr>en_child := f\<rparr>) = join_in_flight_source en"
  "dispatch_fire_and_forget (en\<lparr>en_child := f\<rparr>) = dispatch_fire_and_forget en"
  "run_executor_node (en\<lparr>en_child := f\<rparr>) = run_executor_node en"
  "run_ensemble_node (en\<lparr>en_child := f\<rparr>) = run_ensemble_node en"
  "run_atom_node (en\<lparr>en_child := f\<rparr>) = run_atom_node en"
  "run_sleep_node (en\<lparr>en_child := f\<rparr>) = run_sleep_node en"
  "run_provider_event_wait_node (en\<lparr>en_child := f\<rparr>) = run_provider_event_wait_node en"
  "next_node (en\<lparr>en_child := f\<rparr>) = next_node en"
  "write_compaction_anchor (en\<lparr>en_child := f\<rparr>) = write_compaction_anchor en"
  "apply_policy_packet (en\<lparr>en_child := f\<rparr>) = apply_policy_packet en"
  "actor_prompt (en\<lparr>en_child := f\<rparr>) = actor_prompt en"
  "settle_status (en\<lparr>en_child := f\<rparr>) = settle_status en"
  "final_status (en\<lparr>en_child := f\<rparr>) = final_status en"
  "open_arc_thread (en\<lparr>en_child := f\<rparr>) = open_arc_thread en"
  by (unfold gate_result_def hook_gate_def run_op_def join_in_flight_source_def
      dispatch_fire_and_forget_def run_executor_node_def run_ensemble_node_def run_atom_node_def
      run_sleep_node_def run_provider_event_wait_node_def next_node_def write_compaction_anchor_def
      apply_policy_packet_def actor_prompt_def settle_status_def final_status_def open_arc_thread_def
      child_free) (rule refl)+

lemma child_free_hooks [child_free]:
  "apply_node_gate (en\<lparr>en_child := f\<rparr>) = apply_node_gate en"
  "run_hook (en\<lparr>en_child := f\<rparr>) = run_hook en"
  "join_late_inject (en\<lparr>en_child := f\<rparr>) = join_late_inject en"
  "run_fork_dispatch (en\<lparr>en_child := f\<rparr>) = run_fork_dispatch en"
  "run_wait_node (en\<lparr>en_child := f\<rparr>) = run_wait_node en"
  "materialize_foreach_runtime (en\<lparr>en_child := f\<rparr>) = materialize_foreach_runtime en"
  "materialize_matrix_runtime (en\<lparr>en_child := f\<rparr>) = materialize_matrix_runtime en"
  "outcome_of (en\<lparr>en_child := f\<rparr>) = outcome_of en"
  by (unfold apply_node_gate_def run_hook_def join_late_inject_def run_fork_dispatch_def
      run_wait_node_def materialize_foreach_runtime_def materialize_matrix_runtime_def outcome_of_def
      child_free) (rule refl)+

lemma child_free_lists [child_free]:
  "run_hooks (en\<lparr>en_child := f\<rparr>) = run_hooks en"
  "materialize_fanout_runtime (en\<lparr>en_child := f\<rparr>) = materialize_fanout_runtime en"
  "build_plans (en\<lparr>en_child := f\<rparr>) n rt ks i items = build_plans en n rt ks i items"
proof -
  show "run_hooks (en\<lparr>en_child := f\<rparr>) = run_hooks en"
    by (unfold run_hooks_def child_free, rule refl)
  show "materialize_fanout_runtime (en\<lparr>en_child := f\<rparr>) = materialize_fanout_runtime en"
    by (unfold materialize_fanout_runtime_def child_free) (rule refl)
  show "build_plans (en\<lparr>en_child := f\<rparr>) n rt ks i items = build_plans en n rt ks i items"
  proof (induction items arbitrary: ks i)
    case (Cons item items)
    show ?case unfolding build_plans.simps child_free Cons.IH ..
  qed simp
qed

lemma child_free_leave [child_free]:
  "leave_node (en\<lparr>en_child := f\<rparr>) = leave_node en"
  "fork_and_leave (en\<lparr>en_child := f\<rparr>) = fork_and_leave en"
  "run_arc_exit_hooks (en\<lparr>en_child := f\<rparr>) = run_arc_exit_hooks en"
  "conclude (en\<lparr>en_child := f\<rparr>) = conclude en"
  by (intro ext, unfold leave_node_def run_node_exit_hooks_def fork_and_leave_def
      run_arc_exit_hooks_def conclude_def child_free) (rule refl)+

lemma ebind_eget: "ebind (eget g) h s = h (g s) s"
  by (simp add: ebind_def eget_def)

lemma ebind_cong_fun: "(\<And>a. f a = g a) \<Longrightarrow> ebind m f = ebind m g"
  by (metis ext)

lemma eseq_cong_snd: "n = n' \<Longrightarrow> eseq m n = eseq m n'"
  by simp

definition agrees :: "'s engine \<Rightarrow> (child_call \<Rightarrow> 's \<Rightarrow> run_result \<times> 's) \<Rightarrow> bool" where
  "agrees en f = (\<forall>c. cc_depth c = Suc (en_depth en) \<longrightarrow> f c = en_child en c)"

lemma call_cong:
  "(\<And>s. f (g s) = h (g s)) \<Longrightarrow>
     ebind (eget g) (\<lambda>c. ebind (ecall (f c)) k) = ebind (eget g) (\<lambda>c. ebind (ecall (h c)) k)"
  by (simp add: fun_eq_iff ebind_def eget_def ecall_def)

lemma get_cong: "(\<And>s. f (g s) s = h (g s) s) \<Longrightarrow> ebind (eget g) f = ebind (eget g) h"
  by (simp add: fun_eq_iff ebind_eget)

lemma child_free_sub:
  assumes "agrees en f"
  shows "run_subworkflow_node (en\<lparr>en_child := f\<rparr>) n = run_subworkflow_node en n"
  unfolding run_subworkflow_node_def Let_def child_free
  by (intro call_cong eseq_cong_snd ebind_cong_fun if_cong option.case_cong refl)
    (use assms in \<open>simp_all add: agrees_def\<close>)

lemma child_free_fanout_loop:
  assumes "\<And>p. f (call p) = en_child en (call p)"
  shows "fanout_loop (en\<lparr>en_child := f\<rparr>) n g rt plans call par fuel fs =
    fanout_loop en n g rt plans call par fuel fs"
proof (induction fuel arbitrary: fs)
  case (Suc fuel)
  show ?case unfolding fanout_loop.simps Let_def child_free Suc.IH assms ..
qed simp

lemma child_free_fanout:
  assumes "agrees en f"
  shows "run_dynamic_fanout_node (en\<lparr>en_child := f\<rparr>) n nd = run_dynamic_fanout_node en n nd"
proof -
  have *: "ebind (eget g) (\<lambda>call. eseq m (ebind
        (fanout_loop (en\<lparr>en_child := f\<rparr>) n grp rt plans call par fuel fs) k)) =
      ebind (eget g) (\<lambda>call. eseq m (ebind (fanout_loop en n grp rt plans call par fuel fs) k))"
    if "\<And>s p. cc_depth (g s p) = Suc (en_depth en)" for g m grp rt plans par fuel fs and k :: "_ \<Rightarrow> ('a, unit) eng"
    using that child_free_fanout_loop [of f _ en] assms by (intro get_cong) (metis agrees_def)
  show ?thesis
    unfolding run_dynamic_fanout_node_def Let_def child_free
    by (intro * eseq_cong_snd ebind_cong_fun if_cong option.case_cong refl) simp_all
qed

lemma child_free_activity:
  assumes "agrees en f"
  shows "run_activity_node (en\<lparr>en_child := f\<rparr>) n = run_activity_node en n"
proof -
  have "run_atom_activity (en\<lparr>en_child := f\<rparr>) = run_atom_activity en"
    "run_hook_only_activity (en\<lparr>en_child := f\<rparr>) = run_hook_only_activity en"
    "run_actor_activity (en\<lparr>en_child := f\<rparr>) = run_actor_activity en"
    by (unfold run_atom_activity_def run_hook_only_activity_def run_actor_activity_def child_free) (rule refl)+
  then show ?thesis
    unfolding run_activity_node_def node_body_def child_free child_free_sub [OF assms] child_free_fanout [OF assms]
    by (simp only:)
qed

lemma child_free_run:
  assumes "agrees en f"
  shows "run_arc (en\<lparr>en_child := f\<rparr>) = run_arc en"
proof -
  have step: "loop_step (en\<lparr>en_child := f\<rparr>) i c = loop_step en i c" for i c
    unfolding loop_step_def run_node_def child_free child_free_activity [OF assms] ..
  have loop: "run_loop (en\<lparr>en_child := f\<rparr>) fuel i c = run_loop en fuel i c" for fuel i c
  proof (induction fuel arbitrary: i c)
    case 0
    show ?case unfolding run_loop.simps [of _ 0] child_free nat.case ..
  next
    case (Suc fuel)
    show ?case unfolding run_loop.simps [of _ "Suc fuel"] child_free step nat.case Suc.IH ..
  qed
  show ?thesis unfolding run_arc_def child_free loop ..
qed

lemma child_free_start:
  assumes "agrees en f"
  shows "start_arc (en\<lparr>en_child := f\<rparr>) = start_arc en"
  by (unfold start_arc_def drive_arc_def child_free child_free_run [OF assms]) (rule refl)

text \<open>Property C9. The runner needs no fuel: the run at a depth satisfies the recursion of the source, which
  refuses a depth above five and hands itself, one level deeper, to embedded workflows.\<close>

theorem nesting_recursion:
  "run_workflow_at_depth en0 call w =
     (if max_workflow_depth < cc_depth call
      then (failed_result (ErrorDepth (cc_depth call)) [] [], w)
      else run_workflow_body en0 (run_workflow_at_depth en0) call w)"
proof (cases "max_workflow_depth < cc_depth call")
  case True
  then have "Suc max_workflow_depth - cc_depth call = 0" by simp
  with True show ?thesis by (simp add: run_workflow_at_depth_def)
next
  case False
  define lv where "lv = max_workflow_depth - cc_depth call"
  have lv: "Suc max_workflow_depth - cc_depth call = Suc lv" using False by (simp add: lv_def)
  let ?f = "run_workflow_at_depth en0"
  let ?en = "engine_for en0 (run_nested lv en0) call"
  have "?f c = run_nested lv en0 c" if "cc_depth c = Suc (cc_depth call)" for c
    using that by (simp add: run_workflow_at_depth_def lv_def fun_eq_iff)
  then have "start_arc (?en\<lparr>en_child := ?f\<rparr>) = start_arc ?en"
    by (intro child_free_start) (simp add: engine_for_def agrees_def)
  moreover have "?en\<lparr>en_child := ?f\<rparr> = engine_for en0 ?f call" by (simp add: engine_for_def)
  moreover have "new_runner (?en\<lparr>en_child := ?f\<rparr>) = new_runner ?en"
    by (unfold new_runner_def child_free) (rule refl)
  ultimately have "run_workflow_body en0 ?f call w = run_workflow_body en0 (run_nested lv en0) call w"
    by (simp add: run_workflow_body_def Let_def)
  with False show ?thesis by (simp add: run_workflow_at_depth_def lv)
qed

section \<open>The walk as a step relation\<close>

text \<open>A configuration is the number of steps made, the node to run and the runner.\<close>

type_synonym 's config = "nat \<times> string \<times> 's runner"

definition go_on :: "'s engine \<Rightarrow> string \<Rightarrow> 's runner \<Rightarrow> 's runner \<Rightarrow> bool" where
  "go_on en cur s s' = (cur \<noteq> terminal_sentinel \<and> poll_cancelled en s = (Inr False, s'))"

inductive arc_step :: "'s engine \<Rightarrow> 's config \<Rightarrow> 's config \<Rightarrow> bool" for en where
  step: "go_on en cur s s1 \<Longrightarrow> n < en_max_steps en \<Longrightarrow> loop_step en (Suc n) cur s1 = (Inr nxt, s2) \<Longrightarrow>
           arc_step en (n, cur, s) (Suc n, nxt, s2)"

inductive arc_stop :: "'s engine \<Rightarrow> 's config \<Rightarrow> engine_error \<Rightarrow> 's runner \<Rightarrow> bool" for en where
  cancel: "cur \<noteq> terminal_sentinel \<Longrightarrow> poll_cancelled en s = (Inr True, s1) \<Longrightarrow>
             log_event ''cancelled'' cur s1 = (r, s2) \<Longrightarrow> arc_stop en (n, cur, s) ArcCancelled s2"
| limit: "go_on en cur s s1 \<Longrightarrow> en_max_steps en \<le> n \<Longrightarrow>
            arc_stop en (n, cur, s) (MaxStepsExceeded (en_max_steps en)) s1"
| error: "go_on en cur s s1 \<Longrightarrow> n < en_max_steps en \<Longrightarrow> loop_step en (Suc n) cur s1 = (Inl e, s2) \<Longrightarrow>
            arc_stop en (n, cur, s) e s2"

inductive_cases arc_stepE: "arc_step en (n, cur, s) c"
inductive_cases arc_stopE: "arc_stop en (n, cur, s) e s'"

text \<open>What the loop returns is where the step relation leads.\<close>

definition walk_result :: "'s engine \<Rightarrow> 's config \<Rightarrow> (engine_error + nat) \<times> 's runner \<Rightarrow> bool" where
  "walk_result en c r =
     (case r of
        (Inr k, s') \<Rightarrow> (arc_step en)\<^sup>*\<^sup>* c (k, terminal_sentinel, s')
      | (Inl e, s') \<Rightarrow> (\<exists>c'. (arc_step en)\<^sup>*\<^sup>* c c' \<and> arc_stop en c' e s'))"

lemma poll_Inr: "\<exists>b s1. poll_cancelled en s = (Inr b, s1)"
  by (simp add: poll_cancelled_def ebind_eget ecall_def Let_def)

lemma walk_result_step: "arc_step en c c1 \<Longrightarrow> walk_result en c1 r \<Longrightarrow> walk_result en c r"
  by (auto simp: walk_result_def split: prod.splits sum.splits intro: converse_rtranclp_into_rtranclp)

lemma walk_result_stop: "arc_stop en c e s' \<Longrightarrow> walk_result en c (Inl e, s')"
  unfolding walk_result_def by (cases c) (auto intro: rtranclp.rtrancl_refl)

lemma walk_end: "walk_result en (n, terminal_sentinel, s) (run_loop en fuel n terminal_sentinel s)"
  by (simp add: run_loop.simps [of en fuel] eret_def walk_result_def)

lemma walk_cancel:
  assumes "cur \<noteq> terminal_sentinel" "poll_cancelled en s = (Inr True, s1)"
  shows "walk_result en (n, cur, s) (run_loop en fuel n cur s)"
  using walk_result_stop [OF arc_stop.cancel [OF assms prod.collapse [symmetric]], of n] assms
  by (simp add: run_loop.simps [of en fuel] ebind_def eseq_def efail_def log_event_def eupd_def)

lemma run_loop_walk:
  "n + fuel = en_max_steps en \<Longrightarrow> walk_result en (n, cur, s) (run_loop en fuel n cur s)"
proof (induction fuel arbitrary: n cur s)
  case 0
  obtain b s1 where p: "poll_cancelled en s = (Inr b, s1)" using poll_Inr by blast
  show ?case
  proof (cases "cur = terminal_sentinel")
    case True
    then show ?thesis by (simp add: walk_end)
  next
    case cur: False
    show ?thesis
    proof (cases b)
      case True
      with cur p show ?thesis by (intro walk_cancel) auto
    next
      case False
      with cur p have "arc_stop en (n, cur, s) (MaxStepsExceeded (en_max_steps en)) s1"
        using 0 by (intro arc_stop.limit) (auto simp: go_on_def)
      from walk_result_stop [OF this] show ?thesis
        using cur p False by (simp add: run_loop.simps [of en 0] ebind_def efail_def)
    qed
  qed
next
  case (Suc fuel)
  obtain b s1 where p: "poll_cancelled en s = (Inr b, s1)" using poll_Inr by blast
  show ?case
  proof (cases "cur = terminal_sentinel")
    case True
    then show ?thesis by (simp add: walk_end)
  next
    case cur: False
    show ?thesis
    proof (cases b)
      case True
      with cur p show ?thesis by (intro walk_cancel) auto
    next
      case False
      with cur p have go: "go_on en cur s s1" by (simp add: go_on_def)
      obtain r s2 where ls: "loop_step en (Suc n) cur s1 = (r, s2)" by force
      have lt: "n < en_max_steps en" using Suc.prems by simp
      show ?thesis
      proof (cases r)
        case (Inl e)
        from walk_result_stop [OF arc_stop.error [OF go lt ls [unfolded Inl]]] show ?thesis
          using cur p False ls Inl by (simp add: run_loop.simps [of en "Suc fuel"] ebind_def)
      next
        case (Inr nxt)
        have "walk_result en (Suc n, nxt, s2) (run_loop en fuel (Suc n) nxt s2)"
          using Suc.prems by (intro Suc.IH) simp
        from walk_result_step [OF arc_step.step [OF go lt ls [unfolded Inr]] this] show ?thesis
          using cur p False ls Inr by (simp add: run_loop.simps [of en "Suc fuel"] ebind_def)
      qed
    qed
  qed
qed

lemma arc_step_det: "arc_step en c c1 \<Longrightarrow> arc_step en c c2 \<Longrightarrow> c1 = c2"
  by (auto elim!: arc_step.cases simp: go_on_def)

lemma arc_step_stop: "arc_step en c c1 \<Longrightarrow> \<not> arc_stop en c e s"
  by (auto elim!: arc_step.cases elim: arc_stopE simp: go_on_def)

lemma arc_stop_det: "arc_stop en c e s \<Longrightarrow> arc_stop en c e' s' \<Longrightarrow> e = e' \<and> s = s'"
  by (auto elim!: arc_stop.cases simp: go_on_def)

lemma arc_step_end: "\<not> arc_step en (k, terminal_sentinel, s) c"
  by (auto elim!: arc_stepE simp: go_on_def)

lemma arc_stop_end: "\<not> arc_stop en (k, terminal_sentinel, s) e s'"
  by (auto elim!: arc_stopE simp: go_on_def)

lemma steps_counted: "(arc_step en)\<^sup>*\<^sup>* c c' \<Longrightarrow> fst c \<le> en_max_steps en \<Longrightarrow> fst c' \<le> en_max_steps en"
  by (induction rule: rtranclp_induct) (auto elim!: arc_step.cases)

text \<open>From one configuration at most one final result is reached.\<close>

lemma final_unique:
  assumes "(arc_step en)\<^sup>*\<^sup>* c a" "(arc_step en)\<^sup>*\<^sup>* c b" "\<And>x. \<not> arc_step en a x" "\<And>x. \<not> arc_step en b x"
  shows "a = b"
  using assms
proof (induction rule: converse_rtranclp_induct)
  case base
  then show ?case by (metis converse_rtranclpE)
next
  case (step y z)
  from step.prems(1) have "(arc_step en)\<^sup>*\<^sup>* z b"
    using step.hyps(1) step.prems(3) arc_step_det by (metis converse_rtranclpE)
  with step.IH step.prems show ?case by blast
qed

lemma walk_result_unique: "walk_result en c r \<Longrightarrow> walk_result en c r' \<Longrightarrow> r = r'"
proof -
  assume r: "walk_result en c r" and r': "walk_result en c r'"
  have final: "\<exists>a. (arc_step en)\<^sup>*\<^sup>* c a \<and> (\<forall>x. \<not> arc_step en a x) \<and>
      (case q of (Inr k, s) \<Rightarrow> a = (k, terminal_sentinel, s) | (Inl e, s) \<Rightarrow> arc_stop en a e s)"
    if "walk_result en c q" for q
    using that arc_step_end arc_step_stop
    by (fastforce simp: walk_result_def split: prod.splits sum.splits)
  obtain a where a: "(arc_step en)\<^sup>*\<^sup>* c a" "\<forall>x. \<not> arc_step en a x"
    "case r of (Inr k, s) \<Rightarrow> a = (k, terminal_sentinel, s) | (Inl e, s) \<Rightarrow> arc_stop en a e s"
    using final [OF r] by blast
  obtain b where b: "(arc_step en)\<^sup>*\<^sup>* c b" "\<forall>x. \<not> arc_step en b x"
    "case r' of (Inr k, s) \<Rightarrow> b = (k, terminal_sentinel, s) | (Inl e, s) \<Rightarrow> arc_stop en b e s"
    using final [OF r'] by blast
  have "a = b" using final_unique [OF a(1) b(1)] a(2) b(2) by blast
  with a(3) b(3) show "r = r'"
    by (auto simp: arc_stop_end split: prod.splits sum.splits dest: arc_stop_det)
qed

text \<open>Property C1. The loop implements the step relation: it always returns, with the node after the last step
  or the error at which the relation stops, it returns nothing else, and it makes at most
  \<open>max_steps\<close> steps.\<close>

theorem loop_implements_steps:
  "(run_loop en (en_max_steps en) 0 entry s = r) = walk_result en (0, entry, s) r \<and>
   fst (run_loop en (en_max_steps en) 0 entry s) \<notin> Inr ` {k. en_max_steps en < k}"
proof (intro conjI)
  have w: "walk_result en (0, entry, s) (run_loop en (en_max_steps en) 0 entry s)"
    by (rule run_loop_walk) simp
  then show "(run_loop en (en_max_steps en) 0 entry s = r) = walk_result en (0, entry, s) r"
    using walk_result_unique by blast
  show "fst (run_loop en (en_max_steps en) 0 entry s) \<notin> Inr ` {k. en_max_steps en < k}"
    using w steps_counted by (fastforce simp: walk_result_def split: prod.splits sum.splits)
qed

end
