(* ===== verification/Workflow_Guarantees.thy ===== *)
theory Workflow_Guarantees
  imports Workflow_Walk
begin

text \<open>
  What holds of every arc: the kinds of its variables, its status and outcome, the nodes it visits and
  how often, what its forks start, what its policy packet sees, how a cancellation inside an
  embedded workflow ends, and what a refused arc leaves behind.
\<close>

section \<open>A server to try the engine on\<close>

text \<open>It writes down the effects, is never cancelled, answers every dispatch and has nothing in its
  stores.\<close>

definition sample_report :: task_report where
  "sample_report =
     \<lparr>tr_completed = True, tr_result = [(''status'', JStr ''completed''), (''result'', JStr ''fine'')],
      tr_snapshot = [], tr_session = ''session-1''\<rparr>"

definition sample_transcripts :: "'s transcripts" where
  "sample_transcripts =
     \<lparr>ts_has_task = \<lambda>_ _. False, ts_task = \<lambda>_ _. \<lparr>tt_provider = Claude, tt_session_id = [],
        tt_location = None, tt_cursor = None\<rparr>,
      ts_set_task = \<lambda>_ _ w. w, ts_adapter = \<lambda>_. True, ts_locate = \<lambda>_ _ _. Inr None,
      ts_read_since = \<lambda>_ _ _. Inr ([], None), ts_cursors = \<lambda>_ _. Inr [],
      ts_save_cursors = \<lambda>_ _ w. w, ts_persist = \<lambda>w. w, ts_clock = \<lambda>w. (0, w),
      ts_pause = \<lambda>_ w. w\<rparr>"

definition sample_server :: "effect list server" where
  "sample_server =
     \<lparr>se_cancelled = \<lambda>_ w. (False, w), se_now = \<lambda>w. (''now'', w), se_new_arc = \<lambda>w. (''arc-1'', w),
      se_new_group = \<lambda>_ w. (''group-1'', w), se_open_thread = \<lambda>_ w. (Inl ''no threads'', w),
      se_emit = \<lambda>e w. w @ [e], se_store = \<lambda>_. \<lparr>st_dirs = [], st_log = []\<rparr>,
      se_waits = \<lambda>_. \<lparr>ww_pending = [], ww_slots = \<lambda>_. None, ww_notified = \<lambda>_. False, ww_log = []\<rparr>,
      se_set_waits = \<lambda>_ w. w, se_new_slot = \<lambda>w. (0, w), se_journal = \<lambda>_ _. None,
      se_suspend = \<lambda>_ _ _ w. (TimedOut, w), se_sleep = \<lambda>_ _ w. (False, w),
      se_transcripts = sample_transcripts, se_is_terminal = \<lambda>_ _ _. False,
      se_runtime = \<lambda>_. None, se_dispatch = \<lambda>_ w. (Inr ''task-1'', w),
      se_dispatch_tmux = \<lambda>_ _ _ w. (Inr ''task-1'', w), se_dispatch_team = \<lambda>_ w. (Inr [], w),
      se_await = \<lambda>_ w. (sample_report, w), se_await_team = \<lambda>_ w. (Inr [], w),
      se_atom_invoke = \<lambda>_ w. (Inl ''no atoms'', w), se_atom_resume = \<lambda>_ _ _ w. (Inl ''no atoms'', w),
      se_atom_settle = \<lambda>_ _ w. (False, w), se_atom_status = \<lambda>_ _ w. (Inl ''no atoms'', w),
      se_op = \<lambda>_ _ _ _ w. (Inl ''no tools'', w), se_workflow = \<lambda>_ _. None, se_incapable = \<lambda>_ _. None,
      se_fanout_pick = \<lambda>_ w. ((0, True), w)\<rparr>"

definition sample_packets :: packet_lib where
  "sample_packets =
     \<lparr>pl_lower = id, pl_char_lower = id, pl_char_alnum = \<lambda>_. True, pl_regex = \<lambda>_ _ _. None,
      pl_parse = \<lambda>_. None, pl_rules = \<lambda>_. None, pl_print = \<lambda>_. [], pl_render = \<lambda>_. []\<rparr>"

definition sample_engine :: "workflow \<Rightarrow> effect list engine" where
  "sample_engine spec =
     \<lparr>en_server = sample_server, en_lib = sample_wf_lib, en_plib = sample_packets, en_parse = \<lambda>_. None,
      en_pretty = \<lambda>_. ''?'', en_error_text = \<lambda>_. ''error'', en_spec = spec, en_max_steps = 50, en_polls = 1,
      en_depth = 0, en_child = \<lambda>_ w. (failed_result CancelledArc [] [], w)\<rparr>"

definition sample_runner :: "workflow \<Rightarrow> effect list runner" where
  "sample_runner spec = new_runner (sample_engine spec) None None None []"

section \<open>Results\<close>

definition vars_typed :: "vars_schema option \<Rightarrow> jmap \<Rightarrow> bool" where
  "vars_typed schema vars =
     (\<forall>k v e. obj_get vars k = Some v \<longrightarrow> Option.bind schema (\<lambda>s. obj_get s k) = Some e \<longrightarrow>
        kind_matches (ve_kind e) v)"

lemma vars_ok_typed: "vars_ok schema ctx = vars_typed schema (cx_vars ctx)"
  by (simp add: vars_ok_def vars_typed_def)

lemma seed_outputs_vars [simp]: "cx_vars (seed_outputs outs ctx) = cx_vars ctx"
  unfolding seed_outputs_def by (induction outs arbitrary: ctx) (auto simp: set_output_def)

lemma new_runner_vars [simp]: "cx_vars (rn_ctx (new_runner en p t a w)) = []"
  by (simp add: new_runner_def new_context_def Let_def split: prod.splits)

lemma seed_runner_vars [simp]: "cx_vars (rn_ctx (seed_runner ss outs parent s)) = cx_vars (rn_ctx s)"
  by (simp add: seed_runner_def Let_def)

lemma vars_typed_empty [simp]: "vars_typed schema []"
  by (simp add: vars_typed_def)

lemma start_arc_typed:
  assumes "cx_vars (rn_ctx s) = []"
  shows "vars_typed (wf_vars_schema (en_spec en)) (rr_vars (fst (start_arc en vars s)))"
proof -
  obtain r ctx where rc: "seed_vars vars (wf_vars_schema (en_spec en)) (rn_ctx s) = (r, ctx)" by force
  have "vars_ok (wf_vars_schema (en_spec en)) ctx"
    using seed_vars_ok [of "wf_vars_schema (en_spec en)" "rn_ctx s" vars] assms rc
    by (simp add: vars_ok_typed)
  then have "vars_ok (wf_vars_schema (en_spec en)) (rn_ctx (snd (drive_arc en (s\<lparr>rn_ctx := ctx\<rparr>))))"
    by (intro typed_vars.keep_drive) simp
  then show ?thesis
    by (simp add: start_arc_def Let_def rc failed_result_def result_of_def vars_ok_typed split: sum.splits)
qed

text \<open>Property C3. Every variable in the result of a workflow, however it ended and whatever its actors, hooks and
  children wrote, holds a value of the kind the workflow's schema declares.\<close>

theorem results_are_typed:
  "vars_typed (wf_vars_schema (cc_spec call)) (rr_vars (fst (run_workflow_at_depth en0 call w)))"
proof (cases "Suc max_workflow_depth - cc_depth call")
  case 0
  then show ?thesis by (simp add: run_workflow_at_depth_def failed_result_def)
next
  case (Suc lv)
  have "en_spec (engine_for en0 (run_nested lv en0) call) = cc_spec call" by (simp add: engine_for_def)
  then show ?thesis
    using start_arc_typed [of _ "engine_for en0 (run_nested lv en0) call"]
    by (simp add: run_workflow_at_depth_def Suc run_workflow_body_def Let_def split: prod.splits)
qed

section \<open>The outcome\<close>

definition outcome_agrees :: "run_status \<Rightarrow> string option \<Rightarrow> bool" where
  "outcome_agrees st outcome =
     (case st of
        Completed \<Rightarrow> outcome = Some ''success''
      | CancelledArc \<Rightarrow> outcome = Some ''cancelled''
      | _ \<Rightarrow> (\<exists>t. outcome = Some t \<and> starts_with t ''failed''))"

definition simple_status :: "run_status \<Rightarrow> bool" where
  "simple_status st = (st = Completed \<or> st = CancelledArc \<or> (\<exists>e. st = ErrorRun e))"

definition outcome_or_failed :: "string \<Rightarrow> string option \<Rightarrow> bool" where
  "outcome_or_failed t x = (x = Some t \<or> (\<exists>u. x = Some u \<and> starts_with u ''failed''))"

lemma starts_with_append [simp]: "starts_with (p @ r) p"
  by (auto simp: starts_with_iff)

lemma failed_text [simp]: "starts_with (''failed: '' @ t) ''failed''"
  using starts_with_append [of "''failed''" "'': '' @ t"] by simp

lemma settle_simple:
  "ensures (\<lambda>s. outcome_now s = None) (settle_status en r) (\<lambda>st s. simple_status st \<and> outcome_now s = None)"
proof -
  have "keeps (\<lambda>s. outcome_now s = None) (settle_status en r)"
    unfolding settle_status_def by (intro keeps_intro outcome_kept.keep_log outcome_kept.keep_note
        outcome_kept.keep_snapshot outcome_kept.keep_system)
  moreover have "ensures (\<lambda>_. True) (settle_status en r) (\<lambda>st s. simple_status st)"
    by (auto simp: settle_status_def simple_status_def intro!: ensures_last ensures_ret split: sum.splits)
  ultimately show ?thesis by (rule ensures_both)
qed

lemma exit_hooks_outcome:
  "keeps (\<lambda>s. outcome_or_failed t (outcome_now s)) (run_arc_exit_hooks en)"
proof -
  have "keeps (\<lambda>s. outcome_or_failed t (outcome_now s)) (set_outcome (''failed: '' @ u))" for u
    by (simp add: keeps_def set_outcome_def eupd_def outcome_now_def outcome_or_failed_def del: append.simps)
  from this [of "''arc_cancel hook halted: '' @ v" for v] this [of "''arc_exit hook halted: '' @ v" for v]
  show ?thesis
    unfolding run_arc_exit_hooks_def
    by (intro keeps_intro outcome_kept.keep_log outcome_kept.keep_hooks) simp_all
qed

lemma final_agrees:
  assumes "simple_status st"
  shows "ensures (\<lambda>s. outcome_or_failed (outcome_of_status st) (outcome_now s)) (final_status en st)
    (\<lambda>st' s. outcome_agrees st' (outcome_now s))"
proof -
  have texts: "\<not> starts_with ''completed'' ''error''" "\<not> starts_with ''cancelled'' ''error''"
    by (simp_all add: starts_with_iff)
  have "ensures (\<lambda>s. outcome_now s = x)
      (case x of
         Some t \<Rightarrow>
           if starts_with t ''failed'' \<and> \<not> starts_with (status_text en st) ''error'' then
             eseq (update_arc_snapshot en (''error: '' @ t) ''(error)'' None) (eret (ErrorOutcome t))
           else eret st
       | None \<Rightarrow> eret st)
      (\<lambda>st' s. outcome_agrees st' (outcome_now s))"
    if x: "outcome_or_failed (outcome_of_status st) x" for x
  proof (cases x)
    case None
    with x show ?thesis by (simp add: outcome_or_failed_def)
  next
    case (Some t)
    show ?thesis
    proof (cases "starts_with t ''failed'' \<and> \<not> starts_with (status_text en st) ''error''")
      case True
      then show ?thesis unfolding Some option.case if_P [OF True]
        by (intro ensures_seq [OF ensures_keeps [OF outcome_kept.keep_snapshot]] ensures_ret)
          (simp add: outcome_agrees_def)
    next
      case False
      have "outcome_agrees st (Some t)"
        using False assms x Some texts starts_with_append [of "''failed''" "[]"]
        by (auto simp: simple_status_def outcome_or_failed_def outcome_of_status_def outcome_agrees_def
            status_text_def)
      then show ?thesis unfolding Some option.case if_not_P [OF False]
        by (intro ensures_ret) simp
    qed
  qed
  then show ?thesis
    unfolding final_status_def by (auto simp: ensures_def ebind_eget)
qed

lemma ensures_any_get: "(\<And>x. ensures P (f x) Q) \<Longrightarrow> ensures P (ebind (eget g) f) Q"
  by (simp add: ensures_def ebind_eget)

lemma ensures_first_outcome:
  "ensures (\<lambda>s. B \<and> outcome_now s = None) (eseq (set_outcome t) m) Q \<Longrightarrow>
     ensures (\<lambda>s. B \<and> outcome_now s = None)
       (ebind (eget outcome_now) (\<lambda>x. eseq (set_outcome (case x of Some u \<Rightarrow> u | None \<Rightarrow> t)) m)) Q"
  by (auto simp: ensures_def ebind_eget)

lemma conclude_agrees:
  "ensures (\<lambda>s. outcome_now s = None) (conclude en r) (\<lambda>st s. outcome_agrees st (outcome_now s))"
proof -
  let ?I = "\<lambda>st s. simple_status st \<and> outcome_or_failed (outcome_of_status st) (outcome_now s)"
  have put: "ensures (\<lambda>s. simple_status st \<and> outcome_now s = None) (set_outcome (outcome_of_status st))
      (\<lambda>_. ?I st)" for st
    by (simp add: ensures_def set_outcome_def eupd_def outcome_now_def outcome_or_failed_def)
  have hooks: "ensures (?I st) (run_arc_exit_hooks en) (\<lambda>_. ?I st)" for st
    using ensures_keeps [OF exit_hooks_outcome, of "outcome_of_status st" en] by (auto simp: ensures_def)
  have final: "ensures (?I st) (final_status en st) (\<lambda>st' s. outcome_agrees st' (outcome_now s))" for st
    using final_agrees [of st en] by (auto simp: ensures_def)
  show ?thesis unfolding conclude_def
    by (intro ensures_bind [OF settle_simple] ensures_bind [OF final] ensures_first_outcome
        ensures_seq [OF put] ensures_seq [OF hooks] ensures_any_get
        ensures_seq [OF ensures_keeps [OF keeps_when [OF
            outcome_kept.keep_note [of "\<lambda>z. simple_status st \<and> z = None" for st]]]]
        ensures_seq [OF ensures_keeps [OF outcome_kept.keep_effect]]
        ensures_seq [OF ensures_keeps [OF keeps_when [OF outcome_kept.keep_log]]] ensures_ret)
qed

text \<open>Property C23. The status and the recorded outcome of an arc agree: success when it completed, cancelled when it was
  cancelled, and an outcome that begins with failed in every other case, among them a completed
  walk whose exit hooks failed.\<close>

theorem status_and_outcome_agree:
  assumes "outcome_now s = None"
  shows "outcome_agrees (fst (drive_arc en s)) (outcome_now (snd (drive_arc en s)))"
proof -
  define s1 where "s1 = snd (open_arc_thread en s)"
  define s2 where "s2 = snd (run_arc en s1)"
  have "keeps (\<lambda>s. outcome_now s = None) (open_arc_thread en)"
    unfolding open_arc_thread_def
    by (intro keeps_intro outcome_kept.keep_log outcome_kept.keep_call) (simp add: outcome_now_def)
  then have "outcome_now s1 = None" unfolding s1_def using assms by (rule keepsD)
  then have s2: "outcome_now s2 = None" unfolding s2_def
    by (rule keepsD [OF outcome_kept.keep_run [of "\<lambda>z. z = None"]])
  obtain st s3 where c: "conclude en (fst (run_arc en s1)) s2 = (Inr st, s3)"
    using calm_conclude by (metis never_fails_def prod.collapse)
  have "outcome_agrees st (outcome_now s3)" by (rule ensuresD [OF conclude_agrees s2 c])
  then show ?thesis using c by (simp add: drive_arc_def Let_def s1_def s2_def)
qed

theorem status_and_outcome_agree_witness:
  "outcome_agrees (fst (drive_arc (sample_engine sample_workflow) (sample_runner sample_workflow)))
     (outcome_now (snd (drive_arc (sample_engine sample_workflow) (sample_runner sample_workflow))))"
  by (rule status_and_outcome_agree)
    (simp add: sample_runner_def new_runner_def outcome_now_def new_context_def Let_def split: prod.splits)

section \<open>Where the walk goes\<close>

lemma ensures_const: "ensures (\<lambda>_. C) m (\<lambda>_ _. C)"
  by (simp add: ensures_def)

lemma ensures_require:
  "(\<And>v. x = Some v \<Longrightarrow> ensures P (f v) Q) \<Longrightarrow> ensures P (ebind (erequire e x) f) Q"
  by (cases x) (auto simp: ensures_def erequire_def ebind_def efail_def eret_def)

lemma next_of_targets: "next_of t cur v = Inr nxt \<Longrightarrow> nxt = terminal_sentinel \<or> nxt \<in> set (next_targets t)"
  by (cases t) (force simp: next_of_def next_targets_def dest: obj_get_Some_mem split: option.splits)+

lemma next_node_from:
  "ensures (\<lambda>_. True) (next_node en cur)
     (\<lambda>nxt _. \<exists>nd v. node_of en cur = Some nd \<and> next_of (nd_next nd) cur v = Inr nxt)"
  unfolding next_node_def
  by (rule ensures_require) (auto simp: ensures_def ebind_eget elift_def)

lemma loop_step_from:
  assumes "loop_step en i cur s = (Inr nxt, s')"
  shows "\<exists>nd v. node_of en cur = Some nd \<and> next_of (nd_next nd) cur v = Inr nxt"
proof -
  have "ensures (\<lambda>_. True) (loop_step en i cur)
      (\<lambda>nxt _. \<exists>nd v. node_of en cur = Some nd \<and> next_of (nd_next nd) cur v = Inr nxt)"
    unfolding loop_step_def
    by (intro ensures_last ensures_bind [OF next_node_from]
        ensures_seq [OF ensures_const] ensures_ret) assumption
  from ensuresD [OF this _ assms] show ?thesis by simp
qed

lemma compiled_next_declared:
  assumes "workflow_ok (en_spec en)" "node_of en cur = Some nd" "next_of (nd_next nd) cur v = Inr nxt"
  shows "nxt = terminal_sentinel \<or> declared (en_spec en) nxt"
proof -
  have "(cur, nd) \<in> set (wf_nodes (en_spec en))"
    using assms(2) by (simp add: node_of_def obj_get_Some_mem)
  then have "list_all (declared (en_spec en)) (node_pushes nd)"
    using assms(1) by (fastforce simp: workflow_ok_def node_ok_def)
  moreover have "set (next_targets (nd_next nd)) \<subseteq> set (node_pushes nd)" by (auto simp: node_pushes_def)
  ultimately show ?thesis using next_of_targets [OF assms(3)] by (auto simp: list_all_iff)
qed

text \<open>What can stop the choice of the next node: a branch without a default whose cases lack the verdict.\<close>

definition open_branch :: "workflow node_spec \<Rightarrow> string \<Rightarrow> engine_error \<Rightarrow> bool" where
  "open_branch nd cur e =
     (case nd_next nd of
        Branch _ cases None \<Rightarrow>
          e = BranchNoVerdict cur \<or> (\<exists>v. obj_get cases v = None \<and> e = BranchNoCase cur v)
      | _ \<Rightarrow> False)"

lemma next_of_error: "next_of (nd_next nd) cur v = Inl e \<Longrightarrow> open_branch nd cur e"
  by (auto simp: next_of_def open_branch_def split: node_transition.splits option.splits)

text \<open>Property C7. A walk over a workflow that compiles only ever stands on a declared node or at the end, and choosing
  the node after a declared one fails in no other way than at a branch that has neither a case for
  the verdict nor a default.\<close>

theorem walk_stays_declared:
  assumes "compile_workflow (en_spec en) = Inr ()"
    and "(arc_step en)\<^sup>*\<^sup>* (0, wf_start (en_spec en), s) (n, cur, s')"
    and "cur \<noteq> terminal_sentinel"
  shows "declared (en_spec en) cur \<and>
    (case fst (next_node en cur s') of
       Inr nxt \<Rightarrow> nxt = terminal_sentinel \<or> declared (en_spec en) nxt
     | Inl e \<Rightarrow> (\<exists>nd. node_of en cur = Some nd \<and> open_branch nd cur e))"
proof -
  have w: "workflow_ok (en_spec en)" using assms(1) by (rule compile_ok_top)
  have "fst (snd c) = terminal_sentinel \<or> declared (en_spec en) (fst (snd c))"
    if "(arc_step en)\<^sup>*\<^sup>* (0, wf_start (en_spec en), s) c" for c
    using that
  proof (induction rule: rtranclp_induct)
    case base
    then show ?case using w by (simp add: workflow_ok_def)
  next
    case (step c c')
    from step.hyps(2) show ?case
      by (cases rule: arc_step.cases) (auto dest!: loop_step_from compiled_next_declared [OF w])
  qed
  from this [OF assms(2)] assms(3) have d: "declared (en_spec en) cur" by simp
  then obtain nd where nd: "node_of en cur = Some nd"
    by (auto simp: declared_def obj_has_def node_of_def)
  have "fst (next_node en cur s') = next_of (nd_next nd) cur (rn_last_verdict s')"
    by (simp add: next_node_def nd erequire_def ebind_def eret_def eget_def elift_def)
  then show ?thesis
    using d nd compiled_next_declared [OF w nd] next_of_error [of nd cur] by (auto split: sum.splits)
qed

text \<open>One step of the loop of two routing nodes.\<close>

lemma node_of_sample [simp]: "node_of (sample_engine w) n = obj_get (wf_nodes w) n"
  by (simp add: node_of_def sample_engine_def)

theorem walk_stays_declared_witness:
  "declared sample_workflow ''a'' \<and> fst (next_node (sample_engine sample_workflow) ''a'' (sample_runner sample_workflow)) = Inr ''b''"
proof -
  have e: "en_spec (sample_engine sample_workflow) = sample_workflow" by (simp add: sample_engine_def)
  have s: "wf_start sample_workflow = ''a''" by (simp add: sample_workflow_def)
  have "(arc_step (sample_engine sample_workflow))\<^sup>*\<^sup>* (0, wf_start (en_spec (sample_engine sample_workflow)),
      sample_runner sample_workflow) (0, ''a'', sample_runner sample_workflow)"
    by (simp add: e s)
  then have "declared (en_spec (sample_engine sample_workflow)) ''a''"
    by (intro conjunct1 [OF walk_stays_declared]) (simp_all add: e sample_compile_ok terminal_sentinel_def)
  then have d: "declared sample_workflow ''a''" by (simp only: e)
  have "obj_get (wf_nodes sample_workflow) ''a'' = Some (blank_node (Goto ''b''))"
    by (simp add: sample_workflow_def)
  with d show ?thesis
    by (simp add: next_node_def erequire_def ebind_def eret_def eget_def elift_def next_of_def blank_node_def)
qed

section \<open>Retry ceilings\<close>

definition within_ceilings :: "'s engine \<Rightarrow> u32 smap \<Rightarrow> bool" where
  "within_ceilings en counts =
     (\<forall>n nd limit c. node_of en n = Some nd \<longrightarrow> nd_retry nd = Some limit \<longrightarrow>
        obj_get counts n = Some c \<longrightarrow> c \<le> limit)"

lemma ensures_when: "ensures P m (\<lambda>_. Q) \<Longrightarrow> (\<And>s. P s \<Longrightarrow> Q s) \<Longrightarrow> ensures P (ewhen b m) (\<lambda>_. Q)"
  by (simp add: ensures_def ewhen_def eret_def)

lemma word_one_le: "(x :: u32) \<noteq> 0 \<Longrightarrow> 1 \<le> x"
  by (simp add: word_le_nat_alt unat_gt_0 Suc_le_eq)

lemma count_and_check:
  fixes en :: "'s engine" and rest :: "u32 \<Rightarrow> ('s, 'a) eng"
  assumes "node_of en n = Some nd" "\<And>v. keeps (\<lambda>s. within_ceilings en (rn_visit_counts s)) (rest v)"
  shows "ensures (\<lambda>s. within_ceilings en (rn_visit_counts s))
    (ebind (count_visit n) (\<lambda>v. eseq (check_retry n nd v) (rest v)))
    (\<lambda>_ s. within_ceilings en (rn_visit_counts s))"
proof (unfold ensures_def, intro allI impI)
  fix s s' :: "'s runner" and a
  assume w: "within_ceilings en (rn_visit_counts s)"
  assume run: "ebind (count_visit n) (\<lambda>v. eseq (check_retry n nd v) (rest v)) s = (Inr a, s')"
  let ?v = "(case obj_get (rn_visit_counts s) n of Some c \<Rightarrow> c | None \<Rightarrow> 0) + 1"
  let ?s1 = "s\<lparr>rn_visit_counts := obj_insert (rn_visit_counts s) n ?v\<rparr>"
  from run have chk: "\<forall>limit. nd_retry nd = Some limit \<longrightarrow> ?v \<le> limit" and rest: "rest ?v ?s1 = (Inr a, s')"
    by (auto simp: count_visit_def check_retry_def eng_defs not_less word_one_le
        split: option.splits if_splits)
  have "within_ceilings en (rn_visit_counts ?s1)"
    using w chk assms(1) by (auto simp: within_ceilings_def obj_get_insert)
  with assms(2) [of ?v] rest show "within_ceilings en (rn_visit_counts s')"
    by (metis keepsD snd_conv)
qed

lemma ensures_if: "(b \<Longrightarrow> ensures P m Q) \<Longrightarrow> (\<not> b \<Longrightarrow> ensures P n Q) \<Longrightarrow> ensures P (if b then m else n) Q"
  by simp

lemma ensures_option:
  "(z = None \<Longrightarrow> ensures P m Q) \<Longrightarrow> (\<And>x. z = Some x \<Longrightarrow> ensures P (f x) Q) \<Longrightarrow>
     ensures P (case z of None \<Rightarrow> m | Some x \<Rightarrow> f x) Q"
  by (cases z) simp_all

lemma atom_activity_within:
  assumes "node_of en n = Some nd"
  shows "ensures (\<lambda>s. within_ceilings en (rn_visit_counts s)) (run_atom_activity en n nd)
    (\<lambda>_ s. within_ceilings en (rn_visit_counts s))"
  unfolding run_atom_activity_def
  by (intro ensures_if ensures_keeps [OF keeps_fail] ensures_seq [OF ensures_keeps [OF visits_kept.keep_late]]
      count_and_check [OF assms] keeps_intro)

lemma actor_activity_within:
  assumes "node_of en n = Some nd"
  shows "ensures (\<lambda>s. within_ceilings en (rn_visit_counts s)) (run_actor_activity en n nd)
    (\<lambda>_ s. within_ceilings en (rn_visit_counts s))"
  unfolding run_actor_activity_def
  by (intro ensures_require ensures_if ensures_keeps [OF visits_kept.keep_dispatch]
      ensures_seq [OF ensures_keeps [OF visits_kept.keep_late]] count_and_check [OF assms] keeps_intro)

lemma hook_activity_keeps:
  "keeps (\<lambda>s. within_ceilings en (rn_visit_counts s)) (run_hook_only_activity en n nd)"
  unfolding run_hook_only_activity_def by (intro keeps_intro)

lemma body_within:
  assumes "node_of en n = Some nd"
  shows "ensures (\<lambda>s. within_ceilings en (rn_visit_counts s)) (node_body en n nd)
    (\<lambda>_ s. within_ceilings en (rn_visit_counts s))"
  unfolding node_body_def
  by (intro ensures_if ensures_option atom_activity_within [OF assms] actor_activity_within [OF assms]
      ensures_keeps [OF hook_activity_keeps] ensures_keeps [OF keeps_seq] keeps_seq
      visits_kept.keep_fanout visits_kept.keep_leave visits_kept.keep_wait visits_kept.keep_sleep
      visits_kept.keep_subworkflow visits_kept.keep_ensure)

lemma node_within:
  "ensures (\<lambda>s. within_ceilings en (rn_visit_counts s)) (run_node en n)
    (\<lambda>_ s. within_ceilings en (rn_visit_counts s))"
  unfolding run_node_def run_activity_node_def Let_def
  by (intro ensures_require ensures_seq [OF ensures_keeps [OF visits_kept.keep_ensure]]
      ensures_seq [OF ensures_keeps [OF keeps_when]] keeps_intro body_within) assumption+

lemma loop_step_within:
  "ensures (\<lambda>s. within_ceilings en (rn_visit_counts s)) (loop_step en i cur)
    (\<lambda>_ s. within_ceilings en (rn_visit_counts s))"
  unfolding loop_step_def
  by (intro ensures_seq [OF node_within] ensures_keeps keeps_intro)



section \<open>Forks that start nothing\<close>

text \<open>The nodes whose body is not an actor, an atom or a prompt.\<close>

definition plain_body :: "workflow node_spec \<Rightarrow> bool" where
  "plain_body nd \<longleftrightarrow>
     nd_foreach nd \<noteq> None \<or> nd_matrix nd \<noteq> None \<or> nd_wait nd \<noteq> None \<or> nd_sleep_ms nd \<noteq> None \<or>
     nd_subworkflow nd \<noteq> None \<or> nd_subworkflow_ref nd \<noteq> None"

lemma plain_body_starts_nothing:
  "plain_body nd \<Longrightarrow> keeps (\<lambda>s. fst ` set (rn_in_flight s) \<subseteq> K) (node_body en n nd)"
  unfolding node_body_def plain_body_def
  by (auto intro!: keeps_seq nothing_started.keep_fanout nothing_started.keep_leave
      nothing_started.keep_wait nothing_started.keep_sleep nothing_started.keep_subworkflow
      nothing_started.keep_ensure split: option.split)

lemma keeps_require_bind:
  "(\<And>v. x = Some v \<Longrightarrow> keeps P (f v)) \<Longrightarrow> keeps P (ebind (erequire e x) f)"
  by (cases x) (auto simp: keeps_def erequire_def ebind_def efail_def eret_def)

text \<open>A visit of a wait, sleep, subworkflow, foreach or matrix node starts nothing in the background,
  whatever its transition: the branches of a fork from such a node are never dispatched, although
  the compiler accepts it.\<close>

theorem fork_from_plain_body_starts_nothing:
  assumes "node_of en n = Some nd" "plain_body nd"
  shows "fst ` set (rn_in_flight (snd (run_node en n s))) \<subseteq> fst ` set (rn_in_flight s)"
proof -
  have body: "keeps (\<lambda>s. fst ` set (rn_in_flight s) \<subseteq> K) (node_body en n nd)" for K
    using assms(2) by (rule plain_body_starts_nothing)
  have "keeps (\<lambda>s. fst ` set (rn_in_flight s) \<subseteq> K) (run_node en n)" for K
    unfolding run_node_def run_activity_node_def Let_def assms(1)
    by (intro keeps_require_bind keeps_seq keeps_when keeps_each keeps_bind keeps_ret
        nothing_started.keep_ensure nothing_started.keep_hooks nothing_started.keep_join
        nothing_started.keep_log) (simp add: body)
  then show ?thesis by (rule keepsD) simp
qed

definition sleepy_fork :: workflow where
  "sleepy_fork =
     Workflow ''w'' 1 [] []
       [(''a'', NodeSpec [] [] None None None None Sync None None None None [] [] [] [] [] None (Some 5) []
                 None None None (Fork [''b''] ''b'')),
        (''b'', blank_node Terminal)]
       ''a'' None None [] []"

lemma sleepy_compiles: "compile_workflow sleepy_fork = Inr ()"
proof -
  let ?a = "NodeSpec [] [] None None None None Sync None None None None [] [] [] [] [] None (Some 5) []
                 None None None (Fork [''b''] ''b'') :: workflow node_spec"
  have n: "validate_node sleepy_fork m (blank_node t) rs = validate_transition m t sleepy_fork" for m t rs
    by (simp add: validate_node_def blank_node_def validate_dynamic_fanout_def check_opt_def ok_def guard_err_def)
  have a: "validate_node sleepy_fork m ?a rs = validate_transition m (Fork [''b''] ''b'') sleepy_fork" for m rs
    by (simp add: validate_node_def validate_dynamic_fanout_def check_opt_def ok_def guard_err_def)
  have "reachable_nodes sleepy_fork = {''a'', ''b''}"
    by (simp add: reachable_nodes_def reach_loop.simps sleepy_fork_def pushes_def node_pushes_def next_targets_def
        blank_node_def insert_commute)
  moreover have "wf_nodes sleepy_fork = [(''a'', ?a), (''b'', blank_node Terminal)]"
    "wf_start sleepy_fork = ''a''" "wf_atom_bindings sleepy_fork = []"
    by (simp_all add: sleepy_fork_def)
  moreover have "nd_next (blank_node t) = t" for t by (simp add: blank_node_def)
  ultimately show ?thesis
    by (simp add: compile_workflow.simps [of sleepy_fork] n a validate_graph_def validate_transition_def
        Let_def obj_has_def obj_keys_def check_opt_def guard_err_def ok_def)
qed

theorem fork_from_plain_body_starts_nothing_witness:
  "compile_workflow sleepy_fork = Inr () \<and>
   rn_in_flight (snd (run_node (sample_engine sleepy_fork) ''a'' (sample_runner sleepy_fork))) = []"
proof -
  have "node_of (sample_engine sleepy_fork) ''a'' = Some (NodeSpec [] [] None None None None Sync None None None
      None [] [] [] [] [] None (Some 5) [] None None None (Fork [''b''] ''b''))"
    by (simp add: sleepy_fork_def)
  from fork_from_plain_body_starts_nothing [OF this, of "sample_runner sleepy_fork"]
  have "fst ` set (rn_in_flight (snd (run_node (sample_engine sleepy_fork) ''a'' (sample_runner sleepy_fork)))) \<subseteq>
      fst ` set (rn_in_flight (sample_runner sleepy_fork))"
    by (simp add: plain_body_def)
  then show ?thesis
    by (simp add: sleepy_compiles sample_runner_def new_runner_def Let_def split: prod.splits)
qed

section \<open>What the policy sees\<close>

text \<open>The entity the policy packet of an arc is applied to has the engine's figures only: the context of the
  arc, its variables, outputs, results, signals and identity, has no influence on it.\<close>

theorem policy_ignores_context:
  "policy_entity en step a b (s\<lparr>rn_ctx := ctx\<rparr>) = policy_entity en step a b s \<and>
   map (jget (policy_entity en step a b s)) [''vars'', ''outputs'', ''actor_results'', ''meta'', ''last_signal''] =
     [None, None, None, None, None]"
  by (simp add: policy_entity_def completed_node_names_def in_flight_names_def Let_def)

section \<open>Cancelling inside an embedded workflow\<close>

definition fails_with :: "(engine_error \<Rightarrow> bool) \<Rightarrow> ('s, 'a) eng \<Rightarrow> bool" where
  "fails_with Q m = (\<forall>s. \<exists>e. fst (m s) = Inl e \<and> Q e)"

lemma fails_fail: "Q e \<Longrightarrow> fails_with Q (efail e)"
  by (simp add: fails_with_def efail_def)

lemma fails_bind:
  assumes "never_fails m" "\<And>a. fails_with Q (f a)"
  shows "fails_with Q (ebind m f)"
  unfolding fails_with_def
proof
  fix s
  obtain a where "fst (m s) = Inr a" using assms(1) by (auto simp: never_fails_def)
  with assms(2) [of a] show "\<exists>e. fst (ebind m f s) = Inl e \<and> Q e"
    by (cases "m s") (auto simp: ebind_def fails_with_def)
qed

lemma fails_seq: "never_fails m \<Longrightarrow> fails_with Q n \<Longrightarrow> fails_with Q (eseq m n)"
  by (simp add: eseq_def fails_bind)

lemma fails_require: "Q e \<Longrightarrow> (\<And>v. fails_with Q (f v)) \<Longrightarrow> fails_with Q (ebind (erequire e x) f)"
  by (cases x) (auto simp: fails_with_def erequire_def ebind_def efail_def eret_def)

lemma fails_lift: "(\<And>e. r = Inl e \<Longrightarrow> Q e) \<Longrightarrow> (\<And>v. fails_with Q (f v)) \<Longrightarrow> fails_with Q (ebind (elift r) f)"
  by (cases r) (auto simp: fails_with_def elift_def ebind_def)

lemma fails_get: "(\<And>a. \<exists>s. a = g s \<Longrightarrow> fails_with Q (f a)) \<Longrightarrow> fails_with Q (ebind (eget g) f)"
  by (auto simp: fails_with_def ebind_eget)

lemma fails_if: "(b \<Longrightarrow> fails_with Q m) \<Longrightarrow> (\<not> b \<Longrightarrow> fails_with Q n) \<Longrightarrow> fails_with Q (if b then m else n)"
  by simp

lemma fails_option:
  "fails_with Q m \<Longrightarrow> (\<And>x. fails_with Q (f x)) \<Longrightarrow> fails_with Q (case z of None \<Rightarrow> m | Some x \<Rightarrow> f x)"
  by (cases z) simp_all

lemma fails_after:
  "m s = (Inr (), s1) \<Longrightarrow> fails_with Q rest \<Longrightarrow> \<exists>e. fst (eseq m rest s) = Inl e \<and> Q e"
  by (simp add: eseq_def ebind_def fails_with_def)

lemma calm_fold [calm_intro]: "(\<And>b x. never_fails (f b x)) \<Longrightarrow> never_fails (efold f b xs)"
  by (induction xs arbitrary: b) (auto intro: calm_intro)

lemma calm_import [calm_intro]: "never_fails (import_vars en a b n is rs)"
  unfolding import_vars_def by (intro calm_intro)

lemma settle_error:
  assumes "e \<noteq> ArcCancelled"
  shows "fst (settle_status en (Inl e) s) = Inr (ErrorRun e)"
proof -
  have "never_fails (settle_status en (Inl e))"
    unfolding settle_status_def by (intro calm_intro)
  then obtain st s' where r: "settle_status en (Inl e) s = (Inr st, s')"
    by (metis never_fails_def prod.collapse)
  have "ensures (\<lambda>_. True) (settle_status en (Inl e)) (\<lambda>st _. st = ErrorRun e)"
    using assms by (simp add: settle_status_def ensures_last ensures_ret)
  from ensuresD [OF this _ r] r show ?thesis by simp
qed

text \<open>A cancellation that reaches an arc inside an embedded workflow is not seen as one: the node fails with
  an error other than cancellation, so the walk ends as an error and not as a cancelled arc.\<close>

theorem cancelled_child_is_an_error:
  assumes "\<not> fst (se_cancelled (en_server en) (arc_id_of s) (rn_world s))"
    and "\<And>c w. rr_status (fst (en_child en c w)) = CancelledArc"
  shows "\<exists>e. fst (run_subworkflow_node en n s) = Inl e \<and> e \<noteq> ArcCancelled \<and>
    fst (settle_status en (Inl e) (snd (run_subworkflow_node en n s))) = Inr (ErrorRun e)"
proof -
  let ?Q = "\<lambda>e. e \<noteq> ArcCancelled"
  have child: "fails_with ?Q (ebind (ecall (en_child en c))
      (\<lambda>res. if rr_status res \<noteq> Completed then efail (SubNotCompleted (wf_name w) (rr_status res)) else k res))"
    for c w and k :: "_ \<Rightarrow> ('a, unit) eng"
    using assms(2) by (simp add: fails_with_def ebind_def ecall_def Let_def efail_def)
  obtain s1 where s1: "ensure_not_cancelled en n s = (Inr (), s1)"
    using assms(1)
    by (auto simp: ensure_not_cancelled_def poll_cancelled_def eng_defs Let_def)
  have "\<exists>e. fst (run_subworkflow_node en n s) = Inl e \<and> e \<noteq> ArcCancelled"
    unfolding run_subworkflow_node_def Let_def
  proof (rule fails_after [where m = "ensure_not_cancelled en n" and s = s, OF s1],
      intro fails_require fails_get fails_lift fails_if fails_seq fails_bind [OF calm_import] fails_option
        fails_fail calm_notes child)
    show "e \<noteq> ArcCancelled" if "\<exists>s. a = sub_spec_of en n v s" "a = Inl e" for v a e
      using that by (auto simp: sub_spec_of_def split: option.splits)
    show "e \<noteq> ArcCancelled" if "map_err (SubCompileFailed n) (compile_workflow va) = Inl e" for va e
      using that by (cases "compile_workflow va") (auto simp: map_err_def simp del: compile_workflow.simps)
  qed simp_all
  then show ?thesis using settle_error by metis
qed

definition embedding :: workflow where
  "embedding =
     Workflow ''outer'' 1 [] []
       [(''a'', NodeSpec [] [] None None None None Sync None None (Some sample_workflow) None [] [] [] [] [] None
                 None [] None None None Terminal)]
       ''a'' None None [] []"

theorem cancelled_child_is_an_error_witness:
  "\<exists>e. fst (run_subworkflow_node (sample_engine embedding) ''a'' (sample_runner embedding)) = Inl e \<and>
     e \<noteq> ArcCancelled"
proof -
  have "\<not> fst (se_cancelled (en_server (sample_engine embedding)) (arc_id_of (sample_runner embedding))
      (rn_world (sample_runner embedding)))"
    "\<And>c w. rr_status (fst (en_child (sample_engine embedding) c w)) = CancelledArc"
    by (simp_all add: sample_engine_def sample_server_def failed_result_def)
  from cancelled_child_is_an_error [OF this] show ?thesis by blast
qed

section \<open>Arcs that are refused\<close>

definition refused :: "'s engine \<Rightarrow> jmap \<Rightarrow> 's runner \<Rightarrow> bool" where
  "refused en vars s =
     (let (r, ctx) = seed_vars vars (wf_vars_schema (en_spec en)) (rn_ctx s)
      in r \<noteq> ok \<or> (\<exists>sc. wf_vars_schema (en_spec en) = Some sc \<and> missing_required_vars sc ctx \<noteq> []))"

definition release_seen :: "effect list \<Rightarrow> bool" where
  "release_seen = list_ex (\<lambda>e. case e of ReleaseToken _ \<Rightarrow> True | _ \<Rightarrow> False)"

text \<open>An arc whose initial variables are rejected or incomplete ends before it starts: it reports why, and
  does nothing at all to the server, so the cancellation token registered for it stays registered.\<close>

theorem refused_arc_keeps_token:
  assumes "refused en vars s"
  shows "snd (start_arc en vars s) = rn_world s \<and>
    ((\<exists>e. rr_status (fst (start_arc en vars s)) = ErrorSeed e) \<or>
     (\<exists>ks. ks \<noteq> [] \<and> rr_status (fst (start_arc en vars s)) = ErrorMissing ks))"
  using assms
  by (auto simp: refused_def start_arc_def Let_def ok_def failed_result_def split: prod.splits sum.splits option.splits)

definition strict_workflow :: workflow where
  "strict_workflow =
     Workflow ''w'' 1 [] [] [(''a'', blank_node Terminal)] ''a'' None
       (Some [(''n'', \<lparr>ve_kind = KInt, ve_required = True\<rparr>)]) [] []"

definition strict_call :: child_call where
  "strict_call =
     \<lparr>cc_spec = strict_workflow, cc_project_dir = None, cc_depth = 0, cc_seed_outputs = [],
      cc_initial_vars = [], cc_parent_arc = None, cc_token = None, cc_max_steps = None\<rparr>"

theorem refused_arc_keeps_token_witness:
  "snd (run_workflow_at_depth (sample_engine strict_workflow) strict_call []) = [RegisterToken ''arc-1'' None]"
proof -
  let ?en = "engine_for (sample_engine strict_workflow) (run_nested max_workflow_depth (sample_engine strict_workflow))
      strict_call"
  let ?s = "seed_runner [] [] None (new_runner ?en None None None [])"
  have v: "cx_vars (rn_ctx ?s) = []" by simp
  have sc: "wf_vars_schema (en_spec ?en) = Some [(''n'', \<lparr>ve_kind = KInt, ve_required = True\<rparr>)]"
    by (simp add: engine_for_def strict_call_def strict_workflow_def)
  have "refused ?en [] ?s"
    unfolding refused_def sc using v by (simp add: missing_required_vars_def)
  from refused_arc_keeps_token [OF this] have "snd (start_arc ?en [] ?s) = rn_world ?s" by simp
  also have "rn_world ?s = [RegisterToken ''arc-1'' None]"
    by (simp add: seed_runner_def new_runner_def Let_def engine_for_def sample_engine_def sample_server_def)
  finally show ?thesis
    by (simp add: run_workflow_at_depth_def run_workflow_body_def strict_call_def max_workflow_depth_def
        extract_actor_session_seeds_def Let_def eval_nat_numeral)
qed

section \<open>The two forms of the outputs\<close>

lemma seed_outputs_get:
  "map_wf outs \<Longrightarrow>
     obj_get (cx_outputs (seed_outputs outs ctx)) k =
       (case obj_get outs k of Some t \<Rightarrow> Some (JStr t) | None \<Rightarrow> obj_get (cx_outputs ctx) k)"
proof (induction outs arbitrary: ctx)
  case Nil
  then show ?case by (simp add: seed_outputs_def)
next
  case (Cons kv outs)
  obtain a t where kv: "kv = (a, t)" by force
  from Cons.prems have wf: "map_wf outs" and a: "obj_get outs a = None"
    by (auto simp: map_wf_def kv obj_get_None)
  have "seed_outputs (kv # outs) ctx = seed_outputs outs (set_output a (JStr t) ctx)"
    by (simp add: seed_outputs_def kv)
  then show ?case using Cons.IH [OF wf, of "set_output a (JStr t) ctx"] a
    by (auto simp: kv set_output_def obj_get_insert split: option.splits)
qed

text \<open>The outputs an arc returns as text are, at every key, the outputs its templates and gates read: the two
  channels agree at the end of every arc, whichever outputs it was seeded with.\<close>

theorem output_channels_agree:
  assumes "map_wf outs"
  shows "mirrored (snd (drive_arc en (seed_runner sessions outs parent (new_runner en dir token arc w))))"
proof (rule mirror.keep_drive)
  have "cx_outputs (rn_ctx (new_runner en dir token arc w)) = []"
    by (simp add: new_runner_def new_context_def Let_def split: prod.splits)
  then show "mirrored (seed_runner sessions outs parent (new_runner en dir token arc w))"
    using seed_outputs_get [OF assms, of "rn_ctx (new_runner en dir token arc w)"]
    by (auto simp: mirrored_def seed_runner_def Let_def split: option.splits)
qed

theorem output_channels_agree_witness:
  "mirrored (snd (drive_arc (sample_engine sample_workflow)
     (seed_runner [] [(''plan'', ''x''), (''code'', ''y'')] (Some ''arc-0'')
       (new_runner (sample_engine sample_workflow) None None None []))))"
  by (rule output_channels_agree) (simp add: map_wf_def)

section \<open>Waiting for a provider\<close>

text \<open>Property C32. A wait for a provider event that has a deadline always comes back, with any transcripts and any
  failures of the reads: the polls that fit between now and the deadline are enough.\<close>

theorem provider_wait_returns:
  assumes "clock_runs (en_server en) time" "secs + 20 \<le> 20 * en_polls en"
  shows "fst (run_provider_event_wait_node en node_id pe (Some secs) s) \<noteq> Inl (ProviderStillWaiting m)"
proof -
  obtain p where p: "en_polls en = Suc p" using assms(2) by (cases "en_polls en") auto
  have "fst (provider_loop en node_id pe task
      (Some (fst (ts_clock (transcripts_of en) (rn_world s')) + 1000 * secs)) (en_polls en) 0
      (s'\<lparr>rn_world := snd (ts_clock (transcripts_of en) (rn_world s'))\<rparr>)) \<noteq> Inl (ProviderStillWaiting m)"
    for s' task
    unfolding p by (rule loop_not_waiting [OF assms(1)])
      (use assms(2) p in \<open>simp add: clock_runsD [OF assms(1)] retry_default_def\<close>)
  then show ?thesis
    by (auto simp: run_provider_event_wait_node_def deadline_of_def ebind_def eget_def erequire_def
        efail_def eret_def ecall_def Let_def split: option.splits)
qed

text \<open>Time is the length of the list of effects, a pause of \<open>d\<close> adds \<open>d\<close> of them, and the transcript has
  never anything new.\<close>

definition ticking_server :: "effect list server" where
  "ticking_server =
     sample_server\<lparr>se_transcripts := sample_transcripts\<lparr>ts_has_task := \<lambda>_ _. True,
       ts_clock := \<lambda>w. (length w, w), ts_pause := \<lambda>d w. w @ replicate d (ReleaseToken [])\<rparr>\<rparr>"

lemma ticking_clock: "clock_runs ticking_server length"
  by (simp add: clock_runs_def ticking_server_def sample_server_def sample_transcripts_def)

theorem provider_wait_returns_witness:
  "fst (run_provider_event_wait_node ((sample_engine sample_workflow)\<lparr>en_server := ticking_server, en_polls := 3\<rparr>)
     ''n'' \<lparr>pw_actor = ''a'', pw_kind = None, pw_tool = None, pw_contains = Some ''done''\<rparr> (Some 40)
     ((sample_runner sample_workflow)\<lparr>rn_actor_tasks := [(''a'', ''t'')]\<rparr>)) \<noteq> Inl (ProviderStillWaiting ''n'')"
  by (rule provider_wait_returns [where time = length]) (simp_all add: ticking_clock)

end
