(* ===== verification/Workflow_Fanout_Guarantees.thy ===== *)
theory Workflow_Fanout_Guarantees
  imports Workflow_Guarantees
begin

text \<open>
  Dynamic fanout: the items of a matrix, the invariant of the dispatch loop, and what a fanout node
  that succeeds has collected.
\<close>

section \<open>Matrices\<close>

definition axis_product :: "(string \<times> json list) list \<Rightarrow> nat \<Rightarrow> nat" where
  "axis_product axes k = prod_list (map (\<lambda>a. length (snd a)) (take k axes))"

definition axis_items :: "jmap \<Rightarrow> (string \<times> json list) list \<Rightarrow> jmap list" where
  "axis_items base axes =
     map (\<lambda>vs. om.ins_all base (zip (map fst axes) vs)) (product_lists (map snd axes))"

lemma axis_items_Cons:
  "axis_items base (axis # axes) =
     concat (map (\<lambda>v. axis_items (obj_insert base (fst axis) v) axes) (snd axis))"
  by (simp add: axis_items_def om.ins_all_def map_concat comp_def)

lemma concat_map_concat: "concat (map f (concat (map g xs))) = concat (map (\<lambda>x. concat (map f (g x))) xs)"
  by (induction xs) simp_all

lemma expand_axes_product:
  "case expand_axes n items axes of
     Inr r \<Rightarrow> r = concat (map (\<lambda>base. axis_items base axes) items) \<and>
       (\<forall>k. length items \<le> max_foreach_items \<longrightarrow> length items * axis_product axes k \<le> max_foreach_items)
   | Inl e \<Rightarrow> \<exists>k. max_foreach_items < length items * axis_product axes k"
proof (induction axes arbitrary: items)
  case Nil
  have "axis_items base [] = [base]" for base by (simp add: axis_items_def om.ins_all_def)
  then show ?case by (simp add: axis_product_def)
next
  case (Cons axis axes)
  let ?p = "length items * length (snd axis)"
  have len: "length (expand_axis items axis) = ?p"
    by (simp add: expand_axis_def length_concat comp_def sum_list_triv)
  have shift: "length items * axis_product (axis # axes) (Suc k) = ?p * axis_product axes k" for k
    by (simp add: axis_product_def)
  show ?case
  proof (cases "max_foreach_items < ?p")
    case True
    have "max_foreach_items < length items * axis_product (axis # axes) 1"
      using True by (simp add: axis_product_def)
    with True show ?thesis by (auto simp: Let_def)
  next
    case False
    then have step: "expand_axes n items (axis # axes) = expand_axes n (expand_axis items axis) axes"
      by (simp add: Let_def max_foreach_items_def)
    have flat: "concat (map (\<lambda>base. axis_items base axes) (expand_axis items axis)) =
        concat (map (\<lambda>base. axis_items base (axis # axes)) items)"
      by (simp add: expand_axis_def concat_map_concat axis_items_Cons comp_def)
    have all: "length items * axis_product (axis # axes) k \<le> max_foreach_items"
      if "\<forall>k. ?p * axis_product axes k \<le> max_foreach_items" "length items \<le> max_foreach_items" for k
      proof (cases k)
      case (Suc j)
      show ?thesis using that(1) unfolding Suc shift by blast
    qed (simp add: that(2) axis_product_def)
    show ?thesis
    proof (cases "expand_axes n (expand_axis items axis) axes")
      case (Inl e)
      then obtain k where "max_foreach_items < ?p * axis_product axes k"
        using Cons.IH [of "expand_axis items axis"] by (auto simp: len)
      then have "max_foreach_items < length items * axis_product (axis # axes) (Suc k)" by (simp only: shift)
      then show ?thesis unfolding step Inl by auto
    next
      case (Inr r)
      then show ?thesis
        using Cons.IH [of "expand_axis items axis"] False all flat unfolding step by (auto simp: len)
    qed
  qed
qed

text \<open>The items of a matrix are the combinations of its axes' values, the last axis varying fastest, each an
  object with one entry per axis; there are at most 256 of them, and the expansion fails only when
  the axes read so far multiply to more.\<close>

theorem matrix_is_product:
  "case expand_matrix_items n axes of
     Inr items \<Rightarrow>
       items = map (\<lambda>vs. JObj (om.ins_all [] (zip (map fst axes) vs))) (product_lists (map snd axes)) \<and>
       length items \<le> max_foreach_items
   | Inl e \<Rightarrow> \<exists>k. max_foreach_items < axis_product axes k"
proof -
  have "length (product_lists (map snd axes)) = axis_product axes (length axes)"
    by (induction axes) (simp_all add: axis_product_def length_concat comp_def sum_list_triv)
  then show ?thesis
    using expand_axes_product [where items = "[[]]" and axes = axes and n = n]
    by (auto simp: expand_matrix_items_def rbind_def axis_items_def max_foreach_items_def split: sum.splits)
qed

section \<open>The fanout loop\<close>

definition result_for :: "child_plan \<Rightarrow> json \<Rightarrow> bool" where
  "result_for plan v \<longleftrightarrow>
     jget v ''index'' = Some (JNum (num_of_nat (cp_index plan))) \<and>
     jget v ''key'' = Some (JStr (cp_key plan)) \<and> jget v ''item'' = Some (cp_item plan)"

lemma result_for_outcome: "co_plan c = plan \<Longrightarrow> result_for plan (into_value c)"
  by (simp add: result_for_def into_value_def)

lemma result_for_skipped: "result_for plan (fanout_skipped_value plan)"
  by (simp add: result_for_def fanout_skipped_value_def)

lemma outcome_of_plan [simp]: "co_plan (outcome_of en rt plan res) = plan"
  by (simp add: outcome_of_def Let_def split: prod.splits)

text \<open>The state of the loop over \<open>plans\<close> with at most \<open>p\<close> children at a time.\<close>

definition fanout_inv :: "child_plan list \<Rightarrow> nat \<Rightarrow> fanout_state \<Rightarrow> bool" where
  "fanout_inv plans p f \<longleftrightarrow>
     length (fs_results f) = length plans \<and> fs_next f \<le> length plans \<and>
     distinct (fs_running f) \<and> set (fs_running f) \<subseteq> {..<fs_next f} \<and> length (fs_running f) \<le> p \<and>
     (\<forall>i<fs_next f. i \<in> set (fs_running f) \<or> fs_results f ! i \<noteq> None \<or> fs_failure f \<noteq> None) \<and>
     (\<forall>i<length plans. \<forall>v. fs_results f ! i = Some v \<longrightarrow> result_for (plans ! i) v) \<and>
     (fs_stop f \<longrightarrow> fs_failure f \<noteq> None)"

definition indexed :: "child_plan list \<Rightarrow> bool" where
  "indexed plans = (\<forall>i<length plans. cp_index (plans ! i) = i)"

definition joins_left :: "child_plan list \<Rightarrow> fanout_state \<Rightarrow> nat" where
  "joins_left plans f = length plans - fs_next f + length (fs_running f)"

lemma fanout_start_inv: "fanout_inv plans p (fanout_start (length plans))"
  by (simp add: fanout_inv_def fanout_start_def)

lemma start_inv:
  assumes "fanout_inv plans p f"
  shows "fanout_inv plans p (start_children (length plans) p f)"
    "joins_left plans (start_children (length plans) p f) = joins_left plans f"
    "\<not> fs_stop f \<Longrightarrow> length (fs_running (start_children (length plans) p f)) = p \<or>
       fs_next (start_children (length plans) p f) = length plans"
  using assms
  by (auto simp: fanout_inv_def start_children_def start_count_def joins_left_def Let_def less_diff_conv2
      not_less min_def intro: disjI1)

lemma running_at_mem: "fs_running f \<noteq> [] \<Longrightarrow> running_at i f \<in> set (fs_running f)"
  by (simp add: running_at_def)

lemma drop_left:
  assumes "i \<in> set (fs_running f)" "distinct (fs_running f)"
  shows "Suc (joins_left plans (drop_running i f)) = joins_left plans f"
proof -
  have "length (filter (\<lambda>j. j \<noteq> i) xs) + 1 = length xs" if "distinct xs" "i \<in> set xs" for xs
    using that by (induction xs) (auto simp: filter_all_length list_all_iff)
  from this [OF assms(2,1)] show ?thesis by (simp add: joins_left_def drop_running_def)
qed

lemma join_error_inv:
  assumes "fanout_inv plans p f"
  shows "fanout_inv plans p (join_error (drop_running i f))"
  using assms order_trans [OF length_filter_le]
  by (auto simp: fanout_inv_def join_error_def drop_running_def split: option.splits)

lemma settle_inv:
  assumes "fanout_inv plans p f" "indexed plans" "i \<in> set (fs_running f)" "co_plan c = plans ! i"
  shows "fanout_inv plans p (settle_child policy c (drop_running i f))"
proof -
  have i: "i < length plans" using assms(1,3) by (auto simp: fanout_inv_def)
  then have idx: "cp_index (co_plan c) = i" using assms(2,4) by (simp add: indexed_def)
  show ?thesis
    using assms(1) i idx order_trans [OF length_filter_le] result_for_outcome [OF assms(4)]
    by (auto simp: fanout_inv_def settle_child_def drop_running_def Let_def nth_list_update)
qed


text \<open>Two items, two at a time: both start, and either may finish first.\<close>

definition sample_plan :: "nat \<Rightarrow> child_plan" where
  "sample_plan i = \<lparr>cp_index = i, cp_key = show_nat i, cp_item = JNull, cp_initial_vars = []\<rparr>"


section \<open>What a fanout collects\<close>

lemma fanout_loop_ensures:
  assumes "indexed plans" "0 < p" "fanout_inv plans p f" "joins_left plans f \<le> fuel"
  shows "ensures (\<lambda>_. True) (fanout_loop en n g rt plans call p fuel f)
    (\<lambda>f' _. fanout_inv plans p f' \<and> fs_running f' = [] \<and> (fs_next f' = length plans \<or> fs_stop f'))"
  using assms(3,4)
proof (induction fuel arbitrary: f)
  case 0
  from 0(2) have "length plans - fs_next f = 0" "length (fs_running f) = 0"
    unfolding joins_left_def by arith+
  with 0(1) have "fs_running f = []" "fs_next f = length plans" by (auto simp: fanout_inv_def)
  with 0 show ?case by (auto intro!: ensures_ret)
next
  case (Suc fuel)
  let ?f1 = "start_children (length plans) p f"
  note st = start_inv [OF Suc.prems(1)]
  have idle: "fs_next ?f1 = length plans \<or> fs_stop ?f1" if "fs_running ?f1 = []"
    using st(3) that assms(2) by (auto simp: start_children_def Let_def)
  show ?case
  proof (cases "fs_next f < length plans \<or> fs_running f \<noteq> []")
    case False
    with Suc.prems(1) have "fs_running f = []" "fs_next f = length plans" by (auto simp: fanout_inv_def)
    with False Suc.prems(1) show ?thesis by (auto intro!: ensures_ret)
  next
    case True
    have next1: "ensures (\<lambda>_. True) (fanout_loop en n g rt plans call p fuel (join_error (drop_running i ?f1)))
        (\<lambda>f' _. fanout_inv plans p f' \<and> fs_running f' = [] \<and> (fs_next f' = length plans \<or> fs_stop f'))"
      if "i \<in> set (fs_running ?f1)" for i
      using that st(1,2) Suc.prems(2) drop_left [OF that, of plans]
      by (intro Suc.IH join_error_inv) (auto simp: fanout_inv_def joins_left_def join_error_def)
    have next2: "ensures (\<lambda>_. True) (fanout_loop en n g rt plans call p fuel
          (settle_child pol (outcome_of en rt (plans ! i) res) (drop_running i ?f1)))
        (\<lambda>f' _. fanout_inv plans p f' \<and> fs_running f' = [] \<and> (fs_next f' = length plans \<or> fs_stop f'))"
      if "i \<in> set (fs_running ?f1)" for i pol res
      using that st(1,2) Suc.prems(2) drop_left [OF that, of plans] assms(1)
      by (intro Suc.IH settle_inv) (auto simp: fanout_inv_def joins_left_def settle_child_def Let_def)
    have nn: "\<not> \<not> (fs_next f < length plans \<or> fs_running f \<noteq> [])" using True by simp
    show ?thesis
      unfolding fanout_loop.simps Let_def if_not_P [OF nn]
      by (intro ensures_bind [OF ensures_const [of True, simplified]] ensures_if ensures_last ensures_ret next1 next2
          running_at_mem)
        (use idle st(1) in \<open>auto simp: ensures_def efail_def\<close>)
  qed
qed

lemma ensures_get_at:
  "ensures (\<lambda>s. s = s0) (f (g s0)) Q \<Longrightarrow> ensures (\<lambda>s. s = s0) (ebind (eget g) f) Q"
  by (simp add: ensures_def ebind_eget)

lemma ensures_lift:
  "(\<And>v. r = Inr v \<Longrightarrow> ensures P (f v) Q) \<Longrightarrow> ensures P (ebind (elift r) f) Q"
  by (cases r) (auto simp: ensures_def ebind_def elift_def)

lemma ensures_pure: "(C \<Longrightarrow> ensures (\<lambda>_. True) m Q) \<Longrightarrow> ensures (\<lambda>_. C) m Q"
  by (simp add: ensures_def)

lemma ensures_anywhere: "ensures (\<lambda>_. True) m Q \<Longrightarrow> ensures P m Q"
  by (simp add: ensures_def)

lemma ensures_skip: "(\<And>a. ensures (\<lambda>_. True) (f a) Q) \<Longrightarrow> ensures (\<lambda>_. True) (ebind m f) Q"
  by (rule ensures_bind [OF ensures_const])

lemma build_plans_ensures:
  "ensures (\<lambda>_. True) (build_plans en n rt keys i items)
     (\<lambda>plans _. map cp_item plans = items \<and> distinct (map cp_key plans) \<and>
        set (map cp_key plans) \<inter> keys = {} \<and> (\<forall>j<length plans. cp_index (plans ! j) = i + j))"
proof (induction items arbitrary: keys i)
  case Nil
  show ?case by (simp add: ensures_ret)
next
  case (Cons item items)
  show ?case unfolding build_plans.simps
    by (intro ensures_skip ensures_if ensures_bind [OF Cons.IH] ensures_ret)
      (auto simp: ensures_def efail_def nth_Cons split: nat.split)
qed

text \<open>A loop that ends without a failure has a result for every plan.\<close>

lemma fill_skipped_all:
  assumes "fanout_inv plans p f" "fs_running f = []" "fs_next f = length plans \<or> fs_stop f" "fs_failure f = None"
  shows "list_all2 result_for plans (concat (map (\<lambda>x. case x of Some v \<Rightarrow> [v] | None \<Rightarrow> []) (fill_skipped plans f)))"
proof -
  have stop: "\<not> fs_stop f" using assms(1,4) by (auto simp: fanout_inv_def)
  have some: "\<exists>v. fs_results f ! i = Some v \<and> result_for (plans ! i) v" if "i < length plans" for i
    using assms stop that by (auto simp: fanout_inv_def)
  have len: "length (fs_results f) = length plans" using assms(1) by (simp add: fanout_inv_def)
  have "list_all2 (\<lambda>plan x. \<exists>v. x = Some v \<and> result_for plan v) plans (fs_results f)"
    using some len by (simp add: list_all2_conv_all_nth)
  then have "list_all2 result_for plans (concat (map (\<lambda>x. case x of Some v \<Rightarrow> [v] | None \<Rightarrow> []) (fs_results f)))"
    by (induction rule: list_all2_induct) auto
  then show ?thesis using stop by (simp add: fill_skipped_def)
qed

definition collected_at :: "string \<Rightarrow> child_plan list \<Rightarrow> 's runner \<Rightarrow> bool" where
  "collected_at k plans s =
     (\<exists>vs. obj_get (cx_vars (rn_ctx s)) k = Some (JArr vs) \<and> list_all2 result_for plans vs)"

lemma collect_ensures:
  fixes m :: "('s, 'a) eng"
  assumes "B \<longrightarrow> list_all2 result_for plans vs"
    and "ensures (\<lambda>s. B \<longrightarrow> collected_at k plans s) m Q"
  shows "ensures (\<lambda>_. True) (ebind (eget (\<lambda>s. set_var k (JArr vs) schema (rn_ctx s))) (\<lambda>v.
     ebind (elift (map_err F v)) (\<lambda>ctx. eseq (set_context ctx) m))) Q"
proof (unfold ensures_def, intro allI impI)
  fix s s' :: "'s runner" and a
  assume "ebind (eget (\<lambda>s. set_var k (JArr vs) schema (rn_ctx s))) (\<lambda>v.
     ebind (elift (map_err F v)) (\<lambda>ctx. eseq (set_context ctx) m)) s = (Inr a, s')"
  then have run: "m (s\<lparr>rn_ctx := (rn_ctx s)\<lparr>cx_vars := obj_insert (cx_vars (rn_ctx s)) k (JArr vs)\<rparr>\<rparr>) = (Inr a, s')"
    by (auto simp: eget_def ebind_def elift_def map_err_def eseq_def set_context_def eupd_def set_var_iff
        split: sum.splits)
  have "B \<longrightarrow> collected_at k plans
      (s\<lparr>rn_ctx := (rn_ctx s)\<lparr>cx_vars := obj_insert (cx_vars (rn_ctx s)) k (JArr vs)\<rparr>\<rparr>)"
    using assms(1) by (simp add: collected_at_def)
  from ensuresD [OF assms(2) this run] show "Q a s'" .
qed

lemma collected_kept:
  "keeps (\<lambda>s. B \<longrightarrow> collected_at k plans s) (record_output n t)"
  "keeps (\<lambda>s. B \<longrightarrow> collected_at k plans s) (log_event a b)"
  "keeps (\<lambda>s. B \<longrightarrow> collected_at k plans s) (arc_note en c d)"
  by (auto simp: keeps_def record_output_def log_event_def arc_note_def emit_effect_def ebind_def eget_def
      eupd_def eret_def collected_at_def set_output_def split: option.splits)

text \<open>Property C13. A foreach or matrix node that succeeds leaves, in the variable it collects into, one result per item and
  in the order of the items, each with the index, key and item of its child, and no two with the
  same key, whatever the order in which the children ran and ended.\<close>

theorem fanout_collects_every_item:
  assumes "run_dynamic_fanout_node en n nd s = (Inr (), s')"
  shows "\<exists>rt plans. materialize_fanout_runtime en n nd s = Inr rt \<and> map cp_item plans = fr_items rt \<and>
    indexed plans \<and> distinct (map cp_key plans) \<and> collected_at (fr_collect_into rt) plans s'"
proof -
  let ?Q = "\<lambda>_ s'. \<exists>rt plans. materialize_fanout_runtime en n nd s = Inr rt \<and> map cp_item plans = fr_items rt \<and>
    indexed plans \<and> distinct (map cp_key plans) \<and> collected_at (fr_collect_into rt) plans s'"
  have loop: "ensures (\<lambda>_. True) (fanout_loop en n g rt plans call (effective_parallelism (fr_parallelism rt)) (length (fr_items rt)) (fanout_start (length (fr_items rt))))
      (\<lambda>f _. fs_failure f = None \<longrightarrow> list_all2 result_for plans
         (concat (map (\<lambda>x. case x of Some v \<Rightarrow> [v] | None \<Rightarrow> []) (fill_skipped plans f))))"
    if "length plans = (length (fr_items rt))" "indexed plans" for plans g call rt
  proof -
    have "0 < (effective_parallelism (fr_parallelism rt))" by (simp add: effective_parallelism_def)
    moreover have "joins_left plans (fanout_start (length (fr_items rt))) \<le> (length (fr_items rt))"
      by (simp add: joins_left_def fanout_start_def that(1))
    ultimately show ?thesis
      using fanout_loop_ensures [OF that(2), of "effective_parallelism (fr_parallelism rt)" "fanout_start (length (fr_items rt))"
          "length (fr_items rt)" en n g rt call]
        fanout_start_inv [of plans "effective_parallelism (fr_parallelism rt)"] fill_skipped_all [of plans "effective_parallelism (fr_parallelism rt)"] that(1)
      by (auto simp: ensures_def)
  qed
  have finish: "ensures (\<lambda>z. fs_failure f = None \<longrightarrow> collected_at (fr_collect_into rt) plans z)
      (eseq (record_output n t) (eseq (log_event a b) (eseq (arc_note en c d)
        (case fs_failure f of Some e \<Rightarrow> efail (FanoutFailed n e) | None \<Rightarrow> eret ())))) ?Q"
    if "materialize_fanout_runtime en n nd s = Inr rt" "map cp_item plans = fr_items rt" "indexed plans" "distinct (map cp_key plans)" for plans f t a b c d rt
    by (intro ensures_seq [OF ensures_keeps [OF collected_kept(1)]]
        ensures_seq [OF ensures_keeps [OF collected_kept(2)]]
        ensures_seq [OF ensures_keeps [OF collected_kept(3)]])
      (use that in \<open>auto simp: ensures_def efail_def eret_def split: option.splits\<close>)
  have plans: "ensures (\<lambda>_. True) (build_plans en n rt {} 0 (fr_items rt))
      (\<lambda>plans _. map cp_item plans = fr_items rt \<and> indexed plans \<and> distinct (map cp_key plans))" for rt
    using build_plans_ensures [of en n rt "{}" 0 "fr_items rt"] by (auto simp: ensures_def indexed_def)
  have bad: "ensures P (efail e) R" for P e R by (simp add: ensures_def efail_def)
  have "ensures (\<lambda>z. z = s) (run_dynamic_fanout_node en n nd) ?Q"
    unfolding run_dynamic_fanout_node_def Let_def
    apply (rule ensures_get_at, rule ensures_lift, rule ensures_if, rule bad, rule ensures_if, rule bad)
    apply (rule ensures_anywhere, rule ensures_skip, rule ensures_skip, rule ensures_option)
     apply (rule ensures_bind [OF plans], rule ensures_pure)
     apply (rule ensures_skip, rule ensures_skip, rule ensures_skip, rule ensures_last)
     apply (rule ensures_bind [OF loop])
       apply (metis length_map)
      apply blast
     apply (rule ensures_pure)
     apply (rule collect_ensures, assumption, rule finish)
    by (simp_all add: bad)
  from ensuresD [OF this refl assms] show ?thesis .
qed

text \<open>One item, whose child is cancelled, under a policy that goes on.\<close>

definition sample_fanout :: "workflow node_spec" where
  "sample_fanout =
     NodeSpec [] [] None None None None Sync None None None None [] [] [] [] [] None None []
       (Some (ForeachSpec (JArr [JBool True]) ''x'' None None (Some sample_workflow) None [] [] [] None ''out''
          ItemContinue)) None None Terminal"

lemma resolve_sample: "resolve_arg_value lib ctx (JArr [JBool True]) = Inr (JArr [JBool True])"
  by simp

lemma trim_0: "trim (show_nat 0) = ''0''"
  by code_simp

lemma no_schema: "wf_vars_schema sample_workflow = None"
  by (simp add: sample_workflow_def)

theorem fanout_collects_every_item_witness:
  "\<exists>s' plans. run_dynamic_fanout_node (sample_engine sample_workflow) ''f'' sample_fanout
       (sample_runner sample_workflow) = (Inr (), s') \<and>
     map cp_item plans = [JBool True] \<and> collected_at ''out'' plans s'"
proof -
  let ?en = "sample_engine sample_workflow" and ?s = "sample_runner sample_workflow"
  have m: "materialize_fanout_runtime ?en ''f'' sample_fanout ?s = Inr
      \<lparr>fr_kind = ''foreach'', fr_items = [JBool True], fr_as_var = ''x'', fr_index_as = None,
       fr_key_template = None, fr_child = sample_workflow, fr_imports = [], fr_import_renames = [],
       fr_exports = [], fr_parallelism = 1, fr_collect_into = ''out'', fr_failure_policy = ItemContinue\<rparr>"
    by (simp add: materialize_fanout_runtime_def materialize_foreach_runtime_def sample_fanout_def array_of_def
        fanout_child_def map_err_def parallelism_or_one_def)
  have "\<exists>s'. run_dynamic_fanout_node ?en ''f'' sample_fanout ?s = (Inr (), s')"
    unfolding run_dynamic_fanout_node_def ebind_eget m Let_def
    by (simp add: eng_defs elift_def sample_compile_ok map_err_def max_foreach_items_def max_workflow_depth_def
        sample_engine_def sample_server_def import_vars_def item_key_def trim_0 ok_def arc_id_of_def
        log_event_def fanout_start_def effective_parallelism_def max_foreach_parallelism_def poll_cancelled_def
        start_children_def start_count_def running_at_def drop_running_def outcome_of_def failed_result_def
        is_failure_def counts_as_failure_def settle_child_def fill_skipped_def set_var_def no_schema
        set_context_def record_output_def arc_note_def Let_def emit_effect_def sample_runner_def new_runner_def
      del: compile_workflow.simps)
  then obtain s' where r: "run_dynamic_fanout_node ?en ''f'' sample_fanout ?s = (Inr (), s')" by blast
  from fanout_collects_every_item [OF r] obtain rt plans where
    rt: "materialize_fanout_runtime ?en ''f'' sample_fanout ?s = Inr rt" and
    p: "map cp_item plans = fr_items rt" "collected_at (fr_collect_into rt) plans s'" by blast
  from rt m have "fr_items rt = [JBool True]" "fr_collect_into rt = ''out''" by auto
  with p r show ?thesis by metis
qed

end
