(* ===== verification/Events_Types.thy ===== *)
theory Events_Types
  imports Workflow_Context
begin

text \<open>
  The data of the event bus (\<open>src/src/system_events/types.rs\<close>): kinds of events and their names on
  the wire, events and their JSON form, outbox records, reactions and outcomes of their actions.
\<close>

section \<open>Kinds of events\<close>

datatype event_kind =
    BroIdentityRequired | BroIdentityProvisioned | BroIdentityProvisionFailed
  | TaskStarted | TaskProgress | TaskCompleted | TaskFailed | TaskCancelled
  | WorkflowArcStarted | WorkflowArcNodeStarted | WorkflowArcNodeCompleted
  | WorkflowArcWaitRegistered | WorkflowArcSignalReceived | WorkflowArcCompleted
  | WorkflowArcFailed | WorkflowArcCancelled
  | CoordinationIssueLinked | CoordinationPrOpened | CoordinationReviewPosted
  | CoordinationStatusChanged | CoordinationAuditCommentRequested
  | WhiteboardPhaseChanged | WhiteboardVoteRecorded | CouncilPosted | CouncilMention
  | UnknownKind string

definition known_kinds :: "(event_kind \<times> string) list" where
  "known_kinds =
     [(BroIdentityRequired, ''bro.identity.required''),
      (BroIdentityProvisioned, ''bro.identity.provisioned''),
      (BroIdentityProvisionFailed, ''bro.identity.provision_failed''),
      (TaskStarted, ''task.started''), (TaskProgress, ''task.progress''),
      (TaskCompleted, ''task.completed''), (TaskFailed, ''task.failed''),
      (TaskCancelled, ''task.cancelled''),
      (WorkflowArcStarted, ''workflow.arc.started''),
      (WorkflowArcNodeStarted, ''workflow.arc.node_started''),
      (WorkflowArcNodeCompleted, ''workflow.arc.node_completed''),
      (WorkflowArcWaitRegistered, ''workflow.arc.wait_registered''),
      (WorkflowArcSignalReceived, ''workflow.arc.signal_received''),
      (WorkflowArcCompleted, ''workflow.arc.completed''),
      (WorkflowArcFailed, ''workflow.arc.failed''),
      (WorkflowArcCancelled, ''workflow.arc.cancelled''),
      (CoordinationIssueLinked, ''coordination.issue.linked''),
      (CoordinationPrOpened, ''coordination.pr.opened''),
      (CoordinationReviewPosted, ''coordination.review.posted''),
      (CoordinationStatusChanged, ''coordination.status.changed''),
      (CoordinationAuditCommentRequested, ''coordination.audit_comment.requested''),
      (WhiteboardPhaseChanged, ''whiteboard.phase_changed''),
      (WhiteboardVoteRecorded, ''whiteboard.vote_recorded''),
      (CouncilPosted, ''council.posted''), (CouncilMention, ''council.mention'')]"

definition to_wire :: "event_kind \<Rightarrow> string" where
  "to_wire k =
     (case k of UnknownKind s \<Rightarrow> s
      | _ \<Rightarrow> (case map_of known_kinds k of Some s \<Rightarrow> s | None \<Rightarrow> []))"

definition from_wire :: "string \<Rightarrow> event_kind" where
  "from_wire s =
     (case find (\<lambda>p. snd p = s) known_kinds of Some p \<Rightarrow> fst p | None \<Rightarrow> UnknownKind s)"

section \<open>Events\<close>

record event_principal =
  ep_kind :: string
  ep_bro :: "string option"
  ep_provider :: "string option"
  ep_model :: "string option"
  ep_effort :: "string option"

record event_subject =
  es_kind :: string
  es_id :: string

record system_event =
  ev_id :: string
  ev_kind :: event_kind
  ev_occurred_at :: string
  ev_producer :: string
  ev_project :: "string option"
  ev_principal :: "event_principal option"
  ev_subject :: "event_subject option"
  ev_correlation :: jmap
  ev_causation_id :: "string option"
  ev_payload :: json

record journal_envelope =
  je_schema :: string
  je_event :: system_event

definition wrap_event :: "system_event \<Rightarrow> journal_envelope" where
  "wrap_event ev = \<lparr>je_schema = ''system-event/v1'', je_event = ev\<rparr>"

text \<open>A field that is \<open>None\<close> is left out of the JSON form.\<close>

definition opt_field :: "string \<Rightarrow> json option \<Rightarrow> jmap" where
  "opt_field k v = (case v of None \<Rightarrow> [] | Some j \<Rightarrow> [(k, j)])"

definition principal_json :: "event_principal \<Rightarrow> json" where
  "principal_json p =
     JObj ((''kind'', JStr (ep_kind p)) # opt_field ''bro'' (map_option JStr (ep_bro p)) @
       opt_field ''provider'' (map_option JStr (ep_provider p)) @
       opt_field ''model'' (map_option JStr (ep_model p)) @
       opt_field ''effort'' (map_option JStr (ep_effort p)))"

definition subject_json :: "event_subject \<Rightarrow> json" where
  "subject_json s = JObj [(''kind'', JStr (es_kind s)), (''id'', JStr (es_id s))]"

definition event_json :: "system_event \<Rightarrow> json" where
  "event_json ev =
     JObj ([(''id'', JStr (ev_id ev)), (''kind'', JStr (to_wire (ev_kind ev))),
            (''occurred_at'', JStr (ev_occurred_at ev)), (''producer'', JStr (ev_producer ev))] @
       opt_field ''project'' (map_option JStr (ev_project ev)) @
       opt_field ''principal'' (map_option principal_json (ev_principal ev)) @
       opt_field ''subject'' (map_option subject_json (ev_subject ev)) @
       [(''correlation'', JObj (ev_correlation ev))] @
       opt_field ''causation_id'' (map_option JStr (ev_causation_id ev)) @
       [(''payload'', ev_payload ev)])"

definition build_event_roots :: "system_event \<Rightarrow> jmap" where
  "build_event_roots ev = [(''event'', event_json ev)]"

section \<open>Outbox records\<close>

datatype outbox_status = OxPending | OxClaimed | OxSucceeded | OxRetryAt | OxDeadLettered

record outbox_record =
  ox_id :: string
  ox_event_id :: string
  ox_reaction_name :: string
  ox_idempotency_key :: "string option"
  ox_status :: outbox_status
  ox_attempt_count :: u32
  ox_next_attempt_at :: "string option"
  ox_claimed_at :: "string option"
  ox_claimed_by :: "string option"
  ox_last_error :: "string option"
  ox_dead_letter_reason :: "string option"
  ox_response_summary :: "json option"
  ox_created_at :: string
  ox_updated_at :: string

definition new_outbox_record ::
  "string \<Rightarrow> string \<Rightarrow> string \<Rightarrow> string \<Rightarrow> string option \<Rightarrow> outbox_record" where
  "new_outbox_record i now event_id reaction_name key =
     \<lparr>ox_id = i, ox_event_id = event_id, ox_reaction_name = reaction_name, ox_idempotency_key = key,
      ox_status = OxPending, ox_attempt_count = 0, ox_next_attempt_at = None, ox_claimed_at = None,
      ox_claimed_by = None, ox_last_error = None, ox_dead_letter_reason = None,
      ox_response_summary = None, ox_created_at = now, ox_updated_at = now\<rparr>"

section \<open>Reactions\<close>

datatype reaction_action =
    HttpJson (action_args: json)
  | McpCall (action_args: json)
  | AtomInvoke (action_args: json)
  | StartWorkflow (action_args: json)
  | EmitEvent (action_args: json)

fun op_name :: "reaction_action \<Rightarrow> string" where
  "op_name (HttpJson _) = ''http_json''"
| "op_name (McpCall _) = ''mcp_call''"
| "op_name (AtomInvoke _) = ''atom_invoke''"
| "op_name (StartWorkflow _) = ''start_workflow''"
| "op_name (EmitEvent _) = ''emit_event''"

definition requires_idempotency_key :: "reaction_action \<Rightarrow> bool" where
  "requires_idempotency_key a = (case a of EmitEvent _ \<Rightarrow> False | _ \<Rightarrow> True)"

record retry_policy =
  rp_max_attempts :: u32
  rp_backoff :: string

definition default_retry :: retry_policy where
  "default_retry = \<lparr>rp_max_attempts = 5, rp_backoff = ''exponential''\<rparr>"

record reaction_spec =
  rs_contract :: string
  rs_name :: string
  rs_version :: u32
  rs_enabled :: bool
  rs_event_kinds :: "string list"
  rs_when :: "string option"
  rs_idempotency_key :: "string option"
  rs_action :: reaction_action
  rs_retry :: retry_policy

datatype action_status = ActSucceeded | PermanentFailure | RetryableFailure | SkippedByGate

record action_outcome =
  ao_status :: action_status
  ao_summary :: json

section \<open>Names on the wire\<close>

lemma known_distinct: "distinct (map snd known_kinds)" "distinct (map fst known_kinds)"
  by (simp_all add: known_kinds_def)

lemma known_listed: "(\<exists>s. k = UnknownKind s) \<or> (k, to_wire k) \<in> set known_kinds"
  by (cases k) (simp_all add: to_wire_def known_kinds_def)

lemma find_distinct:
  "distinct (map f xs) \<Longrightarrow> x \<in> set xs \<Longrightarrow> find (\<lambda>p. f p = f x) xs = Some x"
  by (induction xs) (auto simp: image_iff)

lemma from_wire_known: "(k, s) \<in> set known_kinds \<Longrightarrow> from_wire s = k"
  using find_distinct [OF known_distinct(1), of "(k, s)"] by (simp add: from_wire_def)

lemma to_wire_known:
  assumes "(k, s) \<in> set known_kinds"
  shows "to_wire k = s"
proof -
  have "map_of known_kinds k = Some s" using assms by (intro map_of_is_SomeI known_distinct(2))
  moreover have "\<nexists>t. k = UnknownKind t" using assms by (auto simp: known_kinds_def)
  ultimately show ?thesis by (auto simp: to_wire_def split: event_kind.splits)
qed

lemma from_wire_unknown: "from_wire s = UnknownKind t \<longleftrightarrow> t = s \<and> s \<notin> snd ` set known_kinds"
proof (cases "find (\<lambda>p. snd p = s) known_kinds")
  case None
  then have "from_wire s = UnknownKind s" by (simp add: from_wire_def)
  moreover have "s \<notin> snd ` set known_kinds" using None by (auto simp: find_None_iff)
  ultimately show ?thesis by auto
next
  case (Some p)
  then have "p \<in> set known_kinds" "snd p = s" by (auto simp: find_Some_iff)
  moreover have "from_wire s = fst p"
    using \<open>p \<in> set known_kinds\<close> \<open>snd p = s\<close> from_wire_known [of "fst p" s] by (metis prod.collapse)
  moreover have "fst p \<noteq> UnknownKind t" using \<open>p \<in> set known_kinds\<close> by (auto simp: known_kinds_def)
  ultimately show ?thesis by auto
qed

text \<open>A name on the wire is kept whatever it is, and a kind is read back exactly when it is not an
  unknown kind that carries the name of a known one.\<close>

theorem wire_roundtrip:
  "to_wire (from_wire s) = s \<and>
   (from_wire (to_wire k) = k \<longleftrightarrow> k \<notin> UnknownKind ` snd ` set known_kinds)"
proof
  show "to_wire (from_wire s) = s"
  proof (cases "find (\<lambda>p. snd p = s) known_kinds")
    case None
    then show ?thesis by (simp add: from_wire_def to_wire_def)
  next
    case (Some p)
    then have "(fst p, s) \<in> set known_kinds" by (auto simp: find_Some_iff)
    then show ?thesis by (simp add: from_wire_known to_wire_known)
  qed
  show "from_wire (to_wire k) = k \<longleftrightarrow> k \<notin> UnknownKind ` snd ` set known_kinds"
  proof (cases "\<exists>t. k = UnknownKind t")
    case True
    then obtain t where t: "k = UnknownKind t" by blast
    show ?thesis using from_wire_unknown [of t t] by (auto simp: t to_wire_def)
  next
    case False
    then show ?thesis using known_listed [of k] from_wire_known by auto
  qed
qed

end
