(* ===== verification/Events_Outbox.thy ===== *)
theory Events_Outbox
  imports Events_Types
begin

text \<open>
  The outbox (\<open>src/src/system_events/outbox.rs\<close>): a file with one record per line, oldest first,
  that every operation reads, changes and writes back under a lock. A line that is not a record makes
  every read fail. The file system itself does not fail. The status of a record moves along a
  small graph, which \<open>status_step\<close> states; \<open>outbox_step\<close> is what all the operations promise together.
\<close>

section \<open>The file\<close>

datatype 'a file_line = Row 'a | Broken string

fun file_row :: "'a file_line \<Rightarrow> string + 'a" where
  "file_row (Row r) = Inr r"
| "file_row (Broken e) = Inl e"

type_synonym outbox = "outbox_record file_line list"

definition load_outbox :: "outbox \<Rightarrow> string + outbox_record list" where
  "load_outbox ob = map_result file_row ob"

definition rewrite_outbox :: "outbox_record list \<Rightarrow> outbox" where
  "rewrite_outbox rs = map Row rs"

definition append_record :: "outbox_record \<Rightarrow> outbox \<Rightarrow> outbox" where
  "append_record r ob = ob @ [Row r]"

definition create_record ::
  "string \<Rightarrow> string \<Rightarrow> string \<Rightarrow> string \<Rightarrow> string option \<Rightarrow> outbox \<Rightarrow> outbox_record \<times> outbox" where
  "create_record i now event_id reaction_name key ob =
     (let r = new_outbox_record i now event_id reaction_name key in (r, append_record r ob))"

text \<open>The loops of the operations change the first record that qualifies.\<close>

fun change_first :: "('a \<Rightarrow> bool) \<Rightarrow> ('a \<Rightarrow> 'a) \<Rightarrow> 'a list \<Rightarrow> 'a list" where
  "change_first P f [] = []"
| "change_first P f (x # xs) = (if P x then f x # xs else x # change_first P f xs)"

section \<open>Claiming\<close>

definition waiting :: "outbox_record \<Rightarrow> bool" where
  "waiting r = (ox_status r = OxPending \<or> ox_status r = OxRetryAt)"

text \<open>A record whose retry lies in the future is passed over; instants are compared as text.\<close>

definition claimable :: "string \<Rightarrow> outbox_record \<Rightarrow> bool" where
  "claimable now r =
     (waiting r \<and>
      \<not> (ox_status r = OxRetryAt \<and>
         (case ox_next_attempt_at r of Some t \<Rightarrow> now < t | None \<Rightarrow> False)))"

definition claim :: "string \<Rightarrow> string \<Rightarrow> string \<Rightarrow> outbox_record \<Rightarrow> outbox_record" where
  "claim now pid stamp r =
     r\<lparr>ox_status := OxClaimed, ox_claimed_at := Some now, ox_claimed_by := Some pid,
       ox_attempt_count := ox_attempt_count r + 1, ox_updated_at := stamp\<rparr>"

definition claim_next ::
  "string \<Rightarrow> string \<Rightarrow> string \<Rightarrow> outbox \<Rightarrow> (string + outbox_record option) \<times> outbox" where
  "claim_next now pid stamp ob =
     (case load_outbox ob of
        Inl e \<Rightarrow> (Inl e, ob)
      | Inr rs \<Rightarrow>
          (case find (claimable now) rs of
             None \<Rightarrow> (Inr None, ob)
           | Some r \<Rightarrow>
               (Inr (Some (claim now pid stamp r)),
                rewrite_outbox (change_first (claimable now) (claim now pid stamp) rs))))"

definition claim_record ::
  "string \<Rightarrow> string \<Rightarrow> string \<Rightarrow> string \<Rightarrow> outbox \<Rightarrow> (string + outbox_record option) \<times> outbox" where
  "claim_record i now pid stamp ob =
     (case load_outbox ob of
        Inl e \<Rightarrow> (Inl e, ob)
      | Inr rs \<Rightarrow>
          (case find (\<lambda>r. ox_id r = i) rs of
             None \<Rightarrow> (Inr None, ob)
           | Some r \<Rightarrow>
               if \<not> waiting r then (Inr None, ob)
               else (Inr (Some (claim now pid stamp r)),
                     rewrite_outbox (change_first (\<lambda>r. ox_id r = i) (claim now pid stamp) rs))))"

section \<open>Settling\<close>

definition succeed :: "json option \<Rightarrow> string \<Rightarrow> outbox_record \<Rightarrow> outbox_record" where
  "succeed summary stamp r =
     r\<lparr>ox_status := OxSucceeded, ox_claimed_at := None, ox_claimed_by := None,
       ox_response_summary := summary, ox_updated_at := stamp\<rparr>"

definition postpone :: "string \<Rightarrow> string \<Rightarrow> string \<Rightarrow> outbox_record \<Rightarrow> outbox_record" where
  "postpone next_at e stamp r =
     r\<lparr>ox_status := OxRetryAt, ox_claimed_at := None, ox_claimed_by := None,
       ox_next_attempt_at := Some next_at, ox_last_error := Some e, ox_updated_at := stamp\<rparr>"

definition bury :: "string \<Rightarrow> string option \<Rightarrow> string \<Rightarrow> outbox_record \<Rightarrow> outbox_record" where
  "bury reason e stamp r =
     r\<lparr>ox_status := OxDeadLettered, ox_dead_letter_reason := Some reason, ox_last_error := e,
       ox_claimed_at := None, ox_claimed_by := None, ox_updated_at := stamp\<rparr>"

definition revive :: "string \<Rightarrow> outbox_record \<Rightarrow> outbox_record" where
  "revive stamp r =
     r\<lparr>ox_status := OxPending, ox_dead_letter_reason := None, ox_last_error := None,
       ox_claimed_at := None, ox_claimed_by := None, ox_next_attempt_at := None,
       ox_updated_at := stamp\<rparr>"

definition change_record ::
  "(outbox_record \<Rightarrow> outbox_record) \<Rightarrow> string \<Rightarrow> outbox \<Rightarrow> (string + unit) \<times> outbox" where
  "change_record f i ob =
     (case load_outbox ob of
        Inl e \<Rightarrow> (Inl e, ob)
      | Inr rs \<Rightarrow> (Inr (), rewrite_outbox (change_first (\<lambda>r. ox_id r = i) f rs)))"

definition mark_succeeded ::
  "string \<Rightarrow> json option \<Rightarrow> string \<Rightarrow> outbox \<Rightarrow> (string + unit) \<times> outbox" where
  "mark_succeeded i summary stamp = change_record (succeed summary stamp) i"

definition mark_retry_at ::
  "string \<Rightarrow> string \<Rightarrow> string \<Rightarrow> string \<Rightarrow> outbox \<Rightarrow> (string + unit) \<times> outbox" where
  "mark_retry_at i next_at e stamp = change_record (postpone next_at e stamp) i"

definition mark_dead_lettered ::
  "string \<Rightarrow> string \<Rightarrow> string option \<Rightarrow> string \<Rightarrow> outbox \<Rightarrow> (string + unit) \<times> outbox" where
  "mark_dead_lettered i reason e stamp = change_record (bury reason e stamp) i"

definition retry_dead_lettered :: "string \<Rightarrow> string \<Rightarrow> outbox \<Rightarrow> (string + bool) \<times> outbox" where
  "retry_dead_lettered i stamp ob =
     (case load_outbox ob of
        Inl e \<Rightarrow> (Inl e, ob)
      | Inr rs \<Rightarrow>
          let P = (\<lambda>r. ox_id r = i \<and> ox_status r = OxDeadLettered)
          in if list_ex P rs then (Inr True, rewrite_outbox (change_first P (revive stamp) rs))
             else (Inr False, ob))"

section \<open>Recovery after a crash\<close>

text \<open>A record that was claimed when the process died goes back to the queue if its reaction may run twice and is
  given up otherwise. The text of \<open>last_error\<close> is the given function of the record.\<close>

record recovery_report =
  rc_requeued :: nat
  rc_dead_lettered :: nat

definition crash_reason :: string where
  "crash_reason = ''crash_recovery_non_idempotent''"

definition recover_record ::
  "(outbox_record \<Rightarrow> string) \<Rightarrow> string \<Rightarrow> outbox_record \<Rightarrow> outbox_record" where
  "recover_record describe stamp r =
     (if ox_status r \<noteq> OxClaimed then r
      else case ox_idempotency_key r of
             Some _ \<Rightarrow>
               r\<lparr>ox_status := OxPending, ox_claimed_at := None, ox_claimed_by := None,
                 ox_updated_at := stamp\<rparr>
           | None \<Rightarrow>
               r\<lparr>ox_status := OxDeadLettered, ox_dead_letter_reason := Some crash_reason,
                 ox_last_error := Some (describe r), ox_updated_at := stamp\<rparr>)"

definition recover_stale_claims ::
  "(outbox_record \<Rightarrow> string) \<Rightarrow> string \<Rightarrow> outbox \<Rightarrow> recovery_report \<times> outbox" where
  "recover_stale_claims describe stamp ob =
     (case load_outbox ob of
        Inl _ \<Rightarrow> (\<lparr>rc_requeued = 0, rc_dead_lettered = 0\<rparr>, ob)
      | Inr rs \<Rightarrow>
          let stale = filter (\<lambda>r. ox_status r = OxClaimed) rs;
              requeued = length (filter (\<lambda>r. ox_idempotency_key r \<noteq> None) stale);
              dead = length (filter (\<lambda>r. ox_idempotency_key r = None) stale)
          in (\<lparr>rc_requeued = requeued, rc_dead_lettered = dead\<rparr>,
              if 0 < requeued \<or> 0 < dead
              then rewrite_outbox (map (recover_record describe stamp) rs) else ob))"

section \<open>Reading and compacting\<close>

definition get_record :: "string \<Rightarrow> outbox \<Rightarrow> string + outbox_record option" where
  "get_record i ob = rbind (load_outbox ob) (\<lambda>rs. Inr (find (\<lambda>r. ox_id r = i) rs))"

definition list_by_event :: "string \<Rightarrow> outbox \<Rightarrow> string + outbox_record list" where
  "list_by_event event_id ob =
     rbind (load_outbox ob) (\<lambda>rs. Inr (filter (\<lambda>r. ox_event_id r = event_id) rs))"

definition list_by_status :: "outbox_status \<Rightarrow> outbox \<Rightarrow> string + outbox_record list" where
  "list_by_status st ob = rbind (load_outbox ob) (\<lambda>rs. Inr (filter (\<lambda>r. ox_status r = st) rs))"

definition outbox_success_retention_days :: int where
  "outbox_success_retention_days = 7"

record compaction_report =
  cm_before :: nat
  cm_after :: nat
  cm_dropped_succeeded :: nat

text \<open>An instant is a number of seconds; the parser of RFC 3339 texts is a parameter.\<close>

definition cutoff_of :: "(string \<Rightarrow> int option) \<Rightarrow> int \<Rightarrow> string \<Rightarrow> string + int" where
  "cutoff_of instant days now =
     (case instant now of None \<Rightarrow> Inl now | Some t \<Rightarrow> Inr (t - days * 86400))"

definition outdated :: "(string \<Rightarrow> int option) \<Rightarrow> int \<Rightarrow> outbox_record \<Rightarrow> bool" where
  "outdated instant cutoff r =
     (ox_status r = OxSucceeded \<and>
      (case instant (ox_updated_at r) of Some t \<Rightarrow> t < cutoff | None \<Rightarrow> False))"

definition compact_outbox ::
  "(string \<Rightarrow> int option) \<Rightarrow> string \<Rightarrow> outbox \<Rightarrow> (string + compaction_report) \<times> outbox" where
  "compact_outbox instant now ob =
     (case rbind (cutoff_of instant outbox_success_retention_days now)
             (\<lambda>cutoff. rbind (load_outbox ob) (\<lambda>rs. Inr (cutoff, rs))) of
        Inl e \<Rightarrow> (Inl e, ob)
      | Inr (cutoff, rs) \<Rightarrow>
          let kept = filter (\<lambda>r. \<not> outdated instant cutoff r) rs;
              dropped = length rs - length kept
          in (Inr \<lparr>cm_before = length rs, cm_after = length kept, cm_dropped_succeeded = dropped\<rparr>,
              if 0 < dropped then rewrite_outbox kept else ob))"

section \<open>Files that can be read\<close>

lemma load_rewrite [simp]: "load_outbox (rewrite_outbox rs) = Inr rs"
  by (induction rs) (simp_all add: load_outbox_def rewrite_outbox_def rbind_def)

lemma load_Inr: "load_outbox ob = Inr rs \<longleftrightarrow> ob = rewrite_outbox rs"
proof
  show "load_outbox ob = Inr rs \<Longrightarrow> ob = rewrite_outbox rs"
  proof (induction ob arbitrary: rs)
    case (Cons l ob)
    then show ?case
      by (cases l) (auto simp: load_outbox_def rewrite_outbox_def rbind_def split: sum.splits)
  qed (simp add: load_outbox_def rewrite_outbox_def)
qed simp

lemma load_append [simp]:
  "load_outbox (append_record r (rewrite_outbox rs)) = Inr (rs @ [r])"
  using load_rewrite [of "rs @ [r]"] by (simp add: append_record_def rewrite_outbox_def)

lemma load_broken: "(\<exists>e. load_outbox ob = Inl e) \<longleftrightarrow> (\<exists>t. Broken t \<in> set ob)"
proof (induction ob)
  case (Cons l ob)
  then show ?case by (cases l) (auto simp: load_outbox_def rbind_def split: sum.splits)
qed (simp add: load_outbox_def)

text \<open>One line that is not a record stops the outbox: nothing is claimed, settled, revived, compacted
  or recovered any more, the file stays as it is, and only new records are still added behind it.\<close>

theorem broken_line_stops_outbox:
  assumes "Broken t \<in> set ob"
  shows "(\<exists>e. claim_next now pid stamp ob = (Inl e, ob)) \<and>
    (\<exists>e. claim_record i now pid stamp ob = (Inl e, ob)) \<and>
    (\<exists>e. change_record f i ob = (Inl e, ob)) \<and>
    (\<exists>e. retry_dead_lettered i stamp ob = (Inl e, ob)) \<and>
    (\<exists>e. compact_outbox instant now ob = (Inl e, ob)) \<and>
    recover_stale_claims describe stamp ob = (\<lparr>rc_requeued = 0, rc_dead_lettered = 0\<rparr>, ob) \<and>
    Broken t \<in> set (snd (create_record i now ev rn key ob))"
proof -
  obtain e where "load_outbox ob = Inl e" using assms load_broken by blast
  then show ?thesis
    using assms
    by (auto simp: claim_next_def claim_record_def change_record_def retry_dead_lettered_def
        compact_outbox_def recover_stale_claims_def create_record_def append_record_def Let_def
        rbind_def split: sum.splits)
qed

theorem broken_line_stops_outbox_witness:
  "\<exists>e. claim_next ''2026'' ''p'' ''s'' [Broken ''{'', Row (new_outbox_record ''a'' ''n'' ''e'' ''r'' None)] =
     (Inl e, [Broken ''{'', Row (new_outbox_record ''a'' ''n'' ''e'' ''r'' None)])"
  using broken_line_stops_outbox [of "''{''" "[Broken ''{'', Row (new_outbox_record ''a'' ''n'' ''e'' ''r'' None)]"
      "''2026''" "''p''" "''s''"]
  by auto

section \<open>The first record that qualifies\<close>

lemma change_first_none: "find P xs = None \<Longrightarrow> change_first P f xs = xs"
  by (induction xs) (auto split: if_splits)

lemma change_first_at:
  "\<forall>y\<in>set ys. \<not> P y \<Longrightarrow> P x \<Longrightarrow> change_first P f (ys @ x # zs) = ys @ f x # zs"
  by (induction ys) auto

lemma change_first_split:
  assumes "find P xs = Some x"
  shows "\<exists>ys zs. xs = ys @ x # zs \<and> P x \<and> (\<forall>y\<in>set ys. \<not> P y) \<and> change_first P f xs = ys @ f x # zs"
  using find_splitD [OF assms] change_first_at by metis

lemma length_change_first [simp]: "length (change_first P f xs) = length xs"
  by (induction xs) auto

lemma change_first_rel:
  assumes "\<And>x. R x x" "\<And>x. x \<in> set xs \<Longrightarrow> P x \<Longrightarrow> R x (f x)"
  shows "list_all2 R xs (change_first P f xs)"
  using assms(2) by (induction xs) (auto intro: assms(1) list_all2_refl)

section \<open>What the operations promise\<close>

text \<open>The statuses and how they follow one another. A dead letter comes back only by hand.\<close>

inductive status_step :: "outbox_status \<Rightarrow> outbox_status \<Rightarrow> bool" where
  claim_pending: "status_step OxPending OxClaimed"
| claim_retry: "status_step OxRetryAt OxClaimed"
| settle: "st \<noteq> OxPending \<Longrightarrow> status_step OxClaimed st"
| give_back: "status_step OxClaimed OxPending"
| revival: "status_step OxDeadLettered OxPending"

inductive_simps status_step_succeeded: "status_step OxSucceeded st"

code_pred status_step .

definition same_delivery :: "outbox_record \<Rightarrow> outbox_record \<Rightarrow> bool" where
  "same_delivery r r' =
     (ox_id r' = ox_id r \<and> ox_event_id r' = ox_event_id r \<and>
      ox_reaction_name r' = ox_reaction_name r \<and>
      ox_idempotency_key r' = ox_idempotency_key r \<and> ox_created_at r' = ox_created_at r)"

definition record_step :: "outbox_record \<Rightarrow> outbox_record \<Rightarrow> bool" where
  "record_step r r' =
     (r' = r \<or> same_delivery r r' \<and> status_step (ox_status r) (ox_status r') \<and>
       ox_attempt_count r' =
         ox_attempt_count r + (if ox_status r' = OxClaimed then 1 else 0))"

lemma record_step_refl [simp]: "record_step r r"
  by (simp add: record_step_def)

lemma claim_step: "waiting r \<Longrightarrow> record_step r (claim now pid stamp r)"
  by (auto simp: record_step_def same_delivery_def claim_def waiting_def intro: status_step.intros)

lemma settle_steps:
  assumes "ox_status r = OxClaimed"
  shows "record_step r (succeed s stamp r)" "record_step r (postpone n e stamp r)"
    "record_step r (bury reason e' stamp r)"
  using assms
  by (auto simp: record_step_def same_delivery_def succeed_def postpone_def bury_def
      intro!: status_step.settle)

lemma revive_step: "ox_status r = OxDeadLettered \<Longrightarrow> record_step r (revive stamp r)"
  by (auto simp: record_step_def same_delivery_def revive_def intro: status_step.intros)

lemma recover_step: "record_step r (recover_record describe stamp r)"
  by (auto simp: record_step_def same_delivery_def recover_record_def
      intro: status_step.intros split: option.splits)

lemma claim_next_rows:
  assumes "claim_next now pid stamp (rewrite_outbox rs) = (x, ob')"
  shows "\<exists>rs'. ob' = rewrite_outbox rs' \<and> list_all2 record_step rs rs'"
proof (cases "find (claimable now) rs")
  case None
  then show ?thesis using assms by (auto simp: claim_next_def list_all2_refl)
next
  case (Some r)
  have "list_all2 record_step rs (change_first (claimable now) (claim now pid stamp) rs)"
    by (rule change_first_rel) (auto simp: claimable_def intro: claim_step)
  then show ?thesis using assms Some by (auto simp: claim_next_def)
qed

text \<open>The outbox is a queue: a claim takes the oldest record that is due, marks it as claimed with one
  more attempt and leaves every other record as it is, and it takes none only when none is due.\<close>

theorem claim_takes_oldest_due:
  "(claim_next now pid stamp (rewrite_outbox rs) = (Inr (Some c), ob') \<longleftrightarrow>
      (\<exists>ys r zs. rs = ys @ r # zs \<and> ob' = rewrite_outbox (ys @ c # zs) \<and> claimable now r \<and>
         \<not> list_ex (claimable now) ys \<and> c = claim now pid stamp r)) \<and>
   (claim_next now pid stamp (rewrite_outbox rs) = (Inr None, ob') \<longleftrightarrow>
      \<not> list_ex (claimable now) rs \<and> ob' = rewrite_outbox rs)"
proof
  have found: "find (claimable now) rs = Some r \<longleftrightarrow>
      (\<exists>ys zs. rs = ys @ r # zs \<and> claimable now r \<and> \<not> list_ex (claimable now) ys)" for r
    by (simp add: find_first list_ex_iff)
  have change: "change_first (claimable now) f (ys @ r # zs) = ys @ f r # zs"
    if "claimable now r" "\<not> list_ex (claimable now) ys" for f ys r zs
    using that by (simp add: change_first_at list_ex_iff)
  show "claim_next now pid stamp (rewrite_outbox rs) = (Inr (Some c), ob') \<longleftrightarrow>
      (\<exists>ys r zs. rs = ys @ r # zs \<and> ob' = rewrite_outbox (ys @ c # zs) \<and> claimable now r \<and>
         \<not> list_ex (claimable now) ys \<and> c = claim now pid stamp r)" (is "?L \<longleftrightarrow> ?R")
  proof
    assume ?L
    then obtain r where r: "find (claimable now) rs = Some r" "c = claim now pid stamp r"
      "ob' = rewrite_outbox (change_first (claimable now) (claim now pid stamp) rs)"
      by (auto simp: claim_next_def split: option.splits)
    obtain ys zs where s: "rs = ys @ r # zs" "claimable now r" "\<not> list_ex (claimable now) ys"
      using found r(1) by blast
    then show ?R
      using r(2,3) change [OF s(2,3), of "claim now pid stamp" zs]
      by (intro exI [of _ ys] exI [of _ r] exI [of _ zs]) simp
  next
    assume ?R
    then obtain ys r zs where r: "rs = ys @ r # zs" "ob' = rewrite_outbox (ys @ c # zs)"
      "claimable now r" "\<not> list_ex (claimable now) ys" "c = claim now pid stamp r"
      by blast
    then have "find (claimable now) rs = Some r" using found by blast
    then show ?L using r change by (simp add: claim_next_def)
  qed
  show "claim_next now pid stamp (rewrite_outbox rs) = (Inr None, ob') \<longleftrightarrow>
      \<not> list_ex (claimable now) rs \<and> ob' = rewrite_outbox rs"
    by (auto simp: claim_next_def list_ex_iff find_None_iff find_first split: option.splits)
qed

lemma claim_record_rows:
  assumes "claim_record i now pid stamp (rewrite_outbox rs) = (x, ob')"
  shows "\<exists>rs'. ob' = rewrite_outbox rs' \<and> list_all2 record_step rs rs'"
proof (cases "find (\<lambda>r. ox_id r = i) rs")
  case (Some r)
  then obtain ys zs where s: "rs = ys @ r # zs"
    "change_first (\<lambda>r. ox_id r = i) (claim now pid stamp) rs = ys @ claim now pid stamp r # zs"
    using change_first_split by fastforce
  then show ?thesis
    using assms Some claim_step [of r now pid stamp]
    by (auto simp: claim_record_def list_all2_refl intro!: list_all2_appendI split: if_splits)
qed (use assms in \<open>auto simp: claim_record_def list_all2_refl\<close>)

lemma change_record_rows:
  assumes "change_record f i (rewrite_outbox rs) = (x, ob')"
    and "\<And>r. r \<in> set rs \<Longrightarrow> ox_id r = i \<Longrightarrow> record_step r (f r)"
  shows "\<exists>rs'. ob' = rewrite_outbox rs' \<and> list_all2 record_step rs rs'"
  using assms by (auto simp: change_record_def intro!: change_first_rel)

lemma retry_rows:
  assumes "retry_dead_lettered i stamp (rewrite_outbox rs) = (x, ob')"
  shows "\<exists>rs'. ob' = rewrite_outbox rs' \<and> list_all2 record_step rs rs'"
  using assms
  by (auto simp: retry_dead_lettered_def Let_def list_all2_refl intro!: change_first_rel revive_step
      split: if_splits)

lemma recover_rows:
  assumes "recover_stale_claims describe stamp (rewrite_outbox rs) = (x, ob')"
  shows "\<exists>rs'. ob' = rewrite_outbox rs' \<and> list_all2 record_step rs rs'"
  using assms
  by (auto simp: recover_stale_claims_def Let_def list_all2_refl recover_step
      simp: list_all2_map2 split: if_splits)

section \<open>Recovery\<close>

lemma recovered_count: "length (filter P xs) + length (filter (\<lambda>x. \<not> P x) xs) = length xs"
  by (rule sum_length_filter_compl)

text \<open>Property C17. After a recovery no record is claimed any more: the claimed ones with an idempotency key wait again
  and keep the number of their attempts, those without are dead letters, every other record is as it
  was, and the report counts both.\<close>

theorem recovery_releases_claims:
  "\<exists>rs'. snd (recover_stale_claims describe stamp (rewrite_outbox rs)) = rewrite_outbox rs' \<and>
     list_all2 (\<lambda>r r'. ox_status r' \<noteq> OxClaimed \<and> same_delivery r r' \<and>
         ox_attempt_count r' = ox_attempt_count r \<and>
         (ox_status r = OxClaimed \<and>
            ox_status r' = (if ox_idempotency_key r = None then OxDeadLettered else OxPending) \<or>
          r' = r)) rs rs' \<and>
     rc_requeued (fst (recover_stale_claims describe stamp (rewrite_outbox rs))) +
       rc_dead_lettered (fst (recover_stale_claims describe stamp (rewrite_outbox rs))) =
       length (filter (\<lambda>r. ox_status r = OxClaimed) rs)"
proof -
  let ?stale = "filter (\<lambda>r. ox_status r = OxClaimed) rs"
  have count: "length (filter (\<lambda>r. ox_idempotency_key r \<noteq> None) ?stale) +
      length (filter (\<lambda>r. ox_idempotency_key r = None) ?stale) = length ?stale"
    using recovered_count [of "\<lambda>r. ox_idempotency_key r \<noteq> None" ?stale] by simp
  have same: "map (recover_record describe stamp) rs = rs" if "?stale = []"
    using that by (intro map_idI) (auto simp: filter_empty_conv recover_record_def)
  have "snd (recover_stale_claims describe stamp (rewrite_outbox rs)) =
      rewrite_outbox (map (recover_record describe stamp) rs)"
  proof (cases "?stale = []")
    case True
    then show ?thesis by (simp add: recover_stale_claims_def Let_def same)
  next
    case False
    then have "0 < length (filter (\<lambda>r. ox_idempotency_key r \<noteq> None) ?stale) \<or>
        0 < length (filter (\<lambda>r. ox_idempotency_key r = None) ?stale)"
      using count by (metis add.right_neutral gr0I length_0_conv)
    then show ?thesis by (simp add: recover_stale_claims_def Let_def)
  qed
  moreover have "rc_requeued (fst (recover_stale_claims describe stamp (rewrite_outbox rs))) +
       rc_dead_lettered (fst (recover_stale_claims describe stamp (rewrite_outbox rs))) = length ?stale"
    using count by (simp add: recover_stale_claims_def Let_def)
  ultimately show ?thesis
    by (intro exI [of _ "map (recover_record describe stamp) rs"])
      (auto simp: list_all2_map2 recover_record_def same_delivery_def intro!: list_all2_refl
        split: option.splits)
qed

section \<open>Compaction\<close>

text \<open>Compaction drops succeeded records older than a week and nothing else, in the order of the file,
  and doing it again at the same instant changes nothing.\<close>

theorem compaction_keeps_the_rest:
  assumes "instant now = Some t"
  shows "let (report, ob') = compact_outbox instant now (rewrite_outbox rs) in
    ob' = rewrite_outbox (filter (\<lambda>r. \<not> outdated instant (t - 7 * 86400) r) rs) \<and>
    list_all (\<lambda>r. ox_status r = OxSucceeded) (filter (outdated instant (t - 7 * 86400)) rs) \<and>
    snd (compact_outbox instant now ob') = ob' \<and>
    (\<exists>m. report = Inr m \<and> cm_after m + cm_dropped_succeeded m = cm_before m \<and> cm_before m = length rs)"
proof -
  define kept where "kept = filter (\<lambda>r. \<not> outdated instant (t - 7 * 86400) r) rs"
  have len: "length kept \<le> length rs" by (simp add: kept_def)
  have all: "kept = rs" if "length rs - length kept = 0"
    using that len by (metis diff_is_0_eq filter_all_length filter_id_conv kept_def le_antisym list_all_iff)
  have one: "compact_outbox instant now (rewrite_outbox rs) =
      (Inr \<lparr>cm_before = length rs, cm_after = length kept, cm_dropped_succeeded = length rs - length kept\<rparr>,
       rewrite_outbox kept)"
    using assms all
    by (auto simp: compact_outbox_def cutoff_of_def rbind_def Let_def kept_def
        outbox_success_retention_days_def)
  have two: "snd (compact_outbox instant now (rewrite_outbox kept)) = rewrite_outbox kept"
    using assms
    by (simp add: compact_outbox_def cutoff_of_def rbind_def Let_def kept_def
        outbox_success_retention_days_def)
  show ?thesis
    using one two len by (auto simp: kept_def outdated_def list_all_iff)
qed

definition old_success :: outbox_record where
  "old_success = (new_outbox_record ''a'' ''old'' ''e'' ''r'' None)\<lparr>ox_status := OxSucceeded\<rparr>"

theorem compaction_keeps_the_rest_witness:
  "snd (compact_outbox (\<lambda>s. Some (if s = ''now'' then 1000000 else 0)) ''now''
     (rewrite_outbox [old_success, new_outbox_record ''b'' ''old'' ''e'' ''r'' None])) =
   rewrite_outbox [new_outbox_record ''b'' ''old'' ''e'' ''r'' None]"
  using compaction_keeps_the_rest [of "\<lambda>s. Some (if s = ''now'' then 1000000 else 0)" "''now''" 1000000
      "[old_success, new_outbox_record ''b'' ''old'' ''e'' ''r'' None]"]
  by (auto simp: outdated_def old_success_def new_outbox_record_def split: prod.splits)

end
