(* ===== verification/Events_Journal.thy ===== *)
theory Events_Journal
  imports Events_Outbox
begin

text \<open>
  The journal of events (\<open>src/src/system_events/store.rs\<close>): a file with one envelope per line, oldest
  first, an index of the events by id beside it, compaction by age and by number, and the chain of
  causes of an event. The index is a hash map, of which only lookups are used.
\<close>

section \<open>The journal and its index\<close>

record journal_store =
  jl_lines :: "journal_envelope file_line list"
  jl_index :: "system_event smap"

definition load_journal :: "journal_store \<Rightarrow> string + journal_envelope list" where
  "load_journal js = map_result file_row (jl_lines js)"

definition index_event :: "system_event \<Rightarrow> system_event smap \<Rightarrow> system_event smap" where
  "index_event ev idx = obj_insert idx (ev_id ev) ev"

definition index_of :: "journal_envelope list \<Rightarrow> system_event smap" where
  "index_of envs = foldl (\<lambda>idx env. index_event (je_event env) idx) [] envs"

text \<open>Opening a journal that cannot be read leaves the index empty.\<close>

definition open_journal :: "journal_envelope file_line list \<Rightarrow> journal_store" where
  "open_journal ls =
     \<lparr>jl_lines = ls,
      jl_index = (case map_result file_row ls of Inr envs \<Rightarrow> index_of envs | Inl _ \<Rightarrow> [])\<rparr>"

definition append_envelope :: "journal_envelope \<Rightarrow> journal_store \<Rightarrow> journal_store" where
  "append_envelope env js =
     \<lparr>jl_lines = jl_lines js @ [Row env], jl_index = index_event (je_event env) (jl_index js)\<rparr>"

section \<open>Compaction\<close>

definition event_retention_max :: nat where
  "event_retention_max = 10000"

definition event_retention_days :: int where
  "event_retention_days = 7"

record event_compaction_report =
  ec_before :: nat
  ec_after :: nat
  ec_dropped_by_age :: nat
  ec_dropped_by_count :: nat

text \<open>An event whose instant cannot be read is never too old.\<close>

definition recent :: "(string \<Rightarrow> int option) \<Rightarrow> int \<Rightarrow> journal_envelope \<Rightarrow> bool" where
  "recent instant cutoff env =
     (case instant (ev_occurred_at (je_event env)) of Some t \<Rightarrow> cutoff \<le> t | None \<Rightarrow> True)"

definition compact_journal ::
  "(string \<Rightarrow> int option) \<Rightarrow> string \<Rightarrow> journal_store \<Rightarrow>
     (string + event_compaction_report) \<times> journal_store" where
  "compact_journal instant now js =
     (case rbind (cutoff_of instant event_retention_days now)
             (\<lambda>cutoff. rbind (load_journal js) (\<lambda>envs. Inr (cutoff, envs))) of
        Inl e \<Rightarrow> (Inl e, js)
      | Inr (cutoff, envs) \<Rightarrow>
          let fresh = filter (recent instant cutoff) envs;
              by_age = length envs - length fresh;
              by_count = length fresh - event_retention_max;
              kept = drop by_count fresh
          in (Inr \<lparr>ec_before = length envs, ec_after = length kept, ec_dropped_by_age = by_age,
                   ec_dropped_by_count = by_count\<rparr>,
              if by_age = 0 \<and> by_count = 0 then js
              else \<lparr>jl_lines = map Row kept, jl_index = index_of kept\<rparr>))"

section \<open>Causes\<close>

definition chain_limit :: nat where
  "chain_limit = 4"

fun chain_from :: "nat \<Rightarrow> system_event smap \<Rightarrow> string \<Rightarrow> system_event list" where
  "chain_from 0 idx i = []"
| "chain_from (Suc n) idx i =
     (case obj_get idx i of
        None \<Rightarrow> []
      | Some ev \<Rightarrow>
          ev # (case ev_causation_id ev of Some c \<Rightarrow> chain_from n idx c | None \<Rightarrow> []))"

definition causation_chain :: "string \<Rightarrow> journal_store \<Rightarrow> system_event list" where
  "causation_chain i js = chain_from chain_limit (jl_index js) i"

section \<open>The index is that of the file\<close>

definition journal_ok :: "journal_store \<Rightarrow> bool" where
  "journal_ok js \<longleftrightarrow>
     (\<exists>envs. jl_lines js = map Row envs \<and>
        (\<forall>i. obj_get (jl_index js) i =
           map_option je_event (find (\<lambda>env. ev_id (je_event env) = i) (rev envs))))"

lemma load_rows [simp]: "map_result file_row (map Row xs) = Inr xs"
  by (induction xs) (simp_all add: rbind_def)

lemma obj_get_index: "obj_get (index_event ev idx) i = (if i = ev_id ev then Some ev else obj_get idx i)"
  by (simp add: index_event_def obj_get_insert)

lemma index_of_snoc: "index_of (envs @ [env]) = index_event (je_event env) (index_of envs)"
  by (simp add: index_of_def)

lemma obj_get_index_of:
  "obj_get (index_of envs) i = map_option je_event (find (\<lambda>env. ev_id (je_event env) = i) (rev envs))"
proof (induction envs rule: rev_induct)
  case Nil
  then show ?case by (simp add: index_of_def)
next
  case (snoc env envs)
  then show ?case by (simp add: index_of_snoc obj_get_index)
qed

lemma open_ok: "journal_ok (open_journal (map Row envs))"
  by (auto simp: journal_ok_def open_journal_def obj_get_index_of)

lemma append_ok:
  assumes "journal_ok js"
  shows "journal_ok (append_envelope env js)"
proof -
  obtain envs where "jl_lines js = map Row envs"
    "\<forall>i. obj_get (jl_index js) i =
       map_option je_event (find (\<lambda>env. ev_id (je_event env) = i) (rev envs))"
    using assms by (auto simp: journal_ok_def)
  then show ?thesis
    unfolding journal_ok_def append_envelope_def
    by (intro exI [of _ "envs @ [env]"]) (simp add: obj_get_index)
qed

lemma compact_ok:
  assumes "journal_ok js"
  shows "journal_ok (snd (compact_journal instant now js))"
proof -
  obtain envs where e: "jl_lines js = map Row envs" using assms by (auto simp: journal_ok_def)
  have "journal_ok \<lparr>jl_lines = map Row kept, jl_index = index_of kept\<rparr>" for kept
    by (auto simp: journal_ok_def obj_get_index_of)
  then show ?thesis
    using assms by (auto simp: compact_journal_def Let_def split: sum.splits prod.splits)
qed

text \<open>A compaction keeps the newest ten thousand of the events of the last week, in their order, with
  every event whose instant cannot be read counted among them, and the index of a journal that agrees
  with its file still does.\<close>

theorem journal_compaction:
  assumes "journal_ok js" "jl_lines js = map Row envs" "instant now = Some t"
  shows "let fresh = filter (recent instant (t - 7 * 86400)) envs;
             js' = snd (compact_journal instant now js)
         in journal_ok js' \<and> jl_lines js' = map Row (drop (length fresh - 10000) fresh) \<and>
            length (jl_lines js') \<le> 10000"
proof -
  define fresh where "fresh = filter (recent instant (t - 7 * 86400)) envs"
  have same: "fresh = envs" if "length envs \<le> length fresh"
    using that by (metis fresh_def filter_all_length filter_id_conv le_antisym length_filter_le list_all_iff)
  have "jl_lines (snd (compact_journal instant now js)) = map Row (drop (length fresh - 10000) fresh)"
    using assms(2,3) same
    by (auto simp: compact_journal_def load_journal_def cutoff_of_def rbind_def Let_def fresh_def
        event_retention_days_def event_retention_max_def)
  then show ?thesis
    using compact_ok [OF assms(1), of instant now] by (simp add: Let_def fresh_def)
qed

definition tick_event :: "string \<Rightarrow> string \<Rightarrow> string option \<Rightarrow> system_event" where
  "tick_event i t cause =
     \<lparr>ev_id = i, ev_kind = TaskStarted, ev_occurred_at = t, ev_producer = ''p'', ev_project = None,
      ev_principal = None, ev_subject = None, ev_correlation = [], ev_causation_id = cause,
      ev_payload = JNull\<rparr>"

theorem journal_compaction_witness:
  "jl_lines (snd (compact_journal (\<lambda>s. if s = ''now'' then Some 1000000 else if s = ''old'' then Some 0 else None)
      ''now'' (open_journal (map Row [wrap_event (tick_event ''a'' ''old'' None),
                                      wrap_event (tick_event ''b'' ''bad'' None)])))) =
   [Row (wrap_event (tick_event ''b'' ''bad'' None))]"
  using journal_compaction [OF open_ok [of "[wrap_event (tick_event ''a'' ''old'' None),
      wrap_event (tick_event ''b'' ''bad'' None)]"] _,
    of "[wrap_event (tick_event ''a'' ''old'' None), wrap_event (tick_event ''b'' ''bad'' None)]"
      "\<lambda>s. if s = ''now'' then Some 1000000 else if s = ''old'' then Some 0 else None" "''now''" 1000000]
  by (simp add: open_journal_def recent_def wrap_event_def tick_event_def Let_def)

section \<open>Depth\<close>

lemma chain_length: "length (chain_from n idx i) \<le> n"
proof (induction n arbitrary: i)
  case (Suc n)
  then show ?case by (auto split: option.splits)
qed simp

lemma chain_mono: "length (chain_from n idx i) < n \<Longrightarrow> chain_from (n + m) idx i = chain_from n idx i"
proof (induction n arbitrary: i)
  case (Suc n)
  then show ?case by (auto split: option.splits)
qed simp


lemma chain_skip:
  assumes "\<And>j x. obj_get idx j = Some x \<Longrightarrow> ev_causation_id x \<noteq> Some (ev_id ev)" "i \<noteq> ev_id ev"
  shows "chain_from n (index_event ev idx) i = chain_from n idx i"
  using assms(2)
proof (induction n arbitrary: i)
  case (Suc n)
  show ?case
  proof (cases "obj_get idx i")
    case (Some x)
    then have "c \<noteq> ev_id ev" if "ev_causation_id x = Some c" for c
      using assms(1) [OF Some] that by auto
    then show ?thesis using Suc Some by (auto simp: obj_get_index split: option.splits)
  qed (use Suc.prems in \<open>simp add: obj_get_index\<close>)
qed simp

text \<open>No chain of causes is longer than the limit, however long it is followed.\<close>

definition depth_ok :: "journal_store \<Rightarrow> bool" where
  "depth_ok js \<longleftrightarrow> (\<forall>n i. length (chain_from n (jl_index js) i) \<le> chain_limit)"

definition unused_id :: "string \<Rightarrow> journal_store \<Rightarrow> bool" where
  "unused_id i js \<longleftrightarrow>
     (\<forall>j x. obj_get (jl_index js) j = Some x \<longrightarrow> j \<noteq> i \<and> ev_causation_id x \<noteq> Some i)"

lemma depth_append:
  assumes "depth_ok js" "unused_id (ev_id (je_event env)) js"
    and "\<And>c. ev_causation_id (je_event env) = Some c \<Longrightarrow>
          c \<noteq> ev_id (je_event env) \<and> length (causation_chain c js) < chain_limit"
  shows "depth_ok (append_envelope env js)"
  unfolding depth_ok_def
proof (intro allI)
  fix n i
  let ?ev = "je_event env" and ?idx = "jl_index js"
  have skip: "chain_from k (index_event ?ev ?idx) j = chain_from k ?idx j" if "j \<noteq> ev_id ?ev" for k j
    by (rule chain_skip) (use assms(2) that in \<open>auto simp: unused_id_def\<close>)
  have short: "length (chain_from k ?idx c) < chain_limit"
    if "length (causation_chain c js) < chain_limit" for k c
  proof (cases "k < chain_limit")
    case True
    then show ?thesis using chain_length [of k ?idx c] by simp
  next
    case False
    then obtain m where "k = chain_limit + m" using le_Suc_ex by (meson not_less)
    then show ?thesis
      using that chain_mono [of chain_limit ?idx c m] by (simp add: causation_chain_def)
  qed
  show "length (chain_from n (jl_index (append_envelope env js)) i) \<le> chain_limit"
  proof (cases "i = ev_id ?ev")
    case False
    then show ?thesis using assms(1) skip by (simp add: append_envelope_def depth_ok_def)
  next
    case True
    show ?thesis
    proof (cases n)
      case (Suc k)
      have "length (chain_from k (index_event ?ev ?idx) c) < chain_limit"
        if "ev_causation_id ?ev = Some c" for c
        using assms(3) [OF that] skip short by simp
      then show ?thesis
        using True Suc
        by (auto simp: append_envelope_def obj_get_index chain_limit_def Suc_le_eq split: option.splits)
    qed simp
  qed
qed

end
