(* ===== verification/Events_Reactions.thy ===== *)
theory Events_Reactions
  imports Events_Journal Packet_Store
begin

text \<open>
  Reactions to events: their validation (\<open>src/src/system_events/reactions.rs\<close>), the packet that
  gates them, the rendering of their arguments and the dry run of one
  (\<open>src/src/system_events/gate.rs\<close>), and the redaction of secrets from what is written down
  (\<open>gate.rs\<close> and \<open>src/src/system_events/worker.rs\<close>).
\<close>

section \<open>Validation\<close>

datatype reaction_error =
    UnsupportedContract string
  | ReactionNameEmpty
  | ReactionNameSeparators
  | ReactionNameDots
  | NoEventKinds
  | NeedsIdempotencyKey string
  | NoAttempts
  | TooManyAttempts u32
  | SecretUnnamed
  | SecretSeparators string
  | SecretBadName string

definition validate_reaction_name :: "string \<Rightarrow> reaction_error + unit" where
  "validate_reaction_name name =
     (if name = [] then Inl ReactionNameEmpty
      else if CHR ''/'' \<in> set name \<or> CHR 0x5C \<in> set name then Inl ReactionNameSeparators
      else if name = ''.'' \<or> name = ''..'' then Inl ReactionNameDots
      else ok)"

text \<open>The name of a secret ends at white space, a comma, a closing brace or a quote.\<close>

fun secret_name :: "string \<Rightarrow> string \<times> string" where
  "secret_name [] = ([], [])"
| "secret_name (c # cs) =
     (if strip_any ws_seqs (c # cs) \<noteq> None \<or> c \<in> {CHR '','', CHR ''}'', CHR 0x22}
      then ([], c # cs)
      else (c # fst (secret_name cs), snd (secret_name cs)))"

definition secret_char :: "char \<Rightarrow> bool" where
  "secret_char c =
     (let n = (of_char c :: nat)
      in (65 \<le> n \<and> n \<le> 90) \<or> (97 \<le> n \<and> n \<le> 122) \<or> (48 \<le> n \<and> n \<le> 57) \<or>
         c \<in> {CHR ''_'', CHR ''.'', CHR ''-''})"

definition check_secret_name :: "string \<Rightarrow> reaction_error + unit" where
  "check_secret_name name =
     (if name = [] then Inl SecretUnnamed
      else if CHR ''/'' \<in> set name \<or> CHR 0x5C \<in> set name then Inl (SecretSeparators name)
      else if \<not> list_all secret_char name then Inl (SecretBadName name)
      else ok)"

definition secret_mark :: string where
  "secret_mark = ''secret:''"

lemma secret_name_length: "length (snd (secret_name s)) \<le> length s"
  by (induction s) auto

lemma secret_rest: "strip_prefix secret_mark (c # cs) = Some r \<Longrightarrow> length r < Suc (length cs)"
  by (drule arg_cong [where f = "map_option length"])
    (auto simp: secret_mark_def split: if_splits dest!: strip_prefix_Some [THEN iffD1])

function validate_secret_refs :: "string \<Rightarrow> reaction_error + unit" where
  "validate_secret_refs [] = ok"
| "validate_secret_refs (c # cs) =
     (case strip_prefix secret_mark (c # cs) of
        None \<Rightarrow> validate_secret_refs cs
      | Some rest \<Rightarrow>
          rbind (check_secret_name (fst (secret_name rest))) (\<lambda>_.
            validate_secret_refs (snd (secret_name rest))))"
  by pat_completeness auto
termination validate_secret_refs
  by (relation "measure length") (auto dest!: secret_rest intro: le_less_trans [OF secret_name_length]
      simp del: strip_prefix.simps)

function validate_secret_ref_in_value :: "json \<Rightarrow> reaction_error + unit" where
  "validate_secret_ref_in_value JNull = ok"
| "validate_secret_ref_in_value (JBool b) = ok"
| "validate_secret_ref_in_value (JNum n) = ok"
| "validate_secret_ref_in_value (JStr s) = validate_secret_refs s"
| "validate_secret_ref_in_value (JArr vs) = check_all validate_secret_ref_in_value vs"
| "validate_secret_ref_in_value (JObj m) = check_all (\<lambda>p. validate_secret_ref_in_value (snd p)) m"
  by pat_completeness auto
termination validate_secret_ref_in_value
proof (relation "measure size")
  fix vs :: "json list" and v
  assume "v \<in> set vs"
  then show "(v, JArr vs) \<in> measure size" by (simp add: size_elem_mem)
next
  fix m :: jmap and p
  assume "p \<in> set m"
  then show "(snd p, JObj m) \<in> measure size" using size_snd_mem by fastforce
qed simp

definition validate_reaction_spec :: "reaction_spec \<Rightarrow> reaction_error + unit" where
  "validate_reaction_spec spec =
     rbind (guard_err (rs_contract spec \<noteq> ''reaction/v1'') (UnsupportedContract (rs_contract spec))) (\<lambda>_.
     rbind (validate_reaction_name (rs_name spec)) (\<lambda>_.
     rbind (guard_err (rs_event_kinds spec = []) NoEventKinds) (\<lambda>_.
     rbind (guard_err (requires_idempotency_key (rs_action spec) \<and> rs_idempotency_key spec = None)
             (NeedsIdempotencyKey (op_name (rs_action spec)))) (\<lambda>_.
     rbind (guard_err (rp_max_attempts (rs_retry spec) = 0) NoAttempts) (\<lambda>_.
     rbind (guard_err (20 < rp_max_attempts (rs_retry spec))
             (TooManyAttempts (rp_max_attempts (rs_retry spec)))) (\<lambda>_.
     validate_secret_ref_in_value (action_args (rs_action spec))))))))"

section \<open>The gate\<close>

record gate_decision =
  gd_allowed :: bool
  gd_verdict :: "string option"
  gd_packet_id :: "string option"
  gd_warning :: "string option"

definition event_packet_entity :: "system_event \<Rightarrow> json" where
  "event_packet_entity ev =
     JObj ([(''kind'', JStr (to_wire (ev_kind ev))), (''producer'', JStr (ev_producer ev))] @
       opt_field ''project'' (map_option JStr (ev_project ev)) @
       opt_field ''principal'' (map_option principal_json (ev_principal ev)) @
       opt_field ''subject'' (map_option subject_json (ev_subject ev)) @
       (if ev_correlation ev = [] then [] else [(''correlation'', JObj (ev_correlation ev))]) @
       (if ev_payload ev = JNull then [] else [(''payload'', ev_payload ev)]))"

definition reaction_allow_verdict :: "string \<Rightarrow> bool" where
  "reaction_allow_verdict v =
     (v \<in> set [''allow'', ''pass'', ''proceed'', ''fire'', ''ok'', ''delete'', ''keep'', ''yes'', ''true''])"

definition reaction_gate_allows ::
  "packet_lib \<Rightarrow> store \<Rightarrow> reaction_spec \<Rightarrow> system_event \<Rightarrow> (string \<times> store_error) + gate_decision" where
  "reaction_gate_allows lib st spec ev =
     (case rs_when spec of
        None \<Rightarrow>
          Inr \<lparr>gd_allowed = True, gd_verdict = None, gd_packet_id = None,
               gd_warning = Some ''no when clause; reaction fires unconditionally''\<rparr>
      | Some packet_ref \<Rightarrow>
          rbind (map_err (Pair packet_ref) (load st packet_ref)) (\<lambda>pk.
            Inr (case apply_with (store_env lib st) pk (event_packet_entity ev) of
                   Some p \<Rightarrow>
                     \<lparr>gd_allowed = reaction_allow_verdict (pr_classification p),
                      gd_verdict = Some (pr_classification p), gd_packet_id = Some packet_ref,
                      gd_warning = None\<rparr>
                 | None \<Rightarrow>
                     \<lparr>gd_allowed = False, gd_verdict = None, gd_packet_id = Some packet_ref,
                      gd_warning = Some ''no rule matched in gate packet''\<rparr>)))"

section \<open>Rendering\<close>

function render_json_value :: "wf_lib \<Rightarrow> jmap \<Rightarrow> json \<Rightarrow> string + json" where
  "render_json_value lib roots JNull = Inr JNull"
| "render_json_value lib roots (JBool b) = Inr (JBool b)"
| "render_json_value lib roots (JNum n) = Inr (JNum n)"
| "render_json_value lib roots (JStr s) =
     rbind (render_template_with_roots lib roots HardError s) (\<lambda>t. Inr (JStr t))"
| "render_json_value lib roots (JArr vs) =
     rbind (map_result (render_json_value lib roots) vs) (\<lambda>ws. Inr (JArr ws))"
| "render_json_value lib roots (JObj m) =
     rbind (map_result (\<lambda>p. rbind (render_json_value lib roots (snd p)) (\<lambda>v. Inr (fst p, v))) m)
       (\<lambda>kvs. Inr (JObj kvs))"
  by pat_completeness auto
termination render_json_value
proof (relation "measure (\<lambda>(_, _, v). size v)")
  fix lib :: wf_lib and roots m :: jmap and p
  assume "p \<in> set m"
  then show "((lib, roots, snd p), lib, roots, JObj m) \<in> measure (\<lambda>(_, _, v). size v)"
    using size_snd_mem by fastforce
next
  fix lib :: wf_lib and roots :: jmap and vs :: "json list" and v
  assume "v \<in> set vs"
  then show "((lib, roots, v), lib, roots, JArr vs) \<in> measure (\<lambda>(_, _, v). size v)"
    by (simp add: size_elem_mem)
qed simp

definition render_key :: "wf_lib \<Rightarrow> reaction_spec \<Rightarrow> system_event \<Rightarrow> string + string option" where
  "render_key lib spec ev =
     (case rs_idempotency_key spec of
        None \<Rightarrow> Inr None
      | Some t \<Rightarrow>
          rbind (render_template_with_roots lib (build_event_roots ev) HardError t) (\<lambda>k. Inr (Some k)))"

section \<open>Redaction\<close>

definition ascii_lower :: "char \<Rightarrow> char" where
  "ascii_lower c =
     (let n = (of_char c :: nat) in if 65 \<le> n \<and> n \<le> 90 then char_of (n + 32) else c)"

definition redacted_text :: string where
  "redacted_text = ''[REDACTED]''"

function redact_values :: "json \<Rightarrow> json" where
  "redact_values JNull = JNull"
| "redact_values (JBool b) = JBool b"
| "redact_values (JNum n) = JNum n"
| "redact_values (JStr s) = (if contains_str s secret_mark then JStr redacted_text else JStr s)"
| "redact_values (JArr vs) = JArr (map redact_values vs)"
| "redact_values (JObj m) =
     JObj (map (\<lambda>p. (fst p, if map ascii_lower (fst p) = ''authorization'' then JStr redacted_text
                            else redact_values (snd p))) m)"
  by pat_completeness auto
termination redact_values
proof (relation "measure size")
  fix vs :: "json list" and v
  assume "v \<in> set vs"
  then show "(v, JArr vs) \<in> measure size" by (simp add: size_elem_mem)
next
  fix m :: jmap and p
  assume "p \<in> set m"
  then show "(snd p, JObj m) \<in> measure size" using size_snd_mem by fastforce
qed simp

text \<open>The redaction of a text goes from byte to byte and looks at the rest of the text from each: it panics when
  the byte is inside a character.\<close>

definition ascii_space :: "char \<Rightarrow> bool" where
  "ascii_space c = (c \<in> {CHR '' '', CHR 0x09, CHR 0x0A, CHR 0x0C, CHR 0x0D})"

definition token_end :: "char \<Rightarrow> bool" where
  "token_end c = (ascii_space c \<or> c = CHR 0x22 \<or> c = CHR 0x27)"

definition skip_token :: "string \<Rightarrow> string" where
  "skip_token s = dropWhile (\<lambda>c. \<not> token_end c) s"

definition inside_char :: "char \<Rightarrow> bool" where
  "inside_char c = (let n = (of_char c :: nat) in 128 \<le> n \<and> n < 192)"

definition bearer_mark :: string where
  "bearer_mark = ''Bearer ''"

lemma skip_token_length: "length (skip_token s) \<le> length s"
  by (simp add: skip_token_def length_dropWhile_le)

lemma bearer_rest: "strip_prefix bearer_mark (c # cs) = Some r \<Longrightarrow> length r < Suc (length cs)"
  by (drule arg_cong [where f = "map_option length"])
    (auto simp: bearer_mark_def split: if_splits dest!: strip_prefix_Some [THEN iffD1])

function redact_string :: "string \<Rightarrow> string option" where
  "redact_string [] = Some []"
| "redact_string (c # cs) =
     (if inside_char c then None
      else case strip_prefix secret_mark (c # cs) of
        Some r \<Rightarrow> map_option ((@) redacted_text) (redact_string (skip_token r))
      | None \<Rightarrow>
          (case strip_prefix bearer_mark (c # cs) of
             Some r \<Rightarrow>
               map_option ((@) (bearer_mark @ (if skip_token r = r then [] else redacted_text)))
                 (redact_string (skip_token r))
           | None \<Rightarrow> map_option ((@) (push_byte c)) (redact_string cs)))"
  by pat_completeness auto
termination redact_string
  by (relation "measure length") (auto dest!: secret_rest bearer_rest
      intro: le_less_trans [OF skip_token_length] simp del: strip_prefix.simps)

section \<open>The dry run\<close>

record dry_run_result =
  dr_rendered_key :: "string option"
  dr_packet_entity :: json
  dr_gate :: gate_decision
  dr_rendered_args :: json
  dr_suppressed :: bool

datatype dry_run_error = DryKey string | DryGate string store_error | DryArgs string

definition delivered :: "string \<Rightarrow> string \<Rightarrow> outbox_record \<Rightarrow> bool" where
  "delivered name key r =
     (ox_reaction_name r = name \<and> ox_idempotency_key r = Some key \<and> ox_status r = OxSucceeded)"

definition dry_run_replay ::
  "wf_lib \<Rightarrow> packet_lib \<Rightarrow> store \<Rightarrow> reaction_spec \<Rightarrow> system_event \<Rightarrow> outbox_record list \<Rightarrow>
     dry_run_error + dry_run_result" where
  "dry_run_replay lib plib st spec ev records =
     rbind (map_err DryKey (render_key lib spec ev)) (\<lambda>key.
     rbind (map_err (\<lambda>e. DryGate (fst e) (snd e)) (reaction_gate_allows plib st spec ev)) (\<lambda>gate.
     rbind (map_err DryArgs
             (render_json_value lib (build_event_roots ev) (action_args (rs_action spec)))) (\<lambda>args.
     Inr \<lparr>dr_rendered_key = key, dr_packet_entity = event_packet_entity ev, dr_gate = gate,
          dr_rendered_args = redact_values args,
          dr_suppressed = (case key of Some k \<Rightarrow> list_ex (delivered (rs_name spec) k) records
                                     | None \<Rightarrow> False)\<rparr>)))"

end
