(* ===== verification/Events_Hub.thy ===== *)
theory Events_Hub
  imports Events_Reactions
begin

text \<open>
  The hub (\<open>src/src/system_events/hub.rs\<close>) joins the journal, the outbox and the installed
  reactions: emitting an event checks the depth of its causes, writes it down, enqueues one record for
  each reaction that listens to its kind and hands it to the subscribers. Ids and instants come from
  sources that are read once per use; \<open>hb_drawn\<close> counts the uses.
\<close>

section \<open>The hub\<close>

record event_lib =
  el_wf :: wf_lib
  el_packets :: packet_lib
  el_instant :: "string \<Rightarrow> int option"
  el_uuid :: "nat \<Rightarrow> string"
  el_now :: "nat \<Rightarrow> string"
  el_later :: "nat \<Rightarrow> nat \<Rightarrow> string"

text \<open>A file of the reactions directory: its path, and the specification in it or why it is none.\<close>

type_synonym reaction_file = "string \<times> (string + reaction_spec)"

record hub =
  hb_journal :: journal_store
  hb_outbox :: outbox
  hb_reactions :: "reaction_spec smap"
  hb_dir :: "reaction_file list"
  hb_sent :: "system_event list"
  hb_drawn :: nat

definition draw :: "hub \<Rightarrow> hub" where
  "draw h = h\<lparr>hb_drawn := Suc (hb_drawn h)\<rparr>"

definition new_event_id :: "event_lib \<Rightarrow> hub \<Rightarrow> string" where
  "new_event_id lib h = ''evt-'' @ el_uuid lib (hb_drawn h)"

definition new_outbox_id :: "event_lib \<Rightarrow> hub \<Rightarrow> string" where
  "new_outbox_id lib h = ''outbox-'' @ el_uuid lib (hb_drawn h)"

definition now_iso :: "event_lib \<Rightarrow> hub \<Rightarrow> string" where
  "now_iso lib h = el_now lib (hb_drawn h)"

record event_draft =
  ed_kind :: event_kind
  ed_producer :: string
  ed_project :: "string option"
  ed_principal :: "event_principal option"
  ed_subject :: "event_subject option"
  ed_correlation :: jmap
  ed_causation_id :: "string option"
  ed_payload :: json

datatype hub_error =
    CausationDepth nat string
  | KeyRenderFailed string string
  | ReactionRejected reaction_error
  | ReactionExists string
  | StoreUnreadable string

record emit_outcome =
  eo_event :: system_event
  eo_journal_appended :: bool
  eo_outbox_enqueued :: bool
  eo_outbox_error :: "hub_error option"
  eo_matched_reactions :: nat

section \<open>Emitting\<close>

definition max_causation_depth :: nat where
  "max_causation_depth = 4"

definition check_depth :: "string option \<Rightarrow> hub \<Rightarrow> hub_error + unit" where
  "check_depth cause h =
     (case cause of
        None \<Rightarrow> ok
      | Some c \<Rightarrow>
          let n = length (causation_chain c (hb_journal h))
          in guard_err (max_causation_depth \<le> n) (CausationDepth (n + 1) c))"

definition event_of_draft :: "event_lib \<Rightarrow> hub \<Rightarrow> event_draft \<Rightarrow> system_event" where
  "event_of_draft lib h d =
     \<lparr>ev_id = new_event_id lib h, ev_kind = ed_kind d, ev_occurred_at = now_iso lib h,
      ev_producer = ed_producer d, ev_project = ed_project d, ev_principal = ed_principal d,
      ev_subject = ed_subject d, ev_correlation = ed_correlation d,
      ev_causation_id = ed_causation_id d, ev_payload = ed_payload d\<rparr>"

definition journal_event :: "system_event \<Rightarrow> hub \<Rightarrow> hub" where
  "journal_event ev h = draw (h\<lparr>hb_journal := append_envelope (wrap_event ev) (hb_journal h)\<rparr>)"

definition listens :: "system_event \<Rightarrow> reaction_spec \<Rightarrow> bool" where
  "listens ev r = (rs_enabled r \<and> to_wire (ev_kind ev) \<in> set (rs_event_kinds r))"

definition matched_reactions :: "system_event \<Rightarrow> hub \<Rightarrow> reaction_spec list" where
  "matched_reactions ev h =
     sort_by (\<lambda>a b. rs_name a \<le> rs_name b) (filter (listens ev) (map snd (hb_reactions h)))"

definition enqueue :: "event_lib \<Rightarrow> system_event \<Rightarrow> string \<Rightarrow> string option \<Rightarrow> hub \<Rightarrow> outbox_record \<times> hub" where
  "enqueue lib ev name key h =
     (let (r, ob) = create_record (new_outbox_id lib h) (now_iso lib h) (ev_id ev) name key (hb_outbox h)
      in (r, draw (h\<lparr>hb_outbox := ob\<rparr>)))"

text \<open>The first key that cannot be rendered ends the loop.\<close>

fun enqueue_all ::
  "event_lib \<Rightarrow> system_event \<Rightarrow> reaction_spec list \<Rightarrow> hub \<Rightarrow> hub_error option \<times> hub" where
  "enqueue_all lib ev [] h = (None, h)"
| "enqueue_all lib ev (r # rs) h =
     (case render_key (el_wf lib) r ev of
        Inl e \<Rightarrow> (Some (KeyRenderFailed (rs_name r) e), h)
      | Inr key \<Rightarrow> enqueue_all lib ev rs (snd (enqueue lib ev (rs_name r) key h)))"

definition emit_event :: "event_lib \<Rightarrow> event_draft \<Rightarrow> hub \<Rightarrow> (hub_error + emit_outcome) \<times> hub" where
  "emit_event lib d h =
     (case check_depth (ed_causation_id d) h of
        Inl e \<Rightarrow> (Inl e, h)
      | Inr _ \<Rightarrow>
          let ev = event_of_draft lib h d;
              h1 = journal_event ev h;
              rs = matched_reactions ev h1;
              queued = enqueue_all lib ev rs h1
          in (Inr \<lparr>eo_event = ev, eo_journal_appended = True, eo_outbox_enqueued = (fst queued = None),
                   eo_outbox_error = fst queued, eo_matched_reactions = length rs\<rparr>,
              (snd queued)\<lparr>hb_sent := hb_sent (snd queued) @ [ev]\<rparr>))"

section \<open>Reactions\<close>

definition reaction_path :: "string \<Rightarrow> string" where
  "reaction_path name = name @ ''.json''"

definition write_file :: "string \<Rightarrow> 'a \<Rightarrow> (string \<times> 'a) list \<Rightarrow> (string \<times> 'a) list" where
  "write_file path x files = obj_insert files path x"

definition install_reaction :: "reaction_spec \<Rightarrow> bool \<Rightarrow> hub \<Rightarrow> (hub_error + unit) \<times> hub" where
  "install_reaction spec replace h =
     (case validate_reaction_spec spec of
        Inl e \<Rightarrow> (Inl (ReactionRejected e), h)
      | Inr _ \<Rightarrow>
          if obj_has (hb_reactions h) (rs_name spec) \<and> \<not> replace
          then (Inl (ReactionExists (rs_name spec)), h)
          else (Inr (), h\<lparr>hb_dir := write_file (reaction_path (rs_name spec)) (Inr spec) (hb_dir h),
                          hb_reactions := obj_insert (hb_reactions h) (rs_name spec) spec\<rparr>))"

definition get_reaction :: "string \<Rightarrow> hub \<Rightarrow> reaction_spec option" where
  "get_reaction name h = obj_get (hb_reactions h) name"

datatype load_warning = ValidationFailed string reaction_error | ParseFailed string string

definition file_warning :: "reaction_file \<Rightarrow> load_warning option" where
  "file_warning f =
     (case snd f of
        Inl e \<Rightarrow> Some (ParseFailed (fst f) e)
      | Inr spec \<Rightarrow>
          (case validate_reaction_spec spec of
             Inl e \<Rightarrow> Some (ValidationFailed (reaction_path (rs_name spec)) e)
           | Inr _ \<Rightarrow> None))"

text \<open>A name that starts with its only dot has no extension.\<close>

definition json_name :: "string \<Rightarrow> bool" where
  "json_name name = (ends_with name ''.json'' \<and> name \<noteq> ''.json'')"

definition json_files :: "reaction_file list \<Rightarrow> reaction_file list" where
  "json_files files = filter (\<lambda>f. json_name (fst f)) files"

definition restore_reaction :: "reaction_spec smap \<Rightarrow> reaction_file \<Rightarrow> reaction_spec smap" where
  "restore_reaction m f =
     (case snd f of
        Inl _ \<Rightarrow> m
      | Inr spec \<Rightarrow>
          (case validate_reaction_spec spec of
             Inl _ \<Rightarrow> m
           | Inr _ \<Rightarrow> obj_insert m (rs_name spec) spec))"

definition scan_reaction_warnings :: "hub \<Rightarrow> load_warning list" where
  "scan_reaction_warnings h = List.map_filter file_warning (json_files (hb_dir h))"

definition restore_reactions_from_disk :: "hub \<Rightarrow> load_warning list \<times> hub" where
  "restore_reactions_from_disk h =
     (scan_reaction_warnings h,
      h\<lparr>hb_reactions := foldl restore_reaction (hb_reactions h) (json_files (hb_dir h))\<rparr>)"

definition list_reactions :: "hub \<Rightarrow> reaction_spec list" where
  "list_reactions h = sort_by (\<lambda>a b. rs_name a \<le> rs_name b) (map snd (hb_reactions h))"

section \<open>Reading\<close>

definition journal_events :: "hub \<Rightarrow> string + system_event list" where
  "journal_events h = rbind (load_journal (hb_journal h)) (\<lambda>envs. Inr (map je_event envs))"

record event_filter =
  ef_limit :: "nat option"
  ef_kind :: "string option"
  ef_producer :: "string option"
  ef_project :: "string option"

definition event_wanted :: "event_filter \<Rightarrow> system_event \<Rightarrow> bool" where
  "event_wanted q ev =
     ((case ef_kind q of Some k \<Rightarrow> to_wire (ev_kind ev) = k | None \<Rightarrow> True) \<and>
      (case ef_producer q of Some p \<Rightarrow> ev_producer ev = p | None \<Rightarrow> True) \<and>
      (case ef_project q of Some p \<Rightarrow> ev_project ev = Some p | None \<Rightarrow> True))"

definition list_system_events :: "event_filter \<Rightarrow> hub \<Rightarrow> string + system_event list" where
  "list_system_events q h =
     rbind (journal_events h) (\<lambda>evs.
       let found = rev (filter (event_wanted q) evs)
       in Inr (case ef_limit q of Some n \<Rightarrow> take n found | None \<Rightarrow> found))"

definition open_event :: "string \<Rightarrow> hub \<Rightarrow> string + system_event option" where
  "open_event i h = rbind (journal_events h) (\<lambda>evs. Inr (find (\<lambda>ev. ev_id ev = i) evs))"

definition causation_chain_for :: "string \<Rightarrow> hub \<Rightarrow> system_event list" where
  "causation_chain_for i h = causation_chain i (hb_journal h)"

definition derived_events :: "string \<Rightarrow> hub \<Rightarrow> string + system_event list" where
  "derived_events i h =
     rbind (journal_events h) (\<lambda>evs. Inr (filter (\<lambda>ev. ev_causation_id ev = Some i) evs))"

record hub_compaction_report =
  hc_now :: string
  hc_journal :: event_compaction_report
  hc_outbox :: compaction_report

text \<open>When the outbox cannot be read the journal has been compacted already.\<close>

definition compact_hub :: "event_lib \<Rightarrow> string \<Rightarrow> hub \<Rightarrow> (string + hub_compaction_report) \<times> hub" where
  "compact_hub lib now h =
     (case compact_journal (el_instant lib) now (hb_journal h) of
        (Inl e, js) \<Rightarrow> (Inl e, h\<lparr>hb_journal := js\<rparr>)
      | (Inr r1, js) \<Rightarrow>
          (case compact_outbox (el_instant lib) now (hb_outbox h) of
             (Inl e, ob) \<Rightarrow> (Inl e, h\<lparr>hb_journal := js, hb_outbox := ob\<rparr>)
           | (Inr r2, ob) \<Rightarrow>
               (Inr \<lparr>hc_now = now, hc_journal = r1, hc_outbox = r2\<rparr>,
                h\<lparr>hb_journal := js, hb_outbox := ob\<rparr>)))"

section \<open>What an emission adds\<close>

lemma draw_simps [simp]:
  "hb_journal (draw h) = hb_journal h" "hb_outbox (draw h) = hb_outbox h"
  "hb_reactions (draw h) = hb_reactions h" "hb_dir (draw h) = hb_dir h" "hb_sent (draw h) = hb_sent h"
  "hb_drawn (draw h) = Suc (hb_drawn h)"
  by (simp_all add: draw_def)

lemma journal_event_simps [simp]:
  "hb_journal (journal_event ev h) = append_envelope (wrap_event ev) (hb_journal h)"
  "hb_outbox (journal_event ev h) = hb_outbox h" "hb_reactions (journal_event ev h) = hb_reactions h"
  "hb_sent (journal_event ev h) = hb_sent h" "hb_drawn (journal_event ev h) = Suc (hb_drawn h)"
  by (simp_all add: journal_event_def)

lemma enqueue_simps [simp]:
  "hb_journal (snd (enqueue lib ev n k h)) = hb_journal h"
  "hb_reactions (snd (enqueue lib ev n k h)) = hb_reactions h"
  "hb_sent (snd (enqueue lib ev n k h)) = hb_sent h"
  "hb_drawn (snd (enqueue lib ev n k h)) = Suc (hb_drawn h)"
  "hb_outbox (snd (enqueue lib ev n k h)) = hb_outbox h @
     [Row (new_outbox_record (new_outbox_id lib h) (now_iso lib h) (ev_id ev) n k)]"
  by (simp_all add: enqueue_def create_record_def append_record_def Let_def)

lemma enqueue_all_frame [simp]:
  "hb_journal (snd (enqueue_all lib ev rs h)) = hb_journal h"
  "hb_reactions (snd (enqueue_all lib ev rs h)) = hb_reactions h"
  "hb_sent (snd (enqueue_all lib ev rs h)) = hb_sent h"
  by (induction rs arbitrary: h) (auto split: sum.splits)

text \<open>The reactions before the first whose key cannot be rendered.\<close>

fun renderable :: "wf_lib \<Rightarrow> system_event \<Rightarrow> reaction_spec list \<Rightarrow> (reaction_spec \<times> string option) list" where
  "renderable lib ev [] = []"
| "renderable lib ev (r # rs) =
     (case render_key lib r ev of Inl _ \<Rightarrow> [] | Inr k \<Rightarrow> (r, k) # renderable lib ev rs)"

definition is_delivery :: "system_event \<Rightarrow> reaction_spec \<times> string option \<Rightarrow> outbox_record \<Rightarrow> bool" where
  "is_delivery ev p r =
     (ox_event_id r = ev_id ev \<and> ox_reaction_name r = rs_name (fst p) \<and>
      ox_idempotency_key r = snd p \<and> ox_status r = OxPending \<and> ox_attempt_count r = 0)"

lemma enqueue_all_rows:
  "\<exists>new. hb_outbox (snd (enqueue_all lib ev rs h)) = hb_outbox h @ map Row new \<and>
     list_all2 (is_delivery ev) (renderable (el_wf lib) ev rs) new"
proof (induction rs arbitrary: h)
  case (Cons r rs)
  show ?case
  proof (cases "render_key (el_wf lib) r ev")
    case (Inr k)
    let ?h = "snd (enqueue lib ev (rs_name r) k h)"
    obtain new where "hb_outbox (snd (enqueue_all lib ev rs ?h)) = hb_outbox ?h @ map Row new"
      "list_all2 (is_delivery ev) (renderable (el_wf lib) ev rs) new"
      using Cons.IH by blast
    then show ?thesis
      using Inr
      by (intro exI [of _ "new_outbox_record (new_outbox_id lib h) (now_iso lib h) (ev_id ev) (rs_name r) k # new"])
        (simp, simp add: is_delivery_def new_outbox_record_def)
  qed simp
qed simp

lemma enqueue_all_ok:
  "fst (enqueue_all lib ev rs h) = None \<longleftrightarrow> map fst (renderable (el_wf lib) ev rs) = rs"
  by (induction rs arbitrary: h) (auto split: sum.splits)


section \<open>Causes stay shallow\<close>

text \<open>Property C21. No chain of causes in the journal gets longer than four events, as long as fresh ids are fresh: an
  emission adds no longer one, and refuses, without a trace, exactly the drafts whose cause is the
  fourth of its chain.\<close>

theorem causes_stay_shallow:
  assumes "depth_ok (hb_journal h)" "unused_id (new_event_id lib h) (hb_journal h)"
    and "ed_causation_id d \<noteq> Some (new_event_id lib h)"
  shows "depth_ok (hb_journal (snd (emit_event lib d h))) \<and>
    (case fst (emit_event lib d h) of
       Inr _ \<Rightarrow> (case ed_causation_id d of
                   Some c \<Rightarrow> length (causation_chain c (hb_journal h)) < 4 | None \<Rightarrow> True)
     | Inl e \<Rightarrow> snd (emit_event lib d h) = h \<and>
         (\<exists>c. ed_causation_id d = Some c \<and> e = CausationDepth 5 c \<and>
            length (causation_chain c (hb_journal h)) = 4))"
proof (cases "check_depth (ed_causation_id d) h")
  case (Inl e)
  then show ?thesis
    using assms(1) chain_length [of chain_limit "jl_index (hb_journal h)"]
    by (auto simp: emit_event_def check_depth_def Let_def guard_err_eq max_causation_depth_def
        causation_chain_def chain_limit_def le_antisym ok_def split: option.splits if_splits)
next
  case (Inr u)
  then have short: "length (causation_chain c (hb_journal h)) < chain_limit"
    if "ed_causation_id d = Some c" for c
    using that
    by (auto simp: check_depth_def Let_def guard_err_eq max_causation_depth_def chain_limit_def not_le)
  define ev where "ev = event_of_draft lib h d"
  have "depth_ok (append_envelope (wrap_event ev) (hb_journal h))"
    by (rule depth_append)
      (use assms short in \<open>auto simp: ev_def event_of_draft_def wrap_event_def\<close>)
  moreover have "hb_journal (snd (emit_event lib d h)) = append_envelope (wrap_event ev) (hb_journal h)"
    using Inr by (simp add: emit_event_def Let_def ev_def [symmetric])
  ultimately show ?thesis
    using Inr short
    by (auto simp: emit_event_def Let_def chain_limit_def split: option.splits)
qed

end
