(* ===== verification/Events_Worker.thy ===== *)
theory Events_Worker
  imports Events_Hub Workflow_Compile Workflow_Ops
begin

text \<open>
  The worker of the outbox (\<open>src/src/system_events/worker.rs\<close>) and the actions it runs
  (\<open>src/src/system_events/executors.rs\<close>). A tick claims one record, decides whether its reaction may
  run, runs it and settles the record. What the network, the tools, the atoms and the workflows of
  the daemon do is a record of functions over a world. A panic of the worker is a result of its own.
\<close>

section \<open>The world\<close>

record mcp_request =
  mq_server :: string
  mq_tool :: string
  mq_arguments :: jmap
  mq_timeout_secs :: nat
  mq_project_dir :: "string option"
  mq_cwd :: "string option"

record atom_request =
  aq_atom :: string
  aq_args :: json
  aq_project_dir :: "string option"
  aq_owner :: string

record http_reply =
  hr_status :: nat
  hr_kind :: string
  hr_value :: json

record 's event_world =
  xw_packets :: "'s \<Rightarrow> store"
  xw_note :: "string \<Rightarrow> string option \<Rightarrow> 's \<Rightarrow> 's"
  xw_http_spec :: "json \<Rightarrow> string + nat list"
  xw_http :: "json \<Rightarrow> 's \<Rightarrow> (string + http_reply) \<times> 's"
  xw_mcp :: "mcp_request \<Rightarrow> 's \<Rightarrow> (string + json) \<times> 's"
  xw_is_builtin :: "string \<Rightarrow> bool"
  xw_builtin :: "json \<Rightarrow> system_event \<Rightarrow> 's \<Rightarrow> action_outcome \<times> 's"
  xw_atom :: "atom_request \<Rightarrow> 's \<Rightarrow> (string + json) \<times> 's"
  xw_fresh :: "'s \<Rightarrow> string \<times> 's"
  xw_workflow :: "string \<Rightarrow> 's \<Rightarrow> workflow option"
  xw_spawn :: "workflow \<Rightarrow> string option \<Rightarrow> jmap \<Rightarrow> string \<Rightarrow> 's \<Rightarrow> 's"
  xw_store_text :: "store_error \<Rightarrow> string"
  xw_wf_text :: "wf_error \<Rightarrow> string"

type_synonym 's bus = "hub \<times> 's"

section \<open>Texts\<close>

definition summary_cap :: nat where
  "summary_cap = 4096"

fun char_boundary :: "string \<Rightarrow> nat \<Rightarrow> nat" where
  "char_boundary s 0 = 0"
| "char_boundary s (Suc n) =
     (if Suc n < length s \<and> inside_char (s ! Suc n) then char_boundary s n else Suc n)"

definition truncate_str :: "string \<Rightarrow> nat \<Rightarrow> string" where
  "truncate_str s max' =
     (if length s \<le> max' then s else take (char_boundary s max') s @ ''...[truncated]'')"

definition truncate_json :: "wf_lib \<Rightarrow> json \<Rightarrow> nat \<Rightarrow> json" where
  "truncate_json lib v max' = JStr (truncate_str (wl_show lib v) max')"

definition cap_mcp_timeout :: "nat option \<Rightarrow> nat" where
  "cap_mcp_timeout requested = min (case requested of Some n \<Rightarrow> n | None \<Rightarrow> 300) 600"

lemma strip_any_length: "strip_any ps s = Some r \<Longrightarrow> [] \<notin> set ps \<Longrightarrow> length r < length s"
  by (induction ps) (auto simp: strip_prefix_Some split: option.splits)

lemma ws_nonempty: "[] \<notin> set ws_seqs"
  by (simp add: ws_seqs_def)

text \<open>The words of a text, the first argument being the reversed beginning of the current one.\<close>

function words_of :: "string \<Rightarrow> string \<Rightarrow> string list" where
  "words_of cur [] = (if cur = [] then [] else [rev cur])"
| "words_of cur (c # cs) =
     (case strip_any ws_seqs (c # cs) of
        Some r \<Rightarrow> (if cur = [] then [] else [rev cur]) @ words_of [] r
      | None \<Rightarrow> words_of (c # cur) cs)"
  by pat_completeness auto
termination words_of
  by (relation "measure (\<lambda>(_, s). length s)")
    (auto dest!: strip_any_length simp: ws_nonempty simp del: strip_any.simps)

definition split_whitespace :: "string \<Rightarrow> string list" where
  "split_whitespace s = words_of [] s"

definition trim_colons :: "string \<Rightarrow> string" where
  "trim_colons s = rev (dropWhile (\<lambda>c. c = CHR '':'') (rev s))"

definition http_code :: "string \<Rightarrow> nat option" where
  "http_code part =
     (case parse_uint (2 ^ 16) (trim_colons part) of
        Some n \<Rightarrow> if 100 \<le> n \<and> n < 600 then Some n else None
      | None \<Rightarrow> None)"

definition extract_http_status :: "string \<Rightarrow> nat option" where
  "extract_http_status msg =
     (case List.map_filter http_code (split_whitespace msg) of [] \<Rightarrow> None | n # _ \<Rightarrow> Some n)"

definition transient_text :: "string \<Rightarrow> bool" where
  "transient_text msg =
     (contains_str msg ''timed out'' \<or> contains_str msg ''connect'' \<or> contains_str msg ''dns'' \<or>
      contains_str msg ''connection refused'')"

definition classify_http_error :: "string \<Rightarrow> nat list \<Rightarrow> action_status" where
  "classify_http_error msg expect_set =
     (let by_text = (if transient_text msg then RetryableFailure else PermanentFailure)
      in case extract_http_status msg of
           None \<Rightarrow> by_text
         | Some n \<Rightarrow>
             if n = 429 \<or> 500 \<le> n \<and> n < 600 then RetryableFailure
             else if expect_set \<noteq> [] \<and> n \<in> set expect_set then RetryableFailure
             else if 400 \<le> n \<and> n < 500 then PermanentFailure
             else by_text)"

section \<open>Actions\<close>

definition failed_action :: "action_status \<Rightarrow> string \<Rightarrow> action_outcome" where
  "failed_action st msg = \<lparr>ao_status = st, ao_summary = JObj [(''error'', JStr msg)]\<rparr>"

definition done_action :: "jmap \<Rightarrow> action_outcome" where
  "done_action m = \<lparr>ao_status = ActSucceeded, ao_summary = redact_values (JObj m)\<rparr>"

definition redacted_failure :: "action_status \<Rightarrow> jmap \<Rightarrow> action_outcome" where
  "redacted_failure st m = \<lparr>ao_status = st, ao_summary = redact_values (JObj m)\<rparr>"

text \<open>The text of a template that does not resolve.\<close>

definition render_text :: "string \<Rightarrow> string" where
  "render_text e = ''template render: unresolved template expression: '' @ CHR 0x27 # ''${'' @ e @ ''}'' @ [CHR 0x27]"

definition hub_error_text :: "hub_error \<Rightarrow> string" where
  "hub_error_text e =
     (case e of
        CausationDepth n c \<Rightarrow>
          ''causation depth '' @ show_nat n @ '' exceeds maximum of '' @ show_nat max_causation_depth @
          '' (event '' @ c @ '')''
      | StoreUnreadable t \<Rightarrow> ''journal append failed: '' @ t
      | _ \<Rightarrow> [])"

definition with_args ::
  "event_lib \<Rightarrow> system_event \<Rightarrow> json \<Rightarrow> (json \<Rightarrow> 's bus \<Rightarrow> action_outcome \<times> 's bus) \<Rightarrow>
     's bus \<Rightarrow> action_outcome \<times> 's bus" where
  "with_args lib ev args run b =
     (case render_json_value (el_wf lib) (build_event_roots ev) args of
        Inl e \<Rightarrow> (failed_action PermanentFailure (render_text e), b)
      | Inr v \<Rightarrow> run v b)"

definition with_str ::
  "json \<Rightarrow> string \<Rightarrow> string \<Rightarrow> (string \<Rightarrow> 's bus \<Rightarrow> action_outcome \<times> 's bus) \<Rightarrow>
     's bus \<Rightarrow> action_outcome \<times> 's bus" where
  "with_str v key missing run b =
     (case arg_str v key of
        None \<Rightarrow> (failed_action PermanentFailure missing, b)
      | Some s \<Rightarrow> run s b)"

definition on_world :: "('s \<Rightarrow> 'a \<times> 's) \<Rightarrow> ('a \<Rightarrow> action_outcome) \<Rightarrow> 's bus \<Rightarrow> action_outcome \<times> 's bus" where
  "on_world f out b = (let r = f (snd b) in (out (fst r), (fst b, snd r)))"

definition draft_of_action :: "system_event \<Rightarrow> string \<Rightarrow> json \<Rightarrow> event_draft" where
  "draft_of_action ev kind rendered =
     \<lparr>ed_kind = from_wire kind, ed_producer = ''reaction:emit_event'', ed_project = ev_project ev,
      ed_principal = None, ed_subject = None, ed_correlation = [],
      ed_causation_id = Some (ev_id ev),
      ed_payload = (case jget rendered ''payload'' of Some p \<Rightarrow> p | None \<Rightarrow> JObj [])\<rparr>"

definition emitted_outcome :: "hub_error + emit_outcome \<Rightarrow> action_outcome" where
  "emitted_outcome r =
     (case r of
        Inr out \<Rightarrow>
          \<lparr>ao_status = ActSucceeded,
           ao_summary = JObj [(''emitted_event_id'', JStr (ev_id (eo_event out))),
                              (''kind'', JStr (to_wire (ev_kind (eo_event out))))]\<rparr>
      | Inl e \<Rightarrow>
          (let msg = hub_error_text e
           in redacted_failure
                (if contains_str msg ''causation depth'' then PermanentFailure else RetryableFailure)
                [(''error'', JStr msg)]))"

definition exec_emit_event ::
  "event_lib \<Rightarrow> system_event \<Rightarrow> json \<Rightarrow> 's bus \<Rightarrow> action_outcome \<times> 's bus" where
  "exec_emit_event lib ev args =
     with_args lib ev args (\<lambda>rendered.
     with_str rendered ''kind'' (''emit_event args missing '' @ CHR 0x27 # ''kind'' @ [CHR 0x27]) (\<lambda>kind b.
       let r = emit_event lib (draft_of_action ev kind rendered) (fst b)
       in (emitted_outcome (fst r), (snd r, snd b))))"

definition exec_http_json ::
  "event_lib \<Rightarrow> 's event_world \<Rightarrow> system_event \<Rightarrow> json \<Rightarrow> 's bus \<Rightarrow> action_outcome \<times> 's bus" where
  "exec_http_json lib w ev args =
     with_args lib ev args (\<lambda>rendered b.
       case xw_http_spec w rendered of
         Inl e \<Rightarrow> (failed_action PermanentFailure (''http_json spec: '' @ e), b)
       | Inr expect \<Rightarrow>
           on_world (xw_http w rendered) (\<lambda>r.
             case r of
               Inr reply \<Rightarrow>
                 done_action [(''status'', JNum (num_of_nat (hr_status reply))),
                              (''response_kind'', JStr (hr_kind reply)),
                              (''body_preview'', truncate_json (el_wf lib) (hr_value reply) 2048)]
             | Inl msg \<Rightarrow>
                 redacted_failure (classify_http_error msg expect)
                   [(''error'', JStr (truncate_str msg summary_cap))]) b)"

definition arg_nat :: "json \<Rightarrow> string \<Rightarrow> nat option" where
  "arg_nat v key = (case jget v key of Some (JNum (NPos n)) \<Rightarrow> Some (unat n) | _ \<Rightarrow> None)"

definition exec_mcp_call ::
  "event_lib \<Rightarrow> 's event_world \<Rightarrow> system_event \<Rightarrow> json \<Rightarrow> 's bus \<Rightarrow> action_outcome \<times> 's bus" where
  "exec_mcp_call lib w ev args =
     with_args lib ev args (\<lambda>rendered.
     with_str rendered ''server'' ''mcp_call requires args.server'' (\<lambda>server.
     with_str rendered ''tool'' ''mcp_call requires args.tool'' (\<lambda>tool.
       on_world
         (xw_mcp w
            \<lparr>mq_server = server, mq_tool = tool,
             mq_arguments = (case Option.bind (jget rendered ''arguments'') as_object of
                               Some m \<Rightarrow> m | None \<Rightarrow> []),
             mq_timeout_secs = cap_mcp_timeout (arg_nat rendered ''timeout_secs''),
             mq_project_dir = ev_project ev, mq_cwd = arg_str rendered ''cwd''\<rparr>)
         (\<lambda>r. case r of
            Inr result \<Rightarrow>
              done_action [(''server'', JStr server), (''tool'', JStr tool),
                           (''result_preview'', truncate_json (el_wf lib) result summary_cap)]
          | Inl msg \<Rightarrow>
              redacted_failure
                (if contains_str msg ''timed out'' \<or> contains_str msg ''connection refused''
                 then RetryableFailure else PermanentFailure)
                [(''server'', JStr server), (''tool'', JStr tool),
                 (''error'', JStr (truncate_str msg summary_cap))]))))"

definition project_dir_of :: "json \<Rightarrow> system_event \<Rightarrow> string option" where
  "project_dir_of rendered ev =
     (case arg_str rendered ''project_dir'' of Some d \<Rightarrow> Some d | None \<Rightarrow> ev_project ev)"

definition atom_handle :: "'s event_world \<Rightarrow> json \<Rightarrow> 's \<Rightarrow> json \<times> 's" where
  "atom_handle w val s =
     (case jget val ''invocation_id'' of
        Some h \<Rightarrow> (h, s)
      | None \<Rightarrow>
          (case jget val ''handle'' of
             Some h \<Rightarrow> (h, s)
           | None \<Rightarrow> let (u, s') = xw_fresh w s in (JStr (''inv-'' @ u), s')))"

definition invoke_atom ::
  "'s event_world \<Rightarrow> atom_request \<Rightarrow> 's \<Rightarrow> action_outcome \<times> 's" where
  "invoke_atom w q s =
     (case xw_atom w q s of
        (Inr val, s1) \<Rightarrow>
          let (h, s2) = atom_handle w val s1
          in (done_action [(''atom'', JStr (aq_atom q)), (''invocation_id'', h)], s2)
      | (Inl e, s1) \<Rightarrow>
          (redacted_failure PermanentFailure
             [(''atom'', JStr (aq_atom q)), (''error'', JStr (truncate_str e summary_cap))], s1))"

definition exec_atom_invoke ::
  "event_lib \<Rightarrow> 's event_world \<Rightarrow> system_event \<Rightarrow> json \<Rightarrow> 's bus \<Rightarrow> action_outcome \<times> 's bus" where
  "exec_atom_invoke lib w ev args =
     with_args lib ev args (\<lambda>rendered.
     with_str rendered ''atom'' ''atom_invoke requires args.atom'' (\<lambda>atom.
       let atom_args = (case jget rendered ''args'' of Some a \<Rightarrow> a | None \<Rightarrow> JObj [])
       in if xw_is_builtin w atom then on_world (xw_builtin w atom_args ev) id
          else on_world
                 (invoke_atom w
                    \<lparr>aq_atom = atom, aq_args = atom_args, aq_project_dir = project_dir_of rendered ev,
                     aq_owner = ''reaction:'' @ ev_id ev\<rparr>) id))"

definition start_found ::
  "'s event_world \<Rightarrow> workflow \<Rightarrow> string \<Rightarrow> string option \<Rightarrow> jmap \<Rightarrow> 's \<Rightarrow> action_outcome \<times> 's" where
  "start_found w flow wid project vars s =
     (let (u, s1) = xw_fresh w s; arc = ''arc-'' @ u
      in (done_action [(''workflow'', JStr wid), (''arc_id'', JStr arc), (''project_dir'', jopt_str project)],
          xw_spawn w flow project vars arc s1))"

definition exec_start_workflow ::
  "event_lib \<Rightarrow> 's event_world \<Rightarrow> system_event \<Rightarrow> json \<Rightarrow> 's bus \<Rightarrow> action_outcome \<times> 's bus" where
  "exec_start_workflow lib w ev args =
     with_args lib ev args (\<lambda>rendered.
     with_str rendered ''workflow'' ''start_workflow requires args.workflow'' (\<lambda>wid b.
       case xw_workflow w wid (snd b) of
         None \<Rightarrow>
           (failed_action PermanentFailure
              (''workflow '' @ CHR 0x27 # wid @ CHR 0x27 # '' not found in registry''), b)
       | Some flow \<Rightarrow>
           (case compile_workflow flow of
              Inl e \<Rightarrow> (failed_action PermanentFailure (''workflow compile: '' @ xw_wf_text w e), b)
            | Inr _ \<Rightarrow>
                on_world
                  (start_found w flow wid (project_dir_of rendered ev)
                     (case Option.bind (jget rendered ''initial_vars'') as_object of
                        Some m \<Rightarrow> m | None \<Rightarrow> [])) id b)))"

definition execute_action ::
  "event_lib \<Rightarrow> 's event_world \<Rightarrow> reaction_spec \<Rightarrow> system_event \<Rightarrow> 's bus \<Rightarrow> action_outcome \<times> 's bus" where
  "execute_action lib w spec ev =
     (case rs_action spec of
        EmitEvent args \<Rightarrow> exec_emit_event lib ev args
      | HttpJson args \<Rightarrow> exec_http_json lib w ev args
      | McpCall args \<Rightarrow> exec_mcp_call lib w ev args
      | AtomInvoke args \<Rightarrow> exec_atom_invoke lib w ev args
      | StartWorkflow args \<Rightarrow> exec_start_workflow lib w ev args)"

end
