(* ===== verification/Events_Process.thy ===== *)
theory Events_Process
  imports Events_Worker
begin

text \<open>
  The worker of the outbox (\<open>src/src/system_events/worker.rs\<close>): what it checks before it runs the
  reaction of a claimed record, how it settles the record, the tick that joins them, one execution on
  demand, and the recovery and the tools that go around them
  (\<open>src/src/tools/system_events.rs\<close>, \<open>src/src/server/restore.rs\<close>).
\<close>

section \<open>Processing a record\<close>

datatype worker_error = WorkerPermanent string | WorkerNonRetryable string

datatype process_result =
    Suppressed
  | GateSkipped
  | PreCheckErr worker_error
  | Acted action_outcome

fun repeated_pair ::
  "system_event list \<Rightarrow> outbox_record \<Rightarrow> system_event \<Rightarrow> outbox \<Rightarrow> worker_error + unit" where
  "repeated_pair [] r ev ob = ok"
| "repeated_pair (a # as) r ev ob =
     (if ev_kind a = ev_kind ev
      then (case list_by_event (ev_id a) ob of
              Inl e \<Rightarrow> Inl (WorkerPermanent (''outbox lookup: '' @ e))
            | Inr rs \<Rightarrow>
                if list_ex (\<lambda>x. ox_reaction_name x = ox_reaction_name r) rs
                then Inl (WorkerPermanent (''repeated pair ('' @ to_wire (ev_kind ev) @ '', '' @
                            ox_reaction_name r @ '') in ancestry''))
                else repeated_pair as r ev ob)
      else repeated_pair as r ev ob)"

definition check_repeated_pair :: "hub \<Rightarrow> outbox_record \<Rightarrow> system_event \<Rightarrow> worker_error + unit" where
  "check_repeated_pair h r ev =
     (case ev_causation_id ev of
        None \<Rightarrow> ok
      | Some c \<Rightarrow> repeated_pair (causation_chain_for c h) r ev (hb_outbox h))"

definition check_event_depth :: "hub \<Rightarrow> system_event \<Rightarrow> worker_error + unit" where
  "check_event_depth h ev =
     (let n = length (causation_chain_for (ev_id ev) h)
      in guard_err (max_causation_depth \<le> n)
           (WorkerPermanent (''causation depth '' @ show_nat n @ '' exceeds maximum'')))"

definition event_for :: "hub \<Rightarrow> outbox_record \<Rightarrow> worker_error + system_event" where
  "event_for h r =
     (case open_event (ox_event_id r) h of
        Inr (Some ev) \<Rightarrow> Inr ev
      | Inr None \<Rightarrow> Inl (WorkerPermanent ''event not found'')
      | Inl e \<Rightarrow> Inl (WorkerPermanent (''event load error: '' @ e)))"

definition reaction_for :: "hub \<Rightarrow> outbox_record \<Rightarrow> worker_error + reaction_spec" where
  "reaction_for h r =
     (case get_reaction (ox_reaction_name r) h of
        Some spec \<Rightarrow> Inr spec
      | None \<Rightarrow> Inl (WorkerPermanent ''reaction not found''))"

text \<open>Another record of the same reaction and key that succeeded suppresses this one.\<close>

definition suppressed_by :: "outbox_record \<Rightarrow> outbox_record \<Rightarrow> bool" where
  "suppressed_by r x =
     (ox_id x \<noteq> ox_id r \<and> ox_reaction_name x = ox_reaction_name r \<and>
      ox_idempotency_key r \<noteq> None \<and> ox_idempotency_key x = ox_idempotency_key r \<and>
      ox_status x = OxSucceeded)"

definition is_suppressed :: "bool \<Rightarrow> hub \<Rightarrow> outbox_record \<Rightarrow> worker_error + bool" where
  "is_suppressed force h r =
     (if force \<or> ox_idempotency_key r = None then Inr False
      else case load_outbox (hb_outbox h) of
             Inl e \<Rightarrow> Inl (WorkerPermanent (''outbox load error: '' @ e))
           | Inr rs \<Rightarrow> Inr (list_ex (suppressed_by r) rs))"

definition gate_allows ::
  "event_lib \<Rightarrow> 's event_world \<Rightarrow> reaction_spec \<Rightarrow> system_event \<Rightarrow> 's \<Rightarrow> worker_error + bool" where
  "gate_allows lib w spec ev s =
     (case reaction_gate_allows (el_packets lib) (xw_packets w s) spec ev of
        Inr d \<Rightarrow> Inr (gd_allowed d)
      | Inl (p, e) \<Rightarrow>
          Inl (WorkerNonRetryable (''gate evaluation error: loading gate packet '' @ CHR 0x27 # p @
                 CHR 0x27 # '': '' @ xw_store_text w e)))"

text \<open>The checks in their order: an error or the result that ends the processing, or what to run.\<close>

definition precheck ::
  "event_lib \<Rightarrow> 's event_world \<Rightarrow> bool \<Rightarrow> outbox_record \<Rightarrow> 's bus \<Rightarrow>
     process_result + reaction_spec \<times> system_event" where
  "precheck lib w force r b =
     (let h = fst b in
      rbind (map_err PreCheckErr (event_for h r)) (\<lambda>ev.
      rbind (map_err PreCheckErr (reaction_for h r)) (\<lambda>spec.
      rbind (map_err PreCheckErr (is_suppressed force h r)) (\<lambda>sup.
      rbind (guard_err sup Suppressed) (\<lambda>_.
      rbind (map_err PreCheckErr (gate_allows lib w spec ev (snd b))) (\<lambda>allowed.
      rbind (guard_err (\<not> allowed) GateSkipped) (\<lambda>_.
      rbind (map_err PreCheckErr (check_repeated_pair h r ev)) (\<lambda>_.
      rbind (map_err PreCheckErr (check_event_depth h ev)) (\<lambda>_.
      Inr (spec, ev))))))))))"

definition process_record ::
  "event_lib \<Rightarrow> 's event_world \<Rightarrow> bool \<Rightarrow> outbox_record \<Rightarrow> 's bus \<Rightarrow> process_result \<times> 's bus" where
  "process_record lib w force r b =
     (case precheck lib w force r b of
        Inl res \<Rightarrow> (res, b)
      | Inr (spec, ev) \<Rightarrow>
          let a = execute_action lib w spec ev b in (Acted (fst a), snd a))"

section \<open>Backing off\<close>

definition initial_backoff_secs :: u64 where
  "initial_backoff_secs = 5"

definition max_backoff_secs :: u64 where
  "max_backoff_secs = 600"

definition saturating_pow2 :: "nat \<Rightarrow> u64" where
  "saturating_pow2 n = (if n < 64 then 2 ^ n else - 1)"

definition id_sum :: "string \<Rightarrow> u64" where
  "id_sum s = foldl (\<lambda>acc c. acc + of_char c) 0 s"

definition backoff_secs :: "outbox_record \<Rightarrow> u64" where
  "backoff_secs r =
     (let base = initial_backoff_secs * saturating_pow2 (unat (ox_attempt_count r) - 1)
      in min base max_backoff_secs + id_sum (ox_id r) mod 3)"

definition compute_next_attempt :: "event_lib \<Rightarrow> hub \<Rightarrow> outbox_record \<Rightarrow> string" where
  "compute_next_attempt lib h r = el_later lib (hb_drawn h) (unat (backoff_secs r))"

section \<open>Settling a record\<close>

datatype tick_error = TickPanic | TickError string

type_synonym ('s, 'a) tick_result = "(tick_error + 'a) \<times> 's bus"

definition settle_outbox ::
  "event_lib \<Rightarrow> (string \<Rightarrow> outbox \<Rightarrow> (string + 'a) \<times> outbox) \<Rightarrow> 's bus \<Rightarrow> ('s, 'a) tick_result" where
  "settle_outbox lib f b =
     (let h = fst b; r = f (now_iso lib h) (hb_outbox h)
      in (map_err TickError (fst r), (draw (h\<lparr>hb_outbox := snd r\<rparr>), snd b)))"

definition event_project :: "hub \<Rightarrow> string \<Rightarrow> string option" where
  "event_project h i = (case open_event i h of Inr (Some ev) \<Rightarrow> ev_project ev | _ \<Rightarrow> None)"

definition blocked_note :: "outbox_record \<Rightarrow> string \<Rightarrow> string" where
  "blocked_note r reason =
     ''outbox record '' @ ox_id r @ '' (reaction '' @ CHR 0x27 # ox_reaction_name r @ CHR 0x27 #
     '', event '' @ ox_event_id r @ '') dead-lettered: '' @ reason"

definition write_blocked_note ::
  "'s event_world \<Rightarrow> outbox_record \<Rightarrow> string \<Rightarrow> 's bus \<Rightarrow> 's bus" where
  "write_blocked_note w r reason b =
     (fst b, xw_note w (blocked_note r reason) (event_project (fst b) (ox_event_id r)) (snd b))"

definition dead_letter ::
  "event_lib \<Rightarrow> 's event_world \<Rightarrow> outbox_record \<Rightarrow> string \<Rightarrow> 's bus \<Rightarrow> ('s, unit) tick_result" where
  "dead_letter lib w r reason b =
     settle_outbox lib (mark_dead_lettered (ox_id r) reason (Some reason)) (write_blocked_note w r reason b)"

definition with_redacted ::
  "string \<Rightarrow> (string \<Rightarrow> 's bus \<Rightarrow> ('s, unit) tick_result) \<Rightarrow> 's bus \<Rightarrow> ('s, unit) tick_result" where
  "with_redacted t f b = (case redact_string t of None \<Rightarrow> (Inl TickPanic, b) | Some u \<Rightarrow> f u b)"

definition succeed_with ::
  "event_lib \<Rightarrow> outbox_record \<Rightarrow> json \<Rightarrow> 's bus \<Rightarrow> ('s, unit) tick_result" where
  "succeed_with lib r summary = settle_outbox lib (mark_succeeded (ox_id r) (Some summary))"

definition retry_or_bury ::
  "event_lib \<Rightarrow> 's event_world \<Rightarrow> outbox_record \<Rightarrow> u32 \<Rightarrow> string \<Rightarrow> 's bus \<Rightarrow> ('s, unit) tick_result" where
  "retry_or_bury lib w r max_attempts redacted b =
     (if max_attempts \<le> ox_attempt_count r
      then dead_letter lib w r
             (''max attempts ('' @ show_nat (unat (ox_attempt_count r)) @ '') exceeded: '' @ redacted) b
      else settle_outbox lib
             (mark_retry_at (ox_id r) (compute_next_attempt lib (fst b) r) redacted) b)"

definition handle_tick_result ::
  "event_lib \<Rightarrow> 's event_world \<Rightarrow> outbox_record \<Rightarrow> process_result \<Rightarrow> u32 \<Rightarrow> 's bus \<Rightarrow>
     ('s, unit) tick_result" where
  "handle_tick_result lib w r res max_attempts =
     (case res of
        Suppressed \<Rightarrow> succeed_with lib r (JObj [(''reason'', JStr ''idempotency_suppressed'')])
      | GateSkipped \<Rightarrow> succeed_with lib r (JObj [(''reason'', JStr ''skipped_by_gate'')])
      | PreCheckErr (WorkerPermanent reason) \<Rightarrow> with_redacted reason (dead_letter lib w r)
      | PreCheckErr (WorkerNonRetryable reason) \<Rightarrow> with_redacted reason (dead_letter lib w r)
      | Acted out \<Rightarrow>
          (case ao_status out of
             ActSucceeded \<Rightarrow> succeed_with lib r (ao_summary out)
           | SkippedByGate \<Rightarrow> succeed_with lib r (ao_summary out)
           | PermanentFailure \<Rightarrow>
               with_redacted (wl_show (el_wf lib) (ao_summary out)) (dead_letter lib w r)
           | RetryableFailure \<Rightarrow>
               with_redacted (wl_show (el_wf lib) (ao_summary out))
                 (retry_or_bury lib w r max_attempts)))"

section \<open>The tick\<close>

definition max_attempts_of :: "hub \<Rightarrow> outbox_record \<Rightarrow> u32" where
  "max_attempts_of h r =
     (case get_reaction (ox_reaction_name r) h of
        Some spec \<Rightarrow> rp_max_attempts (rs_retry spec)
      | None \<Rightarrow> 1)"

definition claim_one ::
  "event_lib \<Rightarrow> string \<Rightarrow> 's bus \<Rightarrow> ('s, outbox_record option) tick_result" where
  "claim_one lib pid b = settle_outbox lib (claim_next (now_iso lib (fst b)) pid) b"

text \<open>What the tick does with the record it claimed, and the tick.\<close>

definition work_on ::
  "event_lib \<Rightarrow> 's event_world \<Rightarrow> outbox_record \<Rightarrow> 's bus \<Rightarrow> process_result \<times> ('s, unit) tick_result" where
  "work_on lib w r b =
     (let max_attempts = max_attempts_of (fst b) r;
          p = process_record lib w False r b
      in (fst p, handle_tick_result lib w r (fst p) max_attempts (snd p)))"

definition tick ::
  "event_lib \<Rightarrow> 's event_world \<Rightarrow> string \<Rightarrow> 's bus \<Rightarrow> ('s, bool) tick_result" where
  "tick lib w pid b =
     (case claim_one lib pid b of
        (Inl e, b1) \<Rightarrow> (Inl e, b1)
      | (Inr None, b1) \<Rightarrow> (Inr False, b1)
      | (Inr (Some r), b1) \<Rightarrow>
          (case snd (work_on lib w r b1) of
             (Inl e, b2) \<Rightarrow> (Inl e, b2)
           | (Inr _, b2) \<Rightarrow> (Inr True, b2)))"

text \<open>The loop of the worker: an error is logged and the next tick follows, a panic is its end.\<close>

fun run_worker ::
  "event_lib \<Rightarrow> 's event_world \<Rightarrow> string \<Rightarrow> nat \<Rightarrow> 's bus \<Rightarrow> bool \<times> 's bus" where
  "run_worker lib w pid 0 b = (True, b)"
| "run_worker lib w pid (Suc n) b =
     (case tick lib w pid b of
        (Inl TickPanic, b1) \<Rightarrow> (False, b1)
      | (_, b1) \<Rightarrow> run_worker lib w pid n b1)"

section \<open>One execution on demand\<close>

record execute_report =
  er_force :: bool
  er_dry_run :: dry_run_result
  er_record :: outbox_record

datatype execute_error =
    ExecuteTick tick_error
  | ExecuteDryRun dry_run_error
  | ClaimLost string
  | RecordLost string

definition execute_claimed ::
  "event_lib \<Rightarrow> 's event_world \<Rightarrow> reaction_spec \<Rightarrow> bool \<Rightarrow> dry_run_result \<Rightarrow> outbox_record \<Rightarrow> 's bus \<Rightarrow>
     (execute_error + execute_report) \<times> 's bus" where
  "execute_claimed lib w spec force dry r b =
     (let p = process_record lib w force r b in
      case handle_tick_result lib w r (fst p) (rp_max_attempts (rs_retry spec)) (snd p) of
        (Inl e, b1) \<Rightarrow> (Inl (ExecuteTick e), b1)
      | (Inr _, b1) \<Rightarrow>
          (case get_record (ox_id r) (hb_outbox (fst b1)) of
             Inl e \<Rightarrow> (Inl (ExecuteTick (TickError e)), b1)
           | Inr None \<Rightarrow> (Inl (RecordLost (ox_id r)), b1)
           | Inr (Some x) \<Rightarrow> (Inr \<lparr>er_force = force, er_dry_run = dry, er_record = x\<rparr>, b1)))"

definition execute_reaction_once ::
  "event_lib \<Rightarrow> 's event_world \<Rightarrow> string \<Rightarrow> system_event \<Rightarrow> reaction_spec \<Rightarrow> bool \<Rightarrow> 's bus \<Rightarrow>
     (execute_error + execute_report) \<times> 's bus" where
  "execute_reaction_once lib w pid ev spec force b =
     (case load_outbox (hb_outbox (fst b)) of
        Inl e \<Rightarrow> (Inl (ExecuteTick (TickError e)), b)
      | Inr records \<Rightarrow>
          (case dry_run_replay (el_wf lib) (el_packets lib) (xw_packets w (snd b)) spec ev records of
             Inl e \<Rightarrow> (Inl (ExecuteDryRun e), b)
           | Inr dry \<Rightarrow>
               let c = enqueue lib ev (rs_name spec) (dr_rendered_key dry) (fst b);
                   b1 = (snd c, snd b)
               in case settle_outbox lib
                         (claim_record (ox_id (fst c)) (now_iso lib (fst b1)) pid) b1 of
                    (Inl e, b2) \<Rightarrow> (Inl (ExecuteTick e), b2)
                  | (Inr None, b2) \<Rightarrow> (Inl (ClaimLost (ox_id (fst c))), b2)
                  | (Inr (Some r), b2) \<Rightarrow> execute_claimed lib w spec force dry r b2))"

section \<open>Recovery and the tools\<close>

definition recover_outbox ::
  "event_lib \<Rightarrow> (outbox_record \<Rightarrow> string) \<Rightarrow> hub \<Rightarrow> recovery_report \<times> hub" where
  "recover_outbox lib describe h =
     (let r = recover_stale_claims describe (now_iso lib h) (hb_outbox h)
      in (fst r, draw (h\<lparr>hb_outbox := snd r\<rparr>)))"

definition delivery_status_text :: "outbox_status \<Rightarrow> string" where
  "delivery_status_text st =
     (case st of OxPending \<Rightarrow> ''pending'' | OxClaimed \<Rightarrow> ''claimed'' | OxSucceeded \<Rightarrow> ''succeeded''
      | OxRetryAt \<Rightarrow> ''retry_at'' | OxDeadLettered \<Rightarrow> ''dead_lettered'')"

definition reaction_deliveries ::
  "string option \<Rightarrow> string option \<Rightarrow> nat option \<Rightarrow> hub \<Rightarrow> string + outbox_record list" where
  "reaction_deliveries event_id status limit h =
     rbind (load_outbox (hb_outbox h)) (\<lambda>rs.
       let found = rev (filter (\<lambda>r. (case event_id of Some i \<Rightarrow> ox_event_id r = i | None \<Rightarrow> True) \<and>
                                   (case status of Some st \<Rightarrow> delivery_status_text (ox_status r) = st | None \<Rightarrow> True)) rs)
       in Inr (case limit of Some n \<Rightarrow> take n found | None \<Rightarrow> found))"

datatype retry_tool_error = RetryUnreadable string | NotDeadLettered string

definition reaction_retry ::
  "event_lib \<Rightarrow> string \<Rightarrow> hub \<Rightarrow> (retry_tool_error + unit) \<times> hub" where
  "reaction_retry lib i h =
     (case retry_dead_lettered i (now_iso lib h) (hb_outbox h) of
        (Inl e, ob) \<Rightarrow> (Inl (RetryUnreadable e), h)
      | (Inr found, ob) \<Rightarrow>
          (if found then Inr () else Inl (NotDeadLettered i), draw (h\<lparr>hb_outbox := ob\<rparr>)))"

end
