(* ===== verification/Events_Redaction.thy ===== *)
theory Events_Redaction
  imports Events_Process
begin

text \<open>
  What redaction guarantees: values and ASCII texts lose every secret, and a text that is not ASCII
  stops the worker.
\<close>

section \<open>Values\<close>

function texts_of :: "json \<Rightarrow> string list" where
  "texts_of JNull = []"
| "texts_of (JBool b) = []"
| "texts_of (JNum n) = []"
| "texts_of (JStr s) = [s]"
| "texts_of (JArr vs) = concat (map texts_of vs)"
| "texts_of (JObj m) = concat (map (\<lambda>p. texts_of (snd p)) m)"
  by pat_completeness auto
termination texts_of
proof (relation "measure size")
  fix vs :: "json list" and v
  assume "v \<in> set vs"
  then show "(v, JArr vs) \<in> measure size" by (simp add: size_elem_mem)
next
  fix m :: jmap and p
  assume "p \<in> set m"
  then show "(snd p, JObj m) \<in> measure size" using size_snd_mem by fastforce
qed simp

lemma redacted_no_mark: "\<not> contains_str redacted_text secret_mark"
  by (simp add: redacted_text_def secret_mark_def starts_with_def)

lemma redact_values_texts:
  "t \<in> set (texts_of (redact_values v)) \<Longrightarrow> \<not> contains_str t secret_mark"
proof (induction v rule: redact_values.induct)
  case (4 s)
  then show ?case using redacted_no_mark by (auto split: if_splits)
next
  case (6 m)
  then show ?case using redacted_no_mark by (auto split: if_splits)
qed auto

section \<open>Texts\<close>

lemma push_ascii: "c \<in> set s \<Longrightarrow> ascii s \<Longrightarrow> push_byte c = [c]"
  by (simp add: ascii_def list_all_iff push_byte_ascii)

lemma ascii_inside: "c \<in> set s \<Longrightarrow> ascii s \<Longrightarrow> \<not> inside_char c"
  by (auto simp: ascii_def list_all_iff inside_char_def Let_def)

lemma ascii_head:
  assumes "ascii (c # cs)"
  shows "\<not> inside_char c" "ascii cs" "push_byte c = [c]"
  using ascii_inside [OF _ assms] push_ascii [OF _ assms] assms by (simp_all add: ascii_def)

lemma ascii_skip: "ascii s \<Longrightarrow> ascii (skip_token s)"
  by (auto simp: ascii_def list_all_iff skip_token_def dest: set_dropWhileD)

lemma ascii_rest: "ascii s \<Longrightarrow> strip_prefix p s = Some r \<Longrightarrow> ascii r"
  by (auto simp: ascii_def strip_prefix_Some)

text \<open>A text that starts the redacted one without a bracket or a capital B starts the text itself.\<close>

lemma redact_starts:
  "redact_string s = Some r \<Longrightarrow> ascii s \<Longrightarrow> r = q @ r' \<Longrightarrow>
     \<forall>c\<in>set q. c \<noteq> CHR ''['' \<and> c \<noteq> CHR ''B'' \<Longrightarrow> \<exists>s'. s = q @ s'"
proof (induction q arbitrary: s r)
  case (Cons a q)
  note prems = Cons.prems and IH = Cons.IH
  show ?case
  proof (cases s)
    case (Cons c cs)
    note plain = ascii_head [OF prems(2) [unfolded Cons]]
    note run = prems(1) [unfolded Cons]
    have a: "r = a # q @ r'" "a \<noteq> CHR ''[''" "a \<noteq> CHR ''B''" using prems(3,4) by auto
    have secret: "strip_prefix secret_mark (c # cs) = None"
    proof (rule ccontr)
      assume "strip_prefix secret_mark (c # cs) \<noteq> None"
      then show False
        using run a plain(1) by (auto simp: redacted_text_def simp del: strip_prefix.simps)
    qed
    have bearer: "strip_prefix bearer_mark (c # cs) = None"
    proof (rule ccontr)
      assume "strip_prefix bearer_mark (c # cs) \<noteq> None"
      then show False
        using run a plain(1) secret by (auto simp: bearer_mark_def simp del: strip_prefix.simps)
    qed
    obtain t where t: "redact_string cs = Some t" "r = c # t"
      using run plain(1,3) secret bearer by (auto simp del: strip_prefix.simps)
    obtain s' where "cs = q @ s'" using IH [OF t(1) plain(2)] t(2) a(1) prems(4) by auto
    then show ?thesis using t(2) a(1) by (auto simp: Cons)
  qed (use prems in simp)
qed simp

lemma redact_prefix_free: "redact_string s = Some r \<Longrightarrow> ascii s \<Longrightarrow> r \<noteq> secret_mark @ r'"
proof
  assume r: "redact_string s = Some r" "ascii s" "r = secret_mark @ r'"
  then obtain s' where "s = secret_mark @ s'"
    using redact_starts [OF r] by (auto simp: secret_mark_def)
  then obtain c cs where "s = c # cs" "strip_prefix secret_mark (c # cs) = Some s'"
    by (auto simp: secret_mark_def)
  then show False
    using r by (auto simp: redacted_text_def secret_mark_def simp del: strip_prefix.simps split: if_splits)
qed

lemma mark_in_append:
  assumes "contains_str (u @ v) secret_mark" "CHR ''s'' \<notin> set u"
  shows "contains_str v secret_mark"
proof -
  obtain a b where ab: "u @ v = a @ secret_mark @ b" using assms(1) by (auto simp: contains_str_iff)
  have "length u \<le> length a"
  proof (rule ccontr)
    assume "\<not> length u \<le> length a"
    then have "(u @ v) ! length a \<in> set u" by (simp add: nth_append)
    moreover have "(u @ v) ! length a = CHR ''s''" using ab by (simp add: nth_append secret_mark_def)
    ultimately show False using assms(2) by simp
  qed
  then have "v = drop (length u) a @ secret_mark @ b" using ab by (auto simp: append_eq_append_conv_if)
  then show ?thesis by (auto simp: contains_str_iff)
qed

lemma redact_total: "ascii s \<Longrightarrow> \<exists>r. redact_string s = Some r"
proof (induction s rule: redact_string.induct)
  case (2 c cs)
  note ok = ascii_head [OF "2.prems"]
  have "ascii (skip_token r)"
    if "strip_prefix secret_mark (c # cs) = Some r \<or> strip_prefix bearer_mark (c # cs) = Some r" for r
    using that "2.prems" ascii_rest ascii_skip by blast
  then show ?case
    using ok "2.IH" by (auto simp del: strip_prefix.simps split: option.splits)
qed simp

lemma redact_no_mark: "redact_string s = Some r \<Longrightarrow> ascii s \<Longrightarrow> \<not> contains_str r secret_mark"
proof (induction s arbitrary: r rule: redact_string.induct)
  case (2 c cs)
  note ok = ascii_head [OF "2.prems"(2)]
  consider (secret) x where "strip_prefix secret_mark (c # cs) = Some x"
    | (bearer) x where "strip_prefix secret_mark (c # cs) = None" "strip_prefix bearer_mark (c # cs) = Some x"
    | (plain) "strip_prefix secret_mark (c # cs) = None" "strip_prefix bearer_mark (c # cs) = None"
    by fastforce
  then show ?case
  proof cases
    case secret
    then obtain t where t: "redact_string (skip_token x) = Some t" "r = redacted_text @ t"
      using "2.prems" ok by (auto simp del: strip_prefix.simps)
    have "\<not> contains_str t secret_mark"
      using "2.IH"(3) [OF ok(1) secret t(1)] ascii_skip [OF ascii_rest [OF "2.prems"(2) secret]] by blast
    then show ?thesis using mark_in_append [of redacted_text t] t(2) by (auto simp: redacted_text_def)
  next
    case bearer
    let ?u = "bearer_mark @ (if skip_token x = x then [] else redacted_text)"
    obtain t where t: "redact_string (skip_token x) = Some t" "r = ?u @ t"
      using "2.prems" ok bearer by (auto simp del: strip_prefix.simps)
    have "\<not> contains_str t secret_mark"
      using "2.IH"(2) [OF ok(1) bearer t(1)] ascii_skip [OF ascii_rest [OF "2.prems"(2) bearer(2)]] by blast
    then show ?thesis
      using mark_in_append [of ?u t] t(2) by (auto simp: redacted_text_def bearer_mark_def split: if_splits)
  next
    case plain
    then obtain t where t: "redact_string cs = Some t" "r = c # t"
      using "2.prems" ok by (auto simp del: strip_prefix.simps)
    have no: "\<not> contains_str t secret_mark" using "2.IH"(1) [OF ok(1) plain t(1) ok(2)] .
    show ?thesis
    proof
      assume "contains_str r secret_mark"
      then obtain a b where "r = a @ secret_mark @ b" by (auto simp: contains_str_iff)
      then show False
        using no t(2) redact_prefix_free [OF "2.prems"]
        by (cases a) (auto simp: contains_str_iff)
    qed
  qed
qed (simp add: secret_mark_def)

lemma redact_plain:
  assumes "\<not> contains_str s secret_mark" "\<not> contains_str s bearer_mark"
  shows "redact_string s = (if list_ex inside_char s then None else Some (concat (map push_byte s)))"
  using assms
proof (induction s)
  case (Cons c cs)
  have "strip_prefix secret_mark (c # cs) = None" "strip_prefix bearer_mark (c # cs) = None"
    using Cons.prems by (auto simp: starts_with_def)
  moreover have "\<not> contains_str cs secret_mark" "\<not> contains_str cs bearer_mark"
    using Cons.prems by auto
  ultimately show ?case using Cons.IH by (auto simp del: strip_prefix.simps)
qed simp



end
