(* ===== verification/Events_Run.thy ===== *)
theory Events_Run
  imports Events_Redaction
begin

text \<open>
  What the operations of the event bus do to the rows of the outbox, and sequences of them: emissions
  and executions add fresh rows at the end, a tick changes the row it claimed and no other. The
  lemmas here carry the theorems about whole runs in \<open>Events_Guarantees\<close>.
\<close>

section \<open>Fresh rows\<close>

definition outbox_id :: "event_lib \<Rightarrow> nat \<Rightarrow> string" where
  "outbox_id lib n = ''outbox-'' @ el_uuid lib n"

definition fresh_row :: "event_lib \<Rightarrow> nat \<Rightarrow> nat \<Rightarrow> outbox_record \<Rightarrow> bool" where
  "fresh_row lib n m r \<longleftrightarrow>
     (\<exists>k. n \<le> k \<and> k < m \<and> ox_id r = outbox_id lib k) \<and>
     (\<exists>now ev name key. r = new_outbox_record (ox_id r) now ev name key)"

definition fresh_rows :: "event_lib \<Rightarrow> nat \<Rightarrow> nat \<Rightarrow> outbox_record list \<Rightarrow> bool" where
  "fresh_rows lib n m new \<longleftrightarrow> n \<le> m \<and> distinct (map ox_id new) \<and> (\<forall>r\<in>set new. fresh_row lib n m r)"

definition grown :: "event_lib \<Rightarrow> hub \<Rightarrow> hub \<Rightarrow> bool" where
  "grown lib h h' \<longleftrightarrow>
     (\<exists>new. hb_outbox h' = hb_outbox h @ map Row new \<and> fresh_rows lib (hb_drawn h) (hb_drawn h') new) \<and>
     hb_reactions h' = hb_reactions h"

lemma fresh_nil [simp]: "fresh_rows lib n m [] \<longleftrightarrow> n \<le> m"
  by (simp add: fresh_rows_def)

lemma outbox_id_inj: "inj (el_uuid lib) \<Longrightarrow> outbox_id lib k = outbox_id lib j \<longleftrightarrow> k = j"
  by (simp add: outbox_id_def inj_eq)

lemma fresh_row_mono: "fresh_row lib n m r \<Longrightarrow> n' \<le> n \<Longrightarrow> m \<le> m' \<Longrightarrow> fresh_row lib n' m' r"
  unfolding fresh_row_def by (meson le_trans less_le_trans)

lemma fresh_mono: "fresh_rows lib n m new \<Longrightarrow> n' \<le> n \<Longrightarrow> m \<le> m' \<Longrightarrow> fresh_rows lib n' m' new"
  unfolding fresh_rows_def by (meson fresh_row_mono le_trans)

lemma fresh_append:
  assumes "inj (el_uuid lib)" "fresh_rows lib n k xs" "fresh_rows lib k m ys"
  shows "fresh_rows lib n m (xs @ ys)"
proof -
  have "ox_id x \<noteq> ox_id y" if xy: "x \<in> set xs" "y \<in> set ys" for x y
  proof -
    obtain i j where "i < k" "ox_id x = outbox_id lib i" "k \<le> j" "ox_id y = outbox_id lib j"
      using assms(2,3) xy unfolding fresh_rows_def fresh_row_def by metis
    then show ?thesis using outbox_id_inj [OF assms(1)] by auto
  qed
  then have "distinct (map ox_id (xs @ ys))" using assms(2,3) by (auto simp: fresh_rows_def)
  moreover have "fresh_row lib n m r" if "r \<in> set (xs @ ys)" for r
    using that assms(2,3) fresh_row_mono [of lib _ _ r n m] unfolding fresh_rows_def by fastforce
  moreover have "n \<le> m" using assms(2,3) by (simp add: fresh_rows_def)
  ultimately show ?thesis by (simp add: fresh_rows_def)
qed

lemma grown_refl: "grown lib h h"
  by (simp add: grown_def)

lemma grown_trans:
  assumes "inj (el_uuid lib)" "grown lib h h1" "grown lib h1 h2"
  shows "grown lib h h2"
proof -
  obtain xs ys where x: "hb_outbox h1 = hb_outbox h @ map Row xs" "fresh_rows lib (hb_drawn h) (hb_drawn h1) xs"
    and y: "hb_outbox h2 = hb_outbox h1 @ map Row ys" "fresh_rows lib (hb_drawn h1) (hb_drawn h2) ys"
    using assms(2,3) by (auto simp: grown_def)
  have "hb_outbox h2 = hb_outbox h @ map Row (xs @ ys)" using x(1) y(1) by simp
  then show ?thesis
    using fresh_append [OF assms(1) x(2) y(2)] assms(2,3) unfolding grown_def by metis
qed

lemma grown_same:
  "hb_outbox h' = hb_outbox h \<Longrightarrow> hb_reactions h' = hb_reactions h \<Longrightarrow> hb_drawn h \<le> hb_drawn h' \<Longrightarrow> grown lib h h'"
  unfolding grown_def by (intro conjI exI [of _ "[]"]) simp_all

lemma enqueue_grown: "grown lib h (snd (enqueue lib ev n k h))"
  unfolding grown_def
  by (intro conjI exI [of _ "[new_outbox_record (new_outbox_id lib h) (now_iso lib h) (ev_id ev) n k]"])
    (auto simp: fresh_rows_def fresh_row_def new_outbox_id_def outbox_id_def new_outbox_record_def)

lemma enqueue_all_grown: "inj (el_uuid lib) \<Longrightarrow> grown lib h (snd (enqueue_all lib ev rs h))"
proof (induction rs arbitrary: h)
  case (Cons r rs)
  show ?case
  proof (cases "render_key (el_wf lib) r ev")
    case (Inr k)
    have "grown lib h (snd (enqueue_all lib ev rs (snd (enqueue lib ev (rs_name r) k h))))"
      by (rule grown_trans [OF Cons.prems enqueue_grown Cons.IH [OF Cons.prems]])
    then show ?thesis using Inr by simp
  qed (simp add: grown_refl)
qed (simp add: grown_refl)

lemma emit_grown:
  assumes "inj (el_uuid lib)"
  shows "grown lib h (snd (emit_event lib d h))"
proof (cases "check_depth (ed_causation_id d) h")
  case (Inr u)
  define ev where "ev = event_of_draft lib h d"
  let ?h1 = "journal_event ev h"
  let ?q = "snd (enqueue_all lib ev (matched_reactions ev ?h1) ?h1)"
  have "grown lib h ?h1" by (rule grown_same) simp_all
  moreover have "grown lib ?h1 ?q" by (rule enqueue_all_grown [OF assms])
  moreover have "grown lib ?q (?q\<lparr>hb_sent := hb_sent ?q @ [ev]\<rparr>)" by (rule grown_same) simp_all
  ultimately have "grown lib h (?q\<lparr>hb_sent := hb_sent ?q @ [ev]\<rparr>)"
    by (rule grown_trans [OF assms grown_trans [OF assms]])
  moreover have "snd (emit_event lib d h) = ?q\<lparr>hb_sent := hb_sent ?q @ [ev]\<rparr>"
    using Inr by (simp add: emit_event_def Let_def ev_def [symmetric])
  ultimately show ?thesis by (simp only:)
qed (simp add: emit_event_def grown_refl)

section \<open>Actions\<close>

text \<open>The only action that touches the hub is the emission of an event.\<close>

lemma with_args_hub:
  assumes "\<And>v b. P (fst b) (fst (snd (run v b)))" "\<And>h. P h h"
  shows "P (fst b) (fst (snd (with_args lib ev args run b)))"
  using assms by (auto simp: with_args_def split: sum.splits)

lemma with_str_hub:
  assumes "\<And>v b. P (fst b) (fst (snd (run v b)))" "\<And>h. P h h"
  shows "P (fst b) (fst (snd (with_str j key missing run b)))"
  using assms by (auto simp: with_str_def split: option.splits)

lemma on_world_hub [simp]: "fst (snd (on_world f out b)) = fst b"
  by (simp add: on_world_def Let_def)

lemma emit_action_grown:
  assumes "inj (el_uuid lib)"
  shows "grown lib (fst b) (fst (snd (exec_emit_event lib ev args b)))"
  unfolding exec_emit_event_def
  by (intro with_args_hub [where P = "grown lib"] with_str_hub [where P = "grown lib"] grown_refl)
    (simp add: Let_def emit_grown [OF assms])

lemma http_hub: "fst (snd (exec_http_json lib w ev args b)) = fst b"
  unfolding exec_http_json_def
  by (rule sym, rule with_args_hub [where P = "(=)"]) (auto split: sum.splits)

lemma mcp_hub: "fst (snd (exec_mcp_call lib w ev args b)) = fst b"
  unfolding exec_mcp_call_def
  by (rule sym, intro with_args_hub [where P = "(=)"] with_str_hub [where P = "(=)"]) auto

lemma atom_hub: "fst (snd (exec_atom_invoke lib w ev args b)) = fst b"
  unfolding exec_atom_invoke_def
  by (rule sym, intro with_args_hub [where P = "(=)"] with_str_hub [where P = "(=)"]) (auto simp: Let_def)

lemma workflow_hub: "fst (snd (exec_start_workflow lib w ev args b)) = fst b"
  unfolding exec_start_workflow_def
  by (rule sym, intro with_args_hub [where P = "(=)"] with_str_hub [where P = "(=)"])
    (auto split: option.splits sum.splits)

lemma action_grown:
  assumes "inj (el_uuid lib)"
  shows "grown lib (fst b) (fst (snd (execute_action lib w spec ev b)))"
  using emit_action_grown [OF assms]
  by (cases "rs_action spec")
    (simp_all add: execute_action_def http_hub mcp_hub atom_hub workflow_hub grown_refl)

lemma process_grown:
  assumes "inj (el_uuid lib)"
  shows "grown lib (fst b) (fst (snd (process_record lib w force r b)))"
  by (auto simp: process_record_def Let_def grown_refl action_grown [OF assms] split: sum.splits)

section \<open>Settling the claimed row\<close>

lemma change_at_id:
  "distinct (map ox_id (ys @ c # zs)) \<Longrightarrow>
     change_first (\<lambda>r. ox_id r = ox_id c) f (ys @ c # zs) = ys @ f c # zs"
  by (rule change_first_at) (auto simp: image_iff)

lemma change_record_at:
  assumes "distinct (map ox_id (ys @ c # zs))"
  shows "change_record f (ox_id c) (rewrite_outbox (ys @ c # zs)) = (Inr (), rewrite_outbox (ys @ f c # zs))"
  using change_at_id [OF assms] by (simp add: change_record_def)

text \<open>How a record is settled after each result.\<close>

definition settled_status :: "outbox_record \<Rightarrow> process_result \<Rightarrow> u32 \<Rightarrow> outbox_status" where
  "settled_status r res max_attempts =
     (case res of
        Suppressed \<Rightarrow> OxSucceeded
      | GateSkipped \<Rightarrow> OxSucceeded
      | PreCheckErr _ \<Rightarrow> OxDeadLettered
      | Acted out \<Rightarrow>
          (case ao_status out of
             ActSucceeded \<Rightarrow> OxSucceeded
           | SkippedByGate \<Rightarrow> OxSucceeded
           | PermanentFailure \<Rightarrow> OxDeadLettered
           | RetryableFailure \<Rightarrow> if max_attempts \<le> ox_attempt_count r then OxDeadLettered else OxRetryAt))"

inductive settling :: "outbox_record \<Rightarrow> outbox_status \<Rightarrow> outbox_record \<Rightarrow> bool" where
  succeeding: "settling r OxSucceeded (succeed s stamp r)"
| postponing: "settling r OxRetryAt (postpone n e stamp r)"
| burying: "settling r OxDeadLettered (bury reason e stamp r)"

inductive_cases settlingE: "settling r st x"

definition same_but_outbox :: "hub \<Rightarrow> hub \<Rightarrow> bool" where
  "same_but_outbox h h' \<longleftrightarrow> hb_reactions h' = hb_reactions h \<and> hb_drawn h \<le> hb_drawn h'"

lemma settle_change:
  assumes "hb_outbox (fst b) = rewrite_outbox (ys @ c # zs)" "distinct (map ox_id (ys @ c # zs))"
  shows "settle_outbox lib (\<lambda>stamp. change_record (f stamp) (ox_id c)) b =
    (Inr (), (draw ((fst b)\<lparr>hb_outbox := rewrite_outbox (ys @ f (now_iso lib (fst b)) c # zs)\<rparr>), snd b))"
  using change_record_at [OF assms(2)] assms(1) by (simp add: settle_outbox_def Let_def map_err_def)

lemma marks_change:
  "mark_succeeded i s = (\<lambda>stamp. change_record (succeed s stamp) i)"
  "mark_retry_at i n e = (\<lambda>stamp. change_record (postpone n e stamp) i)"
  "mark_dead_lettered i reason e' = (\<lambda>stamp. change_record (bury reason e' stamp) i)"
  by (simp_all add: fun_eq_iff mark_succeeded_def mark_retry_at_def mark_dead_lettered_def)

definition settles_to ::
  "outbox_record list \<Rightarrow> outbox_record \<Rightarrow> outbox_record list \<Rightarrow> outbox_status \<Rightarrow> 's bus \<Rightarrow> ('s, unit) tick_result \<Rightarrow> bool" where
  "settles_to ys c zs st b res \<longleftrightarrow>
     (res = (Inl TickPanic, b) \<or>
      (\<exists>x. fst res = Inr () \<and> hb_outbox (fst (snd res)) = rewrite_outbox (ys @ x # zs) \<and> settling c st x \<and>
         same_but_outbox (fst b) (fst (snd res))))"

lemma settles_change:
  assumes "hb_outbox (fst b) = rewrite_outbox (ys @ c # zs)" "distinct (map ox_id (ys @ c # zs))"
    "\<And>stamp. settling c st (f stamp c)"
  shows "settles_to ys c zs st b (settle_outbox lib (\<lambda>stamp. change_record (f stamp) (ox_id c)) b)"
  using assms(3) unfolding settles_to_def settle_change [OF assms(1,2)]
  by (auto simp: same_but_outbox_def)

lemma settles_succeed:
  assumes "hb_outbox (fst b) = rewrite_outbox (ys @ c # zs)" "distinct (map ox_id (ys @ c # zs))"
  shows "settles_to ys c zs OxSucceeded b (succeed_with lib c s b)"
  unfolding succeed_with_def marks_change by (rule settles_change [OF assms]) (rule succeeding)

lemma settles_dead:
  assumes "hb_outbox (fst b) = rewrite_outbox (ys @ c # zs)" "distinct (map ox_id (ys @ c # zs))"
  shows "\<exists>x. fst (dead_letter lib w c reason b) = Inr () \<and>
    hb_outbox (fst (snd (dead_letter lib w c reason b))) = rewrite_outbox (ys @ x # zs) \<and>
    settling c OxDeadLettered x \<and> same_but_outbox (fst b) (fst (snd (dead_letter lib w c reason b)))"
proof -
  have kept: "fst (write_blocked_note w c reason b) = fst b" by (simp add: write_blocked_note_def)
  show ?thesis
    unfolding dead_letter_def marks_change
    using settle_change [of "write_blocked_note w c reason b" ys c zs lib "bury reason (Some reason)",
        unfolded kept, OF assms]
    by (auto simp: same_but_outbox_def intro: burying)
qed

lemma settles_redacted:
  assumes "\<And>u. settles_to ys c zs st b (f u b)"
  shows "settles_to ys c zs st b (with_redacted t f b)"
  using assms by (auto simp: with_redacted_def settles_to_def split: option.splits)

lemma settles_retry:
  assumes "hb_outbox (fst b) = rewrite_outbox (ys @ c # zs)" "distinct (map ox_id (ys @ c # zs))"
  shows "settles_to ys c zs (if m \<le> ox_attempt_count c then OxDeadLettered else OxRetryAt) b
    (retry_or_bury lib w c m t b)"
  unfolding retry_or_bury_def
proof (cases "m \<le> ox_attempt_count c")
  case False
  have "settles_to ys c zs OxRetryAt b (settle_outbox lib (\<lambda>stamp. change_record (postpone n t stamp) (ox_id c)) b)" for n
    by (rule settles_change [OF assms]) (rule postponing)
  then show "settles_to ys c zs (if m \<le> ox_attempt_count c then OxDeadLettered else OxRetryAt) b
     (if m \<le> ox_attempt_count c
      then dead_letter lib w c
             (''max attempts ('' @ show_nat (unat (ox_attempt_count c)) @ '') exceeded: '' @ t) b
      else settle_outbox lib (mark_retry_at (ox_id c) (compute_next_attempt lib (fst b) c) t) b)"
    using False by (simp only: marks_change if_False)
qed (use settles_dead [OF assms, of lib w] in \<open>auto simp: settles_to_def\<close>)

lemma handle_settles:
  assumes "hb_outbox (fst b) = rewrite_outbox (ys @ c # zs)" "distinct (map ox_id (ys @ c # zs))"
  shows "settles_to ys c zs (settled_status c res m) b (handle_tick_result lib w c res m b)"
proof -
  have dead: "settles_to ys c zs OxDeadLettered b (with_redacted t (dead_letter lib w c) b)" for t
    by (rule settles_redacted) (use settles_dead [OF assms, of lib w] in \<open>auto simp: settles_to_def\<close>)
  have retry: "settles_to ys c zs (if m \<le> ox_attempt_count c then OxDeadLettered else OxRetryAt) b
      (with_redacted t (retry_or_bury lib w c m) b)" for t
    by (rule settles_redacted) (rule settles_retry [OF assms])
  show ?thesis
    unfolding handle_tick_result_def settled_status_def
    using dead retry settles_succeed [OF assms, of lib]
    by (cases res) (auto split: worker_error.split action_status.split simp del: if_split)
qed

section \<open>A small bus\<close>

text \<open>One event and one reaction that posts it with a fixed key, in a world where every request fails with the
  given text. JSON is printed for the shapes of this world only.\<close>

definition sample_show :: "json \<Rightarrow> string" where
  "sample_show v =
     (case v of
        JStr s \<Rightarrow> CHR 0x22 # s @ [CHR 0x22]
      | JObj [(k, JStr s)] \<Rightarrow> ''{'' @ CHR 0x22 # k @ CHR 0x22 # '':'' @ CHR 0x22 # s @ CHR 0x22 # ''}''
      | _ \<Rightarrow> ''null'')"

definition sample_packets :: packet_lib where
  "sample_packets =
     \<lparr>pl_lower = id, pl_char_lower = id, pl_char_alnum = (\<lambda>_. True), pl_regex = (\<lambda>_ _ _. None),
      pl_parse = (\<lambda>_. None), pl_rules = (\<lambda>_. None), pl_print = sample_show, pl_render = (\<lambda>_. [])\<rparr>"

definition sample_lib :: event_lib where
  "sample_lib =
     \<lparr>el_wf = \<lparr>wl_show = sample_show, wl_env = (\<lambda>_. None)\<rparr>, el_packets = sample_packets,
      el_instant = (\<lambda>_. None), el_uuid = (\<lambda>n. replicate n CHR ''x''), el_now = (\<lambda>n. replicate n CHR ''t''),
      el_later = (\<lambda>n k. replicate (n + k) CHR ''t'')\<rparr>"

definition sample_world :: "string + http_reply \<Rightarrow> unit event_world" where
  "sample_world reply =
     \<lparr>xw_packets = (\<lambda>_. \<lparr>st_dirs = [], st_log = []\<rparr>), xw_note = (\<lambda>_ _ s. s),
      xw_http_spec = (\<lambda>_. Inr []), xw_http = (\<lambda>_ s. (reply, s)),
      xw_mcp = (\<lambda>_ s. (Inl [], s)), xw_is_builtin = (\<lambda>_. False),
      xw_builtin = (\<lambda>_ _ s. (failed_action PermanentFailure [], s)), xw_atom = (\<lambda>_ s. (Inl [], s)),
      xw_fresh = (\<lambda>s. ([], s)), xw_workflow = (\<lambda>_ _. None), xw_spawn = (\<lambda>_ _ _ _ s. s),
      xw_store_text = (\<lambda>_. []), xw_wf_text = (\<lambda>_. [])\<rparr>"

definition sample_reaction :: reaction_spec where
  "sample_reaction =
     \<lparr>rs_contract = ''reaction/v1'', rs_name = ''r'', rs_version = 1, rs_enabled = True,
      rs_event_kinds = [''task.started''], rs_when = None, rs_idempotency_key = Some ''k'',
      rs_action = HttpJson JNull, rs_retry = default_retry\<rparr>"

definition sample_hub :: hub where
  "sample_hub =
     \<lparr>hb_journal = open_journal [Row (wrap_event (tick_event ''e'' ''t'' None))],
      hb_outbox = rewrite_outbox [new_outbox_record ''outbox-'' ''t'' ''e'' ''r'' (Some ''k'')],
      hb_reactions = [(''r'', sample_reaction)], hb_dir = [], hb_sent = [], hb_drawn = 1\<rparr>"

lemma sample_inj: "inj (el_uuid sample_lib)"
  by (rule injI) (simp add: sample_lib_def replicate_eq_replicate)

end
