(* ===== verification/Events_Guarantees.thy ===== *)
theory Events_Guarantees
  imports Events_Run
begin

text \<open>
  Runs of the event bus: ticks of the worker, emissions, recoveries, revived dead letters and newly
  installed reactions in any order. The locale \<open>row_law\<close> carries a law of single rows through them; the
  bound of the attempts and the agreement of the fields of a row are its instances.
\<close>

section \<open>The tick in one step\<close>

definition bus_ok :: "event_lib \<Rightarrow> hub \<Rightarrow> bool" where
  "bus_ok lib h \<longleftrightarrow>
     (\<exists>rs. hb_outbox h = rewrite_outbox rs \<and> distinct (map ox_id rs) \<and>
        (\<forall>r\<in>set rs. \<exists>k<hb_drawn h. ox_id r = outbox_id lib k))"

definition hub_rows :: "hub \<Rightarrow> outbox_record list" where
  "hub_rows h = (case load_outbox (hb_outbox h) of Inl _ \<Rightarrow> [] | Inr rs \<Rightarrow> rs)"

lemma hub_rows_rewrite: "hb_outbox h = rewrite_outbox rs \<Longrightarrow> hub_rows h = rs"
  by (simp add: hub_rows_def)

lemma bus_okE:
  assumes "bus_ok lib h"
  shows "hb_outbox h = rewrite_outbox (hub_rows h)" "distinct (map ox_id (hub_rows h))"
    "\<And>r. r \<in> set (hub_rows h) \<Longrightarrow> \<exists>k<hb_drawn h. ox_id r = outbox_id lib k"
proof -
  obtain rs where rs: "hb_outbox h = rewrite_outbox rs" "distinct (map ox_id rs)"
      "\<forall>r\<in>set rs. \<exists>k<hb_drawn h. ox_id r = outbox_id lib k"
    using assms by (auto simp: bus_ok_def)
  note same = hub_rows_rewrite [OF rs(1)]
  show "hb_outbox h = rewrite_outbox (hub_rows h)" "distinct (map ox_id (hub_rows h))"
    unfolding same by (rule rs(1), rule rs(2))
  show "\<And>r. r \<in> set (hub_rows h) \<Longrightarrow> \<exists>k<hb_drawn h. ox_id r = outbox_id lib k"
    unfolding same using rs(3) by blast
qed

lemma bus_okI:
  "hb_outbox h = rewrite_outbox rs \<Longrightarrow> distinct (map ox_id rs) \<Longrightarrow>
     (\<And>r. r \<in> set rs \<Longrightarrow> \<exists>k<hb_drawn h. ox_id r = outbox_id lib k) \<Longrightarrow> bus_ok lib h"
  by (auto simp: bus_ok_def)

lemma claim_next_split:
  assumes "claim_next now pid stamp (rewrite_outbox rs) = (Inr (Some c), ob')"
  shows "\<exists>ys r zs. rs = ys @ r # zs \<and> ob' = rewrite_outbox (ys @ c # zs) \<and> claimable now r \<and>
    \<not> list_ex (claimable now) ys \<and> c = claim now pid stamp r"
proof -
  obtain r where r: "find (claimable now) rs = Some r" "c = claim now pid stamp r"
    "ob' = rewrite_outbox (change_first (claimable now) (claim now pid stamp) rs)"
    using assms by (auto simp: claim_next_def split: option.splits)
  obtain ys zs where "rs = ys @ r # zs" "claimable now r" "\<forall>y\<in>set ys. \<not> claimable now y"
      "change_first (claimable now) (claim now pid stamp) rs = ys @ claim now pid stamp r # zs"
    using change_first_split [OF r(1), of "claim now pid stamp"] by blast
  then show ?thesis using r(2,3) by (metis list_ex_iff)
qed

text \<open>The record a tick claims and the result of processing it.\<close>

definition tick_outcome ::
  "event_lib \<Rightarrow> 's event_world \<Rightarrow> string \<Rightarrow> 's bus \<Rightarrow> (outbox_record \<times> process_result) option" where
  "tick_outcome lib w pid b =
     (case claim_one lib pid b of
        (Inr (Some r), b1) \<Rightarrow> Some (r, fst (work_on lib w r b1))
      | _ \<Rightarrow> None)"

text \<open>A tick that finds nothing to do changes no row. Otherwise it claims the row \<open>r\<close> as \<open>c\<close>, and either
  settles it as \<open>x\<close> or panics and leaves it claimed; the action may have added the rows \<open>new\<close>.\<close>

definition tick_idle :: "event_lib \<Rightarrow> 's event_world \<Rightarrow> string \<Rightarrow> 's bus \<Rightarrow> bool" where
  "tick_idle lib w pid b \<longleftrightarrow>
     tick_outcome lib w pid b = None \<and> fst (tick lib w pid b) = Inr False \<and>
     hb_outbox (fst (snd (tick lib w pid b))) = hb_outbox (fst b)"

definition tick_works ::
  "event_lib \<Rightarrow> 's event_world \<Rightarrow> string \<Rightarrow> 's bus \<Rightarrow> outbox_record list \<Rightarrow> outbox_record \<Rightarrow>
     outbox_record list \<Rightarrow> outbox_record list \<Rightarrow> outbox_record \<Rightarrow> outbox_record \<Rightarrow> process_result \<Rightarrow> bool" where
  "tick_works lib w pid b ys r zs new c x p \<longleftrightarrow>
     tick_outcome lib w pid b = Some (c, p) \<and> hub_rows (fst b) = ys @ r # zs \<and>
     claimable (now_iso lib (fst b)) r \<and> \<not> list_ex (claimable (now_iso lib (fst b))) ys \<and>
     c = claim (now_iso lib (fst b)) pid (now_iso lib (fst b)) r \<and>
     hb_outbox (fst (snd (tick lib w pid b))) = rewrite_outbox (ys @ x # zs @ new) \<and>
     fresh_rows lib (hb_drawn (fst b)) (hb_drawn (fst (snd (tick lib w pid b)))) new \<and>
     (fst (tick lib w pid b) = Inl TickPanic \<and> x = c \<or>
      fst (tick lib w pid b) = Inr True \<and>
        settling c (settled_status c p (max_attempts_of (fst b) r)) x)"

lemma claim_one_hub:
  assumes "bus_ok lib (fst b)"
  shows "fst (snd (claim_one lib pid b)) =
      draw ((fst b)\<lparr>hb_outbox := snd (claim_next (now_iso lib (fst b)) pid (now_iso lib (fst b)) (hb_outbox (fst b)))\<rparr>)"
    "fst (claim_one lib pid b) =
      map_err TickError (fst (claim_next (now_iso lib (fst b)) pid (now_iso lib (fst b)) (hb_outbox (fst b))))"
  by (simp_all add: claim_one_def settle_outbox_def Let_def)

lemma work_shape:
  assumes inj: "inj (el_uuid lib)"
    and rows: "hb_outbox (fst b) = rewrite_outbox (ys @ c # zs)" "distinct (map ox_id (ys @ c # zs))"
    and ids: "\<And>r. r \<in> set (ys @ c # zs) \<Longrightarrow> \<exists>k<hb_drawn (fst b). ox_id r = outbox_id lib k"
  shows "\<exists>new x. hb_outbox (fst (snd (snd (work_on lib w c b)))) = rewrite_outbox (ys @ x # zs @ new) \<and>
    fresh_rows lib (hb_drawn (fst b)) (hb_drawn (fst (snd (snd (work_on lib w c b))))) new \<and>
    hb_reactions (fst (snd (snd (work_on lib w c b)))) = hb_reactions (fst b) \<and>
    (fst (snd (work_on lib w c b)) = Inl TickPanic \<and> x = c \<or>
     fst (snd (work_on lib w c b)) = Inr () \<and>
       settling c (settled_status c (fst (work_on lib w c b)) (max_attempts_of (fst b) c)) x)"
proof -
  define q where "q = process_record lib w False c b"
  define t where "t = handle_tick_result lib w c (fst q) (max_attempts_of (fst b) c) (snd q)"
  have work: "work_on lib w c b = (fst q, t)" by (simp add: work_on_def Let_def q_def t_def)
  obtain new where new: "hb_outbox (fst (snd q)) = rewrite_outbox (ys @ c # zs @ new)"
      "fresh_rows lib (hb_drawn (fst b)) (hb_drawn (fst (snd q))) new"
    and reacts: "hb_reactions (fst (snd q)) = hb_reactions (fst b)"
    using process_grown [OF inj, of b w False c] rows(1)
    by (auto simp: grown_def q_def rewrite_outbox_def)
  have "ox_id x \<noteq> ox_id y" if xy: "x \<in> set (ys @ c # zs)" "y \<in> set new" for x y
  proof -
    obtain k j where "k < hb_drawn (fst b)" "ox_id x = outbox_id lib k"
      "hb_drawn (fst b) \<le> j" "ox_id y = outbox_id lib j"
      using ids [OF xy(1)] new(2) xy(2) unfolding fresh_rows_def fresh_row_def by blast
    then show ?thesis using outbox_id_inj [OF inj] by auto
  qed
  then have "distinct (map ox_id ((ys @ c # zs) @ new))"
    using rows(2) new(2) by (fastforce simp: fresh_rows_def)
  then have "settles_to ys c (zs @ new) (settled_status c (fst q) (max_attempts_of (fst b) c)) (snd q) t"
    unfolding t_def using new(1) by (intro handle_settles) simp_all
  then show ?thesis
    unfolding settles_to_def
  proof
    assume "t = (Inl TickPanic, snd q)"
    then show ?thesis using new reacts by (intro exI [of _ new] exI [of _ c]) (simp add: work)
  next
    assume "\<exists>x. fst t = Inr () \<and> hb_outbox (fst (snd t)) = rewrite_outbox (ys @ x # zs @ new) \<and>
        settling c (settled_status c (fst q) (max_attempts_of (fst b) c)) x \<and>
        same_but_outbox (fst (snd q)) (fst (snd t))"
    then obtain x where x: "fst t = Inr ()" "hb_outbox (fst (snd t)) = rewrite_outbox (ys @ x # zs @ new)"
        "settling c (settled_status c (fst q) (max_attempts_of (fst b) c)) x"
        "same_but_outbox (fst (snd q)) (fst (snd t))"
      by blast
    then show ?thesis
      using reacts fresh_mono [OF new(2) order_refl, of "hb_drawn (fst (snd t))"]
      by (intro exI [of _ new] exI [of _ x]) (simp add: work same_but_outbox_def)
  qed
qed

lemma claim_same_ids: "ox_id (claim now pid stamp r) = ox_id r"
  by (simp add: claim_def)

lemma tick_shape:
  assumes inj: "inj (el_uuid lib)" and ok: "bus_ok lib (fst b)"
  shows "hb_reactions (fst (snd (tick lib w pid b))) = hb_reactions (fst b) \<and>
    hb_drawn (fst b) \<le> hb_drawn (fst (snd (tick lib w pid b))) \<and>
    (tick_idle lib w pid b \<or> (\<exists>ys r zs new c x p. tick_works lib w pid b ys r zs new c x p))"
proof -
  let ?h = "fst b" and ?now = "now_iso lib (fst b)"
  define q where "q = claim_next ?now pid ?now (hb_outbox ?h)"
  define b1 where "b1 = (draw (?h\<lparr>hb_outbox := snd q\<rparr>), snd b)"
  have one: "claim_one lib pid b = (map_err TickError (fst q), b1)"
    by (simp add: claim_one_def settle_outbox_def Let_def q_def b1_def)
  note rows = bus_okE [OF ok]
  show ?thesis
  proof (cases "fst q")
    case (Inl e)
    then have False
      using load_rewrite [of "hub_rows ?h"]
      by (auto simp: q_def claim_next_def rows(1) [symmetric] split: sum.splits option.splits)
    then show ?thesis ..
  next
    case (Inr found)
    show ?thesis
    proof (cases found)
      case None
      have "snd q = hb_outbox ?h"
        using Inr None by (auto simp: q_def claim_next_def split: sum.splits option.splits)
      then show ?thesis
        using Inr None
        by (simp add: tick_idle_def tick_outcome_def tick_def one map_err_def b1_def)
    next
      case (Some c)
      obtain ys r zs where split: "hub_rows ?h = ys @ r # zs" "snd q = rewrite_outbox (ys @ c # zs)"
        "claimable ?now r" "\<not> list_ex (claimable ?now) ys" "c = claim ?now pid ?now r"
        using claim_next_split [of ?now pid ?now "hub_rows ?h" c "snd q"] rows(1) Inr Some
        by (metis prod.collapse q_def)
      have ids: "map ox_id (ys @ c # zs) = map ox_id (hub_rows ?h)"
        using split(1,5) by (simp add: claim_same_ids)
      have dist: "distinct (map ox_id (ys @ c # zs))" using rows(2) ids by metis
      have drawn: "\<exists>k<hb_drawn (fst b1). ox_id x = outbox_id lib k" if "x \<in> set (ys @ c # zs)" for x
      proof -
        have "ox_id x \<in> ox_id ` set (hub_rows ?h)"
          using that ids by (metis image_eqI set_map)
        then obtain y where "y \<in> set (hub_rows ?h)" "ox_id x = ox_id y" by blast
        then show ?thesis using rows(3) less_SucI unfolding b1_def by (metis draw_simps(6) fst_conv hub.select_convs(6) hub.surjective hub.update_convs(2))
      qed
      have ob: "hb_outbox (fst b1) = rewrite_outbox (ys @ c # zs)" by (simp add: b1_def split(2))
      define t where "t = work_on lib w c b1"
      obtain new x where t: "hb_outbox (fst (snd (snd t))) = rewrite_outbox (ys @ x # zs @ new)"
          "fresh_rows lib (hb_drawn (fst b1)) (hb_drawn (fst (snd (snd t)))) new"
          "hb_reactions (fst (snd (snd t))) = hb_reactions (fst b1)"
          "fst (snd t) = Inl TickPanic \<and> x = c \<or>
           fst (snd t) = Inr () \<and> settling c (settled_status c (fst t) (max_attempts_of (fst b1) c)) x"
        using work_shape [OF inj ob dist drawn] unfolding t_def by blast
      have max: "max_attempts_of (fst b1) c = max_attempts_of ?h r"
        by (simp add: max_attempts_of_def get_reaction_def b1_def split(5) claim_def)
      have tick: "tick lib w pid b =
          (case snd t of (Inl e, b2) \<Rightarrow> (Inl e, b2) | (Inr _, b2) \<Rightarrow> (Inr True, b2))"
        using Inr Some by (simp add: tick_def one map_err_def t_def)
      then have end': "snd (tick lib w pid b) = snd (snd t)"
        "fst (tick lib w pid b) = map_sum id (\<lambda>_. True) (fst (snd t))"
        by (simp_all split: prod.split sum.split)
      have out: "tick_outcome lib w pid b = Some (c, fst t)"
        using Inr Some by (simp add: tick_outcome_def one map_err_def t_def)
      have "fresh_rows lib (hb_drawn ?h) (hb_drawn (fst (snd (snd t)))) new"
        using fresh_mono [OF t(2)] by (simp add: b1_def)
      moreover have "hb_drawn ?h \<le> hb_drawn (fst (snd (snd t)))"
        using t(2) by (simp add: fresh_rows_def b1_def)
      moreover have "tick_works lib w pid b ys r zs new c x (fst t)"
        unfolding tick_works_def end' using t(1) t(4) [unfolded max] split out calculation(1) by auto
      ultimately show ?thesis using t(3) by (auto simp: end' b1_def)
    qed
  qed
qed

section \<open>Ticks\<close>

text \<open>Property C5. A tick settles exactly the record it claims. It changes no row when none is due; otherwise it takes
  the first row that is due, counts the attempt and marks it as succeeded, dead or to be retried as
  the result of processing it says, every other row stays as it was, and all the action can add are
  fresh pending rows at the end. Only a panic leaves the row claimed.\<close>

theorem tick_settles_its_record:
  assumes "inj (el_uuid lib)" "bus_ok lib (fst b)"
  shows "tick_idle lib w pid b \<and> \<not> list_ex (claimable (now_iso lib (fst b))) (hub_rows (fst b)) \<or>
    (\<exists>ys r zs new c x p. tick_works lib w pid b ys r zs new c x p \<and> same_delivery r x \<and>
       ox_attempt_count x = ox_attempt_count r + 1 \<and>
       ox_status x = (if fst (tick lib w pid b) = Inl TickPanic then OxClaimed
                      else settled_status c p (max_attempts_of (fst b) r)))"
proof -
  have idle: "\<not> list_ex (claimable (now_iso lib (fst b))) (hub_rows (fst b))" if "tick_idle lib w pid b"
  proof -
    have "tick_outcome lib w pid b = None" "fst (tick lib w pid b) = Inr False"
      using that by (simp_all add: tick_idle_def)
    then have "fst (claim_one lib pid b) = Inr None"
      by (auto simp: tick_outcome_def tick_def split: prod.splits sum.splits option.splits)
    then have "find (claimable (now_iso lib (fst b))) (hub_rows (fst b)) = None"
      using load_rewrite [of "hub_rows (fst b)"]
      by (auto simp: claim_one_hub [OF assms(2)] bus_okE(1) [OF assms(2), symmetric] claim_next_def
          split: option.splits sum.splits)
    then show ?thesis by (simp add: find_None_iff list_ex_iff)
  qed
  have end': "same_delivery r x \<and> ox_attempt_count x = ox_attempt_count r + 1 \<and>
      ox_status x = (if fst (tick lib w pid b) = Inl TickPanic then OxClaimed
                     else settled_status c p (max_attempts_of (fst b) r))"
    if "tick_works lib w pid b ys r zs new c x p" for ys r zs new c x p
    using that
    by (auto simp: tick_works_def claim_def same_delivery_def succeed_def postpone_def bury_def elim: settlingE)
  have "tick_idle lib w pid b \<or> (\<exists>ys r zs new c x p. tick_works lib w pid b ys r zs new c x p)"
    using tick_shape [OF assms, of w pid] by (elim conjE)
  then show ?thesis
  proof
    assume "\<exists>ys r zs new c x p. tick_works lib w pid b ys r zs new c x p"
    then obtain ys r zs new c x p where "tick_works lib w pid b ys r zs new c x p" by (elim exE)
    with end' [OF this] show ?thesis by (intro disjI2 exI) (rule conjI)
  qed (use idle in simp)
qed

lemma sample_bus_ok: "bus_ok sample_lib sample_hub"
  by (rule bus_okI [of _ "[new_outbox_record ''outbox-'' ''t'' ''e'' ''r'' (Some ''k'')]"])
    (auto simp: sample_hub_def outbox_id_def sample_lib_def new_outbox_record_def intro!: exI [of _ 0])

theorem tick_settles_its_record_witness:
  "tick_idle sample_lib (sample_world (Inl ''dns'')) ''p'' (sample_hub, ()) \<and>
     \<not> list_ex (claimable (now_iso sample_lib sample_hub)) (hub_rows sample_hub) \<or>
   (\<exists>ys r zs new c x p.
      tick_works sample_lib (sample_world (Inl ''dns'')) ''p'' (sample_hub, ()) ys r zs new c x p \<and>
      ox_attempt_count x = ox_attempt_count r + 1)"
  using tick_settles_its_record [OF sample_inj, of "(sample_hub, ())" "sample_world (Inl ''dns'')" "''p''"]
    sample_bus_ok
  by fastforce

end
