(* ===== verification/Events_Safety.thy ===== *)
theory Events_Safety
  imports Events_Guarantees
begin

text \<open>
  What holds along whole runs of the event bus: ticks of the worker, emissions, recoveries after a
  restart, dead letters brought back by hand and installed reactions, in any order. The locale
  \<open>row_law\<close> carries a law of single rows through the runs that no recovery or revival disturbs.
\<close>

section \<open>Runs\<close>

datatype bus_command =
    Tick
  | Emit event_draft
  | Install reaction_spec bool
  | Recover
  | Revive string

definition bus_step ::
  "event_lib \<Rightarrow> 's event_world \<Rightarrow> (outbox_record \<Rightarrow> string) \<Rightarrow> string \<Rightarrow> bus_command \<Rightarrow> 's bus \<Rightarrow> 's bus" where
  "bus_step lib w describe pid cmd b =
     (case cmd of
        Tick \<Rightarrow> snd (tick lib w pid b)
      | Emit d \<Rightarrow> (snd (emit_event lib d (fst b)), snd b)
      | Install spec replace \<Rightarrow> (snd (install_reaction spec replace (fst b)), snd b)
      | Recover \<Rightarrow> (snd (recover_outbox lib describe (fst b)), snd b)
      | Revive i \<Rightarrow> (snd (reaction_retry lib i (fst b)), snd b))"

fun run_bus ::
  "event_lib \<Rightarrow> 's event_world \<Rightarrow> (outbox_record \<Rightarrow> string) \<Rightarrow> string \<Rightarrow> bus_command list \<Rightarrow> 's bus \<Rightarrow> 's bus" where
  "run_bus lib w describe pid [] b = b"
| "run_bus lib w describe pid (cmd # cmds) b =
     run_bus lib w describe pid cmds (bus_step lib w describe pid cmd b)"

text \<open>The deliveries with a key whose action was run and succeeded, by reaction and key.\<close>

definition delivery_of :: "(outbox_record \<times> process_result) option \<Rightarrow> (string \<times> string) list" where
  "delivery_of out =
     (case out of
        Some (c, Acted a) \<Rightarrow>
          (case ox_idempotency_key c of
             Some k \<Rightarrow> if ao_status a = ActSucceeded then [(ox_reaction_name c, k)] else []
           | None \<Rightarrow> [])
      | _ \<Rightarrow> [])"

fun deliveries ::
  "event_lib \<Rightarrow> 's event_world \<Rightarrow> (outbox_record \<Rightarrow> string) \<Rightarrow> string \<Rightarrow> bus_command list \<Rightarrow> 's bus \<Rightarrow>
     (string \<times> string) list" where
  "deliveries lib w describe pid [] b = []"
| "deliveries lib w describe pid (cmd # cmds) b =
     (if cmd = Tick then delivery_of (tick_outcome lib w pid b) else []) @
     deliveries lib w describe pid cmds (bus_step lib w describe pid cmd b)"

section \<open>Rows are kept\<close>

text \<open>The reactions and keys that the outbox knows as succeeded.\<close>

definition won :: "outbox_record list \<Rightarrow> (string \<times> string) set" where
  "won rs = {(n, k). \<exists>r\<in>set rs. ox_status r = OxSucceeded \<and> ox_reaction_name r = n \<and> ox_idempotency_key r = Some k}"

definition kept_row :: "outbox_record \<Rightarrow> outbox_record \<Rightarrow> bool" where
  "kept_row r r' \<longleftrightarrow> same_delivery r r' \<and> (ox_status r = OxSucceeded \<longrightarrow> r' = r)"

lemma record_step_kept: "record_step r r' \<Longrightarrow> kept_row r r'"
  by (auto simp: record_step_def kept_row_def same_delivery_def status_step_succeeded)

lemma kept_refl: "kept_row r r"
  by (simp add: kept_row_def same_delivery_def)

lemma kept_ids: "list_all2 kept_row rs rs' \<Longrightarrow> map ox_id rs' = map ox_id rs"
  by (induction rule: list_all2_induct) (simp_all add: kept_row_def same_delivery_def)

lemma kept_won: "list_all2 kept_row rs rs' \<Longrightarrow> won rs \<subseteq> won rs'"
  by (induction rule: list_all2_induct) (auto simp: won_def kept_row_def)

lemma won_append [simp]: "won (xs @ ys) = won xs \<union> won ys"
  by (auto simp: won_def)

lemma bus_ok_kept:
  assumes "inj (el_uuid lib)" "bus_ok lib h" "list_all2 kept_row (hub_rows h) rs'"
    and "hb_outbox h' = rewrite_outbox (rs' @ new)" "fresh_rows lib (hb_drawn h) (hb_drawn h') new"
  shows "bus_ok lib h' \<and> won (hub_rows h) \<subseteq> won (hub_rows h')"
proof
  note ok = bus_okE [OF assms(2)] and ids = kept_ids [OF assms(3)]
  have old: "\<exists>k<hb_drawn h. ox_id r = outbox_id lib k" if "r \<in> set rs'" for r
  proof -
    have "ox_id r \<in> set (map ox_id (hub_rows h))" using that ids by (metis image_eqI list.set_map)
    then obtain y where "y \<in> set (hub_rows h)" "ox_id r = ox_id y" by auto
    then show ?thesis using ok(3) by metis
  qed
  have apart: "ox_id x \<noteq> ox_id y" if xy: "x \<in> set rs'" "y \<in> set new" for x y
  proof -
    obtain k j where "k < hb_drawn h" "ox_id x = outbox_id lib k" "hb_drawn h \<le> j" "ox_id y = outbox_id lib j"
      using old [OF xy(1)] assms(5) xy(2) unfolding fresh_rows_def fresh_row_def by blast
    then show ?thesis using outbox_id_inj [OF assms(1)] by auto
  qed
  show "bus_ok lib h'"
  proof (rule bus_okI [OF assms(4)])
    have "distinct (map ox_id rs')" using ok(2) ids by metis
    then show "distinct (map ox_id (rs' @ new))" using apart assms(5) by (fastforce simp: fresh_rows_def)
    show "\<exists>k<hb_drawn h'. ox_id r = outbox_id lib k" if r: "r \<in> set (rs' @ new)" for r
    proof (cases "r \<in> set rs'")
      case True
      then show ?thesis using old assms(5) unfolding fresh_rows_def by (meson less_le_trans)
    next
      case False
      then show ?thesis using r assms(5) by (auto simp: fresh_rows_def fresh_row_def)
    qed
  qed
  show "won (hub_rows h) \<subseteq> won (hub_rows h')"
    using kept_won [OF assms(3)] by (auto simp: hub_rows_rewrite [OF assms(4)])
qed

lemma bus_ok_steps:
  assumes "inj (el_uuid lib)" "bus_ok lib h" "list_all2 record_step (hub_rows h) rs'"
    and "hb_outbox h' = rewrite_outbox rs'" "hb_drawn h \<le> hb_drawn h'"
  shows "bus_ok lib h' \<and> won (hub_rows h) \<subseteq> won (hub_rows h')"
proof (rule bus_ok_kept [OF assms(1,2), of rs' h' "[]"])
  show "list_all2 kept_row (hub_rows h) rs'"
    using assms(3) by (rule list_all2_mono) (rule record_step_kept)
qed (use assms(4,5) in simp_all)

lemma bus_ok_grown:
  assumes "inj (el_uuid lib)" "bus_ok lib h" "grown lib h h'"
  shows "bus_ok lib h' \<and> won (hub_rows h) \<subseteq> won (hub_rows h')"
proof -
  obtain new where "hb_outbox h' = hb_outbox h @ map Row new" "fresh_rows lib (hb_drawn h) (hb_drawn h') new"
    using assms(3) by (auto simp: grown_def)
  then show ?thesis
    using bus_ok_kept [OF assms(1,2), of "hub_rows h" h' new] bus_okE(1) [OF assms(2)]
    by (simp add: rewrite_outbox_def list_all2_refl kept_refl)
qed

lemma tick_kept:
  assumes "tick_works lib w pid b ys r zs new c x p"
  shows "list_all2 kept_row (hub_rows (fst b)) (ys @ x # zs)"
proof -
  have "kept_row r x"
    using assms
    by (auto simp: tick_works_def kept_row_def claimable_def waiting_def same_delivery_def claim_def
        succeed_def postpone_def bury_def elim!: settlingE)
  moreover have "hub_rows (fst b) = ys @ r # zs" using assms by (simp add: tick_works_def)
  ultimately show ?thesis by (simp add: list_all2_appendI list_all2_refl kept_refl)
qed

lemma tick_ok:
  assumes "inj (el_uuid lib)" "bus_ok lib (fst b)"
  shows "bus_ok lib (fst (snd (tick lib w pid b))) \<and>
    won (hub_rows (fst b)) \<subseteq> won (hub_rows (fst (snd (tick lib w pid b))))"
proof -
  note shape = tick_shape [OF assms, of w pid]
  show ?thesis
  proof (cases "tick_idle lib w pid b")
    case True
    then show ?thesis
      using shape bus_ok_steps [OF assms, of "hub_rows (fst b)"] bus_okE(1) [OF assms(2)]
      by (simp add: tick_idle_def list_all2_refl)
  next
    case False
    then obtain ys r zs new c x p where works: "tick_works lib w pid b ys r zs new c x p"
      using shape by blast
    then show ?thesis
      using bus_ok_kept [OF assms tick_kept [OF works]] by (simp add: tick_works_def)
  qed
qed

lemma step_ok:
  assumes "inj (el_uuid lib)" "bus_ok lib (fst b)"
  shows "bus_ok lib (fst (bus_step lib w describe pid cmd b)) \<and>
    won (hub_rows (fst b)) \<subseteq> won (hub_rows (fst (bus_step lib w describe pid cmd b)))"
proof (cases cmd)
  case Tick
  then show ?thesis using tick_ok [OF assms] by (simp add: bus_step_def)
next
  case (Emit d)
  then show ?thesis using bus_ok_grown [OF assms emit_grown [OF assms(1)]] by (simp add: bus_step_def)
next
  case (Install spec replace)
  have "bus_ok lib (snd (install_reaction spec replace h)) = bus_ok lib h"
    "hub_rows (snd (install_reaction spec replace h)) = hub_rows h" for h
    by (auto simp: install_reaction_def bus_ok_def hub_rows_def split: sum.splits)
  then show ?thesis using Install assms(2) by (simp add: bus_step_def)
next
  case Recover
  obtain rs' where rs': "snd (recover_stale_claims describe (now_iso lib (fst b)) (hb_outbox (fst b))) = rewrite_outbox rs'"
      "list_all2 record_step (hub_rows (fst b)) rs'"
    using recover_rows [of describe "now_iso lib (fst b)" "hub_rows (fst b)"] bus_okE(1) [OF assms(2)]
    by (metis prod.collapse)
  then show ?thesis
    using Recover bus_ok_steps [OF assms rs'(2)] by (simp add: bus_step_def recover_outbox_def Let_def)
next
  case (Revive i)
  obtain rs' where rs': "snd (retry_dead_lettered i (now_iso lib (fst b)) (hb_outbox (fst b))) = rewrite_outbox rs'"
      "list_all2 record_step (hub_rows (fst b)) rs'"
    using retry_rows [of i "now_iso lib (fst b)" "hub_rows (fst b)"] bus_okE(1) [OF assms(2)]
    by (metis prod.collapse)
  show ?thesis
  proof (cases "retry_dead_lettered i (now_iso lib (fst b)) (hb_outbox (fst b))")
    case (Pair y ob)
    then show ?thesis
      using Revive assms(2) bus_ok_steps [OF assms rs'(2)] rs'(1)
      by (cases y) (auto simp: bus_step_def reaction_retry_def)
  qed
qed

section \<open>At most once\<close>

lemma precheck_run:
  "precheck lib w force c b = Inr (spec, ev) \<longleftrightarrow>
     event_for (fst b) c = Inr ev \<and> reaction_for (fst b) c = Inr spec \<and>
     is_suppressed force (fst b) c = Inr False \<and> gate_allows lib w spec ev (snd b) = Inr True \<and>
     check_repeated_pair (fst b) c ev = ok \<and> check_event_depth (fst b) ev = ok"
  by (auto simp: precheck_def Let_def result_simps ok_def)

lemma precheck_acts: "precheck lib w force c b \<noteq> Inl (Acted a)"
  by (auto simp: precheck_def Let_def result_simps)

lemma not_suppressed:
  assumes "fst (process_record lib w False c b) = Acted a" "hb_outbox (fst b) = rewrite_outbox rs"
    and "ox_idempotency_key c = Some k"
  shows "\<not> list_ex (suppressed_by c) rs"
proof -
  obtain spec ev where "precheck lib w False c b = Inr (spec, ev)"
    using assms(1) precheck_acts [of lib w False c b]
    by (auto simp: process_record_def split: sum.splits)
  then show ?thesis using assms(2,3) by (simp add: precheck_run is_suppressed_def)
qed

lemma delivery_of_mem:
  "nk \<in> set (delivery_of (Some (c, p))) \<longleftrightarrow>
     (\<exists>a k. p = Acted a \<and> ao_status a = ActSucceeded \<and> ox_idempotency_key c = Some k \<and>
        nk = (ox_reaction_name c, k))"
  by (cases p; cases "ox_idempotency_key c") (auto simp: delivery_of_def)

lemma claim_next_at:
  assumes "claimable now r" "\<not> list_ex (claimable now) ys"
  shows "claim_next now pid stamp (rewrite_outbox (ys @ r # zs)) =
    (Inr (Some (claim now pid stamp r)), rewrite_outbox (ys @ claim now pid stamp r # zs))"
proof -
  have "find (claimable now) (ys @ r # zs) = Some r" using assms by (induction ys) auto
  then show ?thesis
    using assms change_first_at [of ys "claimable now" r "claim now pid stamp" zs]
    by (simp add: claim_next_def list_ex_iff)
qed

lemma success_no_panic:
  "fst (work_on lib w c b) = Acted a \<Longrightarrow> ao_status a = ActSucceeded \<Longrightarrow>
     fst (snd (work_on lib w c b)) \<noteq> Inl TickPanic"
  by (auto simp: work_on_def Let_def handle_tick_result_def succeed_with_def settle_outbox_def)

lemma delivery_new:
  assumes "tick_works lib w pid b ys r zs new c x p" "bus_ok lib (fst b)"
    and "nk \<in> set (delivery_of (tick_outcome lib w pid b))"
  shows "nk \<notin> won (hub_rows (fst b))" "nk \<in> won (ys @ x # zs @ new)"
    "delivery_of (tick_outcome lib w pid b) = [nk]"
proof -
  have out: "tick_outcome lib w pid b = Some (c, p)" and rows: "hub_rows (fst b) = ys @ r # zs"
    and c: "c = claim (now_iso lib (fst b)) pid (now_iso lib (fst b)) r" and wait: "waiting r"
    using assms(1) by (simp_all add: tick_works_def claimable_def)
  obtain a k where p: "p = Acted a" "ao_status a = ActSucceeded" "ox_idempotency_key c = Some k"
      "nk = (ox_reaction_name c, k)"
    using assms(3) unfolding out delivery_of_mem by blast
  then show "delivery_of (tick_outcome lib w pid b) = [nk]" by (simp add: out delivery_of_def)
  obtain b1 where one: "claim_one lib pid b = (Inr (Some c), b1)" "p = fst (work_on lib w c b1)"
    using out by (auto simp: tick_outcome_def split: prod.splits sum.splits option.splits)
  have b1: "hb_outbox (fst b1) = rewrite_outbox (ys @ c # zs)"
    using claim_one_hub(1) [OF assms(2), of pid] one(1) assms(1)
    by (simp add: bus_okE(1) [OF assms(2)] rows claim_next_at tick_works_def)
  have other: "ox_id y \<noteq> ox_id c" if "y \<in> set ys \<union> set zs" for y
    using that bus_okE(2) [OF assms(2)] unfolding rows c by (auto simp: claim_def image_iff)
  have "fst (process_record lib w False c b1) = Acted a"
    using one(2) p(1) by (simp add: work_on_def Let_def)
  then have "\<not> list_ex (suppressed_by c) (ys @ c # zs)" using b1 p(3) by (rule not_suppressed)
  then have "\<not> (ox_status y = OxSucceeded \<and> ox_reaction_name y = ox_reaction_name c \<and> ox_idempotency_key y = Some k)"
    if "y \<in> set ys \<union> set zs" for y
    using that other [OF that] p(3) by (auto simp: list_ex_iff suppressed_by_def)
  moreover have "ox_status r \<noteq> OxSucceeded" using wait by (auto simp: waiting_def)
  ultimately show "nk \<notin> won (hub_rows (fst b))" by (auto simp: rows won_def p(4))
  have "fst (tick lib w pid b) \<noteq> Inl TickPanic"
    using one success_no_panic [of lib w c b1 a] p(1,2)
    by (auto simp: tick_def split: prod.splits sum.splits)
  then have "settling c OxSucceeded x"
    using assms(1) p(1,2) by (auto simp: tick_works_def settled_status_def)
  then show "nk \<in> won (ys @ x # zs @ new)"
    using p(3) by (auto simp: won_def p(4) succeed_def elim!: settlingE)
qed




end
