(* ===== verification/Events_Laws.thy ===== *)
theory Events_Laws
  imports Events_Safety
begin

text \<open>
  Laws of single rows along undisturbed runs of the event bus, those without a recovery or a revival by
  hand. The locale \<open>row_law\<close> has one law per operation of the worker; the bound of the attempts and the
  agreement of the fields of a row are its instances. Then what ends the worker, the delays between
  attempts, the dry run and the reactions after a restart.
\<close>

section \<open>Laws of rows\<close>

definition max_attempts_cap :: u32 where
  "max_attempts_cap = 20"

locale row_law =
  fixes I :: "outbox_record \<Rightarrow> bool"
  assumes fresh: "I (new_outbox_record i now ev name key)"
    and claimed: "I r \<Longrightarrow> waiting r \<Longrightarrow> I (claim now pid stamp r)"
    and settled: "I c \<Longrightarrow> ox_status c = OxClaimed \<Longrightarrow> settling c st x \<Longrightarrow>
      (st = OxRetryAt \<Longrightarrow> ox_attempt_count c < max_attempts_cap) \<Longrightarrow> I x"

definition undisturbed :: "bus_command \<Rightarrow> bool" where
  "undisturbed cmd = (case cmd of Recover \<Rightarrow> False | Revive _ \<Rightarrow> False | _ \<Rightarrow> True)"

definition reactions_capped :: "hub \<Rightarrow> bool" where
  "reactions_capped h \<longleftrightarrow> (\<forall>p\<in>set (hb_reactions h). rp_max_attempts (rs_retry (snd p)) \<le> max_attempts_cap)"

lemma capped_attempts: "reactions_capped h \<Longrightarrow> max_attempts_of h r \<le> max_attempts_cap"
  by (auto simp: max_attempts_of_def get_reaction_def reactions_capped_def max_attempts_cap_def
      dest!: obj_get_Some_mem split: option.splits)

lemma validated_capped: "validate_reaction_spec spec = Inr u \<Longrightarrow> rp_max_attempts (rs_retry spec) \<le> max_attempts_cap"
  by (auto simp: validate_reaction_spec_def result_simps max_attempts_cap_def not_less)

lemma install_capped:
  assumes "reactions_capped h"
  shows "reactions_capped (snd (install_reaction spec replace h))"
proof -
  have mem: "p \<in> set m \<or> p = (k, v)" if "p \<in> set (obj_insert m k v)" for p k and v :: reaction_spec and m
    using that by (induction m k v rule: obj_insert.induct) (auto split: if_splits)
  have "reactions_capped (h\<lparr>hb_reactions := obj_insert (hb_reactions h) n spec\<rparr>)"
    if "rp_max_attempts (rs_retry spec) \<le> max_attempts_cap" for n
    using mem [of _ "hb_reactions h" n spec] assms that unfolding reactions_capped_def by fastforce
  then show ?thesis
    using assms validated_capped [of spec]
    by (auto simp: install_reaction_def reactions_capped_def split: sum.splits)
qed

lemma settled_retry:
  "settled_status c p m = OxRetryAt \<Longrightarrow> ox_attempt_count c < m"
  by (auto simp: settled_status_def not_le split: process_result.splits action_status.splits if_splits)

context row_law
begin

lemma tick_law:
  assumes "tick_works lib w pid b ys r zs new c x p" "reactions_capped (fst b)"
    and "list_all I (hub_rows (fst b))"
  shows "list_all I (ys @ x # zs @ new)"
proof -
  have r: "I r" "list_all I ys" "list_all I zs" "waiting r"
    using assms by (auto simp: tick_works_def claimable_def)
  have c: "I c" "ox_status c = OxClaimed"
    using assms(1) claimed [OF r(1,4)] by (auto simp: tick_works_def claim_def)
  have "I x"
    using assms(1) c settled [OF c] settled_retry capped_attempts [OF assms(2), of r]
    unfolding tick_works_def by (metis less_le_trans)
  moreover have "list_all I new"
    using assms(1) fresh unfolding tick_works_def fresh_rows_def fresh_row_def list_all_iff by metis
  ultimately show ?thesis using r by simp
qed

lemma step_law:
  assumes "inj (el_uuid lib)" "bus_ok lib (fst b)" "reactions_capped (fst b)"
    and "list_all I (hub_rows (fst b))" "undisturbed cmd"
  shows "reactions_capped (fst (bus_step lib w describe pid cmd b)) \<and>
    list_all I (hub_rows (fst (bus_step lib w describe pid cmd b)))"
proof (cases cmd)
  case Tick
  note shape = tick_shape [OF assms(1,2), of w pid]
  have "list_all I (hub_rows (fst (snd (tick lib w pid b))))"
  proof (cases "tick_idle lib w pid b")
    case True
    then show ?thesis using assms(4) by (simp add: tick_idle_def hub_rows_def)
  next
    case False
    then obtain ys r zs new c x p where works: "tick_works lib w pid b ys r zs new c x p"
      using shape by blast
    then have "hub_rows (fst (snd (tick lib w pid b))) = ys @ x # zs @ new"
      by (simp add: tick_works_def hub_rows_rewrite)
    then show ?thesis using tick_law [OF works assms(3,4)] by simp
  qed
  then show ?thesis using Tick shape assms(3) by (simp add: bus_step_def reactions_capped_def)
next
  case (Emit d)
  let ?h = "snd (emit_event lib d (fst b))"
  obtain new where new: "hb_outbox ?h = hb_outbox (fst b) @ map Row new"
      "fresh_rows lib (hb_drawn (fst b)) (hb_drawn ?h) new" and same: "hb_reactions ?h = hb_reactions (fst b)"
    using emit_grown [OF assms(1), of "fst b" d] by (auto simp: grown_def)
  have "hb_outbox ?h = rewrite_outbox (hub_rows (fst b) @ new)"
    using new(1) bus_okE(1) [OF assms(2)] by (simp add: rewrite_outbox_def)
  moreover have "list_all I new"
    using new(2) fresh unfolding fresh_rows_def fresh_row_def list_all_iff by metis
  ultimately show ?thesis
    using Emit same assms(3,4) by (simp add: bus_step_def reactions_capped_def hub_rows_rewrite)
next
  case (Install spec replace)
  have "hub_rows (snd (install_reaction spec replace h)) = hub_rows h" for h
    by (auto simp: install_reaction_def hub_rows_def split: sum.splits)
  then show ?thesis using Install assms(3,4) install_capped by (simp add: bus_step_def)
qed (use assms(5) in \<open>simp_all add: undisturbed_def\<close>)

lemma run_law:
  assumes "inj (el_uuid lib)"
  shows "bus_ok lib (fst b) \<Longrightarrow> reactions_capped (fst b) \<Longrightarrow> list_all I (hub_rows (fst b)) \<Longrightarrow>
    list_all undisturbed cmds \<Longrightarrow> list_all I (hub_rows (fst (run_bus lib w describe pid cmds b)))"
proof (induction cmds arbitrary: b)
  case (Cons cmd cmds)
  then show ?case
    using step_ok [OF assms, of b w describe pid cmd] step_law [OF assms, of b cmd w describe pid] by simp
qed simp

end

section \<open>Attempts\<close>

definition attempts_in_bounds :: "outbox_record \<Rightarrow> bool" where
  "attempts_in_bounds r \<longleftrightarrow>
     ox_attempt_count r \<le> max_attempts_cap \<and>
     (ox_status r = OxPending \<longrightarrow> ox_attempt_count r = 0) \<and>
     (ox_status r = OxRetryAt \<longrightarrow> ox_attempt_count r < max_attempts_cap)"

interpretation attempts: row_law attempts_in_bounds
proof
  show "attempts_in_bounds (new_outbox_record i now ev name key)" for i now ev name key
    by (simp add: attempts_in_bounds_def new_outbox_record_def max_attempts_cap_def)
  show "attempts_in_bounds (claim now pid stamp r)" if "attempts_in_bounds r" "waiting r" for now pid stamp r
  proof -
    have "ox_attempt_count r < max_attempts_cap"
      using that by (auto simp: attempts_in_bounds_def waiting_def max_attempts_cap_def)
    then have "ox_attempt_count r + 1 \<le> max_attempts_cap" by (simp add: inc_le)
    then show ?thesis by (simp add: attempts_in_bounds_def claim_def)
  qed
  show "attempts_in_bounds x"
    if "attempts_in_bounds c" "ox_status c = OxClaimed" "settling c st x"
      "st = OxRetryAt \<Longrightarrow> ox_attempt_count c < max_attempts_cap" for c st x
    using that(3,1,2,4)
    by (cases rule: settling.cases) (auto simp: attempts_in_bounds_def succeed_def postpone_def bury_def)
qed

text \<open>Property C29. As long as no recovery and no revival by hand intervenes, no record is ever tried more than twenty
  times, whatever the reactions installed meanwhile allow, and one that will be tried again has been
  tried less often than that.\<close>

theorem attempts_bounded:
  assumes "inj (el_uuid lib)" "bus_ok lib (fst b)" "reactions_capped (fst b)"
    and "list_all attempts_in_bounds (hub_rows (fst b))" "list_all undisturbed cmds"
  shows "list_all (\<lambda>r. unat (ox_attempt_count r) \<le> 20 \<and> (waiting r \<longrightarrow> unat (ox_attempt_count r) < 20))
    (hub_rows (fst (run_bus lib w describe pid cmds b)))"
proof -
  have "unat (ox_attempt_count r) \<le> 20 \<and> (waiting r \<longrightarrow> unat (ox_attempt_count r) < 20)"
    if "attempts_in_bounds r" for r
    using that by (auto simp: attempts_in_bounds_def waiting_def max_attempts_cap_def word_le_nat_alt word_less_nat_alt)
  then show ?thesis using attempts.run_law [OF assms] by (metis (mono_tags, lifting) list.pred_mono_strong)
qed

section \<open>Fields\<close>

definition fields_agree :: "outbox_record \<Rightarrow> bool" where
  "fields_agree r \<longleftrightarrow>
     (ox_claimed_at r \<noteq> None \<longleftrightarrow> ox_status r = OxClaimed) \<and>
     (ox_claimed_by r \<noteq> None \<longleftrightarrow> ox_status r = OxClaimed) \<and>
     (ox_dead_letter_reason r \<noteq> None \<longleftrightarrow> ox_status r = OxDeadLettered) \<and>
     (ox_status r = OxRetryAt \<longrightarrow> ox_next_attempt_at r \<noteq> None \<and> ox_last_error r \<noteq> None)"

interpretation fields: row_law fields_agree
proof
  show "fields_agree x"
    if "fields_agree c" "ox_status c = OxClaimed" "settling c st x"
      "st = OxRetryAt \<Longrightarrow> ox_attempt_count c < max_attempts_cap" for c st x
    using that(3,1,2)
    by (cases rule: settling.cases) (auto simp: fields_agree_def succeed_def postpone_def bury_def)
qed (auto simp: fields_agree_def new_outbox_record_def claim_def waiting_def)

text \<open>Without recoveries and revivals the fields of every record keep to its status: it names who claimed
  it exactly while it is claimed, a reason exactly when it is dead, and when to try again and why
  whenever it waits for another try.\<close>

theorem record_fields_agree:
  assumes "inj (el_uuid lib)" "bus_ok lib (fst b)" "reactions_capped (fst b)"
    and "list_all fields_agree (hub_rows (fst b))" "list_all undisturbed cmds"
  shows "list_all (\<lambda>r. (ox_claimed_by r \<noteq> None \<longleftrightarrow> ox_status r = OxClaimed) \<and>
      (ox_dead_letter_reason r \<noteq> None \<longleftrightarrow> ox_status r = OxDeadLettered) \<and>
      (ox_status r = OxRetryAt \<longrightarrow> ox_next_attempt_at r \<noteq> None \<and> ox_last_error r \<noteq> None))
    (hub_rows (fst (run_bus lib w describe pid cmds b)))"
  using fields.run_law [OF assms] by (simp add: list_all_iff fields_agree_def)

lemma sample_capped: "reactions_capped sample_hub"
  by (simp add: reactions_capped_def sample_hub_def sample_reaction_def default_retry_def max_attempts_cap_def)

lemma sample_rows: "hub_rows sample_hub = [new_outbox_record ''outbox-'' ''t'' ''e'' ''r'' (Some ''k'')]"
  by (simp add: hub_rows_def sample_hub_def)

theorem attempts_bounded_witness:
  "list_all (\<lambda>r. unat (ox_attempt_count r) \<le> 20 \<and> (waiting r \<longrightarrow> unat (ox_attempt_count r) < 20))
     (hub_rows (fst (run_bus sample_lib (sample_world (Inl ''dns'')) (\<lambda>_. []) ''p'' [Tick, Tick] (sample_hub, ()))))"
  by (rule attempts_bounded [OF sample_inj])
    (simp_all add: sample_bus_ok sample_capped sample_rows undisturbed_def attempts_in_bounds_def
      new_outbox_record_def max_attempts_cap_def)

theorem record_fields_agree_witness:
  "list_all (\<lambda>r. ox_claimed_by r \<noteq> None \<longleftrightarrow> ox_status r = OxClaimed)
     (hub_rows (fst (run_bus sample_lib (sample_world (Inl ''dns'')) (\<lambda>_. []) ''p'' [Tick, Tick] (sample_hub, ()))))"
  by (rule list.pred_mono_strong [OF record_fields_agree [OF sample_inj]])
    (simp_all add: sample_bus_ok sample_capped sample_rows undisturbed_def fields_agree_def new_outbox_record_def)

section \<open>The end of the worker\<close>

text \<open>The text of a failure, which is redacted before it is written down.\<close>

definition failure_text :: "event_lib \<Rightarrow> process_result \<Rightarrow> string option" where
  "failure_text lib p =
     (case p of
        PreCheckErr (WorkerPermanent t) \<Rightarrow> Some t
      | PreCheckErr (WorkerNonRetryable t) \<Rightarrow> Some t
      | Acted a \<Rightarrow>
          if ao_status a \<in> {PermanentFailure, RetryableFailure}
          then Some (wl_show (el_wf lib) (ao_summary a)) else None
      | _ \<Rightarrow> None)"

lemma handle_panic:
  "fst (handle_tick_result lib w r p m b) = Inl TickPanic \<longleftrightarrow>
     (\<exists>t. failure_text lib p = Some t \<and> redact_string t = None)"
  by (auto simp: handle_tick_result_def failure_text_def with_redacted_def dead_letter_def retry_or_bury_def
      succeed_with_def settle_outbox_def Let_def
      split: process_result.split worker_error.split action_status.split option.split)

lemma claimed_stays:
  assumes "inj (el_uuid lib)" "bus_ok lib (fst b)" "c \<in> set (hub_rows (fst b))"
    and "ox_status c = OxClaimed" "undisturbed cmd"
  shows "c \<in> set (hub_rows (fst (bus_step lib w describe pid cmd b)))"
proof (cases cmd)
  case Tick
  show ?thesis
  proof (cases "tick_idle lib w pid b")
    case True
    then show ?thesis using Tick assms(3) by (simp add: bus_step_def tick_idle_def hub_rows_def)
  next
    case False
    then obtain ys r zs new c' x p where works: "tick_works lib w pid b ys r zs new c' x p"
      using tick_shape [OF assms(1,2), of w pid] by blast
    then have "hub_rows (fst b) = ys @ r # zs" "c \<noteq> r"
      "hub_rows (fst (snd (tick lib w pid b))) = ys @ x # zs @ new"
      using assms(4) by (auto simp: tick_works_def hub_rows_rewrite claimable_def waiting_def)
    then show ?thesis using Tick assms(3) by (auto simp: bus_step_def)
  qed
next
  case (Emit d)
  obtain new where "hb_outbox (snd (emit_event lib d (fst b))) = rewrite_outbox (hub_rows (fst b) @ new)"
    using emit_grown [OF assms(1), of "fst b" d] bus_okE(1) [OF assms(2)]
    by (auto simp: grown_def rewrite_outbox_def)
  then show ?thesis using Emit assms(3) by (simp add: bus_step_def hub_rows_rewrite)
next
  case (Install spec replace)
  have "hub_rows (snd (install_reaction spec replace h)) = hub_rows h" for h
    by (auto simp: install_reaction_def hub_rows_def split: sum.splits)
  then show ?thesis using Install assms(3) by (simp add: bus_step_def)
qed (use assms(5) in \<open>simp_all add: undisturbed_def\<close>)

text \<open>Property C34. A tick panics when the failure it has to note down makes the redaction panic. The worker then ends at once, the record it had claimed stays claimed, and no later event, tick or installation
  changes that.\<close>

theorem panic_ends_worker:
  assumes "inj (el_uuid lib)" "bus_ok lib (fst b)" "tick_outcome lib w pid b = Some (c, p)"
    and "failure_text lib p = Some t" "redact_string t = None" "list_all undisturbed cmds"
  shows "run_worker lib w pid (Suc n) b = (False, snd (tick lib w pid b)) \<and>
    ox_status c = OxClaimed \<and>
    c \<in> set (hub_rows (fst (run_bus lib w describe pid cmds (snd (tick lib w pid b)))))"
proof -
  have stay: "c \<in> set (hub_rows (fst (run_bus lib w describe pid cmds b)))"
    if "c \<in> set (hub_rows (fst b))" "bus_ok lib (fst b)" "ox_status c = OxClaimed" "list_all undisturbed cmds" for b cmds
    using that
  proof (induction cmds arbitrary: b)
    case (Cons cmd cmds)
    have "c \<in> set (hub_rows (fst (bus_step lib w describe pid cmd b)))"
      by (rule claimed_stays [OF assms(1) Cons.prems(2,1,3)]) (use Cons.prems(4) in simp)
    then show ?case
      using Cons.IH [of "bus_step lib w describe pid cmd b"] Cons.prems
        step_ok [OF assms(1) Cons.prems(2), of w describe pid cmd]
      by simp
  qed simp
  have "\<not> tick_idle lib w pid b" using assms(3) by (simp add: tick_idle_def)
  then obtain ys r zs new c' x p' where works: "tick_works lib w pid b ys r zs new c' x p'"
    using tick_shape [OF assms(1,2), of w pid] by blast
  have same: "c' = c" "p' = p" using works assms(3) by (simp_all add: tick_works_def)
  have panic: "fst (tick lib w pid b) = Inl TickPanic"
  proof -
    obtain b1 where one: "claim_one lib pid b = (Inr (Some c), b1)" "p = fst (work_on lib w c b1)"
      using assms(3) by (auto simp: tick_outcome_def split: prod.splits sum.splits option.splits)
    have "fst (snd (work_on lib w c b1)) = Inl TickPanic"
      using one(2) assms(4,5) by (auto simp: work_on_def Let_def handle_panic)
    then show ?thesis using one(1) by (cases "snd (work_on lib w c b1)") (simp add: tick_def)
  qed
  have rows: "hub_rows (fst (snd (tick lib w pid b))) = ys @ c # zs @ new" "ox_status c = OxClaimed"
    using works panic same by (auto simp: tick_works_def hub_rows_rewrite claim_def)
  have "run_worker lib w pid (Suc n) b = (False, snd (tick lib w pid b))"
    using panic by (cases "tick lib w pid b") simp
  moreover have "c \<in> set (hub_rows (fst (run_bus lib w describe pid cmds (snd (tick lib w pid b)))))"
    by (rule stay) (use rows tick_ok [OF assms(1,2)] assms(6) in simp_all)
  ultimately show ?thesis using rows(2) by simp
qed

text \<open>An HTTP request whose description is wrong in a word with an accent.\<close>

definition accent :: string where
  "accent = [CHR 0xC3, CHR 0xA9]"

definition sample_row :: outbox_record where
  "sample_row = claim ''t'' ''p'' ''t'' (new_outbox_record ''outbox-'' ''t'' ''e'' ''r'' (Some ''k''))"

definition sample_claimed :: hub where
  "sample_claimed = draw (sample_hub\<lparr>hb_outbox := rewrite_outbox [sample_row]\<rparr>)"

lemma sample_claim: "claim_one sample_lib ''p'' (sample_hub, ()) = (Inr (Some sample_row), (sample_claimed, ()))"
proof -
  have "now_iso sample_lib sample_hub = ''t''"
    by (simp add: now_iso_def sample_lib_def sample_hub_def)
  moreover have "hb_outbox sample_hub = rewrite_outbox ([] @ new_outbox_record ''outbox-'' ''t'' ''e'' ''r'' (Some ''k'') # [])"
    by (simp add: sample_hub_def)
  moreover have "claimable ''t'' (new_outbox_record ''outbox-'' ''t'' ''e'' ''r'' (Some ''k''))"
    by (simp add: claimable_def waiting_def new_outbox_record_def)
  ultimately show ?thesis
    using claim_next_at [of "''t''" _ "[]" "''p''" "''t''" "[]"]
    by (simp add: claim_one_def settle_outbox_def Let_def sample_row_def sample_claimed_def map_err_def)
qed

lemma sample_reads:
  "event_for sample_claimed sample_row = Inr (tick_event ''e'' ''t'' None)"
  "reaction_for sample_claimed sample_row = Inr sample_reaction"
  "is_suppressed False sample_claimed sample_row = Inr False"
  "gate_allows sample_lib w sample_reaction ev () = Inr True"
  by (simp_all add: event_for_def open_event_def journal_events_def load_journal_def sample_claimed_def
      sample_hub_def open_journal_def wrap_event_def tick_event_def sample_row_def claim_def new_outbox_record_def
      rbind_def reaction_for_def get_reaction_def is_suppressed_def suppressed_by_def gate_allows_def
      reaction_gate_allows_def sample_reaction_def)

lemma sample_chain:
  "check_repeated_pair sample_claimed sample_row (tick_event ''e'' ''t'' None) = ok"
  "check_event_depth sample_claimed (tick_event ''e'' ''t'' None) = ok"
  by (simp_all add: check_repeated_pair_def check_event_depth_def causation_chain_for_def causation_chain_def
      sample_claimed_def sample_hub_def open_journal_def index_of_def index_event_def wrap_event_def
      tick_event_def chain_limit_def max_causation_depth_def guard_err_def ok_def Let_def numeral_eq_Suc)

lemma sample_precheck:
  "precheck sample_lib w False sample_row (sample_claimed, ()) =
     Inr (sample_reaction, tick_event ''e'' ''t'' None)"
  by (simp add: precheck_run sample_reads sample_chain)

definition accent_world :: "unit event_world" where
  "accent_world = (sample_world (Inl [])) \<lparr>xw_http_spec := (\<lambda>_. Inl accent)\<rparr>"

lemma sample_outcome:
  "tick_outcome sample_lib accent_world ''p'' (sample_hub, ()) =
     Some (sample_row, Acted (failed_action PermanentFailure (''http_json spec: '' @ accent)))"
  by (simp add: tick_outcome_def sample_claim work_on_def Let_def process_record_def sample_precheck
      execute_action_def sample_reaction_def exec_http_json_def with_args_def accent_world_def)

lemma accent_panics: "redact_string (sample_show (JObj [(''error'', JStr (''http_json spec: '' @ accent))])) = None" by code_simp

lemma sample_failure:
  "failure_text sample_lib (Acted (failed_action PermanentFailure (''http_json spec: '' @ accent))) =
     Some (sample_show (JObj [(''error'', JStr (''http_json spec: '' @ accent))]))"
  by (simp add: failure_text_def failed_action_def sample_lib_def)

theorem panic_ends_worker_witness:
  "run_worker sample_lib accent_world ''p'' (Suc 2) (sample_hub, ()) =
     (False, snd (tick sample_lib accent_world ''p'' (sample_hub, ()))) \<and>
   sample_row \<in> set (hub_rows (fst (run_bus sample_lib accent_world (\<lambda>_. []) ''p'' [Tick, Tick]
     (snd (tick sample_lib accent_world ''p'' (sample_hub, ()))))))"
proof -
  have "bus_ok sample_lib (fst (sample_hub, ()))" "list_all undisturbed [Tick, Tick]"
    by (simp_all add: sample_bus_ok undisturbed_def)
  from panic_ends_worker [OF sample_inj this(1) sample_outcome sample_failure accent_panics this(2), of 2 "\<lambda>_. []"]
  show ?thesis by (elim conjE) (intro conjI)
qed
end
