(* ===== verification/Events_Promises.thy ===== *)
theory Events_Promises
  imports Events_Laws
begin

text \<open>
  More promises of the event bus: the delays between attempts, the dry run of a reaction, the events at
  the limit of the depth, and the reactions after a restart.
\<close>

section \<open>Delays\<close>

lemma doubled_delay:
  assumes "n \<le> 61"
  shows "unat (5 * 2 ^ n :: u64) = 5 * 2 ^ n"
proof -
  have "(5 * 2 ^ n :: u64) = of_nat (5 * 2 ^ n)" by simp
  moreover have "5 * 2 ^ n \<le> 5 * (2 ^ 61 :: nat)"
    using power_increasing [OF assms, of "2 :: nat"] by (intro mult_left_mono) simp_all
  ultimately show ?thesis by (simp add: unat_of_nat take_bit_eq_mod del: of_nat_mult of_nat_power)
qed

lemma capped_delay:
  assumes "n < 64"
  shows "5 \<le> min (5 * 2 ^ n :: u64) 600"
proof (cases "n \<le> 61")
  case True
  have "5 * 2 ^ 0 \<le> 5 * (2 ^ n :: nat)" by (rule mult_left_mono) simp_all
  then have "5 \<le> (5 * 2 ^ n :: u64)" by (simp add: word_le_nat_alt doubled_delay [OF True])
  then show ?thesis by simp
next
  case False
  then have "n = 62 \<or> n = 63" using assms by auto
  then show ?thesis by auto
qed

lemma min_delay:
  assumes "n \<le> 61"
  shows "unat (min (5 * 2 ^ n :: u64) 600) = min (5 * 2 ^ n) 600"
  using doubled_delay [OF assms] by (simp add: min_def word_le_nat_alt)

lemma jitter: "unat (x mod 3 :: u64) < 3"
  by (simp add: unat_mod)

lemma backoff_parts:
  assumes "unat a \<le> 600" "unat (j :: u64) < 3"
  shows "unat (a + j :: u64) = unat a + unat j"
  by (rule unat_add_lem [THEN iffD1]) (use assms in simp)

text \<open>The delay before another attempt is between five seconds and ten minutes and two seconds whatever
  the number of attempts, even where the power overflows; up to the twentieth attempt it is five
  seconds doubled with every attempt, at most ten minutes, and less than three seconds more.\<close>

theorem backoff_bounds:
  "5 \<le> unat (backoff_secs r) \<and> unat (backoff_secs r) \<le> 602 \<and>
   (unat (ox_attempt_count r) \<le> 20 \<longrightarrow>
      (\<exists>j<3. unat (backoff_secs r) = min (5 * 2 ^ (unat (ox_attempt_count r) - 1)) 600 + j))"
proof -
  define n where "n = unat (ox_attempt_count r) - 1"
  define a where "a = min (initial_backoff_secs * saturating_pow2 n) max_backoff_secs"
  have "5 \<le> a \<and> a \<le> 600"
  proof (cases "n < 64")
    case True
    then show ?thesis
      using capped_delay
      by (simp add: a_def initial_backoff_secs_def max_backoff_secs_def saturating_pow2_def)
  next
    case False
    then show ?thesis by (simp add: a_def initial_backoff_secs_def max_backoff_secs_def saturating_pow2_def)
  qed
  then have bounds: "5 \<le> unat a" "unat a \<le> 600" by (simp_all add: word_le_nat_alt)
  let ?j = "id_sum (ox_id r) mod 3"
  have sum: "unat (backoff_secs r) = unat a + unat ?j"
    unfolding backoff_secs_def Let_def using backoff_parts [OF bounds(2) jitter]
    by (simp add: a_def n_def)
  have "unat a = min (5 * 2 ^ n) 600" if "unat (ox_attempt_count r) \<le> 20"
  proof -
    have "unat (min (5 * 2 ^ n :: u64) 600) = min (5 * 2 ^ n) 600"
      by (rule min_delay) (use that in \<open>simp add: n_def\<close>)
    moreover have "n < 64" using that by (simp add: n_def)
    ultimately show ?thesis
      by (simp add: a_def initial_backoff_secs_def max_backoff_secs_def saturating_pow2_def)
  qed
  then show ?thesis
    using sum bounds jitter [of "id_sum (ox_id r)"] unfolding n_def
    by (intro conjI impI exI [of _ "unat ?j"]) simp_all
qed

theorem backoff_bounds_witness:
  "\<exists>j<3. unat (backoff_secs (sample_row\<lparr>ox_attempt_count := 3\<rparr>)) = 20 + j"
  using backoff_bounds [of "sample_row\<lparr>ox_attempt_count := 3\<rparr>"] by simp

section \<open>The dry run\<close>

text \<open>Property C37. The dry run of a reaction tells what the worker will do with the record enqueued for it: the record
  is suppressed exactly when the dry run says so, and otherwise skipped by its gate exactly when the
  dry run does not see it allowed.\<close>

theorem dry_run_predicts:
  assumes "dry_run_replay (el_wf lib) (el_packets lib) (xw_packets w s) spec ev rs = Inr dry"
    and "hb_outbox h = rewrite_outbox (rs @ [r])" "ox_id r \<notin> ox_id ` set rs" "ox_status r = OxClaimed"
    and "ox_reaction_name r = rs_name spec" "ox_idempotency_key r = dr_rendered_key dry"
    and "event_for h r = Inr ev" "reaction_for h r = Inr spec"
  shows "(precheck lib w False r (h, s) = Inl Suppressed \<longleftrightarrow> dr_suppressed dry) \<and>
    (precheck lib w False r (h, s) = Inl GateSkipped \<longleftrightarrow> \<not> dr_suppressed dry \<and> \<not> gd_allowed (dr_gate dry))"
proof -
  obtain key where dry: "reaction_gate_allows (el_packets lib) (xw_packets w s) spec ev = Inr (dr_gate dry)"
      "dr_suppressed dry = (case dr_rendered_key dry of Some k \<Rightarrow> list_ex (delivered (rs_name spec) k) rs | None \<Rightarrow> False)"
    using assms(1) by (auto simp: dry_run_replay_def result_simps)
  have same: "list_ex (suppressed_by r) rs = list_ex (delivered (rs_name spec) k) rs"
    if "dr_rendered_key dry = Some k" for k
    using that assms(3,5,6) unfolding list_ex_iff suppressed_by_def delivered_def
    by (metis image_eqI option.distinct(1))
  have sup: "is_suppressed False h r = Inr (dr_suppressed dry)"
    using dry(2) same assms(2,4-6)
    by (auto simp: is_suppressed_def suppressed_by_def split: option.splits)
  have gate: "gate_allows lib w spec ev s = Inr (gd_allowed (dr_gate dry))"
    by (simp add: gate_allows_def dry(1))
  show ?thesis
    using assms(7,8) sup gate by (auto simp: precheck_def Let_def result_simps map_err_def rbind_def guard_err_def split: sum.splits)
qed

section \<open>The limit of the depth\<close>

lemma chain_pending:
  "length (chain_from n idx i) = n \<Longrightarrow> obj_get (index_event ev idx) (ev_id ev) = Some ev"
  by (simp add: obj_get_index)

text \<open>The fourth event of a chain of causes is accepted and its reactions are enqueued like those of any
  event, but the worker never runs one: whatever it finds, it does not reach the action, even when told
  to ignore the idempotency key.\<close>

theorem fourth_event_never_acts:
  assumes "ed_causation_id d = Some c" "length (causation_chain c (hb_journal h)) = 3"
    and "unused_id (new_event_id lib h) (hb_journal h)" "c \<noteq> new_event_id lib h"
    and "event_for (snd (emit_event lib d h)) r = Inr (event_of_draft lib h d)"
  shows "(\<exists>out. fst (emit_event lib d h) = Inr out) \<and>
    (\<forall>a. fst (process_record lib w force r (snd (emit_event lib d h), s)) \<noteq> Acted a)"
proof -
  define ev where "ev = event_of_draft lib h d"
  have depth: "check_depth (ed_causation_id d) h = Inr ()"
    using assms(1,2) by (simp add: check_depth_def Let_def guard_err_def max_causation_depth_def)
  have journal: "hb_journal (snd (emit_event lib d h)) = append_envelope (wrap_event ev) (hb_journal h)"
    using depth by (simp add: emit_event_def Let_def ev_def)
  have id: "ev_id ev = new_event_id lib h" "ev_causation_id ev = Some c"
    by (simp_all add: ev_def event_of_draft_def assms(1))
  have "chain_from 3 (index_event ev (jl_index (hb_journal h))) c = chain_from 3 (jl_index (hb_journal h)) c"
    by (rule chain_skip) (use assms(3,4) id in \<open>auto simp: unused_id_def\<close>)
  moreover have "length (chain_from 3 (jl_index (hb_journal h)) c) = 3"
  proof (rule ccontr)
    assume "length (chain_from 3 (jl_index (hb_journal h)) c) \<noteq> 3"
    then have "length (chain_from 3 (jl_index (hb_journal h)) c) < 3"
      using chain_length [of 3 "jl_index (hb_journal h)" c] by simp
    then show False
      using chain_mono [of 3 "jl_index (hb_journal h)" c 1] assms(2) by (simp add: causation_chain_def chain_limit_def)
  qed
  ultimately have "length (causation_chain_for (ev_id ev) (snd (emit_event lib d h))) = 4"
    using id by (simp add: causation_chain_for_def causation_chain_def chain_limit_def journal append_envelope_def
        wrap_event_def obj_get_index numeral_eq_Suc)
  then have "check_event_depth (snd (emit_event lib d h)) ev \<noteq> ok"
    by (simp add: check_event_depth_def Let_def guard_err_def max_causation_depth_def ok_def)
  then have "\<nexists>y. precheck lib w force r (snd (emit_event lib d h), s) = Inr y"
    using assms(5) by (auto simp: precheck_run ev_def)
  then obtain res where "precheck lib w force r (snd (emit_event lib d h), s) = Inl res" by (meson sum.exhaust)
  then have "fst (process_record lib w force r (snd (emit_event lib d h), s)) \<noteq> Acted a" for a
    using precheck_acts [of lib w force r "(snd (emit_event lib d h), s)" a]
    by (simp add: process_record_def)
  then show ?thesis using depth by (simp add: emit_event_def Let_def)
qed

section \<open>Restart\<close>

text \<open>The directory holds one valid specification per installed reaction, under its name.\<close>

definition reaction_stored :: "reaction_file \<Rightarrow> bool" where
  "reaction_stored f \<longleftrightarrow>
     (\<exists>spec. snd f = Inr spec \<and> validate_reaction_spec spec = Inr () \<and> fst f = reaction_path (rs_name spec))"

definition read_reaction :: "reaction_file list \<Rightarrow> string \<Rightarrow> reaction_spec option" where
  "read_reaction files n =
     (case obj_get files (reaction_path n) of Some (Inr spec) \<Rightarrow> Some spec | _ \<Rightarrow> None)"

definition dir_synced :: "hub \<Rightarrow> bool" where
  "dir_synced h \<longleftrightarrow>
     map_wf (hb_dir h) \<and> list_all reaction_stored (json_files (hb_dir h)) \<and>
     (\<forall>n. get_reaction n h = read_reaction (json_files (hb_dir h)) n)"

lemma reaction_path_eq [simp]: "reaction_path a = reaction_path b \<longleftrightarrow> a = b"
  by (simp add: reaction_path_def)

lemma reaction_path_json: "json_name (reaction_path n) \<longleftrightarrow> n \<noteq> []"
  by (simp add: json_name_def reaction_path_def ends_with_def strip_suffix_def)

lemma validated_name: "validate_reaction_spec spec = Inr u \<Longrightarrow> rs_name spec \<noteq> []"
  by (auto simp: validate_reaction_spec_def validate_reaction_name_def result_simps)

lemma json_files_insert: "json_name k \<Longrightarrow> json_files (obj_insert files k v) = obj_insert (json_files files) k v"
  by (induction files k v rule: obj_insert.induct) (auto simp: json_files_def)

lemma json_files_wf: "map_wf files \<Longrightarrow> map_wf (json_files files)"
  by (induction files) (auto simp: json_files_def map_wf_def obj_keys_def)

lemma restore_get:
  "list_all reaction_stored fs \<Longrightarrow> map_wf fs \<Longrightarrow>
     obj_get (foldl restore_reaction m fs) n =
       (case read_reaction fs n of Some spec \<Rightarrow> Some spec | None \<Rightarrow> obj_get m n)"
proof (induction fs arbitrary: m)
  case (Cons f fs)
  then obtain spec where f: "snd f = Inr spec" "validate_reaction_spec spec = Inr ()"
      "fst f = reaction_path (rs_name spec)"
    by (auto simp: reaction_stored_def)
  have wf: "map_wf fs" "fst f \<notin> fst ` set fs"
    using Cons.prems(2) by (auto simp: map_wf_def obj_keys_def)
  have "read_reaction fs (rs_name spec) = None"
    using wf(2) f(3) by (simp add: read_reaction_def obj_get_None [THEN iffD2])
  moreover have "read_reaction (f # fs) n = (if n = rs_name spec then Some spec else read_reaction fs n)"
    using f by (cases f) (auto simp: read_reaction_def)
  ultimately show ?case
    using Cons.IH [of "obj_insert m (rs_name spec) spec"] Cons.prems(1) wf(1) f(1,2)
    by (auto simp: restore_reaction_def split: option.splits)
qed (simp add: read_reaction_def)

text \<open>Installing a reaction keeps the directory in step with the reactions of the hub, and a hub that
  starts from a directory in step finds the same reaction under every name, without a warning.\<close>

theorem restart_restores_reactions:
  assumes "dir_synced h"
  shows "dir_synced (snd (install_reaction spec replace h)) \<and>
    fst (restore_reactions_from_disk (h\<lparr>hb_reactions := []\<rparr>)) = [] \<and>
    (\<forall>n. get_reaction n (snd (restore_reactions_from_disk (h\<lparr>hb_reactions := []\<rparr>))) = get_reaction n h)"
proof (intro conjI)
  have wf: "map_wf (hb_dir h)" and stored: "list_all reaction_stored (json_files (hb_dir h))"
    and get: "\<And>n. get_reaction n h = read_reaction (json_files (hb_dir h)) n"
    using assms by (auto simp: dir_synced_def)
  show "dir_synced (snd (install_reaction spec replace h))"
  proof (cases "validate_reaction_spec spec")
    case (Inr u)
    note json = json_files_insert [OF reaction_path_json [THEN iffD2, OF validated_name [OF Inr]],
        where files = "hb_dir h" and v = "Inr spec"]
    have "list_all reaction_stored (obj_insert files (reaction_path (rs_name spec)) (Inr spec))"
      if "list_all reaction_stored files" for files
      using that Inr
      by (induction files "reaction_path (rs_name spec)" "Inr spec :: string + reaction_spec" rule: obj_insert.induct)
        (auto simp: reaction_stored_def split: if_splits)
    then show ?thesis
      using wf stored get assms Inr
      by (auto simp: install_reaction_def dir_synced_def write_file_def map_wf_insert json get_reaction_def
          read_reaction_def)
  qed (use assms in \<open>simp add: install_reaction_def\<close>)
  have none: "file_warning f = None" if "reaction_stored f" for f
    using that by (auto simp: reaction_stored_def file_warning_def)
  have "List.map_filter file_warning fs = []" if "list_all reaction_stored fs" for fs
    using that none by (induction fs) (auto simp: List.map_filter_simps)
  then show "fst (restore_reactions_from_disk (h\<lparr>hb_reactions := []\<rparr>)) = []"
    using stored by (simp add: restore_reactions_from_disk_def scan_reaction_warnings_def)
  have "get_reaction n (snd (restore_reactions_from_disk (h\<lparr>hb_reactions := []\<rparr>))) = read_reaction (json_files (hb_dir h)) n" for n
    using restore_get [OF stored json_files_wf [OF wf], of "[]" n]
    by (simp add: restore_reactions_from_disk_def get_reaction_def split: option.splits)
  then show "\<forall>n. get_reaction n (snd (restore_reactions_from_disk (h\<lparr>hb_reactions := []\<rparr>))) = get_reaction n h"
    by (simp add: get)
qed

section \<open>Instances\<close>

text \<open>A chain of three events, and the draft of a fourth.\<close>

definition chained_hub :: hub where
  "chained_hub = sample_hub\<lparr>hb_journal := open_journal
     [Row (wrap_event (tick_event ''a'' ''t'' None)), Row (wrap_event (tick_event ''b'' ''t'' (Some ''a''))),
      Row (wrap_event (tick_event ''c'' ''t'' (Some ''b'')))]\<rparr>"

definition caused_draft :: event_draft where
  "caused_draft =
     \<lparr>ed_kind = TaskStarted, ed_producer = [], ed_project = None, ed_principal = None, ed_subject = None,
      ed_correlation = [], ed_causation_id = Some ''c'', ed_payload = JNull\<rparr>"

lemma chained_index:
  "jl_index (hb_journal chained_hub) =
     [(''a'', tick_event ''a'' ''t'' None), (''b'', tick_event ''b'' ''t'' (Some ''a'')),
      (''c'', tick_event ''c'' ''t'' (Some ''b''))]"
  by (simp add: chained_hub_def open_journal_def index_of_def index_event_def wrap_event_def rbind_def)
    (simp add: tick_event_def)

lemma chained_chain: "length (causation_chain ''c'' (hb_journal chained_hub)) = 3"
  by (simp add: causation_chain_def chain_limit_def chained_index numeral_eq_Suc) (simp add: tick_event_def)

lemma chained_unused: "unused_id (new_event_id sample_lib h) (hb_journal chained_hub)"
  by (auto simp: unused_id_def chained_index new_event_id_def tick_event_def split: if_splits)

lemma sample_depth: "depth_ok (hb_journal sample_hub)"
proof -
  have "length (chain_from n (jl_index (hb_journal sample_hub)) i) \<le> 1" for n i
    by (cases n) (simp_all add: sample_hub_def open_journal_def index_of_def index_event_def wrap_event_def
        rbind_def tick_event_def)
  then show ?thesis unfolding depth_ok_def chain_limit_def by (meson le_trans one_le_numeral)
qed

theorem causes_stay_shallow_witness:
  "depth_ok (hb_journal (snd (emit_event sample_lib caused_draft sample_hub)))"
proof -
  have "unused_id (new_event_id sample_lib sample_hub) (hb_journal sample_hub)"
    by (auto simp: unused_id_def sample_hub_def open_journal_def index_of_def index_event_def wrap_event_def
        rbind_def tick_event_def new_event_id_def split: if_splits)
  moreover have "ed_causation_id caused_draft \<noteq> Some (new_event_id sample_lib sample_hub)"
    by (simp add: caused_draft_def new_event_id_def)
  ultimately show ?thesis by (rule causes_stay_shallow [OF sample_depth, THEN conjunct1])
qed

lemma chained_accepts: "\<exists>out h'. emit_event sample_lib caused_draft chained_hub = (Inr out, h')"
  using chained_chain
  by (simp add: emit_event_def check_depth_def Let_def guard_err_def max_causation_depth_def caused_draft_def)


theorem fourth_event_never_acts_witness:
  "\<forall>a. fst (process_record sample_lib (sample_world (Inl [])) True
       (sample_row\<lparr>ox_event_id := ev_id (event_of_draft sample_lib chained_hub caused_draft)\<rparr>)
       (snd (emit_event sample_lib caused_draft chained_hub), ())) \<noteq> Acted a"
proof -
  let ?ev = "event_of_draft sample_lib chained_hub caused_draft"
  let ?h = "snd (emit_event sample_lib caused_draft chained_hub)"
  have cause: "ed_causation_id caused_draft = Some ''c''" by (simp add: caused_draft_def)
  have "hb_journal ?h = append_envelope (wrap_event ?ev) (hb_journal chained_hub)"
    using chained_chain
    by (simp add: emit_event_def check_depth_def Let_def guard_err_def max_causation_depth_def cause)
  then have ev: "event_for ?h (sample_row\<lparr>ox_event_id := ev_id ?ev\<rparr>) = Inr ?ev"
    by (simp add: event_for_def open_event_def journal_events_def load_journal_def append_envelope_def chained_hub_def
        open_journal_def rbind_def wrap_event_def tick_event_def event_of_draft_def new_event_id_def)
  have "''c'' \<noteq> new_event_id sample_lib chained_hub" by (simp add: new_event_id_def)
  then show ?thesis
    using fourth_event_never_acts [OF cause chained_chain chained_unused _ ev, of "sample_world (Inl [])" True "()"]
    by (elim meta_impE conjE)
qed

lemma sample_dry_run:
  "\<exists>dry. dry_run_replay (el_wf sample_lib) (el_packets sample_lib) st sample_reaction ev [] = Inr dry \<and>
     dr_rendered_key dry = Some ''k'' \<and> \<not> dr_suppressed dry"
proof -
  have "render_template_with_roots (el_wf sample_lib) roots HardError ''k'' = Inr ''k''" for roots
    by code_simp
  then show ?thesis
    by (simp add: dry_run_replay_def render_key_def sample_reaction_def reaction_gate_allows_def map_err_def rbind_def)
qed

theorem dry_run_predicts_witness:
  "precheck sample_lib (sample_world (Inl [])) False sample_row (sample_claimed, ()) \<noteq> Inl Suppressed"
proof -
  obtain dry where dry: "dry_run_replay (el_wf sample_lib) (el_packets sample_lib) (xw_packets (sample_world (Inl [])) ())
      sample_reaction (tick_event ''e'' ''t'' None) [] = Inr dry" "dr_rendered_key dry = Some ''k''" "\<not> dr_suppressed dry"
    using sample_dry_run by blast
  have row: "ox_reaction_name sample_row = rs_name sample_reaction" "ox_idempotency_key sample_row = Some ''k''"
      "ox_status sample_row = OxClaimed" "hb_outbox sample_claimed = rewrite_outbox ([] @ [sample_row])"
    by (simp_all add: sample_row_def claim_def new_outbox_record_def sample_reaction_def sample_claimed_def)
  show ?thesis
    using dry_run_predicts [OF dry(1) row(4) _ row(3,1)] row(2) dry(2,3) sample_reads(1,2) by simp
qed

theorem restart_restores_reactions_witness:
  "let h = snd (install_reaction sample_reaction False (sample_hub\<lparr>hb_reactions := []\<rparr>))
   in \<forall>n. get_reaction n (snd (restore_reactions_from_disk (h\<lparr>hb_reactions := []\<rparr>))) = get_reaction n h"
proof -
  have "dir_synced (sample_hub\<lparr>hb_reactions := []\<rparr>)"
    by (simp add: dir_synced_def sample_hub_def map_wf_def json_files_def get_reaction_def read_reaction_def)
  then have "dir_synced (snd (install_reaction sample_reaction False (sample_hub\<lparr>hb_reactions := []\<rparr>)))"
    by (rule restart_restores_reactions [THEN conjunct1])
  then show ?thesis using restart_restores_reactions by (simp add: Let_def)
qed

end
