(* ===== verification/Whiteboards.thy ===== *)
theory Whiteboards
  imports Workflow_Context
begin

text \<open>
  Whiteboards (\<open>src/src/whiteboards.rs\<close>): a log of posts, annotations and votes that moves through
  phases, what an agent sees of it, the conflicts between its posts, and the registry of the boards in
  memory and on disk. The registry is a hash map, of which only lookups are used, and the file system
  does not fail. Instants are texts; the age of one in seconds is a parameter.
\<close>

section \<open>Boards\<close>

datatype phase = Blind | Read | Validate | Debate | Resolve | Archived

definition phase_str :: "phase \<Rightarrow> string" where
  "phase_str p =
     (case p of Blind \<Rightarrow> ''blind'' | Read \<Rightarrow> ''read'' | Validate \<Rightarrow> ''validate'' | Debate \<Rightarrow> ''debate''
      | Resolve \<Rightarrow> ''resolve'' | Archived \<Rightarrow> ''archived'')"

definition canonical_next :: "phase \<Rightarrow> phase option" where
  "canonical_next p =
     (case p of Blind \<Rightarrow> Some Read | Read \<Rightarrow> Some Validate | Validate \<Rightarrow> Some Debate
      | Debate \<Rightarrow> Some Resolve | Resolve \<Rightarrow> Some Archived | Archived \<Rightarrow> None)"

definition allows_transition_to :: "phase \<Rightarrow> phase \<Rightarrow> bool" where
  "allows_transition_to p target =
     (canonical_next p = Some target \<or> (p, target) \<in> {(Read, Debate), (Validate, Resolve)})"

definition allows_post :: "phase \<Rightarrow> bool" where
  "allows_post p = (p = Blind)"

definition allows_annotate :: "phase \<Rightarrow> bool" where
  "allows_annotate p = (p = Validate \<or> p = Debate)"

definition allows_vote :: "phase \<Rightarrow> bool" where
  "allows_vote p = (p = Debate)"

datatype role = Specialist | Facilitator | Operator

definition can_transition :: "role \<Rightarrow> bool" where
  "can_transition r = (r = Facilitator \<or> r = Operator)"

datatype post_type = Proposal | Claim | Concern | Informational

datatype severity = Critical | High | Medium | Low

datatype annotation_type = Challenge | Corroborate | Resolution | Validation

datatype validation_result = Confirmed | Refuted | Inconclusive

datatype vote_value = Accept | Reject | Defer

record post =
  po_id :: string
  po_agent :: string
  po_type :: post_type
  po_title :: string
  po_body :: string
  po_target_file :: "string option"
  po_target_location :: "string option"
  po_severity :: "severity option"
  po_finding_refs :: "string list"
  po_cascade_targets :: "string list"
  po_posted_at :: string

record annotation =
  an_id :: string
  an_post_id :: string
  an_agent :: string
  an_type :: annotation_type
  an_body :: string
  an_result :: "validation_result option"
  an_resolves :: "string option"
  an_posted_at :: string

record vote =
  vo_post_id :: string
  vo_agent :: string
  vo_vote :: vote_value
  vo_reason :: "string option"
  vo_at :: string

record agent =
  ag_role :: role
  ag_domain :: string
  ag_registered_at :: string

record phase_event =
  pe_phase :: phase
  pe_by :: string
  pe_at :: string
  pe_summary :: "string option"

record board =
  bd_id :: string
  bd_topic :: string
  bd_project :: string
  bd_created_at :: string
  bd_phase :: phase
  bd_history :: "phase_event list"
  bd_agents :: "agent smap"
  bd_posts :: "post list"
  bd_annotations :: "annotation list"
  bd_votes :: "vote list"
  bd_arc_thread_id :: "string option"

text \<open>A number with at least three digits.\<close>

definition three_digits :: "nat \<Rightarrow> string" where
  "three_digits n = replicate (3 - length (show_nat n)) CHR ''0'' @ show_nat n"

definition next_post_id :: "board \<Rightarrow> string" where
  "next_post_id b = ''post-'' @ three_digits (length (bd_posts b) + 1)"

definition next_annotation_id :: "board \<Rightarrow> string" where
  "next_annotation_id b = ''ann-'' @ three_digits (length (bd_annotations b) + 1)"

section \<open>What a board says\<close>

definition challenges :: "board \<Rightarrow> annotation list" where
  "challenges b = filter (\<lambda>a. an_type a = Challenge) (bd_annotations b)"

definition resolved_ids :: "board \<Rightarrow> string list" where
  "resolved_ids b = List.map_filter an_resolves (filter (\<lambda>a. an_type a = Resolution) (bd_annotations b))"

definition specialists :: "board \<Rightarrow> string list" where
  "specialists b = map fst (filter (\<lambda>p. ag_role (snd p) = Specialist) (bd_agents b))"

definition ready_for_transition :: "int \<Rightarrow> board \<Rightarrow> bool" where
  "ready_for_transition phase_age_secs b =
     (case bd_phase b of
        Blind \<Rightarrow>
          specialists b \<noteq> [] \<and> list_all (\<lambda>n. n \<in> set (map po_agent (bd_posts b))) (specialists b)
      | Debate \<Rightarrow>
          if challenges b = [] then 60 < phase_age_secs
          else list_all (\<lambda>c. an_id c \<in> set (resolved_ids b)) (challenges b)
      | _ \<Rightarrow> False)"

record vote_counts =
  vc_accept :: u32
  vc_reject :: u32
  vc_defer :: u32

definition no_votes :: vote_counts where
  "no_votes = \<lparr>vc_accept = 0, vc_reject = 0, vc_defer = 0\<rparr>"

definition count_vote :: "vote_value \<Rightarrow> vote_counts \<Rightarrow> vote_counts" where
  "count_vote v c =
     (case v of
        Accept \<Rightarrow> c\<lparr>vc_accept := vc_accept c + 1\<rparr>
      | Reject \<Rightarrow> c\<lparr>vc_reject := vc_reject c + 1\<rparr>
      | Defer \<Rightarrow> c\<lparr>vc_defer := vc_defer c + 1\<rparr>)"

definition vote_tally :: "board \<Rightarrow> vote_counts smap" where
  "vote_tally b =
     foldl (\<lambda>m v. bt_insert m (vo_post_id v)
              (count_vote (vo_vote v) (case obj_get m (vo_post_id v) of Some c \<Rightarrow> c | None \<Rightarrow> no_votes)))
       [] (bd_votes b)"

datatype post_standing = StandsConfirmed | StandsInconclusive | Unvalidated | Excluded

text \<open>The loop over the annotations with its two flags; a refutation returns at once.\<close>

fun standing_loop :: "string \<Rightarrow> bool \<Rightarrow> bool \<Rightarrow> annotation list \<Rightarrow> post_standing" where
  "standing_loop post_id confirmed inconclusive [] =
     (if confirmed then StandsConfirmed else if inconclusive then StandsInconclusive else Unvalidated)"
| "standing_loop post_id confirmed inconclusive (a # as) =
     (if an_post_id a \<noteq> post_id \<or> an_type a \<noteq> Validation
      then standing_loop post_id confirmed inconclusive as
      else case an_result a of
             Some Refuted \<Rightarrow> Excluded
           | Some Confirmed \<Rightarrow> standing_loop post_id True inconclusive as
           | Some Inconclusive \<Rightarrow> standing_loop post_id confirmed True as
           | None \<Rightarrow> standing_loop post_id confirmed inconclusive as)"

definition standing :: "string \<Rightarrow> board \<Rightarrow> post_standing" where
  "standing post_id b = standing_loop post_id False False (bd_annotations b)"

definition reviewed :: "board \<Rightarrow> post \<Rightarrow> bool" where
  "reviewed b p =
     list_ex (\<lambda>a. an_post_id a = po_id p \<and> an_agent a \<noteq> po_agent p \<and>
                  (an_type a = Challenge \<or> an_type a = Corroborate)) (bd_annotations b)"

definition unreviewed_post_count :: "board \<Rightarrow> u32" where
  "unreviewed_post_count b = of_nat (length (filter (\<lambda>p. \<not> reviewed b p) (bd_posts b)))"

record validation_summary =
  vs_surviving_post_ids :: "string list"
  vs_excluded_post_ids :: "string list"
  vs_confirmed_count :: u32
  vs_refuted_count :: u32
  vs_inconclusive_count :: u32
  vs_unvalidated_count :: u32
  vs_unreviewed_post_count :: u32

definition empty_summary :: validation_summary where
  "empty_summary =
     \<lparr>vs_surviving_post_ids = [], vs_excluded_post_ids = [], vs_confirmed_count = 0,
      vs_refuted_count = 0, vs_inconclusive_count = 0, vs_unvalidated_count = 0,
      vs_unreviewed_post_count = 0\<rparr>"

definition summary_step :: "board \<Rightarrow> validation_summary \<Rightarrow> post \<Rightarrow> validation_summary" where
  "summary_step b out p =
     (case standing (po_id p) b of
        Excluded \<Rightarrow>
          out\<lparr>vs_excluded_post_ids := vs_excluded_post_ids out @ [po_id p],
              vs_refuted_count := vs_refuted_count out + 1\<rparr>
      | StandsConfirmed \<Rightarrow>
          out\<lparr>vs_surviving_post_ids := vs_surviving_post_ids out @ [po_id p],
              vs_confirmed_count := vs_confirmed_count out + 1\<rparr>
      | StandsInconclusive \<Rightarrow>
          out\<lparr>vs_surviving_post_ids := vs_surviving_post_ids out @ [po_id p],
              vs_inconclusive_count := vs_inconclusive_count out + 1\<rparr>
      | Unvalidated \<Rightarrow>
          out\<lparr>vs_surviving_post_ids := vs_surviving_post_ids out @ [po_id p],
              vs_unvalidated_count := vs_unvalidated_count out + 1\<rparr>)"

definition summarize_validation :: "board \<Rightarrow> validation_summary" where
  "summarize_validation b =
     (foldl (summary_step b) empty_summary (bd_posts b))
       \<lparr>vs_unreviewed_post_count := unreviewed_post_count b\<rparr>"

section \<open>Conflicts\<close>

datatype conflict =
    DirectOverlap "string list" string string
  | CascadeCollision "string list" string
  | SeverityDisagreement "string list" string "string smap"

definition severity_str :: "severity \<Rightarrow> string" where
  "severity_str s =
     (case s of Critical \<Rightarrow> ''critical'' | High \<Rightarrow> ''high'' | Medium \<Rightarrow> ''medium'' | Low \<Rightarrow> ''low'')"

text \<open>\<open>entry(k).or_default().push(p)\<close>. The groups of a hash map come in no order; here they come in that of
  their first posts, and nothing is stated about it.\<close>

definition push_group :: "string \<Rightarrow> post \<Rightarrow> (post list) smap \<Rightarrow> (post list) smap" where
  "push_group k p m = obj_insert m k ((case obj_get m k of Some ps \<Rightarrow> ps | None \<Rightarrow> []) @ [p])"

definition by_target :: "post list \<Rightarrow> (post list) smap" where
  "by_target posts =
     foldl (\<lambda>m p. case po_target_file p of Some t \<Rightarrow> push_group t p m | None \<Rightarrow> m) [] posts"

definition by_ref :: "post list \<Rightarrow> (post list) smap" where
  "by_ref posts = foldl (\<lambda>m p. foldl (\<lambda>m r. push_group r p m) m (po_finding_refs p)) [] posts"

fun pairs :: "'a list \<Rightarrow> ('a \<times> 'a) list" where
  "pairs [] = []"
| "pairs (x # xs) = map (Pair x) xs @ pairs xs"

definition overlap :: "string \<Rightarrow> post \<times> post \<Rightarrow> conflict option" where
  "overlap target ab =
     (case (po_target_location (fst ab), po_target_location (snd ab)) of
        (Some la, Some lb) \<Rightarrow>
          if la = lb then Some (DirectOverlap [po_id (fst ab), po_id (snd ab)] target la) else None
      | _ \<Rightarrow> None)"

definition direct_overlaps :: "post list \<Rightarrow> conflict list" where
  "direct_overlaps posts =
     concat (map (\<lambda>g. List.map_filter (overlap (fst g)) (pairs (snd g))) (by_target posts))"

definition cascade_collisions :: "post list \<Rightarrow> conflict list" where
  "cascade_collisions posts =
     concat (map (\<lambda>p. concat (map (\<lambda>c.
       case obj_get (by_target posts) c of
         None \<Rightarrow> []
       | Some targets \<Rightarrow>
           map (\<lambda>q. CascadeCollision [po_id p, po_id q] c) (filter (\<lambda>q. po_id q \<noteq> po_id p) targets))
       (po_cascade_targets p))) posts)"

definition severities_of :: "post list \<Rightarrow> string smap" where
  "severities_of ps =
     foldl (\<lambda>m p. case po_severity p of Some s \<Rightarrow> bt_insert m (po_id p) (severity_str s) | None \<Rightarrow> m) [] ps"

definition severity_disagreements :: "post list \<Rightarrow> conflict list" where
  "severity_disagreements posts =
     List.map_filter (\<lambda>g.
       let sev = severities_of (snd g)
       in if 1 < length (remdups (map snd sev))
          then Some (SeverityDisagreement (map po_id (snd g)) (fst g) sev) else None)
       (by_ref posts)"

definition detect_conflicts :: "board \<Rightarrow> conflict list" where
  "detect_conflicts b =
     direct_overlaps (bd_posts b) @ cascade_collisions (bd_posts b) @ severity_disagreements (bd_posts b)"

section \<open>What an agent sees\<close>

datatype board_error =
    BoardExists string
  | NoBoard string
  | PhaseForbids phase
  | AnnotationForbidden annotation_type phase
  | NotRegistered string string
  | NoPost string
  | OwnPost string
  | ResolvesMissing
  | NoAnnotation string
  | NotAChallenge string
  | OwnChallenge string
  | ResultMissing
  | RoleForbids role
  | IllegalTransition phase phase

record board_view =
  bv_id :: string
  bv_topic :: string
  bv_phase :: phase
  bv_phase_age_secs :: int
  bv_history :: "phase_event list"
  bv_agents :: "agent smap"
  bv_posts :: "post list"
  bv_annotations :: "annotation list"
  bv_votes :: "vote list"
  bv_post_count :: nat
  bv_annotation_count :: nat
  bv_vote_count :: nat
  bv_ready :: bool
  bv_age_warning :: "string option"

definition visible_posts :: "string \<Rightarrow> board \<Rightarrow> post list" where
  "visible_posts name b =
     (if bd_phase b = Blind then filter (\<lambda>p. po_agent p = name) (bd_posts b) else bd_posts b)"

definition visible_annotations :: "string \<Rightarrow> role \<Rightarrow> board \<Rightarrow> annotation list" where
  "visible_annotations name r b =
     (case bd_phase b of
        Blind \<Rightarrow> []
      | Read \<Rightarrow> []
      | Debate \<Rightarrow>
          if can_transition r then bd_annotations b
          else let own = map po_id (filter (\<lambda>p. po_agent p = name) (bd_posts b))
               in filter (\<lambda>a. an_agent a = name \<or> an_post_id a \<in> set own) (bd_annotations b)
      | _ \<Rightarrow> bd_annotations b)"

definition visible_votes :: "string \<Rightarrow> role \<Rightarrow> board \<Rightarrow> vote list" where
  "visible_votes name r b =
     (if bd_phase b = Resolve \<or> can_transition r then bd_votes b
      else if bd_phase b = Debate then filter (\<lambda>v. vo_agent v = name) (bd_votes b)
      else [])"

definition phase_started :: "board \<Rightarrow> string" where
  "phase_started b = (if bd_history b = [] then bd_created_at b else pe_at (last (bd_history b)))"

definition age_warning :: "phase \<Rightarrow> int \<Rightarrow> string option" where
  "age_warning p age =
     (if 300 < age
      then Some (''Phase '' @ CHR 0x27 # phase_str p @ CHR 0x27 # '' has been active for '' @
                 show_nat (nat (age div 60)) @ '' minutes.'')
      else None)"

definition filter_for_agent :: "(string \<Rightarrow> int) \<Rightarrow> board \<Rightarrow> string \<Rightarrow> board_error + board_view" where
  "filter_for_agent age_secs b name =
     (case obj_get (bd_agents b) name of
        None \<Rightarrow> Inl (NotRegistered name (bd_id b))
      | Some a \<Rightarrow>
          let age = age_secs (phase_started b)
          in Inr \<lparr>bv_id = bd_id b, bv_topic = bd_topic b, bv_phase = bd_phase b, bv_phase_age_secs = age, bv_history = bd_history b,
                  bv_agents = bd_agents b, bv_posts = visible_posts name b,
                  bv_annotations = visible_annotations name (ag_role a) b,
                  bv_votes = visible_votes name (ag_role a) b,
                  bv_post_count = length (bd_posts b), bv_annotation_count = length (bd_annotations b),
                  bv_vote_count = length (bd_votes b), bv_ready = ready_for_transition age b,
                  bv_age_warning = age_warning (bd_phase b) age\<rparr>)"

section \<open>Changing a board\<close>

definition new_board ::
  "string \<Rightarrow> string \<Rightarrow> string \<Rightarrow> string option \<Rightarrow> string \<Rightarrow> string \<Rightarrow> board" where
  "new_board i topic project arc opener now =
     \<lparr>bd_id = i, bd_topic = topic, bd_project = project, bd_created_at = now, bd_phase = Blind,
      bd_history = [\<lparr>pe_phase = Blind, pe_by = opener, pe_at = now, pe_summary = None\<rparr>],
      bd_agents = [], bd_posts = [], bd_annotations = [], bd_votes = [], bd_arc_thread_id = arc\<rparr>"

definition registered :: "board \<Rightarrow> string \<Rightarrow> board_error + agent" where
  "registered b name =
     (case obj_get (bd_agents b) name of None \<Rightarrow> Inl (NotRegistered name (bd_id b)) | Some a \<Rightarrow> Inr a)"

text \<open>The operations on one board: an error, or the answer and the changed board.\<close>

type_synonym 'a board_op = "board \<Rightarrow> board_error + 'a \<times> board"

definition register_agent :: "string \<Rightarrow> role \<Rightarrow> string \<Rightarrow> string \<Rightarrow> unit board_op" where
  "register_agent name r domain now b =
     rbind (guard_err (bd_phase b = Resolve \<or> bd_phase b = Archived) (PhaseForbids (bd_phase b))) (\<lambda>_.
       Inr ((), if obj_has (bd_agents b) name then b
                else b\<lparr>bd_agents := bt_insert (bd_agents b) name
                         \<lparr>ag_role = r, ag_domain = domain, ag_registered_at = now\<rparr>\<rparr>))"

record post_draft =
  pd_type :: post_type
  pd_title :: string
  pd_body :: string
  pd_target_file :: "string option"
  pd_target_location :: "string option"
  pd_severity :: "severity option"
  pd_finding_refs :: "string list"
  pd_cascade_targets :: "string list"

definition add_post :: "string \<Rightarrow> post_draft \<Rightarrow> string \<Rightarrow> string board_op" where
  "add_post name d now b =
     rbind (guard_err (\<not> allows_post (bd_phase b)) (PhaseForbids (bd_phase b))) (\<lambda>_.
     rbind (registered b name) (\<lambda>_.
       let p = \<lparr>po_id = next_post_id b, po_agent = name, po_type = pd_type d, po_title = pd_title d,
                po_body = pd_body d, po_target_file = pd_target_file d,
                po_target_location = pd_target_location d, po_severity = pd_severity d,
                po_finding_refs = pd_finding_refs d, po_cascade_targets = pd_cascade_targets d,
                po_posted_at = now\<rparr>
       in Inr (po_id p, b\<lparr>bd_posts := bd_posts b @ [p]\<rparr>)))"

definition annotation_allowed :: "phase \<Rightarrow> annotation_type \<Rightarrow> bool" where
  "annotation_allowed p t = (if t = Validation then p = Validate else p = Debate)"

definition check_resolves :: "board \<Rightarrow> string \<Rightarrow> string option \<Rightarrow> board_error + unit" where
  "check_resolves b name resolves =
     (case resolves of
        None \<Rightarrow> Inl ResolvesMissing
      | Some r \<Rightarrow>
          (case find (\<lambda>a. an_id a = r) (bd_annotations b) of
             None \<Rightarrow> Inl (NoAnnotation r)
           | Some c \<Rightarrow>
               rbind (guard_err (an_type c \<noteq> Challenge) (NotAChallenge r)) (\<lambda>_.
                 guard_err (an_agent c = name) (OwnChallenge r))))"

definition add_annotation ::
  "string \<Rightarrow> string \<Rightarrow> annotation_type \<Rightarrow> string \<Rightarrow> validation_result option \<Rightarrow> string option \<Rightarrow>
     string \<Rightarrow> string board_op" where
  "add_annotation name post_id t body result resolves now b =
     rbind (guard_err (\<not> allows_annotate (bd_phase b)) (PhaseForbids (bd_phase b))) (\<lambda>_.
     rbind (guard_err (\<not> annotation_allowed (bd_phase b) t) (AnnotationForbidden t (bd_phase b))) (\<lambda>_.
     rbind (registered b name) (\<lambda>_.
     case find (\<lambda>p. po_id p = post_id) (bd_posts b) of
       None \<Rightarrow> Inl (NoPost post_id)
     | Some p \<Rightarrow>
         rbind (guard_err (po_agent p = name \<and> t \<noteq> Resolution) (OwnPost post_id)) (\<lambda>_.
         rbind (if t = Resolution then check_resolves b name resolves else ok) (\<lambda>_.
         rbind (guard_err (t = Validation \<and> result = None) ResultMissing) (\<lambda>_.
           let a = \<lparr>an_id = next_annotation_id b, an_post_id = post_id, an_agent = name, an_type = t,
                    an_body = body, an_result = result, an_resolves = resolves, an_posted_at = now\<rparr>
           in Inr (an_id a, b\<lparr>bd_annotations := bd_annotations b @ [a]\<rparr>)))))))"

definition same_vote :: "string \<Rightarrow> string \<Rightarrow> vote \<Rightarrow> bool" where
  "same_vote post_id name v = (vo_post_id v = post_id \<and> vo_agent v = name)"

fun replace_vote :: "vote \<Rightarrow> vote list \<Rightarrow> vote list" where
  "replace_vote w [] = []"
| "replace_vote w (v # vs) =
     (if same_vote (vo_post_id w) (vo_agent w) v
      then v\<lparr>vo_vote := vo_vote w, vo_reason := vo_reason w, vo_at := vo_at w\<rparr> # vs
      else v # replace_vote w vs)"

definition cast_vote ::
  "string \<Rightarrow> string \<Rightarrow> vote_value \<Rightarrow> string option \<Rightarrow> string \<Rightarrow> bool board_op" where
  "cast_vote name post_id v reason now b =
     rbind (guard_err (\<not> allows_vote (bd_phase b)) (PhaseForbids (bd_phase b))) (\<lambda>_.
     rbind (registered b name) (\<lambda>_.
     rbind (guard_err (\<not> list_ex (\<lambda>p. po_id p = post_id) (bd_posts b)) (NoPost post_id)) (\<lambda>_.
       let w = \<lparr>vo_post_id = post_id, vo_agent = name, vo_vote = v, vo_reason = reason, vo_at = now\<rparr>
       in if list_ex (same_vote post_id name) (bd_votes b)
          then Inr (True, b\<lparr>bd_votes := replace_vote w (bd_votes b)\<rparr>)
          else Inr (False, b\<lparr>bd_votes := bd_votes b @ [w]\<rparr>))))"

definition enter_phase :: "phase \<Rightarrow> string \<Rightarrow> string \<Rightarrow> string option \<Rightarrow> board \<Rightarrow> board" where
  "enter_phase target name now summary b =
     b\<lparr>bd_phase := target,
       bd_history := bd_history b @
         [\<lparr>pe_phase = target, pe_by = name, pe_at = now, pe_summary = summary\<rparr>]\<rparr>"

definition move_phase :: "string \<Rightarrow> phase \<Rightarrow> string option \<Rightarrow> string \<Rightarrow> (phase \<times> phase) board_op" where
  "move_phase name target summary now b =
     rbind (registered b name) (\<lambda>a.
     rbind (guard_err (\<not> can_transition (ag_role a)) (RoleForbids (ag_role a))) (\<lambda>_.
     rbind (guard_err (\<not> allows_transition_to (bd_phase b) target)
             (IllegalTransition (bd_phase b) target)) (\<lambda>_.
       Inr ((bd_phase b, target), enter_phase target name now summary b))))"

record archive_summary =
  as_total_posts :: nat
  as_posts_by_type :: "u32 smap"
  as_total_annotations :: nat
  as_total_votes :: nat
  as_vote_tally :: vote_counts
  as_total_challenges :: nat
  as_unresolved_challenges :: nat
  as_agent_count :: nat
  as_phase_count :: nat

definition post_type_str :: "post_type \<Rightarrow> string" where
  "post_type_str t =
     (case t of Proposal \<Rightarrow> ''proposal'' | Claim \<Rightarrow> ''claim'' | Concern \<Rightarrow> ''concern''
      | Informational \<Rightarrow> ''informational'')"

definition count_types :: "post list \<Rightarrow> u32 smap" where
  "count_types ps =
     foldl (\<lambda>m p. let k = post_type_str (po_type p)
                  in bt_insert m k ((case obj_get m k of Some n \<Rightarrow> n | None \<Rightarrow> 0) + 1)) [] ps"

definition unresolved :: "board \<Rightarrow> annotation list" where
  "unresolved b = filter (\<lambda>c. an_id c \<notin> set (resolved_ids b)) (challenges b)"

definition archive_summary_of :: "board \<Rightarrow> archive_summary" where
  "archive_summary_of b =
     \<lparr>as_total_posts = length (bd_posts b), as_posts_by_type = count_types (bd_posts b),
      as_total_annotations = length (bd_annotations b), as_total_votes = length (bd_votes b),
      as_vote_tally = foldl (\<lambda>c v. count_vote (vo_vote v) c) no_votes (bd_votes b),
      as_total_challenges = length (challenges b), as_unresolved_challenges = length (unresolved b),
      as_agent_count = length (bd_agents b), as_phase_count = length (bd_history b)\<rparr>"

section \<open>The registry\<close>

text \<open>The boards in memory, those in the storage directory once it is set, and those in its archive.\<close>

record registry =
  wb_boards :: "board smap"
  wb_files :: "board smap option"
  wb_archive :: "board smap"

definition obj_remove :: "'v smap \<Rightarrow> string \<Rightarrow> 'v smap" where
  "obj_remove m k = filter (\<lambda>p. fst p \<noteq> k) m"

definition persist :: "string \<Rightarrow> board \<Rightarrow> registry \<Rightarrow> registry" where
  "persist i b r = r\<lparr>wb_files := map_option (\<lambda>m. obj_insert m i b) (wb_files r)\<rparr>"

definition set_storage_dir :: "board smap \<Rightarrow> registry \<Rightarrow> registry" where
  "set_storage_dir files r =
     (case wb_files r of
        Some _ \<Rightarrow> r
      | None \<Rightarrow>
          r\<lparr>wb_boards := foldl (\<lambda>m p. obj_insert m (bd_id (snd p)) (snd p)) (wb_boards r) files,
            wb_files := Some files\<rparr>)"

definition wb_open ::
  "string \<Rightarrow> string \<Rightarrow> string \<Rightarrow> string option \<Rightarrow> string \<Rightarrow> string \<Rightarrow> registry \<Rightarrow>
     (board_error + unit) \<times> registry" where
  "wb_open i topic project arc opener now r =
     (if obj_has (wb_boards r) i then (Inl (BoardExists i), r)
      else let b = new_board i topic project arc opener now; r1 = persist i b r
           in (Inr (), r1\<lparr>wb_boards := obj_insert (wb_boards r1) i b\<rparr>))"

text \<open>An operation on the board of an id.\<close>

definition on_board :: "string \<Rightarrow> 'a board_op \<Rightarrow> registry \<Rightarrow> (board_error + 'a) \<times> registry" where
  "on_board i f r =
     (case obj_get (wb_boards r) i of
        None \<Rightarrow> (Inl (NoBoard i), r)
      | Some b \<Rightarrow>
          (case f b of
             Inl e \<Rightarrow> (Inl e, r)
           | Inr (x, b') \<Rightarrow> (Inr x, persist i b' (r\<lparr>wb_boards := obj_insert (wb_boards r) i b'\<rparr>))))"

text \<open>Registering again writes nothing.\<close>

definition wb_register ::
  "string \<Rightarrow> string \<Rightarrow> role \<Rightarrow> string \<Rightarrow> string \<Rightarrow> registry \<Rightarrow> (board_error + unit) \<times> registry" where
  "wb_register i name ro domain now r =
     (case obj_get (wb_boards r) i of
        Some b \<Rightarrow>
          if bd_phase b \<noteq> Resolve \<and> bd_phase b \<noteq> Archived \<and> obj_has (bd_agents b) name then (Inr (), r)
          else on_board i (register_agent name ro domain now) r
      | None \<Rightarrow> (Inl (NoBoard i), r))"

definition wb_post ::
  "string \<Rightarrow> string \<Rightarrow> post_draft \<Rightarrow> string \<Rightarrow> registry \<Rightarrow> (board_error + string) \<times> registry" where
  "wb_post i name d now = on_board i (add_post name d now)"

definition wb_annotate ::
  "string \<Rightarrow> string \<Rightarrow> string \<Rightarrow> annotation_type \<Rightarrow> string \<Rightarrow> validation_result option \<Rightarrow>
     string option \<Rightarrow> string \<Rightarrow> registry \<Rightarrow> (board_error + string) \<times> registry" where
  "wb_annotate i name post_id t body result resolves now =
     on_board i (add_annotation name post_id t body result resolves now)"

definition wb_vote ::
  "string \<Rightarrow> string \<Rightarrow> string \<Rightarrow> vote_value \<Rightarrow> string option \<Rightarrow> string \<Rightarrow> registry \<Rightarrow>
     (board_error + bool) \<times> registry" where
  "wb_vote i name post_id v reason now = on_board i (cast_vote name post_id v reason now)"

definition wb_transition ::
  "string \<Rightarrow> string \<Rightarrow> phase \<Rightarrow> string option \<Rightarrow> string \<Rightarrow> registry \<Rightarrow>
     (board_error + phase \<times> phase) \<times> registry" where
  "wb_transition i name target summary now = on_board i (move_phase name target summary now)"

definition wb_archive_board ::
  "string \<Rightarrow> string \<Rightarrow> string \<Rightarrow> registry \<Rightarrow> (board_error + archive_summary) \<times> registry" where
  "wb_archive_board i name now r =
     (case obj_get (wb_boards r) i of
        None \<Rightarrow> (Inl (NoBoard i), r)
      | Some b \<Rightarrow>
          (case rbind (registered b name) (\<lambda>_.
                  guard_err (bd_phase b \<noteq> Resolve) (PhaseForbids (bd_phase b))) of
             Inl e \<Rightarrow> (Inl e, r)
           | Inr _ \<Rightarrow>
               (Inr (archive_summary_of b),
                case wb_files r of
                  None \<Rightarrow> r\<lparr>wb_boards := obj_remove (wb_boards r) i\<rparr>
                | Some files \<Rightarrow>
                    r\<lparr>wb_boards := obj_remove (wb_boards r) i,
                      wb_files := Some (obj_remove files i),
                      wb_archive := obj_insert (wb_archive r) i (enter_phase Archived name now None b)\<rparr>)))"

definition rename_board :: "string \<Rightarrow> string \<Rightarrow> board \<Rightarrow> board" where
  "rename_board old new b = (if bd_project b = old then b\<lparr>bd_project := new\<rparr> else b)"

definition persist_renamed :: "board smap \<Rightarrow> registry \<Rightarrow> registry" where
  "persist_renamed boards r = foldl (\<lambda>r p. persist (bd_id (snd p)) (snd p) r) r boards"

definition wb_rename_project_refs :: "string \<Rightarrow> string \<Rightarrow> registry \<Rightarrow> nat \<times> registry" where
  "wb_rename_project_refs old new r =
     (let hit = filter (\<lambda>p. bd_project (snd p) = old) (wb_boards r);
          renamed = map (\<lambda>p. (fst p, rename_board old new (snd p))) hit
      in (length hit,
          persist_renamed renamed
            (r\<lparr>wb_boards := map (\<lambda>p. (fst p, rename_board old new (snd p))) (wb_boards r)\<rparr>)))"

definition list_ids :: "registry \<Rightarrow> string list" where
  "list_ids r = map fst (wb_boards r)"

end
