(* ===== verification/Whiteboard_Guarantees.thy ===== *)
theory Whiteboard_Guarantees
  imports Whiteboards
begin

text \<open>
  What whiteboards guarantee: the log stays well formed, phases only move forward and freeze what
  belongs to the past ones, the blind phase hides the others, and memory and disk agree. The locale
  \<open>board_law\<close> states what an operation on one board has to keep; the registry keeps it for every board.
\<close>

section \<open>Commands\<close>

datatype board_command =
    Open string string string "string option" string
  | Register string string role string
  | AddPost string string post_draft
  | Annotate string string string annotation_type string "validation_result option" "string option"
  | CastVote string string string vote_value "string option"
  | Transition string string phase "string option"
  | Archive string string
  | RenameProject string string

definition wb_step :: "string \<Rightarrow> board_command \<Rightarrow> registry \<Rightarrow> registry" where
  "wb_step now cmd r =
     (case cmd of
        Open i topic project arc opener \<Rightarrow> snd (wb_open i topic project arc opener now r)
      | Register i name ro domain \<Rightarrow> snd (wb_register i name ro domain now r)
      | AddPost i name d \<Rightarrow> snd (wb_post i name d now r)
      | Annotate i name p t body res rs \<Rightarrow> snd (wb_annotate i name p t body res rs now r)
      | CastVote i name p v reason \<Rightarrow> snd (wb_vote i name p v reason now r)
      | Transition i name target summary \<Rightarrow> snd (wb_transition i name target summary now r)
      | Archive i name \<Rightarrow> snd (wb_archive_board i name now r)
      | RenameProject old new \<Rightarrow> snd (wb_rename_project_refs old new r))"

fun run_wb :: "(string \<times> board_command) list \<Rightarrow> registry \<Rightarrow> registry" where
  "run_wb [] r = r"
| "run_wb ((now, cmd) # cmds) r = run_wb cmds (wb_step now cmd r)"

definition all_boards :: "(board \<Rightarrow> bool) \<Rightarrow> registry \<Rightarrow> bool" where
  "all_boards I r \<longleftrightarrow> (\<forall>p\<in>set (wb_boards r). I (snd p))"

definition keeps :: "(board \<Rightarrow> bool) \<Rightarrow> 'a board_op \<Rightarrow> bool" where
  "keeps I f \<longleftrightarrow> (\<forall>b x b'. I b \<longrightarrow> f b = Inr (x, b') \<longrightarrow> I b')"

lemma persist_boards [simp]: "wb_boards (persist i b r) = wb_boards r"
  by (simp add: persist_def)

lemma persist_renamed_boards [simp]: "wb_boards (persist_renamed bs r) = wb_boards r"
  unfolding persist_renamed_def by (induction bs arbitrary: r) simp_all

locale board_law =
  fixes I :: "board \<Rightarrow> bool"
  assumes opened: "I (new_board i topic project arc opener now)"
    and registering: "keeps I (register_agent name ro domain now)"
    and posting: "keeps I (add_post name d now)"
    and annotating: "keeps I (add_annotation name p t body res rs now)"
    and voting: "keeps I (cast_vote name p v reason now)"
    and moving: "keeps I (move_phase name target summary now)"
    and renaming: "I b \<Longrightarrow> I (rename_board old new b)"
begin

lemma insert_law: "all_boards I r \<Longrightarrow> I b \<Longrightarrow> p \<in> set (obj_insert (wb_boards r) i b) \<Longrightarrow> I (snd p)"
proof -
  have "p \<in> set m \<or> snd p = b" if "p \<in> set (obj_insert m i b)" for m
    using that by (induction m i b rule: obj_insert.induct) (auto split: if_splits)
  then show "all_boards I r \<Longrightarrow> I b \<Longrightarrow> p \<in> set (obj_insert (wb_boards r) i b) \<Longrightarrow> I (snd p)"
    by (auto simp: all_boards_def)
qed

lemma on_board_law:
  assumes "keeps I f" "all_boards I r"
  shows "all_boards I (snd (on_board i f r))"
proof (cases "obj_get (wb_boards r) i")
  case (Some b)
  have b: "I b" using obj_get_Some_mem [OF Some] assms(2) by (force simp: all_boards_def)
  show ?thesis
  proof (cases "f b")
    case (Inr y)
    then have "I (snd y)" using assms(1) b unfolding keeps_def by (metis prod.collapse)
    then have "I (snd p)" if "p \<in> set (obj_insert (wb_boards r) i (snd y))" for p
      using insert_law [OF assms(2) _ that] by blast
    then show ?thesis using Some Inr by (cases y) (simp add: on_board_def all_boards_def)
  qed (use Some assms(2) in \<open>simp add: on_board_def\<close>)
qed (use assms in \<open>simp add: on_board_def\<close>)

lemma step_law:
  assumes "all_boards I r"
  shows "all_boards I (wb_step now cmd r)"
proof (cases cmd)
  case (Open i topic project arc opener)
  then show ?thesis
    using assms insert_law [OF assms opened] by (auto simp: wb_step_def wb_open_def Let_def all_boards_def)
next
  case (Register i name ro domain)
  then show ?thesis
    using assms on_board_law [OF registering assms]
    by (auto simp: wb_step_def wb_register_def split: option.splits)
next
  case (AddPost i name d)
  then show ?thesis using on_board_law [OF posting assms] by (simp add: wb_step_def wb_post_def)
next
  case (Annotate i name p t body res rs)
  then show ?thesis using on_board_law [OF annotating assms] by (simp add: wb_step_def wb_annotate_def)
next
  case (CastVote i name p v reason)
  then show ?thesis using on_board_law [OF voting assms] by (simp add: wb_step_def wb_vote_def)
next
  case (Transition i name target summary)
  then show ?thesis using on_board_law [OF moving assms] by (simp add: wb_step_def wb_transition_def)
next
  case (Archive i name)
  then show ?thesis
    using assms
    by (auto simp: wb_step_def wb_archive_board_def all_boards_def obj_remove_def split: option.splits sum.splits)
next
  case (RenameProject old new)
  then show ?thesis
    using assms renaming by (auto simp: wb_step_def wb_rename_project_refs_def Let_def all_boards_def)
qed

lemma run_law: "all_boards I r \<Longrightarrow> all_boards I (run_wb cmds r)"
  by (induction cmds r rule: run_wb.induct) (simp_all add: step_law)

end

section \<open>Numbers\<close>

lemma digits_val_zeros: "digits_val 0 (replicate k CHR ''0'' @ s) = digits_val 0 s"
  by (induction k) auto

lemma three_digits_inj [simp]: "three_digits n = three_digits m \<longleftrightarrow> n = m"
  using digits_val_zeros [of _ "show_nat n"] digits_val_zeros [of _ "show_nat m"]
  by (metis three_digits_def digits_val_show_nat option.inject)

section \<open>Well-formed boards\<close>

text \<open>Posts and annotations are numbered in their order, everybody is registered, annotations and votes are
  about posts of the board, nobody reviews a post of their own, every resolution answers a challenge
  of somebody else, every validation has a result and nobody votes twice on a post.\<close>

definition note_ok :: "board \<Rightarrow> annotation \<Rightarrow> bool" where
  "note_ok b a \<longleftrightarrow>
     obj_has (bd_agents b) (an_agent a) \<and>
     (\<exists>p\<in>set (bd_posts b). po_id p = an_post_id a \<and> (an_type a \<noteq> Resolution \<longrightarrow> po_agent p \<noteq> an_agent a)) \<and>
     (an_type a = Resolution \<longrightarrow>
        (\<exists>c\<in>set (bd_annotations b). an_resolves a = Some (an_id c) \<and> an_type c = Challenge \<and>
           an_agent c \<noteq> an_agent a)) \<and>
     (an_type a = Validation \<longrightarrow> an_result a \<noteq> None)"

definition vote_key :: "vote \<Rightarrow> string \<times> string" where
  "vote_key v = (vo_post_id v, vo_agent v)"

definition log_ok :: "board \<Rightarrow> bool" where
  "log_ok b \<longleftrightarrow>
     map po_id (bd_posts b) = map (\<lambda>n. ''post-'' @ three_digits n) [1..<Suc (length (bd_posts b))] \<and>
     map an_id (bd_annotations b) = map (\<lambda>n. ''ann-'' @ three_digits n) [1..<Suc (length (bd_annotations b))] \<and>
     (\<forall>p\<in>set (bd_posts b). obj_has (bd_agents b) (po_agent p)) \<and>
     (\<forall>a\<in>set (bd_annotations b). note_ok b a) \<and>
     distinct (map vote_key (bd_votes b)) \<and>
     (\<forall>k\<in>set (map vote_key (bd_votes b)). fst k \<in> po_id ` set (bd_posts b) \<and> obj_has (bd_agents b) (snd k))"

lemma keepsI: "(\<And>b x b'. I b \<Longrightarrow> f b = Inr (x, b') \<Longrightarrow> I b') \<Longrightarrow> keeps I f"
  by (auto simp: keeps_def)

lemma registered_has: "registered b name = Inr a \<longleftrightarrow> obj_get (bd_agents b) name = Some a"
  by (auto simp: registered_def split: option.splits)

lemma obj_has_bt [simp]: "obj_has (bt_insert m k v) j \<longleftrightarrow> j = k \<or> obj_has m j"
  by (simp add: obj_has_def)

lemma replace_vote_keys [simp]: "map vote_key (replace_vote w vs) = map vote_key vs"
  by (induction vs) (auto simp: vote_key_def)

lemma new_vote_key:
  "\<not> list_ex (same_vote p name) vs \<Longrightarrow> (p, name) \<notin> set (map vote_key vs)"
  by (auto simp: list_ex_iff same_vote_def vote_key_def)

lemma note_ok_mono:
  assumes "note_ok b a" "\<And>n. obj_has (bd_agents b) n \<Longrightarrow> obj_has (bd_agents b') n"
    "set (bd_posts b) \<subseteq> set (bd_posts b')" "set (bd_annotations b) \<subseteq> set (bd_annotations b')"
  shows "note_ok b' a"
  using assms unfolding note_ok_def by (meson subsetD)

lemma find_mem: "find P xs = Some x \<Longrightarrow> x \<in> set xs \<and> P x"
  by (induction xs) (auto split: if_splits)

lemma annotation_added:
  assumes "add_annotation name p t body res rs now b = Inr (x, b')"
  shows "\<exists>a. b' = b\<lparr>bd_annotations := bd_annotations b @ [a]\<rparr> \<and> an_id a = next_annotation_id b \<and> note_ok b a"
proof -
  let ?a = "\<lparr>an_id = next_annotation_id b, an_post_id = p, an_agent = name, an_type = t, an_body = body,
     an_result = res, an_resolves = rs, an_posted_at = now\<rparr>"
  obtain ag where ag: "registered b name = Inr ag"
    using assms by (cases "registered b name") (simp_all add: add_annotation_def result_simps)
  obtain q where q: "find (\<lambda>p'. po_id p' = p) (bd_posts b) = Some q"
    using assms ag by (cases "find (\<lambda>p'. po_id p' = p) (bd_posts b)") (simp_all add: add_annotation_def result_simps)
  have "\<not> (po_agent q = name \<and> t \<noteq> Resolution) \<and>
      (if t = Resolution then check_resolves b name rs else ok) = Inr () \<and> \<not> (t = Validation \<and> res = None) \<and>
      b' = b\<lparr>bd_annotations := bd_annotations b @ [?a]\<rparr>"
    using assms by (simp add: add_annotation_def result_simps ag q Let_def) blast
  then have steps: "obj_get (bd_agents b) name = Some ag" "find (\<lambda>p'. po_id p' = p) (bd_posts b) = Some q"
      "\<not> (po_agent q = name \<and> t \<noteq> Resolution)" "t = Resolution \<longrightarrow> check_resolves b name rs = Inr ()"
      "\<not> (t = Validation \<and> res = None)" "b' = b\<lparr>bd_annotations := bd_annotations b @ [?a]\<rparr>"
    using ag q by (simp_all add: registered_has split: if_splits)
  have "q \<in> set (bd_posts b)" "po_id q = p" using find_mem [OF steps(2)] by simp_all
  moreover have "\<exists>c\<in>set (bd_annotations b). rs = Some (an_id c) \<and> an_type c = Challenge \<and> an_agent c \<noteq> name"
    if res': "t = Resolution"
  proof -
    obtain r c where "rs = Some r" "find (\<lambda>a. an_id a = r) (bd_annotations b) = Some c"
        "an_type c = Challenge" "an_agent c \<noteq> name"
      using steps(4) res' by (auto simp: check_resolves_def result_simps split: option.splits if_splits)
    then show ?thesis using find_mem by fastforce
  qed
  ultimately have "note_ok b ?a" using steps(1,3,5) by (auto simp: note_ok_def obj_has_def)
  then show ?thesis using steps(6) by (intro exI [of _ ?a]) simp
qed

interpretation log: board_law log_ok
proof
  show "log_ok (new_board i topic project arc opener now)" for i topic project arc opener now
    by (simp add: log_ok_def new_board_def)
  show "keeps log_ok (register_agent name ro domain now)" for name ro domain now
  proof (rule keepsI)
    fix b x b'
    assume b: "log_ok b" "register_agent name ro domain now b = Inr (x, b')"
    then have b': "b' = b \<or> (\<exists>a. b' = b\<lparr>bd_agents := bt_insert (bd_agents b) name a\<rparr>)"
      by (auto simp: register_agent_def result_simps split: if_splits)
    then have "note_ok b' a" if "note_ok b a" for a
      using note_ok_mono [OF that, of b'] by auto
    then show "log_ok b'" using b(1) b' by (auto simp: log_ok_def)
  qed
  show "keeps log_ok (add_post name d now)" for name d now
  proof (rule keepsI)
    fix b x b'
    assume b: "log_ok b" "add_post name d now b = Inr (x, b')"
    then obtain p where b': "b' = b\<lparr>bd_posts := bd_posts b @ [p]\<rparr>" "po_id p = next_post_id b"
        "obj_has (bd_agents b) (po_agent p)"
      by (auto simp: add_post_def result_simps registered_has obj_has_def)
    then have "note_ok b' a" if "note_ok b a" for a
      using note_ok_mono [OF that, of b'] by auto
    then show "log_ok b'" using b(1) b' by (auto simp: log_ok_def next_post_id_def)
  qed
  show "keeps log_ok (add_annotation name p t body res rs now)" for name p t body res rs now
  proof (rule keepsI)
    fix b x b'
    assume b: "log_ok b" "add_annotation name p t body res rs now b = Inr (x, b')"
    obtain a where b': "b' = b\<lparr>bd_annotations := bd_annotations b @ [a]\<rparr>" "an_id a = next_annotation_id b" "note_ok b a"
      using annotation_added [OF b(2)] by blast
    then have "note_ok b' c" if "note_ok b c" for c
      using note_ok_mono [OF that, of b'] by auto
    then show "log_ok b'" using b(1) b' by (auto simp: log_ok_def next_annotation_id_def)
  qed
  show "keeps log_ok (cast_vote name p v reason now)" for name p v reason now
  proof (rule keepsI)
    fix b x b'
    assume b: "log_ok b" "cast_vote name p v reason now b = Inr (x, b')"
    let ?w = "\<lparr>vo_post_id = p, vo_agent = name, vo_vote = v, vo_reason = reason, vo_at = now\<rparr>"
    obtain ag where steps: "obj_get (bd_agents b) name = Some ag" "p \<in> po_id ` set (bd_posts b)"
        "b' = b\<lparr>bd_votes := (if list_ex (same_vote p name) (bd_votes b) then replace_vote ?w (bd_votes b)
                              else bd_votes b @ [?w])\<rparr>"
      using b(2)
      by (auto simp: cast_vote_def result_simps registered_has Let_def list_ex_iff split: if_splits)
    then have "note_ok b' c" if "note_ok b c" for c
      using note_ok_mono [OF that, of b'] by auto
    then show "log_ok b'"
      using b(1) steps new_vote_key [of p name "bd_votes b"]
      by (auto simp: log_ok_def obj_has_def vote_key_def simp del: set_map)
  qed
  show "keeps log_ok (move_phase name target summary now)" for name target summary now
    by (rule keepsI) (auto simp: move_phase_def result_simps enter_phase_def log_ok_def note_ok_def)
  show "log_ok (rename_board old new b)" if "log_ok b" for old new b
    using that by (auto simp: rename_board_def log_ok_def note_ok_def)
qed



section \<open>Phases move forward\<close>

definition phase_rank :: "phase \<Rightarrow> nat" where
  "phase_rank p =
     (case p of Blind \<Rightarrow> 0 | Read \<Rightarrow> 1 | Validate \<Rightarrow> 2 | Debate \<Rightarrow> 3 | Resolve \<Rightarrow> 4 | Archived \<Rightarrow> 5)"

lemma transition_rank: "allows_transition_to p q \<Longrightarrow> phase_rank p < phase_rank q"
  by (cases p; cases q) (simp_all add: allows_transition_to_def canonical_next_def phase_rank_def)

lemma rank_bound: "phase_rank p \<le> 5"
  by (cases p) (simp_all add: phase_rank_def)

definition history_ok :: "board \<Rightarrow> bool" where
  "history_ok b \<longleftrightarrow>
     bd_history b \<noteq> [] \<and> pe_phase (hd (bd_history b)) = Blind \<and> pe_phase (last (bd_history b)) = bd_phase b \<and>
     successively (\<lambda>e f. allows_transition_to (pe_phase e) (pe_phase f)) (bd_history b)"

lemma successively_snoc:
  "successively P (xs @ [x]) \<longleftrightarrow> successively P xs \<and> (xs = [] \<or> P (last xs) x)"
  by (simp add: successively_append_iff)

interpretation history: board_law history_ok
proof
  show "history_ok (new_board i topic project arc opener now)" for i topic project arc opener now
    by (simp add: history_ok_def new_board_def)
  show "keeps history_ok (register_agent name ro domain now)" for name ro domain now
    by (rule keepsI) (auto simp: register_agent_def result_simps history_ok_def split: if_splits)
  show "keeps history_ok (add_post name d now)" for name d now
    by (rule keepsI) (auto simp: add_post_def result_simps history_ok_def Let_def)
  show "keeps history_ok (add_annotation name p t body res rs now)" for name p t body res rs now
    by (rule keepsI) (auto simp: history_ok_def dest!: annotation_added)
  show "keeps history_ok (cast_vote name p v reason now)" for name p v reason now
    by (rule keepsI) (auto simp: cast_vote_def result_simps history_ok_def Let_def split: if_splits)
  show "keeps history_ok (move_phase name target summary now)" for name target summary now
    by (rule keepsI) (auto simp: move_phase_def result_simps history_ok_def enter_phase_def successively_snoc)
  show "history_ok (rename_board old new b)" if "history_ok b" for old new b
    using that by (simp add: rename_board_def history_ok_def)
qed

lemma history_bound:
  assumes "history_ok b"
  shows "sorted_wrt (<) (map (phase_rank \<circ> pe_phase) (bd_history b)) \<and> length (bd_history b) \<le> 6"
proof -
  have "successively (\<lambda>e f. phase_rank (pe_phase e) < phase_rank (pe_phase f)) (bd_history b)"
    using assms unfolding history_ok_def by (auto intro: successively_mono transition_rank)
  then have sorted: "sorted_wrt (<) (map (phase_rank \<circ> pe_phase) (bd_history b))"
    by (simp add: sorted_wrt_map comp_def successively_conv_sorted_wrt transp_def)
  then have "distinct (map (phase_rank \<circ> pe_phase) (bd_history b))" by (simp add: strict_sorted_iff)
  then have "length (bd_history b) = card (set (map (phase_rank \<circ> pe_phase) (bd_history b)))"
    by (metis distinct_card length_map)
  also have "\<dots> \<le> card {0..5::nat}" by (rule card_mono) (auto simp: rank_bound)
  finally show ?thesis using sorted by simp
qed

text \<open>The history of every board starts blind, ends with its current phase and only moves forward along
  the allowed steps, so it has at most six entries.\<close>

theorem phases_move_forward:
  assumes "all_boards history_ok r"
  shows "all_boards (\<lambda>b. pe_phase (hd (bd_history b)) = Blind \<and> pe_phase (last (bd_history b)) = bd_phase b \<and>
      sorted_wrt (<) (map (phase_rank \<circ> pe_phase) (bd_history b)) \<and> length (bd_history b) \<le> 6)
    (run_wb cmds r)"
  using history.run_law [OF assms] history_bound unfolding all_boards_def history_ok_def by blast

theorem phases_move_forward_witness:
  "all_boards (\<lambda>b. length (bd_history b) \<le> 6)
     (run_wb [(''t'', Open ''b'' ''topic'' ''p'' None ''ann''), (''t'', Register ''b'' ''ann'' Facilitator ''d''),
              (''t'', Transition ''b'' ''ann'' Read None)]
       \<lparr>wb_boards = [], wb_files = None, wb_archive = []\<rparr>)"
  using phases_move_forward [of "\<lparr>wb_boards = [], wb_files = None, wb_archive = []\<rparr>"
      "[(''t'', Open ''b'' ''topic'' ''p'' None ''ann''), (''t'', Register ''b'' ''ann'' Facilitator ''d''),
        (''t'', Transition ''b'' ''ann'' Read None)]"]
  by (simp add: all_boards_def)

end
