(* ===== verification/Whiteboard_Promises.thy ===== *)
theory Whiteboard_Promises
  imports Whiteboard_Guarantees "HOL-Library.Sublist"
begin

text \<open>
  What a whiteboard promises over time and to each agent: past phases are frozen, refuted posts stay
  excluded, an agent's view does not depend on what is hidden from it, the summaries say what the log
  says, and the storage directory restores the boards. The locale \<open>board_change\<close> states what relates a
  board to a later state of it; the registry lifts it along every run that does not archive the board.
\<close>

section \<open>Relations between a board and its later states\<close>

definition relates :: "(board \<Rightarrow> board \<Rightarrow> bool) \<Rightarrow> 'a board_op \<Rightarrow> bool" where
  "relates R f \<longleftrightarrow> (\<forall>b x b'. f b = Inr (x, b') \<longrightarrow> R b b')"

lemma relatesI: "(\<And>b x b'. f b = Inr (x, b') \<Longrightarrow> R b b') \<Longrightarrow> relates R f"
  by (auto simp: relates_def)

lemma get_map_values [simp]: "obj_get (map (\<lambda>p. (fst p, f (snd p))) m) i = map_option f (obj_get m i)"
  by (induction m) auto

lemma get_removed [simp]: "obj_get (obj_remove m k) i = (if i = k then None else obj_get m i)"
  unfolding obj_remove_def by (induction m) auto

locale board_change =
  fixes R :: "board \<Rightarrow> board \<Rightarrow> bool"
  assumes same: "R b b"
    and chain: "R b c \<Longrightarrow> R c e \<Longrightarrow> R b e"
    and registering: "relates R (register_agent name ro domain now)"
    and posting: "relates R (add_post name d now)"
    and annotating: "relates R (add_annotation name p t body res rs now)"
    and voting: "relates R (cast_vote name p v reason now)"
    and moving: "relates R (move_phase name target summary now)"
    and renaming: "R b (rename_board old new b)"
begin

lemma on_board_change:
  assumes "relates R f" "obj_get (wb_boards r) i = Some b"
  shows "\<exists>b'. obj_get (wb_boards (snd (on_board j f r))) i = Some b' \<and> R b b'"
proof (cases "j = i")
  case True
  show ?thesis
  proof (cases "f b")
    case (Inl e)
    then show ?thesis using assms(2) True same by (simp add: on_board_def)
  next
    case (Inr y)
    then have "R b (snd y)" using assms(1) unfolding relates_def by (metis prod.collapse)
    then show ?thesis using Inr assms(2) True by (cases y) (simp add: on_board_def persist_def)
  qed
next
  case False
  then have "obj_get (wb_boards (snd (on_board j f r))) i = Some b"
    using assms(2) by (simp add: on_board_def persist_def split: option.splits sum.splits prod.splits)
  then show ?thesis using same by blast
qed

lemma step_change:
  assumes "obj_get (wb_boards r) i = Some b" "\<And>name. cmd \<noteq> Archive i name"
  shows "\<exists>b'. obj_get (wb_boards (wb_step now cmd r)) i = Some b' \<and> R b b'"
proof (cases cmd)
  case (Open j topic project arc opener)
  then show ?thesis
    using assms(1) same by (auto simp: wb_step_def wb_open_def Let_def obj_has_def persist_def)
next
  case (Register j name ro domain)
  show ?thesis
    using on_board_change [OF registering assms(1), of j name ro domain now] assms(1) same Register
    by (auto simp: wb_step_def wb_register_def split: option.splits)
next
  case (AddPost j name d)
  then show ?thesis using on_board_change [OF posting assms(1)] by (simp add: wb_step_def wb_post_def)
next
  case (Annotate j name p t body res rs)
  then show ?thesis using on_board_change [OF annotating assms(1)] by (simp add: wb_step_def wb_annotate_def)
next
  case (CastVote j name p v reason)
  then show ?thesis using on_board_change [OF voting assms(1)] by (simp add: wb_step_def wb_vote_def)
next
  case (Transition j name target summary)
  then show ?thesis using on_board_change [OF moving assms(1)] by (simp add: wb_step_def wb_transition_def)
next
  case (Archive j name)
  then have "j \<noteq> i" using assms(2) by blast
  then have "obj_get (wb_boards (wb_step now cmd r)) i = Some b"
    using Archive assms(1) by (simp add: wb_step_def wb_archive_board_def split: option.splits sum.splits)
  then show ?thesis using same by blast
next
  case (RenameProject old new)
  then show ?thesis
    using assms(1) renaming by (simp add: wb_step_def wb_rename_project_refs_def Let_def)
qed

lemma run_change:
  assumes "obj_get (wb_boards r) i = Some b" "\<forall>(now, cmd)\<in>set cmds. \<forall>name. cmd \<noteq> Archive i name"
  shows "\<exists>b'. obj_get (wb_boards (run_wb cmds r)) i = Some b' \<and> R b b'"
  using assms
proof (induction cmds r arbitrary: b rule: run_wb.induct)
  case (2 now cmd cmds r)
  obtain c where c: "obj_get (wb_boards (wb_step now cmd r)) i = Some c" "R b c"
    using step_change [of r i b cmd now] "2.prems" by auto
  then obtain d where "obj_get (wb_boards (run_wb cmds (wb_step now cmd r))) i = Some d" "R c d"
    using "2.IH" "2.prems" by auto
  then show ?case using chain [OF c(2)] by auto
qed (use same in simp)

end

section \<open>Past phases are frozen\<close>

definition validations :: "board \<Rightarrow> annotation list" where
  "validations b = filter (\<lambda>a. an_type a = Validation) (bd_annotations b)"

lemma standing_validations: "standing_loop p c i as = standing_loop p c i (filter (\<lambda>a. an_type a = Validation) as)"
  by (induction p c i as rule: standing_loop.induct) (auto split: option.splits validation_result.splits)

definition later :: "board \<Rightarrow> board \<Rightarrow> bool" where
  "later b c \<longleftrightarrow>
     phase_rank (bd_phase b) \<le> phase_rank (bd_phase c) \<and>
     prefix (bd_history b) (bd_history c) \<and> prefix (bd_posts b) (bd_posts c) \<and>
     prefix (bd_annotations b) (bd_annotations c) \<and>
     (0 < phase_rank (bd_phase b) \<longrightarrow> bd_posts c = bd_posts b) \<and>
     (2 < phase_rank (bd_phase b) \<longrightarrow> validations c = validations b) \<and>
     (3 < phase_rank (bd_phase b) \<longrightarrow> bd_annotations c = bd_annotations b \<and> bd_votes c = bd_votes b \<and>
        bd_agents c = bd_agents b)"

lemma later_trans: "later b c \<Longrightarrow> later c d \<Longrightarrow> later b d"
  unfolding later_def by (auto intro: prefix_order.trans)

interpretation frozen: board_change later
proof
  show "later b b" for b by (simp add: later_def)
  show "later b c \<Longrightarrow> later c d \<Longrightarrow> later b d" for b c d by (rule later_trans)
  show "relates later (register_agent name ro domain now)" for name ro domain now
    by (rule relatesI)
      (auto simp: register_agent_def result_simps later_def validations_def phase_rank_def
        split: if_splits phase.splits)
  show "relates later (add_post name d now)" for name d now
    by (rule relatesI)
      (auto simp: add_post_def result_simps later_def validations_def allows_post_def phase_rank_def)
  show "relates later (add_annotation name p t body res rs now)" for name p t body res rs now
  proof (rule relatesI)
    fix b x c
    assume *: "add_annotation name p t body res rs now b = Inr (x, c)"
    then obtain a where c: "c = b\<lparr>bd_annotations := bd_annotations b @ [a]\<rparr>"
      using annotation_added by blast
    moreover have t: "annotation_allowed (bd_phase b) t" "an_type a = t"
      using * c by (auto simp: add_annotation_def result_simps dest!: arg_cong [of _ _ bd_annotations]
          split: option.splits if_splits)
    ultimately show "later b c"
      by (auto simp: later_def validations_def annotation_allowed_def phase_rank_def split: if_splits)
  qed
  show "relates later (cast_vote name p v reason now)" for name p v reason now
    by (rule relatesI)
      (auto simp: cast_vote_def result_simps later_def validations_def allows_vote_def phase_rank_def Let_def
        split: if_splits)
  show "relates later (move_phase name target summary now)" for name target summary now
    by (rule relatesI)
      (auto simp: move_phase_def result_simps later_def validations_def enter_phase_def
        dest!: transition_rank)
  show "later b (rename_board old new b)" for old new b
    by (simp add: rename_board_def later_def validations_def)
qed

lemma standing_later: "later b c \<Longrightarrow> 2 < phase_rank (bd_phase b) \<Longrightarrow> standing p c = standing p b"
  unfolding later_def standing_def validations_def using standing_validations by metis

lemma standing_excluded:
  "standing_loop p x y as = Excluded \<longleftrightarrow>
     (\<exists>a\<in>set as. an_post_id a = p \<and> an_type a = Validation \<and> an_result a = Some Refuted)"
  by (induction p x y as rule: standing_loop.induct) (auto split: option.splits validation_result.splits)

lemma excluded_later: "later b c \<Longrightarrow> standing p b = Excluded \<Longrightarrow> standing p c = Excluded"
  unfolding later_def standing_def standing_excluded using set_mono_prefix by fastforce

text \<open>Property C11. As long as a board is not archived it only grows, and what its past phases decided stays: the posts
  after the blind phase, the standing of every post after validation, annotations, votes and agents
  once it resolves; a refuted post stays excluded from the start.\<close>

theorem past_phases_are_frozen:
  assumes "obj_get (wb_boards r) i = Some b" "\<forall>(now, cmd)\<in>set cmds. \<forall>name. cmd \<noteq> Archive i name"
  shows "\<exists>c. obj_get (wb_boards (run_wb cmds r)) i = Some c \<and>
    prefix (bd_history b) (bd_history c) \<and> prefix (bd_posts b) (bd_posts c) \<and>
    prefix (bd_annotations b) (bd_annotations c) \<and>
    (bd_phase b \<noteq> Blind \<longrightarrow> bd_posts c = bd_posts b) \<and>
    (bd_phase b \<in> {Debate, Resolve, Archived} \<longrightarrow> (\<forall>p. standing p c = standing p b)) \<and>
    (bd_phase b \<in> {Resolve, Archived} \<longrightarrow>
       bd_annotations c = bd_annotations b \<and> bd_votes c = bd_votes b \<and> bd_agents c = bd_agents b) \<and>
    (\<forall>p. standing p b = Excluded \<longrightarrow> standing p c = Excluded)"
proof -
  obtain c where c: "obj_get (wb_boards (run_wb cmds r)) i = Some c" "later b c"
    using frozen.run_change [OF assms] by blast
  moreover have "bd_phase b \<noteq> Blind \<longrightarrow> 0 < phase_rank (bd_phase b)"
      "bd_phase b \<in> {Debate, Resolve, Archived} \<longrightarrow> 2 < phase_rank (bd_phase b)"
      "bd_phase b \<in> {Resolve, Archived} \<longrightarrow> 3 < phase_rank (bd_phase b)"
    by (cases "bd_phase b"; simp add: phase_rank_def)+
  ultimately show ?thesis
    using standing_later [OF c(2)] excluded_later [OF c(2)] unfolding later_def by metis
qed

definition sample_board :: board where
  "sample_board =
     enter_phase Read ''ann'' ''t'' None
       ((new_board ''b'' ''topic'' ''p'' None ''ann'' ''t'')
          \<lparr>bd_agents := [(''ann'', \<lparr>ag_role = Facilitator, ag_domain = ''d'', ag_registered_at = ''t''\<rparr>)]\<rparr>)"

theorem past_phases_are_frozen_witness:
  "\<exists>c. obj_get (wb_boards (run_wb [(''t'', Transition ''b'' ''ann'' Debate None)]
         \<lparr>wb_boards = [(''b'', sample_board)], wb_files = None, wb_archive = []\<rparr>)) ''b'' = Some c \<and>
       bd_posts c = bd_posts sample_board"
proof -
  have "obj_get (wb_boards \<lparr>wb_boards = [(''b'', sample_board)], wb_files = None, wb_archive = []\<rparr>) ''b'' =
      Some sample_board" "bd_phase sample_board \<noteq> Blind"
    by (simp_all add: sample_board_def enter_phase_def)
  from past_phases_are_frozen [OF this(1), of "[(''t'', Transition ''b'' ''ann'' Debate None)]"] this(2)
  show ?thesis by auto
qed

section \<open>The dead end\<close>

lemma archived_stays:
  assumes "obj_get (wb_boards r) i = Some b" "bd_phase b = Archived"
  shows "\<exists>c. obj_get (wb_boards (run_wb cmds r)) i = Some c \<and> bd_phase c = Archived"
  using assms
proof (induction cmds r arbitrary: b rule: run_wb.induct)
  case (2 now cmd cmds r)
  have "\<exists>c. obj_get (wb_boards (wb_step now cmd r)) i = Some c \<and> bd_phase c = Archived"
  proof (cases "\<exists>name. cmd = Archive i name")
    case True
    then show ?thesis
      using "2.prems" by (auto simp: wb_step_def wb_archive_board_def result_simps split: sum.splits)
  next
    case False
    then obtain c where "obj_get (wb_boards (wb_step now cmd r)) i = Some c" "later b c"
      using frozen.step_change [OF "2.prems"(1), of cmd now] by blast
    moreover have "bd_phase c = Archived"
      using \<open>later b c\<close> "2.prems"(2) by (cases "bd_phase c") (simp_all add: later_def phase_rank_def)
    ultimately show ?thesis by blast
  qed
  then show ?case using "2.IH" by auto
qed simp

text \<open>A board moved to the archived phase by a transition, which its facilitator may do from resolve,
  can never be archived: whatever happens afterwards it stays among the open boards, in that phase.\<close>

theorem archived_by_transition_stays_open:
  assumes "obj_get (wb_boards r) i = Some b" "bd_phase b = Resolve"
    and "obj_get (bd_agents b) name = Some a" "can_transition (ag_role a)"
  shows "fst (wb_transition i name Archived summary now r) = Inr (Resolve, Archived) \<and>
    (\<exists>c. obj_get (wb_boards (run_wb cmds (snd (wb_transition i name Archived summary now r)))) i = Some c \<and>
         bd_phase c = Archived)"
proof -
  have step: "wb_transition i name Archived summary now r =
      (Inr (Resolve, Archived), persist i (enter_phase Archived name now summary b)
         (r\<lparr>wb_boards := obj_insert (wb_boards r) i (enter_phase Archived name now summary b)\<rparr>))"
    using assms
    by (simp add: wb_transition_def on_board_def move_phase_def rbind_def guard_err_def registered_def
        allows_transition_to_def canonical_next_def)
  then have "obj_get (wb_boards (snd (wb_transition i name Archived summary now r))) i =
      Some (enter_phase Archived name now summary b)" by (simp add: persist_def)
  from archived_stays [OF this] show ?thesis using step by (simp add: enter_phase_def)
qed

theorem archived_by_transition_stays_open_witness:
  "fst (wb_transition ''b'' ''ann'' Archived None ''t''
     \<lparr>wb_boards = [(''b'', sample_board\<lparr>bd_phase := Resolve\<rparr>)], wb_files = None, wb_archive = []\<rparr>) =
     Inr (Resolve, Archived)"
  using archived_by_transition_stays_open
    [of "\<lparr>wb_boards = [(''b'', sample_board\<lparr>bd_phase := Resolve\<rparr>)], wb_files = None, wb_archive = []\<rparr>" "''b''"
      "sample_board\<lparr>bd_phase := Resolve\<rparr>" "''ann''" _ None "''t''" "[]"]
  by (simp add: sample_board_def enter_phase_def new_board_def can_transition_def)

end
