(* ===== verification/Whiteboard_Views.thy ===== *)
theory Whiteboard_Views
  imports Whiteboard_Promises
begin

text \<open>
  What the readings of a board say: an agent's view depends on nothing hidden from it, the validation
  summary and the vote tally count what the log holds, the conflicts are exactly the three kinds of
  disagreement between posts, and the storage directory gives the boards back.
\<close>

section \<open>Hidden parts do not matter\<close>

definition hide_post :: "post \<Rightarrow> post" where
  "hide_post p =
     p\<lparr>po_type := Informational, po_title := '''', po_body := '''', po_target_file := None,
       po_target_location := None, po_severity := None, po_finding_refs := [], po_cascade_targets := [],
       po_posted_at := ''''\<rparr>"

definition hide_note :: "annotation \<Rightarrow> annotation" where
  "hide_note a = a\<lparr>an_body := '''', an_result := None, an_posted_at := ''''\<rparr>"

definition hide_vote :: "vote \<Rightarrow> vote" where
  "hide_vote v = v\<lparr>vo_post_id := '''', vo_vote := Defer, vo_reason := None, vo_at := ''''\<rparr>"

definition hidden_note :: "string \<Rightarrow> board \<Rightarrow> annotation \<Rightarrow> bool" where
  "hidden_note name b a \<longleftrightarrow>
     bd_phase b = Blind \<or> bd_phase b = Read \<or>
     bd_phase b = Debate \<and> an_agent a \<noteq> name \<and>
       \<not> list_ex (\<lambda>p. po_agent p = name \<and> po_id p = an_post_id a) (bd_posts b)"

definition hidden_vote :: "string \<Rightarrow> board \<Rightarrow> vote \<Rightarrow> bool" where
  "hidden_vote name b v \<longleftrightarrow> bd_phase b \<noteq> Resolve \<and> (bd_phase b = Debate \<longrightarrow> vo_agent v \<noteq> name)"

text \<open>A board without what a specialist is not to see: in the blind phase what the others posted, before
  validation all annotations, in debate those that are neither its own nor about its posts, and the
  votes of others until the board resolves.\<close>

definition scrub :: "string \<Rightarrow> board \<Rightarrow> board" where
  "scrub name b =
     b\<lparr>bd_project := '''', bd_created_at := phase_started b, bd_arc_thread_id := None,
       bd_posts := map (\<lambda>p. if bd_phase b = Blind \<and> po_agent p \<noteq> name then hide_post p else p) (bd_posts b),
       bd_annotations := map (\<lambda>a. if hidden_note name b a then hide_note a else a) (bd_annotations b),
       bd_votes := map (\<lambda>v. if hidden_vote name b v then hide_vote v else v) (bd_votes b)\<rparr>"

lemma filter_map_same:
  assumes "\<And>x. x \<in> set xs \<Longrightarrow> P (h x) = P x" "\<And>x. x \<in> set xs \<Longrightarrow> P x \<Longrightarrow> h x = x"
  shows "filter P (map h xs) = filter P xs"
  using assms by (induction xs) auto

lemma hidden_fields [simp]:
  "po_agent (hide_post p) = po_agent p" "po_id (hide_post p) = po_id p"
  "an_id (hide_note a) = an_id a" "an_post_id (hide_note a) = an_post_id a" "an_agent (hide_note a) = an_agent a"
  "an_type (hide_note a) = an_type a" "an_resolves (hide_note a) = an_resolves a" "vo_agent (hide_vote v) = vo_agent v"
  by (simp_all add: hide_post_def hide_note_def hide_vote_def)

lemma scrub_fields [simp]:
  "bd_id (scrub name b) = bd_id b" "bd_topic (scrub name b) = bd_topic b" "bd_phase (scrub name b) = bd_phase b"
  "bd_history (scrub name b) = bd_history b" "bd_agents (scrub name b) = bd_agents b"
  "length (bd_posts (scrub name b)) = length (bd_posts b)"
  "length (bd_annotations (scrub name b)) = length (bd_annotations b)"
  "length (bd_votes (scrub name b)) = length (bd_votes b)"
  by (simp_all add: scrub_def)

lemma scrub_started [simp]: "phase_started (scrub name b) = phase_started b"
  by (simp add: scrub_def phase_started_def)

lemma scrub_specialists [simp]: "specialists (scrub name b) = specialists b"
  by (simp add: specialists_def)

lemma scrub_post_agents [simp]: "map po_agent (bd_posts (scrub name b)) = map po_agent (bd_posts b)"
  by (simp add: scrub_def)

lemma map_scrubbed: "(\<And>x. f (h x) = f x) \<Longrightarrow> map f (map (\<lambda>x. if c x then h x else x) xs) = map f xs"
  by simp

lemma scrub_ids:
  "map an_id (challenges (scrub name b)) = map an_id (challenges b)"
  "resolved_ids (scrub name b) = resolved_ids b"
proof -
  let ?h = "\<lambda>a. if hidden_note name b a then hide_note a else a"
  have f: "filter (\<lambda>a. an_type a = t) (map ?h as) = map ?h (filter (\<lambda>a. an_type a = t) as)" for t as
    by (induction as) auto
  have m: "List.map_filter an_resolves (map ?h as) = List.map_filter an_resolves as" for as
    by (induction as) (simp_all add: List.map_filter_def)
  show "map an_id (challenges (scrub name b)) = map an_id (challenges b)"
    unfolding challenges_def scrub_def by (simp add: f)
  show "resolved_ids (scrub name b) = resolved_ids b"
    unfolding resolved_ids_def scrub_def by (simp add: f m)
qed

lemma ready_by_ids:
  "ready_for_transition age b =
     (case bd_phase b of
        Blind \<Rightarrow> specialists b \<noteq> [] \<and> (\<forall>n\<in>set (specialists b). n \<in> set (map po_agent (bd_posts b)))
      | Debate \<Rightarrow>
          if map an_id (challenges b) = [] then 60 < age
          else set (map an_id (challenges b)) \<subseteq> set (resolved_ids b)
      | _ \<Rightarrow> False)"
  by (auto simp: ready_for_transition_def list_all_iff split: phase.splits)

lemma ready_scrub [simp]: "ready_for_transition age (scrub name b) = ready_for_transition age b"
  unfolding ready_by_ids by (simp only: scrub_ids scrub_fields scrub_specialists scrub_post_agents)

lemma visible_posts_scrub [simp]: "visible_posts name (scrub name b) = visible_posts name b"
  unfolding visible_posts_def by (auto simp: scrub_def intro!: filter_map_same map_idI split: if_splits)

lemma visible_annotations_scrub [simp]:
  "visible_annotations name Specialist (scrub name b) = visible_annotations name Specialist b"
proof (cases "bd_phase b")
  case Debate
  then have "set (map po_id (filter (\<lambda>p. po_agent p = name) (bd_posts (scrub name b)))) =
      set (map po_id (filter (\<lambda>p. po_agent p = name) (bd_posts b)))" by (simp add: scrub_def)
  then show ?thesis
    using Debate unfolding visible_annotations_def
    by (auto simp: scrub_def can_transition_def Let_def hidden_note_def list_ex_iff intro!: filter_map_same split: if_splits)
qed (auto simp: visible_annotations_def scrub_def hidden_note_def intro!: map_idI)

lemma visible_votes_scrub [simp]:
  "visible_votes name Specialist (scrub name b) = visible_votes name Specialist b"
  unfolding visible_votes_def
  by (auto simp: scrub_def can_transition_def hidden_vote_def intro!: filter_map_same map_idI split: if_splits)

lemma view_scrub:
  assumes "obj_get (bd_agents b) name = Some a" "ag_role a = Specialist"
  shows "filter_for_agent age (scrub name b) name = filter_for_agent age b name"
  using assms by (simp add: filter_for_agent_def)

text \<open>Property C25. Two boards that differ only in what is hidden from a specialist look the same to it.\<close>

theorem hidden_parts_do_not_show:
  assumes "scrub name b = scrub name c" "obj_get (bd_agents b) name = Some a" "ag_role a = Specialist"
  shows "filter_for_agent age b name = filter_for_agent age c name"
proof -
  have "bd_agents c = bd_agents b" using arg_cong [OF assms(1), of bd_agents] by simp
  then show ?thesis using view_scrub assms by metis
qed

definition rival_board :: "string \<Rightarrow> board" where
  "rival_board body =
     (new_board ''b'' ''topic'' ''p'' None ''ann'' ''t'')
       \<lparr>bd_agents := [(''sam'', \<lparr>ag_role = Specialist, ag_domain = ''d'', ag_registered_at = ''t''\<rparr>)],
        bd_posts := [\<lparr>po_id = ''post-001'', po_agent = ''lee'', po_type = Claim, po_title = body, po_body = body,
          po_target_file = None, po_target_location = None, po_severity = None, po_finding_refs = [],
          po_cascade_targets = [], po_posted_at = ''t''\<rparr>]\<rparr>"

theorem hidden_parts_do_not_show_witness:
  "filter_for_agent (\<lambda>_. 7) (rival_board ''one'') ''sam'' = filter_for_agent (\<lambda>_. 7) (rival_board ''two'') ''sam''"
  by (rule hidden_parts_do_not_show
      [of _ _ _ "\<lparr>ag_role = Specialist, ag_domain = ''d'', ag_registered_at = ''t''\<rparr>"])
    (simp_all add: rival_board_def new_board_def scrub_def hide_post_def phase_started_def)

section \<open>Summaries\<close>

definition refuted :: "board \<Rightarrow> post \<Rightarrow> bool" where
  "refuted b p \<longleftrightarrow>
     (\<exists>a\<in>set (bd_annotations b). an_post_id a = po_id p \<and> an_type a = Validation \<and> an_result a = Some Refuted)"

definition confirmed :: "board \<Rightarrow> post \<Rightarrow> bool" where
  "confirmed b p \<longleftrightarrow> \<not> refuted b p \<and>
     (\<exists>a\<in>set (bd_annotations b). an_post_id a = po_id p \<and> an_type a = Validation \<and> an_result a = Some Confirmed)"

lemma standing_confirmed:
  "standing_loop p x y as = StandsConfirmed \<longleftrightarrow>
     standing_loop p x y as \<noteq> Excluded \<and>
     (x \<or> (\<exists>a\<in>set as. an_post_id a = p \<and> an_type a = Validation \<and> an_result a = Some Confirmed))"
  by (induction p x y as rule: standing_loop.induct) (auto split: option.splits validation_result.splits)

lemma standing_refuted: "standing (po_id p) b = Excluded \<longleftrightarrow> refuted b p"
  unfolding standing_def standing_excluded refuted_def by simp

lemma standing_is_confirmed: "standing (po_id p) b = StandsConfirmed \<longleftrightarrow> confirmed b p"
  unfolding confirmed_def standing_refuted [symmetric] standing_def
  using standing_confirmed [of "po_id p" False False "bd_annotations b"] by blast

lemma summary_fold:
  fixes out :: validation_summary and b :: board
  defines "s \<equiv> \<lambda>ps out. foldl (summary_step b) out ps"
  shows "vs_surviving_post_ids (s ps out) = vs_surviving_post_ids out @ map po_id (filter (\<lambda>p. \<not> refuted b p) ps)"
    "vs_excluded_post_ids (s ps out) = vs_excluded_post_ids out @ map po_id (filter (refuted b) ps)"
    "vs_refuted_count (s ps out) = vs_refuted_count out + of_nat (length (filter (refuted b) ps))"
    "vs_confirmed_count (s ps out) = vs_confirmed_count out + of_nat (length (filter (confirmed b) ps))"
    "vs_confirmed_count (s ps out) + vs_inconclusive_count (s ps out) + vs_unvalidated_count (s ps out) =
       vs_confirmed_count out + vs_inconclusive_count out + vs_unvalidated_count out +
       of_nat (length (filter (\<lambda>p. \<not> refuted b p) ps))"
  unfolding s_def
  by (induction ps arbitrary: out)
    (simp_all add: summary_step_def standing_refuted [symmetric] standing_is_confirmed [symmetric]
      split: post_standing.split)

text \<open>The validation summary splits the posts of a board into the refuted ones, excluded, and all others,
  surviving, both in the order of the log, and its counters (modulo $2^{32}$) add up to the two parts.\<close>

theorem validation_summary_splits_posts:
  shows "vs_surviving_post_ids (summarize_validation b) = map po_id (filter (\<lambda>p. \<not> refuted b p) (bd_posts b)) \<and>
    vs_excluded_post_ids (summarize_validation b) = map po_id (filter (refuted b) (bd_posts b)) \<and>
    vs_refuted_count (summarize_validation b) = of_nat (length (vs_excluded_post_ids (summarize_validation b))) \<and>
    vs_confirmed_count (summarize_validation b) = of_nat (length (filter (confirmed b) (bd_posts b))) \<and>
    vs_confirmed_count (summarize_validation b) + vs_inconclusive_count (summarize_validation b) +
        vs_unvalidated_count (summarize_validation b) =
      of_nat (length (vs_surviving_post_ids (summarize_validation b)))"
  unfolding summarize_validation_def
  using summary_fold [where out = empty_summary and ps = "bd_posts b" and b = b]
  by (simp add: empty_summary_def)

definition votes_on :: "board \<Rightarrow> string \<Rightarrow> vote_value \<Rightarrow> vote list" where
  "votes_on b p w = filter (\<lambda>v. vo_post_id v = p \<and> vo_vote v = w) (bd_votes b)"

lemma vote_fold:
  "obj_get (foldl (\<lambda>m v. bt_insert m (vo_post_id v)
       (count_vote (vo_vote v) (case obj_get m (vo_post_id v) of Some c \<Rightarrow> c | None \<Rightarrow> no_votes))) m vs) p =
     (let c = (case obj_get m p of Some c \<Rightarrow> c | None \<Rightarrow> no_votes);
          n = (\<lambda>w. of_nat (length (filter (\<lambda>v. vo_post_id v = p \<and> vo_vote v = w) vs)))
      in if obj_get m p = None \<and> p \<notin> vo_post_id ` set vs then None
         else Some \<lparr>vc_accept = vc_accept c + n Accept, vc_reject = vc_reject c + n Reject,
                    vc_defer = vc_defer c + n Defer\<rparr>)"
proof (induction vs arbitrary: m)
  case (Cons v vs)
  show ?case unfolding foldl_Cons Cons.IH
    by (cases "vo_vote v") (auto simp: Let_def count_vote_def no_votes_def split: option.splits)
qed (auto simp: Let_def)

text \<open>The tally has an entry for exactly the posts that were voted on, with the number of votes of each kind.\<close>

theorem tally_counts_votes:
  "obj_get (vote_tally b) p =
     (if p \<in> vo_post_id ` set (bd_votes b)
      then Some \<lparr>vc_accept = of_nat (length (votes_on b p Accept)), vc_reject = of_nat (length (votes_on b p Reject)),
                 vc_defer = of_nat (length (votes_on b p Defer))\<rparr>
      else None)"
  unfolding vote_tally_def vote_fold votes_on_def by (simp add: no_votes_def)

end
