(* ===== verification/Whiteboard_Storage.thy ===== *)
theory Whiteboard_Storage
  imports Whiteboard_Views
begin

text \<open>
  The conflicts of a board are exactly the three kinds of disagreement between its posts, and the
  storage directory holds the boards in memory, so a restart gives them back.
\<close>

section \<open>Conflicts\<close>

lemma set_map_filter_iff [simp]: "y \<in> set (List.map_filter f xs) \<longleftrightarrow> (\<exists>x\<in>set xs. f x = Some y)"
  by (force simp: List.map_filter_def)

lemma in_pairs: "(x, y) \<in> set (pairs xs) \<longleftrightarrow> subseq [x, y] xs"
proof (induction xs)
  case (Cons a as)
  have "subseq [x, y] (a # as) \<longleftrightarrow> a = x \<and> y \<in> set as \<or> subseq [x, y] as"
    by (metis list_emb_ConsD list_emb_Cons subseq_Cons2 subseq_Cons2_neq subseq_singleton_left subseq_Cons2')
  then show ?case using Cons by auto
qed simp

lemma pairs_mem: "(x, y) \<in> set (pairs xs) \<Longrightarrow> y \<in> set xs"
  by (induction xs) auto

lemma subseq_filter_pair: "subseq [x, y] (filter P xs) \<longleftrightarrow> P x \<and> P y \<and> subseq [x, y] xs"
proof (induction xs)
  case (Cons a as)
  have *: "subseq [x, y] (c # cs) \<longleftrightarrow> c = x \<and> y \<in> set cs \<or> subseq [x, y] cs" for c cs
    using in_pairs [of x y "c # cs"] in_pairs [of x y cs] by auto
  show ?case using Cons unfolding filter.simps(2) * by (auto simp: * subseq_singleton_left in_pairs [symmetric] dest: pairs_mem)
qed simp

lemma target_fold:
  "obj_get (foldl (\<lambda>m p. case po_target_file p of Some t \<Rightarrow> push_group t p m | None \<Rightarrow> m) m ps) t =
     (let g = filter (\<lambda>p. po_target_file p = Some t) ps
      in if obj_get m t = None \<and> g = [] then None
         else Some ((case obj_get m t of Some h \<Rightarrow> h | None \<Rightarrow> []) @ g))"
  by (induction ps arbitrary: m) (auto simp: push_group_def Let_def split: option.splits)

lemma target_wf: "map_wf m \<Longrightarrow>
    map_wf (foldl (\<lambda>m p. case po_target_file p of Some t \<Rightarrow> push_group t p m | None \<Rightarrow> m) m ps)"
  by (induction ps arbitrary: m) (auto simp: push_group_def map_wf_insert split: option.splits)

lemma by_target_groups:
  "(t, g) \<in> set (by_target ps) \<longleftrightarrow> g = filter (\<lambda>p. po_target_file p = Some t) ps \<and> g \<noteq> []"
proof -
  have "map_wf (by_target ps)" unfolding by_target_def by (rule target_wf) (simp add: map_wf_def)
  then have "(t, g) \<in> set (by_target ps) \<longleftrightarrow> obj_get (by_target ps) t = Some g"
    using obj_get_Some_mem obj_get_mem by metis
  then show ?thesis unfolding by_target_def target_fold by (auto simp: Let_def)
qed

lemma overlap_Some:
  "overlap t ab = Some k \<longleftrightarrow>
     (\<exists>l. po_target_location (fst ab) = Some l \<and> po_target_location (snd ab) = Some l \<and>
          k = DirectOverlap [po_id (fst ab), po_id (snd ab)] t l)"
  by (cases "po_target_location (fst ab)"; cases "po_target_location (snd ab)") (auto simp: overlap_def)

lemma direct_overlap_iff:
  "DirectOverlap [x, y] t l \<in> set (direct_overlaps ps) \<longleftrightarrow>
     (\<exists>p q. subseq [p, q] ps \<and> po_id p = x \<and> po_id q = y \<and> po_target_file p = Some t \<and>
        po_target_file q = Some t \<and> po_target_location p = Some l \<and> po_target_location q = Some l)"
proof -
  have o: "overlap t' ab = Some (DirectOverlap [x, y] t l) \<longleftrightarrow>
      t' = t \<and> po_id (fst ab) = x \<and> po_id (snd ab) = y \<and> po_target_location (fst ab) = Some l \<and>
      po_target_location (snd ab) = Some l" for t' ab
    by (auto simp: overlap_Some)
  have "DirectOverlap [x, y] t l \<in> set (direct_overlaps ps) \<longleftrightarrow>
      (\<exists>g. (t, g) \<in> set (by_target ps) \<and> (\<exists>p q. (p, q) \<in> set (pairs g) \<and>
         po_id p = x \<and> po_id q = y \<and> po_target_location p = Some l \<and> po_target_location q = Some l))"
    unfolding direct_overlaps_def by (force simp: o)
  also have "\<dots> \<longleftrightarrow> (\<exists>p q. subseq [p, q] (filter (\<lambda>p. po_target_file p = Some t) ps) \<and>
         po_id p = x \<and> po_id q = y \<and> po_target_location p = Some l \<and> po_target_location q = Some l)"
    unfolding by_target_groups in_pairs by fastforce
  finally show ?thesis unfolding subseq_filter_pair by blast
qed

lemma in_concat_map: "k \<in> set (concat (map g xs)) \<longleftrightarrow> (\<exists>x\<in>set xs. k \<in> set (g x))"
  by auto

lemma cascade_iff:
  "CascadeCollision [x, y] t \<in> set (cascade_collisions ps) \<longleftrightarrow>
     (\<exists>p\<in>set ps. \<exists>q\<in>set ps. po_id p = x \<and> po_id q = y \<and> x \<noteq> y \<and> t \<in> set (po_cascade_targets p) \<and>
        po_target_file q = Some t)"
proof -
  have g: "obj_get (by_target ps) c = (let g = filter (\<lambda>p. po_target_file p = Some c) ps
      in if g = [] then None else Some g)" for c
    unfolding by_target_def target_fold by (simp add: Let_def)
  have hit: "k \<in> set (case obj_get (by_target ps) c of None \<Rightarrow> []
        | Some targets \<Rightarrow> map (\<lambda>q. CascadeCollision [po_id p, po_id q] c) (filter (\<lambda>q. po_id q \<noteq> po_id p) targets)) \<longleftrightarrow>
      (\<exists>h q. obj_get (by_target ps) c = Some h \<and> q \<in> set h \<and> po_id q \<noteq> po_id p \<and>
         k = CascadeCollision [po_id p, po_id q] c)" for k p c
    by (cases "obj_get (by_target ps) c") auto
  have all: "CascadeCollision [x, y] t \<in> set (cascade_collisions ps) \<longleftrightarrow>
      (\<exists>p\<in>set ps. \<exists>c\<in>set (po_cascade_targets p). \<exists>h q. obj_get (by_target ps) c = Some h \<and> q \<in> set h \<and>
         po_id q \<noteq> po_id p \<and> CascadeCollision [x, y] t = CascadeCollision [po_id p, po_id q] c)"
    unfolding cascade_collisions_def in_concat_map hit by (rule refl)
  show ?thesis
  proof
    assume "CascadeCollision [x, y] t \<in> set (cascade_collisions ps)"
    then obtain p h q where "p \<in> set ps" "t \<in> set (po_cascade_targets p)" "obj_get (by_target ps) t = Some h"
        "q \<in> set h" "po_id q \<noteq> po_id p" "x = po_id p" "y = po_id q"
      unfolding all by auto
    moreover from this have "q \<in> set ps" "po_target_file q = Some t"
      unfolding g by (auto simp: Let_def split: if_splits)
    ultimately show "\<exists>p\<in>set ps. \<exists>q\<in>set ps. po_id p = x \<and> po_id q = y \<and> x \<noteq> y \<and>
        t \<in> set (po_cascade_targets p) \<and> po_target_file q = Some t" by metis
  next
    assume "\<exists>p\<in>set ps. \<exists>q\<in>set ps. po_id p = x \<and> po_id q = y \<and> x \<noteq> y \<and>
        t \<in> set (po_cascade_targets p) \<and> po_target_file q = Some t"
    then obtain p q where pq: "p \<in> set ps" "q \<in> set ps" "po_id p = x" "po_id q = y" "x \<noteq> y"
        "t \<in> set (po_cascade_targets p)" "po_target_file q = Some t" by blast
    then have "obj_get (by_target ps) t = Some (filter (\<lambda>p. po_target_file p = Some t) ps)"
      unfolding g by (auto simp: Let_def filter_empty_conv)
    then show "CascadeCollision [x, y] t \<in> set (cascade_collisions ps)"
      unfolding all using pq
      by (intro bexI [of _ p] bexI [of _ t] exI [of _ "filter (\<lambda>p. po_target_file p = Some t) ps"] exI [of _ q]) auto
  qed
qed

definition mentions :: "string \<Rightarrow> post list \<Rightarrow> post list" where
  "mentions r ps = concat (map (\<lambda>p. map (\<lambda>_. p) (filter ((=) r) (po_finding_refs p))) ps)"

lemma ref_fold:
  "obj_get (foldl (\<lambda>m r. push_group r p m) m rs) r =
     (let g = map (\<lambda>_. p) (filter ((=) r) rs)
      in if obj_get m r = None \<and> g = [] then None
         else Some ((case obj_get m r of Some h \<Rightarrow> h | None \<Rightarrow> []) @ g))"
  by (induction rs arbitrary: m) (auto simp: push_group_def Let_def split: option.splits)

lemma refs_fold:
  "obj_get (foldl (\<lambda>m p. foldl (\<lambda>m r. push_group r p m) m (po_finding_refs p)) m ps) r =
     (let g = mentions r ps
      in if obj_get m r = None \<and> g = [] then None
         else Some ((case obj_get m r of Some h \<Rightarrow> h | None \<Rightarrow> []) @ g))"
  by (induction ps arbitrary: m) (auto simp: mentions_def ref_fold Let_def split: option.splits if_splits)

lemma refs_wf: "map_wf m \<Longrightarrow> map_wf (foldl (\<lambda>m p. foldl (\<lambda>m r. push_group r p m) m (po_finding_refs p)) m ps)"
proof (induction ps arbitrary: m)
  case (Cons p ps)
  have "map_wf m \<Longrightarrow> map_wf (foldl (\<lambda>m r. push_group r p m) m rs)" for m rs
    by (induction rs arbitrary: m) (auto simp: push_group_def map_wf_insert)
  then show ?case using Cons by simp
qed simp

lemma by_ref_groups: "(r, g) \<in> set (by_ref ps) \<longleftrightarrow> g = mentions r ps \<and> g \<noteq> []"
proof -
  have "map_wf (by_ref ps)" unfolding by_ref_def by (rule refs_wf) (simp add: map_wf_def)
  then have "(r, g) \<in> set (by_ref ps) \<longleftrightarrow> obj_get (by_ref ps) r = Some g"
    using obj_get_Some_mem obj_get_mem by metis
  then show ?thesis unfolding by_ref_def refs_fold by (auto simp: Let_def)
qed

lemma set_mentions: "set (mentions r ps) = {p \<in> set ps. r \<in> set (po_finding_refs p)}"
  by (force simp: mentions_def)

lemma severity_str_inj [simp]: "severity_str s = severity_str t \<longleftrightarrow> s = t"
  by (cases s; cases t) (simp_all add: severity_str_def)

lemma severities_get:
  assumes "inj_on po_id (set ps)"
  shows "obj_get (severities_of ps) i = Some w \<longleftrightarrow>
     (\<exists>p\<in>set ps. po_id p = i \<and> (\<exists>s. po_severity p = Some s \<and> w = severity_str s))"
proof -
  let ?f = "\<lambda>m p. case po_severity p of Some s \<Rightarrow> bt_insert m (po_id p) (severity_str s) | None \<Rightarrow> m"
  have "obj_get (foldl ?f [] ps) i = Some w \<longleftrightarrow>
     (\<exists>p\<in>set ps. po_id p = i \<and> (\<exists>s. po_severity p = Some s \<and> w = severity_str s))"
    using assms
  proof (induction ps rule: rev_induct)
    case (snoc p ps)
    have inj: "inj_on po_id (set ps)" "\<And>q. q \<in> set ps \<Longrightarrow> po_id q = po_id p \<Longrightarrow> q = p"
      using snoc.prems by (auto simp: inj_on_def)
    show ?case using snoc.IH [OF inj(1)] by (auto split: option.splits dest: inj(2))
  qed simp
  then show ?thesis by (simp add: severities_of_def)
qed

lemma severities_wf: "map_wf (severities_of ps)"
proof -
  have "bt_wf m \<Longrightarrow> bt_wf (foldl (\<lambda>m p. case po_severity p of
      Some s \<Rightarrow> bt_insert m (po_id p) (severity_str s) | None \<Rightarrow> m) m ps)" for m
    by (induction ps arbitrary: m) (auto simp: bt_wf_insert split: option.splits)
  then show ?thesis unfolding severities_of_def by (intro bt_wf_map_wf) (simp add: bt_wf_def)
qed

lemma several: "1 < length (remdups xs) \<longleftrightarrow> (\<exists>x\<in>set xs. \<exists>y\<in>set xs. x \<noteq> y)"
proof -
  have "length (remdups xs) = card (set xs)" by (simp add: length_remdups_card_conv)
  then show ?thesis by (metis List.finite_set One_nat_def card_le_Suc0_iff_eq not_less)
qed

lemma severities_differ:
  assumes "inj_on po_id (set ps)"
  shows "1 < length (remdups (map snd (severities_of ps))) \<longleftrightarrow>
     (\<exists>p\<in>set ps. \<exists>q\<in>set ps. \<exists>s t. po_severity p = Some s \<and> po_severity q = Some t \<and> s \<noteq> t)"
proof -
  have mem: "(i, w) \<in> set (severities_of ps) \<longleftrightarrow>
      (\<exists>p\<in>set ps. po_id p = i \<and> (\<exists>s. po_severity p = Some s \<and> w = severity_str s))" for i w
    using severities_get [OF assms] severities_wf obj_get_Some_mem obj_get_mem by metis
  then have "snd ` set (severities_of ps) = severity_str ` {s. \<exists>p\<in>set ps. po_severity p = Some s}"
    by (auto simp: image_iff Bex_def; blast)
  then show ?thesis unfolding several set_map by auto
qed

lemma severity_iff:
  assumes "inj_on po_id (set ps)"
  shows "(\<exists>ids sev. SeverityDisagreement ids r sev \<in> set (severity_disagreements ps)) \<longleftrightarrow>
     (\<exists>p\<in>set ps. \<exists>q\<in>set ps. r \<in> set (po_finding_refs p) \<and> r \<in> set (po_finding_refs q) \<and>
        (\<exists>s t. po_severity p = Some s \<and> po_severity q = Some t \<and> s \<noteq> t))"
proof -
  have inj: "inj_on po_id (set (mentions r ps))" using assms by (auto simp: set_mentions inj_on_def)
  have one: "(let sev = severities_of (snd g)
       in if 1 < length (remdups (map snd sev))
          then Some (SeverityDisagreement (map po_id (snd g)) (fst g) sev) else None) =
        Some (SeverityDisagreement ids r sev) \<longleftrightarrow>
      fst g = r \<and> 1 < length (remdups (map snd (severities_of (snd g)))) \<and>
      map po_id (snd g) = ids \<and> severities_of (snd g) = sev" for g ids sev
    by (auto simp: Let_def)
  have mem: "SeverityDisagreement ids r sev \<in> set (severity_disagreements ps) \<longleftrightarrow>
      (\<exists>g. (r, g) \<in> set (by_ref ps) \<and> 1 < length (remdups (map snd (severities_of g))) \<and>
           map po_id g = ids \<and> severities_of g = sev)" for ids sev
    unfolding severity_disagreements_def set_map_filter_iff one by (metis fst_conv snd_conv prod.collapse)
  have "(\<exists>ids sev. SeverityDisagreement ids r sev \<in> set (severity_disagreements ps)) \<longleftrightarrow>
      (\<exists>g. (r, g) \<in> set (by_ref ps) \<and> 1 < length (remdups (map snd (severities_of g))))"
    unfolding mem by blast
  also have "\<dots> \<longleftrightarrow> 1 < length (remdups (map snd (severities_of (mentions r ps))))"
    unfolding by_ref_groups by (auto simp: severities_of_def)
  finally show ?thesis unfolding severities_differ [OF inj] by (auto simp: set_mentions)
qed

text \<open>Property C40. On a board whose posts have different ids the conflicts found are exactly: two posts, in the order of
  the log, with the same target and location; a post whose cascade reaches the target of another; and
  a reference on which two posts put different severities.\<close>

theorem conflicts_are_exact:
  assumes "distinct (map po_id (bd_posts b))"
  shows "(DirectOverlap [x, y] t l \<in> set (detect_conflicts b) \<longleftrightarrow>
      (\<exists>p q. subseq [p, q] (bd_posts b) \<and> po_id p = x \<and> po_id q = y \<and> po_target_file p = Some t \<and>
         po_target_file q = Some t \<and> po_target_location p = Some l \<and> po_target_location q = Some l)) \<and>
    (CascadeCollision [x, y] t \<in> set (detect_conflicts b) \<longleftrightarrow>
      (\<exists>p\<in>set (bd_posts b). \<exists>q\<in>set (bd_posts b). po_id p = x \<and> po_id q = y \<and> x \<noteq> y \<and>
         t \<in> set (po_cascade_targets p) \<and> po_target_file q = Some t)) \<and>
    ((\<exists>ids sev. SeverityDisagreement ids r sev \<in> set (detect_conflicts b)) \<longleftrightarrow>
      (\<exists>p\<in>set (bd_posts b). \<exists>q\<in>set (bd_posts b). r \<in> set (po_finding_refs p) \<and> r \<in> set (po_finding_refs q) \<and>
         (\<exists>s u. po_severity p = Some s \<and> po_severity q = Some u \<and> s \<noteq> u)))"
proof -
  have kinds: "\<exists>a b c. k = DirectOverlap a b c" if "k \<in> set (direct_overlaps ps)" for k ps
    using that by (auto simp: direct_overlaps_def overlap_Some)
  have kinds': "\<exists>a b. k = CascadeCollision a b" if "k \<in> set (cascade_collisions ps)" for k ps
    using that by (auto simp: cascade_collisions_def split: option.splits)
  have kinds'': "\<exists>a b c. k = SeverityDisagreement a b c" if "k \<in> set (severity_disagreements ps)" for k ps
    using that by (auto simp: severity_disagreements_def Let_def split: if_splits)
  have inj: "inj_on po_id (set (bd_posts b))" using assms by (simp add: distinct_map)
  have d: "DirectOverlap [x, y] t l \<in> set (detect_conflicts b) \<longleftrightarrow>
      DirectOverlap [x, y] t l \<in> set (direct_overlaps (bd_posts b))"
    unfolding detect_conflicts_def using kinds' kinds'' by fastforce
  have c: "CascadeCollision [x, y] t \<in> set (detect_conflicts b) \<longleftrightarrow>
      CascadeCollision [x, y] t \<in> set (cascade_collisions (bd_posts b))"
    unfolding detect_conflicts_def using kinds kinds'' by fastforce
  have s: "SeverityDisagreement ids r sev \<in> set (detect_conflicts b) \<longleftrightarrow>
      SeverityDisagreement ids r sev \<in> set (severity_disagreements (bd_posts b))" for ids sev
    unfolding detect_conflicts_def using kinds kinds' by fastforce
  show ?thesis unfolding d c s direct_overlap_iff cascade_iff severity_iff [OF inj] by blast
qed

definition clashing :: "string \<Rightarrow> string \<Rightarrow> post" where
  "clashing i name =
     \<lparr>po_id = i, po_agent = name, po_type = Claim, po_title = [], po_body = [],
      po_target_file = Some ''main.rs'', po_target_location = Some ''7'', po_severity = None,
      po_finding_refs = [], po_cascade_targets = [], po_posted_at = ''t''\<rparr>"

definition clash_board :: board where
  "clash_board = (new_board ''b'' ''topic'' ''p'' None ''ann'' ''t'')
     \<lparr>bd_posts := [clashing ''post-001'' ''sam'', clashing ''post-002'' ''lee'']\<rparr>"

theorem conflicts_are_exact_witness:
  "DirectOverlap [''post-001'', ''post-002''] ''main.rs'' ''7'' \<in> set (detect_conflicts clash_board)"
proof -
  let ?p = "clashing ''post-001'' ''sam''" and ?q = "clashing ''post-002'' ''lee''"
  have "distinct (map po_id (bd_posts clash_board))" "bd_posts clash_board = [?p, ?q]"
    by (simp_all add: clash_board_def clashing_def)
  moreover from this have "subseq [?p, ?q] (bd_posts clash_board)" by simp
  moreover have "po_id ?p = ''post-001''" "po_id ?q = ''post-002''" "po_target_file ?p = Some ''main.rs''"
      "po_target_file ?q = Some ''main.rs''" "po_target_location ?p = Some ''7''" "po_target_location ?q = Some ''7''"
    by (simp_all add: clashing_def)
  ultimately show ?thesis
    using conflicts_are_exact [of clash_board "''post-001''" "''post-002''" "''main.rs''" "''7''"] by blast
qed

section \<open>Memory and storage\<close>

text \<open>Every board is filed under its id, and the storage directory, once set, holds the boards in memory.
  Ids are taken to name different files.\<close>

definition synced :: "registry \<Rightarrow> bool" where
  "synced r \<longleftrightarrow>
     map_wf (wb_boards r) \<and> (\<forall>i b. obj_get (wb_boards r) i = Some b \<longrightarrow> bd_id b = i) \<and>
     (\<forall>files. wb_files r = Some files \<longrightarrow> map_wf files \<and> (\<forall>i. obj_get files i = obj_get (wb_boards r) i))"

lemma syncedI:
  assumes "map_wf (wb_boards r)" "\<And>i b. obj_get (wb_boards r) i = Some b \<Longrightarrow> bd_id b = i"
    "\<And>files. wb_files r = Some files \<Longrightarrow> map_wf files"
    "\<And>files i. wb_files r = Some files \<Longrightarrow> obj_get files i = obj_get (wb_boards r) i"
  shows "synced r"
  using assms by (simp add: synced_def)

lemma syncedI_boards:
  assumes "wb_boards r = bs" "map_wf bs" "\<forall>i b. obj_get bs i = Some b \<longrightarrow> bd_id b = i"
    "\<And>files. wb_files r = Some files \<Longrightarrow> map_wf files \<and> (\<forall>i. obj_get files i = obj_get bs i)"
  shows "synced r"
  using assms unfolding synced_def by blast

lemma syncedD:
  assumes "synced r"
  shows "map_wf (wb_boards r)" "obj_get (wb_boards r) i = Some b \<Longrightarrow> bd_id b = i"
    "wb_files r = Some files \<Longrightarrow> map_wf files"
    "wb_files r = Some files \<Longrightarrow> obj_get files i = obj_get (wb_boards r) i"
  using assms by (simp_all add: synced_def)

lemma map_wf_removed: "map_wf m \<Longrightarrow> map_wf (obj_remove m k)"
  unfolding map_wf_def obj_remove_def by (induction m) auto

lemma map_wf_values: "map_wf (map (\<lambda>p. (fst p, f (snd p))) m) = map_wf m"
  by (simp add: map_wf_def comp_def)

definition same_id :: "board \<Rightarrow> board \<Rightarrow> bool" where
  "same_id b c \<longleftrightarrow> bd_id c = bd_id b"

interpretation id: board_change same_id
proof
  show "relates same_id (register_agent name ro domain now)" for name ro domain now
    by (rule relatesI) (auto simp: register_agent_def result_simps same_id_def split: if_splits)
  show "relates same_id (add_post name d now)" for name d now
    by (rule relatesI) (auto simp: add_post_def result_simps same_id_def Let_def)
  show "relates same_id (add_annotation name p t body res rs now)" for name p t body res rs now
    by (rule relatesI) (auto simp: same_id_def dest!: annotation_added)
  show "relates same_id (cast_vote name p v reason now)" for name p v reason now
    by (rule relatesI) (auto simp: cast_vote_def result_simps same_id_def Let_def split: if_splits)
  show "relates same_id (move_phase name target summary now)" for name target summary now
    by (rule relatesI) (auto simp: move_phase_def result_simps same_id_def enter_phase_def)
qed (auto simp: same_id_def rename_board_def)

lemma synced_put:
  assumes "synced r" "bd_id b = i"
  shows "synced (persist i b (r\<lparr>wb_boards := obj_insert (wb_boards r) i b\<rparr>))"
  using assms by (auto simp: synced_def persist_def map_wf_insert split: if_splits)

lemma synced_on_board:
  assumes "synced r" "relates same_id f"
  shows "synced (snd (on_board i f r))"
proof (cases "obj_get (wb_boards r) i")
  case (Some b)
  show ?thesis
  proof (cases "f b")
    case (Inr y)
    then have "bd_id (snd y) = bd_id b" using assms(2) unfolding relates_def same_id_def by (metis prod.collapse)
    moreover have "bd_id b = i" using assms(1) Some by (simp add: synced_def)
    ultimately have "bd_id (snd y) = i" by simp
    then show ?thesis using synced_put [OF assms(1), of "snd y" i] Some Inr by (cases y) (simp add: on_board_def)
  qed (use Some assms in \<open>simp add: on_board_def\<close>)
qed (use assms in \<open>simp add: on_board_def\<close>)

lemma filed_under_id:
  assumes "\<And>k b. (k, b) \<in> set ps \<Longrightarrow> bd_id b = k"
  shows "foldl (\<lambda>m p. obj_insert m (bd_id (snd p)) (snd p)) m ps = om.ins_all m ps"
  using assms unfolding om.ins_all_def
proof (induction ps arbitrary: m)
  case (Cons p ps)
  then have "bd_id (snd p) = fst p" "\<And>k b. (k, b) \<in> set ps \<Longrightarrow> bd_id b = k" by (metis list.set_intros prod.collapse)+
  then show ?case using Cons.IH by (simp add: case_prod_beta)
qed simp

lemma get_kept:
  assumes "map_wf m"
  shows "obj_get (filter (\<lambda>p. P (snd p)) m) i = (case obj_get m i of Some b \<Rightarrow> if P b then Some b else None | None \<Rightarrow> None)"
  using assms
proof (induction m)
  case (Cons p m)
  have "obj_get m (fst p) = None" "map_wf m" using Cons.prems by (auto simp: map_wf_def obj_get_None)
  then show ?case using Cons.IH by (cases p) auto
qed simp

lemma get_filed:
  assumes "map_wf ps"
  shows "obj_get (om.ins_all m ps) j = (case obj_get ps j of Some v \<Rightarrow> Some v | None \<Rightarrow> obj_get m j)"
proof (cases "obj_get ps j")
  case None
  then have "j \<notin> fst ` set ps" by (simp add: obj_get_None)
  then show ?thesis using None by (simp add: om.get_ins_all_notin)
next
  case (Some v)
  then show ?thesis
    using om.get_ins_all [of ps j v m] assms obj_get_Some_mem [OF Some] by (simp add: map_wf_def)
qed

lemma persist_renamed_files:
  assumes "\<And>k b. (k, b) \<in> set ps \<Longrightarrow> bd_id b = k"
  shows "wb_files (persist_renamed ps r) = map_option (\<lambda>m. om.ins_all m ps) (wb_files r)"
  using assms unfolding persist_renamed_def om.ins_all_def
proof (induction ps arbitrary: r)
  case (Cons p ps)
  then have "bd_id (snd p) = fst p" "\<And>k b. (k, b) \<in> set ps \<Longrightarrow> bd_id b = k" by (metis list.set_intros prod.collapse)+
  then show ?case using Cons.IH by (simp add: persist_def option.map_comp comp_def case_prod_beta)
qed (simp add: option.map_id0 [unfolded id_def])

lemma synced_rename:
  assumes "synced r"
  shows "synced (snd (wb_rename_project_refs old new r))"
proof -
  let ?bs = "map (\<lambda>p. (fst p, rename_board old new (snd p))) (wb_boards r)"
  let ?hit = "filter (\<lambda>p. bd_project (snd p) = old) (wb_boards r)"
  let ?ps = "map (\<lambda>p. (fst p, rename_board old new (snd p))) ?hit"
  have ids: "bd_id b = k" if "(k, b) \<in> set (wb_boards r)" for k b
    using assms that obj_get_mem unfolding synced_def by metis
  then have ps: "\<And>k b. (k, b) \<in> set ?ps \<Longrightarrow> bd_id b = k" by (auto simp: rename_board_def)
  have wf: "map_wf (wb_boards r)" using assms by (simp add: synced_def)
  have "map_wf ?hit" using wf unfolding map_wf_def by (simp add: distinct_map_filter)
  then have wf': "map_wf ?ps" unfolding map_wf_values .
  have hit: "obj_get ?hit i = (case obj_get (wb_boards r) i of
      Some b \<Rightarrow> if bd_project b = old then Some b else None | None \<Rightarrow> None)" for i
    by (rule get_kept [OF wf])
  have get: "obj_get (om.ins_all m ?ps) i = obj_get ?bs i" if "obj_get m i = obj_get (wb_boards r) i" for m i
    unfolding get_filed [OF wf'] get_map_values hit using that
    by (cases "obj_get (wb_boards r) i") (simp_all add: rename_board_def)
  have eq: "snd (wb_rename_project_refs old new r) = persist_renamed ?ps (r\<lparr>wb_boards := ?bs\<rparr>)"
    by (simp add: wb_rename_project_refs_def Let_def)
  have boards: "map_wf ?bs" "\<forall>i b. obj_get ?bs i = Some b \<longrightarrow> bd_id b = i"
    using assms wf unfolding map_wf_values get_map_values by (auto simp: synced_def rename_board_def)
  have files: "wb_files (persist_renamed ?ps (r\<lparr>wb_boards := ?bs\<rparr>)) =
      map_option (\<lambda>m. om.ins_all m ?ps) (wb_files r)"
    using persist_renamed_files [where ps = ?ps, OF ps, of "r\<lparr>wb_boards := ?bs\<rparr>"] by simp
  have kept: "map_wf (om.ins_all fs ?ps) \<and> (\<forall>i. obj_get (om.ins_all fs ?ps) i = obj_get ?bs i)"
    if fs: "wb_files r = Some fs" for fs
  proof -
    have "map_wf fs" "\<And>i. obj_get fs i = obj_get (wb_boards r) i" using assms fs unfolding synced_def by metis+
    then show ?thesis by (intro conjI allI om.wf_ins_all get)
  qed
  have all: "map_wf g \<and> (\<forall>i. obj_get g i = obj_get ?bs i)"
    if g: "wb_files (persist_renamed ?ps (r\<lparr>wb_boards := ?bs\<rparr>)) = Some g" for g
  proof -
    obtain fs where fs: "wb_files r = Some fs" using g unfolding files by (cases "wb_files r") simp_all
    then have "g = om.ins_all fs ?ps" using g unfolding files by simp
    then show ?thesis using kept [OF fs] by (rule ssubst)
  qed
  show ?thesis unfolding eq by (rule syncedI_boards [OF _ boards all]) simp_all
qed

lemma synced_archived:
  assumes "synced r"
  shows "synced (snd (wb_archive_board i name now r))"
proof -
  let ?gone = "\<lambda>a. r\<lparr>wb_boards := obj_remove (wb_boards r) i,
      wb_files := map_option (\<lambda>f. obj_remove f i) (wb_files r), wb_archive := a\<rparr>"
  have "snd (wb_archive_board i name now r) = r \<or> (\<exists>a. snd (wb_archive_board i name now r) = ?gone a)"
  proof (cases "wb_files r")
    case None
    then have "r\<lparr>wb_boards := obj_remove (wb_boards r) i\<rparr> = ?gone (wb_archive r)" by (cases r) simp
    then have "snd (wb_archive_board i name now r) \<in> {r, ?gone (wb_archive r)}"
      using None unfolding wb_archive_board_def by (simp split: option.split sum.split)
    then show ?thesis by blast
  next
    case (Some files)
    then have "snd (wb_archive_board i name now r) \<in> {r} \<union> range ?gone"
      unfolding wb_archive_board_def by (simp split: option.split sum.split)
    then show ?thesis by blast
  qed
  moreover have "synced (?gone a)" for a
    by (rule syncedI) (auto simp: map_wf_removed syncedD [OF assms] split: if_splits)
  ultimately show ?thesis using assms by metis
qed

lemma synced_step:
  assumes "synced r"
  shows "synced (wb_step now cmd r)"
proof (cases cmd)
  case (Open i topic project arc opener)
  have "synced (snd (wb_open i topic project arc opener now r))"
    using assms synced_put [OF assms, of "new_board i topic project arc opener now" i]
    by (cases r) (auto simp: wb_open_def Let_def persist_def new_board_def)
  then show ?thesis using Open by (simp add: wb_step_def)
next
  case (Register i name ro domain)
  then show ?thesis
    using assms synced_on_board [OF assms id.registering]
    by (auto simp: wb_step_def wb_register_def split: option.splits)
next
  case (AddPost i name d)
  then show ?thesis using synced_on_board [OF assms id.posting] by (simp add: wb_step_def wb_post_def)
next
  case (Annotate i name p t body res rs)
  then show ?thesis using synced_on_board [OF assms id.annotating] by (simp add: wb_step_def wb_annotate_def)
next
  case (CastVote i name p v reason)
  then show ?thesis using synced_on_board [OF assms id.voting] by (simp add: wb_step_def wb_vote_def)
next
  case (Transition i name target summary)
  then show ?thesis using synced_on_board [OF assms id.moving] by (simp add: wb_step_def wb_transition_def)
next
  case (Archive i name)
  then show ?thesis using synced_archived [OF assms] by (simp add: wb_step_def)
next
  case (RenameProject old new)
  then show ?thesis using synced_rename [OF assms] by (simp add: wb_step_def)
qed

lemma synced_run: "synced r \<Longrightarrow> synced (run_wb cmds r)"
  by (induction cmds r rule: run_wb.induct) (simp_all add: synced_step)

text \<open>Property C31. After any commands a fresh registry that loads the storage directory has the boards the old one had in
  memory: nothing an agent was told it did is lost by a restart.\<close>

theorem restart_restores_boards:
  assumes "synced r" "wb_files (run_wb cmds r) = Some files"
  shows "obj_get (wb_boards (set_storage_dir files \<lparr>wb_boards = [], wb_files = None, wb_archive = archive\<rparr>)) i =
    obj_get (wb_boards (run_wb cmds r)) i"
proof -
  have s: "map_wf files" "\<And>i. obj_get files i = obj_get (wb_boards (run_wb cmds r)) i"
      "\<And>i b. obj_get files i = Some b \<Longrightarrow> bd_id b = i"
    using synced_run [OF assms(1), of cmds] assms(2) by (simp_all add: synced_def)
  have "foldl (\<lambda>m p. obj_insert m (bd_id (snd p)) (snd p)) [] files = om.ins_all [] files"
    by (rule filed_under_id) (use s obj_get_mem in metis)
  then show ?thesis using get_filed [OF s(1), of "[]" i] s(2) by (simp add: set_storage_dir_def split: option.split)
qed

theorem restart_restores_boards_witness:
  "obj_get (wb_boards (set_storage_dir
      [(''b'', new_board ''b'' ''topic'' ''p'' None ''ann'' ''t'')]
      \<lparr>wb_boards = [], wb_files = None, wb_archive = []\<rparr>)) ''b'' =
    Some (new_board ''b'' ''topic'' ''p'' None ''ann'' ''t'')"
proof -
  have "synced \<lparr>wb_boards = [], wb_files = Some [], wb_archive = []\<rparr>"
    by (simp add: synced_def map_wf_def)
  from restart_restores_boards [OF this, of "[(''t'', Open ''b'' ''topic'' ''p'' None ''ann'')]"
      "[(''b'', new_board ''b'' ''topic'' ''p'' None ''ann'' ''t'')]" "[]" "''b''"]
  show ?thesis by (simp add: wb_step_def wb_open_def Let_def obj_has_def persist_def)
qed

end
