(* ===== verification/Stores.thy ===== *)
theory Stores
  imports Packet_Compile
begin

text \<open>
  The stores that are one JSON file each (\<open>src/src/json_store.rs\<close>) and the handles the daemon keeps of
  them: a value in memory, read from the file when the handle is opened, read again at the start of every
  operation under the lock, and written back at its end. The file is what it holds: nothing yet, a value,
  or a text that is no value; the lock and the write can fail. Several handles, of one process or of
  many, share the file: the locales say what an operation under the lock promises them.
\<close>

datatype 's disk = NoFile | Holds 's | Unreadable string

record 's handle =
  hd_disk :: "'s disk"
  hd_mem :: 's

type_synonym ('s, 'm, 'a) act = "('s, 'm) handle_scheme \<Rightarrow> (string + 'a) \<times> ('s, 'm) handle_scheme"

text \<open>The failures of one call: of the lock and of the write.\<close>

record faults =
  fl_lock :: "string option"
  fl_write :: "string option"

definition no_faults :: faults where
  "no_faults = \<lparr>fl_lock = None, fl_write = None\<rparr>"

text \<open>An operation that fails keeps what it changed in memory before.\<close>

definition act_ok :: "'a \<Rightarrow> ('s, 'm, 'a) act" where
  "act_ok a h = (Inr a, h)"

definition act_fail :: "string \<Rightarrow> ('s, 'm, 'a) act" where
  "act_fail e h = (Inl e, h)"

definition act_lift :: "string + 'a \<Rightarrow> ('s, 'm, 'a) act" where
  "act_lift r h = (r, h)"

definition act_bind :: "('s, 'm, 'a) act \<Rightarrow> ('a \<Rightarrow> ('s, 'm, 'b) act) \<Rightarrow> ('s, 'm, 'b) act" where
  "act_bind m f h = (case m h of (Inl e, h') \<Rightarrow> (Inl e, h') | (Inr a, h') \<Rightarrow> f a h')"

definition act_mem :: "('s \<Rightarrow> ('s, 'm, 'a) act) \<Rightarrow> ('s, 'm, 'a) act" where
  "act_mem f h = f (hd_mem h) h"

definition act_set :: "'s \<Rightarrow> ('s, 'm, unit) act" where
  "act_set s h = (Inr (), h\<lparr>hd_mem := s\<rparr>)"

definition open_store :: "'s \<Rightarrow> 's disk \<Rightarrow> string + 's" where
  "open_store fresh d = (case d of NoFile \<Rightarrow> Inr fresh | Holds s \<Rightarrow> Inr s | Unreadable e \<Rightarrow> Inl e)"

definition reload :: "('s, 'm, unit) act" where
  "reload h =
     (case hd_disk h of
        NoFile \<Rightarrow> (Inr (), h)
      | Holds s \<Rightarrow> (Inr (), h\<lparr>hd_mem := s\<rparr>)
      | Unreadable e \<Rightarrow> (Inl e, h))"

text \<open>\<open>atomic_write_json_locked\<close> writes another file and renames it: a failure leaves the store as it was.\<close>

definition save_store :: "faults \<Rightarrow> ('s, 'm, unit) act" where
  "save_store fl h =
     (case fl_write fl of Some e \<Rightarrow> (Inl e, h) | None \<Rightarrow> (Inr (), h\<lparr>hd_disk := Holds (hd_mem h)\<rparr>))"

definition with_store_lock :: "faults \<Rightarrow> ('s, 'm, 'a) act \<Rightarrow> ('s, 'm, 'a) act" where
  "with_store_lock fl f h = (case fl_lock fl of Some e \<Rightarrow> (Inl e, h) | None \<Rightarrow> f h)"

lemma act_simps [simp]:
  "act_ok a h = (Inr a, h)" "act_fail e h = (Inl e, h)" "act_lift r h = (r, h)"
  "act_mem f h = f (hd_mem h) h" "act_set s h = (Inr (), h\<lparr>hd_mem := s\<rparr>)"
  by (auto simp: act_ok_def act_fail_def act_lift_def act_mem_def act_set_def act_bind_def)

lemma act_bind_simps [simp]:
  "act_bind (act_ok b) g = g b" "act_bind (act_fail d) g = act_fail d"
  by (auto simp: act_ok_def act_fail_def act_bind_def)

lemma act_bind_pair [simp]:
  "m h = (Inl e, h') \<Longrightarrow> act_bind m f h = (Inl e, h')"
  "m h = (Inr a, h') \<Longrightarrow> act_bind m f h = f a h'"
  by (simp_all add: act_bind_def)

lemma act_bindE:
  assumes "act_bind m f h = (r, h')"
  obtains (err) e where "m h = (Inl e, h')" "r = Inl e"
    | (ok) a h1 where "m h = (Inr a, h1)" "f a h1 = (r, h')"
  using assms by (auto simp: act_bind_def split: prod.splits sum.splits)

lemma reload_Holds [simp]: "hd_disk h = Holds s \<Longrightarrow> reload h = (Inr (), h\<lparr>hd_mem := s\<rparr>)"
  by (simp add: reload_def)

lemma save_store_cases [simp]:
  "fl_write fl = None \<Longrightarrow> save_store fl h = (Inr (), h\<lparr>hd_disk := Holds (hd_mem h)\<rparr>)"
  "fl_write fl = Some e \<Longrightarrow> save_store fl h = (Inl e, h)"
  by (simp_all add: save_store_def)

lemma with_store_lock_cases [simp]:
  "fl_lock fl = None \<Longrightarrow> with_store_lock fl f h = f h"
  "fl_lock fl = Some e \<Longrightarrow> with_store_lock fl f h = (Inl e, h)"
  by (simp_all add: with_store_lock_def)

section \<open>Finding and changing a value of a list\<close>

fun update_first :: "('a \<Rightarrow> bool) \<Rightarrow> ('a \<Rightarrow> 'a) \<Rightarrow> 'a list \<Rightarrow> 'a list" where
  "update_first P f [] = []"
| "update_first P f (x # xs) = (if P x then f x # xs else x # update_first P f xs)"

fun remove_first :: "('a \<Rightarrow> bool) \<Rightarrow> 'a list \<Rightarrow> 'a list" where
  "remove_first P [] = []"
| "remove_first P (x # xs) = (if P x then xs else x # remove_first P xs)"

lemma set_update_first:
  "y \<in> set (update_first P f xs) \<Longrightarrow> y \<in> set xs \<or> (\<exists>x. List.find P xs = Some x \<and> y = f x)"
  by (induction xs) (auto split: if_splits)

lemma update_first_none: "List.find P xs = None \<Longrightarrow> update_first P f xs = xs"
  by (induction xs) (auto split: if_splits)

lemma length_update_first [simp]: "length (update_first P f xs) = length xs"
  by (induction xs) auto

lemma map_update_first: "(\<And>x. P x \<Longrightarrow> g (f x) = g x) \<Longrightarrow> map g (update_first P f xs) = map g xs"
  by (induction xs) auto

lemma set_remove_first: "set (remove_first P xs) \<subseteq> set xs"
  by (induction xs) auto

lemma distinct_map_remove_first: "distinct (map g xs) \<Longrightarrow> distinct (map g (remove_first P xs))"
  using set_remove_first [of P] by (induction xs) (auto simp: image_iff)

lemma find_SomeD: "List.find P xs = Some x \<Longrightarrow> x \<in> set xs \<and> P x"
  by (auto simp: find_Some_iff)

lemma find_NoneD: "List.find P xs = None \<Longrightarrow> x \<in> set xs \<Longrightarrow> \<not> P x"
  by (auto simp: find_None_iff)

section \<open>Handles that share a file\<close>

text \<open>Handle \<open>i\<close> runs an operation on the file as it finds it, with its own memory.\<close>

definition run_by ::
  "('op \<Rightarrow> ('s, 'm, 'a) act) \<Rightarrow> nat \<times> 'op \<Rightarrow> 's disk \<times> (nat \<Rightarrow> ('s, 'm) handle_scheme) \<Rightarrow>
   (string + 'a) \<times> 's disk \<times> (nat \<Rightarrow> ('s, 'm) handle_scheme)" where
  "run_by exec iop sys =
     (let (r, h) = exec (snd iop) ((snd sys (fst iop))\<lparr>hd_disk := fst sys\<rparr>)
      in (r, hd_disk h, (snd sys)(fst iop := h)))"

fun run_handles ::
  "('op \<Rightarrow> ('s, 'm, 'a) act) \<Rightarrow> (nat \<times> 'op) list \<Rightarrow> 's disk \<times> (nat \<Rightarrow> ('s, 'm) handle_scheme) \<Rightarrow>
   (string + 'a) list \<times> 's disk \<times> (nat \<Rightarrow> ('s, 'm) handle_scheme)" where
  "run_handles exec [] sys = ([], sys)"
| "run_handles exec (iop # iops) sys =
     (let (r, sys1) = run_by exec iop sys; (rs, sys2) = run_handles exec iops sys1 in (r # rs, sys2))"

text \<open>The same operations, one after the other, on one value.\<close>

fun run_spec :: "('op \<Rightarrow> 's \<Rightarrow> string + 'a \<times> 's) \<Rightarrow> 'op list \<Rightarrow> 's \<Rightarrow> (string + 'a) list \<times> 's" where
  "run_spec spec [] s = ([], s)"
| "run_spec spec (op # ops) s =
     (case spec op s of
        Inl e \<Rightarrow> (let (rs, s2) = run_spec spec ops s in (Inl e # rs, s2))
      | Inr (a, s1) \<Rightarrow> (let (rs, s2) = run_spec spec ops s1 in (Inr a # rs, s2)))"

text \<open>What an operation under the lock promises: with a readable file it does to the file what its
  specification does to a value, whatever the handle had in memory; refused, it leaves the file alone.\<close>

locale locked_store =
  fixes exec :: "'op \<Rightarrow> ('s, 'm, 'a) act"
    and spec :: "'op \<Rightarrow> 's \<Rightarrow> string + 'a \<times> 's"
  assumes refuses: "hd_disk h = Holds s \<Longrightarrow> spec op s = Inl e \<Longrightarrow>
      \<exists>h'. exec op h = (Inl e, h') \<and> hd_disk h' = Holds s"
    and performs: "hd_disk h = Holds s \<Longrightarrow> spec op s = Inr (a, s') \<Longrightarrow>
      \<exists>h'. exec op h = (Inr a, h') \<and> hd_disk h' = Holds s'"
begin

lemma handles_agree:
  "fst sys = Holds s \<Longrightarrow>
     fst (run_handles exec iops sys) = fst (run_spec spec (map snd iops) s) \<and>
     fst (snd (run_handles exec iops sys)) = Holds (snd (run_spec spec (map snd iops) s))"
proof (induction iops arbitrary: sys s)
  case (Cons iop iops)
  let ?h = "(snd sys (fst iop))\<lparr>hd_disk := fst sys\<rparr>"
  have h: "hd_disk ?h = Holds s" using Cons.prems by simp
  show ?case
  proof (cases "spec (snd iop) s")
    case (Inl e)
    then obtain h' where "exec (snd iop) ?h = (Inl e, h')" "hd_disk h' = Holds s" using refuses [OF h] by blast
    then show ?thesis
      using Cons.IH [of "(Holds s, (snd sys)(fst iop := h'))" s] Inl by (simp add: run_by_def split_beta)
  next
    case (Inr p)
    then obtain a s1 where p: "spec (snd iop) s = Inr (a, s1)" by (cases p) auto
    then obtain h' where "exec (snd iop) ?h = (Inr a, h')" "hd_disk h' = Holds s1" using performs [OF h] by blast
    then show ?thesis
      using Cons.IH [of "(Holds s1, (snd sys)(fst iop := h'))" s1] p by (simp add: run_by_def split_beta)
  qed
qed simp

end

text \<open>A property of the stored value that the specification keeps.\<close>

locale kept_store = locked_store exec spec
  for exec :: "'op \<Rightarrow> ('s, 'm, 'a) act" and spec :: "'op \<Rightarrow> 's \<Rightarrow> string + 'a \<times> 's" +
  fixes kept :: "'s \<Rightarrow> bool"
  assumes keeps: "kept s \<Longrightarrow> spec op s = Inr (a, s') \<Longrightarrow> kept s'"
begin

lemma spec_keeps: "kept s \<Longrightarrow> kept (snd (run_spec spec ops s))"
proof (induction ops arbitrary: s)
  case (Cons op ops)
  then show ?case by (cases "spec op s") (auto simp: split_beta dest: keeps)
qed simp

lemma handles_keep:
  assumes "fst sys = Holds s" "kept s"
  shows "\<exists>s'. fst (snd (run_handles exec iops sys)) = Holds s' \<and> kept s'"
  using handles_agree [OF assms(1)] spec_keeps [OF assms(2)] by blast

end

section \<open>Reasoning about operations\<close>

text \<open>What an operation does depends on the store alone, not on what else the handle carries; refused, it has
  not written; a file that is a value stays one; and a property of the store is kept, from a memory \<open>s\<close>.\<close>

definition same_store :: "('s, 'm) handle_scheme \<Rightarrow> ('s, 'm) handle_scheme \<Rightarrow> bool" where
  "same_store h k \<longleftrightarrow> hd_disk h = hd_disk k \<and> hd_mem h = hd_mem k"

definition blind :: "('s, 'm, 'a) act \<Rightarrow> bool" where
  "blind m \<longleftrightarrow> (\<forall>h k. same_store h k \<longrightarrow> fst (m h) = fst (m k) \<and> same_store (snd (m h)) (snd (m k)))"

definition quiet :: "('s, 'm, 'a) act \<Rightarrow> bool" where
  "quiet m \<longleftrightarrow> (\<forall>h. hd_disk (snd (m h)) = hd_disk h)"

definition sure :: "('s, 'm, 'a) act \<Rightarrow> bool" where
  "sure m \<longleftrightarrow> (\<forall>h. \<exists>a. fst (m h) = Inr a)"

definition safe :: "('s, 'm, 'a) act \<Rightarrow> bool" where
  "safe m \<longleftrightarrow> (\<forall>h e h'. m h = (Inl e, h') \<longrightarrow> hd_disk h' = hd_disk h)"

definition readable :: "'s disk \<Rightarrow> bool" where
  "readable d \<longleftrightarrow> (\<exists>s. d = Holds s)"

definition stays :: "('s, 'm, 'a) act \<Rightarrow> bool" where
  "stays m \<longleftrightarrow> (\<forall>h. readable (hd_disk h) \<longrightarrow> readable (hd_disk (snd (m h))))"

definition both :: "('s \<Rightarrow> bool) \<Rightarrow> ('s, 'm) handle_scheme \<Rightarrow> bool" where
  "both P h \<longleftrightarrow> P (hd_mem h) \<and> (\<forall>s. hd_disk h = Holds s \<longrightarrow> P s)"

definition keeps_from :: "('s \<Rightarrow> bool) \<Rightarrow> 's \<Rightarrow> ('s, 'm, 'a) act \<Rightarrow> bool" where
  "keeps_from P s m \<longleftrightarrow> (\<forall>h. hd_mem h = s \<longrightarrow> both P h \<longrightarrow> both P (snd (m h)))"

named_theorems act_rules \<open>rules for the shape of an operation\<close>

lemma act_bind_cases:
  obtains (err) e where "m h = (Inl e, snd (m h))" "act_bind m f h = (Inl e, snd (m h))"
    | (ok) a where "m h = (Inr a, snd (m h))" "act_bind m f h = f a (snd (m h))"
proof (cases "m h")
  case (Pair r k)
  then show thesis by (cases r) (use err ok in auto)
qed

lemma blind_bind [act_rules]:
  assumes "blind m" "\<And>a. blind (f a)"
  shows "blind (act_bind m f)"
  unfolding blind_def
proof (intro allI impI)
  fix h k :: "('a, 'b) handle_scheme"
  assume "same_store h k"
  then have m: "fst (m h) = fst (m k)" "same_store (snd (m h)) (snd (m k))" using assms(1) unfolding blind_def by blast+
  show "fst (act_bind m f h) = fst (act_bind m f k) \<and> same_store (snd (act_bind m f h)) (snd (act_bind m f k))"
  proof (cases rule: act_bind_cases [of m h f])
    case (err e)
    then have "m k = (Inl e, snd (m k))" using m(1) by (metis fst_conv prod.collapse)
    then have "act_bind m f k = (Inl e, snd (m k))" by (rule act_bind_pair)
    then show ?thesis using err m(2) by simp
  next
    case (ok a)
    then have "m k = (Inr a, snd (m k))" using m(1) by (metis fst_conv prod.collapse)
    then have "act_bind m f k = f a (snd (m k))" by (rule act_bind_pair)
    then show ?thesis using ok m(2) assms(2) unfolding blind_def by (metis (no_types))
  qed
qed

lemma blind_basic [act_rules]:
  "blind (act_ok a)" "blind (act_fail e)" "blind (act_lift r)" "blind (act_set s)"
  by (simp_all add: blind_def same_store_def)

lemma blind_reload [act_rules]: "blind reload"
  unfolding blind_def same_store_def reload_def
proof (intro allI impI)
  fix h k :: "('a, 'b) handle_scheme"
  assume "hd_disk h = hd_disk k \<and> hd_mem h = hd_mem k"
  then show "fst (case hd_disk h of NoFile \<Rightarrow> (Inr (), h) | Holds s \<Rightarrow> (Inr (), h\<lparr>hd_mem := s\<rparr>) | Unreadable e \<Rightarrow> (Inl e, h)) =
      fst (case hd_disk k of NoFile \<Rightarrow> (Inr (), k) | Holds s \<Rightarrow> (Inr (), k\<lparr>hd_mem := s\<rparr>) | Unreadable e \<Rightarrow> (Inl e, k)) \<and>
    hd_disk (snd (case hd_disk h of NoFile \<Rightarrow> (Inr (), h) | Holds s \<Rightarrow> (Inr (), h\<lparr>hd_mem := s\<rparr>) | Unreadable e \<Rightarrow> (Inl e, h))) =
      hd_disk (snd (case hd_disk k of NoFile \<Rightarrow> (Inr (), k) | Holds s \<Rightarrow> (Inr (), k\<lparr>hd_mem := s\<rparr>) | Unreadable e \<Rightarrow> (Inl e, k))) \<and>
    hd_mem (snd (case hd_disk h of NoFile \<Rightarrow> (Inr (), h) | Holds s \<Rightarrow> (Inr (), h\<lparr>hd_mem := s\<rparr>) | Unreadable e \<Rightarrow> (Inl e, h))) =
      hd_mem (snd (case hd_disk k of NoFile \<Rightarrow> (Inr (), k) | Holds s \<Rightarrow> (Inr (), k\<lparr>hd_mem := s\<rparr>) | Unreadable e \<Rightarrow> (Inl e, k)))"
    by (cases "hd_disk k") simp_all
qed

lemma blind_save [act_rules]: "blind (save_store fl)"
  unfolding blind_def same_store_def by (cases "fl_write fl") (simp_all only: save_store_cases, simp_all)

lemma blind_mem [act_rules]: "(\<And>s. blind (f s)) \<Longrightarrow> blind (act_mem f)"
proof -
  assume b: "\<And>s. blind (f s)"
  have "fst (act_mem f h) = fst (act_mem f k) \<and> same_store (snd (act_mem f h)) (snd (act_mem f k))"
    if "same_store h k" for h k
  proof -
    have "hd_mem h = hd_mem k" using that by (simp add: same_store_def)
    then show ?thesis using b [of "hd_mem k"] that unfolding blind_def act_simps by metis
  qed
  then show ?thesis unfolding blind_def by blast
qed

lemma blind_lock [act_rules]: "blind m \<Longrightarrow> blind (with_store_lock fl m)"
  by (auto simp: blind_def with_store_lock_def split: option.splits)

lemma blind_option [act_rules]:
  "(x = None \<Longrightarrow> blind m) \<Longrightarrow> (\<And>y. x = Some y \<Longrightarrow> blind (f y)) \<Longrightarrow> blind (case x of None \<Rightarrow> m | Some y \<Rightarrow> f y)"
  by (cases x) auto

lemma blind_if [act_rules]: "(b \<Longrightarrow> blind m) \<Longrightarrow> (\<not> b \<Longrightarrow> blind n) \<Longrightarrow> blind (if b then m else n)"
  by auto

lemma quiet_bind [act_rules]: "quiet m \<Longrightarrow> (\<And>a. quiet (f a)) \<Longrightarrow> quiet (act_bind m f)"
  unfolding quiet_def by (metis act_bind_cases snd_conv)

lemma quiet_basic [act_rules]:
  "quiet (act_ok a)" "quiet (act_fail e)" "quiet (act_lift r)" "quiet reload" "quiet (act_set s)"
  by (auto simp: quiet_def reload_def split: disk.splits)

lemma quiet_mem [act_rules]: "(\<And>s. quiet (f s)) \<Longrightarrow> quiet (act_mem f)"
  by (auto simp: quiet_def)

lemma quiet_option [act_rules]:
  "(x = None \<Longrightarrow> quiet m) \<Longrightarrow> (\<And>y. x = Some y \<Longrightarrow> quiet (f y)) \<Longrightarrow> quiet (case x of None \<Rightarrow> m | Some y \<Rightarrow> f y)"
  by (cases x) auto

lemma sure_basic [act_rules]: "sure (act_ok a)" "sure (act_set s)"
  by (auto simp: sure_def)

lemma sure_bind [act_rules]: "sure m \<Longrightarrow> (\<And>a. sure (f a)) \<Longrightarrow> sure (act_bind m f)"
  unfolding sure_def by (metis act_bind_cases fst_conv sum.distinct(1))

lemma safe_lift [act_rules]: "safe (act_lift r)" "safe (act_ok a)" "safe (act_fail e)" "safe (save_store fl)"
  by (auto simp: safe_def save_store_def split: option.splits)

lemma safe_before: "quiet m \<Longrightarrow> (\<And>a. safe (f a)) \<Longrightarrow> safe (act_bind m f)"
  unfolding safe_def quiet_def
  by (auto elim!: act_bindE) (metis snd_conv)+

lemma safe_after: "safe m \<Longrightarrow> (\<And>a. sure (f a)) \<Longrightarrow> safe (act_bind m f)"
  unfolding safe_def sure_def by (auto elim!: act_bindE) (metis fst_conv sum.distinct(1))

lemma safe_mem [act_rules]: "(\<And>s. safe (f s)) \<Longrightarrow> safe (act_mem f)"
  by (auto simp: safe_def)

lemma safe_lock [act_rules]: "safe m \<Longrightarrow> safe (with_store_lock fl m)"
  by (auto simp: safe_def with_store_lock_def split: option.splits)

lemma safe_option [act_rules]:
  "(x = None \<Longrightarrow> safe m) \<Longrightarrow> (\<And>y. x = Some y \<Longrightarrow> safe (f y)) \<Longrightarrow> safe (case x of None \<Rightarrow> m | Some y \<Rightarrow> f y)"
  by (cases x) auto

lemma safe_if [act_rules]: "(b \<Longrightarrow> safe m) \<Longrightarrow> (\<not> b \<Longrightarrow> safe n) \<Longrightarrow> safe (if b then m else n)"
  by auto

lemma stays_bind [act_rules]: "stays m \<Longrightarrow> (\<And>a. stays (f a)) \<Longrightarrow> stays (act_bind m f)"
  unfolding stays_def by (metis act_bind_cases snd_conv)

lemma stays_save [act_rules]: "stays (save_store fl)"
  by (auto simp: stays_def save_store_def readable_def split: option.splits)

lemma stays_quiet: "quiet m \<Longrightarrow> stays m"
  by (simp add: stays_def quiet_def)

lemmas stays_basic [act_rules] = quiet_basic [THEN stays_quiet]

lemma stays_mem [act_rules]: "(\<And>s. stays (f s)) \<Longrightarrow> stays (act_mem f)"
  by (auto simp: stays_def)

lemma stays_lock [act_rules]: "stays m \<Longrightarrow> stays (with_store_lock fl m)"
  by (auto simp: stays_def with_store_lock_def split: option.splits)

lemma stays_option [act_rules]:
  "(x = None \<Longrightarrow> stays m) \<Longrightarrow> (\<And>y. x = Some y \<Longrightarrow> stays (f y)) \<Longrightarrow> stays (case x of None \<Rightarrow> m | Some y \<Rightarrow> f y)"
  by (cases x) auto

lemma stays_if [act_rules]: "(b \<Longrightarrow> stays m) \<Longrightarrow> (\<not> b \<Longrightarrow> stays n) \<Longrightarrow> stays (if b then m else n)"
  by auto

lemma act_keeps_bind [act_rules]:
  assumes "keeps_from P s m" "\<And>a t. P t \<Longrightarrow> keeps_from P t (f a)"
  shows "keeps_from P s (act_bind m f)"
  unfolding keeps_from_def
proof (intro allI impI)
  fix h :: "('a, 'b) handle_scheme"
  assume "hd_mem h = s" "both P h"
  then have b: "both P (snd (m h))" using assms(1) unfolding keeps_from_def by blast
  then have "P (hd_mem (snd (m h)))" unfolding both_def by blast
  then have "both P (snd (f a (snd (m h))))" for a using b assms(2) unfolding keeps_from_def by blast
  then show "both P (snd (act_bind m f h))" using b by (cases rule: act_bind_cases [of m h f]) auto
qed

lemma act_keeps_lift: "(\<And>a. r = Inr a \<Longrightarrow> keeps_from P s (f a)) \<Longrightarrow> keeps_from P s (act_bind (act_lift r) f)"
  by (cases r) (auto simp: keeps_from_def act_bind_def)

lemma keeps_basic [act_rules]:
  "keeps_from P s (act_ok a)" "keeps_from P s (act_fail e)" "keeps_from P s reload" "keeps_from P s (save_store fl)"
  by (auto simp: keeps_from_def both_def reload_def save_store_def split: disk.splits option.splits)

lemma keeps_mem [act_rules]: "keeps_from P s (f s) \<Longrightarrow> keeps_from P s (act_mem f)"
  by (auto simp: keeps_from_def)

lemma keeps_lock [act_rules]: "keeps_from P s m \<Longrightarrow> keeps_from P s (with_store_lock fl m)"
  by (auto simp: keeps_from_def with_store_lock_def split: option.splits)

lemma act_keeps_option [act_rules]:
  "(x = None \<Longrightarrow> keeps_from P s m) \<Longrightarrow> (\<And>y. x = Some y \<Longrightarrow> keeps_from P s (f y)) \<Longrightarrow>
   keeps_from P s (case x of None \<Rightarrow> m | Some y \<Rightarrow> f y)"
  by (cases x) auto

lemma act_keeps_if [act_rules]:
  "(b \<Longrightarrow> keeps_from P s m) \<Longrightarrow> (\<not> b \<Longrightarrow> keeps_from P s n) \<Longrightarrow> keeps_from P s (if b then m else n)"
  by auto

text \<open>A property that every operation keeps, on the file and in every memory.\<close>

definition all_keep :: "('s \<Rightarrow> bool) \<Rightarrow> 's disk \<times> (nat \<Rightarrow> ('s, 'm) handle_scheme) \<Rightarrow> bool" where
  "all_keep P sys \<longleftrightarrow> (\<forall>i. P (hd_mem (snd sys i))) \<and> (\<forall>s. fst sys = Holds s \<longrightarrow> P s)"

lemma run_handles_keep:
  assumes "\<And>op s. P s \<Longrightarrow> keeps_from P s (exec op)"
  shows "all_keep P sys \<Longrightarrow> all_keep P (snd (run_handles exec iops sys))"
proof (induction iops arbitrary: sys)
  case (Cons iop iops)
  let ?h = "(snd sys (fst iop))\<lparr>hd_disk := fst sys\<rparr>"
  have "P (hd_mem ?h)" "both P ?h" using Cons.prems by (simp_all add: all_keep_def both_def)
  then have "both P (snd (exec (snd iop) ?h))" using assms unfolding keeps_from_def by blast
  then have "all_keep P (snd (run_by exec iop sys))"
    using Cons.prems unfolding all_keep_def both_def run_by_def by (simp add: split_beta Let_def)
  from Cons.IH [OF this] show ?case by (simp add: split_beta Let_def)
qed simp

section \<open>Operations that reload\<close>

text \<open>An operation that starts by reading the file does to it what a fresh handle would do.\<close>

definition fresh_spec :: "('s, 'm) handle_scheme \<Rightarrow> ('op \<Rightarrow> ('s, 'm, 'a) act) \<Rightarrow> 'op \<Rightarrow> 's \<Rightarrow> string + 'a \<times> 's" where
  "fresh_spec z exec op s =
     (case exec op (z\<lparr>hd_disk := Holds s, hd_mem := s\<rparr>) of
        (Inl e, _) \<Rightarrow> Inl e
      | (Inr a, h) \<Rightarrow> (case hd_disk h of Holds s' \<Rightarrow> Inr (a, s') | _ \<Rightarrow> Inr (a, s)))"

definition under_lock :: "('op \<Rightarrow> faults) \<Rightarrow> ('op \<Rightarrow> ('s, 'm, 'a) act) \<Rightarrow> 'op \<Rightarrow> ('s, 'm, 'a) act" where
  "under_lock fl body op = with_store_lock (fl op) (act_bind reload (\<lambda>_. body op))"

lemma under_lock_safe: "safe (body op) \<Longrightarrow> safe (under_lock fl body op)"
  unfolding under_lock_def by (intro act_rules safe_before)

lemma under_lock_fresh:
  assumes b: "blind (body op)" and d: "hd_disk h = Holds s"
  shows "fst (under_lock fl body op h) = fst (under_lock fl body op (z\<lparr>hd_disk := Holds s, hd_mem := s\<rparr>)) \<and>
    hd_disk (snd (under_lock fl body op h)) = hd_disk (snd (under_lock fl body op (z\<lparr>hd_disk := Holds s, hd_mem := s\<rparr>)))"
proof (cases "fl_lock (fl op)")
  case None
  let ?k = "z\<lparr>hd_disk := Holds s, hd_mem := s\<rparr>"
  have "same_store (h\<lparr>hd_mem := s\<rparr>) ?k" using d by (simp add: same_store_def)
  then have "fst (body op (h\<lparr>hd_mem := s\<rparr>)) = fst (body op ?k) \<and>
      same_store (snd (body op (h\<lparr>hd_mem := s\<rparr>))) (snd (body op ?k))"
    using b unfolding blind_def by blast
  moreover have "?k\<lparr>hd_mem := s\<rparr> = ?k" by simp
  ultimately show ?thesis using None d by (simp add: under_lock_def same_store_def)
qed (use d in \<open>simp add: under_lock_def\<close>)

lemma under_lock_store:
  fixes body :: "'op \<Rightarrow> ('s, 'm, 'a) act" and z :: "('s, 'm) handle_scheme"
  assumes "\<And>op. blind (body op)" "\<And>op. safe (body op)" "\<And>op. stays (body op)"
  shows "locked_store (under_lock fl body) (fresh_spec z (under_lock fl body))"
proof
  fix h :: "('s, 'm) handle_scheme" and s op e
  assume h: "hd_disk h = Holds s" and r: "fresh_spec z (under_lock fl body) op s = Inl e"
  obtain k where k: "under_lock fl body op (z\<lparr>hd_disk := Holds s, hd_mem := s\<rparr>) = (Inl e, k)"
    using r unfolding fresh_spec_def by (auto split: prod.splits sum.splits disk.splits)
  have sf: "safe (under_lock fl body op)" using assms(2) by (rule under_lock_safe)
  have "fst (under_lock fl body op h) = Inl e"
    using under_lock_fresh [OF assms(1) h, where fl = fl and z = z] k by simp
  then have u: "under_lock fl body op h = (Inl e, snd (under_lock fl body op h))" by (simp add: prod_eq_iff)
  then have "hd_disk (snd (under_lock fl body op h)) = hd_disk h" using sf unfolding safe_def by blast
  then have "hd_disk (snd (under_lock fl body op h)) = Holds s" using h by simp
  with u show "\<exists>h'. under_lock fl body op h = (Inl e, h') \<and> hd_disk h' = Holds s" by blast
next
  fix h :: "('s, 'm) handle_scheme" and s op a s'
  assume h: "hd_disk h = Holds s" and r: "fresh_spec z (under_lock fl body) op s = Inr (a, s')"
  obtain k where k: "under_lock fl body op (z\<lparr>hd_disk := Holds s, hd_mem := s\<rparr>) = (Inr a, k)"
    and k': "case hd_disk k of Holds t \<Rightarrow> s' = t | _ \<Rightarrow> s' = s"
    using r unfolding fresh_spec_def by (auto split: prod.splits sum.splits disk.splits)
  have "stays (under_lock fl body op)" unfolding under_lock_def by (intro act_rules assms(3))
  then have "readable (hd_disk (snd (under_lock fl body op (z\<lparr>hd_disk := Holds s, hd_mem := s\<rparr>))))"
    unfolding stays_def by (simp add: readable_def)
  then have "hd_disk k = Holds s'" using k k' by (auto simp: readable_def)
  then have "fst (under_lock fl body op h) = Inr a" "hd_disk (snd (under_lock fl body op h)) = Holds s'"
    using under_lock_fresh [OF assms(1) h, where fl = fl and z = z] k by simp_all
  moreover from this(1) have "under_lock fl body op h = (Inr a, snd (under_lock fl body op h))" by (simp add: prod_eq_iff)
  ultimately show "\<exists>h'. under_lock fl body op h = (Inr a, h') \<and> hd_disk h' = Holds s'" by blast
qed

lemma fresh_spec_keeps:
  assumes "\<And>s. P s \<Longrightarrow> keeps_from P s (body op)" "P s" "fresh_spec z (under_lock fl body) op s = Inr (a, s')"
  shows "P s'"
proof -
  let ?k = "z\<lparr>hd_disk := Holds s, hd_mem := s\<rparr>"
  have "keeps_from P s (under_lock fl body op)"
    unfolding under_lock_def using assms(1) by (intro act_rules)
  moreover have "hd_mem ?k = s" "both P ?k" using assms(2) by (simp_all add: both_def)
  ultimately have "both P (snd (under_lock fl body op ?k))" unfolding keeps_from_def by blast
  then show ?thesis using assms(2,3) unfolding fresh_spec_def both_def by (auto split: prod.splits sum.splits disk.splits)
qed

end
