(* ===== verification/Threads.thy ===== *)
theory Threads
  imports Stores
begin

text \<open>
  Threads (\<open>src/src/threads.rs\<close>): the open lines of work of a project, with their sessions, notes and
  edges to other threads. A call of the tool runs under the lock of the store and rewrites one thread;
  a thread that is resolved or promoted is also written, without the home directory's name, as a record
  into the repository it belongs to. \<open>get\<close> and \<open>list\<close> read the memory and format it. Lower case is a
  parameter (the tables of Unicode), and so are the debug format of an optional text, the clock, the directories that exist and the failures of
  the file system. What is handed to the embedding queue is a list. A slice of a string that would cut a
  character in two panics, here the outer \<open>None\<close>.
\<close>

section \<open>The schema\<close>

datatype thread_status = ThreadOpen | ThreadActive | ThreadResolved | ThreadPromoted

datatype thread_kind = WorkItem | Investigation

datatype thread_origin = WorkflowOrigin

datatype thread_edge_kind = SpawnedFrom | ThreadBlockedBy | RelatesTo | ThreadSubsumes

datatype edge_target = ThreadTarget | SessionTarget

definition thread_status_str :: "thread_status \<Rightarrow> string" where
  "thread_status_str s =
     (case s of ThreadOpen \<Rightarrow> ''open'' | ThreadActive \<Rightarrow> ''active'' | ThreadResolved \<Rightarrow> ''resolved''
      | ThreadPromoted \<Rightarrow> ''promoted'')"

definition thread_status_of :: "string \<Rightarrow> thread_status option" where
  "thread_status_of s =
     map_of [(''open'', ThreadOpen), (''active'', ThreadActive), (''resolved'', ThreadResolved),
             (''promoted'', ThreadPromoted)] s"

definition thread_kind_str :: "thread_kind \<Rightarrow> string" where
  "thread_kind_str k = (case k of WorkItem \<Rightarrow> ''work_item'' | Investigation \<Rightarrow> ''investigation'')"

definition thread_kind_of :: "string \<Rightarrow> thread_kind option" where
  "thread_kind_of s = map_of [(''work_item'', WorkItem), (''investigation'', Investigation)] s"

definition thread_origin_str :: "thread_origin \<Rightarrow> string" where
  "thread_origin_str x = (case x of WorkflowOrigin \<Rightarrow> ''workflow'')"

definition thread_origin_of :: "string \<Rightarrow> thread_origin option" where
  "thread_origin_of s = (if s = ''workflow'' then Some WorkflowOrigin else None)"

definition edge_kind_str :: "thread_edge_kind \<Rightarrow> string" where
  "edge_kind_str k =
     (case k of SpawnedFrom \<Rightarrow> ''spawned_from'' | ThreadBlockedBy \<Rightarrow> ''blocked_by''
      | RelatesTo \<Rightarrow> ''relates_to'' | ThreadSubsumes \<Rightarrow> ''subsumes'')"

definition edge_kind_of :: "string \<Rightarrow> thread_edge_kind option" where
  "edge_kind_of s =
     map_of [(''spawned_from'', SpawnedFrom), (''blocked_by'', ThreadBlockedBy), (''relates_to'', RelatesTo),
             (''subsumes'', ThreadSubsumes)] s"

definition edge_target_of :: "string \<Rightarrow> edge_target option" where
  "edge_target_of s = map_of [(''thread'', ThreadTarget), (''session'', SessionTarget)] s"

record thread_edge =
  te_kind :: thread_edge_kind
  te_target :: string
  te_target_type :: edge_target
  te_note :: "string option"
  te_created_at :: string

record session_link =
  sl_session_id :: string
  sl_provider :: string
  sl_name :: "string option"
  sl_linked_at :: string

record thread =
  th_id :: string
  th_name :: "string option"
  th_topic :: string
  th_project :: string
  th_record_dir :: "string option"
  th_status :: thread_status
  th_kind :: "thread_kind option"
  th_origin :: "thread_origin option"
  th_sessions :: "session_link list"
  th_handoff_doc :: "string option"
  th_notes :: "string list"
  th_edges :: "thread_edge list"
  th_promoted_to :: "string option"
  th_created_at :: string
  th_last_activity :: string
  th_resolved_at :: "string option"

record thread_store =
  ts_version :: u32
  ts_threads :: "thread list"

definition new_thread_store :: thread_store where
  "new_thread_store = \<lparr>ts_version = 1, ts_threads = []\<rparr>"

record thread_mutation =
  tm_message :: string
  tm_changed_thread :: "thread option"
  tm_changed_edges :: bool

record thread_params =
  tp_action :: string
  tp_name :: "string option"
  tp_id :: "string option"
  tp_topic :: "string option"
  tp_project :: "string option"
  tp_session_id :: "string option"
  tp_provider :: "string option"
  tp_session_name :: "string option"
  tp_handoff_doc :: "string option"
  tp_note :: "string option"
  tp_target :: "string option"
  tp_target_type :: "string option"
  tp_edge :: "string option"
  tp_promoted_to :: "string option"
  tp_kind :: "string option"
  tp_origin :: "string option"

section \<open>Text\<close>

definition dash_text :: string where
  "dash_text = [CHR 0xE2, CHR 0x80, CHR 0x94]"

definition right_arrow :: string where
  "right_arrow = [CHR 0xE2, CHR 0x86, CHR 0x92]"

definition quoted :: "string \<Rightarrow> string" where
  "quoted s = CHR 0x22 # s @ [CHR 0x22]"

definition ticked :: "string \<Rightarrow> string" where
  "ticked s = CHR 0x27 # s @ [CHR 0x27]"

text \<open>\<open>str::is_char_boundary\<close>, and the slice that panics off a boundary.\<close>

definition at_char_boundary :: "nat \<Rightarrow> string \<Rightarrow> bool" where
  "at_char_boundary i s =
     (i = 0 \<or> i = length s \<or> (i < length s \<and> \<not> (128 \<le> (of_char (s ! i) :: nat) \<and> (of_char (s ! i) :: nat) < 192)))"

definition str_slice :: "nat \<Rightarrow> nat \<Rightarrow> string \<Rightarrow> string option" where
  "str_slice a b s =
     (if a \<le> b \<and> at_char_boundary a s \<and> at_char_boundary b s then Some (take (b - a) (drop a s)) else None)"

text \<open>\<open>str::replace\<close> with a pattern that is not empty.\<close>

function replace_str :: "string \<Rightarrow> string \<Rightarrow> string \<Rightarrow> string" where
  "replace_str pat rep [] = []"
| "replace_str pat rep (c # s) =
     (case strip_prefix pat (c # s) of
        Some r \<Rightarrow> if pat = [] then c # s else rep @ replace_str pat rep r
      | None \<Rightarrow> c # replace_str pat rep s)"
  by pat_completeness auto
termination replace_str
  by (relation "measure (\<lambda>(_, _, s). length s)") (auto simp: strip_prefix_Some simp del: strip_prefix.simps)

definition path_join :: "string \<Rightarrow> string \<Rightarrow> string" where
  "path_join root p =
     (if starts_with p ''/'' then p
      else if root = [] \<or> last root = CHR ''/'' then root @ p else root @ ''/'' @ p)"

section \<open>Records of settled threads\<close>

record thread_record =
  tr_id :: string
  tr_topic :: string
  tr_status :: thread_status
  tr_kind :: "thread_kind option"
  tr_promoted_to :: "string option"
  tr_notes :: "string list"
  tr_created_at :: string
  tr_resolved_at :: string

text \<open>What one call meets outside the store.\<close>

record thread_call =
  tc_faults :: faults
  tc_now :: string
  tc_nanos :: "128 word"
  tc_lower :: "string \<Rightarrow> string"
  tc_debug :: "string option \<Rightarrow> string"
  tc_is_dir :: "string \<Rightarrow> bool"
  tc_home :: "string option"
  tc_record_fault :: "string option"
  tc_params :: thread_params
  tc_write_dir :: "string option"

record threads = "thread_store handle" +
  ti_records :: "(string \<times> thread_record) list"
  ti_embeds :: "thread list"

type_synonym 'a threads_act = "threads \<Rightarrow> (string + 'a) \<times> threads"

definition scrub_host_identity_with :: "string \<Rightarrow> string option \<Rightarrow> string" where
  "scrub_host_identity_with s home =
     (case home of Some h \<Rightarrow> if h \<noteq> [] then replace_str h ''~'' s else s | None \<Rightarrow> s)"

definition record_root :: "thread_call \<Rightarrow> thread \<Rightarrow> string option" where
  "record_root c t =
     List.find (\<lambda>p. p \<noteq> [] \<and> tc_is_dir c p)
       (map trim ((case th_record_dir t of Some d \<Rightarrow> [d] | None \<Rightarrow> []) @ [th_project t]))"

definition record_of :: "thread_call \<Rightarrow> thread \<Rightarrow> thread_record" where
  "record_of c t =
     \<lparr>tr_id = th_id t, tr_topic = scrub_host_identity_with (th_topic t) (tc_home c), tr_status = th_status t,
      tr_kind = th_kind t, tr_promoted_to = th_promoted_to t,
      tr_notes = map (\<lambda>n. scrub_host_identity_with n (tc_home c)) (th_notes t),
      tr_created_at = th_created_at t,
      tr_resolved_at = (case th_resolved_at t of Some a \<Rightarrow> a | None \<Rightarrow> [])\<rparr>"

text \<open>The outer error is a failure of the file system, which the callers only log.\<close>

definition write_thread_record :: "thread_call \<Rightarrow> thread \<Rightarrow> threads \<Rightarrow> (string + (string \<times> string) option) \<times> threads" where
  "write_thread_record c t h =
     (case record_root c t of
        None \<Rightarrow> (Inr None, h)
      | Some root \<Rightarrow>
          (let path = path_join (path_join (path_join root ''.bbox'') ''record'') (th_id t @ ''.json'')
           in case tc_record_fault c of
                Some e \<Rightarrow> (Inl e, h)
              | None \<Rightarrow> (Inr (Some (root, path)), h\<lparr>ti_records := ti_records h @ [(path, record_of c t)]\<rparr>)))"

definition repo_artifact_rider :: "string \<Rightarrow> string \<Rightarrow> string" where
  "repo_artifact_rider root path =
     (let rel = (case strip_prefix root path of Some r \<Rightarrow> dropWhile (\<lambda>c. c = CHR ''/'') r | None \<Rightarrow> path)
      in [CHR 0x0A, CHR 0x0A] @ ''Note: wrote `'' @ rel @ ''` into the working tree '' @ dash_text @
         '' a durable repo-owned artifact that travels with the repo. It is currently untracked; include it with your work (`git add ''
         @ rel @ ''`).'')"

definition enqueue_thread :: "thread \<Rightarrow> unit threads_act" where
  "enqueue_thread t h = (Inr (), h\<lparr>ti_embeds := ti_embeds h @ [t]\<rparr>)"

section \<open>Operations\<close>

definition thread_gen_id :: "128 word \<Rightarrow> string" where
  "thread_gen_id nanos = ''thread-'' @ hex8 (ucast (xor nanos 0x517cc1b727220a95))"

definition required_param :: "string option \<Rightarrow> string \<Rightarrow> string + string" where
  "required_param v msg = (case v of None \<Rightarrow> Inl msg | Some s \<Rightarrow> Inr s)"

definition is_thread_id :: "string \<Rightarrow> thread \<Rightarrow> bool" where
  "is_thread_id i t = (th_id t = i \<or> strip_prefix ''thread-'' (th_id t) = Some i)"

definition is_thread_name :: "(string \<Rightarrow> string) \<Rightarrow> string \<Rightarrow> thread \<Rightarrow> bool" where
  "is_thread_name lower name t =
     ((case th_name t of Some n \<Rightarrow> lower n = lower name | None \<Rightarrow> False) \<or> th_id t = name)"

definition set_threads :: "thread list \<Rightarrow> unit threads_act" where
  "set_threads ts h = (Inr (), h\<lparr>hd_mem := (hd_mem h)\<lparr>ts_threads := ts\<rparr>\<rparr>)"

definition resolve_thread_id :: "thread_call \<Rightarrow> thread list \<Rightarrow> string + string" where
  "resolve_thread_id c ts =
     (case tp_id (tc_params c) of
        Some i \<Rightarrow>
          (case List.find (is_thread_id i) ts of
             Some t \<Rightarrow> Inr (th_id t)
           | None \<Rightarrow> Inl (''Thread not found: '' @ i @ '' (expected `thread-<8hex>`, e.g. `thread-7f01324e`)''))
      | None \<Rightarrow>
          (case tp_name (tc_params c) of
             Some name \<Rightarrow>
               (case List.find (is_thread_name (tc_lower c) name) ts of
                  Some t \<Rightarrow> Inr (th_id t)
                | None \<Rightarrow> Inl (''Thread not found: '' @ name))
           | None \<Rightarrow> Inl (ticked ''id'' @ '' or '' @ ticked ''name'' @ '' is required'')))"

definition session_of :: "thread_call \<Rightarrow> string \<Rightarrow> session_link" where
  "session_of c sid =
     \<lparr>sl_session_id = sid,
      sl_provider = (case tp_provider (tc_params c) of Some p \<Rightarrow> p | None \<Rightarrow> ''unknown''),
      sl_name = tp_session_name (tc_params c), sl_linked_at = tc_now c\<rparr>"

definition list_of :: "'a option \<Rightarrow> 'a list" where
  "list_of v = (case v of None \<Rightarrow> [] | Some a \<Rightarrow> [a])"

text \<open>A kind or an origin that is given has to be known.\<close>

definition known :: "(string \<Rightarrow> 'a option) \<Rightarrow> string option \<Rightarrow> string \<Rightarrow> string + 'a option" where
  "known f v msg =
     (case v of None \<Rightarrow> Inr None | Some s \<Rightarrow> (case f s of None \<Rightarrow> Inl msg | Some a \<Rightarrow> Inr (Some a)))"

definition thread_open :: "thread_call \<Rightarrow> thread_mutation threads_act" where
  "thread_open c =
     (let p = tc_params c; now = tc_now c; i = thread_gen_id (tc_nanos c)
      in act_bind (act_lift (required_param (tp_topic p) (ticked ''topic'' @ '' is required''))) (\<lambda>topic.
         act_bind (act_lift (known thread_kind_of (tp_kind p)
           (''Unknown thread kind: '' @ tc_debug c (tp_kind p) @ ''. Use: work_item, investigation''))) (\<lambda>kind.
         act_bind (act_lift (known thread_origin_of (tp_origin p)
           (''Unknown thread origin: '' @ tc_debug c (tp_origin p) @ ''. Use: workflow''))) (\<lambda>origin.
         let t = \<lparr>th_id = i, th_name = tp_name p, th_topic = topic,
                  th_project = (case tp_project p of Some d \<Rightarrow> d | None \<Rightarrow> []),
                  th_record_dir = tc_write_dir c, th_status = ThreadOpen, th_kind = kind, th_origin = origin,
                  th_sessions = map (session_of c) (list_of (tp_session_id p)),
                  th_handoff_doc = tp_handoff_doc p, th_notes = list_of (tp_note p), th_edges = [],
                  th_promoted_to = None, th_created_at = now, th_last_activity = now, th_resolved_at = None\<rparr>
         in act_mem (\<lambda>s. act_bind (set_threads (ts_threads s @ [t])) (\<lambda>_.
            act_bind (save_store (tc_faults c)) (\<lambda>_.
            act_bind (enqueue_thread t) (\<lambda>_.
            act_ok \<lparr>tm_message = ''Thread created: '' @ i @ '' '' @ dash_text @ '' '' @ quoted topic,
                    tm_changed_thread = Some t, tm_changed_edges = (th_sessions t \<noteq> [])\<rparr>))))))))"

definition edit_thread :: "(thread \<Rightarrow> bool) \<Rightarrow> string \<Rightarrow> (thread \<Rightarrow> thread) \<Rightarrow> thread threads_act" where
  "edit_thread P missing f =
     act_mem (\<lambda>s. case List.find P (ts_threads s) of
       None \<Rightarrow> act_fail missing
     | Some t \<Rightarrow> act_bind (set_threads (update_first P f (ts_threads s))) (\<lambda>_. act_ok (f t)))"

definition add_edge_to :: "thread_call \<Rightarrow> thread_edge_kind \<Rightarrow> string \<Rightarrow> edge_target \<Rightarrow> thread \<Rightarrow> thread" where
  "add_edge_to c kind target ty t =
     t\<lparr>th_edges := th_edges t @ [\<lparr>te_kind = kind, te_target = target, te_target_type = ty,
                                  te_note = tp_note (tc_params c), te_created_at = tc_now c\<rparr>],
       th_last_activity := tc_now c\<rparr>"

definition same_edge :: "thread_edge_kind \<Rightarrow> string \<Rightarrow> edge_target \<Rightarrow> thread_edge \<Rightarrow> bool" where
  "same_edge kind target ty e = (te_kind e = kind \<and> te_target e = target \<and> te_target_type e = ty)"

definition thread_link :: "thread_call \<Rightarrow> thread_mutation threads_act" where
  "thread_link c =
     (let p = tc_params c
      in act_mem (\<lambda>s.
         act_bind (act_lift (resolve_thread_id c (ts_threads s))) (\<lambda>i.
         act_bind (act_lift (required_param (tp_target p)
           (ticked ''target'' @ '' is required (target thread or session ID)''))) (\<lambda>target.
         act_bind (act_lift (required_param (tp_edge p)
           (ticked ''edge'' @ '' is required (spawned_from, blocked_by, relates_to, subsumes)''))) (\<lambda>kind_str.
         case edge_kind_of kind_str of
           None \<Rightarrow> act_fail (''Unknown edge kind: '' @ kind_str @
                             ''. Use: spawned_from, blocked_by, relates_to, subsumes'')
         | Some kind \<Rightarrow>
             (let ty_str = (case tp_target_type p of Some t \<Rightarrow> t | None \<Rightarrow> ''thread'')
              in case edge_target_of ty_str of
                   None \<Rightarrow> act_fail (''Unknown target_type: '' @ ty_str @ ''. Use: thread, session'')
                 | Some ty \<Rightarrow>
                     if ty = ThreadTarget \<and> \<not> list_ex (\<lambda>t. th_id t = target) (ts_threads s)
                     then act_fail (''Target thread '' @ target @ '' not found'')
                     else
                       (case List.find (\<lambda>t. th_id t = i) (ts_threads s) of
                          None \<Rightarrow> act_fail ''Source thread not found''
                        | Some t \<Rightarrow>
                            if list_ex (same_edge kind target ty) (th_edges t)
                            then act_fail (''Edge '' @ kind_str @ '' '' @ right_arrow @ '' '' @ target @ '' already exists'')
                            else act_bind (edit_thread (\<lambda>t. th_id t = i) ''Source thread not found''
                                             (add_edge_to c kind target ty)) (\<lambda>t'.
                                 act_bind (save_store (tc_faults c)) (\<lambda>_.
                                 act_bind (enqueue_thread t') (\<lambda>_.
                                 act_ok \<lparr>tm_message = ''Thread '' @ i @ '' ('' @ th_topic t' @ '') '' @ dash_text @
                                           '' added '' @ kind_str @ '' edge to '' @ target,
                                         tm_changed_thread = Some t', tm_changed_edges = True\<rparr>))))))))))"

definition continued :: "thread_call \<Rightarrow> thread \<Rightarrow> thread" where
  "continued c t =
     (let p = tc_params c
      in t\<lparr>th_sessions := th_sessions t @ map (session_of c) (list_of (tp_session_id p)),
           th_notes := th_notes t @ list_of (tp_note p),
           th_handoff_doc := (case tp_handoff_doc p of Some d \<Rightarrow> Some d | None \<Rightarrow> th_handoff_doc t),
           th_name := (case tp_name p of Some n \<Rightarrow> Some n | None \<Rightarrow> th_name t),
           th_status := ThreadActive, th_last_activity := tc_now c\<rparr>)"

definition thread_continue :: "thread_call \<Rightarrow> thread_mutation threads_act" where
  "thread_continue c =
     act_mem (\<lambda>s.
     act_bind (act_lift (resolve_thread_id c (ts_threads s))) (\<lambda>i.
     act_bind (edit_thread (\<lambda>t. th_id t = i) ''Thread not found'' (continued c)) (\<lambda>t.
     act_bind (save_store (tc_faults c)) (\<lambda>_.
     act_bind (enqueue_thread t) (\<lambda>_.
     act_ok \<lparr>tm_message = ''Thread '' @ i @ '' continued '' @ dash_text @ '' '' @ quoted (th_topic t),
             tm_changed_thread = Some t,
             tm_changed_edges = (tp_session_id (tc_params c) \<noteq> None)\<rparr>)))))"

text \<open>What \<open>resolve\<close> and \<open>promote\<close> share: the note, the place of the record and the instants.\<close>

definition settled :: "thread_call \<Rightarrow> thread_status \<Rightarrow> thread \<Rightarrow> thread" where
  "settled c st t =
     t\<lparr>th_notes := th_notes t @ list_of (tp_note (tc_params c)),
       th_record_dir := (case tc_write_dir c of Some d \<Rightarrow> Some d | None \<Rightarrow> th_record_dir t),
       th_status := st, th_last_activity := tc_now c, th_resolved_at := Some (tc_now c)\<rparr>"

definition promoted :: "thread_call \<Rightarrow> string \<Rightarrow> thread \<Rightarrow> thread" where
  "promoted c ref t = (settled c ThreadPromoted t)\<lparr>th_promoted_to := Some ref\<rparr>"

definition record_rider :: "thread_call \<Rightarrow> thread \<Rightarrow> string threads_act" where
  "record_rider c t h =
     (case write_thread_record c t h of
        (Inr (Some (root, path)), h') \<Rightarrow> (Inr (repo_artifact_rider root path), h')
      | (_, h') \<Rightarrow> (Inr [], h'))"

definition thread_resolve :: "thread_call \<Rightarrow> thread_mutation threads_act" where
  "thread_resolve c =
     act_mem (\<lambda>s.
     act_bind (act_lift (resolve_thread_id c (ts_threads s))) (\<lambda>i.
     act_bind (edit_thread (\<lambda>t. th_id t = i) ''Thread not found'' (settled c ThreadResolved)) (\<lambda>t.
     act_bind (save_store (tc_faults c)) (\<lambda>_.
     act_bind (record_rider c t) (\<lambda>rider.
     act_bind (enqueue_thread t) (\<lambda>_.
     act_ok \<lparr>tm_message = ''Thread '' @ i @ '' resolved '' @ dash_text @ '' '' @ quoted (th_topic t) @ rider,
             tm_changed_thread = Some t, tm_changed_edges = False\<rparr>))))))"

definition thread_promote :: "thread_call \<Rightarrow> thread_mutation threads_act" where
  "thread_promote c =
     act_mem (\<lambda>s.
     act_bind (act_lift (resolve_thread_id c (ts_threads s))) (\<lambda>i.
     act_bind (act_lift (required_param (tp_promoted_to (tc_params c))
       (ticked ''promoted_to'' @ '' is required (graph entity reference)''))) (\<lambda>ref.
     act_bind (edit_thread (\<lambda>t. th_id t = i) ''Thread not found'' (promoted c ref)) (\<lambda>t.
     act_bind (save_store (tc_faults c)) (\<lambda>_.
     act_bind (record_rider c t) (\<lambda>rider.
     act_bind (enqueue_thread t) (\<lambda>_.
     act_ok \<lparr>tm_message = ''Thread '' @ i @ '' promoted to '' @ ref @ '' '' @ dash_text @ '' '' @ quoted (th_topic t) @ rider,
             tm_changed_thread = Some t, tm_changed_edges = False\<rparr>)))))))"

text \<open>Here the id may be a name in place of the short form the other operations accept.\<close>

definition is_renamed :: "thread_call \<Rightarrow> string \<Rightarrow> thread \<Rightarrow> bool" where
  "is_renamed c i t = (th_id t = i \<or> (case th_name t of Some n \<Rightarrow> tc_lower c n = tc_lower c i | None \<Rightarrow> False))"

definition thread_rename :: "thread_call \<Rightarrow> thread_mutation threads_act" where
  "thread_rename c =
     act_bind (act_lift (required_param (tp_id (tc_params c)) (ticked ''id'' @ '' is required for rename''))) (\<lambda>i.
     act_bind (act_lift (required_param (tp_name (tc_params c)) (ticked ''name'' @ '' is required for rename''))) (\<lambda>name.
     act_bind (edit_thread (is_renamed c i) ''Thread not found''
       (\<lambda>t. t\<lparr>th_name := Some name, th_last_activity := tc_now c\<rparr>)) (\<lambda>t.
     act_bind (save_store (tc_faults c)) (\<lambda>_.
     act_bind (enqueue_thread t) (\<lambda>_.
     act_ok \<lparr>tm_message = ''Thread '' @ i @ '' renamed to '' @ quoted name @ '' (topic: '' @ th_topic t @ '')'',
             tm_changed_thread = Some t, tm_changed_edges = False\<rparr>)))))"

section \<open>Reading\<close>

definition line_of :: "string \<Rightarrow> string" where
  "line_of s = s @ [CHR 0x0A]"

definition opt_line :: "string \<Rightarrow> string option \<Rightarrow> string" where
  "opt_line label v = (case v of None \<Rightarrow> [] | Some s \<Rightarrow> line_of (label @ s))"

text \<open>\<open>&target[..target.len().min(8)]\<close>.\<close>

definition short_target :: "string \<Rightarrow> string option" where
  "short_target s = str_slice 0 (min (length s) 8) s"

definition thread_name_at :: "thread list \<Rightarrow> string \<Rightarrow> string" where
  "thread_name_at ts i =
     (case List.find (\<lambda>t. th_id t = i) ts of
        Some t \<Rightarrow> (case th_name t of Some n \<Rightarrow> n | None \<Rightarrow> ''?'')
      | None \<Rightarrow> ''?'')"

definition session_name_at :: "thread list \<Rightarrow> string \<Rightarrow> string option" where
  "session_name_at ts sid =
     (case List.find (\<lambda>s. sl_session_id s = sid) (concat (map th_sessions ts)) of
        Some s \<Rightarrow> sl_name s
      | None \<Rightarrow> None)"

definition get_edge_label :: "thread list \<Rightarrow> thread_edge \<Rightarrow> string option" where
  "get_edge_label ts e =
     (case te_target_type e of
        ThreadTarget \<Rightarrow> Some (te_target e @ '' ('' @ thread_name_at ts (te_target e) @ '')'')
      | SessionTarget \<Rightarrow>
          map_option (\<lambda>short. ''session:'' @ short @
              (case session_name_at ts (te_target e) of Some n \<Rightarrow> '' ('' @ n @ '')'' | None \<Rightarrow> []))
            (short_target (te_target e)))"

fun all_some :: "'a option list \<Rightarrow> 'a list option" where
  "all_some [] = Some []"
| "all_some (x # xs) = (case x of None \<Rightarrow> None | Some a \<Rightarrow> map_option ((#) a) (all_some xs))"

definition get_edges_text :: "thread list \<Rightarrow> thread \<Rightarrow> string option" where
  "get_edges_text ts t =
     (if th_edges t = [] then Some []
      else map_option (\<lambda>ls. [CHR 0x0A] @ line_of (''Edges ('' @ show_nat (length (th_edges t)) @ ''):'') @ concat ls)
        (all_some (map (\<lambda>e. map_option (\<lambda>label.
             line_of (''  - '' @ edge_kind_str (te_kind e) @ '' '' @ right_arrow @ '' '' @ label @
               (case te_note e of Some n \<Rightarrow> '' '' @ dash_text @ '' '' @ n | None \<Rightarrow> [])))
           (get_edge_label ts e)) (th_edges t))))"

definition get_sessions_text :: "thread \<Rightarrow> string" where
  "get_sessions_text t =
     (if th_sessions t = [] then [CHR 0x0A] @ line_of ''Sessions: none''
      else [CHR 0x0A] @ line_of (''Sessions ('' @ show_nat (length (th_sessions t)) @ ''):'') @
        concat (map (\<lambda>s. line_of (''  - '' @ (case sl_name s of Some n \<Rightarrow> n | None \<Rightarrow> sl_session_id s) @
          '' ('' @ sl_provider s @ '') linked '' @ sl_linked_at s)) (th_sessions t)))"

definition get_notes_text :: "thread \<Rightarrow> string" where
  "get_notes_text t =
     (if th_notes t = [] then [CHR 0x0A] @ line_of ''Notes: none''
      else [CHR 0x0A] @ line_of (''Notes ('' @ show_nat (length (th_notes t)) @ ''):'') @
        concat (map (\<lambda>(i, n). [CHR 0x0A] @ line_of (''--- Note '' @ show_nat (i + 1) @ '' ---'') @ line_of n)
          (enumerate 0 (th_notes t))))"

definition thread_text :: "thread list \<Rightarrow> thread \<Rightarrow> string option" where
  "thread_text ts t =
     map_option (\<lambda>edges.
       line_of (''# '' @ th_id t @ '' '' @ dash_text @ '' '' @ th_topic t) @
       opt_line ''Name: '' (th_name t) @
       line_of (''Status: '' @ thread_status_str (th_status t)) @
       opt_line ''Kind: '' (map_option thread_kind_str (th_kind t)) @
       opt_line ''Origin: '' (map_option thread_origin_str (th_origin t)) @
       line_of (''Project: '' @ (if th_project t = [] then ''-'' else th_project t)) @
       line_of (''Created: '' @ th_created_at t) @
       line_of (''Last activity: '' @ th_last_activity t) @
       opt_line ''Resolved: '' (th_resolved_at t) @
       opt_line ''Handoff doc: '' (th_handoff_doc t) @
       opt_line ''Promoted to: '' (th_promoted_to t) @
       get_sessions_text t @ edges @ get_notes_text t)
     (get_edges_text ts t)"

definition find_thread :: "thread_call \<Rightarrow> thread list \<Rightarrow> string + thread" where
  "find_thread c ts =
     (case tp_id (tc_params c) of
        Some i \<Rightarrow> (case List.find (is_thread_id i) ts of Some t \<Rightarrow> Inr t | None \<Rightarrow> Inl ''Thread not found'')
      | None \<Rightarrow>
          (case tp_name (tc_params c) of
             Some name \<Rightarrow>
               (case List.find (is_thread_name (tc_lower c) name) ts of
                  Some t \<Rightarrow> Inr t
                | None \<Rightarrow> Inl ''Thread not found'')
           | None \<Rightarrow> Inl (ticked ''id'' @ '' or '' @ ticked ''name'' @ '' is required for get'')))"

definition thread_get :: "thread_call \<Rightarrow> thread_store \<Rightarrow> (string + string) option" where
  "thread_get c s =
     (case find_thread c (ts_threads s) of
        Inl e \<Rightarrow> Some (Inl e)
      | Inr t \<Rightarrow> map_option Inr (thread_text (ts_threads s) t))"

text \<open>The actions that change the store, under its lock.\<close>

definition locked_action :: "thread_call \<Rightarrow> thread_mutation threads_act" where
  "locked_action c =
     (let a = tp_action (tc_params c)
      in if a = ''open'' then thread_open c
         else if a = ''continue'' then thread_continue c
         else if a = ''link'' then thread_link c
         else if a = ''resolve'' then thread_resolve c
         else if a = ''promote'' then thread_promote c
         else if a = ''rename'' then thread_rename c
         else act_fail (''Unknown action: '' @ a @ ''. Use: get, open, continue, link, resolve, promote, rename''))"

definition locked_mutation :: "thread_call \<Rightarrow> thread_mutation threads_act" where
  "locked_mutation = under_lock tc_faults locked_action"

definition thread_mutation :: "thread_call \<Rightarrow> threads \<Rightarrow> ((string + thread_mutation) \<times> threads) option" where
  "thread_mutation c h =
     (if tp_action (tc_params c) = ''get''
      then map_option (\<lambda>r. (rbind r (\<lambda>text. Inr \<lparr>tm_message = text, tm_changed_thread = None,
                                                   tm_changed_edges = False\<rparr>), h))
             (thread_get c (hd_mem h))
      else Some (locked_mutation c h))"

section \<open>A project that moves\<close>

definition rename_thread_project :: "thread_call \<Rightarrow> string \<Rightarrow> string \<Rightarrow> thread \<Rightarrow> thread" where
  "rename_thread_project c old new t =
     (if th_project t = old then t\<lparr>th_project := new, th_last_activity := tc_now c\<rparr> else t)"

definition enqueue_threads :: "thread list \<Rightarrow> unit threads_act" where
  "enqueue_threads ts h = (Inr (), h\<lparr>ti_embeds := ti_embeds h @ ts\<rparr>)"

definition move_threads :: "thread_call \<Rightarrow> string \<Rightarrow> string \<Rightarrow> nat threads_act" where
  "move_threads c old new =
     act_mem (\<lambda>s.
       let n = length (filter (\<lambda>t. th_project t = old) (ts_threads s));
           ts = map (rename_thread_project c old new) (ts_threads s)
       in act_bind (set_threads ts) (\<lambda>_.
          if n = 0 then act_ok n
          else act_bind (save_store (tc_faults c)) (\<lambda>_.
               act_bind (enqueue_threads (filter (\<lambda>t. th_project t = new) ts)) (\<lambda>_. act_ok n))))"

definition rename_thread_refs :: "thread_call \<times> string \<times> string \<Rightarrow> nat threads_act" where
  "rename_thread_refs = under_lock (\<lambda>(c, _, _). tc_faults c) (\<lambda>(c, old, new). move_threads c old new)"

section \<open>Listing\<close>

record thread_list_params =
  tl_status :: "string option"
  tl_project :: "string option"
  tl_name :: "string option"
  tl_min_idle_days :: "u64 option"
  tl_include_resolved :: "bool option"
  tl_kind :: "string option"
  tl_include_workflows :: "bool option"

text \<open>\<open>str::parse\<close> into a signed number; four bytes cannot overflow.\<close>

definition parse_signed :: "string \<Rightarrow> int option" where
  "parse_signed s =
     (case s of
        CHR ''-'' # r \<Rightarrow> map_option (\<lambda>n. - int n) (digits_val 0 (if r = [] then ''-'' else r))
      | _ \<Rightarrow> map_option int (parse_usize s))"

definition leap_year :: "int \<Rightarrow> bool" where
  "leap_year y = (y mod 4 = 0 \<and> (y mod 100 \<noteq> 0 \<or> y mod 400 = 0))"

definition month_days :: "int \<Rightarrow> int list" where
  "month_days y = [31, if leap_year y then 29 else 28, 31, 30, 31, 30, 31, 31, 30, 31, 30, 31]"

definition epoch_days :: "int \<Rightarrow> u32 \<Rightarrow> u32 \<Rightarrow> int" where
  "epoch_days y m d =
     sum_list (map (\<lambda>yr. if leap_year yr then 366 else 365) [1970..y - 1]) +
     sum_list (take (min (unat ((ucast m :: u64) - 1)) 11) (month_days y)) + (int (unat d) - 1)"

text \<open>The age in days of a time stamp at \<open>now_secs\<close>, from its date alone; the arithmetic wraps.\<close>

definition thread_age_days :: "string \<Rightarrow> u64 \<Rightarrow> u64 option" where
  "thread_age_days at now_secs =
     (if length at < 10 then Some 0
      else case (str_slice 0 4 at, str_slice 5 7 at, str_slice 8 10 at) of
             (Some ys, Some ms, Some ds) \<Rightarrow>
               (let y = (case parse_signed ys of Some y \<Rightarrow> y | None \<Rightarrow> 2026);
                    m = (case parse_u32 ms of Some n \<Rightarrow> of_nat n | None \<Rightarrow> 1);
                    d = (case parse_u32 ds of Some n \<Rightarrow> of_nat n | None \<Rightarrow> 1);
                    activity = (of_int (epoch_days y m d) :: u64) * 86400
                in Some ((if now_secs \<le> activity then 0 else now_secs - activity) div 86400))
           | _ \<Rightarrow> None)"

text \<open>Whether a thread is listed; the inner error is the caller's, the outer \<open>None\<close> a panic.\<close>

definition listed_status :: "thread_list_params \<Rightarrow> thread \<Rightarrow> string + bool" where
  "listed_status q t =
     (case tl_status q of
        Some sf \<Rightarrow>
          (case thread_status_of sf of
             Some st \<Rightarrow> Inr (th_status t = st)
           | None \<Rightarrow> Inl (''Unknown thread status: '' @ sf @ ''. Use: open, active, resolved, promoted''))
      | None \<Rightarrow> Inr (tl_include_resolved q = Some True \<or> th_status t \<notin> {ThreadResolved, ThreadPromoted}))"

definition listed_text :: "(string \<Rightarrow> string) \<Rightarrow> thread_list_params \<Rightarrow> thread \<Rightarrow> bool" where
  "listed_text lower q t =
     ((case tl_project q of Some pf \<Rightarrow> contains_str (lower (th_project t)) (lower pf) | None \<Rightarrow> True) \<and>
      (case tl_name q of
         Some nf \<Rightarrow>
           (case th_name t of Some n \<Rightarrow> contains_str (lower n) (lower nf) | None \<Rightarrow> False) \<or>
           contains_str (lower (th_topic t)) (lower nf)
       | None \<Rightarrow> True) \<and>
      (tl_include_workflows q = Some True \<or> th_origin t \<noteq> Some WorkflowOrigin))"

definition listed_age :: "u64 \<Rightarrow> thread_list_params \<Rightarrow> thread \<Rightarrow> bool option" where
  "listed_age now_secs q t =
     (case tl_min_idle_days q of
        Some days \<Rightarrow> map_option (\<lambda>age. days \<le> age) (thread_age_days (th_last_activity t) now_secs)
      | None \<Rightarrow> Some True)"

definition listed ::
  "(string \<Rightarrow> string) \<Rightarrow> u64 \<Rightarrow> thread_list_params \<Rightarrow> thread_kind option \<Rightarrow> thread \<Rightarrow> (string + bool) option" where
  "listed lower now_secs q kind t =
     (case listed_status q t of
        Inl e \<Rightarrow> Some (Inl e)
      | Inr b \<Rightarrow>
          if \<not> b \<or> \<not> listed_text lower q t then Some (Inr False)
          else (case listed_age now_secs q t of
                  None \<Rightarrow> None
                | Some old \<Rightarrow> Some (Inr (old \<and> (case kind of Some k \<Rightarrow> th_kind t = Some k | None \<Rightarrow> True)))))"

fun collect_listed :: "(thread \<Rightarrow> (string + bool) option) \<Rightarrow> thread list \<Rightarrow> (string + thread list) option" where
  "collect_listed keep [] = Some (Inr [])"
| "collect_listed keep (t # ts) =
     (case keep t of
        None \<Rightarrow> None
      | Some (Inl e) \<Rightarrow> Some (Inl e)
      | Some (Inr b) \<Rightarrow>
          map_option (map_sum id (\<lambda>us. if b then t # us else us)) (collect_listed keep ts))"

definition list_edge_label :: "thread list \<Rightarrow> thread_edge \<Rightarrow> string option" where
  "list_edge_label ts e =
     (case te_target_type e of
        ThreadTarget \<Rightarrow> Some (thread_name_at ts (te_target e))
      | SessionTarget \<Rightarrow>
          (case session_name_at ts (te_target e) of
             Some n \<Rightarrow> Some (''session:'' @ n)
           | None \<Rightarrow> map_option (\<lambda>s. ''session:'' @ s) (short_target (te_target e))))"

definition list_edges_text :: "thread list \<Rightarrow> thread \<Rightarrow> string option" where
  "list_edges_text ts t =
     (if th_edges t = [] then Some []
      else map_option (\<lambda>ls. '' ['' @ join_with '', '' ls @ '']'')
        (all_some (map (\<lambda>e. map_option (\<lambda>l. edge_kind_str (te_kind e) @ right_arrow @ l) (list_edge_label ts e))
           (th_edges t))))"

definition list_sessions_text :: "thread \<Rightarrow> string" where
  "list_sessions_text t =
     (if th_sessions t = [] then ''no sessions''
      else join_with '', '' (map (\<lambda>s. case sl_name s of Some n \<Rightarrow> n
                                       | None \<Rightarrow> concat (take 8 (utf8_chars (sl_session_id s)))) (th_sessions t)))"

definition list_line :: "thread list \<Rightarrow> u64 \<Rightarrow> thread \<Rightarrow> string option" where
  "list_line ts now_secs t =
     (case (thread_age_days (th_last_activity t) now_secs, list_edges_text ts t) of
        (Some age, Some edges) \<Rightarrow>
          Some (join_with '' | ''
            [th_id t,
             (case th_name t of Some n \<Rightarrow> n | None \<Rightarrow> ''-''),
             thread_status_str (th_status t),
             (if age = 0 then ''today'' else show_nat (unat age) @ ''d ago''),
             (if th_project t = [] then ''-'' else last (split_on CHR ''/'' (th_project t))),
             th_topic t @ edges,
             list_sessions_text t,
             (case th_handoff_doc t of Some d \<Rightarrow> d | None \<Rightarrow> ''-'')])
      | _ \<Rightarrow> None)"

definition by_activity :: "thread list \<Rightarrow> thread list" where
  "by_activity = sort_by (\<lambda>a b. th_last_activity b \<le> th_last_activity a)"

definition thread_list :: "(string \<Rightarrow> string) \<Rightarrow> (string option \<Rightarrow> string) \<Rightarrow> u64 \<Rightarrow> thread_list_params \<Rightarrow> thread_store \<Rightarrow> (string + string) option" where
  "thread_list lower debug now_secs q s =
     (case known thread_kind_of (tl_kind q) (''Unknown thread kind: '' @ debug (tl_kind q)) of
        Inl e \<Rightarrow> Some (Inl e)
      | Inr kind \<Rightarrow>
          (case collect_listed (listed lower now_secs q kind) (ts_threads s) of
             None \<Rightarrow> None
           | Some (Inl e) \<Rightarrow> Some (Inl e)
           | Some (Inr ts) \<Rightarrow>
               if ts = [] then Some (Inr ''No threads found.'')
               else map_option (\<lambda>ls. Inr (show_nat (length ts) @ '' thread(s)'' @ [CHR 0x0A, CHR 0x0A] @
                                          join_with [CHR 0x0A] ls))
                      (all_some (map (list_line (ts_threads s) now_secs) (by_activity ts)))))"

end
