(* ===== verification/Threads_Guarantees.thy ===== *)
theory Threads_Guarantees
  imports Threads
begin

text \<open>
  What the thread store promises: whatever handles run the actions, and however stale their memory, the
  file is what one handle would have made of it, and its threads stay consistent.
\<close>

section \<open>The shape of the actions\<close>

lemma blind_effects [act_rules]:
  "blind (set_threads ts)" "blind (enqueue_thread t)" "blind (record_rider c t)" "blind (enqueue_threads us)"
proof -
  show "blind (record_rider c t)"
    unfolding blind_def same_store_def record_rider_def write_thread_record_def Let_def
    by (cases "record_root c t"; cases "tc_record_fault c") simp_all
qed (simp_all add: blind_def same_store_def set_threads_def enqueue_thread_def enqueue_threads_def)

lemma quiet_effects [act_rules]:
  "quiet (set_threads ts)" "quiet (enqueue_thread t)" "quiet (record_rider c t)" "quiet (enqueue_threads us)"
proof -
  show "quiet (record_rider c t)"
    unfolding quiet_def record_rider_def write_thread_record_def Let_def
    by (cases "record_root c t"; cases "tc_record_fault c") simp_all
qed (simp_all add: quiet_def set_threads_def enqueue_thread_def enqueue_threads_def)

lemma sure_effects [act_rules]:
  "sure (set_threads ts)" "sure (enqueue_thread t)" "sure (record_rider c t)" "sure (enqueue_threads us)"
proof -
  show "sure (record_rider c t)"
    unfolding sure_def record_rider_def write_thread_record_def Let_def
    by (cases "record_root c t"; cases "tc_record_fault c") simp_all
qed (simp_all add: sure_def set_threads_def enqueue_thread_def enqueue_threads_def)

lemmas stays_effects [act_rules] = quiet_effects [THEN stays_quiet]

lemma quiet_edit [act_rules]: "quiet (edit_thread P m f)"
  unfolding edit_thread_def by (intro act_rules)

lemma blind_edit [act_rules]: "blind (edit_thread P m f)"
  unfolding edit_thread_def by (intro act_rules)

lemmas stays_edit [act_rules] = quiet_edit [THEN stays_quiet]

lemmas thread_actions =
  thread_open_def thread_continue_def thread_link_def thread_resolve_def thread_promote_def thread_rename_def

lemma blind_action: "blind (locked_action c)"
  unfolding locked_action_def thread_actions Let_def by (intro act_rules)

lemma stays_action: "stays (locked_action c)"
  unfolding locked_action_def thread_actions Let_def by (intro act_rules)

lemma safe_saved:
  "(\<And>a. sure (f a)) \<Longrightarrow> safe (act_bind (save_store fl) f)"
  by (intro safe_after act_rules)

lemma safe_lifted: "(\<And>a. safe (f a)) \<Longrightarrow> safe (act_bind (act_lift r) f)"
  by (intro safe_before act_rules)

lemma safe_edited: "(\<And>a. safe (f a)) \<Longrightarrow> safe (act_bind (edit_thread P m g) f)"
  by (intro safe_before act_rules)

lemma safe_set: "(\<And>a. safe (f a)) \<Longrightarrow> safe (act_bind (set_threads ts) f)"
  by (intro safe_before act_rules)

lemma safe_action: "safe (locked_action c)"
  unfolding locked_action_def thread_actions Let_def
  by (intro safe_lifted safe_edited safe_set safe_saved act_rules)

section \<open>Consistent threads\<close>

definition edge_key :: "thread_edge \<Rightarrow> thread_edge_kind \<times> string \<times> edge_target" where
  "edge_key e = (te_kind e, te_target e, te_target_type e)"

definition settled_ok :: "thread \<Rightarrow> bool" where
  "settled_ok t \<longleftrightarrow>
     (th_status t \<in> {ThreadResolved, ThreadPromoted} \<longrightarrow> th_resolved_at t \<noteq> None) \<and>
     (th_status t = ThreadPromoted \<longrightarrow> th_promoted_to t \<noteq> None) \<and> distinct (map edge_key (th_edges t))"

definition targets :: "thread \<Rightarrow> string set" where
  "targets t = te_target ` {e \<in> set (th_edges t). te_target_type e = ThreadTarget}"

definition store_ok :: "thread_store \<Rightarrow> bool" where
  "store_ok s \<longleftrightarrow>
     (\<forall>t\<in>set (ts_threads s). settled_ok t \<and> targets t \<subseteq> th_id ` set (ts_threads s))"

lemma keeps_effects [act_rules]:
  "keeps_from P s (enqueue_thread t)" "keeps_from P s (record_rider c t)" "keeps_from P s (enqueue_threads us)"
proof -
  show "keeps_from P s (record_rider c t)"
    unfolding keeps_from_def both_def record_rider_def write_thread_record_def Let_def
    by (cases "record_root c t"; cases "tc_record_fault c") simp_all
qed (simp_all add: keeps_from_def both_def enqueue_thread_def enqueue_threads_def)

lemma keeps_set: "P (s\<lparr>ts_threads := ts\<rparr>) \<Longrightarrow> keeps_from P s (set_threads ts)"
  by (auto simp: keeps_from_def both_def set_threads_def)

lemma store_ok_add:
  "store_ok s \<Longrightarrow> settled_ok t \<Longrightarrow> targets t = {} \<Longrightarrow> store_ok (s\<lparr>ts_threads := ts_threads s @ [t]\<rparr>)"
  unfolding store_ok_def by auto

lemma store_ok_update:
  assumes "store_ok s" "\<And>t. List.find P (ts_threads s) = Some t \<Longrightarrow> settled_ok (f t)"
    and "\<And>t. List.find P (ts_threads s) = Some t \<Longrightarrow> targets (f t) \<subseteq> targets t \<union> th_id ` set (ts_threads s)"
    and i: "\<And>t. th_id (f t) = th_id t"
  shows "store_ok (s\<lparr>ts_threads := update_first P f (ts_threads s)\<rparr>)"
proof -
  have ids: "th_id ` set (update_first P f (ts_threads s)) = th_id ` set (ts_threads s)"
    using map_update_first [of P th_id f "ts_threads s"] i by (metis list.set_map)
  have "settled_ok t \<and> targets t \<subseteq> th_id ` set (ts_threads s)" if "t \<in> set (update_first P f (ts_threads s))" for t
  proof -
    from set_update_first [OF that] consider "t \<in> set (ts_threads s)"
      | u where "List.find P (ts_threads s) = Some u" "t = f u"
      by blast
    then show ?thesis
    proof cases
      case 2
      have "targets u \<subseteq> th_id ` set (ts_threads s)" using assms(1) find_SomeD [OF 2(1)] unfolding store_ok_def by blast
      then show ?thesis using 2 assms(2,3) by blast
    qed (use assms(1) in \<open>auto simp: store_ok_def\<close>)
  qed
  then show ?thesis using ids by (simp add: store_ok_def)
qed

lemma keeps_edit:
  assumes "store_ok s" "\<And>t. List.find P (ts_threads s) = Some t \<Longrightarrow> settled_ok (f t)"
    and "\<And>t. List.find P (ts_threads s) = Some t \<Longrightarrow> targets (f t) \<subseteq> targets t \<union> th_id ` set (ts_threads s)"
    and "\<And>t. th_id (f t) = th_id t"
  shows "keeps_from store_ok s (edit_thread P m f)"
  unfolding edit_thread_def
  by (intro act_rules keeps_set store_ok_update assms)

lemma settled_okD: "store_ok s \<Longrightarrow> List.find P (ts_threads s) = Some t \<Longrightarrow> settled_ok t"
  using find_SomeD by (fastforce simp: store_ok_def)

lemma same_ids:
  "th_id (settled c st t) = th_id t" "th_id (promoted c ref t) = th_id t" "th_id (continued c t) = th_id t"
  "th_id (add_edge_to c k x ty t) = th_id t"
  by (simp_all add: settled_def promoted_def continued_def add_edge_to_def Let_def)

lemma settled_settled: "settled_ok t \<Longrightarrow> st \<noteq> ThreadPromoted \<Longrightarrow> settled_ok (settled c st t)"
  by (simp add: settled_ok_def settled_def)

lemma settled_promoted: "settled_ok t \<Longrightarrow> settled_ok (promoted c ref t)"
  by (simp add: settled_ok_def settled_def promoted_def)

lemma settled_continued: "settled_ok t \<Longrightarrow> settled_ok (continued c t)"
  by (simp add: settled_ok_def continued_def Let_def)

lemma same_targets:
  "targets (settled c st t) = targets t" "targets (promoted c ref t) = targets t" "targets (continued c t) = targets t"
  by (simp_all add: targets_def settled_def promoted_def continued_def Let_def)

lemma settled_linked:
  "settled_ok t \<Longrightarrow> \<not> list_ex (same_edge k x ty) (th_edges t) \<Longrightarrow> settled_ok (add_edge_to c k x ty t)"
  by (auto simp: settled_ok_def add_edge_to_def edge_key_def same_edge_def list_ex_iff)

lemma targets_linked:
  "targets (add_edge_to c k x ty t) \<subseteq> targets t \<union> (if ty = ThreadTarget then {x} else {})"
  by (auto simp: targets_def add_edge_to_def)

lemma keeps_open: "store_ok s \<Longrightarrow> keeps_from store_ok s (thread_open c)"
  unfolding thread_open_def Let_def
  by (intro act_keeps_lift act_rules keeps_set store_ok_add) (simp_all add: settled_ok_def targets_def)

lemma keeps_continue: "store_ok s \<Longrightarrow> keeps_from store_ok s (thread_continue c)"
  unfolding thread_continue_def
  by (intro act_keeps_lift act_rules keeps_edit) (auto simp: settled_okD settled_continued same_targets same_ids)

lemma keeps_resolve: "store_ok s \<Longrightarrow> keeps_from store_ok s (thread_resolve c)"
  unfolding thread_resolve_def
  by (intro act_keeps_lift act_rules keeps_edit) (auto simp: settled_okD settled_settled same_targets same_ids)

lemma keeps_promote: "store_ok s \<Longrightarrow> keeps_from store_ok s (thread_promote c)"
  unfolding thread_promote_def
  by (intro act_keeps_lift act_rules keeps_edit)
    (auto simp: settled_okD settled_promoted same_targets same_ids)

lemma keeps_rename: "store_ok s \<Longrightarrow> keeps_from store_ok s (thread_rename c)"
  unfolding thread_rename_def
  by (intro act_keeps_lift act_rules keeps_edit) (auto dest: settled_okD simp: settled_ok_def targets_def)

lemma targets_known:
  assumes "\<not> (ty = ThreadTarget \<and> \<not> list_ex (\<lambda>t. th_id t = x) ts)"
  shows "targets (add_edge_to c k x ty t) \<subseteq> targets t \<union> th_id ` set ts"
  using targets_linked [of c k x ty t] assms by (fastforce simp: list_ex_iff split: if_splits)

lemma keeps_link: "store_ok s \<Longrightarrow> keeps_from store_ok s (thread_link c)"
  unfolding thread_link_def Let_def
proof (intro act_keeps_lift act_rules keeps_edit, simp_all only: same_ids option.inject, goal_cases)
  case (1 i x ks k ty t)
  then show ?case using settled_okD settled_linked by blast
next
  case (2 i x ks k ty t)
  then show ?case by (intro targets_known)
qed

lemma keeps_action: "store_ok s \<Longrightarrow> keeps_from store_ok s (locked_action c)"
  unfolding locked_action_def Let_def
  by (intro act_rules keeps_open keeps_continue keeps_link keeps_resolve keeps_promote keeps_rename)

definition fresh_threads :: threads where
  "fresh_threads = \<lparr>hd_disk = NoFile, hd_mem = new_thread_store, ti_records = [], ti_embeds = []\<rparr>"

definition one_handle :: "thread_call \<Rightarrow> thread_store \<Rightarrow> string + thread_mutation \<times> thread_store" where
  "one_handle = fresh_spec fresh_threads locked_mutation"

interpretation ts: locked_store locked_mutation one_handle
  unfolding one_handle_def locked_mutation_def
  by (rule under_lock_store) (rule blind_action safe_action stays_action)+

interpretation ts: kept_store locked_mutation one_handle store_ok
proof
  fix s c a s'
  assume s: "store_ok s" and r: "one_handle c s = Inr (a, s')"
  from fresh_spec_keeps [where P = store_ok and body = locked_action, OF keeps_action s]
  show "store_ok s'" using r unfolding one_handle_def locked_mutation_def by blast
qed

text \<open>The same for a project that moves.\<close>

lemma blind_move: "blind (move_threads c old new)"
  unfolding move_threads_def Let_def by (intro act_rules)

lemma safe_move: "safe (move_threads c old new)"
  unfolding move_threads_def Let_def by (intro safe_set safe_saved act_rules)

lemma stays_move: "stays (move_threads c old new)"
  unfolding move_threads_def Let_def by (intro act_rules)

lemma store_ok_move:
  assumes "store_ok s"
  shows "store_ok (s\<lparr>ts_threads := map (rename_thread_project c old new) (ts_threads s)\<rparr>)"
proof -
  have "th_id (rename_thread_project c old new t) = th_id t" "targets (rename_thread_project c old new t) = targets t"
    "settled_ok (rename_thread_project c old new t) = settled_ok t" for t
    by (simp_all add: rename_thread_project_def targets_def settled_ok_def)
  then show ?thesis using assms by (auto simp: store_ok_def image_image)
qed

definition moved_once :: "thread_call \<times> string \<times> string \<Rightarrow> thread_store \<Rightarrow> string + nat \<times> thread_store" where
  "moved_once = fresh_spec fresh_threads rename_thread_refs"

interpretation tm: locked_store rename_thread_refs moved_once
  unfolding moved_once_def rename_thread_refs_def
  by (rule under_lock_store) (auto intro: blind_move safe_move stays_move)

interpretation tm: kept_store rename_thread_refs moved_once store_ok
proof
  fix s op a s'
  assume s: "store_ok s" and m: "moved_once op s = Inr (a, s')"
  have "keeps_from store_ok s ((\<lambda>(c, old, new). move_threads c old new) op)" if "store_ok s" for s
    using that unfolding move_threads_def Let_def by (cases op) (simp, intro act_rules keeps_set store_ok_move)
  from fresh_spec_keeps [where P = store_ok and body = "\<lambda>(c, old, new). move_threads c old new", OF this s]
  show "store_ok s'" using m unfolding moved_once_def rename_thread_refs_def by blast
qed

section \<open>Properties\<close>

text \<open>Handles that share the file of threads, whatever they have in memory, give to every action the
  answer of a single handle and leave the file it would leave.\<close>

theorem threads_serialise:
  assumes "fst sys = Holds s"
  shows "fst (run_handles locked_mutation calls sys) = fst (run_spec one_handle (map snd calls) s) \<and>
    fst (snd (run_handles locked_mutation calls sys)) = Holds (snd (run_spec one_handle (map snd calls) s))"
  by (rule ts.handles_agree [OF assms])


lemma char_boundary_0 [simp]: "at_char_boundary 0 s"
  by (simp add: at_char_boundary_def)

lemma all_some_None: "all_some xs = None \<longleftrightarrow> None \<in> set xs"
  by (induction xs) (auto split: option.splits)

definition cuts :: "thread_edge \<Rightarrow> bool" where
  "cuts e \<longleftrightarrow> te_target_type e = SessionTarget \<and> \<not> at_char_boundary (min (length (te_target e)) 8) (te_target e)"

lemma get_edge_label_None: "get_edge_label ts e = None \<longleftrightarrow> cuts e"
  by (auto simp: get_edge_label_def cuts_def short_target_def str_slice_def split: edge_target.splits)

lemma thread_text_None: "thread_text ts t = None \<longleftrightarrow> (\<exists>e\<in>set (th_edges t). cuts e)"
  by (auto simp: thread_text_def get_edges_text_def all_some_None get_edge_label_None image_iff)

text \<open>Reading a thread panics exactly when one of its edges is to a session whose id has, at its
  eighth byte, the middle of a character.\<close>

theorem thread_get_panics:
  "thread_get c s = None \<longleftrightarrow>
     (\<exists>t e. find_thread c (ts_threads s) = Inr t \<and> e \<in> set (th_edges t) \<and> te_target_type e = SessionTarget \<and>
        \<not> at_char_boundary (min (length (te_target e)) 8) (te_target e))"
  by (auto simp: thread_get_def thread_text_None cuts_def split: sum.splits)

end
