(* ===== verification/Entity_Ref.thy ===== *)
theory Entity_Ref
  imports Workflow_Compile
begin

text \<open>
  Entity references (\<open>src/src/entity_ref.rs\<close>): the typed names by which the parts of the daemon refer to
  each other, their textual form, its parser with the messages of its errors, and the suggestion for a
  misspelt type, which is the nearest one by edit distance. Strings are their UTF-8 bytes. The ids
  derived from paths, which hash what git and the file system say, are left out.
\<close>

section \<open>References\<close>

datatype entity_type =
    KnowledgeType
  | TranscriptType
  | FileType
  | ProjectFileType
  | ProjectFileV2Type
  | SessionType
  | ThreadType
  | NoteType
  | SymbolType
  | SymbolV2Type
  | BrofileType
  | WhiteboardType
  | CommitType
  | TaskType
  | BashCallType
  | AgentType
  | PacketType
  | ArtifactType
  | RoadmapItemType

definition entity_types :: "entity_type list" where
  "entity_types =
     [KnowledgeType, TranscriptType, FileType, ProjectFileType, ProjectFileV2Type,
      SessionType, ThreadType, NoteType, SymbolType, SymbolV2Type,
      BrofileType, WhiteboardType, CommitType, TaskType, BashCallType,
      AgentType, PacketType, ArtifactType, RoadmapItemType]"

definition type_str :: "entity_type \<Rightarrow> string" where
  "type_str t =
     (case t of
        KnowledgeType \<Rightarrow> ''knowledge''
      | TranscriptType \<Rightarrow> ''transcript''
      | FileType \<Rightarrow> ''file''
      | ProjectFileType \<Rightarrow> ''project_file''
      | ProjectFileV2Type \<Rightarrow> ''project_file_v2''
      | SessionType \<Rightarrow> ''session''
      | ThreadType \<Rightarrow> ''thread''
      | NoteType \<Rightarrow> ''note''
      | SymbolType \<Rightarrow> ''symbol''
      | SymbolV2Type \<Rightarrow> ''symbol_v2''
      | BrofileType \<Rightarrow> ''brofile''
      | WhiteboardType \<Rightarrow> ''whiteboard''
      | CommitType \<Rightarrow> ''commit''
      | TaskType \<Rightarrow> ''task''
      | BashCallType \<Rightarrow> ''bash_call''
      | AgentType \<Rightarrow> ''agent''
      | PacketType \<Rightarrow> ''packet''
      | ArtifactType \<Rightarrow> ''artifact''
      | RoadmapItemType \<Rightarrow> ''roadmap_item'')"

definition type_example :: "entity_type \<Rightarrow> string" where
  "type_example t =
     (case t of
        KnowledgeType \<Rightarrow> ''knowledge:<entry_id>''
      | TranscriptType \<Rightarrow> ''transcript:<provider>:<session_id>:<line_offset>:<event_idx>''
      | FileType \<Rightarrow> ''file:<project-relative-path>''
      | ProjectFileType \<Rightarrow> ''project_file:<project_id>:<rel_path_hash>:<chunk_hash>:<occurrence_idx>''
      | ProjectFileV2Type \<Rightarrow> ''project_file_v2:<project_id>:<snapshot_id>:<rel_path_hash>:<chunk_hash>:<occurrence_idx>''
      | SessionType \<Rightarrow> ''session:<provider>:<session_id>''
      | ThreadType \<Rightarrow> ''thread:<thread_id>''
      | NoteType \<Rightarrow> ''note:<note_id>''
      | SymbolType \<Rightarrow> ''symbol:<project_id>:<qualified_name>:<defn_hash>''
      | SymbolV2Type \<Rightarrow> ''symbol_v2:<project_id>:<snapshot_id>:<qualified_name>:<defn_hash>''
      | BrofileType \<Rightarrow> ''brofile:<name>''
      | WhiteboardType \<Rightarrow> ''whiteboard:<board_id>''
      | CommitType \<Rightarrow> ''commit:<repo_id>:<sha>''
      | TaskType \<Rightarrow> ''task:<task_id>''
      | BashCallType \<Rightarrow> ''bash_call:<session>:<turn>''
      | AgentType \<Rightarrow> ''agent:<name>@v<version>''
      | PacketType \<Rightarrow> ''packet:domain:<domain>''
      | ArtifactType \<Rightarrow> ''artifact:<kind>/<name>@<version>''
      | RoadmapItemType \<Rightarrow> ''roadmap_item:<id>'')"

definition type_is_virtual :: "entity_type \<Rightarrow> bool" where
  "type_is_virtual t = (t = TaskType \<or> t = BashCallType)"

definition from_prefix :: "string \<Rightarrow> entity_type option" where
  "from_prefix prefix = find (\<lambda>ty. type_str ty = prefix) entity_types"

datatype entity_ref =
    KnowledgeRef string
  | TranscriptRef string string u64 u32
  | FileRef string
  | ProjectFileRef string string string u32
  | ProjectFileV2Ref string string string string u32
  | SessionRef string string
  | ThreadRef string
  | NoteRef string
  | SymbolRef string string string
  | SymbolV2Ref string string string string
  | BrofileRef string
  | WhiteboardRef string
  | CommitRef string string
  | TaskRef string
  | BashCallRef string u32
  | AgentRef string u32
  | PacketRef string
  | ArtifactRef string string "string option"
  | RoadmapItemRef string

fun entity_type_of :: "entity_ref \<Rightarrow> entity_type" where
  "entity_type_of (KnowledgeRef _) = KnowledgeType"
| "entity_type_of (TranscriptRef _ _ _ _) = TranscriptType"
| "entity_type_of (FileRef _) = FileType"
| "entity_type_of (ProjectFileRef _ _ _ _) = ProjectFileType"
| "entity_type_of (ProjectFileV2Ref _ _ _ _ _) = ProjectFileV2Type"
| "entity_type_of (SessionRef _ _) = SessionType"
| "entity_type_of (ThreadRef _) = ThreadType"
| "entity_type_of (NoteRef _) = NoteType"
| "entity_type_of (SymbolRef _ _ _) = SymbolType"
| "entity_type_of (SymbolV2Ref _ _ _ _) = SymbolV2Type"
| "entity_type_of (BrofileRef _) = BrofileType"
| "entity_type_of (WhiteboardRef _) = WhiteboardType"
| "entity_type_of (CommitRef _ _) = CommitType"
| "entity_type_of (TaskRef _) = TaskType"
| "entity_type_of (BashCallRef _ _) = BashCallType"
| "entity_type_of (AgentRef _ _) = AgentType"
| "entity_type_of (PacketRef _) = PacketType"
| "entity_type_of (ArtifactRef _ _ _) = ArtifactType"
| "entity_type_of (RoadmapItemRef _) = RoadmapItemType"

definition ref_is_virtual :: "entity_ref \<Rightarrow> bool" where
  "ref_is_virtual r = type_is_virtual (entity_type_of r)"

section \<open>Rendering\<close>

text \<open>The field and the value of a rejected reference. The message repeats them.\<close>

record render_error =
  re_field :: string
  re_value :: string

definition validate_provider :: "string \<Rightarrow> render_error + unit" where
  "validate_provider provider =
     guard_err (provider = [] \<or> CHR '':'' \<in> set provider) \<lparr>re_field = ''provider'', re_value = provider\<rparr>"

definition colon :: "string \<Rightarrow> string \<Rightarrow> string" where
  "colon a b = a @ CHR '':'' # b"

fun try_render :: "entity_ref \<Rightarrow> render_error + string" where
  "try_render (KnowledgeRef i) = Inr (colon ''knowledge'' i)"
| "try_render (TranscriptRef provider session offset idx) =
     rbind (validate_provider provider) (\<lambda>_.
       Inr (colon ''transcript'' (colon provider (colon session
             (colon (show_nat (unat offset)) (show_nat (unat idx)))))))"
| "try_render (FileRef path) = Inr (colon ''file'' path)"
| "try_render (ProjectFileRef project rel chunk idx) =
     Inr (colon ''project_file'' (colon project (colon rel (colon chunk (show_nat (unat idx))))))"
| "try_render (ProjectFileV2Ref project snap rel chunk idx) =
     Inr (colon ''project_file_v2''
           (colon project (colon snap (colon rel (colon chunk (show_nat (unat idx)))))))"
| "try_render (SessionRef provider session) =
     rbind (validate_provider provider) (\<lambda>_. Inr (colon ''session'' (colon provider session)))"
| "try_render (ThreadRef i) = Inr (colon ''thread'' i)"
| "try_render (NoteRef i) = Inr (colon ''note'' i)"
| "try_render (SymbolRef project name hash) =
     Inr (colon ''symbol'' (colon project (colon name hash)))"
| "try_render (SymbolV2Ref project snap name hash) =
     Inr (colon ''symbol_v2'' (colon project (colon snap (colon name hash))))"
| "try_render (BrofileRef name) = Inr (colon ''brofile'' name)"
| "try_render (WhiteboardRef i) = Inr (colon ''whiteboard'' i)"
| "try_render (CommitRef repo sha) = Inr (colon ''commit'' (colon repo sha))"
| "try_render (TaskRef i) = Inr (colon ''task'' i)"
| "try_render (BashCallRef session turn) =
     Inr (colon ''bash_call'' (colon session (show_nat (unat turn))))"
| "try_render (AgentRef name version) =
     (if name = [] \<or> CHR '':'' \<in> set name \<or> version = 0
      then Inl \<lparr>re_field = ''name/version'', re_value = name @ ''@v'' @ show_nat (unat version)\<rparr>
      else Inr (colon ''agent'' (name @ ''@v'' @ show_nat (unat version))))"
| "try_render (PacketRef selector) = Inr (colon ''packet'' selector)"
| "try_render (ArtifactRef kind name version) =
     (case version of
        Some v \<Rightarrow> Inr (colon ''artifact'' (kind @ ''/'' @ name @ ''@'' @ v))
      | None \<Rightarrow> Inr (colon ''artifact'' (kind @ ''/'' @ name)))"
| "try_render (RoadmapItemRef i) = Inr (colon ''roadmap_item'' i)"

text \<open>\<open>render\<close> panics, here \<open>None\<close>, where \<open>try_render\<close> refuses; \<open>Display\<close> falls back to a sentinel.\<close>

definition render_ref :: "entity_ref \<Rightarrow> string option" where
  "render_ref r = (case try_render r of Inl _ \<Rightarrow> None | Inr s \<Rightarrow> Some s)"

definition display_ref :: "entity_ref \<Rightarrow> string" where
  "display_ref r =
     (case try_render r of
        Inr s \<Rightarrow> s
      | Inl e \<Rightarrow> ''<invalid entity-ref kind='' @ type_str (entity_type_of r) @ '' field='' @ re_field e @
                 '' value='' @ re_value e @ ''>'')"

section \<open>Edit distance\<close>

text \<open>One row of the table: the left neighbour, the previous row and the rest of the second string.\<close>

fun lev_row :: "char \<Rightarrow> nat \<Rightarrow> nat list \<Rightarrow> string \<Rightarrow> nat list" where
  "lev_row ca left (diag # up # prev) (cb # bs) =
     (let x = min (min (diag + (if ca \<noteq> cb then 1 else 0)) (left + 1)) (up + 1)
      in x # lev_row ca x (up # prev) bs)"
| "lev_row ca left prev bs = []"

definition lev_step :: "string \<Rightarrow> nat list \<Rightarrow> nat \<times> char \<Rightarrow> nat list" where
  "lev_step b prev ica = (fst ica + 1) # lev_row (snd ica) (fst ica + 1) prev b"

definition levenshtein :: "string \<Rightarrow> string \<Rightarrow> nat" where
  "levenshtein a b =
     foldl (lev_step b) [0..<Suc (length b)] (zip [0..<length a] a) ! length b"

text \<open>\<open>min_by_key\<close> returns the first of several minima.\<close>

fun min_by_key :: "('a \<Rightarrow> nat) \<Rightarrow> 'a list \<Rightarrow> 'a option" where
  "min_by_key f [] = None"
| "min_by_key f (x # xs) =
     (case min_by_key f xs of
        None \<Rightarrow> Some x
      | Some y \<Rightarrow> if f y < f x then Some y else Some x)"

definition closest_type :: "string \<Rightarrow> entity_type option" where
  "closest_type prefix =
     map_option snd (min_by_key fst
       (filter (\<lambda>d. fst d \<le> 3) (map (\<lambda>ty. (levenshtein prefix (type_str ty), ty)) entity_types)))"

definition examples_csv :: string where
  "examples_csv = join_with '', '' (map type_example entity_types)"

section \<open>Parsing\<close>

text \<open>The message and the suggestion of a parse error; its other fields are constant.\<close>

record parse_error =
  pe_message :: string
  pe_fix :: "string option"

definition bad_input :: "string \<Rightarrow> string \<Rightarrow> string option \<Rightarrow> parse_error" where
  "bad_input input message fix' = \<lparr>pe_message = message @ '': `'' @ input @ ''`'', pe_fix = fix'\<rparr>"

definition expected :: "entity_type \<Rightarrow> string option" where
  "expected ty = Some (''Expected `'' @ type_example ty @ ''`'')"

definition shape_error :: "string \<Rightarrow> entity_type \<Rightarrow> parse_error" where
  "shape_error input ty = bad_input input (''invalid '' @ type_str ty @ '' entity-ref shape'') (expected ty)"

definition number_error :: "string \<Rightarrow> entity_type \<Rightarrow> string \<Rightarrow> parse_error" where
  "number_error input ty field =
     bad_input input (''`'' @ field @ ''` must be numeric in '' @ type_str ty) (expected ty)"

definition non_empty :: "string \<Rightarrow> string \<Rightarrow> entity_type \<Rightarrow> string \<Rightarrow> parse_error + string" where
  "non_empty input v ty field =
     (if v = [] then Inl (bad_input input (''empty `'' @ field @ ''` in '' @ type_str ty) (expected ty))
      else Inr v)"

definition missing_field :: "string \<Rightarrow> entity_type \<Rightarrow> string \<Rightarrow> parse_error" where
  "missing_field input ty field =
     bad_input input (''missing `'' @ field @ ''` in '' @ type_str ty) (expected ty)"

fun split_once :: "char \<Rightarrow> string \<Rightarrow> (string \<times> string) option" where
  "split_once d [] = None"
| "split_once d (c # cs) =
     (if c = d then Some ([], cs) else map_option (\<lambda>(a, b). (c # a, b)) (split_once d cs))"

definition split_first ::
  "string \<Rightarrow> string \<Rightarrow> entity_type \<Rightarrow> string \<Rightarrow> parse_error + string \<times> string" where
  "split_first input rest ty field =
     (case split_once CHR '':'' rest of
        None \<Rightarrow> Inl (missing_field input ty field) | Some p \<Rightarrow> Inr p)"

definition split_last ::
  "string \<Rightarrow> string \<Rightarrow> entity_type \<Rightarrow> string \<Rightarrow> parse_error + string \<times> string" where
  "split_last input rest ty field =
     (case rsplit_once '':'' rest of
        None \<Rightarrow> Inl (missing_field input ty field) | Some p \<Rightarrow> Inr p)"

definition parse_num :: "nat \<Rightarrow> string \<Rightarrow> string \<Rightarrow> entity_type \<Rightarrow> string \<Rightarrow> parse_error + nat" where
  "parse_num bound input v ty field =
     (case parse_uint bound v of None \<Rightarrow> Inl (number_error input ty field) | Some n \<Rightarrow> Inr n)"

definition ref_u32 :: "string \<Rightarrow> string \<Rightarrow> entity_type \<Rightarrow> string \<Rightarrow> parse_error + u32" where
  "ref_u32 input v ty field = rbind (parse_num (2 ^ 32) input v ty field) (\<lambda>n. Inr (of_nat n))"

definition ref_u64 :: "string \<Rightarrow> string \<Rightarrow> entity_type \<Rightarrow> string \<Rightarrow> parse_error + u64" where
  "ref_u64 input v ty field = rbind (parse_num (2 ^ 64) input v ty field) (\<lambda>n. Inr (of_nat n))"

definition require_no_colon :: "string \<Rightarrow> string \<Rightarrow> entity_type \<Rightarrow> parse_error + unit" where
  "require_no_colon input rest ty = guard_err (CHR '':'' \<in> set rest) (shape_error input ty)"

definition exact_parts :: "string \<Rightarrow> string \<Rightarrow> entity_type \<Rightarrow> nat \<Rightarrow> parse_error + string list" where
  "exact_parts input rest ty expected_parts =
     (let parts = split_on CHR '':'' rest
      in if length parts = expected_parts then Inr parts else Inl (shape_error input ty))"

definition parse_single ::
  "string \<Rightarrow> string \<Rightarrow> entity_type \<Rightarrow> (string \<Rightarrow> entity_ref) \<Rightarrow> parse_error + entity_ref" where
  "parse_single input rest ty build =
     rbind (require_no_colon input rest ty) (\<lambda>_.
     rbind (non_empty input rest ty ''id'') (\<lambda>i. Inr (build i)))"

definition parse_transcript :: "string \<Rightarrow> string \<Rightarrow> parse_error + entity_ref" where
  "parse_transcript input rest =
     rbind (split_last input rest TranscriptType ''event_idx'') (\<lambda>(head, event_idx).
     rbind (split_last input head TranscriptType ''line_offset'') (\<lambda>(head, line_offset).
     rbind (split_first input head TranscriptType ''session_id'') (\<lambda>(provider, session).
     rbind (non_empty input provider TranscriptType ''provider'') (\<lambda>provider.
     rbind (non_empty input session TranscriptType ''session_id'') (\<lambda>session.
     rbind (ref_u64 input line_offset TranscriptType ''line_offset'') (\<lambda>offset.
     rbind (ref_u32 input event_idx TranscriptType ''event_idx'') (\<lambda>idx.
       Inr (TranscriptRef provider session offset idx))))))))"

definition parse_file :: "string \<Rightarrow> string \<Rightarrow> parse_error + entity_ref" where
  "parse_file input rest = rbind (non_empty input rest FileType ''path'') (\<lambda>path. Inr (FileRef path))"

definition parse_project_file :: "string \<Rightarrow> string \<Rightarrow> parse_error + entity_ref" where
  "parse_project_file input rest =
     rbind (exact_parts input rest ProjectFileType 4) (\<lambda>parts.
     rbind (non_empty input (parts ! 0) ProjectFileType ''project_id'') (\<lambda>project.
     rbind (non_empty input (parts ! 1) ProjectFileType ''rel_path_hash'') (\<lambda>rel.
     rbind (non_empty input (parts ! 2) ProjectFileType ''chunk_hash'') (\<lambda>chunk.
     rbind (ref_u32 input (parts ! 3) ProjectFileType ''occurrence_idx'') (\<lambda>idx.
       Inr (ProjectFileRef project rel chunk idx))))))"

definition parse_project_file_v2 :: "string \<Rightarrow> string \<Rightarrow> parse_error + entity_ref" where
  "parse_project_file_v2 input rest =
     rbind (exact_parts input rest ProjectFileV2Type 5) (\<lambda>parts.
     rbind (non_empty input (parts ! 0) ProjectFileV2Type ''project_id'') (\<lambda>project.
     rbind (non_empty input (parts ! 1) ProjectFileV2Type ''snapshot_id'') (\<lambda>snap.
     rbind (non_empty input (parts ! 2) ProjectFileV2Type ''rel_path_hash'') (\<lambda>rel.
     rbind (non_empty input (parts ! 3) ProjectFileV2Type ''chunk_hash'') (\<lambda>chunk.
     rbind (ref_u32 input (parts ! 4) ProjectFileV2Type ''occurrence_idx'') (\<lambda>idx.
       Inr (ProjectFileV2Ref project snap rel chunk idx)))))))"

definition parse_session :: "string \<Rightarrow> string \<Rightarrow> parse_error + entity_ref" where
  "parse_session input rest =
     rbind (split_first input rest SessionType ''session_id'') (\<lambda>(provider, session).
     rbind (non_empty input provider SessionType ''provider'') (\<lambda>provider.
     rbind (non_empty input session SessionType ''session_id'') (\<lambda>session.
       Inr (SessionRef provider session))))"

definition parse_symbol :: "string \<Rightarrow> string \<Rightarrow> parse_error + entity_ref" where
  "parse_symbol input rest =
     rbind (split_first input rest SymbolType ''qualified_name'') (\<lambda>(project, tail).
     rbind (split_last input tail SymbolType ''defn_hash'') (\<lambda>(name, hash).
     rbind (non_empty input project SymbolType ''project_id'') (\<lambda>project.
     rbind (non_empty input name SymbolType ''qualified_name'') (\<lambda>name.
     rbind (non_empty input hash SymbolType ''defn_hash'') (\<lambda>hash.
       Inr (SymbolRef project name hash))))))"

definition parse_symbol_v2 :: "string \<Rightarrow> string \<Rightarrow> parse_error + entity_ref" where
  "parse_symbol_v2 input rest =
     rbind (split_first input rest SymbolV2Type ''snapshot_id'') (\<lambda>(project, tail).
     rbind (split_first input tail SymbolV2Type ''qualified_name'') (\<lambda>(snap, tail).
     rbind (split_last input tail SymbolV2Type ''defn_hash'') (\<lambda>(name, hash).
     rbind (non_empty input project SymbolV2Type ''project_id'') (\<lambda>project.
     rbind (non_empty input snap SymbolV2Type ''snapshot_id'') (\<lambda>snap.
     rbind (non_empty input name SymbolV2Type ''qualified_name'') (\<lambda>name.
     rbind (non_empty input hash SymbolV2Type ''defn_hash'') (\<lambda>hash.
       Inr (SymbolV2Ref project snap name hash))))))))"

definition parse_commit :: "string \<Rightarrow> string \<Rightarrow> parse_error + entity_ref" where
  "parse_commit input rest =
     rbind (exact_parts input rest CommitType 2) (\<lambda>parts.
     rbind (non_empty input (parts ! 0) CommitType ''repo_id'') (\<lambda>repo.
     rbind (non_empty input (parts ! 1) CommitType ''sha'') (\<lambda>sha.
       Inr (CommitRef repo sha))))"

definition parse_bash_call :: "string \<Rightarrow> string \<Rightarrow> parse_error + entity_ref" where
  "parse_bash_call input rest =
     rbind (split_last input rest BashCallType ''turn'') (\<lambda>(session, turn).
     rbind (non_empty input session BashCallType ''session'') (\<lambda>session.
     rbind (ref_u32 input turn BashCallType ''turn'') (\<lambda>turn.
       Inr (BashCallRef session turn))))"

definition parse_agent :: "string \<Rightarrow> string \<Rightarrow> parse_error + entity_ref" where
  "parse_agent input rest =
     rbind (require_no_colon input rest AgentType) (\<lambda>_.
     rbind (non_empty input rest AgentType ''name@version'') (\<lambda>v.
     case rsplit_once ''@v'' v of
       None \<Rightarrow> Inl (shape_error input AgentType)
     | Some (name, version) \<Rightarrow>
         rbind (non_empty input name AgentType ''name'') (\<lambda>name.
         rbind (ref_u32 input version AgentType ''version'') (\<lambda>version.
           Inr (AgentRef name version)))))"

definition parse_packet :: "string \<Rightarrow> string \<Rightarrow> parse_error + entity_ref" where
  "parse_packet input rest =
     rbind (non_empty input rest PacketType ''selector'') (\<lambda>selector.
       if starts_with selector ''domain:'' \<or> starts_with selector ''packet-''
       then Inr (PacketRef selector) else Inl (shape_error input PacketType))"

definition artifact_kinds :: "string list" where
  "artifact_kinds =
     [''workflow'', ''packet'', ''brofile'', ''agent'', ''atom'', ''team'', ''cron'']"

definition strip_v :: "string \<Rightarrow> string" where
  "strip_v s = (case strip_prefix ''v'' s of Some r \<Rightarrow> r | None \<Rightarrow> s)"

definition parse_artifact :: "string \<Rightarrow> string \<Rightarrow> parse_error + entity_ref" where
  "parse_artifact input rest =
     (case split_once CHR ''/'' rest of
        None \<Rightarrow> Inl (bad_input input ''missing `name` in artifact'' (expected ArtifactType))
      | Some (kind, tail) \<Rightarrow>
          rbind (non_empty input kind ArtifactType ''kind'') (\<lambda>kind.
          rbind (guard_err (kind \<notin> set artifact_kinds) (shape_error input ArtifactType)) (\<lambda>_.
          case rsplit_once ''@'' tail of
            Some (name, version) \<Rightarrow>
              rbind (non_empty input name ArtifactType ''name'') (\<lambda>name.
              rbind (non_empty input (strip_v version) ArtifactType ''version'') (\<lambda>version.
                Inr (ArtifactRef kind name (Some version))))
          | None \<Rightarrow>
              rbind (non_empty input tail ArtifactType ''name'') (\<lambda>name.
                Inr (ArtifactRef kind name None)))))"

definition parse_type :: "entity_type \<Rightarrow> string \<Rightarrow> string \<Rightarrow> parse_error + entity_ref" where
  "parse_type ty input rest =
     (case ty of
        KnowledgeType \<Rightarrow> parse_single input rest ty KnowledgeRef
      | TranscriptType \<Rightarrow> parse_transcript input rest
      | FileType \<Rightarrow> parse_file input rest
      | ProjectFileType \<Rightarrow> parse_project_file input rest
      | ProjectFileV2Type \<Rightarrow> parse_project_file_v2 input rest
      | SessionType \<Rightarrow> parse_session input rest
      | ThreadType \<Rightarrow> parse_single input rest ty ThreadRef
      | NoteType \<Rightarrow> parse_single input rest ty NoteRef
      | SymbolType \<Rightarrow> parse_symbol input rest
      | SymbolV2Type \<Rightarrow> parse_symbol_v2 input rest
      | BrofileType \<Rightarrow> parse_single input rest ty BrofileRef
      | WhiteboardType \<Rightarrow> parse_single input rest ty WhiteboardRef
      | CommitType \<Rightarrow> parse_commit input rest
      | TaskType \<Rightarrow> parse_single input rest ty TaskRef
      | BashCallType \<Rightarrow> parse_bash_call input rest
      | AgentType \<Rightarrow> parse_agent input rest
      | PacketType \<Rightarrow> parse_packet input rest
      | ArtifactType \<Rightarrow> parse_artifact input rest
      | RoadmapItemType \<Rightarrow> parse_single input rest ty RoadmapItemRef)"

definition parse_ref :: "string \<Rightarrow> parse_error + entity_ref" where
  "parse_ref text_in =
     (let input = trim text_in; use_one = Some (''Use one of: '' @ examples_csv)
      in case split_once CHR '':'' input of
           None \<Rightarrow> Inl (bad_input input (''entity ref must start with a known type followed by '' @ [CHR 0x27] @ '':'' @ [CHR 0x27]) use_one)
         | Some (prefix, rest) \<Rightarrow>
             (case from_prefix prefix of
                None \<Rightarrow>
                  Inl (bad_input input (''unknown entity ref type `'' @ prefix @ ''`'')
                    (case closest_type prefix of
                       Some ty \<Rightarrow> Some (''Did you mean `'' @ type_example ty @ ''`?'')
                     | None \<Rightarrow> use_one))
              | Some ty \<Rightarrow> parse_type ty input rest))"

end
