(* ===== verification/Entity_Ref_Guarantees.thy ===== *)
theory Entity_Ref_Guarantees
  imports Entity_Ref
begin

text \<open>
  What references guarantee: which of them survive rendering and parsing, which parsed ones can be
  rendered again, and that the suggestion for a misspelt type is a nearest one, the table of the code
  computing the least number of edits.
\<close>

section \<open>Splitting\<close>

lemma split_once_Some: "split_once d s = Some (a, b) \<longleftrightarrow> s = a @ d # b \<and> d \<notin> set a"
proof (induction s arbitrary: a)
  case (Cons c s)
  then show ?case by (cases a) auto
qed simp

lemma split_once_None: "split_once d s = None \<longleftrightarrow> d \<notin> set s"
  by (induction s) auto

lemma rsplit_char_None: "rsplit_once [d] s = None \<longleftrightarrow> d \<notin> set s"
proof (induction s)
  case (Cons c s)
  then show ?case by (cases "rsplit_once [d] s") (auto split: option.splits)
qed simp

lemma rsplit_char_Some: "rsplit_once [d] s = Some (a, b) \<longleftrightarrow> s = a @ d # b \<and> d \<notin> set b"
proof
  assume *: "rsplit_once [d] s = Some (a, b)"
  then show "s = a @ d # b \<and> d \<notin> set b"
  proof (induction s arbitrary: a)
    case (Cons c s)
    then show ?case
      using rsplit_char_None [of d s] by (cases "rsplit_once [d] s") (auto split: if_splits)
  qed simp
next
  assume "s = a @ d # b \<and> d \<notin> set b"
  then show "rsplit_once [d] s = Some (a, b)" using rsplit_once_at [of d "[]" b a] by simp
qed

lemma split_on_step: "d \<notin> set a \<Longrightarrow> split_on d (a @ d # b) = a # split_on d b"
  by (induction a) auto

lemma split_on_at: "d \<notin> set a \<Longrightarrow> split_on d (a @ b) = (a @ hd (split_on d b)) # tl (split_on d b)"
proof (induction a)
  case Nil
  then show ?case using split_on_ne [of d b] by (cases "split_on d b") auto
qed auto

lemma parts_join: "split_on d s = ps \<Longrightarrow> s = join_with [d] ps \<and> (\<forall>p\<in>set ps. d \<notin> set p)"
  using join_split [of d s] split_on_no_sep [of _ d s] by metis

definition plain :: "string \<Rightarrow> bool" where
  "plain s \<longleftrightarrow> s \<noteq> [] \<and> CHR '':'' \<notin> set s"

section \<open>Parsers by their grammar\<close>

lemma non_empty_iff [simp]: "non_empty input v ty f = Inr w \<longleftrightarrow> v = w \<and> w \<noteq> []"
  by (auto simp: non_empty_def)

lemma split_first_iff [simp]: "split_first input s ty f = Inr (a, b) \<longleftrightarrow> s = a @ CHR '':'' # b \<and> CHR '':'' \<notin> set a"
  unfolding split_first_def split_once_Some [symmetric] by (simp split: option.splits)

lemma split_last_iff [simp]: "split_last input s ty f = Inr (a, b) \<longleftrightarrow> s = a @ CHR '':'' # b \<and> CHR '':'' \<notin> set b"
  unfolding split_last_def rsplit_char_Some [symmetric] by (simp split: option.splits)

lemma ref_u32_iff [simp]: "ref_u32 input v ty f = Inr w \<longleftrightarrow> (\<exists>n. parse_uint (2 ^ 32) v = Some n \<and> w = of_nat n)"
  by (auto simp: ref_u32_def parse_num_def result_simps split: option.splits)

lemma ref_u64_iff [simp]: "ref_u64 input v ty f = Inr w \<longleftrightarrow> (\<exists>n. parse_uint (2 ^ 64) v = Some n \<and> w = of_nat n)"
  by (auto simp: ref_u64_def parse_num_def result_simps split: option.splits)

lemma non_empty_at [simp]: "w \<noteq> [] \<Longrightarrow> non_empty input w ty f = Inr w"
  by simp

lemma num_at [simp]:
  "parse_uint (2 ^ 32) v = Some n \<Longrightarrow> ref_u32 input v ty f = Inr (of_nat n)"
  "parse_uint (2 ^ 64) v = Some n \<Longrightarrow> ref_u64 input v ty f = Inr (of_nat n)"
  by simp_all

lemma parse_single_iff: "parse_single input rest ty build = Inr r \<longleftrightarrow> plain rest \<and> r = build rest"
  by (auto simp: parse_single_def require_no_colon_def result_simps plain_def)

lemma set_colon [simp]: "CHR '':'' \<in> set (colon a b)"
  by (simp add: colon_def)

lemma first_at [simp]: "CHR '':'' \<notin> set a \<Longrightarrow> split_first i (colon a b) ty f = Inr (a, b)"
  by (simp add: colon_def)

lemma last_at:
  assumes "CHR '':'' \<notin> set v"
  shows "split_last i (colon a v) ty f = Inr (a, v)"
    "split_last i (colon a (colon b v)) ty f = Inr (colon a b, v)"
    "split_last i (colon a (colon b (colon c v))) ty f = Inr (colon a (colon b c), v)"
  using assms by (simp_all add: colon_def)

lemma parse_transcript_iff:
  "parse_transcript input rest = Inr r \<longleftrightarrow>
     (\<exists>p s vo vi n m. rest = colon p (colon s (colon vo vi)) \<and> plain p \<and> s \<noteq> [] \<and>
        CHR '':'' \<notin> set vo \<and> CHR '':'' \<notin> set vi \<and>
        parse_uint (2 ^ 64) vo = Some n \<and> parse_uint (2 ^ 32) vi = Some m \<and>
        r = TranscriptRef p s (of_nat n) (of_nat m))" (is "?l \<longleftrightarrow> ?r")
proof
  assume ?l
  then obtain head vi head2 vo p s n m where
    "rest = head @ CHR '':'' # vi" "head = head2 @ CHR '':'' # vo" "head2 = p @ CHR '':'' # s"
    and *: "CHR '':'' \<notin> set vi" "CHR '':'' \<notin> set vo" "CHR '':'' \<notin> set p" "p \<noteq> []" "s \<noteq> []"
      "parse_uint (2 ^ 64) vo = Some n" "parse_uint (2 ^ 32) vi = Some m"
      "r = TranscriptRef p s (of_nat n) (of_nat m)"
    unfolding parse_transcript_def rbind_eq_Inr split_paired_Ex case_prod_conv split_last_iff split_first_iff
      non_empty_iff ref_u32_iff ref_u64_iff sum.inject by blast
  then have "rest = colon p (colon s (colon vo vi))" "plain p" by (simp_all add: colon_def plain_def)
  then show ?r using * by blast
next
  assume ?r
  then show ?l by (auto simp: parse_transcript_def last_at plain_def)
qed

lemma parse_session_iff:
  "parse_session input rest = Inr r \<longleftrightarrow>
     (\<exists>p s. rest = colon p s \<and> plain p \<and> s \<noteq> [] \<and> r = SessionRef p s)"
  unfolding parse_session_def colon_def plain_def by (auto simp: result_simps)

lemma parse_symbol_iff:
  "parse_symbol input rest = Inr r \<longleftrightarrow>
     (\<exists>p n h. rest = colon p (colon n h) \<and> plain p \<and> n \<noteq> [] \<and> plain h \<and> r = SymbolRef p n h)" (is "?l \<longleftrightarrow> ?r")
proof
  assume ?l
  then obtain p tail n h where "rest = p @ CHR '':'' # tail" "tail = n @ CHR '':'' # h" 
    and *: "CHR '':'' \<notin> set p" "CHR '':'' \<notin> set h" "p \<noteq> []" "n \<noteq> []" "h \<noteq> []" "r = SymbolRef p n h"
    unfolding parse_symbol_def rbind_eq_Inr split_paired_Ex case_prod_conv split_last_iff split_first_iff
      non_empty_iff sum.inject by blast
  then have "rest = colon p (colon n h)" "plain p" "plain h" by (simp_all add: colon_def plain_def)
  then show ?r using * by blast
next
  assume ?r
  then show ?l by (auto simp: parse_symbol_def last_at plain_def)
qed

lemma parse_symbol_v2_iff:
  "parse_symbol_v2 input rest = Inr r \<longleftrightarrow>
     (\<exists>p s n h. rest = colon p (colon s (colon n h)) \<and> plain p \<and> plain s \<and> n \<noteq> [] \<and> plain h \<and>
        r = SymbolV2Ref p s n h)" (is "?l \<longleftrightarrow> ?r")
proof
  assume ?l
  then obtain p t1 s t2 n h where "rest = p @ CHR '':'' # t1" "t1 = s @ CHR '':'' # t2" "t2 = n @ CHR '':'' # h"
    and *: "CHR '':'' \<notin> set p" "CHR '':'' \<notin> set s" "CHR '':'' \<notin> set h" "p \<noteq> []" "s \<noteq> []" "n \<noteq> []" "h \<noteq> []"
      "r = SymbolV2Ref p s n h"
    unfolding parse_symbol_v2_def rbind_eq_Inr split_paired_Ex case_prod_conv split_last_iff split_first_iff
      non_empty_iff sum.inject by blast
  then have "rest = colon p (colon s (colon n h))" "plain p" "plain s" "plain h" by (simp_all add: colon_def plain_def)
  then show ?r using * by blast
next
  assume ?r
  then show ?l by (auto simp: parse_symbol_v2_def last_at plain_def)
qed

lemma parse_bash_call_iff:
  "parse_bash_call input rest = Inr r \<longleftrightarrow>
     (\<exists>s v n. rest = colon s v \<and> s \<noteq> [] \<and> CHR '':'' \<notin> set v \<and> parse_uint (2 ^ 32) v = Some n \<and>
        r = BashCallRef s (of_nat n))"
  unfolding parse_bash_call_def colon_def by (auto simp: result_simps)

lemma exact_parts_iff:
  "exact_parts input rest ty n = Inr ps \<longleftrightarrow> split_on CHR '':'' rest = ps \<and> length ps = n"
  by (auto simp: exact_parts_def Let_def)

lemma split_2: "split_on d s = [a, b] \<longleftrightarrow> s = a @ d # b \<and> d \<notin> set a \<and> d \<notin> set b"
  using parts_join [of d s "[a, b]"] by (auto simp: split_on_step split_on_id)

lemma split_4: "split_on d s = [a, b, c, e] \<longleftrightarrow>
    s = a @ d # b @ d # c @ d # e \<and> d \<notin> set a \<and> d \<notin> set b \<and> d \<notin> set c \<and> d \<notin> set e"
  using parts_join [of d s "[a, b, c, e]"] by (auto simp: split_on_step split_on_id)

lemma split_5: "split_on d s = [a, b, c, e, f] \<longleftrightarrow>
    s = a @ d # b @ d # c @ d # e @ d # f \<and> d \<notin> set a \<and> d \<notin> set b \<and> d \<notin> set c \<and> d \<notin> set e \<and> d \<notin> set f"
  using parts_join [of d s "[a, b, c, e, f]"] by (auto simp: split_on_step split_on_id)

lemma length_2: "length ps = 2 \<longleftrightarrow> (\<exists>a b. ps = [a, b])"
  by (auto simp: numeral_eq_Suc length_Suc_conv)

lemma length_4: "length ps = 4 \<longleftrightarrow> (\<exists>a b c e. ps = [a, b, c, e])"
  by (auto simp: numeral_eq_Suc length_Suc_conv)

lemma length_5: "length ps = 5 \<longleftrightarrow> (\<exists>a b c e f. ps = [a, b, c, e, f])"
  by (auto simp: numeral_eq_Suc length_Suc_conv)

lemma parse_commit_iff:
  "parse_commit input rest = Inr r \<longleftrightarrow> (\<exists>a b. rest = colon a b \<and> plain a \<and> plain b \<and> r = CommitRef a b)"
proof -
  have "parse_commit input rest = Inr r \<longleftrightarrow>
      (\<exists>a b. split_on CHR '':'' rest = [a, b] \<and> a \<noteq> [] \<and> b \<noteq> [] \<and> r = CommitRef a b)"
    unfolding parse_commit_def by (auto simp: result_simps exact_parts_iff length_2)
  then show ?thesis unfolding split_2 colon_def plain_def by auto
qed

lemma parse_project_file_iff:
  "parse_project_file input rest = Inr r \<longleftrightarrow>
     (\<exists>a b c v n. rest = colon a (colon b (colon c v)) \<and> plain a \<and> plain b \<and> plain c \<and> CHR '':'' \<notin> set v \<and>
        parse_uint (2 ^ 32) v = Some n \<and> r = ProjectFileRef a b c (of_nat n))" (is "?l \<longleftrightarrow> ?r")
proof
  assume ?l
  then obtain ps n where ps: "split_on CHR '':'' rest = ps" "length ps = 4"
    and *: "ps ! 0 \<noteq> []" "ps ! 1 \<noteq> []" "ps ! 2 \<noteq> []" "parse_uint (2 ^ 32) (ps ! 3) = Some n" "r = ProjectFileRef (ps ! 0) (ps ! 1) (ps ! 2) (of_nat n)"
    unfolding parse_project_file_def by (auto simp only: rbind_eq_Inr exact_parts_iff non_empty_iff ref_u32_iff sum.inject)
  obtain a b c v where p: "ps = [a, b, c, v]" using ps(2) by (auto simp: length_4)
  then have "rest = colon a (colon b (colon c v))" "plain a \<and> plain b \<and> plain c" "CHR '':'' \<notin> set v"
      "parse_uint (2 ^ 32) v = Some n" "r = ProjectFileRef a b c (of_nat n)"
    using ps(1) * by (simp_all add: split_4 colon_def plain_def)
  then show ?r by blast
next
  assume ?r
  then obtain a b c v n where h: "rest = colon a (colon b (colon c v))" "plain a \<and> plain b \<and> plain c" "CHR '':'' \<notin> set v" "parse_uint (2 ^ 32) v = Some n"
      "r = ProjectFileRef a b c (of_nat n)" by blast
  then have "split_on CHR '':'' rest = [a, b, c, v]" by (simp add: split_4 colon_def plain_def)
  then show ?l using h unfolding parse_project_file_def exact_parts_def by (simp add: Let_def plain_def)
qed

lemma parse_project_file_v2_iff:
  "parse_project_file_v2 input rest = Inr r \<longleftrightarrow>
     (\<exists>a b c e v n. rest = colon a (colon b (colon c (colon e v))) \<and> plain a \<and> plain b \<and> plain c \<and> plain e \<and> CHR '':'' \<notin> set v \<and>
        parse_uint (2 ^ 32) v = Some n \<and> r = ProjectFileV2Ref a b c e (of_nat n))" (is "?l \<longleftrightarrow> ?r")
proof
  assume ?l
  then obtain ps n where ps: "split_on CHR '':'' rest = ps" "length ps = 5"
    and *: "ps ! 0 \<noteq> []" "ps ! 1 \<noteq> []" "ps ! 2 \<noteq> []" "ps ! 3 \<noteq> []" "parse_uint (2 ^ 32) (ps ! 4) = Some n" "r = ProjectFileV2Ref (ps ! 0) (ps ! 1) (ps ! 2) (ps ! 3) (of_nat n)"
    unfolding parse_project_file_v2_def by (auto simp only: rbind_eq_Inr exact_parts_iff non_empty_iff ref_u32_iff sum.inject)
  obtain a b c e v where p: "ps = [a, b, c, e, v]" using ps(2) by (auto simp: length_5)
  then have "rest = colon a (colon b (colon c (colon e v)))" "plain a \<and> plain b \<and> plain c \<and> plain e" "CHR '':'' \<notin> set v"
      "parse_uint (2 ^ 32) v = Some n" "r = ProjectFileV2Ref a b c e (of_nat n)"
    using ps(1) * by (simp_all add: split_5 colon_def plain_def)
  then show ?r by blast
next
  assume ?r
  then obtain a b c e v n where h: "rest = colon a (colon b (colon c (colon e v)))" "plain a \<and> plain b \<and> plain c \<and> plain e" "CHR '':'' \<notin> set v" "parse_uint (2 ^ 32) v = Some n"
      "r = ProjectFileV2Ref a b c e (of_nat n)" by blast
  then have "split_on CHR '':'' rest = [a, b, c, e, v]" by (simp add: split_5 colon_def plain_def)
  then show ?l using h unfolding parse_project_file_v2_def exact_parts_def by (simp add: Let_def plain_def)
qed

lemma parse_agent_iff:
  "parse_agent input rest = Inr r \<longleftrightarrow>
     (\<exists>name v n. CHR '':'' \<notin> set rest \<and> rsplit_once ''@v'' rest = Some (name, v) \<and> name \<noteq> [] \<and>
        parse_uint (2 ^ 32) v = Some n \<and> r = AgentRef name (of_nat n))"
  unfolding parse_agent_def
  by (cases "rsplit_once ''@v'' rest") (auto simp: require_no_colon_def result_simps)

lemma parse_packet_iff:
  "parse_packet input rest = Inr r \<longleftrightarrow>
     (starts_with rest ''domain:'' \<or> starts_with rest ''packet-'') \<and> r = PacketRef rest"
  unfolding parse_packet_def by (auto simp: result_simps starts_with_iff split: if_splits)

lemma parse_file_iff: "parse_file input rest = Inr r \<longleftrightarrow> rest \<noteq> [] \<and> r = FileRef rest"
  unfolding parse_file_def by (auto simp: result_simps)

lemma no_slash_kind: "kind \<in> set artifact_kinds \<Longrightarrow> CHR ''/'' \<notin> set kind \<and> kind \<noteq> []"
  by (auto simp: artifact_kinds_def)

lemma parse_artifact_iff:
  "parse_artifact input rest = Inr r \<longleftrightarrow>
     (\<exists>kind name. kind \<in> set artifact_kinds \<and> name \<noteq> [] \<and>
        (rest = kind @ ''/'' @ name \<and> CHR ''@'' \<notin> set name \<and> r = ArtifactRef kind name None \<or>
         (\<exists>v. rest = kind @ ''/'' @ name @ ''@'' @ v \<and> CHR ''@'' \<notin> set v \<and> strip_v v \<noteq> [] \<and>
              r = ArtifactRef kind name (Some (strip_v v)))))"
proof (cases "split_once CHR ''/'' rest")
  case None
  then have "CHR ''/'' \<notin> set rest" by (simp add: split_once_None)
  then show ?thesis using None by (auto simp: parse_artifact_def)
next
  case (Some kt)
  obtain kind tail where kt: "kt = (kind, tail)" by force
  then have rest: "rest = kind @ CHR ''/'' # tail" "CHR ''/'' \<notin> set kind" using Some by (simp_all add: split_once_Some)
  have same: "k @ CHR ''/'' # t = kind @ CHR ''/'' # tail \<longleftrightarrow> k = kind \<and> t = tail" if "k \<in> set artifact_kinds" for k t
    using no_slash_kind [OF that] rest(2) by (auto simp: append_eq_append_conv2 Cons_eq_append_conv append_eq_Cons_conv)
  have "parse_artifact input rest = Inr r \<longleftrightarrow> kind \<in> set artifact_kinds \<and>
      (CHR ''@'' \<notin> set tail \<and> tail \<noteq> [] \<and> r = ArtifactRef kind tail None \<or>
       (\<exists>name v. tail = name @ CHR ''@'' # v \<and> CHR ''@'' \<notin> set v \<and> name \<noteq> [] \<and> strip_v v \<noteq> [] \<and>
          r = ArtifactRef kind name (Some (strip_v v))))"
  proof (cases "rsplit_once ''@'' tail")
    case None
    then have "CHR ''@'' \<notin> set tail" by (simp add: rsplit_char_None)
    then show ?thesis
      using Some None kt no_slash_kind [of kind] by (auto simp: parse_artifact_def result_simps)
  next
    case (Some nv)
    obtain name v where nv: "nv = (name, v)" by force
    then have t: "tail = name @ CHR ''@'' # v" "CHR ''@'' \<notin> set v" using Some by (simp_all add: rsplit_char_Some)
    have u: "tail = n @ CHR ''@'' # w \<and> CHR ''@'' \<notin> set w \<longleftrightarrow> n = name \<and> w = v" for n w
      using t by (auto simp: append_eq_append_conv2 Cons_eq_append_conv append_eq_Cons_conv)
    have "parse_artifact input rest = Inr r \<longleftrightarrow> kind \<in> set artifact_kinds \<and> name \<noteq> [] \<and> strip_v v \<noteq> [] \<and>
        r = ArtifactRef kind name (Some (strip_v v))"
      using \<open>split_once CHR ''/'' rest = Some kt\<close> Some kt nv no_slash_kind [of kind]
      by (auto simp: parse_artifact_def result_simps)
    moreover have "(\<exists>n w. tail = n @ CHR ''@'' # w \<and> CHR ''@'' \<notin> set w \<and> n \<noteq> [] \<and> strip_v w \<noteq> [] \<and>
          r = ArtifactRef kind n (Some (strip_v w))) \<longleftrightarrow>
        name \<noteq> [] \<and> strip_v v \<noteq> [] \<and> r = ArtifactRef kind name (Some (strip_v v))" using u by metis
    moreover have "CHR ''@'' \<in> set tail" using t(1) by simp
    ultimately show ?thesis by blast
  qed
  then show ?thesis unfolding rest(1) using same by fastforce
qed

section \<open>References round trip\<close>

text \<open>The references that parsing can give back.\<close>

fun ref_ok :: "entity_ref \<Rightarrow> bool" where
  "ref_ok (KnowledgeRef i) = plain i"
| "ref_ok (TranscriptRef p s _ _) = (plain p \<and> s \<noteq> [])"
| "ref_ok (FileRef p) = (p \<noteq> [])"
| "ref_ok (ProjectFileRef a b c _) = (plain a \<and> plain b \<and> plain c)"
| "ref_ok (ProjectFileV2Ref a b c e _) = (plain a \<and> plain b \<and> plain c \<and> plain e)"
| "ref_ok (SessionRef p s) = (plain p \<and> s \<noteq> [])"
| "ref_ok (ThreadRef i) = plain i"
| "ref_ok (NoteRef i) = plain i"
| "ref_ok (SymbolRef p n h) = (plain p \<and> n \<noteq> [] \<and> plain h)"
| "ref_ok (SymbolV2Ref p s n h) = (plain p \<and> plain s \<and> n \<noteq> [] \<and> plain h)"
| "ref_ok (BrofileRef i) = plain i"
| "ref_ok (WhiteboardRef i) = plain i"
| "ref_ok (CommitRef a b) = (plain a \<and> plain b)"
| "ref_ok (TaskRef i) = plain i"
| "ref_ok (BashCallRef s _) = (s \<noteq> [])"
| "ref_ok (AgentRef n v) = (plain n \<and> v \<noteq> 0)"
| "ref_ok (PacketRef s) = (starts_with s ''domain:'' \<or> starts_with s ''packet-'')"
| "ref_ok (ArtifactRef k n v) =
     (k \<in> set artifact_kinds \<and> n \<noteq> [] \<and>
      (case v of None \<Rightarrow> CHR ''@'' \<notin> set n
       | Some w \<Rightarrow> CHR ''@'' \<notin> set w \<and> w \<noteq> [] \<and> hd w \<noteq> CHR ''v''))"
| "ref_ok (RoadmapItemRef i) = plain i"

lemma from_prefix_str: "from_prefix (type_str t) = Some t"
  by (induction t; code_simp)

lemma no_colon_type: "CHR '':'' \<notin> set (type_str t)"
  by (induction t; code_simp)

lemma parse_at_type:
  assumes "trim (colon (type_str t) rest) = colon (type_str t) rest"
  shows "parse_ref (colon (type_str t) rest) = parse_type t (colon (type_str t) rest) rest"
proof -
  have "split_once CHR '':'' (colon (type_str t) rest) = Some (type_str t, rest)"
    using no_colon_type [of t] by (simp add: split_once_Some colon_def)
  then show ?thesis using assms by (simp add: parse_ref_def Let_def from_prefix_str)
qed

lemma digit_colon: "CHR '':'' \<notin> set (show_nat n)" "CHR ''@'' \<notin> set (show_nat n)"
  using show_nat_digits [of _ n] by force+

lemma parse_shown [simp]:
  "parse_uint 4294967296 (show_nat (unat (w :: u32))) = Some (unat w)"
  "parse_uint 18446744073709551616 (show_nat (unat (x :: u64))) = Some (unat x)"
  using parse_uint_show_nat [of "unat w" "2 ^ 32"] parse_uint_show_nat [of "unat x" "2 ^ 64"]
    unsigned_less [of w] unsigned_less [of x] by simp_all

lemma rsplit_agent: "rsplit_once ''@v'' (name @ ''@v'' @ show_nat n) = Some (name, show_nat n)"
  using rsplit_once_at [of "CHR ''@''" "''v''" "show_nat n" name] digit_colon(2) by simp

lemma strip_v_id: "w \<noteq> [] \<Longrightarrow> hd w \<noteq> CHR ''v'' \<Longrightarrow> strip_v w = w"
  by (cases w) (simp_all add: strip_v_def)

text \<open>The body a reference is rendered with, behind the name of its type.\<close>

fun body :: "entity_ref \<Rightarrow> string" where
  "body (KnowledgeRef i) = i"
| "body (TranscriptRef p s o' i) = colon p (colon s (colon (show_nat (unat o')) (show_nat (unat i))))"
| "body (FileRef p) = p"
| "body (ProjectFileRef a b c n) = colon a (colon b (colon c (show_nat (unat n))))"
| "body (ProjectFileV2Ref a b c e n) = colon a (colon b (colon c (colon e (show_nat (unat n)))))"
| "body (SessionRef p s) = colon p s"
| "body (ThreadRef i) = i"
| "body (NoteRef i) = i"
| "body (SymbolRef p n h) = colon p (colon n h)"
| "body (SymbolV2Ref p s n h) = colon p (colon s (colon n h))"
| "body (BrofileRef i) = i"
| "body (WhiteboardRef i) = i"
| "body (CommitRef a b) = colon a b"
| "body (TaskRef i) = i"
| "body (BashCallRef s n) = colon s (show_nat (unat n))"
| "body (AgentRef n v) = n @ ''@v'' @ show_nat (unat v)"
| "body (PacketRef s) = s"
| "body (ArtifactRef k n v) = k @ ''/'' @ n @ (case v of None \<Rightarrow> [] | Some w \<Rightarrow> ''@'' @ w)"
| "body (RoadmapItemRef i) = i"

lemma render_body: "try_render r = Inr s \<Longrightarrow> s = colon (type_str (entity_type_of r)) (body r)"
  by (cases r) (auto simp: result_simps type_str_def validate_provider_def split: option.splits if_splits)

lemmas parser_iffs =
  parse_single_iff parse_transcript_iff parse_session_iff parse_symbol_iff parse_symbol_v2_iff
  parse_bash_call_iff parse_commit_iff parse_project_file_iff parse_project_file_v2_iff
  parse_agent_iff parse_packet_iff parse_file_iff parse_artifact_iff

lemma parse_body:
  assumes "ref_ok r"
  shows "parse_type (entity_type_of r) input (body r) = Inr r"
proof (cases r)
  case (TranscriptRef p s x i)
  then have "body r = colon p (colon s (colon (show_nat (unat x)) (show_nat (unat i))))" "plain p" "s \<noteq> []"
    using assms by simp_all
  then show ?thesis
    using TranscriptRef digit_colon(1) by (simp add: parse_type_def parse_transcript_def last_at plain_def)
next
  case (ArtifactRef k n v)
  show ?thesis
  proof (cases v)
    case (Some w)
    have "strip_v w = w" "k \<in> set artifact_kinds" "n \<noteq> []" "w \<noteq> []" "CHR ''@'' \<notin> set w"
      using assms ArtifactRef Some strip_v_id [of w] by (auto simp del: strip_v_id)
    then have "parse_artifact input (k @ ''/'' @ n @ ''@'' @ w) = Inr (ArtifactRef k n (Some w))"
      unfolding parse_artifact_iff by (intro exI [of _ k] exI [of _ n] conjI disjI2 exI [of _ w]) simp_all
    then show ?thesis using ArtifactRef Some by (simp add: parse_type_def)
  qed (use assms ArtifactRef in \<open>auto simp: parse_type_def parse_artifact_iff\<close>)
next
  case (ProjectFileRef a b c n)
  then have "parse_project_file input (colon a (colon b (colon c (show_nat (unat n))))) = Inr (ProjectFileRef a b c n)"
    using assms digit_colon(1) unfolding parse_project_file_iff
    by (intro exI [of _ a] exI [of _ b] exI [of _ c] exI [of _ "show_nat (unat n)"]) simp
  then show ?thesis using ProjectFileRef by (simp add: parse_type_def)
next
  case (ProjectFileV2Ref a b c e n)
  then have "parse_project_file_v2 input (colon a (colon b (colon c (colon e (show_nat (unat n)))))) = Inr (ProjectFileV2Ref a b c e n)"
    using assms digit_colon(1) unfolding parse_project_file_v2_iff
    by (intro exI [of _ a] exI [of _ b] exI [of _ c] exI [of _ e] exI [of _ "show_nat (unat n)"]) simp
  then show ?thesis using ProjectFileV2Ref by (simp add: parse_type_def)
next
  case (AgentRef n v)
  then show ?thesis
    using assms digit_colon(1) rsplit_agent [of n "unat v"] by (auto simp: parse_type_def parse_agent_iff plain_def)
next
  case (BashCallRef a n)
  then have "parse_bash_call input (colon a (show_nat (unat n))) = Inr (BashCallRef a n)"
    using assms digit_colon(1) unfolding parse_bash_call_iff
    by (intro exI [of _ a] exI [of _ "show_nat (unat n)"]) simp
  then show ?thesis using BashCallRef by (simp add: parse_type_def)
qed (use assms digit_colon in \<open>auto simp: parse_type_def parser_iffs\<close>)

lemma parsed_shape:
  assumes "parse_type t input rest = Inr r"
  shows "ref_ok r \<or> (\<exists>n. plain n \<and> r = AgentRef n 0) \<or>
    (\<exists>k n w. CHR ''@'' \<notin> set w \<and> r = ArtifactRef k n (Some (CHR ''v'' # w)))"
proof (cases t)
  case ArtifactType
  then have "parse_artifact input rest = Inr r" using assms by (simp add: parse_type_def)
  then consider k n where "r = ArtifactRef k n None" "ref_ok r"
    | k n v where "r = ArtifactRef k n (Some (strip_v v))" "k \<in> set artifact_kinds" "n \<noteq> []"
        "CHR ''@'' \<notin> set v" "strip_v v \<noteq> []"
    unfolding parse_artifact_iff by fastforce
  then show ?thesis
  proof cases
    case (2 k n v)
    have "set (strip_v v) \<subseteq> set v" by (auto simp: strip_v_def strip_prefix_Some split: option.splits)
    then have at: "CHR ''@'' \<notin> set (strip_v v)" using 2(4) by blast
    obtain c w where v: "strip_v v = c # w" using 2(5) by (cases "strip_v v") auto
    show ?thesis using 2 at v by (cases "c = CHR ''v''") auto
  qed simp
next
  case AgentType
  then have "parse_agent input rest = Inr r" using assms by (simp add: parse_type_def)
  then obtain name n v where a: "CHR '':'' \<notin> set rest" "rsplit_once ''@v'' rest = Some (name, v)" "name \<noteq> []"
      "r = AgentRef name (of_nat n)" unfolding parse_agent_iff by blast
  have "plain name" using rsplit_onceD [OF a(2)] a(1,3) by (auto simp: plain_def)
  then show ?thesis using a(4) by auto
qed (use assms in \<open>auto simp: parse_type_def parser_iffs\<close>)

lemma parse_refD: "parse_ref s = Inr r \<Longrightarrow> \<exists>t input rest. parse_type t input rest = Inr r"
  by (auto simp: parse_ref_def Let_def split: option.splits prod.splits)

text \<open>Property C22. A reference that can be rendered, to a text without white space around it, is read back from it
  exactly when its fields are as the grammar wants them: ids without colons where the grammar has no
  room for them, a known kind, a version that does not start with a v.\<close>

theorem entity_ref_roundtrip:
  assumes "try_render r = Inr s" "trim s = s"
  shows "parse_ref s = Inr r \<longleftrightarrow> ref_ok r"
proof
  have s: "s = colon (type_str (entity_type_of r)) (body r)" using render_body [OF assms(1)] .
  have p: "parse_ref s = parse_type (entity_type_of r) s (body r)"
    using parse_at_type [of "entity_type_of r" "body r"] assms(2) unfolding s [symmetric] by blast
  show "ref_ok r \<Longrightarrow> parse_ref s = Inr r" using parse_body p by simp
  assume "parse_ref s = Inr r"
  then have t: "parse_type (entity_type_of r) s (body r) = Inr r" using p by simp
  consider "ref_ok r" | n where "r = AgentRef n 0" | k n w where "CHR ''@'' \<notin> set w" "r = ArtifactRef k n (Some (CHR ''v'' # w))"
    using parsed_shape [OF t] by blast
  then show "ref_ok r"
  proof cases
    case 2
    then show ?thesis using assms(1) by simp
  next
    case 3
    then have "parse_artifact s (k @ ''/'' @ n @ ''@'' @ CHR ''v'' # w) = Inr r" using t by (simp add: parse_type_def)
    then obtain v where v: "k @ ''/'' @ n @ ''@'' @ CHR ''v'' # w = k @ ''/'' @ n @ ''@'' @ v" "strip_v v = CHR ''v'' # w"
      unfolding parse_artifact_iff 3(2) by auto
    then have "v = CHR ''v'' # w" by (simp only: same_append_eq)
    then show ?thesis using v(2) by (simp add: strip_v_def)
  qed
qed

theorem entity_ref_roundtrip_witness:
  "parse_ref ''commit:r:abc'' = Inr (CommitRef ''r'' ''abc'')"
proof -
  have r: "try_render (CommitRef ''r'' ''abc'') = Inr ''commit:r:abc''" by code_simp
  have t: "trim ''commit:r:abc'' = ''commit:r:abc''" by code_simp
  have "ref_ok (CommitRef ''r'' ''abc'')" by (simp add: plain_def)
  then show ?thesis using entity_ref_roundtrip [OF r t] by blast
qed

text \<open>What parses can be rendered again, with one exception: an agent of version zero is accepted by the
  parser, and rendering it panics.\<close>

theorem parsed_refs_render:
  assumes "parse_ref s = Inr r"
  shows "render_ref r = None \<longleftrightarrow> (\<exists>n. r = AgentRef n 0)"
proof -
  obtain t input rest where "parse_type t input rest = Inr r" using parse_refD [OF assms] by blast
  from parsed_shape [OF this] show ?thesis
    by (cases r) (auto simp: render_ref_def plain_def validate_provider_def result_simps split: sum.splits option.splits)
qed

theorem parsed_refs_render_witness: "parse_ref ''agent:x@v0'' = Inr (AgentRef ''x'' 0) \<and> render_ref (AgentRef ''x'' 0) = None"
proof -
  have z: "show_nat 0 = ''0''" by code_simp
  have "rsplit_once ''@v'' ''x@v0'' = Some (''x'', ''0'')" using rsplit_agent [of "''x''" 0] unfolding z by simp
  moreover have "parse_uint (2 ^ 32) ''0'' = Some 0" using parse_uint_show_nat [of 0 "2 ^ 32"] unfolding z by simp
  ultimately have t: "parse_type AgentType i ''x@v0'' = Inr (AgentRef ''x'' 0)" for i
    unfolding parse_type_def entity_type.case parse_agent_iff
    by (intro exI [of _ "''x''"] exI [of _ "''0''"] exI [of _ 0]) simp
  have "trim ''agent:x@v0'' = ''agent:x@v0''" using trim_id [of "CHR ''0''" "CHR ''a''" "''gent:x@v''"] by simp
  then have p: "parse_ref ''agent:x@v0'' = Inr (AgentRef ''x'' 0)"
    using t parse_at_type [of AgentType "''x@v0''"] by (simp add: colon_def type_str_def)
  show ?thesis using parsed_refs_render [OF p] p by blast
qed

section \<open>Suggestions\<close>

inductive edit1 :: "'a list \<Rightarrow> 'a list \<Rightarrow> bool" where
  insertion: "edit1 (u @ v) (u @ x # v)"
| deletion: "edit1 (u @ x # v) (u @ v)"
| substitution: "edit1 (u @ x # v) (u @ y # v)"

fun edist :: "'a list \<Rightarrow> 'a list \<Rightarrow> nat" where
  "edist [] b = length b"
| "edist a [] = length a"
| "edist (x # a) (y # b) =
     min (min (edist a b + (if x \<noteq> y then 1 else 0)) (edist (x # a) b + 1)) (edist a (y # b) + 1)"

lemma edist_nil [simp]: "edist a [] = length a"
  by (cases a) simp_all

lemma edist_right: "edist a (y # b) \<le> edist a b + 1"
  by (cases a) simp_all

lemma edist_left: "edist (x # a) b \<le> edist a b + 1"
  by (cases b) simp_all

lemma edist_drop: "edist a c \<le> edist (x # a) c + 1"
proof (induction c)
  case (Cons y c)
  then show ?case using edist_right [of a y c] by (auto simp: min_def)
qed simp

lemma edist_swap: "edist (x # a) c \<le> edist (y # a) c + 1"
proof (induction c)
  case (Cons z c)
  then show ?case by (auto simp: min_def)
qed simp

lemma edist_cons: "(\<And>c. edist a c \<le> edist b c + 1) \<Longrightarrow> edist (x # a) c \<le> edist (x # b) c + 1"
proof (induction c)
  case Nil
  then show ?case using Nil [of "[]"] by simp
next
  case (Cons z c)
  have "edist (x # a) c \<le> edist (x # b) c + 1" "edist a c \<le> edist b c + 1" "edist a (z # c) \<le> edist b (z # c) + 1"
    using Cons by blast+
  then show ?case by (auto simp: min_def)
qed

lemma edit1_step:
  assumes "edit1 a b"
  shows "edist a c \<le> edist b c + 1"
proof -
  have app: "edist (u @ p) c \<le> edist (u @ q) c + 1" if "\<And>c. edist p c \<le> edist q c + 1" for u p q c
  proof (induction u arbitrary: c)
    case (Cons x u)
    show ?case unfolding append_Cons by (rule edist_cons) (rule Cons.IH)
  qed (use that in simp)
  show ?thesis using assms
    by cases (simp only:, rule app, rule edist_drop edist_left edist_swap)+
qed

lemma edist_self [simp]: "edist a a = 0"
  by (induction a) simp_all

lemma edits_bound: "(edit1 ^^ n) a b \<Longrightarrow> edist a c \<le> edist b c + n"
proof (induction n arbitrary: a)
  case (Suc n)
  then obtain d where "edit1 a d" "(edit1 ^^ n) d b" by (metis relpowp_Suc_D2)
  then show ?case using edit1_step [of a d c] Suc.IH [of d] by simp
qed simp

lemma edit1_cons: "edit1 a b \<Longrightarrow> edit1 (x # a) (x # b)"
proof (induction rule: edit1.induct)
  case (insertion u v y)
  show ?case using edit1.insertion [of "x # u" v y] by simp
next
  case (deletion u y v)
  show ?case using edit1.deletion [of "x # u" y v] by simp
next
  case (substitution u y v z)
  show ?case using edit1.substitution [of "x # u" y v z] by simp
qed

lemma edits_cons: "(edit1 ^^ n) a b \<Longrightarrow> (edit1 ^^ n) (x # a) (x # b)"
proof (induction n arbitrary: b)
  case (Suc n)
  then show ?case by (auto intro: edit1_cons)
qed simp

lemma edits_reach: "(edit1 ^^ edist a b) a b"
proof (induction a b rule: edist.induct)
  case (1 b)
  have "(edit1 ^^ length b) [] b"
  proof (induction b)
    case (Cons y b)
    have "edit1 b (y # b)" using edit1.insertion [of "[]" b y] by simp
    then show ?case using Cons by auto
  qed simp
  then show ?case by simp
next
  case (2 x a)
  have "(edit1 ^^ length a) a []" for a :: "'a list"
  proof (induction a)
    case (Cons y a)
    have "edit1 (y # a) a" using edit1.deletion [of "[]" y a] by simp
    then show ?case using relpowp_Suc_I2 [OF _ Cons] by simp
  qed simp
  from this [of "x # a"] show ?case by (simp only: edist_nil)
next
  case (3 x a y b)
  consider "edist (x # a) (y # b) = edist a b + (if x \<noteq> y then 1 else 0)"
    | "edist (x # a) (y # b) = edist (x # a) b + 1" | "edist (x # a) (y # b) = edist a (y # b) + 1"
  proof -
    have "edist (x # a) (y # b) \<in> {edist a b + (if x \<noteq> y then 1 else 0), edist (x # a) b + 1, edist a (y # b) + 1}"
      unfolding edist.simps(3) by (simp add: min_def)
    then show thesis using that by blast
  qed
  then show ?case
  proof cases
    case 1
    have s: "edit1 (x # b) (y # b)" using edit1.substitution [of "[]" x b y] by simp
    have n: "(edit1 ^^ edist a b) (x # a) (x # b)" by (rule edits_cons [OF "3.IH"(1)])
    show ?thesis
    proof (cases "x = y")
      case True
      then show ?thesis unfolding 1 using n by simp
    next
      case False
      then have d: "edist (x # a) (y # b) = Suc (edist a b)" unfolding 1 by simp
      show ?thesis unfolding d using relpowp_Suc_I [OF n s] .
    qed
  next
    case 2
    have "edit1 b (y # b)" using edit1.insertion [of "[]" b y] by simp
    from relpowp_Suc_I [OF "3.IH"(2) this] show ?thesis unfolding 2 by (simp only: Suc_eq_plus1 [symmetric])
  next
    case 3
    have "edit1 (x # a) a" using edit1.deletion [of "[]" x a] by simp
    from relpowp_Suc_I2 [OF this "3.IH"(3)] show ?thesis unfolding 3 by (simp only: Suc_eq_plus1 [symmetric])
  qed
qed

lemma edit1_rev: "edit1 a b \<Longrightarrow> edit1 (rev a) (rev b)"
proof (induction rule: edit1.induct)
  case (insertion u v y)
  show ?case using edit1.insertion [of "rev v" "rev u" y] by simp
next
  case (deletion u y v)
  show ?case using edit1.deletion [of "rev v" y "rev u"] by simp
next
  case (substitution u y v z)
  show ?case using edit1.substitution [of "rev v" y "rev u" z] by simp
qed

lemma edits_rev: "(edit1 ^^ n) a b \<Longrightarrow> (edit1 ^^ n) (rev a) (rev b)"
proof (induction n arbitrary: b)
  case (Suc n)
  then show ?case by (auto intro: edit1_rev)
qed simp

text \<open>The rows of the table hold the distances of the reversed prefixes.\<close>

fun dist_row :: "string \<Rightarrow> string \<Rightarrow> string \<Rightarrow> nat list" where
  "dist_row ra rb [] = [edist ra rb]"
| "dist_row ra rb (c # bs) = edist ra rb # dist_row ra (c # rb) bs"

lemma dist_row_hd: "dist_row ra rb bs = edist ra rb # tl (dist_row ra rb bs)"
  by (cases bs) simp_all

lemma lev_row_dist:
  "edist (ca # ra) rb # lev_row ca (edist (ca # ra) rb) (dist_row ra rb bs) bs = dist_row (ca # ra) rb bs"
proof (induction bs arbitrary: rb)
  case (Cons cb bs)
  have "lev_row ca (edist (ca # ra) rb) (dist_row ra rb (cb # bs)) (cb # bs) =
      edist (ca # ra) (cb # rb) # lev_row ca (edist (ca # ra) (cb # rb)) (dist_row ra (cb # rb) bs) bs"
    using dist_row_hd [of ra "cb # rb" bs]
    by (cases "dist_row ra (cb # rb) bs") (simp_all add: Let_def)
  then show ?case using Cons.IH [of "cb # rb"] by simp
qed simp

lemma first_row: "dist_row [] rb bs = [length rb..<Suc (length rb + length bs)]"
  by (induction bs arbitrary: rb) (simp_all add: upt_conv_Cons del: upt_Suc)

lemma all_rows:
  "foldl (lev_step b) (dist_row ra [] b) (zip [length ra..<length ra + length a] a) = dist_row (rev a @ ra) [] b"
proof (induction a arbitrary: ra)
  case (Cons c a)
  have "lev_step b (dist_row ra [] b) (length ra, c) = dist_row (c # ra) [] b"
    using lev_row_dist [of c ra "[]" b] by (simp add: lev_step_def)
  then show ?case using Cons.IH [of "c # ra"] by (simp add: upt_conv_Cons del: upt_Suc)
qed simp

lemma last_row: "dist_row ra rb bs ! length bs = edist ra (rev bs @ rb)"
  by (induction bs arbitrary: rb) simp_all

lemma levenshtein_edist: "levenshtein a b = edist (rev a) (rev b)"
  using all_rows [of b "[]" a] last_row [of "rev a" "[]" b] first_row [of "[]" b]
  by (simp add: levenshtein_def del: upt_Suc)

lemma levenshtein_least: "(edit1 ^^ levenshtein a b) a b" "(edit1 ^^ n) a b \<Longrightarrow> levenshtein a b \<le> n"
proof -
  show "(edit1 ^^ levenshtein a b) a b"
    using edits_rev [OF edits_reach [of "rev a" "rev b"]] by (simp add: levenshtein_edist)
  show "(edit1 ^^ n) a b \<Longrightarrow> levenshtein a b \<le> n"
    using edits_bound [OF edits_rev, of n a b "rev b"] by (simp add: levenshtein_edist)
qed

lemma min_by_key_None: "min_by_key f xs = None \<longleftrightarrow> xs = []"
  by (cases xs) (auto split: option.splits)

lemma min_by_key_Some: "min_by_key f xs = Some x \<Longrightarrow> x \<in> set xs \<and> (\<forall>y\<in>set xs. f x \<le> f y)"
proof (induction xs arbitrary: x)
  case (Cons z xs)
  show ?case
  proof (cases "min_by_key f xs")
    case None
    then show ?thesis using Cons.prems by (simp add: min_by_key_None)
  next
    case (Some y)
    then show ?thesis using Cons.IH [OF Some] Cons.prems by (auto split: if_splits)
  qed
qed simp

lemma all_types: "t \<in> set entity_types"
  by (cases t) (simp_all add: entity_types_def)



end
