(* ===== verification/Roadmap.thy ===== *)
theory Roadmap
  imports Threads_Guarantees Entity_Ref_Guarantees
begin

text \<open>
  The roadmap (\<open>src/src/roadmap.rs\<close>): items with a status that changes along a fixed graph and a history
  of its changes, and typed edges from items to what they depend on, are designed in or were turned into.
  Every operation but the repair of an edge runs under the lock of the store. Lower case, the hash an id
  is made of, the clock and the failures of the file system are parameters of a call. The ranking of the
  items to do next adds floating-point weights and is left out, as are the rendered documents.
\<close>

section \<open>The schema\<close>

datatype roadmap_status = Proposed | Accepted | Deferred | Rejected | Delivered

definition roadmap_status_str :: "roadmap_status \<Rightarrow> string" where
  "roadmap_status_str s =
     (case s of Proposed \<Rightarrow> ''proposed'' | Accepted \<Rightarrow> ''accepted'' | Deferred \<Rightarrow> ''deferred''
      | Rejected \<Rightarrow> ''rejected'' | Delivered \<Rightarrow> ''delivered'')"

definition parse_roadmap_status :: "string \<Rightarrow> string + roadmap_status" where
  "parse_roadmap_status input =
     (if input = ''proposed'' then Inr Proposed
      else if input = ''accepted'' then Inr Accepted
      else if input = ''deferred'' then Inr Deferred
      else if input = ''rejected'' then Inr Rejected
      else if input = ''delivered'' then Inr Delivered
      else Inl (''unknown roadmap status '' @ ticked input @
                ''. Valid: proposed, accepted, deferred, rejected, delivered''))"

fun can_transition_to :: "roadmap_status \<Rightarrow> roadmap_status \<Rightarrow> bool" where
  "can_transition_to Proposed Accepted = True"
| "can_transition_to Proposed Rejected = True"
| "can_transition_to Proposed Delivered = True"
| "can_transition_to Accepted Deferred = True"
| "can_transition_to Accepted Delivered = True"
| "can_transition_to Deferred Accepted = True"
| "can_transition_to Rejected Proposed = True"
| "can_transition_to Delivered Proposed = True"
| "can_transition_to Delivered Accepted = True"
| "can_transition_to _ _ = False"

datatype roadmap_category = Feature | Refactor | Exploration | Debt | Risk | Infrastructure

definition roadmap_category_str :: "roadmap_category \<Rightarrow> string" where
  "roadmap_category_str c =
     (case c of Feature \<Rightarrow> ''feature'' | Refactor \<Rightarrow> ''refactor'' | Exploration \<Rightarrow> ''exploration''
      | Debt \<Rightarrow> ''debt'' | Risk \<Rightarrow> ''risk'' | Infrastructure \<Rightarrow> ''infrastructure'')"

definition parse_roadmap_category :: "string \<Rightarrow> string + roadmap_category" where
  "parse_roadmap_category input =
     (if input = ''feature'' then Inr Feature
      else if input = ''refactor'' then Inr Refactor
      else if input = ''exploration'' then Inr Exploration
      else if input = ''debt'' then Inr Debt
      else if input = ''risk'' then Inr Risk
      else if input = ''infrastructure'' then Inr Infrastructure
      else Inl (''unknown roadmap category '' @ ticked input))"

datatype roadmap_priority = HighPriority | MediumPriority | LowPriority

definition roadmap_priority_str :: "roadmap_priority \<Rightarrow> string" where
  "roadmap_priority_str p =
     (case p of HighPriority \<Rightarrow> ''high'' | MediumPriority \<Rightarrow> ''medium'' | LowPriority \<Rightarrow> ''low'')"

definition parse_roadmap_priority :: "string \<Rightarrow> string + roadmap_priority" where
  "parse_roadmap_priority input =
     (if input \<in> {''high'', ''High''} then Inr HighPriority
      else if input \<in> {''medium'', ''Medium''} then Inr MediumPriority
      else if input \<in> {''low'', ''Low''} then Inr LowPriority
      else Inl (''unknown roadmap priority '' @ ticked input))"

datatype roadmap_edge_kind =
  RoadSpawns | RoadDeferredFrom | RoadDesignedIn | RoadDependsOn | RoadBlockedBy | RoadSupersedes | RoadSubsumes
| RoadRelatedTo

definition parse_edge_kind :: "string \<Rightarrow> string + roadmap_edge_kind" where
  "parse_edge_kind input =
     (if input \<in> {''spawns'', ''ROADMAP_SPAWNS'', ''SPAWNS''} then Inr RoadSpawns
      else if input \<in> {''deferred_from'', ''ROADMAP_DEFERRED_FROM'', ''DEFERRED_FROM''} then Inr RoadDeferredFrom
      else if input \<in> {''designed_in'', ''ROADMAP_DESIGNED_IN'', ''DESIGNED_IN''} then Inr RoadDesignedIn
      else if input \<in> {''depends_on'', ''ROADMAP_DEPENDS_ON'', ''DEPENDS_ON''} then Inr RoadDependsOn
      else if input \<in> {''blocked_by'', ''ROADMAP_BLOCKED_BY'', ''BLOCKED_BY''} then Inr RoadBlockedBy
      else if input \<in> {''supersedes'', ''ROADMAP_SUPERSEDES'', ''SUPERSEDES''} then Inr RoadSupersedes
      else if input \<in> {''subsumes'', ''ROADMAP_SUBSUMES'', ''SUBSUMES''} then Inr RoadSubsumes
      else if input \<in> {''related_to'', ''ROADMAP_RELATED_TO'', ''RELATED_TO''} then Inr RoadRelatedTo
      else Inl (''unknown roadmap edge kind '' @ ticked input @
                ''. Valid: spawns, deferred_from, designed_in, depends_on, blocked_by, supersedes, subsumes, related_to''))"

text \<open>The derived debug format of a kind, which the messages show.\<close>

definition edge_kind_debug :: "roadmap_edge_kind \<Rightarrow> string" where
  "edge_kind_debug k =
     (case k of RoadSpawns \<Rightarrow> ''Spawns'' | RoadDeferredFrom \<Rightarrow> ''DeferredFrom'' | RoadDesignedIn \<Rightarrow> ''DesignedIn''
      | RoadDependsOn \<Rightarrow> ''DependsOn'' | RoadBlockedBy \<Rightarrow> ''BlockedBy'' | RoadSupersedes \<Rightarrow> ''Supersedes''
      | RoadSubsumes \<Rightarrow> ''Subsumes'' | RoadRelatedTo \<Rightarrow> ''RelatedTo'')"

record roadmap_transition =
  rt_status :: roadmap_status
  rt_at :: string
  rt_note :: "string option"
  rt_actor :: "string option"
  rt_source :: "string option"

record roadmap_item =
  rm_id :: string
  rm_title :: string
  rm_body :: string
  rm_status :: roadmap_status
  rm_category :: roadmap_category
  rm_priority :: roadmap_priority
  rm_scope :: string
  rm_project :: "string option"
  rm_created_at :: string
  rm_updated_at :: string
  rm_transitions :: "roadmap_transition list"

record roadmap_edge =
  rg_from :: string
  rg_to :: string
  rg_kind :: roadmap_edge_kind
  rg_note :: "string option"
  rg_file_path :: "string option"
  rg_section_anchor :: "string option"
  rg_at :: string

record roadmap_store =
  rs_version :: u32
  rs_items :: "roadmap_item list"
  rs_edges :: "roadmap_edge list"

definition new_roadmap_store :: roadmap_store where
  "new_roadmap_store = \<lparr>rs_version = 1, rs_items = [], rs_edges = []\<rparr>"

text \<open>What a call meets outside the store: the hash of the instant and the process is a library's.\<close>

record roadmap_env =
  rv_faults :: faults
  rv_now :: string
  rv_hash :: u64

type_synonym roadmap = "roadmap_store handle"

type_synonym 'a roadmap_act = "roadmap \<Rightarrow> (string + 'a) \<times> roadmap"

section \<open>Reading\<close>

definition canonical_item :: "string \<Rightarrow> string" where
  "canonical_item i = ''roadmap_item:'' @ i"

definition roadmap_find :: "roadmap_store \<Rightarrow> string \<Rightarrow> roadmap_item option" where
  "roadmap_find s i = List.find (\<lambda>it. rm_id it = i) (rs_items s)"

definition find_by_title :: "(string \<Rightarrow> string) \<Rightarrow> roadmap_store \<Rightarrow> string \<Rightarrow> roadmap_item option" where
  "find_by_title lower s query = List.find (\<lambda>it. lower (rm_title it) = lower query) (rs_items s)"

definition roadmap_search :: "(string \<Rightarrow> string) \<Rightarrow> roadmap_store \<Rightarrow> string \<Rightarrow> roadmap_item list" where
  "roadmap_search lower s query =
     filter (\<lambda>it. contains_str (lower (rm_title it)) (lower query) \<or> contains_str (lower (rm_body it)) (lower query))
       (rs_items s)"

definition spawned_edges :: "roadmap_store \<Rightarrow> string \<Rightarrow> roadmap_edge list" where
  "spawned_edges s i = filter (\<lambda>e. rg_from e = canonical_item i \<and> rg_kind e = RoadSpawns) (rs_edges s)"

definition has_unresolved_spawns :: "roadmap_store \<Rightarrow> string \<Rightarrow> bool" where
  "has_unresolved_spawns s i = (spawned_edges s i \<noteq> [])"

definition spawned_thread_ids :: "roadmap_store \<Rightarrow> string \<Rightarrow> string list" where
  "spawned_thread_ids s i = map rg_to (spawned_edges s i)"

definition edges_for :: "roadmap_store \<Rightarrow> string \<Rightarrow> roadmap_edge list" where
  "edges_for s i = filter (\<lambda>e. rg_from e = canonical_item i \<or> rg_to e = canonical_item i) (rs_edges s)"

definition blocker_count :: "roadmap_store \<Rightarrow> string \<Rightarrow> nat" where
  "blocker_count s i = length (filter (\<lambda>e. rg_from e = canonical_item i \<and> rg_kind e = RoadBlockedBy) (rs_edges s))"

definition designed_in_edges :: "roadmap_store \<Rightarrow> string option \<Rightarrow> roadmap_edge list" where
  "designed_in_edges s i =
     filter (\<lambda>e. rg_kind e = RoadDesignedIn \<and> (case i of Some j \<Rightarrow> rg_from e = canonical_item j | None \<Rightarrow> True))
       (rs_edges s)"

definition listed_item ::
  "roadmap_store \<Rightarrow> string option \<Rightarrow> string option \<Rightarrow> string option \<Rightarrow> roadmap_item \<Rightarrow> bool" where
  "listed_item s status category project it =
     ((case status of
         Some st \<Rightarrow>
           if st = ''in_progress'' then rm_status it = Accepted \<and> spawned_edges s (rm_id it) \<noteq> []
           else roadmap_status_str (rm_status it) = st
       | None \<Rightarrow> True) \<and>
      (case category of Some c \<Rightarrow> roadmap_category_str (rm_category it) = c | None \<Rightarrow> True) \<and>
      (case project of
         Some p \<Rightarrow> rm_scope it = ''global'' \<or> (case rm_project it of Some ip \<Rightarrow> contains_str ip p | None \<Rightarrow> True)
       | None \<Rightarrow> True))"

definition roadmap_list ::
  "roadmap_store \<Rightarrow> string option \<Rightarrow> string option \<Rightarrow> string option \<Rightarrow> roadmap_item list" where
  "roadmap_list s status category project = filter (listed_item s status category project) (rs_items s)"

text \<open>The label of an item and whether it was computed from its threads.\<close>

definition computed_status :: "roadmap_item \<Rightarrow> bool list \<Rightarrow> string \<times> bool" where
  "computed_status it resolved =
     (case rm_status it of
        Accepted \<Rightarrow>
          if resolved \<noteq> [] then (if list_all id resolved then (''done'', True) else (''in_progress'', True))
          else (''accepted'', False)
      | st \<Rightarrow> (roadmap_status_str st, False))"

section \<open>Operations\<close>

definition roadmap_gen_id :: "u64 \<Rightarrow> string" where
  "roadmap_gen_id h = ''roadmap-'' @ hex8 (ucast h)"

definition set_items :: "roadmap_item list \<Rightarrow> unit roadmap_act" where
  "set_items its h = (Inr (), h\<lparr>hd_mem := (hd_mem h)\<lparr>rs_items := its\<rparr>\<rparr>)"

definition set_edges :: "roadmap_edge list \<Rightarrow> unit roadmap_act" where
  "set_edges es h = (Inr (), h\<lparr>hd_mem := (hd_mem h)\<lparr>rs_edges := es\<rparr>\<rparr>)"

definition push_transition ::
  "roadmap_env \<Rightarrow> roadmap_status \<Rightarrow> string option \<Rightarrow> string option \<Rightarrow> string option \<Rightarrow> roadmap_item \<Rightarrow> roadmap_item" where
  "push_transition v st note' actor source it =
     it\<lparr>rm_transitions := rm_transitions it @
          [\<lparr>rt_status = st, rt_at = rv_now v, rt_note = note', rt_actor = actor, rt_source = source\<rparr>]\<rparr>"

record roadmap_create =
  rc_title :: string
  rc_body :: string
  rc_category :: roadmap_category
  rc_priority :: roadmap_priority
  rc_scope :: string
  rc_project :: "string option"
  rc_actor :: "string option"

record roadmap_update =
  ru_id :: string
  ru_title :: "string option"
  ru_body :: "string option"
  ru_status :: "roadmap_status option"
  ru_category :: "roadmap_category option"
  ru_priority :: "roadmap_priority option"
  ru_actor :: "string option"
  ru_source :: "string option"

record roadmap_add_edge =
  ra_from :: string
  ra_to :: string
  ra_kind :: roadmap_edge_kind
  ra_note :: "string option"
  ra_file_path :: "string option"
  ra_section_anchor :: "string option"

definition new_item :: "roadmap_env \<Rightarrow> roadmap_create \<Rightarrow> roadmap_item" where
  "new_item v p =
     push_transition v Proposed None (rc_actor p) None
       \<lparr>rm_id = roadmap_gen_id (rv_hash v), rm_title = rc_title p, rm_body = rc_body p, rm_status = Proposed,
        rm_category = rc_category p, rm_priority = rc_priority p, rm_scope = rc_scope p, rm_project = rc_project p,
        rm_created_at = rv_now v, rm_updated_at = rv_now v, rm_transitions = []\<rparr>"

definition create_item :: "roadmap_env \<times> roadmap_create \<Rightarrow> roadmap_item roadmap_act" where
  "create_item = under_lock (\<lambda>(v, _). rv_faults v) (\<lambda>(v, p).
     act_mem (\<lambda>s. act_bind (set_items (rs_items s @ [new_item v p])) (\<lambda>_.
     act_bind (save_store (rv_faults v)) (\<lambda>_. act_ok (new_item v p)))))"

text \<open>The texts, the category and the priority are set before the status is checked.\<close>

definition set_fields :: "roadmap_update \<Rightarrow> roadmap_item \<Rightarrow> roadmap_item" where
  "set_fields p it =
     it\<lparr>rm_title := (case ru_title p of Some t \<Rightarrow> t | None \<Rightarrow> rm_title it),
        rm_body := (case ru_body p of Some b \<Rightarrow> b | None \<Rightarrow> rm_body it),
        rm_category := (case ru_category p of Some c \<Rightarrow> c | None \<Rightarrow> rm_category it),
        rm_priority := (case ru_priority p of Some c \<Rightarrow> c | None \<Rightarrow> rm_priority it)\<rparr>"

definition set_status :: "roadmap_env \<Rightarrow> roadmap_update \<Rightarrow> roadmap_item \<Rightarrow> roadmap_item" where
  "set_status v p it =
     (case ru_status p of
        Some st \<Rightarrow> (push_transition v st None (ru_actor p) (ru_source p) it)\<lparr>rm_status := st\<rparr>
      | None \<Rightarrow> it)"

definition refused_transition :: "roadmap_update \<Rightarrow> roadmap_item \<Rightarrow> bool" where
  "refused_transition p it = (case ru_status p of Some st \<Rightarrow> \<not> can_transition_to (rm_status it) st | None \<Rightarrow> False)"

definition update_item :: "roadmap_env \<times> roadmap_update \<Rightarrow> roadmap_item roadmap_act" where
  "update_item = under_lock (\<lambda>(v, _). rv_faults v) (\<lambda>(v, p).
     act_mem (\<lambda>s. case List.find (\<lambda>it. rm_id it = ru_id p) (rs_items s) of
       None \<Rightarrow> act_fail (''roadmap item '' @ ticked (ru_id p) @ '' not found'')
     | Some it \<Rightarrow>
         act_bind (set_items (update_first (\<lambda>it. rm_id it = ru_id p) (set_fields p) (rs_items s))) (\<lambda>_.
         if refused_transition p it
         then act_fail (''cannot transition from '' @ roadmap_status_str (rm_status it) @ '' to '' @
                (case ru_status p of Some st \<Rightarrow> roadmap_status_str st | None \<Rightarrow> []))
         else
           let it' = (set_status v p (set_fields p it))\<lparr>rm_updated_at := rv_now v\<rparr>
           in act_bind (set_items (update_first (\<lambda>it. rm_id it = ru_id p) (\<lambda>_. it') (rs_items s))) (\<lambda>_.
              act_bind (save_store (rv_faults v)) (\<lambda>_. act_ok it')))))"

definition delete_item :: "roadmap_env \<times> string \<Rightarrow> unit roadmap_act" where
  "delete_item = under_lock (\<lambda>(v, _). rv_faults v) (\<lambda>(v, i).
     act_mem (\<lambda>s. case List.find (\<lambda>it. rm_id it = i) (rs_items s) of
       None \<Rightarrow> act_fail (''roadmap item '' @ ticked i @ '' not found'')
     | Some _ \<Rightarrow>
         act_bind (set_items (remove_first (\<lambda>it. rm_id it = i) (rs_items s))) (\<lambda>_.
         act_bind (set_edges (filter (\<lambda>e. rg_from e \<noteq> canonical_item i \<and> rg_to e \<noteq> canonical_item i) (rs_edges s))) (\<lambda>_.
         save_store (rv_faults v)))))"

definition is_edge :: "string \<Rightarrow> string \<Rightarrow> roadmap_edge_kind \<Rightarrow> roadmap_edge \<Rightarrow> bool" where
  "is_edge src dst kind e = (rg_from e = src \<and> rg_to e = dst \<and> rg_kind e = kind)"

definition new_edge :: "roadmap_env \<Rightarrow> roadmap_add_edge \<Rightarrow> roadmap_edge" where
  "new_edge v p =
     \<lparr>rg_from = ra_from p, rg_to = ra_to p, rg_kind = ra_kind p, rg_note = ra_note p,
      rg_file_path = ra_file_path p, rg_section_anchor = ra_section_anchor p, rg_at = rv_now v\<rparr>"

definition edge_text :: "string \<Rightarrow> string \<Rightarrow> roadmap_edge_kind \<Rightarrow> string" where
  "edge_text src dst kind = ''edge from '' @ src @ '' to '' @ dst @ '' of kind '' @ edge_kind_debug kind"

definition add_edge :: "roadmap_env \<times> roadmap_add_edge \<Rightarrow> roadmap_edge roadmap_act" where
  "add_edge = under_lock (\<lambda>(v, _). rv_faults v) (\<lambda>(v, p).
     act_mem (\<lambda>s.
       if list_ex (is_edge (ra_from p) (ra_to p) (ra_kind p)) (rs_edges s)
       then act_fail (edge_text (ra_from p) (ra_to p) (ra_kind p) @ '' already exists'')
       else act_bind (set_edges (rs_edges s @ [new_edge v p])) (\<lambda>_.
            act_bind (save_store (rv_faults v)) (\<lambda>_. act_ok (new_edge v p)))))"

definition remove_edge :: "roadmap_env \<times> string \<times> string \<times> roadmap_edge_kind \<Rightarrow> unit roadmap_act" where
  "remove_edge = under_lock (\<lambda>(v, _). rv_faults v) (\<lambda>(v, src, dst, kind).
     act_mem (\<lambda>s.
       if list_ex (is_edge src dst kind) (rs_edges s)
       then act_bind (set_edges (remove_first (is_edge src dst kind) (rs_edges s))) (\<lambda>_. save_store (rv_faults v))
       else act_fail (edge_text src dst kind @ '' not found'')))"

text \<open>The one operation without the lock and without reading the file again.\<close>

record roadmap_repair =
  rp_from :: string
  rp_to :: string
  rp_new_to :: "string option"
  rp_file_path :: "string option"
  rp_section_anchor :: "string option"

definition repaired_edge :: "roadmap_env \<Rightarrow> roadmap_repair \<Rightarrow> roadmap_edge \<Rightarrow> roadmap_edge" where
  "repaired_edge v p e =
     e\<lparr>rg_to := (case rp_new_to p of Some nt \<Rightarrow> nt | None \<Rightarrow> rg_to e),
       rg_file_path := rp_file_path p, rg_section_anchor := rp_section_anchor p, rg_at := rv_now v\<rparr>"

definition update_edge_metadata :: "roadmap_env \<times> roadmap_repair \<Rightarrow> unit roadmap_act" where
  "update_edge_metadata = (\<lambda>(v, p).
     act_mem (\<lambda>s.
       if list_ex (is_edge (rp_from p) (rp_to p) RoadDesignedIn) (rs_edges s)
       then act_bind (set_edges (update_first (is_edge (rp_from p) (rp_to p) RoadDesignedIn) (repaired_edge v p) (rs_edges s)))
              (\<lambda>_. save_store (rv_faults v))
       else act_fail (''designed_in edge from '' @ rp_from p @ '' to '' @ rp_to p @ '' not found'')))"

text \<open>The operations as one type, with the answers they give.\<close>

datatype roadmap_op =
    CreateItem roadmap_create
  | UpdateItem roadmap_update
  | DeleteItem string
  | AddEdge roadmap_add_edge
  | RemoveEdge string string roadmap_edge_kind

datatype roadmap_answer = ItemAnswer roadmap_item | EdgeAnswer roadmap_edge | NoAnswer

definition answer :: "('a \<Rightarrow> 'b) \<Rightarrow> 'a roadmap_act \<Rightarrow> 'b roadmap_act" where
  "answer f m = act_bind m (\<lambda>a. act_ok (f a))"

definition roadmap_run :: "roadmap_env \<times> roadmap_op \<Rightarrow> roadmap_answer roadmap_act" where
  "roadmap_run = (\<lambda>(v, op).
     (case op of
        CreateItem p \<Rightarrow> answer ItemAnswer (create_item (v, p))
      | UpdateItem p \<Rightarrow> answer ItemAnswer (update_item (v, p))
      | DeleteItem i \<Rightarrow> answer (\<lambda>_. NoAnswer) (delete_item (v, i))
      | AddEdge p \<Rightarrow> answer EdgeAnswer (add_edge (v, p))
      | RemoveEdge src dst kind \<Rightarrow> answer (\<lambda>_. NoAnswer) (remove_edge (v, src, dst, kind))))"

end
