(* ===== verification/Roadmap_Guarantees.thy ===== *)
theory Roadmap_Guarantees
  imports Roadmap
begin

text \<open>
  What the roadmap promises: the operations under the lock implement a specification on the stored value,
  which a refused or failed operation leaves alone; the history of every item follows the graph of its
  states, through every interleaving of handles and of repairs, on disk and in memory.
\<close>

section \<open>The specification\<close>

fun roadmap_apply :: "roadmap_env \<Rightarrow> roadmap_op \<Rightarrow> roadmap_store \<Rightarrow> string + roadmap_answer \<times> roadmap_store" where
  "roadmap_apply v (CreateItem p) s =
     Inr (ItemAnswer (new_item v p), s\<lparr>rs_items := rs_items s @ [new_item v p]\<rparr>)"
| "roadmap_apply v (UpdateItem p) s =
     (case roadmap_find s (ru_id p) of
        None \<Rightarrow> Inl (''roadmap item '' @ ticked (ru_id p) @ '' not found'')
      | Some it \<Rightarrow>
          rbind (case ru_status p of
             Some st \<Rightarrow> guard_err (\<not> can_transition_to (rm_status it) st)
               (''cannot transition from '' @ roadmap_status_str (rm_status it) @ '' to '' @ roadmap_status_str st)
           | None \<Rightarrow> ok)
          (\<lambda>_. let it' = (set_status v p (set_fields p it))\<lparr>rm_updated_at := rv_now v\<rparr>
             in Inr (ItemAnswer it', s\<lparr>rs_items := update_first (\<lambda>it. rm_id it = ru_id p) (\<lambda>_. it') (rs_items s)\<rparr>)))"
| "roadmap_apply v (DeleteItem i) s =
     (if roadmap_find s i = None then Inl (''roadmap item '' @ ticked i @ '' not found'')
      else Inr (NoAnswer,
        s\<lparr>rs_items := remove_first (\<lambda>it. rm_id it = i) (rs_items s),
          rs_edges := filter (\<lambda>e. rg_from e \<noteq> canonical_item i \<and> rg_to e \<noteq> canonical_item i) (rs_edges s)\<rparr>))"
| "roadmap_apply v (AddEdge p) s =
     (if list_ex (is_edge (ra_from p) (ra_to p) (ra_kind p)) (rs_edges s)
      then Inl (edge_text (ra_from p) (ra_to p) (ra_kind p) @ '' already exists'')
      else Inr (EdgeAnswer (new_edge v p), s\<lparr>rs_edges := rs_edges s @ [new_edge v p]\<rparr>))"
| "roadmap_apply v (RemoveEdge src dst kind) s =
     (if list_ex (is_edge src dst kind) (rs_edges s)
      then Inr (NoAnswer, s\<lparr>rs_edges := remove_first (is_edge src dst kind) (rs_edges s)\<rparr>)
      else Inl (edge_text src dst kind @ '' not found''))"

definition with_faults :: "faults \<Rightarrow> string + 'b \<Rightarrow> string + 'b" where
  "with_faults fl r =
     (case fl_lock fl of
        Some e \<Rightarrow> Inl e
      | None \<Rightarrow> rbind r (\<lambda>a. case fl_write fl of Some e \<Rightarrow> Inl e | None \<Rightarrow> Inr a))"

definition roadmap_spec :: "roadmap_env \<times> roadmap_op \<Rightarrow> roadmap_store \<Rightarrow> string + roadmap_answer \<times> roadmap_store" where
  "roadmap_spec = (\<lambda>(v, op) s. with_faults (rv_faults v) (roadmap_apply v op s))"

lemmas roadmap_actions =
  create_item_def update_item_def delete_item_def add_edge_def remove_edge_def under_lock_def answer_def
  set_items_def set_edges_def

lemma roadmap_implements:
  assumes d: "hd_disk h = Holds s"
  shows "case roadmap_spec (v, op) s of
      Inl e \<Rightarrow> \<exists>h'. roadmap_run (v, op) h = (Inl e, h') \<and> hd_disk h' = Holds s
    | Inr (a, s') \<Rightarrow> \<exists>h'. roadmap_run (v, op) h = (Inr a, h') \<and> hd_disk h' = Holds s'"
proof (cases "fl_lock (rv_faults v)")
  case None
  note L = None
  show ?thesis
  proof (cases "fl_write (rv_faults v)")
    case None
    show ?thesis
      using d L None by (cases op) (auto simp: roadmap_run_def roadmap_spec_def with_faults_def roadmap_actions roadmap_find_def
        refused_transition_def guard_err_def ok_def Let_def act_bind_def split: option.splits)
  next
    case (Some e)
    show ?thesis
      using d L Some by (cases op) (auto simp: roadmap_run_def roadmap_spec_def with_faults_def roadmap_actions roadmap_find_def
        refused_transition_def guard_err_def ok_def Let_def act_bind_def split: option.splits)
  qed
next
  case (Some e)
  then show ?thesis
    using d by (cases op) (simp_all add: roadmap_run_def roadmap_spec_def with_faults_def roadmap_actions act_bind_def)
qed

interpretation rd: locked_store roadmap_run roadmap_spec
proof
  fix h :: roadmap and s op e
  assume "hd_disk h = Holds s" "roadmap_spec op s = Inl e"
  then show "\<exists>h'. roadmap_run op h = (Inl e, h') \<and> hd_disk h' = Holds s"
    using roadmap_implements [of h s "fst op" "snd op"] by simp
next
  fix h :: roadmap and s op a s'
  assume "hd_disk h = Holds s" "roadmap_spec op s = Inr (a, s')"
  then show "\<exists>h'. roadmap_run op h = (Inr a, h') \<and> hd_disk h' = Holds s'"
    using roadmap_implements [of h s "fst op" "snd op"] by simp
qed

section \<open>Histories\<close>

definition lawful_item :: "roadmap_item \<Rightarrow> bool" where
  "lawful_item it \<longleftrightarrow>
     (\<exists>sts. map rt_status (rm_transitions it) = Proposed # sts \<and>
        successively can_transition_to (Proposed # sts) \<and> rm_status it = last (Proposed # sts))"

definition lawful :: "roadmap_store \<Rightarrow> bool" where
  "lawful s \<longleftrightarrow> (\<forall>it\<in>set (rs_items s). lawful_item it)"

lemma lawful_new: "lawful_item (new_item v p)"
  by (simp add: lawful_item_def new_item_def push_transition_def)

lemma lawful_fields [simp]:
  "lawful_item (set_fields p it) = lawful_item it" "lawful_item (it\<lparr>rm_updated_at := a\<rparr>) = lawful_item it"
  by (simp_all add: lawful_item_def set_fields_def)

lemma lawful_status:
  assumes "lawful_item it" "\<not> refused_transition p it"
  shows "lawful_item (set_status v p it)"
proof (cases "ru_status p")
  case (Some st)
  obtain sts where h: "map rt_status (rm_transitions it) = Proposed # sts" "successively can_transition_to (Proposed # sts)"
      "rm_status it = last (Proposed # sts)" using assms(1) unfolding lawful_item_def by (elim exE conjE)
  have "can_transition_to (last (Proposed # sts)) st" using assms(2) h(3) Some by (simp add: refused_transition_def)
  then have "successively can_transition_to ((Proposed # sts) @ [st])"
    using h(2) unfolding successively_append_iff by simp
  then have "successively can_transition_to (Proposed # sts @ [st])" by simp
  moreover have "map rt_status (rm_transitions (set_status v p it)) = Proposed # sts @ [st]" "rm_status (set_status v p it) = st"
    using h(1) Some by (simp_all add: set_status_def push_transition_def)
  ultimately show ?thesis unfolding lawful_item_def by (intro exI [of _ "sts @ [st]"]) simp
qed (use assms in \<open>simp add: set_status_def\<close>)

lemma lawful_update:
  assumes "lawful s" "\<And>it. List.find P (rs_items s) = Some it \<Longrightarrow> lawful_item (f it)"
  shows "lawful (t\<lparr>rs_items := update_first P f (rs_items s)\<rparr>)"
  unfolding lawful_def
proof
  fix it
  assume "it \<in> set (rs_items (t\<lparr>rs_items := update_first P f (rs_items s)\<rparr>))"
  then have "it \<in> set (update_first P f (rs_items s))" by simp
  from set_update_first [OF this] show "lawful_item it" using assms unfolding lawful_def by blast
qed

lemma lawful_others:
  "lawful (s\<lparr>rs_edges := es\<rparr>) = lawful s"
  "lawful s \<Longrightarrow> lawful (s\<lparr>rs_items := remove_first P (rs_items s)\<rparr>)"
  "lawful s \<Longrightarrow> lawful (s\<lparr>rs_items := rs_items s @ [new_item v p]\<rparr>)"
  using set_remove_first [of P "rs_items s"] by (auto simp: lawful_def lawful_new)

lemma keeps_items: "P (s\<lparr>rs_items := its\<rparr>) \<Longrightarrow> keeps_from P s (set_items its)"
  by (auto simp: keeps_from_def both_def set_items_def)

lemma keeps_edges [act_rules]: "keeps_from lawful s (set_edges es)"
  by (auto simp: keeps_from_def both_def set_edges_def lawful_others)

text \<open>Locked operations and repairs, as one kind of call.\<close>

definition roadmap_call :: "roadmap_env \<times> (roadmap_op + roadmap_repair) \<Rightarrow> roadmap_answer roadmap_act" where
  "roadmap_call = (\<lambda>(v, call). case call of
     Inl op \<Rightarrow> roadmap_run (v, op)
   | Inr p \<Rightarrow> answer (\<lambda>_. NoAnswer) (update_edge_metadata (v, p)))"

lemma lawful_found: "lawful s \<Longrightarrow> List.find P (rs_items s) = Some it \<Longrightarrow> lawful_item it"
  using find_SomeD [of P "rs_items s" it] by (simp add: lawful_def)

lemma keeps_update:
  assumes "lawful s"
  shows "keeps_from lawful s (update_item (v, p))"
proof -
  have f: "refused_transition p (set_fields p it) = refused_transition p it" for it
    by (simp add: refused_transition_def set_fields_def split: option.splits)
  have "lawful (u\<lparr>rs_items := update_first (\<lambda>it. rm_id it = ru_id p)
          (\<lambda>_. (set_status v p (set_fields p it))\<lparr>rm_updated_at := rv_now v\<rparr>) (rs_items t)\<rparr>)"
    if "lawful t" "List.find (\<lambda>it. rm_id it = ru_id p) (rs_items t) = Some it" "\<not> refused_transition p it" for t u it
    using lawful_update [OF that(1)] lawful_status [of "set_fields p it" p v] lawful_found [OF that(1,2)] that(3) f by simp
  then show ?thesis
    using assms unfolding update_item_def under_lock_def Let_def prod.case
    by (intro act_rules keeps_items) (blast intro: lawful_update lawful_found [THEN lawful_fields(1) [THEN iffD2]])+
qed

lemma keeps_create: "lawful s \<Longrightarrow> keeps_from lawful s (create_item (v, p))"
  unfolding create_item_def under_lock_def prod.case by (intro act_rules keeps_items lawful_others)

lemma keeps_delete: "lawful s \<Longrightarrow> keeps_from lawful s (delete_item (v, i))"
  unfolding delete_item_def under_lock_def prod.case by (intro act_rules keeps_items lawful_others)

lemma keeps_add_edge: "keeps_from lawful s (add_edge (v, p))"
  unfolding add_edge_def under_lock_def prod.case by (intro act_rules)

lemma keeps_remove_edge: "keeps_from lawful s (remove_edge (v, src, dst, kind))"
  unfolding remove_edge_def under_lock_def prod.case by (intro act_rules)

lemma keeps_repair: "keeps_from lawful s (update_edge_metadata (v, p))"
  unfolding update_edge_metadata_def prod.case by (intro act_rules)

lemma keeps_answer [act_rules]: "keeps_from P s m \<Longrightarrow> keeps_from P s (answer f m)"
  unfolding answer_def by (intro act_rules)

lemma keeps_roadmap_call: "lawful s \<Longrightarrow> keeps_from lawful s (roadmap_call call)"
  unfolding roadmap_call_def roadmap_run_def
  by (cases call)
    (auto split: sum.splits roadmap_op.splits
      intro!: keeps_answer keeps_update keeps_create keeps_delete keeps_add_edge keeps_remove_edge keeps_repair)

section \<open>Edges\<close>

definition edge_ends :: "roadmap_edge \<Rightarrow> string \<times> string \<times> roadmap_edge_kind" where
  "edge_ends e = (rg_from e, rg_to e, rg_kind e)"

definition edges_distinct :: "roadmap_store \<Rightarrow> bool" where
  "edges_distinct s \<longleftrightarrow> distinct (map edge_ends (rs_edges s))"

lemma distinct_map_filter': "distinct (map f xs) \<Longrightarrow> distinct (map f (filter P xs))"
  by (induction xs) auto

lemma not_there: "edge_ends e \<in> edge_ends ` set (rs_edges s) \<longleftrightarrow> list_ex (is_edge (rg_from e) (rg_to e) (rg_kind e)) (rs_edges s)"
  by (auto simp: list_ex_iff is_edge_def edge_ends_def image_iff) metis

lemma new_edge_ends: "edge_ends (new_edge v p) \<in> edge_ends ` set (rs_edges s) \<longleftrightarrow> list_ex (is_edge (ra_from p) (ra_to p) (ra_kind p)) (rs_edges s)"
  unfolding not_there by (simp add: new_edge_def)

interpretation rd: kept_store roadmap_run roadmap_spec edges_distinct
proof
  fix s vop a s'
  assume d: "edges_distinct s" and "roadmap_spec vop s = Inr (a, s')"
  then have "roadmap_apply (fst vop) (snd vop) s = Inr (a, s')"
    by (cases vop) (auto simp: roadmap_spec_def with_faults_def rbind_eq_Inr split: option.splits)
  then show "edges_distinct s'"
    using d distinct_map_filter' [of edge_ends "rs_edges s"] distinct_map_remove_first [of edge_ends "rs_edges s"]
    by (cases "snd vop")
      (auto simp: edges_distinct_def rbind_eq_Inr Let_def new_edge_ends split: option.splits if_splits)
qed

section \<open>Properties\<close>

text \<open>Property C14. Handles that share the file of the roadmap, whatever they have in memory, give to every operation
  under the lock the answer of the specification and leave the value it leaves: a refused update, or one
  whose write fails, leaves none of its fields behind.\<close>

theorem roadmap_serialises:
  assumes "fst sys = Holds s"
  shows "fst (run_handles roadmap_run calls sys) = fst (run_spec roadmap_spec (map snd calls) s) \<and>
    fst (snd (run_handles roadmap_run calls sys)) = Holds (snd (run_spec roadmap_spec (map snd calls) s))"
  by (rule rd.handles_agree [OF assms])

text \<open>Property C18. Through every interleaving of operations and repairs by any handles, on disk and in every memory:
  the history of an item starts with proposed, follows the graph of the states and ends with its state.\<close>

theorem roadmap_histories_are_lawful:
  assumes "all_keep lawful sys"
  shows "all_keep lawful (snd (run_handles roadmap_call calls sys))"
  by (rule run_handles_keep [OF keeps_roadmap_call assms])

text \<open>The operations under the lock never leave two edges of one kind between the same ends.\<close>

theorem roadmap_edges_distinct:
  assumes "fst sys = Holds s" "edges_distinct s"
  shows "\<exists>s'. fst (snd (run_handles roadmap_run calls sys)) = Holds s' \<and> edges_distinct s'"
  by (rule rd.handles_keep [OF assms])

end
