(* ===== verification/Roadmap_Tools.thy ===== *)
theory Roadmap_Tools
  imports Roadmap_Guarantees
begin

text \<open>
  The actions of the roadmap tool (\<open>src/src/tools/roadmap.rs\<close>): the checks of their arguments, the typed
  targets of links, and the promotion of an item to a thread, which reads the roadmap, opens the thread and
  records the edge in three critical sections of two stores. Results are JSON values. The documents the
  index knows are a parameter; what is handed to the index and the embedding queue is a list. Rendering
  and the ranking of the items to do next are left out.
\<close>

section \<open>The state of the tool\<close>

datatype roadmap_effect = IndexItem roadmap_item | EmbedItem roadmap_item | DropItem string

record project_doc =
  pd_entity_id :: "string option"
  pd_file_path :: string

record bbox =
  bx_roadmap :: roadmap
  bx_threads :: threads
  bx_effects :: "roadmap_effect list"

text \<open>\<open>be_docs\<close> lists the project files of the index up to a limit, and \<open>None\<close> when the index fails.\<close>

record bbox_env =
  be_road :: roadmap_env
  be_lower :: "string \<Rightarrow> string"
  be_docs :: "nat option \<Rightarrow> project_doc list option"
  be_threads :: thread_call

type_synonym 'a bbox_act = "bbox \<Rightarrow> (string + 'a) \<times> bbox"

definition on_roadmap :: "'a roadmap_act \<Rightarrow> 'a bbox_act" where
  "on_roadmap m bx = (case m (bx_roadmap bx) of (r, rm) \<Rightarrow> (r, bx\<lparr>bx_roadmap := rm\<rparr>))"

definition bx_bind :: "'a bbox_act \<Rightarrow> ('a \<Rightarrow> 'b bbox_act) \<Rightarrow> 'b bbox_act" where
  "bx_bind m f bx = (case m bx of (Inl e, bx') \<Rightarrow> (Inl e, bx') | (Inr a, bx') \<Rightarrow> f a bx')"

definition bx_lift :: "string + 'a \<Rightarrow> 'a bbox_act" where
  "bx_lift r bx = (r, bx)"

definition bx_effect :: "roadmap_effect list \<Rightarrow> unit bbox_act" where
  "bx_effect es bx = (Inr (), bx\<lparr>bx_effects := bx_effects bx @ es\<rparr>)"

definition bx_store :: "(roadmap_store \<Rightarrow> 'a bbox_act) \<Rightarrow> 'a bbox_act" where
  "bx_store f bx = f (hd_mem (bx_roadmap bx)) bx"

definition jstr_opt :: "string option \<Rightarrow> json" where
  "jstr_opt v = jopt JStr v"

section \<open>Creating, changing and reading items\<close>

record create_params =
  cp_title :: string
  cp_body :: string
  cp_category :: string
  cp_priority :: "string option"
  cp_scope :: "string option"
  cp_project :: "string option"

definition roadmap_create_tool :: "bbox_env \<Rightarrow> create_params \<Rightarrow> json bbox_act" where
  "roadmap_create_tool v p =
     bx_bind (bx_lift (parse_roadmap_priority (case cp_priority p of Some x \<Rightarrow> x | None \<Rightarrow> ''medium''))) (\<lambda>priority.
     bx_bind (bx_lift (parse_roadmap_category (cp_category p))) (\<lambda>category.
     let scope = (case cp_scope p of Some x \<Rightarrow> x | None \<Rightarrow> ''project'')
     in bx_bind (bx_lift (guard_err (scope \<noteq> ''global'' \<and> scope \<noteq> ''project'')
          (''scope must be '' @ ticked ''global'' @ '' or '' @ ticked ''project'' @ '', got '' @ ticked scope))) (\<lambda>_.
        bx_bind (bx_lift (guard_err (scope = ''project'' \<and> cp_project p = None)
          (''scope='' @ ticked ''project'' @ '' requires a '' @ ticked ''project'' @ '' path''))) (\<lambda>_.
        bx_store (\<lambda>s. case find_by_title (be_lower v) s (cp_title p) of
          Some it \<Rightarrow> bx_lift (Inr (JObj [(''duplicate'', JBool True), (''existing_id'', JStr (rm_id it)),
            (''message'', JStr (''Roadmap item with title '' @ ticked (cp_title p) @ '' already exists as '' @ rm_id it @
               ''. Use update instead.''))]))
        | None \<Rightarrow>
            bx_bind (on_roadmap (create_item (be_road v,
              \<lparr>rc_title = cp_title p, rc_body = cp_body p, rc_category = category, rc_priority = priority,
               rc_scope = scope, rc_project = cp_project p, rc_actor = None\<rparr>))) (\<lambda>it.
            bx_bind (bx_effect [IndexItem it, EmbedItem it]) (\<lambda>_.
            bx_lift (Inr (JObj [(''id'', JStr (rm_id it)), (''title'', JStr (rm_title it)),
              (''status'', JStr (roadmap_status_str (rm_status it))),
              (''category'', JStr (roadmap_category_str (rm_category it))),
              (''priority'', JStr (roadmap_priority_str (rm_priority it))),
              (''created_at'', JStr (rm_created_at it))])))))))))"

record update_params =
  up_id :: string
  up_title :: "string option"
  up_body :: "string option"
  up_status :: "string option"
  up_category :: "string option"
  up_priority :: "string option"

definition parsed :: "('a \<Rightarrow> string + 'b) \<Rightarrow> 'a option \<Rightarrow> string + 'b option" where
  "parsed f v = (case v of Some s \<Rightarrow> rbind (f s) (\<lambda>a. Inr (Some a)) | None \<Rightarrow> Inr None)"

definition update_priority :: "string \<Rightarrow> string + roadmap_priority" where
  "update_priority x =
     (if x \<in> {''high'', ''High''} then Inr HighPriority
      else if x \<in> {''medium'', ''Medium''} then Inr MediumPriority
      else if x \<in> {''low'', ''Low''} then Inr LowPriority
      else Inl (''unknown priority '' @ ticked x))"

definition roadmap_update_tool :: "bbox_env \<Rightarrow> update_params \<Rightarrow> json bbox_act" where
  "roadmap_update_tool v p =
     bx_bind (bx_lift (parsed parse_roadmap_status (up_status p))) (\<lambda>status.
     bx_bind (bx_lift (parsed parse_roadmap_category (up_category p))) (\<lambda>category.
     bx_bind (bx_lift (parsed update_priority (up_priority p))) (\<lambda>priority.
     bx_bind (on_roadmap (update_item (be_road v,
       \<lparr>ru_id = up_id p, ru_title = up_title p, ru_body = up_body p, ru_status = status, ru_category = category,
        ru_priority = priority, ru_actor = None, ru_source = None\<rparr>))) (\<lambda>it.
     bx_bind (bx_effect [IndexItem it, EmbedItem it]) (\<lambda>_.
     bx_lift (Inr (JObj [(''id'', JStr (rm_id it)), (''title'', JStr (rm_title it)),
       (''status'', JStr (roadmap_status_str (rm_status it))),
       (''category'', JStr (roadmap_category_str (rm_category it))),
       (''priority'', JStr (roadmap_priority_str (rm_priority it))),
       (''updated_at'', JStr (rm_updated_at it))])))))))"

definition roadmap_delete :: "bbox_env \<Rightarrow> string \<Rightarrow> json bbox_act" where
  "roadmap_delete v i =
     bx_bind (on_roadmap (delete_item (be_road v, i))) (\<lambda>_.
     bx_bind (bx_effect [DropItem i]) (\<lambda>_. bx_lift (Inr (JObj [(''deleted'', JStr i)]))))"

text \<open>Whether the threads an item was promoted to are resolved.\<close>

definition thread_resolved :: "thread_store \<Rightarrow> string \<Rightarrow> bool" where
  "thread_resolved ts tid =
     (let raw = (case strip_prefix ''thread:'' tid of Some r \<Rightarrow> r | None \<Rightarrow> tid)
      in list_ex (\<lambda>t. th_id t = raw \<and> th_status t = ThreadResolved) (ts_threads ts))"

definition item_label :: "bbox \<Rightarrow> roadmap_item \<Rightarrow> string" where
  "item_label bx it =
     fst (computed_status it (map (thread_resolved (hd_mem (bx_threads bx)))
       (spawned_thread_ids (hd_mem (bx_roadmap bx)) (rm_id it))))"

definition transition_json :: "roadmap_transition \<Rightarrow> json" where
  "transition_json t =
     JObj [(''status'', JStr (roadmap_status_str (rt_status t))), (''at'', JStr (rt_at t)),
           (''note'', jstr_opt (rt_note t)), (''actor'', jstr_opt (rt_actor t)), (''source'', jstr_opt (rt_source t))]"

definition edge_json :: "roadmap_edge \<Rightarrow> json" where
  "edge_json e =
     JObj [(''from'', JStr (rg_from e)), (''to'', JStr (rg_to e)), (''kind'', JStr (edge_kind_debug (rg_kind e))),
           (''note'', jstr_opt (rg_note e)), (''at'', JStr (rg_at e))]"

definition roadmap_get :: "string \<Rightarrow> json bbox_act" where
  "roadmap_get i bx =
     (let s = hd_mem (bx_roadmap bx)
      in case roadmap_find s i of
           None \<Rightarrow> (Inl (''roadmap item '' @ ticked i @ '' not found''), bx)
         | Some it \<Rightarrow>
             (Inr (JObj [(''id'', JStr (rm_id it)), (''title'', JStr (rm_title it)), (''body'', JStr (rm_body it)),
               (''status'', JStr (item_label bx it)),
               (''stored_status'', JStr (roadmap_status_str (rm_status it))),
               (''category'', JStr (roadmap_category_str (rm_category it))),
               (''priority'', JStr (roadmap_priority_str (rm_priority it))),
               (''scope'', JStr (rm_scope it)), (''project'', jstr_opt (rm_project it)),
               (''created_at'', JStr (rm_created_at it)), (''updated_at'', JStr (rm_updated_at it)),
               (''transitions'', JArr (map transition_json (rm_transitions it))),
               (''edges'', JArr (map edge_json (edges_for s i))),
               (''spawned_thread_ids'', jstrs (spawned_thread_ids s i))]), bx))"

record search_params =
  sp_query :: "string option"
  sp_status :: "string option"
  sp_category :: "string option"
  sp_project :: "string option"
  sp_limit :: "nat option"

definition limit_of :: "search_params \<Rightarrow> nat" where
  "limit_of p = min (case sp_limit p of Some n \<Rightarrow> n | None \<Rightarrow> 50) 500"

definition list_item_json :: "bbox \<Rightarrow> roadmap_item \<Rightarrow> json" where
  "list_item_json bx it =
     (let s = hd_mem (bx_roadmap bx)
      in JObj [(''id'', JStr (rm_id it)), (''title'', JStr (rm_title it)), (''status'', JStr (item_label bx it)),
               (''category'', JStr (roadmap_category_str (rm_category it))),
               (''priority'', JStr (roadmap_priority_str (rm_priority it))), (''scope'', JStr (rm_scope it)),
               (''spawned_thread_ids'', jstrs (spawned_thread_ids s (rm_id it))),
               (''blockers'', jnat (blocker_count s (rm_id it))), (''updated_at'', JStr (rm_updated_at it))])"

definition counted :: "json list \<Rightarrow> json" where
  "counted js = JObj [(''count'', jnat (length js)), (''items'', JArr js)]"

definition roadmap_list_tool :: "search_params \<Rightarrow> json bbox_act" where
  "roadmap_list_tool p bx =
     (Inr (counted (map (list_item_json bx)
        (take (limit_of p) (roadmap_list (hd_mem (bx_roadmap bx)) (sp_status p) (sp_category p) (sp_project p))))), bx)"

definition search_item_json :: "roadmap_item \<Rightarrow> json" where
  "search_item_json it =
     JObj [(''id'', JStr (rm_id it)), (''title'', JStr (rm_title it)),
           (''status'', JStr (roadmap_status_str (rm_status it))),
           (''category'', JStr (roadmap_category_str (rm_category it))),
           (''priority'', JStr (roadmap_priority_str (rm_priority it))), (''updated_at'', JStr (rm_updated_at it))]"

definition in_project :: "search_params \<Rightarrow> roadmap_item \<Rightarrow> bool" where
  "in_project p it =
     (case sp_project p of
        Some proj \<Rightarrow> rm_scope it = ''global'' \<or> (case rm_project it of Some ip \<Rightarrow> contains_str ip proj | None \<Rightarrow> False)
      | None \<Rightarrow> True)"

definition roadmap_search_tool :: "bbox_env \<Rightarrow> search_params \<Rightarrow> json bbox_act" where
  "roadmap_search_tool v p bx =
     (let s = hd_mem (bx_roadmap bx);
          found = (case sp_query p of
            Some q \<Rightarrow> roadmap_search (be_lower v) s q
          | None \<Rightarrow> filter (\<lambda>it.
              (case sp_status p of Some st \<Rightarrow> roadmap_status_str (rm_status it) = st | None \<Rightarrow> True) \<and>
              (case sp_category p of Some c \<Rightarrow> roadmap_category_str (rm_category it) = c | None \<Rightarrow> True) \<and>
              in_project p it) (rs_items s))
      in (Inr (counted (map search_item_json (take (limit_of p) found))), bx))"

section \<open>Links\<close>

record link_params =
  lk_id :: string
  lk_link_type :: string
  lk_link_target :: string
  lk_link_note :: "string option"

text \<open>The targets a kind of edge takes.\<close>

definition target_check :: "roadmap_edge_kind \<Rightarrow> string \<Rightarrow> entity_ref \<Rightarrow> string + unit" where
  "target_check kind ty r =
     (case kind of
        RoadSpawns \<Rightarrow> guard_err (entity_type_of r \<noteq> ThreadType)
          ''spawns link target must be a thread entity ref (thread:<id>)''
      | RoadDeferredFrom \<Rightarrow> guard_err (entity_type_of r \<notin> {ThreadType, KnowledgeType})
          ''deferred_from link target must be a thread or knowledge entity ref''
      | RoadDesignedIn \<Rightarrow> guard_err (entity_type_of r \<notin> {ProjectFileType, ProjectFileV2Type})
          ''designed_in link target must be a project_file entity ref''
      | _ \<Rightarrow> guard_err (entity_type_of r \<noteq> RoadmapItemType)
          (ty @ '' link target must be a roadmap_item entity ref (roadmap_item:<id>)''))"

text \<open>The path of a project file, looked for among the first five documents.\<close>

definition resolve_project_file_path :: "bbox_env \<Rightarrow> string \<Rightarrow> string option" where
  "resolve_project_file_path v r =
     (case be_docs v (Some 5) of
        Some docs \<Rightarrow> map_option pd_file_path (List.find (\<lambda>d. pd_entity_id d = Some r) docs)
      | None \<Rightarrow> None)"

definition display_parse_error :: "parse_error \<Rightarrow> string" where
  "display_parse_error e = pe_message e @ (case pe_fix e of Some f \<Rightarrow> '' ('' @ f @ '')'' | None \<Rightarrow> [])"

definition parse_link_target :: "string \<Rightarrow> string + entity_ref" where
  "parse_link_target t =
     map_err (\<lambda>e. ''invalid link_target '' @ ticked t @ '': '' @ display_parse_error e) (parse_ref t)"

definition roadmap_link :: "bbox_env \<Rightarrow> link_params \<Rightarrow> json bbox_act" where
  "roadmap_link v p =
     bx_bind (bx_lift (parse_edge_kind (lk_link_type p))) (\<lambda>kind.
     bx_bind (bx_lift (parse_link_target (lk_link_target p))) (\<lambda>r.
     bx_bind (bx_lift (target_check kind (lk_link_type p) r)) (\<lambda>_.
     bx_store (\<lambda>s.
     bx_bind (bx_lift (guard_err (roadmap_find s (lk_id p) = None)
       (''source roadmap item '' @ ticked (lk_id p) @ '' not found''))) (\<lambda>_.
     bx_bind (on_roadmap (add_edge (be_road v,
       \<lparr>ra_from = canonical_item (lk_id p), ra_to = lk_link_target p, ra_kind = kind, ra_note = lk_link_note p,
        ra_file_path = (if kind = RoadDesignedIn then resolve_project_file_path v (lk_link_target p) else None),
        ra_section_anchor = None\<rparr>))) (\<lambda>_.
     bx_lift (Inr (JObj [(''from'', JStr (canonical_item (lk_id p))), (''to'', JStr (lk_link_target p)),
       (''link_type'', JStr (lk_link_type p))]))))))))"

definition roadmap_unlink :: "bbox_env \<Rightarrow> link_params \<Rightarrow> json bbox_act" where
  "roadmap_unlink v p =
     bx_bind (bx_lift (parse_edge_kind (lk_link_type p))) (\<lambda>kind.
     bx_bind (on_roadmap (remove_edge (be_road v, canonical_item (lk_id p), lk_link_target p, kind))) (\<lambda>_.
     bx_lift (Inr (JObj [(''from'', JStr (canonical_item (lk_id p))), (''to'', JStr (lk_link_target p)),
       (''link_type'', JStr (lk_link_type p)), (''removed'', JBool True)]))))"

section \<open>Repairing links\<close>

definition repair_match :: "project_doc list \<Rightarrow> roadmap_edge \<Rightarrow> project_doc option" where
  "repair_match docs e =
     (let hint = (case rg_file_path e of Some f \<Rightarrow> f | None \<Rightarrow> [])
      in if hint = [] then List.find (\<lambda>d. pd_entity_id d = Some (rg_to e)) docs
         else List.find (\<lambda>d. contains_str (pd_file_path d) hint) docs)"

text \<open>The edges are those read at the start; the first failure ends the loop.\<close>

fun repair_edges ::
  "roadmap_env \<Rightarrow> bool \<Rightarrow> project_doc list \<Rightarrow> roadmap_edge list \<Rightarrow> nat \<times> nat \<Rightarrow> (nat \<times> nat) bbox_act" where
  "repair_edges v dry docs [] acc = bx_lift (Inr acc)"
| "repair_edges v dry docs (e # es) (repaired, unresolved) =
     (case repair_match docs e of
        None \<Rightarrow> repair_edges v dry docs es (repaired, unresolved + 1)
      | Some d \<Rightarrow>
          if dry then repair_edges v dry docs es (repaired + 1, unresolved)
          else bx_bind (on_roadmap (update_edge_metadata (v,
                 \<lparr>rp_from = rg_from e, rp_to = rg_to e, rp_new_to = pd_entity_id d,
                  rp_file_path = Some (pd_file_path d), rp_section_anchor = None\<rparr>)))
               (\<lambda>_. repair_edges v dry docs es (repaired + 1, unresolved)))"

definition roadmap_repair_links :: "bbox_env \<Rightarrow> string option \<Rightarrow> bool \<Rightarrow> json bbox_act" where
  "roadmap_repair_links v i dry =
     bx_store (\<lambda>s.
       let edges = designed_in_edges s i;
           docs = (case be_docs v None of Some ds \<Rightarrow> ds | None \<Rightarrow> [])
       in bx_bind (repair_edges (be_road v) dry docs edges (0, 0)) (\<lambda>(repaired, unresolved).
          bx_lift (Inr (JObj [(''total_edges'', jnat (length edges)), (''repaired'', jnat repaired),
            (''unresolved'', jnat unresolved), (''dry_run'', JBool dry)]))))"

section \<open>Promotion\<close>

record promote_params =
  pm_id :: string
  pm_project_dir :: "string option"

text \<open>The three critical sections: the item and the threads it already has, the new thread, the edge.\<close>

definition promote_read :: "promote_params \<Rightarrow> (roadmap_item \<times> string list) bbox_act" where
  "promote_read p =
     bx_store (\<lambda>s. case roadmap_find s (pm_id p) of
       None \<Rightarrow> bx_lift (Inl (''roadmap item '' @ ticked (pm_id p) @ '' not found''))
     | Some it \<Rightarrow> bx_lift (Inr (it, spawned_thread_ids s (pm_id p))))"

definition promotion_note :: "roadmap_item \<Rightarrow> string" where
  "promotion_note it =
     ''**Roadmap item:** '' @ rm_title it @ '' ('' @ rm_id it @ '')'' @ [CHR 0x0A] @
     ''**Priority:** '' @ roadmap_priority_str (rm_priority it) @ [CHR 0x0A] @
     ''**Category:** '' @ roadmap_category_str (rm_category it) @ [CHR 0x0A, CHR 0x0A] @ rm_body it"

definition promotion_thread :: "promote_params \<Rightarrow> roadmap_item \<Rightarrow> thread_params" where
  "promotion_thread p it =
     \<lparr>tp_action = ''open'', tp_name = None, tp_id = None, tp_topic = Some (''[roadmap] '' @ rm_title it),
      tp_project = (case pm_project_dir p of Some d \<Rightarrow> Some d | None \<Rightarrow> rm_project it), tp_session_id = None,
      tp_provider = None, tp_session_name = None, tp_handoff_doc = Some (promotion_note it), tp_note = None,
      tp_target = None, tp_target_type = None, tp_edge = None, tp_promoted_to = None,
      tp_kind = Some ''work_item'', tp_origin = None\<rparr>"

text \<open>The id is read back from the message: what stands before the first dash.\<close>

fun before_str :: "string \<Rightarrow> string \<Rightarrow> string" where
  "before_str sep [] = []"
| "before_str sep (c # s) = (if strip_prefix sep (c # s) \<noteq> None then [] else c # before_str sep s)"

definition created_thread_id :: "string \<Rightarrow> string + string" where
  "created_thread_id msg =
     (case strip_prefix ''Thread created: '' msg of
        Some s \<Rightarrow> Inr (before_str ('' '' @ dash_text @ '' '') s)
      | None \<Rightarrow> Inl (''failed to parse thread id from: '' @ msg))"

definition promote_open :: "bbox_env \<Rightarrow> promote_params \<Rightarrow> roadmap_item \<Rightarrow> string bbox_act" where
  "promote_open v p it bx =
     (case locked_mutation ((be_threads v)\<lparr>tc_params := promotion_thread p it, tc_write_dir := None\<rparr>) (bx_threads bx) of
        (Inl e, th) \<Rightarrow> (Inl e, bx\<lparr>bx_threads := th\<rparr>)
      | (Inr m, th) \<Rightarrow> (created_thread_id (tm_message m), bx\<lparr>bx_threads := th\<rparr>))"

definition promote_record :: "bbox_env \<Rightarrow> promote_params \<Rightarrow> string \<Rightarrow> roadmap_edge bbox_act" where
  "promote_record v p tid =
     on_roadmap (add_edge (be_road v,
       \<lparr>ra_from = canonical_item (pm_id p), ra_to = ''thread:'' @ tid, ra_kind = RoadSpawns,
        ra_note = Some (''Promoted from roadmap item '' @ pm_id p), ra_file_path = None, ra_section_anchor = None\<rparr>))"

definition already_promoted :: "string list \<Rightarrow> json" where
  "already_promoted tids =
     JObj [(''already_promoted'', JBool True), (''existing_thread_ids'', jstrs tids),
           (''message'', JStr (''Item already promoted with '' @ show_nat (length tids) @
              '' thread(s). Use bro_resume to continue.''))]"

definition roadmap_promote :: "bbox_env \<Rightarrow> promote_params \<Rightarrow> json bbox_act" where
  "roadmap_promote v p =
     bx_bind (promote_read p) (\<lambda>(it, tids).
     if tids \<noteq> [] then bx_lift (Inr (already_promoted tids))
     else bx_bind (promote_open v p it) (\<lambda>tid.
          bx_bind (promote_record v p tid) (\<lambda>_.
          bx_lift (Inr (JObj [(''id'', JStr (rm_id it)), (''title'', JStr (rm_title it)), (''thread_id'', JStr tid),
            (''message'', JStr (''Promoted '' @ ticked (rm_title it) @ '' to thread '' @ tid))])))))"

section \<open>The tool\<close>

text \<open>\<open>next\<close>, \<open>render\<close> and \<open>default_template\<close> only read.\<close>

datatype tool_action =
    ToolCreate create_params
  | ToolGet string
  | ToolList search_params
  | ToolSearch search_params
  | ToolUpdate update_params
  | ToolDelete string
  | ToolPromote promote_params
  | ToolLink link_params
  | ToolUnlink link_params
  | ToolRepairLinks "string option" bool

definition bbox_roadmap :: "bbox_env \<Rightarrow> tool_action \<Rightarrow> json bbox_act" where
  "bbox_roadmap v action =
     (case action of
        ToolCreate p \<Rightarrow> roadmap_create_tool v p
      | ToolGet i \<Rightarrow> roadmap_get i
      | ToolList p \<Rightarrow> roadmap_list_tool p
      | ToolSearch p \<Rightarrow> roadmap_search_tool v p
      | ToolUpdate p \<Rightarrow> roadmap_update_tool v p
      | ToolDelete i \<Rightarrow> roadmap_delete v i
      | ToolPromote p \<Rightarrow> roadmap_promote v p
      | ToolLink p \<Rightarrow> roadmap_link v p
      | ToolUnlink p \<Rightarrow> roadmap_unlink v p
      | ToolRepairLinks i dry \<Rightarrow> roadmap_repair_links v i dry)"

fun bbox_session :: "(bbox_env \<times> tool_action) list \<Rightarrow> bbox \<Rightarrow> bbox" where
  "bbox_session [] bx = bx"
| "bbox_session ((v, action) # calls) bx = bbox_session calls (snd (bbox_roadmap v action bx))"

end
