(* ===== verification/Roadmap_Promises.thy ===== *)
theory Roadmap_Promises
  imports Roadmap_Tools
begin

text \<open>
  What the roadmap tool promises across its two stores: every edge it leaves has an item at its start and
  a target of the type its kind takes, and a promoted item has a thread and is not promoted again.
\<close>

section \<open>Typed edges\<close>

definition target_ok :: "roadmap_edge_kind \<Rightarrow> entity_ref \<Rightarrow> bool" where
  "target_ok kind r \<longleftrightarrow>
     entity_type_of r \<in>
       (case kind of
          RoadSpawns \<Rightarrow> {ThreadType}
        | RoadDeferredFrom \<Rightarrow> {ThreadType, KnowledgeType}
        | RoadDesignedIn \<Rightarrow> {ProjectFileType, ProjectFileV2Type}
        | _ \<Rightarrow> {RoadmapItemType})"

definition typed_edge :: "roadmap_edge \<Rightarrow> bool" where
  "typed_edge e \<longleftrightarrow>
     (\<exists>i. rg_from e = canonical_item i) \<and> (\<exists>r. parse_ref (rg_to e) = Inr r \<and> target_ok (rg_kind e) r)"

definition typed :: "roadmap_store \<Rightarrow> bool" where
  "typed s \<longleftrightarrow> (\<forall>e\<in>set (rs_edges s). typed_edge e)"

text \<open>The index knows project files by references to project files.\<close>

definition docs_typed :: "bbox_env \<Rightarrow> bool" where
  "docs_typed v \<longleftrightarrow>
     (\<forall>ds. be_docs v None = Some ds \<longrightarrow>
        (\<forall>d\<in>set ds. \<forall>x. pd_entity_id d = Some x \<longrightarrow> (\<exists>r. parse_ref x = Inr r \<and> target_ok RoadDesignedIn r)))"

lemma target_check_ok: "target_check kind ty r = Inr u \<longleftrightarrow> target_ok kind r"
  by (cases kind) (simp_all add: target_check_def target_ok_def)

lemma typed_keeps [act_rules]: "keeps_from typed s (set_items its)"
  by (auto simp: keeps_from_def both_def set_items_def typed_def)

lemma typed_edges: "(\<forall>e\<in>set es. typed_edge e) \<Longrightarrow> keeps_from typed s (set_edges es)"
  by (auto simp: keeps_from_def both_def set_edges_def typed_def)

lemma typed_create: "keeps_from typed s (create_item (v, p))"
  unfolding create_item_def under_lock_def prod.case by (intro act_rules)

lemma typed_update: "keeps_from typed s (update_item (v, p))"
  unfolding update_item_def under_lock_def prod.case Let_def by (intro act_rules)

lemma typed_delete: "keeps_from typed s (delete_item (v, i))"
  unfolding delete_item_def under_lock_def prod.case
  by (intro act_rules typed_edges) (auto simp: typed_def)

lemma typed_add: "typed_edge (new_edge v p) \<Longrightarrow> keeps_from typed s (add_edge (v, p))"
  unfolding add_edge_def under_lock_def prod.case
  by (intro act_rules typed_edges) (auto simp: typed_def)

lemma typed_remove: "keeps_from typed s (remove_edge (v, src, dst, kind))"
  unfolding remove_edge_def under_lock_def prod.case
  using set_remove_first by (intro act_rules typed_edges) (fastforce simp: typed_def)

lemma typed_repaired:
  assumes "typed_edge e" "rg_kind e = RoadDesignedIn"
    and "\<And>x. rp_new_to p = Some x \<Longrightarrow> \<exists>r. parse_ref x = Inr r \<and> target_ok RoadDesignedIn r"
  shows "typed_edge (repaired_edge v p e)"
  using assms by (cases "rp_new_to p") (auto simp: typed_edge_def repaired_edge_def)

lemma typed_repair:
  assumes "typed s" "\<And>x. rp_new_to p = Some x \<Longrightarrow> \<exists>r. parse_ref x = Inr r \<and> target_ok RoadDesignedIn r"
  shows "keeps_from typed s (update_edge_metadata (v, p))"
proof -
  have "typed_edge e"
    if e: "e \<in> set (update_first (is_edge (rp_from p) (rp_to p) RoadDesignedIn) (repaired_edge v p) (rs_edges s))" for e
  proof -
    from set_update_first [OF e] consider "e \<in> set (rs_edges s)"
      | x where "List.find (is_edge (rp_from p) (rp_to p) RoadDesignedIn) (rs_edges s) = Some x" "e = repaired_edge v p x"
      by blast
    then show ?thesis
    proof cases
      case 2
      then show ?thesis using find_SomeD [OF 2(1)] typed_repaired [of x p v] assms unfolding typed_def is_edge_def by auto
    qed (use assms(1) in \<open>simp add: typed_def\<close>)
  qed
  then show ?thesis unfolding update_edge_metadata_def prod.case by (intro act_rules typed_edges) blast
qed

section \<open>The actions of the tool\<close>

definition bx_keeps :: "'a bbox_act \<Rightarrow> bool" where
  "bx_keeps m \<longleftrightarrow> (\<forall>bx. both typed (bx_roadmap bx) \<longrightarrow> both typed (bx_roadmap (snd (m bx))))"

named_theorems bx_rules \<open>rules for the shape of an action of the tool\<close>

lemma bx_keeps_bind [bx_rules]: "bx_keeps m \<Longrightarrow> (\<And>a. bx_keeps (f a)) \<Longrightarrow> bx_keeps (bx_bind m f)"
  unfolding bx_keeps_def bx_bind_def by (auto split: prod.splits sum.splits)

lemma bx_keeps_lift: "(\<And>a. r = Inr a \<Longrightarrow> bx_keeps (f a)) \<Longrightarrow> bx_keeps (bx_bind (bx_lift r) f)"
  by (cases r) (auto simp: bx_keeps_def bx_bind_def bx_lift_def)

lemma bx_keeps_basic [bx_rules]: "bx_keeps (bx_lift r)" "bx_keeps (bx_effect es)"
  by (simp_all add: bx_keeps_def bx_lift_def bx_effect_def)

lemma bx_keeps_store [bx_rules]: "(\<And>s. typed s \<Longrightarrow> bx_keeps (f s)) \<Longrightarrow> bx_keeps (bx_store f)"
  by (auto simp: bx_keeps_def bx_store_def both_def)

lemma bx_keeps_option [bx_rules]:
  "(x = None \<Longrightarrow> bx_keeps m) \<Longrightarrow> (\<And>y. x = Some y \<Longrightarrow> bx_keeps (f y)) \<Longrightarrow> bx_keeps (case x of None \<Rightarrow> m | Some y \<Rightarrow> f y)"
  by (cases x) auto

lemma bx_keeps_if [bx_rules]: "(b \<Longrightarrow> bx_keeps m) \<Longrightarrow> (\<not> b \<Longrightarrow> bx_keeps n) \<Longrightarrow> bx_keeps (if b then m else n)"
  by auto

lemma bx_keeps_prod [bx_rules]: "(\<And>a b. x = (a, b) \<Longrightarrow> bx_keeps (f a b)) \<Longrightarrow> bx_keeps (case x of (a, b) \<Rightarrow> f a b)"
  by (cases x) auto

lemma bx_keeps_road:
  assumes "\<And>s. typed s \<Longrightarrow> keeps_from typed s m"
  shows "bx_keeps (on_roadmap m)"
  unfolding bx_keeps_def
proof (intro allI impI)
  fix bx :: bbox
  assume b: "both typed (bx_roadmap bx)"
  then have "typed (hd_mem (bx_roadmap bx))" by (simp add: both_def)
  from assms [OF this] have "both typed (snd (m (bx_roadmap bx)))" using b unfolding keeps_from_def by blast
  then show "both typed (bx_roadmap (snd (on_roadmap m bx)))" by (simp add: on_roadmap_def split_beta)
qed

lemma keeps_create': "bx_keeps (roadmap_create_tool v p)"
  unfolding roadmap_create_tool_def Let_def by (intro bx_keeps_road typed_create bx_rules)

lemma keeps_update': "bx_keeps (roadmap_update_tool v p)"
  unfolding roadmap_update_tool_def by (intro bx_keeps_road typed_update bx_rules)

lemma keeps_delete': "bx_keeps (roadmap_delete v i)"
  unfolding roadmap_delete_def by (intro bx_keeps_road typed_delete bx_rules)

lemma keeps_unlink: "bx_keeps (roadmap_unlink v p)"
  unfolding roadmap_unlink_def by (intro bx_keeps_road typed_remove bx_rules)

lemma parse_link_target_ok: "parse_link_target t = Inr r \<longleftrightarrow> parse_ref t = Inr r"
  by (simp add: parse_link_target_def)

lemma keeps_link': "bx_keeps (roadmap_link v p)"
  unfolding roadmap_link_def
proof (intro bx_keeps_lift bx_rules bx_keeps_road typed_add, goal_cases)
  case (1 kind r u s w t)
  then show ?case
    by (auto simp: typed_edge_def new_edge_def parse_link_target_ok target_check_ok)
qed

lemma keeps_repairs:
  assumes "docs_typed v" "be_docs v None = Some docs \<or> docs = []"
  shows "bx_keeps (repair_edges (be_road v) dry docs es acc)"
proof (induction es arbitrary: acc)
  case (Cons e es)
  obtain m n where acc: "acc = (m, n)" by force
  show ?case
  proof (cases "repair_match docs e")
    case (Some d)
    have "d \<in> set docs" using Some find_SomeD by (fastforce simp: repair_match_def Let_def split: if_splits)
    then have "\<exists>r. parse_ref x = Inr r \<and> target_ok RoadDesignedIn r" if "pd_entity_id d = Some x" for x
      using assms that unfolding docs_typed_def by auto
    then show ?thesis
      using acc Some Cons.IH by (auto intro!: bx_keeps_bind bx_keeps_road typed_repair)
  qed (use acc Cons.IH in simp)
qed (simp add: bx_keeps_basic)

lemma keeps_repair_links: "docs_typed v \<Longrightarrow> bx_keeps (roadmap_repair_links v i dry)"
  unfolding roadmap_repair_links_def Let_def
  by (intro bx_rules keeps_repairs) (auto split: option.splits)

section \<open>Promotion\<close>

lemma hex_digit_range: "n < 16 \<Longrightarrow> 48 \<le> (of_char (hex_digit n) :: nat) \<and> (of_char (hex_digit n) :: nat) \<le> 102"
  by (simp add: hex_digit_def)

lemma hex8_chars: "c \<in> set (hex8 w) \<Longrightarrow> 48 \<le> (of_char c :: nat) \<and> (of_char c :: nat) \<le> 102"
proof -
  assume "c \<in> set (hex8 w)"
  then obtain i where "c = hex_digit (unat w div 16 ^ (7 - i) mod 16)" by (auto simp: hex8_def)
  then show ?thesis using hex_digit_range by simp
qed

lemma hex_digit_colon: "n < 16 \<Longrightarrow> hex_digit n \<noteq> CHR '':''"
proof
  assume n: "n < 16" and "hex_digit n = CHR '':''"
  then have "(of_char (hex_digit n) :: nat) = 58" by simp
  then show False using n by (simp add: hex_digit_def split: if_splits)
qed

lemma hex8_colon: "CHR '':'' \<notin> set (hex8 w)"
proof
  assume "CHR '':'' \<in> set (hex8 w)"
  then obtain i where "CHR '':'' = hex_digit (unat w div 16 ^ (7 - i) mod 16)" unfolding hex8_def set_map by blast
  then show False using hex_digit_colon [of "unat w div 16 ^ (7 - i) mod 16"] by simp
qed

lemma hex8_last: "\<exists>s c. hex8 w = s @ [c]"
  by (cases "hex8 w" rule: rev_cases) (simp_all add: hex8_def)

lemma thread_id_parses: "parse_ref (''thread:'' @ ''thread-'' @ hex8 w) = Inr (ThreadRef (''thread-'' @ hex8 w))"
proof -
  obtain s c where h: "hex8 w = s @ [c]" using hex8_last by blast
  then have "48 \<le> (of_char c :: nat) \<and> (of_char c :: nat) \<le> 102" using hex8_chars [of c w] by simp
  then have t: "trim (CHR ''t'' # (''hread:thread-'' @ s) @ [c]) = CHR ''t'' # (''hread:thread-'' @ s) @ [c]"
    by (intro trim_id) simp_all
  have e: "colon (type_str ThreadType) (''thread-'' @ hex8 w) = CHR ''t'' # (''hread:thread-'' @ s) @ [c]"
    by (simp add: colon_def type_str_def h)
  have "plain (''thread-'' @ hex8 w)" using hex8_colon by (simp add: plain_def)
  then have "parse_type ThreadType i (''thread-'' @ hex8 w) = Inr (ThreadRef (''thread-'' @ hex8 w))" for i
    by (simp add: parse_type_def parse_single_iff)
  then have "parse_ref (colon (type_str ThreadType) (''thread-'' @ hex8 w)) = Inr (ThreadRef (''thread-'' @ hex8 w))"
    using parse_at_type [of ThreadType "''thread-'' @ hex8 w"] t e by simp
  then show ?thesis by (simp add: colon_def type_str_def)
qed

lemma before_str_found: "c \<notin> set a \<Longrightarrow> before_str (c # d) (a @ (c # d) @ b) = a"
proof (induction a)
  case Nil
  have "strip_prefix (c # d) ((c # d) @ b) = Some b" unfolding strip_prefix_Some by simp
  then show ?case by simp
next
  case (Cons x a)
  then have "strip_prefix (c # d) (x # a @ (c # d) @ b) = None" by simp
  then show ?case using Cons by simp
qed

lemma created_id: "created_thread_id (''Thread created: '' @ ''thread-'' @ hex8 w @ '' '' @ dash_text @ '' '' @ r) = Inr (''thread-'' @ hex8 w)"
proof -
  have "CHR '' '' \<notin> set (hex8 w)" using hex8_chars [of "CHR '' ''" w] by auto
  then have "CHR '' '' \<notin> set (''thread-'' @ hex8 w)" by simp
  from before_str_found [OF this, of "dash_text @ '' ''" r]
  have "before_str ('' '' @ dash_text @ '' '') (''thread-'' @ hex8 w @ '' '' @ dash_text @ '' '' @ r) = ''thread-'' @ hex8 w" by simp
  moreover have "strip_prefix ''Thread created: '' (''Thread created: '' @ ''thread-'' @ hex8 w @ '' '' @ dash_text @ '' '' @ r) =
      Some (''thread-'' @ hex8 w @ '' '' @ dash_text @ '' '' @ r)" unfolding strip_prefix_Some by simp
  ultimately show ?thesis by (simp only: created_thread_id_def option.case)
qed

lemma quoted_inj [simp]: "quoted a = quoted b \<longleftrightarrow> a = b"
  by (simp add: quoted_def)

lemma saved_thread:
  assumes "act_bind (set_threads us) (\<lambda>_. act_bind (save_store fl) (\<lambda>_. act_bind (enqueue_thread t) (\<lambda>_. act_ok a))) h = (Inr m, h')"
  shows "m = a" "ts_threads (hd_mem h') = us"
  using assms by (auto simp: set_threads_def enqueue_thread_def save_store_def elim!: act_bindE split: option.splits)

lemma thread_open_result:
  assumes "thread_open c h = (Inr m, h')"
  shows "\<exists>topic t. tm_message m = ''Thread created: '' @ thread_gen_id (tc_nanos c) @ '' '' @ dash_text @ '' '' @ quoted topic \<and>
    t \<in> set (ts_threads (hd_mem h')) \<and> th_id t = thread_gen_id (tc_nanos c) \<and> th_status t = ThreadOpen"
  using assms unfolding thread_open_def Let_def
  by (elim act_bindE; simp del: append_Cons append_assoc)
    (frule saved_thread(1), drule saved_thread(2), force simp del: append_Cons append_assoc)

lemma created_gen: "created_thread_id (''Thread created: '' @ thread_gen_id n @ '' '' @ dash_text @ '' '' @ r) = Inr (thread_gen_id n)"
  unfolding thread_gen_id_def append_assoc using created_id by blast

lemma opened:
  assumes "locked_mutation c h = (Inr m, h')" "tp_action (tc_params c) = ''open''"
  shows "\<exists>w t. created_thread_id (tm_message m) = Inr (''thread-'' @ hex8 w) \<and>
    t \<in> set (ts_threads (hd_mem h')) \<and> th_id t = ''thread-'' @ hex8 w \<and> th_status t = ThreadOpen"
proof -
  obtain h1 where "thread_open c h1 = (Inr m, h')"
    using assms unfolding locked_mutation_def under_lock_def with_store_lock_def locked_action_def Let_def
    by (auto split: option.splits elim!: act_bindE)
  from thread_open_result [OF this] obtain topic t where
    m: "tm_message m = ''Thread created: '' @ thread_gen_id (tc_nanos c) @ '' '' @ dash_text @ '' '' @ quoted topic"
    and t: "t \<in> set (ts_threads (hd_mem h'))" "th_id t = thread_gen_id (tc_nanos c)" "th_status t = ThreadOpen" by blast
  have "created_thread_id (tm_message m) = Inr (thread_gen_id (tc_nanos c))"
    unfolding m by (rule created_gen)
  then show ?thesis using t unfolding thread_gen_id_def by blast
qed

lemma promote_open_result:
  assumes "promote_open v p it bx = (Inr tid, bx')"
  shows "bx_roadmap bx' = bx_roadmap bx \<and> (\<exists>w. tid = ''thread-'' @ hex8 w) \<and>
    (\<exists>t\<in>set (ts_threads (hd_mem (bx_threads bx'))). th_id t = tid \<and> th_status t = ThreadOpen)"
proof -
  let ?c = "(be_threads v)\<lparr>tc_params := promotion_thread p it, tc_write_dir := None\<rparr>"
  obtain m th where m: "locked_mutation ?c (bx_threads bx) = (Inr m, th)" "created_thread_id (tm_message m) = Inr tid"
      "bx' = bx\<lparr>bx_threads := th\<rparr>"
    using assms unfolding promote_open_def by (auto split: prod.splits sum.splits)
  have "tp_action (tc_params ?c) = ''open''" by (simp add: promotion_thread_def)
  from opened [OF m(1) this] show ?thesis using m(2,3) by auto
qed

lemma keeps_record: "bx_keeps (promote_record v p (''thread-'' @ hex8 w))"
  unfolding promote_record_def
proof (intro bx_keeps_road typed_add)
  show "typed_edge (new_edge (be_road v) \<lparr>ra_from = canonical_item (pm_id p), ra_to = ''thread:'' @ ''thread-'' @ hex8 w,
      ra_kind = RoadSpawns, ra_note = Some (''Promoted from roadmap item '' @ pm_id p), ra_file_path = None,
      ra_section_anchor = None\<rparr>)"
    unfolding typed_edge_def using thread_id_parses [of w] by (auto simp: new_edge_def target_ok_def)
qed

lemma promote_read_cases:
  obtains (missing) "roadmap_find (hd_mem (bx_roadmap bx)) (pm_id p) = None"
      "promote_read p bx = (Inl (''roadmap item '' @ ticked (pm_id p) @ '' not found''), bx)"
    | (found) it where "roadmap_find (hd_mem (bx_roadmap bx)) (pm_id p) = Some it"
      "promote_read p bx = (Inr (it, spawned_thread_ids (hd_mem (bx_roadmap bx)) (pm_id p)), bx)"
  by (cases "roadmap_find (hd_mem (bx_roadmap bx)) (pm_id p)") (auto simp: promote_read_def bx_store_def bx_lift_def)

lemma bx_bind_pair [simp]:
  "m bx = (Inl e, bx') \<Longrightarrow> bx_bind m f bx = (Inl e, bx')" "m bx = (Inr a, bx') \<Longrightarrow> bx_bind m f bx = f a bx'"
  by (simp_all add: bx_bind_def)

lemma bx_lift_pair [simp]: "bx_lift r bx = (r, bx)"
  by (simp add: bx_lift_def)

lemma keeps_promote': "bx_keeps (roadmap_promote v p)"
  unfolding bx_keeps_def
proof (intro allI impI)
  fix bx :: bbox
  assume b: "both typed (bx_roadmap bx)"
  show "both typed (bx_roadmap (snd (roadmap_promote v p bx)))"
  proof (cases rule: promote_read_cases [of bx p])
    case missing
    then show ?thesis using b by (simp add: roadmap_promote_def)
  next
    case (found it)
    let ?tids = "spawned_thread_ids (hd_mem (bx_roadmap bx)) (pm_id p)"
    show ?thesis
    proof (cases "?tids = []")
      case False
      then show ?thesis using b found by (simp add: roadmap_promote_def)
    next
      case True
      let ?f = "\<lambda>tid. bx_bind (promote_record v p tid) (\<lambda>_. bx_lift (Inr (JObj [(''id'', JStr (rm_id it)),
          (''title'', JStr (rm_title it)), (''thread_id'', JStr tid),
          (''message'', JStr (''Promoted '' @ ticked (rm_title it) @ '' to thread '' @ tid))])))"
      have p: "roadmap_promote v p bx = bx_bind (promote_open v p it) ?f bx"
        using found(2) True by (simp add: roadmap_promote_def)
      show ?thesis
      proof (cases "promote_open v p it bx")
        case (Pair r bx1)
        show ?thesis
        proof (cases r)
          case (Inl e)
          have "bx_roadmap bx1 = bx_roadmap bx"
            using Pair unfolding promote_open_def by (auto split: prod.splits sum.splits)
          then show ?thesis using b p Pair Inl by simp
        next
          case (Inr tid)
          then have o: "promote_open v p it bx = (Inr tid, bx1)" using Pair by simp
          obtain w where w: "bx_roadmap bx1 = bx_roadmap bx" "tid = ''thread-'' @ hex8 w"
            using promote_open_result [OF o] by blast
          have "bx_keeps (?f tid)"
            unfolding w(2) by (rule bx_keeps_bind [OF keeps_record]) (rule bx_keeps_basic)
          then have "both typed (bx_roadmap (snd (?f tid bx1)))" using b w(1) unfolding bx_keeps_def by metis
          moreover have "bx_bind (promote_open v p it) ?f bx = ?f tid bx1" by (rule bx_bind_pair(2)) (rule o)
          ultimately show ?thesis unfolding p by metis
        qed
      qed
    qed
  qed
qed

lemma keeps_tool: "docs_typed v \<Longrightarrow> bx_keeps (bbox_roadmap v action)"
  unfolding bbox_roadmap_def
  by (cases action)
    (simp_all add: keeps_create' keeps_update' keeps_delete' keeps_promote' keeps_link' keeps_unlink keeps_repair_links,
      simp_all add: bx_keeps_def roadmap_get_def roadmap_list_tool_def roadmap_search_tool_def Let_def split: option.splits)

section \<open>Properties\<close>


lemma add_edge_adds: "add_edge (v, p) h = (Inr e, h') \<Longrightarrow> new_edge v p \<in> set (rs_edges (hd_mem h'))"
  unfolding add_edge_def under_lock_def prod.case with_store_lock_def
  by (auto elim!: act_bindE simp: set_edges_def save_store_def split: option.splits if_splits)

lemma promote_record_adds:
  assumes "promote_record v p tid bx = (Inr e, bx')"
  shows "''thread:'' @ tid \<in> set (spawned_thread_ids (hd_mem (bx_roadmap bx')) (pm_id p)) \<and> bx_threads bx' = bx_threads bx"
  using assms unfolding promote_record_def on_roadmap_def
  by (auto split: prod.splits dest!: add_edge_adds simp: spawned_thread_ids_def spawned_edges_def new_edge_def image_iff
      intro!: bexI)

lemma bx_bindD: "bx_bind m f bx = (Inr b, bx') \<Longrightarrow> \<exists>a bx1. m bx = (Inr a, bx1) \<and> f a bx1 = (Inr b, bx')"
  by (auto simp: bx_bind_def split: prod.splits sum.splits)

lemma promote_result:
  assumes "roadmap_promote v p bx = (Inr j, bx')" "spawned_thread_ids (hd_mem (bx_roadmap bx)) (pm_id p) = []"
  shows "\<exists>t\<in>set (ts_threads (hd_mem (bx_threads bx'))). th_status t = ThreadOpen \<and>
    ''thread:'' @ th_id t \<in> set (spawned_thread_ids (hd_mem (bx_roadmap bx')) (pm_id p))"
proof (cases rule: promote_read_cases [of bx p])
  case missing
  then show ?thesis using assms(1) by (simp add: roadmap_promote_def)
next
  case (found it)
  have "bx_bind (promote_open v p it) (\<lambda>tid. bx_bind (promote_record v p tid) (\<lambda>_. bx_lift (Inr (JObj [(''id'', JStr (rm_id it)),
          (''title'', JStr (rm_title it)), (''thread_id'', JStr tid),
          (''message'', JStr (''Promoted '' @ ticked (rm_title it) @ '' to thread '' @ tid))])))) bx = (Inr j, bx')"
    using assms found(2) by (simp add: roadmap_promote_def)
  then obtain tid bx1 where o: "promote_open v p it bx = (Inr tid, bx1)"
    and r: "bx_bind (promote_record v p tid) (\<lambda>_. bx_lift (Inr (JObj [(''id'', JStr (rm_id it)),
          (''title'', JStr (rm_title it)), (''thread_id'', JStr tid),
          (''message'', JStr (''Promoted '' @ ticked (rm_title it) @ '' to thread '' @ tid))]))) bx1 = (Inr j, bx')"
    by (blast dest: bx_bindD)
  from bx_bindD [OF r] obtain e where "promote_record v p tid bx1 = (Inr e, bx')" by auto
  from promote_record_adds [OF this] promote_open_result [OF o] show ?thesis by auto
qed


section \<open>An instance\<close>

definition road_item :: roadmap_item where
  "road_item =
     \<lparr>rm_id = ''i'', rm_title = ''t'', rm_body = [], rm_status = Accepted, rm_category = Feature,
      rm_priority = LowPriority, rm_scope = ''global'', rm_project = None, rm_created_at = [], rm_updated_at = [],
      rm_transitions = [\<lparr>rt_status = Proposed, rt_at = [], rt_note = None, rt_actor = None, rt_source = None\<rparr>,
                        \<lparr>rt_status = Accepted, rt_at = [], rt_note = None, rt_actor = None, rt_source = None\<rparr>]\<rparr>"

definition road_store :: roadmap_store where
  "road_store = \<lparr>rs_version = 1, rs_items = [road_item], rs_edges = []\<rparr>"

definition road_call :: thread_call where
  "road_call =
     \<lparr>tc_faults = no_faults, tc_now = ''2026-01-01T00:00:00Z'', tc_nanos = 5, tc_lower = id, tc_debug = (\<lambda>_. []),
      tc_is_dir = (\<lambda>_. False), tc_home = None, tc_record_fault = None,
      tc_params = promotion_thread \<lparr>pm_id = ''i'', pm_project_dir = None\<rparr> road_item, tc_write_dir = None\<rparr>"

definition road_env :: bbox_env where
  "road_env =
     \<lparr>be_road = \<lparr>rv_faults = no_faults, rv_now = [], rv_hash = 1\<rparr>, be_lower = id, be_docs = (\<lambda>_. Some []),
      be_threads = road_call\<rparr>"

definition road_bbox :: bbox where
  "road_bbox =
     \<lparr>bx_roadmap = \<lparr>hd_disk = Holds road_store, hd_mem = road_store\<rparr>, bx_threads = fresh_threads, bx_effects = []\<rparr>"

lemmas road_defs = road_item_def road_store_def road_call_def road_env_def road_bbox_def

lemma road_promotes:
  "\<exists>j bx'. roadmap_promote road_env \<lparr>pm_id = ''i'', pm_project_dir = None\<rparr> road_bbox = (Inr j, bx') \<and>
     roadmap_find (hd_mem (bx_roadmap bx')) ''i'' \<noteq> None"
proof -
  let ?p = "\<lparr>pm_id = ''i'', pm_project_dir = None\<rparr>"
  have r: "promote_read ?p road_bbox = (Inr (road_item, []), road_bbox)"
    by (simp add: promote_read_def bx_store_def road_bbox_def road_store_def roadmap_find_def road_item_def
      spawned_thread_ids_def spawned_edges_def)
  have o: "\<exists>tid th. promote_open road_env ?p road_item road_bbox = (Inr tid, road_bbox\<lparr>bx_threads := th\<rparr>)"
    by (simp del: append_Cons append_assoc add: promote_open_def locked_mutation_def under_lock_def locked_action_def thread_open_def Let_def road_env_def road_call_def road_bbox_def no_faults_def with_store_lock_def reload_def fresh_threads_def promotion_thread_def required_param_def known_def thread_kind_of_def set_threads_def save_store_def enqueue_thread_def act_bind_def created_gen)
  then obtain tid th where o: "promote_open road_env ?p road_item road_bbox = (Inr tid, road_bbox\<lparr>bx_threads := th\<rparr>)"
    by blast
  have "\<exists>e bx'. promote_record road_env ?p tid (road_bbox\<lparr>bx_threads := th\<rparr>) = (Inr e, bx') \<and>
      roadmap_find (hd_mem (bx_roadmap bx')) ''i'' \<noteq> None"
    by (simp add: promote_record_def on_roadmap_def add_edge_def under_lock_def set_edges_def road_bbox_def road_env_def
      no_faults_def road_store_def road_item_def roadmap_find_def)
  then show ?thesis using r o by (auto simp: roadmap_promote_def)
qed


lemma road_typed: "both typed (bx_roadmap road_bbox)"
  by (simp add: both_def typed_def road_bbox_def road_store_def)


theorem roadmap_serialises_witness:
  "\<exists>s'. fst (snd (run_handles roadmap_run [(0, be_road road_env, DeleteItem ''i''), (1, be_road road_env, DeleteItem ''i'')]
      (Holds road_store, \<lambda>_. bx_roadmap road_bbox))) = Holds s'"
proof -
  have "fst (Holds road_store, \<lambda>_ :: nat. bx_roadmap road_bbox) = Holds road_store" by simp
  from roadmap_serialises [OF this] show ?thesis by blast
qed

theorem roadmap_edges_distinct_witness:
  "\<exists>s'. fst (snd (run_handles roadmap_run [(0, be_road road_env, DeleteItem ''i''), (1, be_road road_env, DeleteItem ''i'')]
      (Holds road_store, \<lambda>_. bx_roadmap road_bbox))) = Holds s' \<and> edges_distinct s'"
  by (rule roadmap_edges_distinct [of _ road_store]) (simp_all add: edges_distinct_def road_store_def)

theorem roadmap_histories_are_lawful_witness:
  "all_keep lawful (snd (run_handles roadmap_call
     [(0, be_road road_env, Inl (UpdateItem \<lparr>ru_id = ''i'', ru_title = None, ru_body = None, ru_status = Some Delivered,
         ru_category = None, ru_priority = None, ru_actor = None, ru_source = None\<rparr>)),
      (1, be_road road_env, Inr \<lparr>rp_from = [], rp_to = [], rp_new_to = None, rp_file_path = None, rp_section_anchor = None\<rparr>)]
     (Holds road_store, \<lambda>_. bx_roadmap road_bbox)))"
proof (rule roadmap_histories_are_lawful)
  have "lawful_item road_item" by (simp add: lawful_item_def road_item_def)
  then have "lawful road_store" by (simp add: lawful_def road_store_def)
  then show "all_keep lawful (Holds road_store, \<lambda>_. bx_roadmap road_bbox)" by (simp add: all_keep_def road_bbox_def)
qed

theorem threads_serialise_witness:
  "\<exists>s'. fst (snd (run_handles locked_mutation [(0, road_call), (1, road_call)]
      (Holds new_thread_store, \<lambda>_. fresh_threads))) = Holds s'"
proof -
  have "fst (Holds new_thread_store, \<lambda>_ :: nat. fresh_threads) = Holds new_thread_store" by simp
  from threads_serialise [OF this] show ?thesis by blast
qed


end
