(* ===== verification/Council.thy ===== *)
theory Council
  imports Stores
begin

text \<open>
  Councils (\<open>src/src/council/\<close>): a log of posts of a user and the members of a team. A turn of the user puts
  an envelope into the inbox of every member; one worker per member drains its envelopes one at a time,
  asks the member for a reply, posts it, and forwards what it mentions to other members, down to a depth.
  An envelope that stays unanswered is tried again a number of times, a long inbox is merged into one
  envelope, and a restart decides what to do with the envelopes it finds half done. The worker is a
  machine with a step for every point at which others can come between; every step writes what it
  changed, so a crash loses the workers and nothing else. Ids, instants, lower case, the digest of a frame
  and what the member answers are inputs. The command line of the member's process is left out.
\<close>

section \<open>Posts\<close>

datatype sender_kind = UserSender | BroSender | SystemSender

datatype reply_scope =
    OriginScope
  | DirectScope u64
  | CatchupScope u64 u64 "u64 list" "u64 list"

record council_post =
  kp_council_id :: string
  kp_sequence :: u64
  kp_sender_kind :: sender_kind
  kp_sender_id :: string
  kp_body :: string
  kp_addressed_to :: "string list"
  kp_reply_scope :: reply_scope
  kp_source_envelope_id :: "string option"
  kp_created_at :: string

definition mention_char :: "char \<Rightarrow> bool" where
  "mention_char c =
     (let n = (of_char c :: nat)
      in (48 \<le> n \<and> n \<le> 57) \<or> (65 \<le> n \<and> n \<le> 90) \<or> (97 \<le> n \<and> n \<le> 122) \<or> c = CHR ''-'' \<or> c = CHR ''_'')"

function mentions_from :: "string list \<Rightarrow> string \<Rightarrow> string list" where
  "mentions_from out [] = out"
| "mentions_from out (c # cs) =
     (if c \<noteq> CHR ''@'' then mentions_from out cs
      else let name = takeWhile mention_char cs; rest = dropWhile mention_char cs
           in mentions_from (if name \<noteq> [] \<and> name \<notin> set out then out @ [name] else out) rest)"
  by pat_completeness auto
termination mentions_from
  by (relation "measure (\<lambda>(_, s). length s)") (auto simp: length_dropWhile_le le_imp_less_Suc)

definition parse_mentions :: "string \<Rightarrow> string list" where
  "parse_mentions body = mentions_from [] body"

definition new_user_post :: "string \<Rightarrow> u64 \<Rightarrow> string \<Rightarrow> string \<Rightarrow> string \<Rightarrow> council_post" where
  "new_user_post cid seq sender body now =
     \<lparr>kp_council_id = cid, kp_sequence = seq, kp_sender_kind = UserSender, kp_sender_id = sender, kp_body = body,
      kp_addressed_to = parse_mentions body, kp_reply_scope = OriginScope, kp_source_envelope_id = None,
      kp_created_at = now\<rparr>"

definition new_bro_post :: "string \<Rightarrow> u64 \<Rightarrow> string \<Rightarrow> string \<Rightarrow> reply_scope \<Rightarrow> string \<Rightarrow> string \<Rightarrow> council_post" where
  "new_bro_post cid seq bro body scope env now =
     \<lparr>kp_council_id = cid, kp_sequence = seq, kp_sender_kind = BroSender, kp_sender_id = bro, kp_body = body,
      kp_addressed_to = parse_mentions body, kp_reply_scope = scope, kp_source_envelope_id = Some env,
      kp_created_at = now\<rparr>"

definition render_for_frame :: "council_post \<Rightarrow> string" where
  "render_for_frame p =
     ''turn '' @ show_nat (unat (kp_sequence p)) @ '' ['' @
     (case kp_sender_kind p of UserSender \<Rightarrow> ''user'' | BroSender \<Rightarrow> kp_sender_id p | SystemSender \<Rightarrow> ''system'') @
     ''] '' @ trim (kp_body p)"

section \<open>Envelopes\<close>

datatype envelope_status = Queued | Draining | Done | Dropped | Superseded | Failed

record reply_meta =
  re_tokens_in :: "u64 option"
  re_tokens_out :: "u64 option"
  re_latency_ms :: u64
  re_queue_depth :: u32

record inbox_envelope =
  ie_id :: string
  ie_council_id :: string
  ie_bro_id :: string
  ie_status :: envelope_status
  ie_reply_scope :: reply_scope
  ie_rendered_frame_hash :: "string option"
  ie_addressed_by_user :: bool
  ie_mentioned_by_bro :: bool
  ie_source_post_seq :: "u64 option"
  ie_relay_depth :: u32
  ie_attempt_count :: u32
  ie_lease_owner :: "string option"
  ie_lease_expires_at :: "string option"
  ie_last_error :: "string option"
  ie_next_retry_at :: "string option"
  ie_superseded_by :: "string option"
  ie_reply_post_seq :: "u64 option"
  ie_drop_reason :: "string option"
  ie_reply_meta :: "reply_meta option"
  ie_enqueued_at :: string
  ie_started_at :: "string option"
  ie_finished_at :: "string option"

definition new_queued ::
  "string \<Rightarrow> string \<Rightarrow> string \<Rightarrow> reply_scope \<Rightarrow> bool \<Rightarrow> bool \<Rightarrow> u64 option \<Rightarrow> u32 \<Rightarrow> string \<Rightarrow> inbox_envelope" where
  "new_queued i cid bro scope addressed mentioned source depth now =
     \<lparr>ie_id = i, ie_council_id = cid, ie_bro_id = bro, ie_status = Queued, ie_reply_scope = scope,
      ie_rendered_frame_hash = None, ie_addressed_by_user = addressed, ie_mentioned_by_bro = mentioned,
      ie_source_post_seq = source, ie_relay_depth = depth, ie_attempt_count = 0, ie_lease_owner = None,
      ie_lease_expires_at = None, ie_last_error = None, ie_next_retry_at = None, ie_superseded_by = None, ie_reply_post_seq = None,
      ie_drop_reason = None, ie_reply_meta = None, ie_enqueued_at = now, ie_started_at = None, ie_finished_at = None\<rparr>"

section \<open>The council\<close>

record council_config =
  cg_max_inbox_depth :: nat
  cg_relay_depth_max :: u32
  cg_mention_dedupe :: bool
  cg_fanout_per_cascade :: nat
  cg_low_signal_patterns :: "string list"
  cg_lease_ttl_secs :: u64
  cg_max_attempts :: u32

definition default_council_config :: council_config where
  "default_council_config =
     \<lparr>cg_max_inbox_depth = 3, cg_relay_depth_max = 3, cg_mention_dedupe = True, cg_fanout_per_cascade = 5,
      cg_low_signal_patterns = [''^pass$'', ''^no comment$'', ''^agreed'' @ [CHR 0x5C] @ ''.?$'',
                                ''^sounds good'' @ [CHR 0x5C] @ ''.?$''],
      cg_lease_ttl_secs = 300, cg_max_attempts = 3\<rparr>"

datatype council_status = CouncilOpen | CouncilClosed

record council_session =
  kn_id :: string
  kn_team_id :: string
  kn_project :: "string option"
  kn_topic :: string
  kn_charter :: string
  kn_member_sessions :: "string smap"
  kn_config :: council_config
  kn_status :: council_status
  kn_created_at :: string
  kn_updated_at :: string

definition new_session :: "string \<Rightarrow> string \<Rightarrow> string \<Rightarrow> string \<Rightarrow> string option \<Rightarrow> string \<Rightarrow> council_session" where
  "new_session i team topic charter project now =
     \<lparr>kn_id = i, kn_team_id = team, kn_project = project, kn_topic = topic, kn_charter = charter,
      kn_member_sessions = [], kn_config = default_council_config, kn_status = CouncilOpen, kn_created_at = now,
      kn_updated_at = now\<rparr>"

text \<open>Where a worker is: between envelopes, past the check of the council's status, with an envelope it took and
  the length of the inbox behind it, with the member at work, with the reply posted, and with the envelope
  done and the mentions to forward.\<close>

datatype worker =
    WIdle
  | WReady
  | WTaken inbox_envelope u32
  | WRunning inbox_envelope u32
  | WPosted inbox_envelope u32 council_post
  | WForward inbox_envelope council_post

datatype council_event =
    PostEvent council_post
  | EnvelopeChanged string string envelope_status
  | ClosedEvent

text \<open>\<open>cs_workers\<close> are the tasks, by member; \<open>cs_turns\<close> the posts of the user whose envelopes are still to be written.\<close>

record council =
  cs_session :: council_session
  cs_envelopes :: "inbox_envelope list"
  cs_posts :: "council_post list"
  cs_next_sequence :: u64
  cs_workers :: "string \<rightharpoonup> worker"
  cs_turns :: "council_post list"
  cs_events :: "council_event list"

definition config_of :: "council \<Rightarrow> council_config" where
  "config_of c = kn_config (cs_session c)"

definition touch :: "string \<Rightarrow> council \<Rightarrow> council" where
  "touch now c = c\<lparr>cs_session := (cs_session c)\<lparr>kn_updated_at := now\<rparr>\<rparr>"

definition emit_council :: "council_event \<Rightarrow> council \<Rightarrow> council" where
  "emit_council ev c = c\<lparr>cs_events := cs_events c @ [ev]\<rparr>"

definition alloc_sequence :: "council \<Rightarrow> u64 \<times> council" where
  "alloc_sequence c = (cs_next_sequence c, c\<lparr>cs_next_sequence := cs_next_sequence c + 1\<rparr>)"

definition ensure_worker :: "string \<Rightarrow> council \<Rightarrow> council" where
  "ensure_worker bro c =
     (if cs_workers c bro = None then c\<lparr>cs_workers := (cs_workers c)(bro \<mapsto> WIdle)\<rparr> else c)"

definition set_worker :: "string \<Rightarrow> worker \<Rightarrow> council \<Rightarrow> council" where
  "set_worker bro w c = c\<lparr>cs_workers := (cs_workers c)(bro \<mapsto> w)\<rparr>"

definition change_envelope :: "string \<Rightarrow> (inbox_envelope \<Rightarrow> inbox_envelope) \<Rightarrow> council \<Rightarrow> council" where
  "change_envelope i f c = c\<lparr>cs_envelopes := update_first (\<lambda>e. ie_id e = i) f (cs_envelopes c)\<rparr>"

section \<open>Taking an envelope\<close>

definition queued_for :: "string \<Rightarrow> inbox_envelope \<Rightarrow> bool" where
  "queued_for bro e = (ie_bro_id e = bro \<and> ie_status e = Queued)"

definition count_queued_for :: "string \<Rightarrow> council \<Rightarrow> u32" where
  "count_queued_for bro c = of_nat (length (filter (queued_for bro) (cs_envelopes c)))"

definition source_seqs :: "inbox_envelope list \<Rightarrow> u64 list" where
  "source_seqs es = concat (map (\<lambda>e. case ie_source_post_seq e of Some s \<Rightarrow> [s] | None \<Rightarrow> []) es)"

definition catchup_of :: "inbox_envelope list \<Rightarrow> reply_scope" where
  "catchup_of es =
     (let included = source_seqs es
      in CatchupScope (foldl min (- 1) included) (foldl max 0 included) (dedup (sort included)) [])"

definition start_draining :: "string \<Rightarrow> string \<Rightarrow> string \<Rightarrow> inbox_envelope \<Rightarrow> inbox_envelope" where
  "start_draining owner now until e =
     e\<lparr>ie_status := Draining, ie_lease_owner := Some owner, ie_lease_expires_at := Some until, ie_started_at := Some now\<rparr>"

definition supersede :: "string \<Rightarrow> string \<Rightarrow> inbox_envelope \<Rightarrow> inbox_envelope" where
  "supersede primary now e =
     e\<lparr>ie_status := Superseded, ie_superseded_by := Some primary, ie_finished_at := Some now\<rparr>"

text \<open>Changes every match but the first.\<close>

fun change_rest :: "('a \<Rightarrow> bool) \<Rightarrow> ('a \<Rightarrow> 'a) \<Rightarrow> 'a list \<Rightarrow> 'a list" where
  "change_rest P g [] = []"
| "change_rest P g (x # xs) =
     (if P x then x # map (\<lambda>y. if P y then g y else y) xs else x # change_rest P g xs)"

definition take_next :: "string \<Rightarrow> string \<Rightarrow> string \<Rightarrow> council \<Rightarrow> (inbox_envelope \<times> council) option" where
  "take_next bro now until c =
     (let queue = filter (queued_for bro) (cs_envelopes c);
          owner = ''council:'' @ kn_id (cs_session c) @ ''/'' @ bro
      in case queue of
           [] \<Rightarrow> None
         | e # _ \<Rightarrow>
             if cg_max_inbox_depth (config_of c) \<le> length queue
             then let f = (\<lambda>e. start_draining owner now until (e\<lparr>ie_reply_scope := catchup_of queue\<rparr>))
                  in Some (f e, c\<lparr>cs_envelopes := update_first (queued_for bro) f
                       (change_rest (queued_for bro) (supersede (ie_id e) now) (cs_envelopes c))\<rparr>)
             else let f = start_draining owner now until
                  in Some (f e, c\<lparr>cs_envelopes := update_first (queued_for bro) f (cs_envelopes c)\<rparr>))"

section \<open>What becomes of an envelope\<close>

definition release :: "inbox_envelope \<Rightarrow> inbox_envelope" where
  "release e = e\<lparr>ie_lease_owner := None, ie_lease_expires_at := None\<rparr>"

definition fail_envelope :: "string \<Rightarrow> string \<Rightarrow> string \<Rightarrow> string \<Rightarrow> council \<Rightarrow> council" where
  "fail_envelope i bro reason now c =
     emit_council (EnvelopeChanged i bro Failed)
       (change_envelope i (\<lambda>e. release (e\<lparr>ie_status := Failed, ie_last_error := Some reason,
                                          ie_finished_at := Some now\<rparr>)) c)"

definition retried :: "u32 \<Rightarrow> string \<Rightarrow> string \<Rightarrow> inbox_envelope \<Rightarrow> inbox_envelope" where
  "retried max_attempts reason now e =
     (let e1 = release (e\<lparr>ie_attempt_count := ie_attempt_count e + 1, ie_last_error := Some reason\<rparr>)
      in if max_attempts \<le> ie_attempt_count e1
         then e1\<lparr>ie_status := Failed, ie_finished_at := Some now\<rparr>
         else e1\<lparr>ie_status := Queued\<rparr>)"

definition retry_or_fail :: "string \<Rightarrow> string \<Rightarrow> string \<Rightarrow> string \<Rightarrow> council \<Rightarrow> council" where
  "retry_or_fail i bro reason now c =
     (let f = retried (cg_max_attempts (config_of c)) reason now
      in case List.find (\<lambda>e. ie_id e = i) (cs_envelopes c) of
           Some e \<Rightarrow> emit_council (EnvelopeChanged i (ie_bro_id e) (ie_status (f e))) (change_envelope i f c)
         | None \<Rightarrow> emit_council (EnvelopeChanged i [] Queued) c)"

definition terminal_envelope ::
  "string \<Rightarrow> string \<Rightarrow> envelope_status \<Rightarrow> string option \<Rightarrow> u64 option \<Rightarrow> reply_meta \<Rightarrow> string \<Rightarrow> council \<Rightarrow> council" where
  "terminal_envelope i bro st drop_reason seq meta now c =
     emit_council (EnvelopeChanged i bro st)
       (change_envelope i (\<lambda>e. release (e\<lparr>ie_status := st, ie_drop_reason := drop_reason, ie_reply_post_seq := seq,
                                          ie_reply_meta := Some meta, ie_finished_at := Some now\<rparr>)) c)"

section \<open>Replies\<close>

definition strip_anchors :: "string \<Rightarrow> string" where
  "strip_anchors pat =
     rev (dropWhile (\<lambda>c. c = CHR ''$'') (rev (dropWhile (\<lambda>c. c = CHR ''^'') pat)))"

definition matches_low_signal :: "(string \<Rightarrow> string) \<Rightarrow> string \<Rightarrow> string list \<Rightarrow> bool" where
  "matches_low_signal lower reply patterns =
     list_ex (\<lambda>pat. lower (trim reply) = lower (strip_anchors pat)) patterns"

definition decide_drop :: "(string \<Rightarrow> string) \<Rightarrow> string \<Rightarrow> bool \<Rightarrow> string list \<Rightarrow> string option" where
  "decide_drop lower reply addressed patterns =
     (if reply = [] then Some (if addressed then ''addressed_but_empty'' else ''empty'')
      else if matches_low_signal lower reply patterns
           then (if addressed then None else Some ''low_signal'')
           else None)"

section \<open>Forwarding mentions\<close>

text \<open>\<open>ids\<close> gives the id of the n-th new envelope.\<close>

fun forward_loop ::
  "council_config \<Rightarrow> string list \<Rightarrow> (u64 \<times> string) set \<Rightarrow> council_post \<Rightarrow> (nat \<Rightarrow> string \<Rightarrow> inbox_envelope) \<Rightarrow>
   string list \<Rightarrow> inbox_envelope list \<Rightarrow> inbox_envelope list" where
  "forward_loop cfg members already p mk [] out = out"
| "forward_loop cfg members already p mk (m # ms) out =
     (if m = kp_sender_id p \<or> m \<notin> set members \<or>
         cg_mention_dedupe cfg \<and> (kp_sequence p, m) \<in> already
      then forward_loop cfg members already p mk ms out
      else if cg_fanout_per_cascade cfg \<le> length out then out
      else forward_loop cfg members already p mk ms (out @ [mk (length out) m]))"

definition enqueued_keys :: "council \<Rightarrow> (u64 \<times> string) set" where
  "enqueued_keys c =
     set (concat (map (\<lambda>e. case ie_source_post_seq e of Some s \<Rightarrow> [(s, ie_bro_id e)] | None \<Rightarrow> []) (cs_envelopes c)))"

definition forwarded ::
  "string list \<Rightarrow> (nat \<Rightarrow> string) \<Rightarrow> string \<Rightarrow> council_post \<Rightarrow> u32 \<Rightarrow> council \<Rightarrow> inbox_envelope list" where
  "forwarded members ids now p depth c =
     (if kp_addressed_to p = [] \<or> cg_relay_depth_max (config_of c) < depth + 1 then []
      else forward_loop (config_of c) members (if cg_mention_dedupe (config_of c) then enqueued_keys c else {}) p
             (\<lambda>n m. new_queued (ids n) (kn_id (cs_session c)) m (DirectScope (kp_sequence p)) False True
                      (Some (kp_sequence p)) (depth + 1) now)
             (kp_addressed_to p) [])"

definition announce :: "inbox_envelope \<Rightarrow> council \<Rightarrow> council" where
  "announce e c = ensure_worker (ie_bro_id e) (emit_council (EnvelopeChanged (ie_id e) (ie_bro_id e) (ie_status e)) c)"

definition forward_mentions :: "string list \<Rightarrow> (nat \<Rightarrow> string) \<Rightarrow> string \<Rightarrow> council_post \<Rightarrow> u32 \<Rightarrow> council \<Rightarrow> council" where
  "forward_mentions members ids now p depth c =
     (let es = forwarded members ids now p depth c
      in foldl (\<lambda>c e. announce e c) (c\<lparr>cs_envelopes := cs_envelopes c @ es\<rparr>) es)"

section \<open>A turn of the user\<close>

definition user_post :: "string \<Rightarrow> string \<Rightarrow> string \<Rightarrow> string option \<Rightarrow> council \<Rightarrow> (string + u64) \<times> council" where
  "user_post sender body now fault c =
     (if kn_status (cs_session c) = CouncilClosed then (Inl (''council '' @ kn_id (cs_session c) @ '' is closed''), c)
      else let (seq, c1) = alloc_sequence c
           in case fault of
                Some e \<Rightarrow> (Inl e, c1)
              | None \<Rightarrow>
                  (let p = new_user_post (kn_id (cs_session c)) seq sender body now
                   in (Inr seq, touch now (c1\<lparr>cs_posts := cs_posts c1 @ [p], cs_turns := cs_turns c1 @ [p]\<rparr>))))"

definition user_envelope :: "string \<Rightarrow> string \<Rightarrow> string \<Rightarrow> council_post \<Rightarrow> string \<Rightarrow> inbox_envelope" where
  "user_envelope i cid now p member =
     new_queued i cid member (DirectScope (kp_sequence p)) (member \<in> set (kp_addressed_to p)) False
       (Some (kp_sequence p)) 0 now"

definition user_envelopes :: "string list \<Rightarrow> (nat \<Rightarrow> string) \<Rightarrow> string \<Rightarrow> council_post \<Rightarrow> council \<Rightarrow> inbox_envelope list" where
  "user_envelopes members ids now p c =
     map (\<lambda>(n, m). user_envelope (ids n) (kn_id (cs_session c)) now p m) (enumerate 0 members)"

definition user_fan :: "string list \<Rightarrow> (nat \<Rightarrow> string) \<Rightarrow> string \<Rightarrow> council_post \<Rightarrow> council \<Rightarrow> council" where
  "user_fan members ids now p c =
     (let es = user_envelopes members ids now p c;
          c1 = emit_council (PostEvent p) (c\<lparr>cs_envelopes := cs_envelopes c @ es, cs_turns := remove1 p (cs_turns c)\<rparr>)
      in foldl (\<lambda>c m. ensure_worker m c)
           (foldl (\<lambda>c e. emit_council (EnvelopeChanged (ie_id e) (ie_bro_id e) (ie_status e)) c) c1 es) members)"

section \<open>Closing and restarting\<close>

text \<open>Closing cancels the workers and forgets their handles; their tasks go on to the end of the envelope they have
  in hand and then find the council closed, as does any started after them.\<close>

definition close_council :: "string \<Rightarrow> council \<Rightarrow> council" where
  "close_council now c =
     emit_council ClosedEvent
       (touch now (c\<lparr>cs_session := (cs_session c)\<lparr>kn_status := CouncilClosed\<rparr>\<rparr>))"

definition reconcile_envelope :: "u32 \<Rightarrow> string set \<Rightarrow> string \<Rightarrow> inbox_envelope \<Rightarrow> inbox_envelope" where
  "reconcile_envelope max_attempts answered now e =
     (if ie_status e \<noteq> Draining then e
      else if ie_id e \<in> answered then release (e\<lparr>ie_status := Done, ie_finished_at := Some now\<rparr>)
      else let e1 = release (e\<lparr>ie_attempt_count := ie_attempt_count e + 1\<rparr>)
           in if max_attempts \<le> ie_attempt_count e1
              then e1\<lparr>ie_status := Failed,
                      ie_last_error := Some ''daemon restarted while draining; attempt budget exhausted'',
                      ie_finished_at := Some now\<rparr>
              else e1\<lparr>ie_status := Queued, ie_last_error := Some ''daemon restarted while draining''\<rparr>)"

definition answered_envelopes :: "council \<Rightarrow> string set" where
  "answered_envelopes c =
     set (concat (map (\<lambda>p. case kp_source_envelope_id p of Some i \<Rightarrow> [i] | None \<Rightarrow> []) (cs_posts c)))"

definition reconcile_draining_at_restart :: "string \<Rightarrow> council \<Rightarrow> council" where
  "reconcile_draining_at_restart now c =
     c\<lparr>cs_envelopes := map (reconcile_envelope (cg_max_attempts (config_of c)) (answered_envelopes c) now)
                          (cs_envelopes c)\<rparr>"

definition restore_council :: "council \<Rightarrow> council" where
  "restore_council c =
     c\<lparr>cs_workers := Map.empty, cs_turns := [], cs_events := [],
       cs_next_sequence := foldl max 0 (map kp_sequence (cs_posts c)) + 1\<rparr>"

definition respawn_workers :: "string \<Rightarrow> council \<Rightarrow> council" where
  "respawn_workers now c =
     (if kn_status (cs_session c) = CouncilClosed then c
      else let c1 = reconcile_draining_at_restart now c
           in foldl (\<lambda>c b. ensure_worker b c) c1
                (map ie_bro_id (filter (\<lambda>e. ie_status e = Queued) (cs_envelopes c1))))"

section \<open>What a member reads\<close>

definition render_frame :: "council_post list \<Rightarrow> (council_post \<Rightarrow> bool) \<Rightarrow> string" where
  "render_frame ps P = concat (map (\<lambda>p. render_for_frame p @ [CHR 0x0A]) (filter P ps))"

definition build_council_block ::
  "string \<Rightarrow> string \<Rightarrow> u32 \<Rightarrow> bool \<Rightarrow> bool \<Rightarrow> string option \<Rightarrow> string option \<Rightarrow> string" where
  "build_council_block bro charter depth addressed mentioned replay catchup =
     (let nl = [CHR 0x0A]; dash = [CHR 0xE2, CHR 0x80, CHR 0x94]
      in ''[council]'' @ nl @ ''your name: '' @ bro @ nl @
         (if 0 < depth
          then ''queue depth: '' @ show_nat (unat depth) @ '' turn(s) waiting behind this one '' @ dash @
               '' be terse, skip optional riffs'' @ nl
          else []) @
         (if addressed then ''addressed: yes (the user mentioned you directly '' @ dash @ '' you must respond)'' @ nl
          else if mentioned then ''addressed: another bro mentioned you (response optional but encouraged)'' @ nl
          else []) @
         nl @ charter @ nl @ nl @
         (case replay of
            Some frame \<Rightarrow>
              ''[council: replay]'' @ nl @
              ''You joined this council mid-deliberation. The full prior transcript follows; read it before contributing.'' @
              nl @ nl @ trim_end frame @ nl @ nl
          | None \<Rightarrow> []) @
         (case catchup of
            Some frame \<Rightarrow>
              ''[council: catchup]'' @ nl @
              ''You fell behind. Several turns happened while your prior reply was in flight. Review the missed turns; if anything still warrants a contribution '' @ dash @
              '' correction, sharpening, missed angle '' @ dash @
              '' say it. If those points are already settled or the conversation has moved past them, pass. One consolidated reply preferred over a thread of micro-replies.'' @
              nl @ nl @ trim_end frame @ nl @ nl
          | None \<Rightarrow> []))"

text \<open>The replay, the catch-up and the current turn of an envelope; the member has a session already or not.\<close>

definition turn_frames :: "council_post list \<Rightarrow> bool \<Rightarrow> reply_scope \<Rightarrow> string option \<times> string option \<times> string" where
  "turn_frames ps is_resume scope =
     (case scope of
        CatchupScope a b included omitted \<Rightarrow>
          (None, Some (render_frame ps (\<lambda>p. kp_sequence p \<in> set included)), [])
      | DirectScope seq \<Rightarrow>
          (let current = (case List.find (\<lambda>p. kp_sequence p = seq) ps of Some p \<Rightarrow> render_for_frame p | None \<Rightarrow> []);
               replay = render_frame ps (\<lambda>p. kp_sequence p < seq)
           in (if is_resume \<or> trim replay = [] then None else Some replay, None, current))
      | OriginScope \<Rightarrow> (None, None, []))"

definition turn_body :: "council \<Rightarrow> inbox_envelope \<Rightarrow> u32 \<Rightarrow> string" where
  "turn_body c e depth =
     (let is_resume = obj_get (kn_member_sessions (cs_session c)) (ie_bro_id e) \<noteq> None;
          (replay, catchup, current) = turn_frames (cs_posts c) is_resume (ie_reply_scope e);
          block = build_council_block (ie_bro_id e) (kn_charter (cs_session c)) depth (ie_addressed_by_user e)
                    (ie_mentioned_by_bro e) replay catchup
      in if current = [] then block else block @ current @ [CHR 0x0A])"

section \<open>The machine\<close>

text \<open>The steps of the workers, the user, the operator and the daemon's restarts, with what each reads from
  outside. A step that its worker is not ready for does not happen.\<close>

datatype council_action =
    ACheck string
  | ATake string string string
  | ADispatchFails string string string
  | ADispatch string string
  | ARetry string string string
  | AReply string string string "string option" u64 string
  | ASettle string u64 string
  | AForward string "string list" "nat \<Rightarrow> string" string
  | AUserPost string string "string option" string
  | AUserFan council_post "string list" "nat \<Rightarrow> string" string
  | AClose string
  | ACrash string

definition meta_of :: "u64 \<Rightarrow> u32 \<Rightarrow> reply_meta" where
  "meta_of latency depth =
     \<lparr>re_tokens_in = None, re_tokens_out = None, re_latency_ms = latency, re_queue_depth = depth\<rparr>"

definition record_session :: "string \<Rightarrow> string \<Rightarrow> string \<Rightarrow> council \<Rightarrow> council" where
  "record_session bro sid now c =
     touch now (c\<lparr>cs_session := (cs_session c)\<lparr>kn_member_sessions := obj_insert (kn_member_sessions (cs_session c)) bro sid\<rparr>\<rparr>)"

text \<open>What a member's reply does: dropped, it settles the envelope; else it is posted.\<close>

definition reply_step ::
  "(string \<Rightarrow> string) \<Rightarrow> string \<Rightarrow> string \<Rightarrow> string \<Rightarrow> string option \<Rightarrow> u64 \<Rightarrow> string \<Rightarrow> inbox_envelope \<Rightarrow> u32 \<Rightarrow>
   council \<Rightarrow> council" where
  "reply_step lower bro sid reply fault latency now e depth c0 =
     (let c = record_session bro sid now c0; trimmed = trim reply
      in case decide_drop lower trimmed (ie_addressed_by_user e) (cg_low_signal_patterns (config_of c)) of
           Some reason \<Rightarrow>
             set_worker bro WIdle
               (terminal_envelope (ie_id e) bro (if reason = ''addressed_but_empty'' then Failed else Dropped)
                  (Some reason) None (meta_of latency depth) now c)
         | None \<Rightarrow>
             (let (seq, c1) = alloc_sequence c
              in case fault of
                   Some err \<Rightarrow> set_worker bro WIdle (retry_or_fail (ie_id e) bro (''append post: '' @ err) now c1)
                 | None \<Rightarrow>
                     (let p = new_bro_post (kn_id (cs_session c)) seq bro trimmed (ie_reply_scope e) (ie_id e) now
                      in set_worker bro (WPosted e depth p)
                           (emit_council (PostEvent p) (c1\<lparr>cs_posts := cs_posts c1 @ [p]\<rparr>)))))"

definition worker_step :: "(string \<Rightarrow> string) \<Rightarrow> council_action \<Rightarrow> string \<Rightarrow> worker \<Rightarrow> council \<Rightarrow> council option" where
  "worker_step lower a bro w c =
     (case (a, w) of
        (ACheck _, WIdle) \<Rightarrow>
          (if kn_status (cs_session c) = CouncilOpen then Some (set_worker bro WReady c) else None)
      | (ATake _ now until, WReady) \<Rightarrow>
          (case take_next bro now until c of
             None \<Rightarrow> Some (set_worker bro WIdle c)
           | Some (e, c1) \<Rightarrow>
               Some (set_worker bro (WTaken e (count_queued_for bro c1))
                       (emit_council (EnvelopeChanged (ie_id e) bro (ie_status e)) c1)))
      | (ADispatchFails _ reason now, WTaken e _) \<Rightarrow>
          Some (set_worker bro WIdle (fail_envelope (ie_id e) bro reason now c))
      | (ADispatch _ hash, WTaken e depth) \<Rightarrow>
          Some (set_worker bro (WRunning e depth)
                  (change_envelope (ie_id e) (\<lambda>e. e\<lparr>ie_rendered_frame_hash := Some hash\<rparr>) c))
      | (ARetry _ reason now, WRunning e _) \<Rightarrow>
          Some (set_worker bro WIdle (retry_or_fail (ie_id e) bro reason now c))
      | (AReply _ sid reply fault latency now, WRunning e depth) \<Rightarrow>
          Some (reply_step lower bro sid reply fault latency now e depth c)
      | (ASettle _ latency now, WPosted e depth p) \<Rightarrow>
          Some (set_worker bro (WForward e p)
                  (terminal_envelope (ie_id e) bro Done None (Some (kp_sequence p)) (meta_of latency depth) now c))
      | (AForward _ members ids now, WForward e p) \<Rightarrow>
          Some (set_worker bro WIdle (forward_mentions members ids now p (ie_relay_depth e) c))
      | _ \<Rightarrow> None)"

fun action_bro :: "council_action \<Rightarrow> string option" where
  "action_bro (ACheck b) = Some b"
| "action_bro (ATake b _ _) = Some b"
| "action_bro (ADispatchFails b _ _) = Some b"
| "action_bro (ADispatch b _) = Some b"
| "action_bro (ARetry b _ _) = Some b"
| "action_bro (AReply b _ _ _ _ _) = Some b"
| "action_bro (ASettle b _ _) = Some b"
| "action_bro (AForward b _ _ _) = Some b"
| "action_bro _ = None"

definition council_step :: "(string \<Rightarrow> string) \<Rightarrow> council_action \<Rightarrow> council \<Rightarrow> council option" where
  "council_step lower a c =
     (case action_bro a of
        Some bro \<Rightarrow> (case cs_workers c bro of Some w \<Rightarrow> worker_step lower a bro w c | None \<Rightarrow> None)
      | None \<Rightarrow>
          (case a of
             AUserPost sender body fault now \<Rightarrow> Some (snd (user_post sender body now fault c))
           | AUserFan p members ids now \<Rightarrow>
               if p \<in> set (cs_turns c) then Some (user_fan members ids now p c) else None
           | AClose now \<Rightarrow> Some (close_council now c)
           | ACrash now \<Rightarrow> Some (respawn_workers now (restore_council c))
           | _ \<Rightarrow> None))"

fun council_run :: "(string \<Rightarrow> string) \<Rightarrow> council_action list \<Rightarrow> council \<Rightarrow> council option" where
  "council_run lower [] c = Some c"
| "council_run lower (a # as) c =
     (case council_step lower a c of Some c1 \<Rightarrow> council_run lower as c1 | None \<Rightarrow> None)"

definition new_council :: "string \<Rightarrow> string \<Rightarrow> string \<Rightarrow> string \<Rightarrow> string option \<Rightarrow> string \<Rightarrow> council" where
  "new_council i team topic charter project now =
     \<lparr>cs_session = new_session i team topic charter project now, cs_envelopes = [], cs_posts = [],
      cs_next_sequence = 1, cs_workers = Map.empty, cs_turns = [], cs_events = []\<rparr>"

end
