(* ===== verification/Council_Guarantees.thy ===== *)
theory Council_Guarantees
  imports Council
begin

text \<open>
  What the machine of a council keeps, restarts included: a member works on one envelope at a time, a lease
  is held exactly while an envelope is drained, attempts and relays stay within their limits, and no
  envelope is answered by two posts.
\<close>

section \<open>The invariant\<close>

definition attempts_of :: "council_config \<Rightarrow> nat" where
  "attempts_of cfg = max 1 (unat (cg_max_attempts cfg))"

definition envelope_ok :: "council_config \<Rightarrow> inbox_envelope \<Rightarrow> bool" where
  "envelope_ok cfg e \<longleftrightarrow>
     (ie_lease_owner e \<noteq> None \<longleftrightarrow> ie_status e = Draining) \<and>
     (ie_status e \<in> {Queued, Draining} \<longrightarrow> unat (ie_attempt_count e) < attempts_of cfg) \<and>
     ie_relay_depth e \<le> cg_relay_depth_max cfg"

fun holding :: "worker \<Rightarrow> inbox_envelope option" where
  "holding (WTaken e _) = Some e"
| "holding (WRunning e _) = Some e"
| "holding (WPosted e _ _) = Some e"
| "holding _ = None"

fun posted :: "worker \<Rightarrow> bool" where
  "posted (WPosted _ _ _) = True"
| "posted _ = False"

definition sources :: "council_post list \<Rightarrow> string list" where
  "sources ps = concat (map (\<lambda>p. case kp_source_envelope_id p of Some i \<Rightarrow> [i] | None \<Rightarrow> []) ps)"

definition held :: "string \<Rightarrow> inbox_envelope \<Rightarrow> inbox_envelope list \<Rightarrow> bool" where
  "held b h es \<longleftrightarrow>
     (\<exists>e\<in>set es. ie_id e = ie_id h \<and> ie_bro_id e = b \<and> ie_status e = Draining \<and> ie_relay_depth e = ie_relay_depth h)"

definition holds_all :: "(string \<rightharpoonup> worker) \<Rightarrow> inbox_envelope list \<Rightarrow> bool" where
  "holds_all W es \<longleftrightarrow> (\<forall>b w h. W b = Some w \<longrightarrow> holding w = Some h \<longrightarrow> held b h es)"

definition drained :: "(string \<rightharpoonup> worker) \<Rightarrow> inbox_envelope list \<Rightarrow> bool" where
  "drained W es \<longleftrightarrow>
     (\<forall>e\<in>set es. ie_status e = Draining \<longrightarrow>
        (\<exists>w h. W (ie_bro_id e) = Some w \<and> holding w = Some h \<and> ie_id h = ie_id e))"

definition answered :: "(string \<rightharpoonup> worker) \<Rightarrow> inbox_envelope list \<Rightarrow> string \<Rightarrow> bool" where
  "answered W es i \<longleftrightarrow>
     (\<exists>e\<in>set es. ie_id e = i \<and>
        (ie_status e = Done \<or>
         ie_status e = Draining \<and> (\<forall>b w h. W b = Some w \<longrightarrow> holding w = Some h \<longrightarrow> ie_id h = i \<longrightarrow> posted w)))"

definition good ::
  "council_config \<Rightarrow> bool \<Rightarrow> inbox_envelope list \<Rightarrow> council_post list \<Rightarrow> (string \<rightharpoonup> worker) \<Rightarrow> bool" where
  "good cfg op' es ps W \<longleftrightarrow>
     (\<forall>e\<in>set es. envelope_ok cfg e) \<and> distinct (map ie_id es) \<and> holds_all W es \<and> (op' \<longrightarrow> drained W es) \<and>
     distinct (sources ps) \<and> (\<forall>i\<in>set (sources ps). answered W es i)"

definition council_ok :: "council \<Rightarrow> bool" where
  "council_ok c \<longleftrightarrow>
     good (config_of c) (kn_status (cs_session c) = CouncilOpen) (cs_envelopes c) (cs_posts c) (cs_workers c)"

text \<open>A change of the envelopes one by one that keeps who and where they are.\<close>

definition steady :: "(inbox_envelope \<Rightarrow> inbox_envelope) \<Rightarrow> bool" where
  "steady f \<longleftrightarrow> (\<forall>e. ie_id (f e) = ie_id e \<and> ie_bro_id (f e) = ie_bro_id e \<and> ie_relay_depth (f e) = ie_relay_depth e)"

definition at_id :: "string \<Rightarrow> (inbox_envelope \<Rightarrow> inbox_envelope) \<Rightarrow> inbox_envelope \<Rightarrow> inbox_envelope" where
  "at_id i f e = (if ie_id e = i then f e else e)"

lemma update_first_id: "distinct (map ie_id es) \<Longrightarrow> update_first (\<lambda>e. ie_id e = i) f es = map (at_id i f) es"
proof (induction es)
  case (Cons e es)
  have same: "map (at_id i f) es = es" if "ie_id e = i"
  proof (rule map_idI)
    fix x assume "x \<in> set es"
    then have "ie_id x \<noteq> i" using Cons.prems that by (auto simp: image_iff)
    then show "at_id i f x = x" by (simp add: at_id_def)
  qed
  show ?case
  proof (cases "ie_id e = i")
    case True
    then show ?thesis using same by (simp add: at_id_def [of i f e])
  next
    case False
    then show ?thesis using Cons by (simp add: at_id_def [of i f e])
  qed
qed simp

lemma distinct_id: "distinct (map ie_id es) \<Longrightarrow> e \<in> set es \<Longrightarrow> e' \<in> set es \<Longrightarrow> ie_id e = ie_id e' \<Longrightarrow> e = e'"
  by (simp add: distinct_map inj_on_def)

lemma steady_at: "steady f \<Longrightarrow> steady (at_id i f)"
  by (simp add: steady_def at_id_def)

lemma steady_ids: "steady f \<Longrightarrow> map ie_id (map f es) = map ie_id es"
  by (simp add: steady_def)

lemma goodD:
  assumes "good cfg op' es ps W"
  shows "\<And>e. e \<in> set es \<Longrightarrow> envelope_ok cfg e" "distinct (map ie_id es)" "holds_all W es" "op' \<Longrightarrow> drained W es"
    "distinct (sources ps)" "\<And>i. i \<in> set (sources ps) \<Longrightarrow> answered W es i"
  using assms unfolding good_def by blast+

text \<open>Two workers never hold the same envelope.\<close>

lemma held_once:
  assumes "good cfg op' es ps W" "W b = Some w" "holding w = Some h" "W b' = Some w'" "holding w' = Some h'"
    and "ie_id h = ie_id h'"
  shows "b = b'"
proof -
  have "held b h es" "held b' h' es" using goodD(3) [OF assms(1)] assms(2-5) unfolding holds_all_def by blast+
  then show ?thesis using distinct_id [OF goodD(2) [OF assms(1)]] assms(6) unfolding held_def by metis
qed

lemma not_answered:
  assumes "good cfg op' es ps W" "W b = Some w" "holding w = Some h" "\<not> posted w"
  shows "ie_id h \<notin> set (sources ps)"
proof
  assume "ie_id h \<in> set (sources ps)"
  then obtain e where e: "e \<in> set es" "ie_id e = ie_id h" "ie_status e = Done \<or> ie_status e = Draining \<and>
      (\<forall>b w h'. W b = Some w \<longrightarrow> holding w = Some h' \<longrightarrow> ie_id h' = ie_id h \<longrightarrow> posted w)"
    using goodD(6) [OF assms(1)] unfolding answered_def by blast
  obtain d where "d \<in> set es" "ie_id d = ie_id h" "ie_status d = Draining"
    using goodD(3) [OF assms(1)] assms(2,3) unfolding holds_all_def held_def by blast
  then have "ie_status e = Draining" using distinct_id [OF goodD(2) [OF assms(1)]] e(1,2) by metis
  then show False using e(3) assms(2-4) by auto
qed

section \<open>The transitions\<close>

text \<open>A worker moves on with the same envelope, or none, in hand; the envelope may be marked.\<close>

lemma good_moves:
  assumes g: "good cfg op' es ps W" and w: "W b = Some w" "holding w' = holding w" "posted w \<longrightarrow> posted w'"
    and f: "steady f" "\<And>e. ie_status (f e) = ie_status e" "\<And>e. envelope_ok cfg e \<Longrightarrow> envelope_ok cfg (f e)"
  shows "good cfg op' (map f es) ps (W(b \<mapsto> w'))"
proof -
  have "holds_all (W(b \<mapsto> w')) (map f es)"
    using goodD(3) [OF g] w f(1,2) unfolding holds_all_def held_def steady_def by (auto split: if_splits)
  moreover have "drained (W(b \<mapsto> w')) (map f es)" if op'
    using goodD(4) [OF g that] w f(1,2) unfolding drained_def steady_def by (auto split: if_splits)
  moreover have "answered (W(b \<mapsto> w')) (map f es) i" if "i \<in> set (sources ps)" for i
    using goodD(6) [OF g that] w f(1,2) unfolding answered_def steady_def by (auto split: if_splits)
  ultimately show ?thesis
    using goodD(1,2,5) [OF g] f(1,3) unfolding good_def by (auto simp: steady_ids simp del: map_map)
qed

text \<open>A worker lets go of its envelope.\<close>

lemma good_settles:
  assumes g: "good cfg op' es ps W" and w: "W b = Some w" "holding w = Some h" "holding w' = None"
    and f: "steady f" "\<And>e. ie_status (f e) \<noteq> Draining"
    and ok: "\<And>e. e \<in> set es \<Longrightarrow> ie_id e = ie_id h \<Longrightarrow> ie_status e = Draining \<Longrightarrow> envelope_ok cfg (f e)"
    and d: "posted w \<Longrightarrow> \<forall>e. ie_status (f e) = Done"
  shows "good cfg op' (map (at_id (ie_id h) f) es) ps (W(b \<mapsto> w'))"
proof -
  have st: "steady (at_id (ie_id h) f)" using f(1) by (rule steady_at)
  obtain e0 where e0: "e0 \<in> set es" "ie_id e0 = ie_id h" "ie_status e0 = Draining" "ie_bro_id e0 = b"
    using goodD(3) [OF g] w(1,2) unfolding holds_all_def held_def by blast
  have uniq: "e = e0" if "e \<in> set es" "ie_id e = ie_id h" for e
    using distinct_id [OF goodD(2) [OF g] that(1) e0(1)] that(2) e0(2) by simp
  have "holds_all (W(b \<mapsto> w')) (map (at_id (ie_id h) f) es)"
    unfolding holds_all_def
  proof (intro allI impI)
    fix b1 w1 h1
    assume a: "(W(b \<mapsto> w')) b1 = Some w1" "holding w1 = Some h1"
    then have n: "b1 \<noteq> b" "W b1 = Some w1" using w(3) by (auto split: if_splits)
    then have "ie_id h1 \<noteq> ie_id h" using held_once [OF g n(2) a(2) w(1,2)] by blast
    moreover have "held b1 h1 es" using goodD(3) [OF g] n a(2) unfolding holds_all_def by blast
    ultimately show "held b1 h1 (map (at_id (ie_id h) f) es)" unfolding held_def at_id_def by auto
  qed
  moreover have "drained (W(b \<mapsto> w')) (map (at_id (ie_id h) f) es)" if o: op'
    unfolding drained_def
  proof (intro ballI impI)
    fix x
    assume x: "x \<in> set (map (at_id (ie_id h) f) es)" "ie_status x = Draining"
    then obtain e where e: "e \<in> set es" "x = at_id (ie_id h) f e" by auto
    then have n: "ie_id e \<noteq> ie_id h" "x = e" using x(2) f(2) by (auto simp: at_id_def split: if_splits)
    obtain w1 h1 where w1: "W (ie_bro_id e) = Some w1" "holding w1 = Some h1" "ie_id h1 = ie_id e"
      using goodD(4) [OF g o] e(1) x(2) n(2) unfolding drained_def by blast
    then have "ie_bro_id e \<noteq> b" using n(1) w(1,2) by auto
    then show "\<exists>w1 h1. (W(b \<mapsto> w')) (ie_bro_id x) = Some w1 \<and> holding w1 = Some h1 \<and> ie_id h1 = ie_id x"
      using w1 n(2) by auto
  qed
  moreover have "answered (W(b \<mapsto> w')) (map (at_id (ie_id h) f) es) i" if i: "i \<in> set (sources ps)" for i
  proof (cases "i = ie_id h")
    case True
    then have "posted w" using not_answered [OF g w(1,2)] i by blast
    then have "ie_status (f e0) = Done" "ie_id (f e0) = i" using d True e0(2) f(1) by (auto simp: steady_def)
    moreover have "f e0 \<in> set (map (at_id (ie_id h) f) es)" using e0(1,2) by (auto simp: at_id_def image_iff intro!: bexI [of _ e0])
    ultimately show ?thesis unfolding answered_def by blast
  next
    case False
    then show ?thesis using goodD(6) [OF g i] w(3) unfolding answered_def at_id_def by (auto split: if_splits)
  qed
  moreover have "envelope_ok cfg x" if "x \<in> set (map (at_id (ie_id h) f) es)" for x
    using that goodD(1) [OF g] ok e0(3) uniq by (auto simp: at_id_def)
  ultimately show ?thesis
    using goodD(2,5) [OF g] st unfolding good_def by (auto simp: steady_ids simp del: map_map)
qed

text \<open>A worker with nothing in hand takes the first envelope of its inbox; the others may be superseded.\<close>

lemma good_takes:
  assumes g: "good cfg op' es ps W" and w: "W b = Some w" "holding w = None" "holding w' = Some h"
    and e0: "e0 \<in> set es" "queued_for b e0" "h = k e0"
    and k: "steady k" "\<And>e. e \<in> set es \<Longrightarrow> ie_id e = ie_id e0 \<Longrightarrow> ie_status (k e) = Draining"
    and o: "\<And>e. ie_id e \<noteq> ie_id e0 \<Longrightarrow> k e = e \<or> (ie_status e = Queued \<and> ie_status (k e) = Superseded)"
    and ok: "\<And>e. e \<in> set es \<Longrightarrow> envelope_ok cfg (k e)"
  shows "good cfg op' (map k es) ps (W(b \<mapsto> w'))"
proof -
  have q: "ie_status e0 = Queued" "ie_bro_id e0 = b" using e0(2) by (simp_all add: queued_for_def)
  have uniq: "e = e0" if "e \<in> set es" "ie_id e = ie_id e0" for e
    using distinct_id [OF goodD(2) [OF g] that(1) e0(1)] that(2) by simp
  have same: "k e = e" if "e \<in> set es" "ie_status e \<noteq> Queued" for e
    using o [of e] that uniq q(1) by auto
  have "holds_all (W(b \<mapsto> w')) (map k es)"
    unfolding holds_all_def
  proof (intro allI impI)
    fix b1 w1 h1
    assume a: "(W(b \<mapsto> w')) b1 = Some w1" "holding w1 = Some h1"
    show "held b1 h1 (map k es)"
    proof (cases "b1 = b")
      case True
      then have "h1 = k e0" using a w(3) e0(3) by simp
      then show ?thesis using True e0(1) k q(2) unfolding held_def steady_def by auto
    next
      case False
      then obtain e where e: "e \<in> set es" "ie_id e = ie_id h1" "ie_bro_id e = b1" "ie_status e = Draining"
          "ie_relay_depth e = ie_relay_depth h1"
        using goodD(3) [OF g] a unfolding holds_all_def held_def fun_upd_apply by (metis (no_types, lifting))
      then show ?thesis using same [of e] unfolding held_def by force
    qed
  qed
  moreover have "drained (W(b \<mapsto> w')) (map k es)" if p: op'
    unfolding drained_def
  proof (intro ballI impI)
    fix x
    assume x: "x \<in> set (map k es)" "ie_status x = Draining"
    then obtain e where e: "e \<in> set es" "x = k e" by auto
    show "\<exists>w1 h1. (W(b \<mapsto> w')) (ie_bro_id x) = Some w1 \<and> holding w1 = Some h1 \<and> ie_id h1 = ie_id x"
    proof (cases "ie_id e = ie_id e0")
      case True
      then have "x = h" using e e0(3) uniq by blast
      then show ?thesis using w(3) k(1) q(2) e0(3) by (auto simp: steady_def)
    next
      case False
      then have "x = e" "ie_status e = Draining" using o [OF False] e(2) x(2) by auto
      then obtain w1 h1 where w1: "W (ie_bro_id e) = Some w1" "holding w1 = Some h1" "ie_id h1 = ie_id e"
        using goodD(4) [OF g p] e(1) unfolding drained_def by blast
      then have "ie_bro_id e \<noteq> b" using w(1,2) by auto
      then show ?thesis using w1 \<open>x = e\<close> by auto
    qed
  qed
  moreover have "answered (W(b \<mapsto> w')) (map k es) i" if i: "i \<in> set (sources ps)" for i
  proof -
    obtain e where e: "e \<in> set es" "ie_id e = i" "ie_status e = Done \<or> ie_status e = Draining \<and>
        (\<forall>b w h. W b = Some w \<longrightarrow> holding w = Some h \<longrightarrow> ie_id h = i \<longrightarrow> posted w)"
      using goodD(6) [OF g i] unfolding answered_def by blast
    then have s: "k e = e" using same [of e] by auto
    have "ie_status e \<noteq> Queued" using e(3) by auto
    then have "ie_id e \<noteq> ie_id e0" using uniq [OF e(1)] q(1) by metis
    moreover have "ie_id h = ie_id e0" using e0(3) k(1) by (simp add: steady_def)
    ultimately have n: "ie_id h \<noteq> i" using e(2) by simp
    have "posted w1" if d: "ie_status e = Draining" "(W(b \<mapsto> w')) b1 = Some w1" "holding w1 = Some h1" "ie_id h1 = i" for b1 w1 h1
    proof (cases "b1 = b")
      case True
      then show ?thesis using d w(3) n by simp
    next
      case False
      then show ?thesis using d e(3) by auto
    qed
    moreover have "e \<in> set (map k es)" using e(1) s by (metis image_eqI set_map)
    ultimately show ?thesis using e(2,3) unfolding answered_def by blast
  qed
  ultimately show ?thesis
    using goodD(2,5) [OF g] k(1) ok unfolding good_def by (auto simp: steady_ids simp del: map_map)
qed

text \<open>The reply of an envelope is posted.\<close>

lemma sources_append [simp]: "sources (ps @ qs) = sources ps @ sources qs"
  by (simp add: sources_def)

lemma good_posts:
  assumes g: "good cfg op' es ps W" and w: "W b = Some w" "holding w = Some h" "\<not> posted w"
    and p: "kp_source_envelope_id p = Some (ie_id h)"
  shows "good cfg op' es (ps @ [p]) (W(b \<mapsto> WPosted h d q))"
proof -
  have s: "sources (ps @ [p]) = sources ps @ [ie_id h]" using p by (simp add: sources_def)
  have n: "ie_id h \<notin> set (sources ps)" by (rule not_answered [OF g w])
  have "holds_all (W(b \<mapsto> WPosted h d q)) es"
    using goodD(3) [OF g] w unfolding holds_all_def by auto
  moreover have "drained (W(b \<mapsto> WPosted h d q)) es" if op'
    using goodD(4) [OF g that] w unfolding drained_def by fastforce
  moreover have "answered (W(b \<mapsto> WPosted h d q)) es i" if i: "i \<in> set (sources (ps @ [p]))" for i
  proof (cases "i = ie_id h")
    case True
    have "posted w1" if "(W(b \<mapsto> WPosted h d q)) b1 = Some w1" "holding w1 = Some h1" "ie_id h1 = ie_id h" for b1 w1 h1
    proof (cases "b1 = b")
      case False
      then have "W b1 = Some w1" using that(1) by simp
      then have "b1 = b" using held_once [OF g _ that(2) w(1,2) that(3)] by blast
      then show ?thesis using False by blast
    qed (use that in auto)
    moreover have "held b h es" using goodD(3) [OF g] w unfolding holds_all_def by blast
    ultimately show ?thesis using True unfolding answered_def held_def by blast
  next
    case False
    then have "i \<in> set (sources ps)" using i s by auto
    then show ?thesis using goodD(6) [OF g] w(2) False unfolding answered_def by (fastforce split: if_splits)
  qed
  ultimately show ?thesis using goodD(1,2,5) [OF g] n s unfolding good_def by auto
qed

text \<open>New envelopes, new workers, posts of the user, the end and the restart.\<close>

lemma good_adds:
  assumes g: "good cfg op' es ps W"
    and fresh: "\<forall>e\<in>set new. envelope_ok cfg e \<and> ie_status e = Queued" "distinct (map ie_id new)"
      "ie_id ` set new \<inter> ie_id ` set es = {}"
    and V: "\<And>b. V b = W b \<or> (W b = None \<and> V b = Some WIdle)"
  shows "good cfg op' (es @ new) ps V"
proof -
  have hold: "W b = Some w" if "V b = Some w" "holding w = Some h" for b w h
    using V [of b] that by auto
  have forth: "V b = Some w" if "W b = Some w" for b w
    using V [of b] that by auto
  have "held b h (es @ new)" if "V b = Some w" "holding w = Some h" for b w h
  proof -
    have "held b h es" using goodD(3) [OF g] hold [OF that] that(2) unfolding holds_all_def by blast
    then show ?thesis unfolding held_def by auto
  qed
  then have "holds_all V (es @ new)" unfolding holds_all_def by blast
  moreover have "drained V (es @ new)" if o: op'
    unfolding drained_def
  proof (intro ballI impI)
    fix e
    assume "e \<in> set (es @ new)" "ie_status e = Draining"
    then have "e \<in> set es" "ie_status e = Draining" using fresh(1) by auto
    then obtain w h where "W (ie_bro_id e) = Some w" "holding w = Some h" "ie_id h = ie_id e"
      using goodD(4) [OF g o] unfolding drained_def by blast
    then show "\<exists>w h. V (ie_bro_id e) = Some w \<and> holding w = Some h \<and> ie_id h = ie_id e" using forth by blast
  qed
  moreover have "answered V (es @ new) i" if i: "i \<in> set (sources ps)" for i
  proof -
    obtain e where e: "e \<in> set es" "ie_id e = i" "ie_status e = Done \<or> ie_status e = Draining \<and>
        (\<forall>b w h. W b = Some w \<longrightarrow> holding w = Some h \<longrightarrow> ie_id h = i \<longrightarrow> posted w)"
      using goodD(6) [OF g i] unfolding answered_def by blast
    have "ie_status e = Done \<or> ie_status e = Draining \<and>
        (\<forall>b w h. V b = Some w \<longrightarrow> holding w = Some h \<longrightarrow> ie_id h = i \<longrightarrow> posted w)"
      using e(3) hold by metis
    then show ?thesis using e(1,2) unfolding answered_def by auto
  qed
  ultimately show ?thesis using goodD(1,2,5) [OF g] fresh unfolding good_def by auto
qed

lemma good_user: "good cfg op' es ps W \<Longrightarrow> kp_source_envelope_id p = None \<Longrightarrow> good cfg op' es (ps @ [p]) W"
  unfolding good_def by (simp add: sources_def)

lemma good_closes: "good cfg op' es ps W \<Longrightarrow> good cfg False es ps W"
  unfolding good_def by simp

lemma retried_ok:
  assumes "\<not> m \<le> a + 1" "m = cg_max_attempts cfg"
  shows "unat (a + 1) < attempts_of cfg"
proof -
  have "unat (a + 1) < unat m" using assms(1) by (simp add: word_less_nat_alt not_le)
  then show ?thesis using assms(2) by (simp add: attempts_of_def)
qed

lemma good_restarts:
  assumes g: "good cfg True es ps W"
  shows "good cfg True (map (reconcile_envelope (cg_max_attempts cfg) (set (sources ps)) now) es) ps Map.empty"
proof -
  let ?k = "reconcile_envelope (cg_max_attempts cfg) (set (sources ps)) now"
  have st: "steady ?k" by (simp add: steady_def reconcile_envelope_def release_def Let_def)
  have nd: "ie_status (?k e) \<noteq> Draining" for e
    by (auto simp: reconcile_envelope_def release_def Let_def)
  have "envelope_ok cfg (?k e)" if "e \<in> set es" for e
    using goodD(1) [OF g that] retried_ok [of "cg_max_attempts cfg" "ie_attempt_count e" cfg]
    by (auto simp: envelope_ok_def reconcile_envelope_def release_def Let_def)
  moreover have "answered Map.empty (map ?k es) i" if i: "i \<in> set (sources ps)" for i
  proof -
    obtain e where e: "e \<in> set es" "ie_id e = i" "ie_status e = Done \<or> ie_status e = Draining"
      using goodD(6) [OF g i] unfolding answered_def by blast
    then have "ie_status (?k e) = Done" "ie_id (?k e) = i" using i by (auto simp: reconcile_envelope_def release_def)
    then show ?thesis using e(1) unfolding answered_def by auto
  qed
  moreover have "holds_all Map.empty (map ?k es)" by (simp add: holds_all_def)
  moreover have "drained Map.empty (map ?k es)" using nd by (auto simp: drained_def)
  ultimately show ?thesis using goodD(2,5) [OF g] st unfolding good_def by (auto simp: steady_ids simp del: map_map)
qed

lemma good_stops: "good cfg False es ps W \<Longrightarrow> good cfg False es ps Map.empty"
  unfolding good_def holds_all_def answered_def by auto

section \<open>The steps\<close>

definition same_log :: "council \<Rightarrow> council \<Rightarrow> bool" where
  "same_log c d \<longleftrightarrow> config_of d = config_of c \<and> kn_status (cs_session d) = kn_status (cs_session c) \<and> cs_posts d = cs_posts c"

definition grown :: "(string \<rightharpoonup> worker) \<Rightarrow> (string \<rightharpoonup> worker) \<Rightarrow> bool" where
  "grown W V \<longleftrightarrow> (\<forall>b. V b = W b \<or> (W b = None \<and> V b = Some WIdle))"

lemma workers_grown_refl [simp]: "grown W W"
  by (simp add: grown_def)

lemma workers_grown_trans: "grown W V \<Longrightarrow> grown V U \<Longrightarrow> grown W U"
  unfolding grown_def by metis

named_theorems council_simps \<open>what the wrappers of a step leave alone\<close>

lemma wrappers [council_simps]:
  "cs_envelopes (emit_council ev c) = cs_envelopes c" "cs_posts (emit_council ev c) = cs_posts c"
  "cs_workers (emit_council ev c) = cs_workers c" "cs_session (emit_council ev c) = cs_session c"
  "cs_envelopes (touch now c) = cs_envelopes c" "cs_posts (touch now c) = cs_posts c"
  "cs_workers (touch now c) = cs_workers c" "kn_config (cs_session (touch now c)) = kn_config (cs_session c)"
  "kn_status (cs_session (touch now c)) = kn_status (cs_session c)"
  "cs_envelopes (set_worker b w c) = cs_envelopes c" "cs_posts (set_worker b w c) = cs_posts c"
  "cs_workers (set_worker b w c) = (cs_workers c)(b \<mapsto> w)" "cs_session (set_worker b w c) = cs_session c"
  "cs_envelopes (change_envelope i f c) = update_first (\<lambda>e. ie_id e = i) f (cs_envelopes c)"
  "cs_posts (change_envelope i f c) = cs_posts c" "cs_workers (change_envelope i f c) = cs_workers c"
  "cs_session (change_envelope i f c) = cs_session c"
  "cs_envelopes (record_session b sid now c) = cs_envelopes c" "cs_posts (record_session b sid now c) = cs_posts c"
  "cs_workers (record_session b sid now c) = cs_workers c"
  "kn_config (cs_session (record_session b sid now c)) = kn_config (cs_session c)"
  "kn_status (cs_session (record_session b sid now c)) = kn_status (cs_session c)"
  by (simp_all add: emit_council_def touch_def set_worker_def change_envelope_def record_session_def)

definition only_grows :: "council \<Rightarrow> council \<Rightarrow> bool" where
  "only_grows c d \<longleftrightarrow>
     cs_envelopes d = cs_envelopes c \<and> cs_posts d = cs_posts c \<and> cs_session d = cs_session c \<and>
     grown (cs_workers c) (cs_workers d)"

lemma only_grows_trans: "only_grows c d \<Longrightarrow> only_grows d e \<Longrightarrow> only_grows c e"
  unfolding only_grows_def using workers_grown_trans [of "cs_workers c" "cs_workers d" "cs_workers e"] by simp

lemma only_grows_all: "(\<And>c x. only_grows c (f c x)) \<Longrightarrow> only_grows c (foldl f c xs)"
proof (induction xs arbitrary: c)
  case (Cons x xs)
  then show ?case using only_grows_trans [of c "f c x"] by simp
qed (simp add: only_grows_def)

lemma finite_fold:
  assumes "\<And>c x. finite (dom (cs_workers c)) \<Longrightarrow> finite (dom (cs_workers (f c x)))" "finite (dom (cs_workers c))"
  shows "finite (dom (cs_workers (foldl f c xs)))"
  using assms(2) by (induction xs arbitrary: c) (simp_all add: assms(1))

lemma finite_ensure: "finite (dom (cs_workers c)) \<Longrightarrow> finite (dom (cs_workers (ensure_worker b c)))"
  by (simp add: ensure_worker_def)

lemma finite_emit: "finite (dom (cs_workers c)) \<Longrightarrow> finite (dom (cs_workers (emit_council ev c)))"
  by (simp add: emit_council_def)

lemma finite_forward: "finite (dom (cs_workers c)) \<Longrightarrow> finite (dom (cs_workers (forward_mentions members ids now p depth c)))"
  unfolding forward_mentions_def Let_def announce_def by (rule finite_fold) (auto intro!: finite_ensure finite_emit)

text \<open>Every member an envelope went to has a worker.\<close>

lemma ensured_keeps: "cs_workers c m \<noteq> None \<Longrightarrow> cs_workers (ensure_worker b c) m \<noteq> None"
  by (simp add: ensure_worker_def)

lemma fold_ensured:
  assumes "\<And>c x m. cs_workers c m \<noteq> None \<Longrightarrow> cs_workers (f c x) m \<noteq> None"
  shows "cs_workers c m \<noteq> None \<Longrightarrow> cs_workers (foldl f c xs) m \<noteq> None"
proof (induction xs arbitrary: c)
  case (Cons x xs)
  show ?case using Cons.IH [OF assms [OF Cons.prems]] by simp
qed simp

lemma ensured_all:
  assumes "\<And>c x m. cs_workers c m \<noteq> None \<Longrightarrow> cs_workers (f c x) m \<noteq> None" "\<And>c x. cs_workers (f c x) (g x) \<noteq> None"
  shows "x \<in> set xs \<Longrightarrow> cs_workers (foldl f c xs) (g x) \<noteq> None"
proof (induction xs arbitrary: c)
  case (Cons y xs)
  show ?case using Cons fold_ensured [of f, OF assms(1) assms(2)] by auto
qed simp

lemma announce_ensures: "cs_workers (announce e c) (ie_bro_id e) \<noteq> None"
  "cs_workers c m \<noteq> None \<Longrightarrow> cs_workers (announce e c) m \<noteq> None"
  by (auto simp: announce_def ensure_worker_def emit_council_def)

lemma ensure_ensures: "cs_workers (ensure_worker b c) b \<noteq> None"
  by (simp add: ensure_worker_def)

lemma forward_ensures:
  "e \<in> set (forwarded members ids now p depth c) \<Longrightarrow>
     cs_workers (forward_mentions members ids now p depth c) (ie_bro_id e) \<noteq> None"
  unfolding forward_mentions_def Let_def by (rule ensured_all) (rule announce_ensures, assumption, rule announce_ensures)

lemma only_grows_basic: "only_grows c (emit_council ev c)" "only_grows c (ensure_worker b c)"
  by (auto simp: only_grows_def wrappers ensure_worker_def grown_def)

lemma only_grows_announce: "only_grows c (announce e c)"
  unfolding announce_def by (rule only_grows_trans [OF only_grows_basic(1)]) (rule only_grows_basic(2))

lemmas only_grows_folds =
  only_grows_all [OF only_grows_announce] only_grows_all [OF only_grows_basic(1)] only_grows_all [OF only_grows_basic(2)]

section \<open>The budget\<close>

text \<open>How often the members can still be asked: \<open>relay_credit\<close> is what a reply can set off with \<open>k\<close> relays left.\<close>

fun relay_credit :: "nat \<Rightarrow> nat \<Rightarrow> nat \<Rightarrow> nat" where
  "relay_credit fanout attempts 0 = 0"
| "relay_credit fanout attempts (Suc k) = fanout * (attempts + relay_credit fanout attempts k)"

definition relays :: "council_config \<Rightarrow> u32 \<Rightarrow> nat" where
  "relays cfg depth =
     relay_credit (cg_fanout_per_cascade cfg) (attempts_of cfg) (unat (cg_relay_depth_max cfg) - unat depth)"

definition credit :: "council_config \<Rightarrow> inbox_envelope \<Rightarrow> nat" where
  "credit cfg e =
     (case ie_status e of
        Queued \<Rightarrow> attempts_of cfg - unat (ie_attempt_count e) + relays cfg (ie_relay_depth e)
      | Draining \<Rightarrow> attempts_of cfg - unat (ie_attempt_count e) - 1 + relays cfg (ie_relay_depth e)
      | _ \<Rightarrow> 0)"

fun worker_credit :: "council_config \<Rightarrow> worker \<Rightarrow> nat" where
  "worker_credit cfg (WTaken _ _) = 1"
| "worker_credit cfg (WForward e _) = relays cfg (ie_relay_depth e)"
| "worker_credit cfg _ = 0"

definition worker_sum :: "council_config \<Rightarrow> (string \<rightharpoonup> worker) \<Rightarrow> nat" where
  "worker_sum cfg W = (\<Sum>b\<in>dom W. worker_credit cfg (the (W b)))"

definition budget :: "council \<Rightarrow> nat" where
  "budget c = sum_list (map (credit (config_of c)) (cs_envelopes c)) + worker_sum (config_of c) (cs_workers c)"

lemma worker_sum_update:
  assumes "finite (dom W)" "W b = Some w"
  shows "worker_sum cfg (W(b \<mapsto> w')) + worker_credit cfg w = worker_sum cfg W + worker_credit cfg w'"
proof -
  have d: "b \<in> dom W" "dom (W(b \<mapsto> w')) = dom W" using assms(2) by auto
  have "(\<Sum>x\<in>dom W - {b}. worker_credit cfg (the ((W(b \<mapsto> w')) x))) = (\<Sum>x\<in>dom W - {b}. worker_credit cfg (the (W x)))"
    by (rule sum.cong) auto
  moreover have "worker_sum cfg (W(b \<mapsto> w')) =
      worker_credit cfg w' + (\<Sum>x\<in>dom W - {b}. worker_credit cfg (the ((W(b \<mapsto> w')) x)))"
    unfolding worker_sum_def d(2) by (subst sum.remove [OF assms(1) d(1)]) simp
  moreover have "worker_sum cfg W = worker_credit cfg w + (\<Sum>x\<in>dom W - {b}. worker_credit cfg (the (W x)))"
    unfolding worker_sum_def by (subst sum.remove [OF assms(1) d(1)]) (simp add: assms(2))
  ultimately show ?thesis by simp
qed

lemma worker_sum_grown:
  assumes "finite (dom V)" "grown W V"
  shows "worker_sum cfg V = worker_sum cfg W"
proof -
  have "dom W \<subseteq> dom V" using assms(2) unfolding grown_def dom_def by (auto, metis option.distinct(1))
  moreover have "worker_credit cfg (the (V b)) = 0" if "b \<in> dom V - dom W" for b
    using assms(2) that unfolding grown_def by (metis DiffE domIff option.sel worker_credit.simps(3))
  moreover have "V b = W b" if "b \<in> dom W" for b
    using assms(2) that unfolding grown_def by (metis domIff)
  ultimately show ?thesis unfolding worker_sum_def
    by (subst sum.subset_diff [of "dom W" "dom V"]) (use assms(1) in auto)
qed

lemma sum_drop:
  fixes g :: "'a \<Rightarrow> nat"
  assumes "x \<in> set xs" "\<And>y. y \<in> set xs \<Longrightarrow> g (k y) \<le> g y" "g (k x) + d \<le> g x"
  shows "sum_list (map g (map k xs)) + d \<le> sum_list (map g xs)"
proof -
  obtain us vs where xs: "xs = us @ x # vs" using split_list [OF assms(1)] by blast
  have "sum_list (map g (map k us)) \<le> sum_list (map g us)" "sum_list (map g (map k vs)) \<le> sum_list (map g vs)"
    using assms(2) xs by (auto intro!: sum_list_mono simp: comp_def)
  then show ?thesis using assms(3) xs by simp
qed

lemma sum_keep:
  fixes g :: "'a \<Rightarrow> nat"
  assumes "\<And>y. y \<in> set xs \<Longrightarrow> g (k y) \<le> g y"
  shows "sum_list (map g (map k xs)) \<le> sum_list (map g xs)"
  using assms by (auto intro!: sum_list_mono simp: comp_def)

lemma next_attempt:
  assumes "unat (a :: u32) < attempts_of cfg"
  shows "unat (a + 1) = Suc (unat a)"
proof -
  have "unat (cg_max_attempts cfg) < 2 ^ 32" using unsigned_less [of "cg_max_attempts cfg"] by simp
  then have "Suc (unat a) < 2 ^ 32" using assms by (simp add: attempts_of_def max_def split: if_splits)
  then show ?thesis by (simp add: unat_word_ariths(1))
qed

lemma credit_retried:
  assumes "envelope_ok cfg e" "ie_status e = Draining"
  shows "credit cfg (retried (cg_max_attempts cfg) reason now e) \<le> credit cfg e"
    and "credit cfg (reconcile_envelope (cg_max_attempts cfg) ids now e) \<le> credit cfg e"
  using next_attempt [of "ie_attempt_count e" cfg] assms
  by (auto simp: credit_def retried_def reconcile_envelope_def release_def Let_def envelope_ok_def)

lemma credit_settled: "ie_status e \<notin> {Queued, Draining} \<Longrightarrow> credit cfg e = 0"
  by (cases "ie_status e") (simp_all add: credit_def)

section \<open>What each step does\<close>

fun in_hand :: "worker \<Rightarrow> inbox_envelope option" where
  "in_hand (WForward e _) = Some e"
| "in_hand w = holding w"

definition shallow :: "council_config \<Rightarrow> (string \<rightharpoonup> worker) \<Rightarrow> bool" where
  "shallow cfg W \<longleftrightarrow>
     (\<forall>b w e. W b = Some w \<longrightarrow> in_hand w = Some e \<longrightarrow> ie_relay_depth e \<le> cg_relay_depth_max cfg)"

text \<open>A queued envelope has a worker to take it.\<close>

definition served :: "bool \<Rightarrow> inbox_envelope list \<Rightarrow> (string \<rightharpoonup> worker) \<Rightarrow> bool" where
  "served op' es W \<longleftrightarrow> (op' \<longrightarrow> (\<forall>e\<in>set es. ie_status e = Queued \<longrightarrow> W (ie_bro_id e) \<noteq> None))"

definition sound :: "council \<Rightarrow> bool" where
  "sound c \<longleftrightarrow>
     council_ok c \<and> finite (dom (cs_workers c)) \<and> shallow (config_of c) (cs_workers c) \<and>
     served (kn_status (cs_session c) = CouncilOpen) (cs_envelopes c) (cs_workers c)"

lemma served_map:
  assumes "served op' es W" "steady f" "\<And>e. e \<in> set es \<Longrightarrow> ie_status (f e) = Queued \<Longrightarrow> ie_status e = Queued \<or> ie_bro_id e = b"
  shows "served op' (map f es) (W(b \<mapsto> w))"
  using assms unfolding served_def steady_def by fastforce

lemma served_grown:
  assumes "served op' es W" "grown W V" "\<And>e. e \<in> set new \<Longrightarrow> V (ie_bro_id e) \<noteq> None"
  shows "served op' (es @ new) V"
proof -
  have "V b \<noteq> None" if "W b \<noteq> None" for b using assms(2) that unfolding grown_def by metis
  then show ?thesis using assms(1,3) unfolding served_def by auto
qed

text \<open>A step leaves the council sound and takes \<open>asked\<close> from the budget, but for what it gains.\<close>

definition allowed :: "nat \<Rightarrow> nat \<Rightarrow> council \<Rightarrow> council \<Rightarrow> bool" where
  "allowed asked gain c d \<longleftrightarrow> sound d \<and> config_of d = config_of c \<and> asked + budget d \<le> budget c + gain"

lemma soundD:
  assumes "sound c"
  shows "good (config_of c) (kn_status (cs_session c) = CouncilOpen) (cs_envelopes c) (cs_posts c) (cs_workers c)"
    "finite (dom (cs_workers c))" "shallow (config_of c) (cs_workers c)"
    "served (kn_status (cs_session c) = CouncilOpen) (cs_envelopes c) (cs_workers c)"
  using assms by (simp_all add: sound_def council_ok_def)

lemma allowed_trans: "allowed m g c d \<Longrightarrow> allowed n h d e \<Longrightarrow> allowed (m + n) (g + h) c e"
  unfolding allowed_def by auto

lemma allowedI:
  assumes "cs_envelopes d = es" "cs_workers d = W" "good (config_of c) (kn_status (cs_session d) = CouncilOpen) es (cs_posts d) W"
    and "config_of d = config_of c" "finite (dom W)" "shallow (config_of c) W"
    and "served (kn_status (cs_session d) = CouncilOpen) es W"
    and "asked + (sum_list (map (credit (config_of c)) es) + worker_sum (config_of c) W) \<le> budget c + gain"
  shows "allowed asked gain c d"
  using assms unfolding allowed_def sound_def council_ok_def budget_def by simp

lemma shallow_update:
  assumes "shallow cfg W" "\<And>e. in_hand w = Some e \<Longrightarrow> ie_relay_depth e \<le> cg_relay_depth_max cfg"
  shows "shallow cfg (W(b \<mapsto> w))"
  using assms unfolding shallow_def by auto

lemma shallow_grown: "shallow cfg W \<Longrightarrow> grown W V \<Longrightarrow> shallow cfg V"
  unfolding shallow_def grown_def
  by (metis holding.simps(4) in_hand.simps(2) option.distinct(1) option.inject)

lemma finite_step: "finite (dom W) \<Longrightarrow> finite (dom (W(b \<mapsto> w)))"
  by simp

text \<open>The frame of a step: the log, the configuration and the status stay.\<close>

definition framed :: "council \<Rightarrow> council \<Rightarrow> bool" where
  "framed c d \<longleftrightarrow>
     cs_posts d = cs_posts c \<and> config_of d = config_of c \<and> kn_status (cs_session d) = kn_status (cs_session c)"

lemma framedD:
  assumes "framed c d"
  shows "cs_posts d = cs_posts c" "config_of d = config_of c" "kn_status (cs_session d) = kn_status (cs_session c)"
  using assms by (simp_all add: framed_def)

lemma step_moves:
  assumes ok: "sound c" and w: "cs_workers c b = Some w" "holding w' = holding w" "posted w \<longrightarrow> posted w'"
      "asked + worker_credit (config_of c) w' \<le> worker_credit (config_of c) w" "in_hand w' = None \<or> in_hand w' = in_hand w"
    and f: "steady f" "\<And>e. ie_status (f e) = ie_status e" "\<And>e. ie_attempt_count (f e) = ie_attempt_count e"
      "\<And>e. ie_lease_owner (f e) = ie_lease_owner e"
    and d: "framed c d" "cs_envelopes d = map f (cs_envelopes c)" "cs_workers d = (cs_workers c)(b \<mapsto> w')"
  shows "allowed asked 0 c d"
proof (rule allowedI [OF d(2,3)])
  have e: "envelope_ok (config_of c) e \<Longrightarrow> envelope_ok (config_of c) (f e)" for e
    using f by (simp add: envelope_ok_def steady_def)
  show "good (config_of c) (kn_status (cs_session d) = CouncilOpen) (map f (cs_envelopes c)) (cs_posts d) ((cs_workers c)(b \<mapsto> w'))"
    using good_moves [OF soundD(1) [OF ok] w(1-3) f(1,2) e] d(1) by (simp add: framed_def)
  have r: "ie_relay_depth (f e) = ie_relay_depth e" for e using f(1) by (simp add: steady_def)
  have "credit (config_of c) (f e) = credit (config_of c) e" for e
    unfolding credit_def f(2,3) r ..
  then show "asked + (sum_list (map (credit (config_of c)) (map f (cs_envelopes c))) + worker_sum (config_of c) ((cs_workers c)(b \<mapsto> w')))
     \<le> budget c + 0"
    using worker_sum_update [OF soundD(2) [OF ok] w(1), of "config_of c" w'] w(4) by (simp add: budget_def comp_def)
  show "served (kn_status (cs_session d) = CouncilOpen) (map f (cs_envelopes c)) ((cs_workers c)(b \<mapsto> w'))"
    unfolding framedD [OF d(1)] by (rule served_map [OF soundD(4) [OF ok] f(1)]) (simp add: f(2))
  show "shallow (config_of c) ((cs_workers c)(b \<mapsto> w'))"
    by (rule shallow_update [OF soundD(3) [OF ok]])
       (use soundD(3) [OF ok] w(1,5) in \<open>auto simp: shallow_def\<close>)
qed (use soundD(2) [OF ok] d(1) in \<open>simp_all add: framed_def\<close>)

lemma sum_swap:
  fixes g :: "inbox_envelope \<Rightarrow> nat"
  assumes "distinct (map ie_id xs)" "x \<in> set xs" "g (f x) + m \<le> g x + n"
  shows "sum_list (map g (map (at_id (ie_id x) f) xs)) + m \<le> sum_list (map g xs) + n"
proof -
  obtain us vs where xs: "xs = us @ x # vs" using split_list [OF assms(2)] by blast
  have "map (at_id (ie_id x) f) us = us" "map (at_id (ie_id x) f) vs = vs"
    using assms(1) unfolding xs by (auto simp: at_id_def image_iff intro!: map_idI)
  then show ?thesis unfolding xs using assms(3) by (simp add: at_id_def)
qed

lemma step_settles:
  assumes ok: "sound c" and w: "cs_workers c b = Some w" "holding w = Some h" "holding w' = None"
      "in_hand w' = None \<or> in_hand w' = Some h"
    and f: "steady f" "\<And>e. ie_status (f e) \<noteq> Draining" "posted w \<Longrightarrow> \<forall>e. ie_status (f e) = Done"
    and e: "\<And>e. envelope_ok (config_of c) e \<Longrightarrow> ie_status e = Draining \<Longrightarrow> ie_relay_depth e = ie_relay_depth h \<Longrightarrow>
      envelope_ok (config_of c) (f e) \<and>
      credit (config_of c) (f e) + worker_credit (config_of c) w' \<le> credit (config_of c) e + worker_credit (config_of c) w"
    and d: "framed c d" "cs_envelopes d = map (at_id (ie_id h) f) (cs_envelopes c)" "cs_workers d = (cs_workers c)(b \<mapsto> w')"
  shows "allowed 0 0 c d"
proof (rule allowedI [OF d(2,3)])
  note g = soundD(1) [OF ok] and framed = framedD [OF d(1)]
  obtain e0 where e0: "e0 \<in> set (cs_envelopes c)" "ie_id e0 = ie_id h" "ie_status e0 = Draining" "ie_relay_depth e0 = ie_relay_depth h"
      "ie_bro_id e0 = b"
    using goodD(3) [OF g] w(1,2) unfolding holds_all_def held_def by blast
  have uniq: "x = e0" if "x \<in> set (cs_envelopes c)" "ie_id x = ie_id h" for x
    using distinct_id [OF goodD(2) [OF g] that(1) e0(1)] that(2) e0(2) by simp
  have fe: "envelope_ok (config_of c) (f x)"
    if x: "x \<in> set (cs_envelopes c)" "ie_id x = ie_id h" "ie_status x = Draining" for x
    using e [OF goodD(1) [OF g e0(1)] e0(3,4)] uniq [OF x(1,2)] by simp
  show "good (config_of c) (kn_status (cs_session d) = CouncilOpen) (map (at_id (ie_id h) f) (cs_envelopes c)) (cs_posts d) ((cs_workers c)(b \<mapsto> w'))"
    unfolding framed(1,3) by (rule good_settles [OF g w(1-3) f(1,2)]) (erule (2) fe, erule f(3))
  have "sum_list (map (credit (config_of c)) (map (at_id (ie_id h) f) (cs_envelopes c))) + worker_credit (config_of c) w'
      \<le> sum_list (map (credit (config_of c)) (cs_envelopes c)) + worker_credit (config_of c) w"
    using sum_swap [OF goodD(2) [OF g] e0(1)] e [OF goodD(1) [OF g e0(1)] e0(3,4)] e0(2) by metis
  then show "0 + (sum_list (map (credit (config_of c)) (map (at_id (ie_id h) f) (cs_envelopes c))) + worker_sum (config_of c) ((cs_workers c)(b \<mapsto> w')))
     \<le> budget c + 0"
    using worker_sum_update [OF soundD(2) [OF ok] w(1), of "config_of c" w'] by (simp add: budget_def del: map_map)
  show "served (kn_status (cs_session d) = CouncilOpen) (map (at_id (ie_id h) f) (cs_envelopes c)) ((cs_workers c)(b \<mapsto> w'))"
    unfolding framed(3) by (rule served_map [OF soundD(4) [OF ok] steady_at [OF f(1)]])
       (use uniq e0(5) in \<open>auto simp: at_id_def split: if_splits\<close>)
  have "ie_relay_depth h \<le> cg_relay_depth_max (config_of c)"
    using goodD(1) [OF g e0(1)] e0(4) by (simp add: envelope_ok_def)
  then show "shallow (config_of c) ((cs_workers c)(b \<mapsto> w'))"
    by (intro shallow_update [OF soundD(3) [OF ok]]) (use w(4) in auto)
qed (use soundD(2) [OF ok] d(1) in \<open>simp_all add: framed_def\<close>)

text \<open>Taking an envelope: one by one, the first of the inbox starts draining and the rest may be superseded.\<close>

definition taking :: "string \<Rightarrow> inbox_envelope \<Rightarrow> (inbox_envelope \<Rightarrow> inbox_envelope) \<Rightarrow> (inbox_envelope \<Rightarrow> inbox_envelope) \<Rightarrow>
    inbox_envelope \<Rightarrow> inbox_envelope" where
  "taking b e0 f g e = (if ie_id e = ie_id e0 then f e else if queued_for b e then g e else e)"

lemma change_rest_id: "change_rest P (\<lambda>e. e) es = es"
  by (induction es) simp_all

lemma take_map:
  assumes "filter (queued_for b) es = e0 # r" "distinct (map ie_id es)"
  shows "update_first (queued_for b) f (change_rest (queued_for b) g es) = map (taking b e0 f g) es"
  using assms
proof (induction es)
  case (Cons x es)
  show ?case
  proof (cases "queued_for b x")
    case True
    then have "x = e0" using Cons.prems(1) by simp
    then show ?thesis using True Cons.prems(2) by (auto simp: taking_def image_iff)
  next
    case False
    then have r: "filter (queued_for b) es = e0 # r" using Cons.prems(1) by simp
    then have "e0 \<in> set es" using filter_eq_ConsD [OF r] by auto
    then have "ie_id x \<noteq> ie_id e0" using Cons.prems(2) by auto
    then show ?thesis using False Cons.IH [OF r] Cons.prems(2) by (simp add: taking_def)
  qed
qed simp

lemma step_takes:
  assumes ok: "sound c" and w: "cs_workers c b = Some w" "in_hand w = None" "w' = WTaken (f e0) n"
    and q: "filter (queued_for b) (cs_envelopes c) = e0 # r"
    and f: "\<And>e. ie_id (f e) = ie_id e \<and> ie_bro_id (f e) = ie_bro_id e \<and> ie_relay_depth (f e) = ie_relay_depth e \<and>
        ie_attempt_count (f e) = ie_attempt_count e \<and> ie_status (f e) = Draining \<and> ie_lease_owner (f e) \<noteq> None"
    and k: "\<And>e. k e = e \<or> k e = supersede (ie_id e0) now e"
    and d: "framed c d" "cs_envelopes d = map (taking b e0 f k) (cs_envelopes c)" "cs_workers d = (cs_workers c)(b \<mapsto> w')"
  shows "allowed 0 0 c d"
proof (rule allowedI [OF d(2,3)])
  note g = soundD(1) [OF ok] and framed = framedD [OF d(1)]
  let ?k = "taking b e0 f k"
  have "e0 \<in> set (filter (queued_for b) (cs_envelopes c))" using q by simp
  then have e0: "e0 \<in> set (cs_envelopes c)" "queued_for b e0" by simp_all
  have uniq: "e = e0" if "e \<in> set (cs_envelopes c)" "ie_id e = ie_id e0" for e
    using distinct_id [OF goodD(2) [OF g] that(1) e0(1)] that(2) by simp
  have st: "steady ?k" unfolding steady_def taking_def
  proof
    fix e
    show "ie_id (if ie_id e = ie_id e0 then f e else if queued_for b e then k e else e) = ie_id e \<and>
      ie_bro_id (if ie_id e = ie_id e0 then f e else if queued_for b e then k e else e) = ie_bro_id e \<and>
      ie_relay_depth (if ie_id e = ie_id e0 then f e else if queued_for b e then k e else e) = ie_relay_depth e"
      using f [of e] k [of e] by (auto simp: supersede_def)
  qed
  have hw: "holding w = None" using w(2) by (cases w) auto
  have o: "?k e = e \<or> (ie_status e = Queued \<and> ie_status (?k e) = Superseded)" if "ie_id e \<noteq> ie_id e0" for e
    using that k [of e] by (auto simp: taking_def supersede_def queued_for_def)
  have okk: "envelope_ok (config_of c) (?k e) \<and> credit (config_of c) (?k e) + (if ie_id e = ie_id e0 then 1 else 0) \<le> credit (config_of c) e"
    if e: "e \<in> set (cs_envelopes c)" for e
  proof (cases "ie_id e = ie_id e0")
    case True
    then have "e = e0" using uniq e by simp
    then show ?thesis using f [of e0] goodD(1) [OF g e0(1)] e0(2)
      by (simp add: taking_def envelope_ok_def credit_def queued_for_def) linarith
  next
    case False
    have "envelope_ok (config_of c) (supersede (ie_id e0) now e) \<and> credit (config_of c) (supersede (ie_id e0) now e) = 0"
      if "queued_for b e"
      using goodD(1) [OF g e] that by (simp add: envelope_ok_def credit_def supersede_def queued_for_def)
    then show ?thesis using False k [of e] goodD(1) [OF g e] by (auto simp: taking_def)
  qed
  show "good (config_of c) (kn_status (cs_session d) = CouncilOpen) (map ?k (cs_envelopes c)) (cs_posts d) ((cs_workers c)(b \<mapsto> w'))"
    unfolding framed(1,3)
  proof (rule good_takes [OF g w(1) hw _ e0 _ st _ o])
    show "holding w' = Some (f e0)" using w(3) by simp
    show "f e0 = ?k e0" by (simp add: taking_def)
    show "ie_status (?k e) = Draining" if "ie_id e = ie_id e0" for e using that f [of e] by (simp add: taking_def)
    show "envelope_ok (config_of c) (?k e)" if "e \<in> set (cs_envelopes c)" for e using okk [OF that] by blast
  qed
  have "sum_list (map (credit (config_of c)) (map ?k (cs_envelopes c))) + 1 \<le> sum_list (map (credit (config_of c)) (cs_envelopes c))"
  proof (rule sum_drop [OF e0(1)])
    show "credit (config_of c) (?k e) \<le> credit (config_of c) e" if "e \<in> set (cs_envelopes c)" for e
      using okk [OF that] by linarith
    show "credit (config_of c) (?k e0) + 1 \<le> credit (config_of c) e0" using okk [OF e0(1)] by simp
  qed
  then show "0 + (sum_list (map (credit (config_of c)) (map ?k (cs_envelopes c))) + worker_sum (config_of c) ((cs_workers c)(b \<mapsto> w')))
     \<le> budget c + 0"
    using worker_sum_update [OF soundD(2) [OF ok] w(1), of "config_of c" w'] w(3) by (simp add: budget_def del: map_map)
  have "ie_status e = Queued" if "ie_status (?k e) = Queued" for e
    using that f [of e] k [of e] by (auto simp: taking_def supersede_def split: if_splits)
  then show "served (kn_status (cs_session d) = CouncilOpen) (map ?k (cs_envelopes c)) ((cs_workers c)(b \<mapsto> w'))"
    unfolding framed(3) by (intro served_map [OF soundD(4) [OF ok] st]) blast
  have "ie_relay_depth (f e0) \<le> cg_relay_depth_max (config_of c)"
    using goodD(1) [OF g e0(1)] f [of e0] by (simp add: envelope_ok_def)
  then show "shallow (config_of c) ((cs_workers c)(b \<mapsto> w'))"
    by (intro shallow_update [OF soundD(3) [OF ok]]) (use w(3) in auto)
qed (use soundD(2) [OF ok] framedD(2) [OF d(1)] in simp_all)

lemma step_adds:
  assumes ok: "sound c"
    and new: "\<forall>e\<in>set new. envelope_ok (config_of c) e \<and> ie_status e = Queued" "distinct (map ie_id new)"
      "ie_id ` set new \<inter> ie_id ` set (cs_envelopes c) = {}"
    and d: "framed c d" "cs_envelopes d = cs_envelopes c @ new" "grown (cs_workers c) (cs_workers d)" "finite (dom (cs_workers d))"
    and ws: "\<And>e. e \<in> set new \<Longrightarrow> cs_workers d (ie_bro_id e) \<noteq> None"
  shows "allowed 0 (sum_list (map (credit (config_of c)) new)) c d"
proof (rule allowedI [OF d(2) refl])
  show "good (config_of c) (kn_status (cs_session d) = CouncilOpen) (cs_envelopes c @ new) (cs_posts d) (cs_workers d)"
    unfolding framedD [OF d(1)]
    by (rule good_adds [OF soundD(1) [OF ok] new]) (use d(3) in \<open>auto simp: grown_def\<close>)
  show "served (kn_status (cs_session d) = CouncilOpen) (cs_envelopes c @ new) (cs_workers d)"
    unfolding framedD [OF d(1)] by (rule served_grown [OF soundD(4) [OF ok] d(3) ws])
  show "shallow (config_of c) (cs_workers d)" by (rule shallow_grown [OF soundD(3) [OF ok] d(3)])
  show "0 + (sum_list (map (credit (config_of c)) (cs_envelopes c @ new)) + worker_sum (config_of c) (cs_workers d))
      \<le> budget c + sum_list (map (credit (config_of c)) new)"
    using worker_sum_grown [OF d(4,3)] by (simp add: budget_def)
qed (use d in \<open>simp_all add: framed_def\<close>)

lemma step_posts:
  assumes ok: "sound c" and w: "cs_workers c b = Some (WRunning h n)"
    and p: "kp_source_envelope_id p = Some (ie_id h)"
    and d: "cs_posts d = cs_posts c @ [p]" "config_of d = config_of c" "kn_status (cs_session d) = kn_status (cs_session c)"
      "cs_envelopes d = cs_envelopes c" "cs_workers d = (cs_workers c)(b \<mapsto> WPosted h n p)"
  shows "allowed 0 0 c d"
proof (rule allowedI [OF d(4,5)])
  show "good (config_of c) (kn_status (cs_session d) = CouncilOpen) (cs_envelopes c) (cs_posts d) ((cs_workers c)(b \<mapsto> WPosted h n p))"
    unfolding d(1,3) by (rule good_posts [OF soundD(1) [OF ok] w _ _ p]) simp_all
  show "0 + (sum_list (map (credit (config_of c)) (cs_envelopes c)) + worker_sum (config_of c) ((cs_workers c)(b \<mapsto> WPosted h n p)))
     \<le> budget c + 0"
    using worker_sum_update [OF soundD(2) [OF ok] w, of "config_of c" "WPosted h n p"] by (simp add: budget_def)
  show "served (kn_status (cs_session d) = CouncilOpen) (cs_envelopes c) ((cs_workers c)(b \<mapsto> WPosted h n p))"
    using soundD(4) [OF ok] unfolding d(3) served_def by auto
  show "shallow (config_of c) ((cs_workers c)(b \<mapsto> WPosted h n p))"
    by (rule shallow_update [OF soundD(3) [OF ok]]) (use soundD(3) [OF ok] w in \<open>auto simp: shallow_def\<close>)
qed (use soundD(2) [OF ok] d(2) in simp_all)

section \<open>The steps of a worker\<close>

lemma envelopes_changed:
  "sound c \<Longrightarrow> cs_envelopes (change_envelope i f c) = map (at_id i f) (cs_envelopes c)"
  using update_first_id [OF goodD(2) [OF soundD(1)]] by (simp add: wrappers)

lemma retry_changes:
  assumes "sound c"
  shows "cs_envelopes (retry_or_fail i b reason now c) =
      map (at_id i (retried (cg_max_attempts (config_of c)) reason now)) (cs_envelopes c)"
    and "framed c (retry_or_fail i b reason now c)" "cs_workers (retry_or_fail i b reason now c) = cs_workers c"
proof -
  show "cs_envelopes (retry_or_fail i b reason now c) =
      map (at_id i (retried (cg_max_attempts (config_of c)) reason now)) (cs_envelopes c)"
  proof (cases "List.find (\<lambda>e. ie_id e = i) (cs_envelopes c)")
    case None
    then have "update_first (\<lambda>e. ie_id e = i) (retried (cg_max_attempts (config_of c)) reason now) (cs_envelopes c) = cs_envelopes c"
      by (rule update_first_none)
    then show ?thesis using None update_first_id [OF goodD(2) [OF soundD(1) [OF assms]]]
      by (simp add: retry_or_fail_def wrappers)
  qed (use envelopes_changed [OF assms] in \<open>simp add: retry_or_fail_def wrappers(1) Let_def\<close>)
qed (simp_all add: retry_or_fail_def framed_def wrappers config_of_def Let_def split: option.splits)

lemma framed_steps:
  "framed c (emit_council ev c)" "framed c (set_worker b w c)" "framed c (change_envelope i f c)"
  "framed c (record_session b sid now c)"
  by (simp_all add: framed_def wrappers config_of_def)

lemma framed_refl [simp]: "framed c c"
  by (simp add: framed_def)

lemma framed_trans: "framed c d \<Longrightarrow> framed d e \<Longrightarrow> framed c e"
  by (simp add: framed_def)

lemma steady_marks:
  "steady (\<lambda>e. release (e\<lparr>ie_status := Failed, ie_last_error := r, ie_finished_at := t\<rparr>))"
  "steady (\<lambda>e. release (e\<lparr>ie_status := st, ie_drop_reason := dr, ie_reply_post_seq := sq, ie_reply_meta := m, ie_finished_at := t\<rparr>))"
  "steady (retried n reason now)" "steady (\<lambda>e. e\<lparr>ie_rendered_frame_hash := h\<rparr>)" "steady (\<lambda>e. e)"
  by (simp_all add: steady_def release_def retried_def Let_def)

text \<open>A status that ends an envelope is fine for every envelope.\<close>

lemma ended_ok:
  assumes "envelope_ok cfg e" "ie_status x \<notin> {Queued, Draining}" "ie_lease_owner x = None"
    "ie_relay_depth x = ie_relay_depth e"
  shows "envelope_ok cfg x" "credit cfg x = 0"
  using assms by (auto simp: envelope_ok_def credit_settled)

lemma draining_credit: "ie_status e = Draining \<Longrightarrow> relays cfg (ie_relay_depth e) \<le> credit cfg e"
  by (simp add: credit_def)

lemma retried_is_ok:
  assumes "envelope_ok cfg e"
  shows "envelope_ok cfg (retried (cg_max_attempts cfg) reason now e)"
  using assms retried_ok [of "cg_max_attempts cfg" "ie_attempt_count e" cfg]
  by (auto simp: envelope_ok_def retried_def release_def Let_def)

lemma retry_allowed:
  assumes ok: "sound c" and w: "cs_workers c b = Some w" "holding w = Some h" "\<not> posted w"
  shows "allowed 0 0 c (set_worker b WIdle (retry_or_fail (ie_id h) b reason now c))"
proof (rule step_settles [OF ok w(1,2), where w' = WIdle and f = "retried (cg_max_attempts (config_of c)) reason now"])
  fix e
  assume e: "envelope_ok (config_of c) e" "ie_status e = Draining"
  show "envelope_ok (config_of c) (retried (cg_max_attempts (config_of c)) reason now e) \<and>
     credit (config_of c) (retried (cg_max_attempts (config_of c)) reason now e) + worker_credit (config_of c) WIdle
     \<le> credit (config_of c) e + worker_credit (config_of c) w"
    using retried_is_ok [OF e(1)] credit_retried(1) [OF e] by (simp add: trans_le_add1)
next
  show "framed c (set_worker b WIdle (retry_or_fail (ie_id h) b reason now c))"
    by (rule framed_trans [OF retry_changes(2) [OF ok] framed_steps(2)])
qed (use w(3) retry_changes [OF ok] in \<open>simp_all add: steady_marks wrappers retried_def release_def Let_def\<close>)

lemma fail_allowed:
  assumes ok: "sound c" and w: "cs_workers c b = Some (WTaken h n)"
  shows "allowed 0 0 c (set_worker b WIdle (fail_envelope (ie_id h) b reason now c))"
proof (rule step_settles [OF ok w, where w' = WIdle and h = h
      and f = "\<lambda>e. release (e\<lparr>ie_status := Failed, ie_last_error := Some reason, ie_finished_at := Some now\<rparr>)"])
  show "framed c (set_worker b WIdle (fail_envelope (ie_id h) b reason now c))"
    unfolding fail_envelope_def by (rule framed_trans [OF framed_trans [OF framed_steps(3) framed_steps(1)] framed_steps(2)])
  show "cs_envelopes (set_worker b WIdle (fail_envelope (ie_id h) b reason now c)) =
     map (at_id (ie_id h) (\<lambda>e. release (e\<lparr>ie_status := Failed, ie_last_error := Some reason, ie_finished_at := Some now\<rparr>))) (cs_envelopes c)"
    unfolding fail_envelope_def wrappers(1) wrappers(10) by (rule envelopes_changed [OF ok])
qed (use ok in \<open>auto simp: steady_def wrappers fail_envelope_def release_def envelope_ok_def credit_settled\<close>)

lemma terminal_allowed:
  assumes ok: "sound c" and w: "cs_workers c b = Some w" "holding w = Some h" "holding w' = None"
      "in_hand w' = None \<or> in_hand w' = Some h" "worker_credit (config_of c) w' \<le> relays (config_of c) (ie_relay_depth h)"
    and st: "st \<notin> {Queued, Draining}" "posted w \<longrightarrow> st = Done"
  shows "allowed 0 0 c (set_worker b w' (terminal_envelope (ie_id h) b st dr sq m now c))"
proof (rule step_settles [OF ok w(1-4), where f = "\<lambda>e. release (e\<lparr>ie_status := st, ie_drop_reason := dr, ie_reply_post_seq := sq,
      ie_reply_meta := Some m, ie_finished_at := Some now\<rparr>)"])
  fix e
  assume e: "envelope_ok (config_of c) e" "ie_status e = Draining" "ie_relay_depth e = ie_relay_depth h"
  let ?f = "\<lambda>e. release (e\<lparr>ie_status := st, ie_drop_reason := dr, ie_reply_post_seq := sq,
      ie_reply_meta := Some m, ie_finished_at := Some now\<rparr>)"
  have "ie_status (?f e) \<notin> {Queued, Draining}" "ie_lease_owner (?f e) = None" "ie_relay_depth (?f e) = ie_relay_depth e"
    using st(1) by (simp_all add: release_def)
  from ended_ok [OF e(1) this] show "envelope_ok (config_of c) (?f e) \<and>
      credit (config_of c) (?f e) + worker_credit (config_of c) w' \<le> credit (config_of c) e + worker_credit (config_of c) w"
    using draining_credit [OF e(2), of "config_of c"] w(5) e(3) by simp
next
  show "framed c (set_worker b w' (terminal_envelope (ie_id h) b st dr sq m now c))"
    unfolding terminal_envelope_def by (rule framed_trans [OF framed_trans [OF framed_steps(3) framed_steps(1)] framed_steps(2)])
  show "cs_envelopes (set_worker b w' (terminal_envelope (ie_id h) b st dr sq m now c)) =
     map (at_id (ie_id h) (\<lambda>e. release (e\<lparr>ie_status := st, ie_drop_reason := dr, ie_reply_post_seq := sq,
      ie_reply_meta := Some m, ie_finished_at := Some now\<rparr>))) (cs_envelopes c)"
    unfolding terminal_envelope_def wrappers(1) wrappers(10) by (rule envelopes_changed [OF ok])
qed (use st in \<open>auto simp: steady_def wrappers terminal_envelope_def release_def\<close>)

section \<open>Every step\<close>

fun asked :: "council_action \<Rightarrow> nat" where
  "asked (ADispatch _ _) = 1"
| "asked _ = 0"

fun gain :: "council_config \<Rightarrow> council_action \<Rightarrow> nat" where
  "gain cfg (AUserFan _ members _ _) = length members * (attempts_of cfg + relays cfg 0)"
| "gain cfg _ = 0"

text \<open>The first \<open>n\<close> ids are new, and new to each other.\<close>

definition fresh_ids :: "(nat \<Rightarrow> string) \<Rightarrow> nat \<Rightarrow> council \<Rightarrow> bool" where
  "fresh_ids ids n c \<longleftrightarrow> distinct (map ids [0..<n]) \<and> list_all (\<lambda>i. i \<notin> ie_id ` set (cs_envelopes c)) (map ids [0..<n])"

fun fresh_action :: "council_action \<Rightarrow> council \<Rightarrow> bool" where
  "fresh_action (AForward _ _ ids _) c = fresh_ids ids (cg_fanout_per_cascade (config_of c)) c"
| "fresh_action (AUserFan _ members ids _) c = fresh_ids ids (length members) c"
| "fresh_action _ c = True"

lemma fresh_less:
  assumes "fresh_ids ids n c" "m \<le> n"
  shows "distinct (map ids [0..<m])" "ids ` {0..<m} \<inter> ie_id ` set (cs_envelopes c) = {}"
proof -
  have i: "inj_on ids {0..<n}" using assms(1) unfolding fresh_ids_def distinct_map by simp
  show "distinct (map ids [0..<m])" unfolding distinct_map using inj_on_subset [OF i] assms(2) by simp
  show "ids ` {0..<m} \<inter> ie_id ` set (cs_envelopes c) = {}"
    using assms unfolding fresh_ids_def list_all_iff by fastforce
qed

lemma check_allowed:
  assumes "sound c" "cs_workers c b = Some w" "w = WIdle \<or> w = WReady" "w' = WIdle \<or> w' = WReady"
  shows "allowed 0 0 c (set_worker b w' c)"
  by (rule step_moves [OF assms(1,2), where w' = w' and f = "\<lambda>e. e"])
     (use assms(3,4) in \<open>auto simp: steady_marks wrappers framed_steps\<close>)

lemma take_allowed:
  assumes ok: "sound c" and w: "cs_workers c b = Some WReady" and t: "take_next b now until c = Some (e, c1)"
  shows "allowed 0 0 c (set_worker b (WTaken e n) (emit_council ev c1))"
proof -
  obtain e0 r where q: "filter (queued_for b) (cs_envelopes c) = e0 # r"
    using t by (cases "filter (queued_for b) (cs_envelopes c)") (auto simp: take_next_def)
  let ?owner = "''council:'' @ kn_id (cs_session c) @ ''/'' @ b"
  obtain f k where fk: "e = f e0" "c1 = c\<lparr>cs_envelopes := map (taking b e0 f k) (cs_envelopes c)\<rparr>"
      "\<And>x. ie_id (f x) = ie_id x \<and> ie_bro_id (f x) = ie_bro_id x \<and> ie_relay_depth (f x) = ie_relay_depth x \<and>
        ie_attempt_count (f x) = ie_attempt_count x \<and> ie_status (f x) = Draining \<and> ie_lease_owner (f x) \<noteq> None"
      "\<And>x. k x = x \<or> k x = supersede (ie_id e0) now x"
  proof (cases "cg_max_inbox_depth (config_of c) \<le> length (e0 # r)")
    case True
    then show ?thesis using t q take_map [OF q goodD(2) [OF soundD(1) [OF ok]]]
      by (intro that [of "\<lambda>x. start_draining ?owner now until (x\<lparr>ie_reply_scope := catchup_of (e0 # r)\<rparr>)"
            "supersede (ie_id e0) now"]) (simp_all add: take_next_def Let_def start_draining_def)
  next
    case False
    then show ?thesis
      using t q take_map [OF q goodD(2) [OF soundD(1) [OF ok]], of "start_draining ?owner now until" "\<lambda>x. x"]
      by (intro that [of "start_draining ?owner now until" "\<lambda>x. x"])
         (simp_all add: take_next_def Let_def start_draining_def change_rest_id)
  qed
  show ?thesis
    by (rule step_takes [OF ok w _ _ q fk(3,4), where w' = "WTaken e n"])
       (simp_all add: fk(1,2) framed_def wrappers config_of_def)
qed

lemma dispatch_allowed:
  assumes ok: "sound c" and w: "cs_workers c b = Some (WTaken h n)"
  shows "allowed 1 0 c (set_worker b (WRunning h n) (change_envelope i (\<lambda>e. e\<lparr>ie_rendered_frame_hash := Some hash\<rparr>) c))"
  by (rule step_moves [OF ok w, where w' = "WRunning h n" and f = "at_id i (\<lambda>e. e\<lparr>ie_rendered_frame_hash := Some hash\<rparr>)"])
     (use update_first_id [OF goodD(2) [OF soundD(1) [OF ok]]] ok in
       \<open>simp_all add: steady_at steady_marks framed_def wrappers config_of_def\<close>, simp_all add: at_id_def)

lemma silent: "sound c \<Longrightarrow> framed c d \<Longrightarrow> cs_envelopes d = cs_envelopes c \<Longrightarrow> cs_workers d = cs_workers c \<Longrightarrow> allowed 0 0 c d"
  by (simp add: allowed_def sound_def council_ok_def framed_def budget_def)

lemma allowed_after: "allowed 0 0 c d \<Longrightarrow> allowed m g d e \<Longrightarrow> allowed m g c e"
  unfolding allowed_def by auto

lemma allowed_sound: "allowed m g c d \<Longrightarrow> sound d"
  by (simp add: allowed_def)

lemma reply_allowed:
  assumes ok: "sound c" and w: "cs_workers c b = Some (WRunning h n)"
  shows "allowed 0 0 c (reply_step lower b sid reply fault latency now h n c)"
proof -
  let ?c1 = "record_session b sid now c"
  have a1: "allowed 0 0 c ?c1" by (rule silent [OF ok framed_steps(4)]) (simp_all add: wrappers)
  have w1: "cs_workers ?c1 b = Some (WRunning h n)" using w by (simp add: wrappers)
  note s1 = allowed_sound [OF a1]
  have "allowed 0 0 ?c1 (reply_step lower b sid reply fault latency now h n c)"
  proof (cases "decide_drop lower (trim reply) (ie_addressed_by_user h) (cg_low_signal_patterns (config_of ?c1))")
    case (Some reason)
    then show ?thesis unfolding reply_step_def Let_def Some option.case
      by (intro terminal_allowed [OF s1 w1]) simp_all
  next
    case None
    let ?c2 = "?c1\<lparr>cs_next_sequence := cs_next_sequence ?c1 + 1\<rparr>"
    show ?thesis
    proof (cases fault)
      case (Some err)
      have a2: "allowed 0 0 ?c1 ?c2" by (rule silent [OF s1]) (simp_all add: framed_def config_of_def)
      have w2: "cs_workers ?c2 b = Some (WRunning h n)" using w1 by simp
      show ?thesis using allowed_after [OF a2 retry_allowed [OF allowed_sound [OF a2] w2, of h "''append post: '' @ err" now]] None Some
        by (simp add: reply_step_def alloc_sequence_def Let_def)
    next
      case N: None
      let ?p = "new_bro_post (kn_id (cs_session ?c1)) (cs_next_sequence ?c1) b (trim reply) (ie_reply_scope h) (ie_id h) now"
      show ?thesis
        by (rule step_posts [OF s1 w1, where p = ?p])
           (use None N in \<open>simp_all add: reply_step_def alloc_sequence_def wrappers config_of_def Let_def\<close>,
             simp_all add: new_bro_post_def)
    qed
  qed
  then show ?thesis by (rule allowed_after [OF a1])
qed

text \<open>Forwarding: at most the fan-out, one deeper, and each of them within what the reply could set off.\<close>

lemma forward_loop_mk:
  "\<exists>ms'. forward_loop cfg members already p mk ms out = out @ map (\<lambda>(n, m). mk n m) (enumerate (length out) ms') \<and>
     (length out \<le> cg_fanout_per_cascade cfg \<longrightarrow> length out + length ms' \<le> cg_fanout_per_cascade cfg)"
proof (induction cfg members already p mk ms out rule: forward_loop.induct)
  case (2 cfg members already p mk m ms out)
  consider (skip) "m = kp_sender_id p \<or> m \<notin> set members \<or> cg_mention_dedupe cfg \<and> (kp_sequence p, m) \<in> already"
    | (full) "\<not> (m = kp_sender_id p \<or> m \<notin> set members \<or> cg_mention_dedupe cfg \<and> (kp_sequence p, m) \<in> already)"
        "cg_fanout_per_cascade cfg \<le> length out"
    | (more') "\<not> (m = kp_sender_id p \<or> m \<notin> set members \<or> cg_mention_dedupe cfg \<and> (kp_sequence p, m) \<in> already)"
        "\<not> cg_fanout_per_cascade cfg \<le> length out"
    by blast
  then show ?case
  proof cases
    case skip
    then show ?thesis using "2.IH"(1) by simp
  next
    case full
    have "forward_loop cfg members already p mk (m # ms) out = out"
      unfolding forward_loop.simps(2) if_not_P [OF full(1)] if_P [OF full(2)] by (rule refl)
    then show ?thesis by (intro exI [of _ "[]"]) simp
  next
    case more'
    obtain ms' where ms': "forward_loop cfg members already p mk ms (out @ [mk (length out) m]) =
        (out @ [mk (length out) m]) @ map (\<lambda>(n, m). mk n m) (enumerate (Suc (length out)) ms')"
        "Suc (length out) + length ms' \<le> cg_fanout_per_cascade cfg"
      using "2.IH"(2) [OF more'] more'(2) by auto
    have "forward_loop cfg members already p mk (m # ms) out = forward_loop cfg members already p mk ms (out @ [mk (length out) m])"
      unfolding forward_loop.simps(2) if_not_P [OF more'(1)] if_not_P [OF more'(2)] by (rule refl)
    then show ?thesis using ms' by (intro exI [of _ "m # ms'"]) simp
  qed
qed (intro exI [of _ "[]"], simp)

lemma forwarded_ok:
  assumes f: "fresh_ids ids (cg_fanout_per_cascade (config_of c)) c"
    and d: "depth \<le> cg_relay_depth_max (config_of c)" "cg_relay_depth_max (config_of c) \<noteq> - 1"
    and es: "es = forwarded members ids now p depth c"
  shows "\<forall>e\<in>set es. envelope_ok (config_of c) e \<and> ie_status e = Queued" "distinct (map ie_id es)"
    "ie_id ` set es \<inter> ie_id ` set (cs_envelopes c) = {}"
    "sum_list (map (credit (config_of c)) es) \<le> relays (config_of c) depth"
proof -
  let ?cfg = "config_of c"
  let ?mk = "\<lambda>n m. new_queued (ids n) (kn_id (cs_session c)) m (DirectScope (kp_sequence p)) False True
       (Some (kp_sequence p)) (depth + 1) now"
  have "\<exists>ms. es = map (\<lambda>(n, m). ?mk n m) (enumerate 0 ms) \<and> length ms \<le> cg_fanout_per_cascade ?cfg \<and>
      (ms \<noteq> [] \<longrightarrow> depth + 1 \<le> cg_relay_depth_max ?cfg)"
  proof (cases "kp_addressed_to p = [] \<or> cg_relay_depth_max ?cfg < depth + 1")
    case True
    then show ?thesis by (intro exI [of _ "[]"]) (simp add: es forwarded_def)
  next
    case False
    then have "es = forward_loop ?cfg members (if cg_mention_dedupe ?cfg then enqueued_keys c else {}) p ?mk (kp_addressed_to p) []"
      by (simp add: es forwarded_def)
    then show ?thesis
      using forward_loop_mk [of ?cfg members "if cg_mention_dedupe ?cfg then enqueued_keys c else {}" p ?mk "kp_addressed_to p" "[]"]
        False by (simp add: not_less)
  qed
  then obtain ms where ms: "es = map (\<lambda>(n, m). ?mk n m) (enumerate 0 ms)" "length ms \<le> cg_fanout_per_cascade ?cfg"
      "ms \<noteq> [] \<Longrightarrow> depth + 1 \<le> cg_relay_depth_max ?cfg" by blast
  have "map ie_id es = map ids (map fst (enumerate 0 ms))"
    unfolding ms(1) map_map by (rule map_cong) (auto simp: new_queued_def)
  then have ids: "map ie_id es = map ids [0..<length ms]" by (simp only: map_fst_enumerate) simp
  have each: "ie_status e = Queued \<and> ie_attempt_count e = 0 \<and> ie_relay_depth e = depth + 1 \<and> ie_lease_owner e = None \<and> ms \<noteq> []"
    if "e \<in> set es" for e
    using that unfolding ms(1) by (auto simp: new_queued_def enumerate_eq_zip)
  show "\<forall>e\<in>set es. envelope_ok ?cfg e \<and> ie_status e = Queued"
    using each ms(3) by (fastforce simp: envelope_ok_def attempts_of_def)
  show "distinct (map ie_id es)" unfolding ids by (rule fresh_less(1) [OF f ms(2)])
  show "ie_id ` set es \<inter> ie_id ` set (cs_envelopes c) = {}"
    using fresh_less(2) [OF f ms(2)] arg_cong [OF ids, of set] by simp
  show "sum_list (map (credit ?cfg) es) \<le> relays ?cfg depth"
  proof (cases "ms = []")
    case True
    then show ?thesis using ms(1) by simp
  next
    case False
    note m = ms(3) [OF False]
    have "unat depth < unat (- 1 :: u32)" using d by (metis max_word_max order_le_less unat_mono word_le_less_eq le_less_trans)
    moreover have "unat (- 1 :: u32) = 4294967295" by (simp add: unsigned_minus_1_eq_mask mask_eq_exp_minus_1)
    ultimately have u: "unat (depth + 1) = Suc (unat depth)" by (simp add: unat_word_ariths(1))
    have "unat (depth + 1) \<le> unat (cg_relay_depth_max ?cfg)" using m by (simp add: word_le_nat_alt)
    then have s: "unat (cg_relay_depth_max ?cfg) - unat depth = Suc (unat (cg_relay_depth_max ?cfg) - unat (depth + 1))"
      using u by simp
    have "credit ?cfg e = attempts_of ?cfg + relays ?cfg (depth + 1)" if "e \<in> set es" for e
      using each [OF that] by (simp add: credit_def)
    then have m: "map (credit ?cfg) es = map (\<lambda>_. attempts_of ?cfg + relays ?cfg (depth + 1)) es" by simp
    have "sum_list (map (credit ?cfg) es) = length ms * (attempts_of ?cfg + relays ?cfg (depth + 1))"
      unfolding m sum_list_triv using arg_cong [OF ids, of length] by simp
    also have "\<dots> \<le> cg_fanout_per_cascade ?cfg * (attempts_of ?cfg + relays ?cfg (depth + 1))"
      using ms(2) by simp
    finally show ?thesis unfolding relays_def s by simp
  qed
qed

lemma cost_forward:
  assumes "sound c" "cs_workers c b = Some (WForward e p)" "fresh_ids ids (cg_fanout_per_cascade (config_of c)) c"
    and "cg_relay_depth_max (config_of c) \<noteq> - 1"
  shows "allowed 0 0 c (set_worker b WIdle (forward_mentions members ids now p (ie_relay_depth e) c))"
proof -
  let ?es = "forwarded members ids now p (ie_relay_depth e) c"
  let ?c1 = "c\<lparr>cs_envelopes := cs_envelopes c @ ?es\<rparr>"
  let ?d = "forward_mentions members ids now p (ie_relay_depth e) c"
  have deep: "ie_relay_depth e \<le> cg_relay_depth_max (config_of c)"
    using soundD(3) [OF assms(1)] assms(2) unfolding shallow_def by fastforce
  note new = forwarded_ok [OF assms(3) deep assms(4) refl, of members now p]
  have d: "only_grows ?c1 ?d" unfolding forward_mentions_def Let_def by (rule only_grows_folds(1))
  have w: "cs_workers ?d b = Some (WForward e p)"
    using d assms(2) unfolding only_grows_def grown_def by (auto dest!: spec [of _ b])
  have g: "good (config_of c) (kn_status (cs_session c) = CouncilOpen) (cs_envelopes c @ ?es) (cs_posts c) ((cs_workers ?d)(b \<mapsto> WIdle))"
  proof -
    have "good (config_of c) (kn_status (cs_session c) = CouncilOpen) (cs_envelopes c @ ?es) (cs_posts c) (cs_workers ?d)"
      by (rule good_adds [OF soundD(1) [OF assms(1)] new(1-3)]) (use d in \<open>auto simp: only_grows_def grown_def\<close>)
    from good_moves [OF this w, where w' = WIdle and f = "\<lambda>e. e"] show ?thesis by (simp add: steady_marks)
  qed
  have fin: "finite (dom (cs_workers ?d))" by (rule finite_forward [OF soundD(2) [OF assms(1)]])
  show ?thesis
  proof (rule allowedI [of _ "cs_envelopes c @ ?es" "(cs_workers ?d)(b \<mapsto> WIdle)"])
    show "0 + (sum_list (map (credit (config_of c)) (cs_envelopes c @ ?es)) + worker_sum (config_of c) ((cs_workers ?d)(b \<mapsto> WIdle))) \<le> budget c + 0"
      using new(4) worker_sum_update [OF fin w, of "config_of c" WIdle]
        worker_sum_grown [OF fin, of "cs_workers c" "config_of c"] d
      by (simp add: budget_def only_grows_def)
    have "served (kn_status (cs_session c) = CouncilOpen) (cs_envelopes c @ ?es) (cs_workers ?d)"
      by (rule served_grown [OF soundD(4) [OF assms(1)]]) (use d forward_ensures in \<open>auto simp: only_grows_def\<close>)
    then show "served (kn_status (cs_session (set_worker b WIdle ?d)) = CouncilOpen) (cs_envelopes c @ ?es) ((cs_workers ?d)(b \<mapsto> WIdle))"
      using d unfolding served_def by (simp add: only_grows_def wrappers)
    show "shallow (config_of c) ((cs_workers ?d)(b \<mapsto> WIdle))"
      by (rule shallow_update [OF shallow_grown [OF soundD(3) [OF assms(1)]]]) (use d in \<open>auto simp: only_grows_def\<close>)
  qed (use g d fin in \<open>simp_all add: only_grows_def wrappers config_of_def\<close>)
qed

section \<open>The user, the operator and the daemon\<close>

lemma user_post_allowed:
  assumes "sound c"
  shows "allowed 0 0 c (snd (user_post sender body now fault c))"
proof (cases "kn_status (cs_session c) = CouncilClosed \<or> fault \<noteq> None")
  case True
  then show ?thesis
    by (intro silent [OF assms])
       (auto simp: user_post_def alloc_sequence_def framed_def config_of_def split: option.splits)
next
  case False
  let ?p = "new_user_post (kn_id (cs_session c)) (cs_next_sequence c) sender body now"
  have d: "snd (user_post sender body now fault c) =
      touch now (c\<lparr>cs_next_sequence := cs_next_sequence c + 1, cs_posts := cs_posts c @ [?p], cs_turns := cs_turns c @ [?p]\<rparr>)"
    using False by (simp add: user_post_def alloc_sequence_def Let_def)
  show ?thesis unfolding d
  proof (rule allowedI [of _ "cs_envelopes c" "cs_workers c"])
    show "good (config_of c) (kn_status (cs_session (touch now (c\<lparr>cs_next_sequence := cs_next_sequence c + 1,
        cs_posts := cs_posts c @ [?p], cs_turns := cs_turns c @ [?p]\<rparr>))) = CouncilOpen) (cs_envelopes c)
        (cs_posts (touch now (c\<lparr>cs_next_sequence := cs_next_sequence c + 1, cs_posts := cs_posts c @ [?p],
        cs_turns := cs_turns c @ [?p]\<rparr>))) (cs_workers c)"
      using good_user [OF soundD(1) [OF assms], of ?p] by (simp add: wrappers new_user_post_def)
  qed (use soundD(2-4) [OF assms] in \<open>simp_all add: wrappers config_of_def budget_def\<close>)
qed

lemma user_envelopes_ok:
  assumes "fresh_ids ids (length members) c"
  shows "\<forall>e\<in>set (user_envelopes members ids now p c). envelope_ok (config_of c) e \<and> ie_status e = Queued"
    "distinct (map ie_id (user_envelopes members ids now p c))"
    "ie_id ` set (user_envelopes members ids now p c) \<inter> ie_id ` set (cs_envelopes c) = {}"
    "sum_list (map (credit (config_of c)) (user_envelopes members ids now p c)) =
      length members * (attempts_of (config_of c) + relays (config_of c) 0)"
proof -
  let ?es = "user_envelopes members ids now p c"
  have "map ie_id ?es = map ids (map fst (enumerate 0 members))"
    unfolding user_envelopes_def map_map by (rule map_cong) (auto simp: new_queued_def user_envelope_def)
  then have ids: "map ie_id ?es = map ids [0..<length members]" by (simp only: map_fst_enumerate) simp
  have each: "ie_status e = Queued \<and> ie_attempt_count e = 0 \<and> ie_relay_depth e = 0 \<and> ie_lease_owner e = None"
    if "e \<in> set ?es" for e
    using that by (auto simp: user_envelopes_def user_envelope_def new_queued_def)
  show "\<forall>e\<in>set ?es. envelope_ok (config_of c) e \<and> ie_status e = Queued"
    using each by (fastforce simp: envelope_ok_def attempts_of_def)
  show "distinct (map ie_id ?es)" unfolding ids by (rule fresh_less(1) [OF assms order_refl])
  show "ie_id ` set ?es \<inter> ie_id ` set (cs_envelopes c) = {}"
    using fresh_less(2) [OF assms order_refl] arg_cong [OF ids, of set] by simp
  have "credit (config_of c) e = attempts_of (config_of c) + relays (config_of c) 0" if "e \<in> set ?es" for e
    using each [OF that] by (simp add: credit_def)
  then have m: "map (credit (config_of c)) ?es = map (\<lambda>_. attempts_of (config_of c) + relays (config_of c) 0) ?es" by simp
  show "sum_list (map (credit (config_of c)) ?es) = length members * (attempts_of (config_of c) + relays (config_of c) 0)"
    unfolding m sum_list_triv by (simp add: user_envelopes_def)
qed

lemma user_fan_allowed:
  assumes "sound c" "fresh_ids ids (length members) c"
  shows "allowed 0 (length members * (attempts_of (config_of c) + relays (config_of c) 0)) c (user_fan members ids now p c)"
proof -
  let ?es = "user_envelopes members ids now p c"
  let ?c1 = "emit_council (PostEvent p) (c\<lparr>cs_envelopes := cs_envelopes c @ ?es, cs_turns := remove1 p (cs_turns c)\<rparr>)"
  let ?c2 = "foldl (\<lambda>c e. emit_council (EnvelopeChanged (ie_id e) (ie_bro_id e) (ie_status e)) c) ?c1 ?es"
  have d: "only_grows ?c1 (user_fan members ids now p c)"
    unfolding user_fan_def Let_def
    by (rule only_grows_trans [OF only_grows_all [OF only_grows_basic(1)] only_grows_all [OF only_grows_basic(2)]])
  have "finite (dom (cs_workers (user_fan members ids now p c)))"
    unfolding user_fan_def Let_def
    by (intro finite_fold finite_ensure finite_emit) (use soundD(2) [OF assms(1)] in \<open>simp_all add: wrappers\<close>)
  moreover have "cs_workers (user_fan members ids now p c) (ie_bro_id e) \<noteq> None" if "e \<in> set ?es" for e
  proof -
    have "ie_bro_id e \<in> set members"
      using that by (auto simp: user_envelopes_def user_envelope_def new_queued_def enumerate_eq_zip dest: set_zip_rightD)
    then show ?thesis unfolding user_fan_def Let_def
      by (rule ensured_all [where g = "\<lambda>m. m", rotated 2]) (rule ensured_keeps, assumption, rule ensure_ensures)
  qed
  ultimately show ?thesis
    using step_adds [OF assms(1) user_envelopes_ok(1-3) [OF assms(2)], of "user_fan members ids now p c" now p]
      d user_envelopes_ok(4) [OF assms(2), of now p]
    by (simp add: only_grows_def wrappers framed_def config_of_def)
qed

lemma close_allowed:
  assumes "sound c"
  shows "allowed 0 0 c (close_council now c)"
proof (rule allowedI [of _ "cs_envelopes c" "cs_workers c"])
  show "good (config_of c) (kn_status (cs_session (close_council now c)) = CouncilOpen) (cs_envelopes c)
      (cs_posts (close_council now c)) (cs_workers c)"
    using good_closes [OF soundD(1) [OF assms]] by (simp add: close_council_def wrappers)
qed (use soundD(2,3) [OF assms] in \<open>simp_all add: close_council_def wrappers config_of_def budget_def served_def\<close>)

lemma crash_allowed:
  assumes ok: "sound c"
  shows "allowed 0 0 c (respawn_workers now (restore_council c))"
proof (cases "kn_status (cs_session c) = CouncilClosed")
  case True
  then have d: "respawn_workers now (restore_council c) = restore_council c"
    by (simp add: respawn_workers_def restore_council_def)
  have "good (config_of c) False (cs_envelopes c) (cs_posts c) Map.empty"
    using good_stops soundD(1) [OF ok] True by simp
  then show ?thesis unfolding d
    by (intro allowedI [of _ "cs_envelopes c" Map.empty])
       (simp_all add: restore_council_def config_of_def True shallow_def served_def worker_sum_def budget_def)
next
  case False
  then have o: "kn_status (cs_session c) = CouncilOpen" by (cases "kn_status (cs_session c)") simp_all
  let ?k = "reconcile_envelope (cg_max_attempts (config_of c)) (set (sources (cs_posts c))) now"
  let ?c1 = "reconcile_draining_at_restart now (restore_council c)"
  let ?d = "respawn_workers now (restore_council c)"
  have c1: "cs_envelopes ?c1 = map ?k (cs_envelopes c)" "cs_posts ?c1 = cs_posts c" "cs_session ?c1 = cs_session c"
      "cs_workers ?c1 = Map.empty"
    by (simp_all add: reconcile_draining_at_restart_def restore_council_def answered_envelopes_def sources_def config_of_def)
  have d: "?d = foldl (\<lambda>c b. ensure_worker b c) ?c1 (map ie_bro_id (filter (\<lambda>e. ie_status e = Queued) (cs_envelopes ?c1)))"
    using False by (simp add: respawn_workers_def restore_council_def Let_def)
  have og: "only_grows ?c1 ?d" unfolding d by (rule only_grows_all [OF only_grows_basic(2)])
  have fin: "finite (dom (cs_workers ?d))" unfolding d by (intro finite_fold finite_ensure) (simp_all add: c1)
  have g: "good (config_of c) True (cs_envelopes c) (cs_posts c) (cs_workers c)" using soundD(1) [OF ok] o by simp
  have g1: "good (config_of c) True (map ?k (cs_envelopes c)) (cs_posts c) Map.empty" by (rule good_restarts [OF g])
  have "credit (config_of c) (?k e) \<le> credit (config_of c) e" if "e \<in> set (cs_envelopes c)" for e
    using credit_retried(2) [OF goodD(1) [OF g that]] by (cases "ie_status e = Draining") (simp_all add: reconcile_envelope_def)
  from sum_keep [of "cs_envelopes c" "credit (config_of c)" ?k, OF this]
  have le: "sum_list (map (credit (config_of c)) (map ?k (cs_envelopes c))) \<le> sum_list (map (credit (config_of c)) (cs_envelopes c))" .
  show ?thesis
  proof (rule allowedI [of _ "map ?k (cs_envelopes c)" "cs_workers ?d"])
    show "good (config_of c) (kn_status (cs_session ?d) = CouncilOpen) (map ?k (cs_envelopes c)) (cs_posts ?d) (cs_workers ?d)"
      using good_adds [OF g1, of "[]" "cs_workers ?d"] og o by (simp add: only_grows_def c1 grown_def)
    have "cs_workers ?d (ie_bro_id e) \<noteq> None" if "e \<in> set (cs_envelopes ?c1)" "ie_status e = Queued" for e
      unfolding d by (rule ensured_all [where g = "\<lambda>m. m", rotated 2])
        (use that in force, rule ensured_keeps, assumption, rule ensure_ensures)
    then show "served (kn_status (cs_session ?d) = CouncilOpen) (map ?k (cs_envelopes c)) (cs_workers ?d)"
      unfolding served_def c1(1) by blast
    show "shallow (config_of c) (cs_workers ?d)"
      by (rule shallow_grown [of _ Map.empty]) (use og in \<open>simp_all add: shallow_def only_grows_def c1\<close>)
    show "0 + (sum_list (map (credit (config_of c)) (map ?k (cs_envelopes c))) + worker_sum (config_of c) (cs_workers ?d)) \<le> budget c + 0"
      using worker_sum_grown [OF fin, of Map.empty "config_of c"] og le
      by (simp add: only_grows_def c1 budget_def worker_sum_def del: map_map)
  qed (use og fin in \<open>simp_all add: only_grows_def c1 config_of_def\<close>)
qed

section \<open>Runs\<close>

lemma worker_step_allowed:
  assumes ok: "sound c" "cg_relay_depth_max (config_of c) \<noteq> - 1" and f: "fresh_action a c"
    and b: "action_bro a = Some b" "cs_workers c b = Some w" and s: "worker_step lower a b w c = Some d"
  shows "allowed (asked a) (gain (config_of c) a) c d"
proof (cases a)
  case (ACheck b')
  then show ?thesis using s b check_allowed [OF ok(1) b(2), of WReady]
    by (auto simp: worker_step_def split: worker.splits if_splits)
next
  case (ATake b' now until)
  then have w: "w = WReady" using s by (auto simp: worker_step_def split: worker.splits)
  show ?thesis
  proof (cases "take_next b now until c")
    case None
    then show ?thesis using s w ATake check_allowed [OF ok(1) b(2), of WIdle] by (simp add: worker_step_def)
  next
    case (Some ec)
    obtain e c1 where ec: "ec = (e, c1)" by (cases ec)
    have t: "take_next b now until c = Some (e, c1)" using Some ec by simp
    have d: "d = set_worker b (WTaken e (count_queued_for b c1)) (emit_council (EnvelopeChanged (ie_id e) b (ie_status e)) c1)"
      using s t w ATake by (simp add: worker_step_def)
    show ?thesis unfolding d using take_allowed [OF ok(1) b(2) [unfolded w] t] ATake by simp
  qed
next
  case (ADispatchFails b' reason now)
  then show ?thesis using s b fail_allowed [OF ok(1)] by (auto simp: worker_step_def split: worker.splits)
next
  case (ADispatch b' hash)
  then show ?thesis using s b dispatch_allowed [OF ok(1)] by (auto simp: worker_step_def split: worker.splits)
next
  case (ARetry b' reason now)
  then obtain e n where w: "w = WRunning e n" using s by (auto simp: worker_step_def split: worker.splits)
  have d: "d = set_worker b WIdle (retry_or_fail (ie_id e) b reason now c)" using s w ARetry by (simp add: worker_step_def)
  show ?thesis unfolding d using retry_allowed [OF ok(1) b(2)] w ARetry by simp
next
  case (AReply b' sid reply fault latency now)
  then show ?thesis using s b reply_allowed [OF ok(1)] by (auto simp: worker_step_def split: worker.splits)
next
  case (ASettle b' latency now)
  then obtain e n p where w: "w = WPosted e n p" using s by (auto simp: worker_step_def split: worker.splits)
  have d: "d = set_worker b (WForward e p)
      (terminal_envelope (ie_id e) b Done None (Some (kp_sequence p)) (meta_of latency n) now c)"
    using s w ASettle by (simp add: worker_step_def)
  show ?thesis unfolding d using ASettle
    by (simp add: terminal_allowed [OF ok(1) b(2)] w)
next
  case (AForward b' members ids now)
  then obtain e p where w: "w = WForward e p" using s by (auto simp: worker_step_def split: worker.splits)
  have d: "d = set_worker b WIdle (forward_mentions members ids now p (ie_relay_depth e) c)"
    using s w AForward by (simp add: worker_step_def)
  show ?thesis unfolding d using cost_forward [OF ok(1) b(2) [unfolded w]] f ok(2) AForward by simp
qed (use b(1) in simp_all)

lemma council_step_allowed:
  assumes ok: "sound c" "cg_relay_depth_max (config_of c) \<noteq> - 1" "fresh_action a c" "council_step lower a c = Some d"
  shows "allowed (asked a) (gain (config_of c) a) c d"
proof (cases "action_bro a")
  case None
  then show ?thesis
    using ok user_post_allowed [OF ok(1)] user_fan_allowed [OF ok(1)] close_allowed [OF ok(1)] crash_allowed [OF ok(1)]
    by (cases a) (auto simp: council_step_def split: if_splits)
next
  case (Some b)
  then obtain w where "cs_workers c b = Some w" "worker_step lower a b w c = Some d"
    using ok(4) by (auto simp: council_step_def split: option.splits)
  then show ?thesis using worker_step_allowed [OF ok(1-3) Some] by blast
qed

fun fresh_run :: "(string \<Rightarrow> string) \<Rightarrow> council_action list \<Rightarrow> council \<Rightarrow> bool" where
  "fresh_run lower [] c = True"
| "fresh_run lower (a # as) c =
     (fresh_action a c \<and> (case council_step lower a c of Some c1 \<Rightarrow> fresh_run lower as c1 | None \<Rightarrow> True))"

lemma run_allowed:
  assumes "sound c" "cg_relay_depth_max (config_of c) \<noteq> - 1" "fresh_run lower as c" "council_run lower as c = Some d"
  shows "allowed (sum_list (map asked as)) (sum_list (map (gain (config_of c)) as)) c d"
  using assms
proof (induction as arbitrary: c)
  case Nil
  then show ?case by (simp add: allowed_def)
next
  case (Cons a as)
  obtain c1 where c1: "council_step lower a c = Some c1" using Cons.prems(4) by (cases "council_step lower a c") auto
  have f: "fresh_action a c" "fresh_run lower as c1" using Cons.prems(3) c1 by simp_all
  have r: "council_run lower as c1 = Some d" using Cons.prems(4) c1 by simp
  have s: "allowed (asked a) (gain (config_of c) a) c c1"
    by (rule council_step_allowed [OF Cons.prems(1,2) f(1) c1])
  then have g: "config_of c1 = config_of c" by (simp add: allowed_def)
  have "allowed (sum_list (map asked as)) (sum_list (map (gain (config_of c)) as)) c1 d"
    using Cons.IH [OF allowed_sound [OF s] _ f(2) r] Cons.prems(2) g by simp
  from allowed_trans [OF s this] show ?case by simp
qed

lemma new_sound: "sound (new_council i team topic charter project now)"
  by (simp add: sound_def council_ok_def new_council_def good_def holds_all_def drained_def shallow_def served_def sources_def)

lemma new_config: "config_of (new_council i team topic charter project now) = default_council_config"
  by (simp add: new_council_def config_of_def new_session_def)

lemma new_run_allowed:
  assumes "fresh_run lower as (new_council i team topic charter project now)"
    and "council_run lower as (new_council i team topic charter project now) = Some d"
  shows "allowed (sum_list (map asked as)) (sum_list (map (gain default_council_config) as))
    (new_council i team topic charter project now) d"
  using run_allowed [OF new_sound _ assms] by (simp add: new_config) (simp add: default_council_config_def)

lemma default_budget: "attempts_of default_council_config + relays default_council_config 0 = 468"
proof -
  have "relay_credit 5 3 3 = 465" by (simp add: eval_nat_numeral)
  then show ?thesis by (simp add: attempts_of_def relays_def default_council_config_def)
qed

end
