(* ===== verification/Council_Promises.thy ===== *)
theory Council_Promises
  imports Council_Guarantees
begin

text \<open>
  What a council promises whatever its members answer and however often the daemon dies: a turn of the user
  makes a bounded number of calls, a member works on one envelope at a time, answers none twice and leaves
  none of an open council unattended; a long inbox is merged without losing a turn, and mentions are found.
\<close>

section \<open>A run\<close>

definition demo_council :: council where
  "demo_council = new_council ''c'' ''t'' ''topic'' ''charter'' None ''0''"

definition demo_run :: "council_action list" where
  "demo_run =
     [AUserPost ''u'' ''hello'' None ''1'',
      AUserFan (new_user_post ''c'' 1 ''u'' ''hello'' ''1'') [''a'', ''b''] (\<lambda>n. replicate n CHR ''x'') ''1'',
      ACheck ''a'', ATake ''a'' ''2'' ''9'', ADispatch ''a'' ''h'',
      AReply ''a'' ''s'' ''ask @b'' None 5 ''3'', ASettle ''a'' 5 ''3'',
      AForward ''a'' [''a'', ''b''] (\<lambda>n. CHR ''y'' # replicate n CHR ''y'') ''4'',
      ACheck ''b'', ATake ''b'' ''5'' ''9'', ADispatch ''b'' ''h'', ACrash ''6'']"

lemma demo_fresh: "fresh_run (\<lambda>s. s) demo_run demo_council"
  by code_simp

lemma demo_done: "\<exists>d. council_run (\<lambda>s. s) demo_run demo_council = Some d"
proof -
  have "council_run (\<lambda>s. s) demo_run demo_council \<noteq> None" by code_simp
  then show ?thesis by simp
qed

definition demo_end :: council where
  "demo_end = the (council_run (\<lambda>s. s) demo_run demo_council)"

lemma demo_runs: "council_run (\<lambda>s. s) demo_run demo_council = Some demo_end"
  using demo_done by (auto simp: demo_end_def)

section \<open>Calls\<close>

fun is_dispatch :: "council_action \<Rightarrow> bool" where
  "is_dispatch (ADispatch _ _) = True"
| "is_dispatch _ = False"

fun fanned :: "council_action \<Rightarrow> nat" where
  "fanned (AUserFan _ members _ _) = length members"
| "fanned _ = 0"

lemma asked_count: "sum_list (map asked as) = length (filter is_dispatch as)"
proof (induction as)
  case (Cons a as)
  then show ?case by (cases a) simp_all
qed simp

lemma gain_count: "sum_list (map (gain default_council_config) as) = 468 * sum_list (map fanned as)"
proof (induction as)
  case (Cons a as)
  then show ?case by (cases a) (simp_all add: default_budget)
qed simp

lemma new_budget: "budget (new_council i team topic charter project now) = 0"
  by (simp add: budget_def new_council_def worker_sum_def)

text \<open>Property C4. A turn of the user to \<open>n\<close> members makes at most \<open>468 n\<close> calls of members, whatever they
  reply and mention, and whatever is retried, merged or interrupted by restarts of the daemon: three
  attempts each, and five mentions a reply over three relays.\<close>

theorem council_calls_are_bounded:
  assumes "fresh_run lower as (new_council i team topic charter project now)"
    and "council_run lower as (new_council i team topic charter project now) = Some d"
  shows "length (filter is_dispatch as) \<le> 468 * sum_list (map fanned as)"
  using new_run_allowed [OF assms] by (simp add: allowed_def new_budget asked_count gain_count)

theorem council_calls_are_bounded_witness:
  "length (filter is_dispatch demo_run) \<le> 468 * sum_list (map fanned demo_run) \<and> length (filter is_dispatch demo_run) = 2"
proof
  show "length (filter is_dispatch demo_run) \<le> 468 * sum_list (map fanned demo_run)"
    using council_calls_are_bounded [OF demo_fresh [unfolded demo_council_def] demo_runs [unfolded demo_council_def]] .
qed (simp add: demo_run_def)



text \<open>Property C6. No envelope is answered by two posts, also when the daemon dies between the post of the
  reply and the end of the envelope; an envelope with an answer is done or being finished.\<close>

theorem council_answers_once:
  assumes "fresh_run lower as (new_council i team topic charter project now)"
    and "council_run lower as (new_council i team topic charter project now) = Some d"
  shows "distinct (filter (\<lambda>x. x \<noteq> None) (map kp_source_envelope_id (cs_posts d))) \<and>
    (\<forall>p\<in>set (cs_posts d). \<forall>x. kp_source_envelope_id p = Some x \<longrightarrow>
       (\<exists>e\<in>set (cs_envelopes d). ie_id e = x \<and> ie_status e \<in> {Done, Draining}))"
proof -
  have "sound d" using new_run_allowed [OF assms] by (simp add: allowed_def)
  note g = soundD(1) [OF this]
  have f: "filter (\<lambda>x. x \<noteq> None) (map kp_source_envelope_id ps) = map Some (sources ps)" for ps
    by (induction ps) (auto simp: sources_def split: option.splits)
  have s: "x \<in> set (sources (cs_posts d))" if "p \<in> set (cs_posts d)" "kp_source_envelope_id p = Some x" for p x
    using that by (force simp: sources_def)
  have "\<exists>e\<in>set (cs_envelopes d). ie_id e = x \<and> ie_status e \<in> {Done, Draining}"
    if "p \<in> set (cs_posts d)" "kp_source_envelope_id p = Some x" for p x
    using goodD(6) [OF g s [OF that]] unfolding answered_def by blast
  then show ?thesis unfolding f using goodD(5) [OF g] by (simp add: distinct_map)
qed

theorem council_answers_once_witness:
  "distinct (filter (\<lambda>x. x \<noteq> None) (map kp_source_envelope_id (cs_posts demo_end)))"
  using council_answers_once [OF demo_fresh [unfolded demo_council_def] demo_runs [unfolded demo_council_def]] by blast

section \<open>The inbox\<close>

lemma take_first:
  assumes "filter (queued_for b) (cs_envelopes c) = e0 # r"
  shows "\<exists>e c1. take_next b now until c = Some (e, c1) \<and> ie_id e = ie_id e0"
  using assms by (simp add: take_next_def start_draining_def Let_def)



lemma dedup_elements: "set (dedup xs) = set xs"
  by (induction xs rule: dedup.induct) auto

lemma taking_inbox:
  assumes q: "filter (queued_for b) es = e0 # r" and d: "distinct (map ie_id es)"
    and f: "\<And>e. ie_status (f e) = Draining"
  shows "(\<And>e. ie_status (g e) = Superseded) \<Longrightarrow> filter (queued_for b) (map (taking b e0 f g) es) = []"
    "filter (queued_for b) (map (taking b e0 f (\<lambda>e. e)) es) = r"
proof -
  show "filter (queued_for b) (map (taking b e0 f g) es) = []" if "\<And>e. ie_status (g e) = Superseded"
    using that f by (auto simp: filter_empty_conv taking_def queued_for_def)
  have t: "queued_for b (taking b e0 f (\<lambda>e. e) e) \<longleftrightarrow> queued_for b e \<and> ie_id e \<noteq> ie_id e0" for e
    using f by (auto simp: taking_def queued_for_def)
  have "filter (queued_for b) (map (taking b e0 f (\<lambda>e. e)) es) =
      map (taking b e0 f (\<lambda>e. e)) (filter (\<lambda>e. ie_id e \<noteq> ie_id e0) (filter (queued_for b) es))"
    by (simp add: filter_map comp_def t conj_commute)
  also have "filter (\<lambda>e. ie_id e \<noteq> ie_id e0) (filter (queued_for b) es) = r"
  proof -
    have "distinct (map ie_id (e0 # r))" using distinct_map_filter [OF d, of "queued_for b"] q by simp
    then have "\<forall>e\<in>set r. ie_id e \<noteq> ie_id e0" by (auto simp: image_iff)
    then show ?thesis unfolding q by simp
  qed
  also have "map (taking b e0 f (\<lambda>e. e)) r = r"
  proof (rule map_idI)
    fix e assume "e \<in> set r"
    moreover have "distinct (map ie_id (e0 # r))" using distinct_map_filter [OF d, of "queued_for b"] q by simp
    ultimately show "taking b e0 f (\<lambda>e. e) e = e" by (auto simp: taking_def image_iff)
  qed
  finally show "filter (queued_for b) (map (taking b e0 f (\<lambda>e. e)) es) = r" .
qed


definition demo_inbox :: council where
  "demo_inbox = demo_council\<lparr>cs_envelopes := map (\<lambda>n. user_envelope (replicate n CHR ''x'') ''c'' ''1''
     (new_user_post ''c'' (of_nat n) ''u'' ''hi'' ''1'') ''a'') [1, 2, 3]\<rparr>"


section \<open>Mentions\<close>

definition mentioned :: "string \<Rightarrow> string \<Rightarrow> bool" where
  "mentioned m s \<longleftrightarrow>
     m \<noteq> [] \<and> list_all mention_char m \<and>
     (\<exists>u v. s = u @ CHR ''@'' # m @ v \<and> (v = [] \<or> \<not> mention_char (hd v)))"

lemma no_at: "\<not> mention_char (CHR ''@'')"
  by code_simp

lemma mentioned_nil: "\<not> mentioned m []"
  by (simp add: mentioned_def)

lemma mentioned_skip:
  assumes "c \<noteq> CHR ''@''"
  shows "mentioned m (c # cs) \<longleftrightarrow> mentioned m cs"
proof
  assume "mentioned m (c # cs)"
  then obtain u v where uv: "c # cs = u @ CHR ''@'' # m @ v" "v = [] \<or> \<not> mention_char (hd v)"
      and m: "m \<noteq> []" "list_all mention_char m" unfolding mentioned_def by blast
  from uv(1) assms obtain u' where "u = c # u'" by (cases u) auto
  then have "cs = u' @ CHR ''@'' # m @ v" using uv(1) by simp
  then show "mentioned m cs" using uv(2) m unfolding mentioned_def by blast
next
  assume "mentioned m cs"
  then obtain u v where "cs = u @ CHR ''@'' # m @ v" "v = [] \<or> \<not> mention_char (hd v)"
      and m: "m \<noteq> []" "list_all mention_char m" unfolding mentioned_def by blast
  then have "c # cs = (c # u) @ CHR ''@'' # m @ v \<and> (v = [] \<or> \<not> mention_char (hd v))" by simp
  then show "mentioned m (c # cs)" using m unfolding mentioned_def by blast
qed

lemma take_name:
  assumes "list_all mention_char m" "v = [] \<or> \<not> mention_char (hd v)"
  shows "takeWhile mention_char (m @ v) = m"
  using assms by (induction m) (cases v, auto)+

lemma mentioned_name:
  assumes "list_all mention_char n"
  shows "mentioned m (n @ s) \<longleftrightarrow> mentioned m s"
  using assms
proof (induction n)
  case (Cons c n)
  then have "c \<noteq> CHR ''@''" using no_at by auto
  then show ?case using Cons mentioned_skip [of c m "n @ s"] by simp
qed simp

lemma mentioned_at:
  "mentioned m (CHR ''@'' # cs) \<longleftrightarrow>
     (m \<noteq> [] \<and> m = takeWhile mention_char cs) \<or> mentioned m (dropWhile mention_char cs)"
proof -
  have tail: "mentioned m cs \<longleftrightarrow> mentioned m (dropWhile mention_char cs)"
    using mentioned_name [of "takeWhile mention_char cs" m "dropWhile mention_char cs"]
    by (simp add: list_all_iff) (metis set_takeWhileD)
  have cons: "mentioned m (CHR ''@'' # cs)" if inner: "mentioned m cs"
  proof -
    obtain u v where "cs = u @ CHR ''@'' # m @ v" "v = [] \<or> \<not> mention_char (hd v)"
      and m: "m \<noteq> []" "list_all mention_char m" using inner unfolding mentioned_def by blast
    then have "CHR ''@'' # cs = (CHR ''@'' # u) @ CHR ''@'' # m @ v \<and> (v = [] \<or> \<not> mention_char (hd v))" by simp
    then show ?thesis using m unfolding mentioned_def by blast
  qed
  show ?thesis
  proof
    assume "mentioned m (CHR ''@'' # cs)"
    then obtain u v where uv: "CHR ''@'' # cs = u @ CHR ''@'' # m @ v" "v = [] \<or> \<not> mention_char (hd v)"
      and m: "m \<noteq> []" "list_all mention_char m" unfolding mentioned_def by blast
    show "(m \<noteq> [] \<and> m = takeWhile mention_char cs) \<or> mentioned m (dropWhile mention_char cs)"
    proof (cases u)
      case Nil
      then have "cs = m @ v" using uv(1) by simp
      then show ?thesis using take_name [OF m(2) uv(2)] m(1) by simp
    next
      case (Cons a u')
      then have "cs = u' @ CHR ''@'' # m @ v" using uv(1) by simp
      then have "mentioned m cs" using uv(2) m unfolding mentioned_def by blast
      then show ?thesis using tail by blast
    qed
  next
    assume "(m \<noteq> [] \<and> m = takeWhile mention_char cs) \<or> mentioned m (dropWhile mention_char cs)"
    then show "mentioned m (CHR ''@'' # cs)"
    proof
      assume a: "m \<noteq> [] \<and> m = takeWhile mention_char cs"
      have "list_all mention_char m" using a set_takeWhileD [of _ mention_char cs] by (auto simp: list_all_iff)
      moreover have "CHR ''@'' # cs = [] @ CHR ''@'' # m @ dropWhile mention_char cs" using a by simp
      moreover have "dropWhile mention_char cs = [] \<or> \<not> mention_char (hd (dropWhile mention_char cs))"
        using hd_dropWhile [of mention_char cs] by blast
      ultimately show ?thesis using a unfolding mentioned_def by blast
    next
      assume "mentioned m (dropWhile mention_char cs)"
      then show ?thesis using tail cons by blast
    qed
  qed
qed

lemma mentions_from_set:
  "set (mentions_from out s) = set out \<union> {m. mentioned m s}"
proof (induction out s rule: mentions_from.induct)
  case (2 out c cs)
  show ?case
  proof (cases "c = CHR ''@''")
    case True
    let ?n = "takeWhile mention_char cs"
    have "set (mentions_from out (c # cs)) =
        set (if ?n \<noteq> [] \<and> ?n \<notin> set out then out @ [?n] else out) \<union> {m. mentioned m (dropWhile mention_char cs)}"
      using "2.IH"(2) True by (simp add: Let_def)
    also have "\<dots> = set out \<union> {m. mentioned m (c # cs)}"
      unfolding True mentioned_at by auto
    finally show ?thesis .
  next
    case False
    then show ?thesis using "2.IH"(1) by (simp add: mentioned_skip)
  qed
qed (simp add: mentioned_nil)

lemma mentions_from_distinct: "distinct out \<Longrightarrow> distinct (mentions_from out s)"
  by (induction out s rule: mentions_from.induct) (simp_all add: Let_def)

lemma no_name: "takeWhile mention_char v = [] \<longleftrightarrow> v = [] \<or> \<not> mention_char (hd v)"
  by (cases v) simp_all


end

