(* ===== verification/Spec2Isabelle.thy ===== *)
theory Spec2Isabelle
  imports Packet_Scanner Workflow_Fanout_Guarantees Events_Promises Whiteboard_Storage Roadmap_Promises Council_Promises
begin

text \<open>
  A verification development for seven subsystems of the daemon under \<open>src/src/\<close>: decision packets
  (\<open>packets/\<close>), the workflow engine (\<open>workflow/\<close>), the system event bus (\<open>system_events/\<close>),
  whiteboards (\<open>whiteboards.rs\<close>), threads (\<open>threads.rs\<close>), the roadmap (\<open>roadmap.rs\<close>,
  \<open>tools/roadmap.rs\<close>) and councils (\<open>council/\<close>), with the entity references (\<open>entity_ref.rs\<close>) and
  the JSON stores (\<open>json_store.rs\<close>) they share. A packet is a set of typed rules that is compiled, stored and applied
  to JSON entities. A workflow is a graph of nodes that the engine walks; its gates and policies apply
  packets, its waits are woken by signals and provider events, its hooks and nodes emit system events.
  An emitted event is journalled and matched with reactions; each match is a record of the outbox, which
  a worker claims, checks (idempotency key, gate packet, length of the chain of causes), executes and
  settles. A whiteboard is a log of posts, annotations and votes that moves through phases. Threads and
  the roadmap are one JSON file each, shared by handles under a lock; an item of the roadmap is promoted
  to a thread. A council hands the turns of a user, and what they mention, to the workers of its members.

  \<^bold>\<open>Shared theories.\<close>
  \<^item> \<open>Prelude\<close>: results of type error + value, strings with decimal numbers, stable sorting, association
    lists as serde's objects (\<open>obj_get\<close>, \<open>obj_insert\<close>) and as B-tree maps (\<open>bt_insert\<close>). The locale
    \<open>kv_map\<close> states what a map promises; it is interpreted for both (\<open>om\<close>, \<open>bt\<close>).
  \<^item> \<open>Floats\<close>: the IEEE numbers the code computes with, single and double, with the order of the
    language and the conversions it makes.
  \<^item> \<open>Json\<close>: JSON values, their numbers, equality, and dotted paths.

  \<^bold>\<open>Packets.\<close>
  \<^item> \<open>Packet_Ast\<close> (\<open>packets/ast.rs\<close>, \<open>coerce.rs\<close>): predicates, typed values, validation, lattice inference
    and materialisation of rules. A predicate is accepted exactly when its paths are well formed, no
    quantifier is nested and every Apply names an id and expects something.
  \<^item> \<open>Packet_Eval\<close> (\<open>apply.rs\<close>): evaluation with composition and both modes of application. Evaluation reads
    the store only at ids reachable from the predicate; a verdict is reached exactly when a rule fires.
  \<^item> \<open>Packet_Audit\<close> (\<open>audit.rs\<close>): fidelity reports, with the quotient in single precision.
  \<^item> \<open>Packet_Store\<close>, \<open>Packet_Compile\<close> (\<open>mod.rs\<close>, \<open>compile.rs\<close>, \<open>events.rs\<close>, \<open>tools/packets.rs\<close>): the scoped
    directories, compilation, the event log and the operations of the tools. What compiles keeps the
    invariant of the store and is read back.
  \<^item> \<open>Packet_Scanner\<close> (\<open>scanner.rs\<close>): aggregation of events in a window and the choice of repairs.

  \<^bold>\<open>Workflow engine.\<close>
  \<^item> \<open>Workflow_Schema\<close> (\<open>schema.rs\<close>, \<open>orchestration/atoms/types.rs\<close>): nodes, transitions, references.
  \<^item> \<open>Workflow_Compile\<close> (\<open>workflow/mod.rs\<close>): the checks of a workflow, reachability (equal to the reflexive
    transitive closure) and the summary.
  \<^item> \<open>Workflow_Context\<close> (\<open>context.rs\<close>, \<open>extractor.rs\<close>, \<open>template.rs\<close>): variables, outputs, templates.
  \<^item> \<open>Workflow_Wait\<close> (\<open>wait.rs\<close>, \<open>wait_nodes.rs\<close>, \<open>server/routes.rs\<close>): the registry of waits and signals.
  \<^item> \<open>Workflow_Ops\<close> (\<open>ops.rs\<close>, \<open>ops/\<close>): operations on variables and JSON repair.
  \<^item> \<open>Workflow_Transcript\<close>, \<open>Workflow_Provider\<close> (\<open>provider_events.rs\<close>, \<open>transcripts/\<close>): cursors, batches and
    the polling wait.
  \<^item> \<open>Workflow_Runner\<close>, \<open>Workflow_Nodes\<close>, \<open>Workflow_Fanout\<close>, \<open>Workflow_Engine\<close> (\<open>engine.rs\<close>, \<open>engine/\<close>): the state
    of a run as a record passed through the handlers, one definition per handler; an error carries the
    state it left behind.
  \<^item> \<open>Workflow_Invariants\<close>, \<open>Workflow_Guarantees\<close>, \<open>Workflow_Fanout_Guarantees\<close>: invariants of a run (typed
    variables, outputs, visits, registered waits) through the locales \<open>runner_invariant\<close>, \<open>forking\<close> and
    \<open>arc_invariant\<close>, and the bounds and completeness of a fanout.
  \<^item> \<open>Workflow_Walk\<close>: the walk as an inductive step relation, which the loop implements; locale \<open>walk\<close>.

  \<^bold>\<open>Event bus.\<close>
  \<^item> \<open>Events_Types\<close> (\<open>types.rs\<close>): events, records of the outbox, reactions and their actions.
  \<^item> \<open>Events_Outbox\<close> (\<open>outbox.rs\<close>), \<open>Events_Journal\<close> (\<open>store.rs\<close>): files as lists of lines, each readable or
    broken; claim, settlement, recovery, compaction; causation chains.
  \<^item> \<open>Events_Reactions\<close> (\<open>reactions.rs\<close>, \<open>gate.rs\<close>), \<open>Events_Hub\<close> (\<open>hub.rs\<close>): validation, gates, dry runs,
    emission, installation and restoring of reactions.
  \<^item> \<open>Events_Worker\<close> (\<open>executors.rs\<close>), \<open>Events_Process\<close> (\<open>worker.rs\<close>, \<open>tools/system_events.rs\<close>,
    \<open>server/restore.rs\<close>): the actions, one tick of the worker, execution by hand and recovery.
  \<^item> \<open>Events_Redaction\<close>: secrets are removed, or the redaction panics. \<open>Events_Run\<close>: commands to the bus and
    their runs. \<open>Events_Guarantees\<close>: what a tick does to the outbox. \<open>Events_Safety\<close>: no key succeeds
    twice. \<open>Events_Laws\<close>: laws of single rows lifted to runs by the locale \<open>row_law\<close>, interpreted for the
    bound on attempts and the agreement of fields. \<open>Events_Promises\<close>: backoff, dry runs, restarts.

  \<^bold>\<open>Whiteboards.\<close>
  \<^item> \<open>Whiteboards\<close>: the boards, what they say, what an agent sees, the registry.
  \<^item> \<open>Whiteboard_Guarantees\<close>: invariants of every board, by the locale \<open>board_law\<close> (\<open>log\<close>, \<open>history\<close>).
  \<^item> \<open>Whiteboard_Promises\<close>: relations between a board and its later states, by the locale \<open>board_change\<close>
    (\<open>frozen\<close>, \<open>id\<close>). \<open>Whiteboard_Views\<close>: views, summaries and tallies. \<open>Whiteboard_Storage\<close>: conflicts
    and restarts.

  \<^bold>\<open>References and stores.\<close>
  \<^item> \<open>Entity_Ref\<close>, \<open>Entity_Ref_Guarantees\<close> (\<open>entity_ref.rs\<close>): the typed names, rendering and parsing, inverse
    to each other on what can be written, and the suggestion for a misspelt type, which is equal to the
    nearest one in the inductive edit distance.
  \<^item> \<open>Stores\<close> (\<open>json_store.rs\<close>): handles that share a file. The locale \<open>locked_store\<close> takes operations that
    answer as a specification does and gives that any number of handles answer as one; \<open>kept_store\<close>
    adds an invariant. Both are interpreted for threads (\<open>ts\<close>, \<open>tm\<close>) and the roadmap (\<open>rd\<close>).

  \<^bold>\<open>Threads and roadmap.\<close>
  \<^item> \<open>Threads\<close>, \<open>Threads_Guarantees\<close> (\<open>threads.rs\<close>): the actions under the lock, the committed records, get and
    list; the consistency of the store and when reading panics.
  \<^item> \<open>Roadmap\<close>, \<open>Roadmap_Guarantees\<close> (\<open>roadmap.rs\<close>): items, histories and edges; lawful histories.
  \<^item> \<open>Roadmap_Tools\<close>, \<open>Roadmap_Promises\<close> (\<open>tools/roadmap.rs\<close>): the actions of the tool, the types of the
    targets of edges and the promotion to a thread; the witnesses of the stores.

  \<^bold>\<open>Councils.\<close>
  \<^item> \<open>Council\<close> (\<open>council/\<close>): posts, envelopes, and a worker per member as a machine whose steps any others
    may come between, the daemon's death included. \<open>Council_Guarantees\<close>: the invariant of its steps and a
    budget that every call of a member takes from. \<open>Council_Promises\<close>: the properties, over all runs.

  \<^bold>\<open>Bounds and fuel.\<close> Nested workflows recurse on the remaining depth, at most five levels. A run makes at
  most \<open>max_steps\<close> steps, 50 unless its caller says otherwise. A fanout has at most 256 items and 16 parallel children; its loop
  uses the number of items as fuel, and every round settles one child. A provider wait polls
  \<open>en_polls\<close> times; a deadline of \<open>secs\<close> seconds needs \<open>secs + 20 \<le> 20 * en_polls\<close>, which
  \<open>provider_wait_returns\<close> assumes. Chains of causes are
  followed for at most four events, as in the code. A member of a council is asked at most 468 times for a turn
  of the user: \<open>relay_credit\<close> of three relays, five mentions and three attempts. The worker of the event bus is given the number of its ticks.

  \<^bold>\<open>Parameters.\<close> What is not under \<open>src/\<close> is an argument of the definitions that use it: regular expressions,
  Unicode case mapping, serde's parser, clocks and fresh ids, the answers of providers, tools, HTTP servers and
  transcript adapters (the records \<open>server\<close>, \<open>event_lib\<close>, \<open>event_world\<close>). Where a property needs more
  of them than their type, it says so in its hypotheses (fresh ids are distinct, for instance).

  \<^bold>\<open>Not modelled.\<close> Pure input and output, HTTP and MCP plumbing, the terminal interfaces, and the subsystems
  whose logic lies in third-party syntax trees, indexes, processes or network services: refactoring and
  the macro planner, search, embeddings and vectors, knowledge and the edge index over the search index,
  code navigation, orchestration of provider processes, bridges and pollers. Writing a file does not fail
  in the model, but in the stores and for the posts of a council. Of log lines and messages only what the
  program reads back is kept. Operations of workflow hooks that call git, vectors or tools are
  parameters. \<open>board_template_scope\<close> is never called. Of the roadmap the ranking of \<open>next\<close> and the rendered
  documents, of councils their table and the command line of a member are left out. Every step of a
  council is taken to be on disk when it ends, although two workers may write in the other order.
  The inbox only gathers what other stores hold; notes and gaps repeat the pattern of threads.
\<close>

end
